(* ===== verification/Prelude.thy ===== *)
theory Prelude
  imports Complex_Main
begin

text \<open>
  The vocabulary every component shares.

  \<^item> Fallible code of the repository throws. A function that may throw returns
    \<open>'e + 'a\<close>: \<open>Inl\<close> is the thrown value, \<open>Inr\<close> the returned one. \<open>bindE\<close> is
    sequencing (the rest is skipped after a throw), \<open>seqE\<close> sequencing of a check that
    returns nothing, \<open>mapE\<close> is \<open>Array.map\<close> with a callback that may throw, \<open>forE\<close> a
    \<open>for ... of\<close> loop whose body may throw.
  \<^item> \<open>ok_iff\<close> collects the equations that turn \<open>= Inr x\<close> (the code returned) into what
    was checked on the way, so that a property of a long validator is one call of
    \<open>auto simp: ok_iff\<close>. \<open>code_defs\<close> collects definitions to unfold when a witness is
    evaluated.
  \<^item> The list facts at the end are used by the page validators and the calendar.
\<close>

named_theorems ok_iff \<open>when a fallible computation returns\<close>
named_theorems code_defs \<open>definitions unfolded to evaluate a witness\<close>

section \<open>Fallible computations\<close>

definition bindE :: "'e + 'a \<Rightarrow> ('a \<Rightarrow> 'e + 'b) \<Rightarrow> 'e + 'b" where
  "bindE m f = (case m of Inl e \<Rightarrow> Inl e | Inr x \<Rightarrow> f x)"

definition seqE :: "'e + unit \<Rightarrow> 'e + 'b \<Rightarrow> 'e + 'b" where
  "seqE m k = (case m of Inl e \<Rightarrow> Inl e | Inr _ \<Rightarrow> k)"

fun mapE :: "('a \<Rightarrow> 'e + 'b) \<Rightarrow> 'a list \<Rightarrow> 'e + 'b list" where
  "mapE f [] = Inr []"
| "mapE f (x # xs) = bindE (f x) (\<lambda>y. bindE (mapE f xs) (\<lambda>ys. Inr (y # ys)))"

fun forE :: "('a \<Rightarrow> 'e + 'b) \<Rightarrow> 'a list \<Rightarrow> 'e + unit" where
  "forE f [] = Inr ()"
| "forE f (x # xs) = bindE (f x) (\<lambda>_. forE f xs)"

definition isOk :: "'e + 'a \<Rightarrow> bool" where
  "isOk m = (case m of Inl _ \<Rightarrow> False | Inr _ \<Rightarrow> True)"

text \<open>A computation returned a value with the property: what a witness evaluates.\<close>

fun holds :: "('a \<Rightarrow> bool) \<Rightarrow> 'e + 'a \<Rightarrow> bool" where
  "holds P (Inl e) = False"
| "holds P (Inr x) = P x"

lemma holds_iff: "holds P m \<longleftrightarrow> (\<exists>x. m = Inr x \<and> P x)"
  by (cases m) auto

lemma bindE_simps [simp]:
  "bindE (Inl e) f = Inl e" "bindE (Inr x) f = f x"
  by (simp_all add: bindE_def)

lemma seqE_simps [simp]:
  "seqE (Inl e) k = Inl e" "seqE (Inr u) k = k"
  by (simp_all add: seqE_def)

lemma isOk_simps [simp]: "isOk (Inl e) = False" "isOk (Inr x) = True"
  by (simp_all add: isOk_def)

lemma isOk_iff: "isOk m \<longleftrightarrow> (\<exists>x. m = Inr x)"
  by (cases m) auto

lemma bindE_ok [ok_iff]: "bindE m f = Inr y \<longleftrightarrow> (\<exists>x. m = Inr x \<and> f x = Inr y)"
  by (cases m) auto

lemma seqE_ok [ok_iff]: "seqE m k = Inr y \<longleftrightarrow> m = Inr () \<and> k = Inr y"
  by (cases m) auto

lemma bindE_fail: "bindE m f = Inl e \<longleftrightarrow> m = Inl e \<or> (\<exists>x. m = Inr x \<and> f x = Inl e)"
  by (cases m) auto

lemma seqE_fail: "seqE m k = Inl e \<longleftrightarrow> m = Inl e \<or> (m = Inr () \<and> k = Inl e)"
  by (cases m) auto

lemma if_Inl_ok [ok_iff]: "(if b then Inl e else m) = Inr y \<longleftrightarrow> \<not> b \<and> m = Inr y"
  by simp

lemma if_None_ok: "(if b then Inr None else m) = Inr (Some y) \<longleftrightarrow> \<not> b \<and> m = Inr (Some y)"
  by simp

lemma mapE_ok [ok_iff]: "mapE f xs = Inr ys \<longleftrightarrow> list_all2 (\<lambda>x y. f x = Inr y) xs ys"
  by (induction xs arbitrary: ys) (auto simp: ok_iff list_all2_Cons1)

lemma forE_ok [ok_iff]: "forE f xs = Inr u \<longleftrightarrow> (\<forall>x\<in>set xs. \<exists>y. f x = Inr y)"
  by (induction xs) (auto simp: ok_iff)

lemma mapE_cong_fun [fundef_cong]:
  "xs = ys \<Longrightarrow> (\<And>x. x \<in> set ys \<Longrightarrow> f x = g x) \<Longrightarrow> mapE f xs = mapE g ys"
proof (induction xs arbitrary: ys)
  case (Cons x xs)
  then show ?case by (cases ys) auto
qed simp

lemma mapE_length: "mapE f xs = Inr ys \<Longrightarrow> length ys = length xs"
  by (auto simp: ok_iff dest: list_all2_lengthD)

lemma mapE_set_ok:
  assumes "mapE f xs = Inr ys" and "y \<in> set ys"
  shows "\<exists>x\<in>set xs. f x = Inr y"
  using assms by (auto simp: ok_iff list_all2_conv_all_nth in_set_conv_nth) (metis nth_mem)

lemma mapE_id:
  assumes "mapE f xs = Inr ys" and "\<And>x y. f x = Inr y \<Longrightarrow> g y = h x"
  shows "map g ys = map h xs"
  using assms by (auto simp: ok_iff list_all2_conv_all_nth intro!: nth_equalityI)

section \<open>Lists\<close>

text \<open>The code tests for duplicates with \<open>new Set(xs).size !== xs.length\<close>.\<close>

definition set_size :: "'a list \<Rightarrow> nat" where
  "set_size xs = length (remdups xs)"

lemma set_size_card: "set_size xs = card (set xs)"
  by (simp add: set_size_def length_remdups_card_conv)

lemma set_size_distinct [simp]: "set_size xs = length xs \<longleftrightarrow> distinct xs"
  by (auto simp: set_size_card distinct_card card_distinct)

lemma sorted_wrt_append_last:
  assumes "sorted_wrt P xs" and "sorted_wrt P ys" and "transp P"
    and "xs \<noteq> [] \<Longrightarrow> ys \<noteq> [] \<Longrightarrow> P (last xs) (hd ys)"
  shows "sorted_wrt P (xs @ ys)"
proof -
  have "P x y" if x: "x \<in> set xs" and y: "y \<in> set ys" for x y
  proof -
    from x y have ne: "xs \<noteq> []" "ys \<noteq> []" by auto
    have "x = last xs \<or> P x (last xs)"
      using assms(1) x ne by (induction xs) auto
    moreover have "y = hd ys \<or> P (hd ys) y"
      using assms(2) y ne by (cases ys) auto
    ultimately show ?thesis using assms(3,4) ne by (metis transpE)
  qed
  with assms(1,2) show ?thesis by (simp add: sorted_wrt_append)
qed

lemma sorted_wrt_irrefl_distinct:
  "sorted_wrt P xs \<Longrightarrow> (\<And>x. \<not> P x x) \<Longrightarrow> distinct xs"
  by (induction xs) auto

lemma sum_list_int_nonneg: "(\<And>x. x \<in> set xs \<Longrightarrow> (0::int) \<le> f x) \<Longrightarrow> 0 \<le> sum_list (map f xs)"
  by (induction xs) auto

end
