(* ===== verification/JsValue.thy ===== *)
theory JsValue
  imports Prelude
begin

text \<open>
  The JavaScript values the code computes with, as far as it uses them.

  \<^item> \<open>jsnum\<close>: a number is \<open>NaN\<close>, an infinity or a finite value. Finite values are exact
    rationals; the code compares them, tests them for being integers and adds integers below
    \<open>2 ^ 53\<close>, where doubles are exact. Rounding of fractions is not modelled.
  \<^item> \<open>string\<close>: a JavaScript string is held as its UTF-8 bytes. \<open>js_length\<close> counts UTF-16 code
    units, as \<open>.length\<close> does; \<open>js_take\<close> is \<open>.slice(0, n)\<close>; \<open>js_trim\<close> removes the white
    space of ECMAScript (the non-ASCII characters included).
  \<^item> \<open>json\<close>: the \<open>unknown\<close> values that come out of \<open>JSON.parse\<close> and the storage, with
    \<open>JUndef\<close> for a missing property. The properties of an object are an association list in
    their order; \<open>fld\<close> reads one.
  \<^item> \<open>uk\<close> spells the Ukrainian literals of the code in ASCII, one character per letter
    (the table is in its definition; braces enclose Latin text), and yields their UTF-8 bytes.
\<close>

unbundle bit_operations_syntax

section \<open>Numbers\<close>

datatype jsnum = NaN | PosInf | NegInf | Fin rat

definition max_safe :: int where
  "max_safe = 9007199254740991"

fun num_finite :: "jsnum \<Rightarrow> bool" where
  "num_finite (Fin _) = True"
| "num_finite _ = False"

fun num_integer :: "jsnum \<Rightarrow> bool" where
  "num_integer (Fin q) = (of_int \<lfloor>q\<rfloor> = q)"
| "num_integer _ = False"

fun num_safe_integer :: "jsnum \<Rightarrow> bool" where
  "num_safe_integer (Fin q) = (of_int \<lfloor>q\<rfloor> = q \<and> \<bar>\<lfloor>q\<rfloor>\<bar> \<le> max_safe)"
| "num_safe_integer _ = False"

fun num_lt :: "jsnum \<Rightarrow> jsnum \<Rightarrow> bool" where
  "num_lt (Fin a) (Fin b) = (a < b)"
| "num_lt NegInf (Fin _) = True"
| "num_lt NegInf PosInf = True"
| "num_lt (Fin _) PosInf = True"
| "num_lt _ _ = False"

text \<open>\<open>a <= b\<close>: false when either is \<open>NaN\<close>.\<close>

fun num_le :: "jsnum \<Rightarrow> jsnum \<Rightarrow> bool" where
  "num_le NaN _ = False"
| "num_le _ NaN = False"
| "num_le a b = (\<not> num_lt b a)"

text \<open>\<open>a === b\<close>: \<open>NaN\<close> differs from itself.\<close>

definition num_eq :: "jsnum \<Rightarrow> jsnum \<Rightarrow> bool" where
  "num_eq a b = (a \<noteq> NaN \<and> a = b)"

fun num_rat :: "jsnum \<Rightarrow> rat" where
  "num_rat (Fin q) = q"
| "num_rat _ = 0"

text \<open>\<open>Math.round\<close>: the nearest integer, halves towards plus infinity.\<close>

definition math_round :: "rat \<Rightarrow> int" where
  "math_round q = \<lfloor>q + 1 / 2\<rfloor>"

lemma num_safe_imp_integer: "num_safe_integer n \<Longrightarrow> num_integer n"
  by (cases n) auto

lemma num_integer_imp_finite: "num_integer n \<Longrightarrow> num_finite n"
  by (cases n) auto

lemma num_integer_Fin_of_int [simp]: "num_integer (Fin (of_int i))"
  by simp

lemma num_integer_cases: "num_integer n \<longleftrightarrow> (\<exists>i. n = Fin (of_int i))"
proof (cases n)
  case (Fin q)
  then show ?thesis by (metis floor_of_int num_integer.simps(1))
qed auto

section \<open>Strings\<close>

definition code_unit_width :: "char \<Rightarrow> nat" where
  "code_unit_width c =
     (let n = of_char c :: nat in if 128 \<le> n \<and> n < 192 then 0 else if 240 \<le> n then 2 else 1)"

definition js_length :: "string \<Rightarrow> nat" where
  "js_length s = sum_list (map code_unit_width s)"

fun js_take :: "nat \<Rightarrow> string \<Rightarrow> string" where
  "js_take k [] = []"
| "js_take k (c # cs) =
     (if code_unit_width c \<le> k then c # js_take (k - code_unit_width c) cs else [])"

definition white_space :: "string list" where
  "white_space =
     [[CHR 0x09], [CHR 0x0A], [CHR 0x0B], [CHR 0x0C], [CHR 0x0D], [CHR 0x20],
      [CHR 0xC2, CHR 0xA0], [CHR 0xE1, CHR 0x9A, CHR 0x80],
      [CHR 0xE2, CHR 0x80, CHR 0x80], [CHR 0xE2, CHR 0x80, CHR 0x81],
      [CHR 0xE2, CHR 0x80, CHR 0x82], [CHR 0xE2, CHR 0x80, CHR 0x83],
      [CHR 0xE2, CHR 0x80, CHR 0x84], [CHR 0xE2, CHR 0x80, CHR 0x85],
      [CHR 0xE2, CHR 0x80, CHR 0x86], [CHR 0xE2, CHR 0x80, CHR 0x87],
      [CHR 0xE2, CHR 0x80, CHR 0x88], [CHR 0xE2, CHR 0x80, CHR 0x89],
      [CHR 0xE2, CHR 0x80, CHR 0x8A], [CHR 0xE2, CHR 0x80, CHR 0xA8],
      [CHR 0xE2, CHR 0x80, CHR 0xA9], [CHR 0xE2, CHR 0x80, CHR 0xAF],
      [CHR 0xE2, CHR 0x81, CHR 0x9F], [CHR 0xE3, CHR 0x80, CHR 0x80],
      [CHR 0xEF, CHR 0xBB, CHR 0xBF]]"

text \<open>Remove leading occurrences of any of the (non-empty) words.\<close>

definition starts_with :: "string \<Rightarrow> string \<Rightarrow> bool" where
  "starts_with p s = (take (length p) s = p)"

definition ends_with :: "string \<Rightarrow> string \<Rightarrow> bool" where
  "ends_with p s = starts_with (rev p) (rev s)"

function strip :: "string list \<Rightarrow> string \<Rightarrow> string" where
  "strip ws s =
     (case List.find (\<lambda>w. w \<noteq> [] \<and> starts_with w s) ws of
        None \<Rightarrow> s
      | Some w \<Rightarrow> strip ws (drop (length w) s))"
  by pat_completeness auto
termination
proof (relation "measure (\<lambda>(ws, s). length s)")
  fix ws :: "string list" and s w
  assume "List.find (\<lambda>w. w \<noteq> [] \<and> starts_with w s) ws = Some w"
  then have "w \<noteq> []" and "starts_with w s" by (auto simp: find_Some_iff)
  then show "((ws, drop (length w) s), ws, s) \<in> measure (\<lambda>(ws, s). length s)"
    by (cases s) (auto simp: starts_with_def)
qed simp

declare strip.simps [simp del]

definition js_trim_start :: "string \<Rightarrow> string" where
  "js_trim_start s = strip white_space s"

definition js_trim_end :: "string \<Rightarrow> string" where
  "js_trim_end s = rev (strip (map rev white_space) (rev s))"

definition js_trim :: "string \<Rightarrow> string" where
  "js_trim s = js_trim_end (js_trim_start s)"

text \<open>\<open>!value.trim()\<close>: nothing but white space.\<close>

definition js_blank :: "string \<Rightarrow> bool" where
  "js_blank s = (js_trim s = [])"

text \<open>\<open>toLowerCase\<close> and \<open>toUpperCase\<close> on the ASCII letters; other letters are unchanged.\<close>

definition char_lower :: "char \<Rightarrow> char" where
  "char_lower c =
     (let n = of_char c :: nat in if 65 \<le> n \<and> n \<le> 90 then char_of (n + 32) else c)"

definition char_upper :: "char \<Rightarrow> char" where
  "char_upper c =
     (let n = of_char c :: nat in if 97 \<le> n \<and> n \<le> 122 then char_of (n - 32) else c)"

definition js_lower :: "string \<Rightarrow> string" where
  "js_lower s = map char_lower s"

definition js_upper :: "string \<Rightarrow> string" where
  "js_upper s = map char_upper s"

definition js_includes :: "string \<Rightarrow> string \<Rightarrow> bool" where
  "js_includes s p = (\<exists>k \<in> set [0 ..< Suc (length s)]. starts_with p (drop k s))"

text \<open>\<open>a < b\<close> on strings. Code points are ordered as UTF-8 bytes are.\<close>

fun str_lt :: "string \<Rightarrow> string \<Rightarrow> bool" where
  "str_lt _ [] = False"
| "str_lt [] (_ # _) = True"
| "str_lt (a # as) (b # bs) =
     ((of_char a :: nat) < of_char b \<or> (a = b \<and> str_lt as bs))"

definition is_digit :: "char \<Rightarrow> bool" where
  "is_digit c = (let n = of_char c :: nat in 48 \<le> n \<and> n \<le> 57)"

definition digit_val :: "char \<Rightarrow> int" where
  "digit_val c = int (of_char c) - 48"

definition is_hex_lower :: "char \<Rightarrow> bool" where
  "is_hex_lower c = (let n = of_char c :: nat in (48 \<le> n \<and> n \<le> 57) \<or> (97 \<le> n \<and> n \<le> 102))"

definition is_hex :: "char \<Rightarrow> bool" where
  "is_hex c = is_hex_lower (char_lower c)"

definition is_alnum :: "char \<Rightarrow> bool" where
  "is_alnum c =
     (let n = of_char c :: nat
      in (48 \<le> n \<and> n \<le> 57) \<or> (65 \<le> n \<and> n \<le> 90) \<or> (97 \<le> n \<and> n \<le> 122))"

text \<open>The decimal digits of an integer, as \<open>String(n)\<close> prints it.\<close>

definition digit_char :: "nat \<Rightarrow> char" where
  "digit_char d = char_of (48 + d)"

fun show_nat :: "nat \<Rightarrow> string" where
  "show_nat n = (if n < 10 then [digit_char n] else show_nat (n div 10) @ [digit_char (n mod 10)])"

declare show_nat.simps [simp del]

definition show_int :: "int \<Rightarrow> string" where
  "show_int i = (if i < 0 then ''-'' @ show_nat (nat (- i)) else show_nat (nat i))"

definition pad_start :: "nat \<Rightarrow> char \<Rightarrow> string \<Rightarrow> string" where
  "pad_start n c s = replicate (n - length s) c @ s"

definition digits_val :: "string \<Rightarrow> int" where
  "digits_val s = foldl (\<lambda>v c. 10 * v + digit_val c) 0 s"

text \<open>
  \<open>Number(text)\<close>: a decimal numeral with optional sign, fraction and exponent, surrounded by
  white space; the empty text is 0; anything else is \<open>NaN\<close>. (Hexadecimal, octal and binary
  literals and \<open>Infinity\<close> are included as the language reads them.)
\<close>

definition split_digits :: "string \<Rightarrow> string \<times> string" where
  "split_digits s = (takeWhile is_digit s, dropWhile is_digit s)"

definition pow10 :: "int \<Rightarrow> rat" where
  "pow10 e = (if 0 \<le> e then 10 ^ nat e else 1 / 10 ^ nat (- e))"

definition read_exponent :: "string \<Rightarrow> int option" where
  "read_exponent s =
     (case s of
        [] \<Rightarrow> Some 0
      | c # r \<Rightarrow>
          if c = CHR ''e'' \<or> c = CHR ''E'' then
            (let (neg, ds) = (case r of
                 [] \<Rightarrow> (False, [])
               | d # t \<Rightarrow> if d = CHR ''-'' then (True, t) else if d = CHR ''+'' then (False, t)
                          else (False, r))
             in if ds \<noteq> [] \<and> list_all is_digit ds
                then Some (if neg then - digits_val ds else digits_val ds) else None)
          else None)"

definition read_unsigned :: "string \<Rightarrow> jsnum" where
  "read_unsigned s =
     (if s = ''Infinity'' then PosInf else
      (let (ip, r) = split_digits s;
           (fp, r') = (case r of c # t \<Rightarrow> if c = CHR ''.'' then split_digits t else ([], r) | [] \<Rightarrow> ([], []))
       in if ip = [] \<and> fp = [] then NaN
          else case read_exponent r' of
                 None \<Rightarrow> NaN
               | Some e \<Rightarrow> Fin (of_int (digits_val (ip @ fp)) * pow10 (e - int (length fp)))))"

fun num_neg :: "jsnum \<Rightarrow> jsnum" where
  "num_neg NaN = NaN"
| "num_neg PosInf = NegInf"
| "num_neg NegInf = PosInf"
| "num_neg (Fin q) = Fin (- q)"

definition hex_val :: "char \<Rightarrow> int" where
  "hex_val c = (if is_digit c then digit_val c else int (of_char (char_lower c)) - 87)"

definition read_radix :: "int \<Rightarrow> string \<Rightarrow> jsnum" where
  "read_radix b s =
     (if s \<noteq> [] \<and> list_all (\<lambda>c. is_hex c \<and> hex_val c < b) s
      then Fin (of_int (foldl (\<lambda>v c. b * v + hex_val c) 0 s)) else NaN)"

definition js_number :: "string \<Rightarrow> jsnum" where
  "js_number text =
     (case js_trim text of
        [] \<Rightarrow> Fin 0
      | c # r \<Rightarrow>
          if c = CHR ''-'' then num_neg (read_unsigned r)
          else if c = CHR ''+'' then read_unsigned r
          else if js_lower (take 2 (c # r)) = ''0x'' then read_radix 16 (drop 2 (c # r))
          else if js_lower (take 2 (c # r)) = ''0o'' then read_radix 8 (drop 2 (c # r))
          else if js_lower (take 2 (c # r)) = ''0b'' then read_radix 2 (drop 2 (c # r))
          else read_unsigned (c # r))"

section \<open>Ukrainian literals\<close>

definition uk_table :: "(char \<times> string) list" where
  "uk_table =
     [(CHR ''a'', [CHR 0xD0, CHR 0xB0]), (CHR ''b'', [CHR 0xD0, CHR 0xB1]),
      (CHR ''v'', [CHR 0xD0, CHR 0xB2]), (CHR ''h'', [CHR 0xD0, CHR 0xB3]),
      (CHR ''g'', [CHR 0xD2, CHR 0x91]), (CHR ''d'', [CHR 0xD0, CHR 0xB4]),
      (CHR ''e'', [CHR 0xD0, CHR 0xB5]), (CHR ''#'', [CHR 0xD1, CHR 0x94]),
      (CHR ''*'', [CHR 0xD0, CHR 0xB6]), (CHR ''z'', [CHR 0xD0, CHR 0xB7]),
      (CHR ''y'', [CHR 0xD0, CHR 0xB8]), (CHR ''i'', [CHR 0xD1, CHR 0x96]),
      (CHR ''~'', [CHR 0xD1, CHR 0x97]), (CHR ''j'', [CHR 0xD0, CHR 0xB9]),
      (CHR ''k'', [CHR 0xD0, CHR 0xBA]), (CHR ''l'', [CHR 0xD0, CHR 0xBB]),
      (CHR ''m'', [CHR 0xD0, CHR 0xBC]), (CHR ''n'', [CHR 0xD0, CHR 0xBD]),
      (CHR ''o'', [CHR 0xD0, CHR 0xBE]), (CHR ''p'', [CHR 0xD0, CHR 0xBF]),
      (CHR ''r'', [CHR 0xD1, CHR 0x80]), (CHR ''s'', [CHR 0xD1, CHR 0x81]),
      (CHR ''t'', [CHR 0xD1, CHR 0x82]), (CHR ''u'', [CHR 0xD1, CHR 0x83]),
      (CHR ''f'', [CHR 0xD1, CHR 0x84]), (CHR ''x'', [CHR 0xD1, CHR 0x85]),
      (CHR ''c'', [CHR 0xD1, CHR 0x86]), (CHR ''^'', [CHR 0xD1, CHR 0x87]),
      (CHR ''w'', [CHR 0xD1, CHR 0x88]), (CHR ''q'', [CHR 0xD1, CHR 0x89]),
      (CHR ''='', [CHR 0xD1, CHR 0x8C]), (CHR ''$'', [CHR 0xD1, CHR 0x8E]),
      (CHR ''@'', [CHR 0xD1, CHR 0x8F]),
      (CHR ''A'', [CHR 0xD0, CHR 0x90]), (CHR ''B'', [CHR 0xD0, CHR 0x91]),
      (CHR ''V'', [CHR 0xD0, CHR 0x92]), (CHR ''H'', [CHR 0xD0, CHR 0x93]),
      (CHR ''D'', [CHR 0xD0, CHR 0x94]), (CHR ''E'', [CHR 0xD0, CHR 0x95]),
      (CHR ''Z'', [CHR 0xD0, CHR 0x97]), (CHR ''Y'', [CHR 0xD0, CHR 0x98]),
      (CHR ''I'', [CHR 0xD0, CHR 0x86]), (CHR ''J'', [CHR 0xD0, CHR 0x99]),
      (CHR ''K'', [CHR 0xD0, CHR 0x9A]), (CHR ''L'', [CHR 0xD0, CHR 0x9B]),
      (CHR ''M'', [CHR 0xD0, CHR 0x9C]), (CHR ''N'', [CHR 0xD0, CHR 0x9D]),
      (CHR ''O'', [CHR 0xD0, CHR 0x9E]), (CHR ''P'', [CHR 0xD0, CHR 0x9F]),
      (CHR ''R'', [CHR 0xD0, CHR 0xA0]), (CHR ''S'', [CHR 0xD0, CHR 0xA1]),
      (CHR ''T'', [CHR 0xD0, CHR 0xA2]), (CHR ''U'', [CHR 0xD0, CHR 0xA3]),
      (CHR ''F'', [CHR 0xD0, CHR 0xA4]), (CHR ''X'', [CHR 0xD0, CHR 0xA5]),
      (CHR ''C'', [CHR 0xD0, CHR 0xA6]), (CHR ''W'', [CHR 0xD0, CHR 0xA8]),
      (CHR ''Q'', [CHR 0xD0, CHR 0xA9]),
      (CHR ''<'', [CHR 0xD0, CHR 0x84]), (CHR ''>'', [CHR 0xD0, CHR 0xA7]),
      (CHR ''|'', [CHR 0xE2, CHR 0x80, CHR 0x99]), (CHR ''%'', [CHR 0xC2, CHR 0xB7]),
      (CHR ''_'', [CHR 0xE2, CHR 0x84, CHR 0x96]), (CHR ''&'', [CHR 0xE2, CHR 0x80, CHR 0xA6])]"

fun uk_in :: "bool \<Rightarrow> string \<Rightarrow> string" where
  "uk_in latin [] = []"
| "uk_in latin (c # cs) =
     (if c = CHR ''{'' then uk_in True cs
      else if c = CHR ''}'' then uk_in False cs
      else (if latin then [c] else case map_of uk_table c of None \<Rightarrow> [c] | Some u \<Rightarrow> u) @ uk_in latin cs)"

definition uk :: "string \<Rightarrow> string" where
  "uk s = uk_in False s"

section \<open>Values\<close>

datatype json =
    JUndef
  | JNull
  | JBool bool
  | JNum jsnum
  | JStr string
  | JArr "json list"
  | JObj "(string \<times> json) list"

text \<open>Property access: an absent property, and any property of a value that is not an object,
  reads as \<open>undefined\<close> (the code never reads a property of \<open>null\<close> or \<open>undefined\<close>).\<close>

fun fld :: "json \<Rightarrow> string \<Rightarrow> json" where
  "fld (JObj ps) k = (case map_of ps k of None \<Rightarrow> JUndef | Some v \<Rightarrow> v)"
| "fld _ k = JUndef"

fun obj_keys :: "json \<Rightarrow> string list" where
  "obj_keys (JObj ps) = map fst ps"
| "obj_keys _ = []"

fun is_string :: "json \<Rightarrow> bool" where
  "is_string (JStr _) = True"
| "is_string _ = False"

fun is_bool :: "json \<Rightarrow> bool" where
  "is_bool (JBool _) = True"
| "is_bool _ = False"

fun is_array :: "json \<Rightarrow> bool" where
  "is_array (JArr _) = True"
| "is_array _ = False"

fun elems :: "json \<Rightarrow> json list" where
  "elems (JArr xs) = xs"
| "elems _ = []"

fun str_of :: "json \<Rightarrow> string" where
  "str_of (JStr s) = s"
| "str_of _ = []"

definition is_nullish :: "json \<Rightarrow> bool" where
  "is_nullish v = (v = JNull \<or> v = JUndef)"

text \<open>\<open>typeof v === "number"\<close> with the test of \<open>Number.isFinite\<close>, \<open>isInteger\<close>, \<open>isSafeInteger\<close>;
  these return false for a value of another type.\<close>

fun is_number :: "json \<Rightarrow> bool" where
  "is_number (JNum _) = True"
| "is_number _ = False"

fun is_finite :: "json \<Rightarrow> bool" where
  "is_finite (JNum n) = num_finite n"
| "is_finite _ = False"

fun is_integer :: "json \<Rightarrow> bool" where
  "is_integer (JNum n) = num_integer n"
| "is_integer _ = False"

fun is_safe_integer :: "json \<Rightarrow> bool" where
  "is_safe_integer (JNum n) = num_safe_integer n"
| "is_safe_integer _ = False"

fun rat_of :: "json \<Rightarrow> rat" where
  "rat_of (JNum n) = num_rat n"
| "rat_of _ = 0"

text \<open>The value of an integer; the code compares integers only after testing that they are.\<close>

definition int_of :: "json \<Rightarrow> int" where
  "int_of v = \<lfloor>rat_of v\<rfloor>"

text \<open>\<open>a === b\<close> on primitive values (two objects or arrays are equal only as references: the
  code compares primitives).\<close>

fun js_eq :: "json \<Rightarrow> json \<Rightarrow> bool" where
  "js_eq (JNum a) (JNum b) = num_eq a b"
| "js_eq (JArr _) _ = False"
| "js_eq (JObj _) _ = False"
| "js_eq a b = (a = b)"

text \<open>
  \<open>String(v)\<close>. An integer prints as its digits, another finite number as its decimals (the
  exponent notation for very large and very small numbers is not modelled), an array as its
  elements joined by commas.
\<close>

fun decimal_places :: "nat \<Rightarrow> rat \<Rightarrow> nat" where
  "decimal_places 0 q = 0"
| "decimal_places (Suc k) q = (if of_int \<lfloor>q\<rfloor> = q then 0 else Suc (decimal_places k (10 * q)))"

definition show_decimal :: "rat \<Rightarrow> string" where
  "show_decimal q =
     (let k = decimal_places 17 \<bar>q\<bar>; n = nat \<lfloor>\<bar>q\<bar> * 10 ^ k\<rfloor>
      in (if q < 0 then ''-'' else []) @ show_nat (n div 10 ^ k) @
         (if k = 0 then [] else ''.'' @ pad_start k (CHR ''0'') (show_nat (n mod 10 ^ k))))"

fun show_num :: "jsnum \<Rightarrow> string" where
  "show_num NaN = ''NaN''"
| "show_num PosInf = ''Infinity''"
| "show_num NegInf = ''-Infinity''"
| "show_num (Fin q) = show_decimal q"

fun js_join :: "string \<Rightarrow> string list \<Rightarrow> string" where
  "js_join sep [] = []"
| "js_join sep [x] = x"
| "js_join sep (x # y # xs) = x @ sep @ js_join sep (y # xs)"

fun js_string :: "json \<Rightarrow> string" where
  "js_string (JStr s) = s"
| "js_string JUndef = ''undefined''"
| "js_string JNull = ''null''"
| "js_string (JBool b) = (if b then ''true'' else ''false'')"
| "js_string (JNum n) = show_num n"
| "js_string (JArr xs) = js_join '','' (map (\<lambda>x. if is_nullish x then [] else js_string x) xs)"
| "js_string (JObj _) = ''[object Object]''"

text \<open>\<open>Number(v)\<close>.\<close>

fun js_to_number :: "json \<Rightarrow> jsnum" where
  "js_to_number (JNum n) = n"
| "js_to_number (JStr s) = js_number s"
| "js_to_number JNull = Fin 0"
| "js_to_number (JBool b) = Fin (if b then 1 else 0)"
| "js_to_number JUndef = NaN"
| "js_to_number (JArr xs) = js_number (js_string (JArr xs))"
| "js_to_number (JObj _) = NaN"

text \<open>\<open>!!v\<close>.\<close>

fun truthy :: "json \<Rightarrow> bool" where
  "truthy JUndef = False"
| "truthy JNull = False"
| "truthy (JBool b) = b"
| "truthy (JNum n) = (n \<noteq> NaN \<and> n \<noteq> Fin 0)"
| "truthy (JStr s) = (s \<noteq> [])"
| "truthy _ = True"

lemma str_of_eq: "is_string v \<Longrightarrow> str_of v = s \<longleftrightarrow> v = JStr s"
  by (cases v) auto

lemma is_integer_finite: "is_integer v \<Longrightarrow> is_finite v"
  by (cases v) (auto intro: num_integer_imp_finite)

lemma is_safe_integer_integer: "is_safe_integer v \<Longrightarrow> is_integer v"
  by (cases v) (auto intro: num_safe_imp_integer)

lemma is_integer_rat_of: "is_integer v \<Longrightarrow> rat_of v = of_int (int_of v)"
  by (cases v) (auto simp: num_integer_cases int_of_def)

lemma js_eq_refl_finite: "is_finite v \<Longrightarrow> js_eq v v"
  by (cases v; cases "case v of JNum n \<Rightarrow> n") (auto simp: num_eq_def)

end
