(* ===== verification/MapBounded.thy ===== *)
theory MapBounded
  imports JsValue
begin

text \<open>
  The bounded scheduler \<open>mapBounded\<close> of \<open>lib/api/inventory.ts\<close> as a state machine.

  \<open>mb_start\<close> is the code up to \<open>Promise.all\<close>: it refuses a concurrency that is not a positive
  safe integer and creates \<open>min(concurrency, n)\<close> workers. A worker is idle at the head of its
  loop, busy with the index it took, done (it found no index left) or has thrown (the signal was
  aborted when it wanted an index, or its task failed). The rules of \<open>mb_step\<close> are the stretches
  of a worker between two \<open>await\<close>s, cut finer than JavaScript does, and the abort of the signal
  from outside. \<open>mb_outcome\<close> is what the promise of \<open>mapBounded\<close> has settled to. The task is a
  function \<open>task\<close> of the item; a task that rejects is the rule \<open>task_fails\<close>.
\<close>

datatype mb_worker = Idle | Busy nat | Done | Threw

record 'r mb_state =
  mb_next :: nat
  mb_workers :: "mb_worker list"
  mb_results :: "'r option list"
  mb_aborted :: bool

definition mb_start :: "'a list \<Rightarrow> jsnum \<Rightarrow> bool \<Rightarrow> 'r mb_state option" where
  "mb_start items concurrency aborted =
     (if \<not> num_safe_integer concurrency \<or> num_lt concurrency (Fin 1) then None
      else Some \<lparr> mb_next = 0,
        mb_workers = replicate (min (nat \<lfloor>num_rat concurrency\<rfloor>) (length items)) Idle,
        mb_results = replicate (length items) None, mb_aborted = aborted \<rparr>)"

inductive mb_step :: "('a \<Rightarrow> 'r) \<Rightarrow> 'a list \<Rightarrow> 'r mb_state \<Rightarrow> 'r mb_state \<Rightarrow> bool"
  for task :: "'a \<Rightarrow> 'r" and items :: "'a list" where
  take_index:
    "i < length (mb_workers s) \<Longrightarrow> mb_workers s ! i = Idle \<Longrightarrow> mb_next s < length items \<Longrightarrow>
     \<not> mb_aborted s \<Longrightarrow>
     mb_step task items s
       (s\<lparr>mb_next := Suc (mb_next s), mb_workers := (mb_workers s)[i := Busy (mb_next s)]\<rparr>)"
| no_index_left:
    "i < length (mb_workers s) \<Longrightarrow> mb_workers s ! i = Idle \<Longrightarrow> \<not> mb_next s < length items \<Longrightarrow>
     mb_step task items s (s\<lparr>mb_workers := (mb_workers s)[i := Done]\<rparr>)"
| throw_aborted:
    "i < length (mb_workers s) \<Longrightarrow> mb_workers s ! i = Idle \<Longrightarrow> mb_next s < length items \<Longrightarrow>
     mb_aborted s \<Longrightarrow>
     mb_step task items s (s\<lparr>mb_workers := (mb_workers s)[i := Threw]\<rparr>)"
| task_resolves:
    "i < length (mb_workers s) \<Longrightarrow> mb_workers s ! i = Busy k \<Longrightarrow>
     mb_step task items s
       (s\<lparr>mb_results := (mb_results s)[k := Some (task (items ! k))],
          mb_workers := (mb_workers s)[i := Idle]\<rparr>)"
| task_fails:
    "i < length (mb_workers s) \<Longrightarrow> mb_workers s ! i = Busy k \<Longrightarrow>
     mb_step task items s (s\<lparr>mb_workers := (mb_workers s)[i := Threw]\<rparr>)"
| signal_aborts:
    "\<not> mb_aborted s \<Longrightarrow> mb_step task items s (s\<lparr>mb_aborted := True\<rparr>)"

inductive mb_reachable :: "('a \<Rightarrow> 'r) \<Rightarrow> 'a list \<Rightarrow> jsnum \<Rightarrow> 'r mb_state \<Rightarrow> bool"
  for task :: "'a \<Rightarrow> 'r" and items :: "'a list" and concurrency :: jsnum where
  start: "mb_start items concurrency aborted = Some s \<Longrightarrow> mb_reachable task items concurrency s"
| step: "mb_reachable task items concurrency s \<Longrightarrow> mb_step task items s t \<Longrightarrow>
     mb_reachable task items concurrency t"

definition mb_outcome :: "'r mb_state \<Rightarrow> (unit + 'r option list) option" where
  "mb_outcome s =
     (if Threw \<in> set (mb_workers s) then Some (Inl ())
      else if list_all (\<lambda>w. w = Done) (mb_workers s) then
        Some (if mb_aborted s then Inl () else Inr (mb_results s))
      else None)"

fun busy_index :: "mb_worker \<Rightarrow> nat list" where
  "busy_index (Busy k) = [k]"
| "busy_index _ = []"

definition in_flight :: "'r mb_state \<Rightarrow> nat list" where
  "in_flight s = concat (map busy_index (mb_workers s))"

inductive_cases mb_stepE: "mb_step task items s t"

section \<open>The invariant\<close>

definition busy_unique :: "mb_worker list \<Rightarrow> bool" where
  "busy_unique ws \<longleftrightarrow>
     (\<forall>i < length ws. \<forall>j < length ws. \<forall>k. ws ! i = Busy k \<longrightarrow> ws ! j = Busy k \<longrightarrow> i = j)"

lemma busy_unique_replicate: "busy_unique (replicate n Idle)"
  by (simp add: busy_unique_def)

lemma busy_unique_update:
  assumes "busy_unique ws" and "\<And>k. x = Busy k \<Longrightarrow> Busy k \<notin> set ws"
  shows "busy_unique (ws[i := x])"
  unfolding busy_unique_def
proof (intro allI impI)
  fix a b k
  assume a: "a < length (ws[i := x])" "b < length (ws[i := x])"
    and e: "ws[i := x] ! a = Busy k" "ws[i := x] ! b = Busy k"
  show "a = b"
  proof (cases "x = Busy k")
    case True
    then have "Busy k \<notin> set ws" by (rule assms(2))
    then have "ws ! a \<noteq> Busy k" "ws ! b \<noteq> Busy k" using a by (auto dest: nth_mem)
    then have "a = i" "b = i" using e by (metis nth_list_update_neq)+
    then show ?thesis by simp
  next
    case False
    then have "a \<noteq> i" "b \<noteq> i" using e a by auto
    then have "ws ! a = Busy k" "ws ! b = Busy k" using e by simp_all
    moreover have "a < length ws" "b < length ws" using a by simp_all
    ultimately show ?thesis using assms(1) unfolding busy_unique_def by blast
  qed
qed

definition mb_inv :: "('a \<Rightarrow> 'r) \<Rightarrow> 'a list \<Rightarrow> nat \<Rightarrow> 'r mb_state \<Rightarrow> bool" where
  "mb_inv task items w s \<longleftrightarrow>
     length (mb_workers s) = w \<and> length (mb_results s) = length items \<and> mb_next s \<le> length items
     \<and> (\<forall>k. Busy k \<in> set (mb_workers s) \<longrightarrow> k < mb_next s)
     \<and> busy_unique (mb_workers s)
     \<and> (\<forall>k < length items. \<forall>r. mb_results s ! k = Some r \<longrightarrow> k < mb_next s \<and> r = task (items ! k))
     \<and> (\<forall>k < mb_next s. mb_results s ! k \<noteq> None \<or> Threw \<in> set (mb_workers s)
          \<or> Busy k \<in> set (mb_workers s))
     \<and> (Done \<in> set (mb_workers s) \<longrightarrow> mb_next s = length items)"

lemma mb_inv_start:
  assumes "mb_start items c a = Some s"
  shows "mb_inv task items (length (mb_workers s)) s"
  using assms by (auto simp: mb_start_def mb_inv_def busy_unique_replicate split: if_splits)

lemma mem_update: "v \<in> set ws \<Longrightarrow> ws ! i \<noteq> v \<Longrightarrow> v \<in> set (ws[i := x])"
  by (metis in_set_conv_nth length_list_update nth_list_update_neq)

lemma mem_update_rev: "v \<in> set (ws[i := x]) \<Longrightarrow> x \<noteq> v \<Longrightarrow> v \<in> set ws"
  using set_update_subset_insert by fastforce

lemma mb_inv_step:
  assumes "mb_step task items s t" and inv: "mb_inv task items w s"
  shows "mb_inv task items w t"
  using assms(1)
proof cases
  case (take_index i)
  let ?ws = "(mb_workers s)[i := Busy (mb_next s)]"
  have "busy_unique ?ws"
    using inv by (intro busy_unique_update) (auto simp: mb_inv_def)
  moreover have "Busy k \<in> set (mb_workers s) \<Longrightarrow> Busy k \<in> set ?ws" for k
    using take_index by (auto intro: mem_update)
  moreover have "Threw \<in> set (mb_workers s) \<Longrightarrow> Threw \<in> set ?ws"
    using take_index by (auto intro: mem_update)
  moreover have "Busy (mb_next s) \<in> set ?ws"
    using take_index by (auto intro: set_update_memI)
  moreover have "Busy k \<in> set ?ws \<Longrightarrow> k < Suc (mb_next s)" for k
    using inv mem_update_rev [of "Busy k" "mb_workers s" i "Busy (mb_next s)"]
    by (cases "k = mb_next s") (auto simp: mb_inv_def less_SucI)
  moreover have "Done \<notin> set ?ws"
    using inv take_index mem_update_rev [of Done "mb_workers s" i] by (auto simp: mb_inv_def)
  ultimately show ?thesis
    using inv take_index unfolding mb_inv_def by (auto simp: less_Suc_eq)
next
  case (no_index_left i)
  let ?ws = "(mb_workers s)[i := Done]"
  have "busy_unique ?ws"
    using inv by (intro busy_unique_update) (auto simp: mb_inv_def)
  moreover have "Busy k \<in> set ?ws \<longleftrightarrow> Busy k \<in> set (mb_workers s)" for k
    using no_index_left by (auto intro: mem_update dest: mem_update_rev)
  moreover have "Threw \<in> set ?ws \<longleftrightarrow> Threw \<in> set (mb_workers s)"
    using no_index_left by (auto intro: mem_update dest: mem_update_rev)
  ultimately show ?thesis
    using inv no_index_left unfolding mb_inv_def by auto
next
  case (throw_aborted i)
  let ?ws = "(mb_workers s)[i := Threw]"
  have "busy_unique ?ws"
    using inv by (intro busy_unique_update) (auto simp: mb_inv_def)
  moreover have "Threw \<in> set ?ws"
    using throw_aborted by (intro set_update_memI)
  moreover have "v \<in> set ?ws \<Longrightarrow> v \<noteq> Threw \<Longrightarrow> v \<in> set (mb_workers s)" for v
    by (auto dest: mem_update_rev)
  ultimately show ?thesis
    using inv throw_aborted unfolding mb_inv_def by auto
next
  case (task_resolves i k)
  let ?ws = "(mb_workers s)[i := Idle]"
  have "busy_unique ?ws"
    using inv by (intro busy_unique_update) (auto simp: mb_inv_def)
  moreover have "Busy j \<in> set (mb_workers s) \<Longrightarrow> j \<noteq> k \<Longrightarrow> Busy j \<in> set ?ws" for j
    using task_resolves by (auto intro: mem_update)
  moreover have "Threw \<in> set (mb_workers s) \<Longrightarrow> Threw \<in> set ?ws"
    using task_resolves by (auto intro: mem_update)
  moreover have "v \<in> set ?ws \<Longrightarrow> v \<noteq> Idle \<Longrightarrow> v \<in> set (mb_workers s)" for v
    by (auto dest: mem_update_rev)
  moreover have "k < mb_next s"
    using inv task_resolves nth_mem [of i "mb_workers s"] by (auto simp: mb_inv_def)
  ultimately show ?thesis
    using inv task_resolves unfolding mb_inv_def
    by (auto simp: nth_list_update split: if_splits)
next
  case (task_fails i k)
  let ?ws = "(mb_workers s)[i := Threw]"
  have "busy_unique ?ws"
    using inv by (intro busy_unique_update) (auto simp: mb_inv_def)
  moreover have "Threw \<in> set ?ws"
    using task_fails by (intro set_update_memI)
  moreover have "v \<in> set ?ws \<Longrightarrow> v \<noteq> Threw \<Longrightarrow> v \<in> set (mb_workers s)" for v
    by (auto dest: mem_update_rev)
  ultimately show ?thesis
    using inv task_fails unfolding mb_inv_def by auto
next
  case signal_aborts
  with inv show ?thesis by (simp add: mb_inv_def)
qed

lemma mb_step_workers: "mb_step task items s t \<Longrightarrow> length (mb_workers t) = length (mb_workers s)"
  by (induction rule: mb_step.induct) auto

lemma mb_reachable_inv:
  "mb_reachable task items c s \<Longrightarrow> mb_inv task items (length (mb_workers s)) s"
proof (induction rule: mb_reachable.induct)
  case (start a s)
  then show ?case by (rule mb_inv_start)
next
  case (step s t)
  then show ?case by (metis mb_inv_step mb_step_workers)
qed

lemma mb_reachable_workers:
  "mb_reachable task items c s \<Longrightarrow>
   length (mb_workers s) = min (nat \<lfloor>num_rat c\<rfloor>) (length items) \<and> 1 \<le> \<lfloor>num_rat c\<rfloor>"
proof (induction rule: mb_reachable.induct)
  case (start a s)
  then show ?case by (cases c) (auto simp: mb_start_def le_floor_iff split: if_splits)
next
  case (step s t)
  then show ?case by (simp add: mb_step_workers)
qed

section \<open>Results, bound, abort\<close>

lemma mb_outcome_results:
  assumes "mb_reachable task items c s" and "mb_outcome s = Some (Inr rs)"
  shows "rs = map (\<lambda>x. Some (task x)) items"
proof -
  let ?ws = "mb_workers s"
  have inv: "mb_inv task items (length ?ws) s"
    using assms(1) by (rule mb_reachable_inv)
  from assms(2) have noT: "Threw \<notin> set ?ws" and allD: "\<forall>w \<in> set ?ws. w = Done"
    and rs: "rs = mb_results s"
    by (auto simp: mb_outcome_def list_all_iff split: if_splits)
  have "mb_next s = length items"
  proof (cases "items = []")
    case True
    with inv show ?thesis by (simp add: mb_inv_def)
  next
    case False
    then have "0 < length ?ws" using mb_reachable_workers [OF assms(1)] by simp
    then have "?ws \<noteq> []" by simp
    with allD have "Done \<in> set ?ws" by (metis hd_in_set)
    with inv show ?thesis by (simp add: mb_inv_def)
  qed
  moreover have "Busy k \<notin> set ?ws" for k
    using allD by auto
  ultimately have "\<forall>k < length items. mb_results s ! k = Some (task (items ! k))"
    using inv noT unfolding mb_inv_def by (metis not_None_eq)
  with inv show ?thesis
    unfolding rs by (intro nth_equalityI) (auto simp: mb_inv_def)
qed

lemma in_flight_length: "length (in_flight s) \<le> length (mb_workers s)"
proof -
  have "length (busy_index w) \<le> 1" for w by (cases w) auto
  then have "length (busy_index a) + n \<le> Suc m" if "n \<le> m" for a n m
    using that by (metis add_mono plus_1_eq_Suc)
  then have "sum_list (map (length \<circ> busy_index) ws) \<le> length ws" for ws
    by (induction ws) auto
  then show ?thesis by (simp add: in_flight_def length_concat comp_def)
qed

lemma distinct_busy:
  "busy_unique ws \<Longrightarrow> distinct (concat (map busy_index ws))"
proof (induction ws)
  case (Cons w ws)
  have tl: "busy_unique ws"
    unfolding busy_unique_def
  proof (intro allI impI)
    fix i j k
    assume "i < length ws" "j < length ws" "ws ! i = Busy k" "ws ! j = Busy k"
    then have "Suc i = Suc j"
      using Cons.prems [unfolded busy_unique_def, rule_format, of "Suc i" "Suc j" k] by simp
    then show "i = j" by simp
  qed
  have mem: "k \<in> set (concat (map busy_index ws)) \<longleftrightarrow> Busy k \<in> set ws" for k
  proof -
    have "k \<in> set (busy_index v) \<longleftrightarrow> v = Busy k" for v by (cases v) auto
    then show ?thesis by auto
  qed
  have "Busy k \<notin> set ws" if "w = Busy k" for k
  proof
    assume "Busy k \<in> set ws"
    then obtain j where j: "j < length ws" "ws ! j = Busy k" by (auto simp: in_set_conv_nth)
    then have "0 = Suc j"
      using that Cons.prems [unfolded busy_unique_def, rule_format, of 0 "Suc j" k] by simp
    then show False by simp
  qed
  then have "set (busy_index w) \<inter> set (concat (map busy_index ws)) = {}"
    unfolding disjoint_iff mem by (cases w) auto
  moreover have "distinct (busy_index w)" by (cases w) auto
  ultimately show ?case using Cons.IH [OF tl] by simp
qed simp

lemma in_flight_distinct:
  "mb_reachable task items c s \<Longrightarrow> distinct (in_flight s)"
  using mb_reachable_inv distinct_busy unfolding mb_inv_def in_flight_def by blast

text \<open>After an abort the set of started tasks does not grow.\<close>

lemma mb_abort_step:
  "mb_step task items s t \<Longrightarrow> mb_aborted s \<Longrightarrow> mb_aborted t \<and> mb_next t = mb_next s"
  by (induction rule: mb_step.induct) auto

lemma mb_abort_run:
  "(mb_step task items)\<^sup>*\<^sup>* s t \<Longrightarrow> mb_aborted s \<Longrightarrow> mb_aborted t \<and> mb_next t = mb_next s"
  by (induction rule: rtranclp_induct) (auto dest: mb_abort_step)

section \<open>Termination\<close>

fun worker_work :: "mb_worker \<Rightarrow> nat" where
  "worker_work Idle = 1"
| "worker_work (Busy _) = 2"
| "worker_work _ = 0"

definition mb_work :: "'a list \<Rightarrow> 'r mb_state \<Rightarrow> nat" where
  "mb_work items s =
     2 * (length items - mb_next s) + sum_list (map worker_work (mb_workers s))
     + (if mb_aborted s then 0 else 1)"

lemma sum_list_work_update:
  "i < length ws \<Longrightarrow>
   sum_list (map worker_work (ws[i := w])) + worker_work (ws ! i)
     = sum_list (map worker_work ws) + worker_work w"
  by (induction ws arbitrary: i) (auto split: nat.splits)

lemma mb_step_work: "mb_step task items s t \<Longrightarrow> mb_work items t < mb_work items s"
proof (induction rule: mb_step.induct)
  case (take_index i s)
  then show ?case using sum_list_work_update [of i "mb_workers s" "Busy (mb_next s)"]
    by (simp add: mb_work_def)
next
  case (no_index_left i s)
  then show ?case using sum_list_work_update [of i "mb_workers s" Done] by (simp add: mb_work_def)
next
  case (throw_aborted i s)
  then show ?case using sum_list_work_update [of i "mb_workers s" Threw] by (simp add: mb_work_def)
next
  case (task_resolves i s k)
  then show ?case using sum_list_work_update [of i "mb_workers s" Idle] by (simp add: mb_work_def)
next
  case (task_fails i s k)
  then show ?case using sum_list_work_update [of i "mb_workers s" Threw] by (simp add: mb_work_def)
next
  case (signal_aborts s)
  then show ?case by (simp add: mb_work_def)
qed

lemma mb_run_bounded:
  "((mb_step task items) ^^ n) s t \<Longrightarrow> n + mb_work items t \<le> mb_work items s"
proof (induction n arbitrary: t)
  case (Suc n)
  then obtain u where "((mb_step task items) ^^ n) s u" "mb_step task items u t" by auto
  from Suc.IH [OF this(1)] mb_step_work [OF this(2)] show ?case by simp
qed simp

text \<open>A state no worker can leave has settled.\<close>

lemma mb_stuck_outcome:
  assumes "\<And>t. mb_step task items s t \<Longrightarrow> mb_workers t = mb_workers s"
  shows "mb_outcome s \<noteq> None"
proof -
  have "w = Done \<or> w = Threw" if "w \<in> set (mb_workers s)" for w
  proof -
    from that obtain i where i: "i < length (mb_workers s)" "mb_workers s ! i = w"
      by (auto simp: in_set_conv_nth)
    have ne: "(mb_workers s)[i := x] \<noteq> mb_workers s" if "x \<noteq> w" for x
      using i that by (metis nth_list_update_eq)
    show ?thesis
    proof (cases w)
      case Idle
      then show ?thesis
        using i ne assms mb_step.take_index [of i s items task]
          mb_step.no_index_left [of i s items task] mb_step.throw_aborted [of i s items task]
        by (cases "mb_next s < length items"; cases "mb_aborted s") fastforce+
    next
      case (Busy k)
      then show ?thesis using i ne [of Threw] assms mb_step.task_fails [of i s k task items] by fastforce
    qed auto
  qed
  then show ?thesis by (auto simp: mb_outcome_def list_all_iff)
qed

section \<open>Properties\<close>

text \<open>When \<open>mapBounded\<close> resolves, it resolves with one result per item, in the order of the items,
  whatever the order in which the tasks finished.\<close>

theorem map_bounded_in_order:
  assumes "mb_reachable task items c s" and "mb_outcome s = Some (Inr rs)"
  shows "rs = map (\<lambda>x. Some (task x)) items"
  using assms by (rule mb_outcome_results)

text \<open>A run over two items with one worker.\<close>

definition sample_state :: "nat \<Rightarrow> mb_worker \<Rightarrow> nat option list \<Rightarrow> nat mb_state" where
  "sample_state n w rs = \<lparr> mb_next = n, mb_workers = [w], mb_results = rs, mb_aborted = False \<rparr>"

lemma sample_run:
  "mb_reachable Suc [10, 20] (Fin 1) (sample_state 1 (Busy 0) [None, None])"
  "mb_reachable Suc [10, 20] (Fin 1) (sample_state 2 Done [Some 11, Some 21])"
proof -
  let ?R = "mb_reachable Suc [10, 20] (Fin 1)"
  have "mb_start [10, 20 :: nat] (Fin 1) False = Some (sample_state 0 Idle [None, None])"
    by (simp add: mb_start_def sample_state_def max_safe_def)
  then have a: "?R (sample_state 0 Idle [None, None])" by (rule mb_reachable.start)
  have b: "?R (sample_state 1 (Busy 0) [None, None])"
    using mb_reachable.step [OF a mb_step.take_index [of 0]] by (simp add: sample_state_def)
  have c: "?R (sample_state 1 Idle [Some 11, None])"
    using mb_reachable.step [OF b mb_step.task_resolves [of 0 _ 0]] by (simp add: sample_state_def)
  have d: "?R (sample_state 2 (Busy 1) [Some 11, None])"
    using mb_reachable.step [OF c mb_step.take_index [of 0]] by (simp add: sample_state_def numeral_2_eq_2)
  have e: "?R (sample_state 2 Idle [Some 11, Some 21])"
    using mb_reachable.step [OF d mb_step.task_resolves [of 0 _ 1]] by (simp add: sample_state_def)
  show "?R (sample_state 1 (Busy 0) [None, None])" by (rule b)
  show "?R (sample_state 2 Done [Some 11, Some 21])"
    using mb_reachable.step [OF e mb_step.no_index_left [of 0]] by (simp add: sample_state_def)
qed

lemma map_bounded_in_order_witness:
  "mb_outcome (sample_state 2 Done [Some 11, Some 21]) = Some (Inr (map (\<lambda>x. Some (Suc x)) [10, 20]))"
proof -
  have "mb_outcome (sample_state 2 Done [Some 11, Some 21]) = Some (Inr [Some 11, Some 21])"
    by (simp add: mb_outcome_def sample_state_def)
  with map_bounded_in_order [OF sample_run(2)] show ?thesis by metis
qed

text \<open>At no moment are more tasks in flight than the concurrency allows, and no item is worked on by
  two workers.\<close>

theorem map_bounded_in_flight:
  assumes "mb_reachable task items c s"
  shows "int (length (in_flight s)) \<le> \<lfloor>num_rat c\<rfloor> \<and> length (in_flight s) \<le> length items \<and> distinct (in_flight s)"
  using in_flight_length [of s] mb_reachable_workers [OF assms] in_flight_distinct [OF assms] by linarith

lemma map_bounded_in_flight_witness:
  "in_flight (sample_state 1 (Busy 0) [None, None]) = [0]
   \<and> int (length (in_flight (sample_state 1 (Busy 0) [None, None]))) \<le> 1"
  using map_bounded_in_flight [OF sample_run(1)] by (simp add: in_flight_def sample_state_def)

text \<open>C10: \<open>mapBounded\<close> settles: a run takes at most two steps per item, one per worker it started
  (the concurrency, or one per item when there are fewer) and one for the abort of the signal; a
  state in which no worker can move has an outcome; and after an abort no further item is started.\<close>

theorem map_bounded_settles:
  assumes "mb_start items c aborted = Some s0" and "((mb_step task items) ^^ n) s0 s"
  shows "n \<le> 2 * length items + min (nat \<lfloor>num_rat c\<rfloor>) (length items) + 1
    \<and> ((\<forall>t. mb_step task items s t \<longrightarrow> mb_workers t = mb_workers s) \<longrightarrow> mb_outcome s \<noteq> None)
    \<and> (mb_aborted s \<longrightarrow> (\<forall>t. (mb_step task items)\<^sup>*\<^sup>* s t \<longrightarrow> mb_next t = mb_next s))"
proof -
  have "sum_list (map worker_work (replicate k Idle)) = k" for k by (induction k) simp_all
  then have "mb_work items s0 \<le> 2 * length items + min (nat \<lfloor>num_rat c\<rfloor>) (length items) + 1"
    using assms(1) by (auto simp: mb_start_def mb_work_def split: if_splits)
  then have "n \<le> 2 * length items + min (nat \<lfloor>num_rat c\<rfloor>) (length items) + 1"
    using mb_run_bounded [OF assms(2)] by linarith
  then show ?thesis using mb_stuck_outcome mb_abort_run by blast
qed

text \<open>The run of the sample over both items takes five steps, and its last state is one the second
  part speaks of.\<close>

lemma sample_start: "mb_start [10, 20 :: nat] (Fin 1) False = Some (sample_state 0 Idle [None, None])"
  by (simp add: mb_start_def sample_state_def max_safe_def)

lemma sample_steps:
  "((mb_step Suc [10, 20]) ^^ 5) (sample_state 0 Idle [None, None])
     (sample_state 2 Done [Some 11, Some 21])"
proof -
  let ?S = "mb_step Suc [10, 20]"
  have s1: "?S (sample_state 0 Idle [None, None]) (sample_state 1 (Busy 0) [None, None])"
    using mb_step.take_index [of 0 "sample_state 0 Idle [None, None]" "[10, 20]" Suc]
    by (simp add: sample_state_def)
  have s2: "?S (sample_state 1 (Busy 0) [None, None]) (sample_state 1 Idle [Some 11, None])"
    using mb_step.task_resolves [of 0 "sample_state 1 (Busy 0) [None, None]" 0 Suc "[10, 20]"]
    by (simp add: sample_state_def)
  have s3: "?S (sample_state 1 Idle [Some 11, None]) (sample_state 2 (Busy 1) [Some 11, None])"
    using mb_step.take_index [of 0 "sample_state 1 Idle [Some 11, None]" "[10, 20]" Suc]
    by (simp add: sample_state_def numeral_2_eq_2)
  have s4: "?S (sample_state 2 (Busy 1) [Some 11, None]) (sample_state 2 Idle [Some 11, Some 21])"
    using mb_step.task_resolves [of 0 "sample_state 2 (Busy 1) [Some 11, None]" 1 Suc "[10, 20]"]
    by (simp add: sample_state_def)
  have s5: "?S (sample_state 2 Idle [Some 11, Some 21]) (sample_state 2 Done [Some 11, Some 21])"
    using mb_step.no_index_left [of 0 "sample_state 2 Idle [Some 11, Some 21]" "[10, 20]" Suc]
    by (simp add: sample_state_def)
  have five: "(5::nat) = Suc (Suc (Suc (Suc (Suc 0))))" by simp
  show ?thesis
    unfolding five using s1 s2 s3 s4 s5 by (blast intro: relpowp_Suc_I relpowp_0_I)
qed

lemma sample_stuck:
  "mb_step Suc [10, 20] (sample_state 2 Done [Some 11, Some 21]) t \<Longrightarrow>
   mb_workers t = mb_workers (sample_state 2 Done [Some 11, Some 21])"
  by (erule mb_stepE) (auto simp: sample_state_def)

lemma map_bounded_settles_witness:
  "((mb_step Suc [10, 20]) ^^ 5) (sample_state 0 Idle [None, None])
     (sample_state 2 Done [Some 11, Some 21])
   \<and> (5::nat) \<le> 2 * 2 + min 1 2 + 1
   \<and> mb_outcome (sample_state 2 Done [Some 11, Some 21]) \<noteq> None"
proof -
  note settles = map_bounded_settles [OF sample_start sample_steps]
  have "(5::nat) \<le> 2 * 2 + min 1 2 + 1" using settles by simp
  moreover have "mb_outcome (sample_state 2 Done [Some 11, Some 21]) \<noteq> None"
    using settles sample_stuck by blast
  ultimately show ?thesis using sample_steps by simp
qed

end
