(* ===== verification/JsDate.thy ===== *)
theory JsDate
  imports JsValue
begin

text \<open>
  The part of \<open>Date\<close> the code uses, after ECMAScript's definitions: \<open>day_from_year\<close> and
  \<open>make_day\<close> (days since 1970 of a civil date, months may overflow into years),
  \<open>year_from_day\<close>, \<open>month_from_day\<close>, \<open>date_from_day\<close> (the civil date of a day),
  \<open>date_parse\<close> (\<open>Date.parse\<close>, milliseconds since 1970 or nothing for \<open>NaN\<close>) and
  \<open>iso_date\<close>, \<open>to_iso\<close> (\<open>toISOString\<close>).

  \<open>date_parse\<close> reads the two formats the language defines: the ISO format (a day of the month
  is any number from 01 to 31, which overflows into the next month, as V8 does) and the format
  of \<open>toUTCString\<close>. The fallback formats an engine may add are not modelled, and a date-time
  without a zone is read as UTC. The lemmas prove that civil dates and day numbers are in
  bijection.
\<close>

section \<open>Days and civil dates\<close>

definition leap_year :: "int \<Rightarrow> bool" where
  "leap_year y \<longleftrightarrow> y mod 4 = 0 \<and> (y mod 100 \<noteq> 0 \<or> y mod 400 = 0)"

definition day_from_year :: "int \<Rightarrow> int" where
  "day_from_year y =
     365 * (y - 1970) + (y - 1969) div 4 - (y - 1901) div 100 + (y - 1601) div 400"

definition days_in_year :: "int \<Rightarrow> int" where
  "days_in_year y = (if leap_year y then 366 else 365)"

text \<open>The days of a year before its month \<open>m\<close> (1 to 12; 13 is the whole year).\<close>

definition days_before_month :: "bool \<Rightarrow> int \<Rightarrow> int" where
  "days_before_month lp m =
     (if m \<le> 1 then 0 else if m = 2 then 31
      else (if lp then 1 else 0) +
       (if m = 3 then 59 else if m = 4 then 90 else if m = 5 then 120 else if m = 6 then 151
        else if m = 7 then 181 else if m = 8 then 212 else if m = 9 then 243
        else if m = 10 then 273 else if m = 11 then 304 else if m = 12 then 334 else 365))"

definition days_in_month :: "int \<Rightarrow> int \<Rightarrow> int" where
  "days_in_month y m = days_before_month (leap_year y) (m + 1) - days_before_month (leap_year y) m"

text \<open>\<open>MakeDay\<close>; the month is counted from 0 and may be any integer.\<close>

definition make_day :: "int \<Rightarrow> int \<Rightarrow> int \<Rightarrow> int" where
  "make_day y m0 d =
     (let ym = y + m0 div 12; mn = m0 mod 12
      in day_from_year ym + days_before_month (leap_year ym) (mn + 1) + (d - 1))"

definition year_from_day :: "int \<Rightarrow> int" where
  "year_from_day n =
     (let y = 1970 + (400 * n) div 146097
      in if n < day_from_year y then y - 1 else if day_from_year (y + 1) \<le> n then y + 1 else y)"

definition month_of_year_day :: "bool \<Rightarrow> int \<Rightarrow> int" where
  "month_of_year_day lp k =
     (if k < days_before_month lp 2 then 1 else if k < days_before_month lp 3 then 2
      else if k < days_before_month lp 4 then 3 else if k < days_before_month lp 5 then 4
      else if k < days_before_month lp 6 then 5 else if k < days_before_month lp 7 then 6
      else if k < days_before_month lp 8 then 7 else if k < days_before_month lp 9 then 8
      else if k < days_before_month lp 10 then 9 else if k < days_before_month lp 11 then 10
      else if k < days_before_month lp 12 then 11 else 12)"

definition month_from_day :: "int \<Rightarrow> int" where
  "month_from_day n =
     (let y = year_from_day n in month_of_year_day (leap_year y) (n - day_from_year y))"

definition date_from_day :: "int \<Rightarrow> int" where
  "date_from_day n =
     (let y = year_from_day n
      in n - day_from_year y - days_before_month (leap_year y) (month_from_day n) + 1)"

text \<open>Monday is 1, Sunday 0: \<open>getUTCDay\<close>; day 0 was a Thursday.\<close>

definition weekday_of_day :: "int \<Rightarrow> int" where
  "weekday_of_day n = (n + 4) mod 7"

definition valid_civil :: "int \<Rightarrow> int \<Rightarrow> int \<Rightarrow> bool" where
  "valid_civil y m d \<longleftrightarrow> 1 \<le> m \<and> m \<le> 12 \<and> 1 \<le> d \<and> d \<le> days_in_month y m"

lemma div_bounds: "(0::int) < k \<Longrightarrow> k * (a div k) \<le> a \<and> a < k * (a div k) + k"
  using pos_mod_bound [of k a] pos_mod_sign [of k a] mult_div_mod_eq [of k a] by linarith

lemma div_unique_bounds: "(0::int) < k \<Longrightarrow> k * q \<le> a \<Longrightarrow> a < k * q + k \<Longrightarrow> a div k = q"
  by (rule int_div_pos_eq [where r = "a - k * q"]) auto

lemma div_Suc_step:
  assumes "(1::int) < k"
  shows "(a + 1) div k = a div k + (if k dvd a + 1 then 1 else 0)"
proof (cases "k dvd a + 1")
  case True
  then obtain c where c: "a + 1 = k * c" by (elim dvdE)
  have "a div k = c - 1"
    by (rule div_unique_bounds) (use assms c in \<open>auto simp: algebra_simps\<close>)
  with c assms True show ?thesis by simp
next
  case False
  have b: "k * (a div k) \<le> a" "a < k * (a div k) + k"
    using div_bounds [of k a] assms by auto
  have "a + 1 \<noteq> k * (a div k + 1)"
    using False by (metis dvd_triv_left)
  then have "a + 1 < k * (a div k) + k"
    using b by (simp add: algebra_simps)
  then have "(a + 1) div k = a div k"
    by (intro div_unique_bounds) (use b assms in auto)
  with False show ?thesis by simp
qed

lemma leap_year_dvd: "leap_year y \<longleftrightarrow> 4 dvd y \<and> (\<not> 100 dvd y \<or> 400 dvd y)"
  by (auto simp: leap_year_def dvd_eq_mod_eq_0)

lemma dvd_diff_const: "(k::int) dvd c \<Longrightarrow> k dvd y - c \<longleftrightarrow> k dvd y"
  by (metis diff_add_cancel dvd_add_left_iff)

lemma day_from_year_Suc: "day_from_year (y + 1) = day_from_year y + days_in_year y"
proof -
  have 4: "(y - 1968) div 4 = (y - 1969) div 4 + (if 4 dvd y then 1 else 0)"
    using div_Suc_step [of 4 "y - 1969"] dvd_diff_const [of 4 1968 y] by simp
  have 100: "(y - 1900) div 100 = (y - 1901) div 100 + (if 100 dvd y then 1 else 0)"
    using div_Suc_step [of 100 "y - 1901"] dvd_diff_const [of 100 1900 y] by simp
  have 400: "(y - 1600) div 400 = (y - 1601) div 400 + (if 400 dvd y then 1 else 0)"
    using div_Suc_step [of 400 "y - 1601"] dvd_diff_const [of 400 1600 y] by simp
  have *: "(400::int) dvd y \<Longrightarrow> 100 dvd y" "(100::int) dvd y \<Longrightarrow> 4 dvd y"
    by (auto elim: dvd_trans [rotated])
  have "day_from_year (y + 1) = day_from_year y + 365 + (if 4 dvd y then 1 else 0)
      - (if 100 dvd y then 1 else 0) + (if 400 dvd y then 1 else 0)"
    using 4 100 400 by (simp add: day_from_year_def right_diff_distrib distrib_left)
  moreover have "days_in_year y = 365 + (if 4 dvd y then 1 else 0)
      - (if 100 dvd y then 1 else 0) + (if 400 dvd y then 1 else 0)"
    using *
    by (cases "(4::int) dvd y"; cases "(100::int) dvd y"; cases "(400::int) dvd y")
       (simp_all add: days_in_year_def leap_year_dvd)
  ultimately show ?thesis by linarith
qed

lemma days_in_year_bounds: "365 \<le> days_in_year y" "days_in_year y \<le> 366"
  by (auto simp: days_in_year_def)

lemma day_from_year_mono: "x \<le> y \<Longrightarrow> day_from_year x + 365 * (y - x) \<le> day_from_year y"
proof (induction "nat (y - x)" arbitrary: y)
  case 0
  then show ?case by simp
next
  case (Suc k)
  then have "day_from_year x + 365 * (y - 1 - x) \<le> day_from_year (y - 1)"
    by (intro Suc.hyps(1)) auto
  then show ?case using day_from_year_Suc [of "y - 1"] days_in_year_bounds [of "y - 1"] by simp
qed

lemma day_from_year_strict: "day_from_year x \<le> n \<Longrightarrow> n < day_from_year (y + 1) \<Longrightarrow> x \<le> y"
  using day_from_year_mono [of "y + 1" x] by (cases "x \<le> y") auto

text \<open>The estimate \<open>1970 + 400 n div 146097\<close> is at most one year off.\<close>

lemma day_from_year_estimate:
  "146097 * (y - 1970) \<le> 400 * day_from_year y + 600"
  "400 * day_from_year y \<le> 146097 * (y - 1970) + 600"
  using div_bounds [of 4 "y - 1969"] div_bounds [of 100 "y - 1901"] div_bounds [of 400 "y - 1601"]
  by (simp_all add: day_from_year_def algebra_simps)

lemma year_from_day_bounds:
  "day_from_year (year_from_day n) \<le> n \<and> n < day_from_year (year_from_day n + 1)"
proof -
  define y where "y = 1970 + (400 * n) div 146097"
  have lo: "146097 * (y - 1970) \<le> 400 * n" and hi: "400 * n < 146097 * (y - 1970) + 146097"
    using div_bounds [of 146097 "400 * n"] by (auto simp: y_def)
  have "day_from_year (y - 1) \<le> n"
    using day_from_year_estimate(2) [of "y - 1"] lo by (simp add: right_diff_distrib)
  moreover have "n < day_from_year (y + 2)"
    using day_from_year_estimate(1) [of "y + 2"] hi by (simp add: right_diff_distrib distrib_left)
  ultimately show ?thesis
    unfolding year_from_day_def Let_def y_def [symmetric] by (auto simp: add.assoc)
qed

lemma year_from_day_eq:
  "day_from_year y \<le> n \<Longrightarrow> n < day_from_year (y + 1) \<Longrightarrow> year_from_day n = y"
  using year_from_day_bounds [of n] day_from_year_strict by (meson order_antisym)

lemma month_cases: "1 \<le> m \<Longrightarrow> m \<le> 12 \<Longrightarrow>
    m = 1 \<or> m = 2 \<or> m = 3 \<or> m = 4 \<or> m = 5 \<or> m = 6 \<or> m = 7 \<or> m = 8 \<or> m = 9 \<or> m = 10 \<or> m = 11 \<or> m = (12::int)"
  by presburger

lemma days_before_month_mono:
  "1 \<le> m \<Longrightarrow> m \<le> 12 \<Longrightarrow> days_before_month lp m + 28 \<le> days_before_month lp (m + 1)"
  using month_cases [of m] by (auto simp: days_before_month_def)

lemma month_of_year_day_bounds:
  assumes "0 \<le> k" and "k < (if lp then 366 else 365)"
  shows "1 \<le> month_of_year_day lp k \<and> month_of_year_day lp k \<le> 12
    \<and> days_before_month lp (month_of_year_day lp k) \<le> k
    \<and> k < days_before_month lp (month_of_year_day lp k + 1)"
  using assms by (cases lp) (auto simp: month_of_year_day_def days_before_month_def)

lemma month_of_year_day_eq:
  assumes "1 \<le> m" "m \<le> 12" "days_before_month lp m \<le> k" "k < days_before_month lp (m + 1)"
  shows "month_of_year_day lp k = m"
  using month_cases [OF assms(1,2)] assms(3,4)
  by (cases lp; elim disjE) (simp_all add: month_of_year_day_def days_before_month_def)

lemma days_before_month_13: "days_before_month (leap_year y) 13 = days_in_year y"
  by (simp add: days_before_month_def days_in_year_def)

lemma civil_of_day:
  "valid_civil (year_from_day n) (month_from_day n) (date_from_day n)"
  "make_day (year_from_day n) (month_from_day n - 1) (date_from_day n) = n"
proof -
  let ?y = "year_from_day n"
  let ?k = "n - day_from_year ?y"
  have "0 \<le> ?k" "?k < days_in_year ?y"
    using year_from_day_bounds [of n] by (auto simp: day_from_year_Suc)
  then have b: "1 \<le> month_from_day n \<and> month_from_day n \<le> 12
      \<and> days_before_month (leap_year ?y) (month_from_day n) \<le> ?k
      \<and> ?k < days_before_month (leap_year ?y) (month_from_day n + 1)"
    using month_of_year_day_bounds [of ?k "leap_year ?y"]
    by (simp add: month_from_day_def Let_def days_in_year_def)
  then show "valid_civil ?y (month_from_day n) (date_from_day n)"
    by (simp add: valid_civil_def date_from_day_def Let_def days_in_month_def)
  from b show "make_day ?y (month_from_day n - 1) (date_from_day n) = n"
    by (simp add: make_day_def date_from_day_def Let_def)
qed

lemma make_day_valid:
  assumes "1 \<le> m" and "m \<le> 12"
  shows "make_day y (m - 1) d = day_from_year y + days_before_month (leap_year y) m + (d - 1)"
  using assms by (simp add: make_day_def)

lemma day_of_civil:
  assumes "valid_civil y m d"
  shows "year_from_day (make_day y (m - 1) d) = y"
    and "month_from_day (make_day y (m - 1) d) = m"
    and "date_from_day (make_day y (m - 1) d) = d"
proof -
  let ?n = "make_day y (m - 1) d"
  from assms have m: "1 \<le> m" "m \<le> 12" and d: "1 \<le> d" "d \<le> days_in_month y m"
    by (auto simp: valid_civil_def)
  have n: "?n = day_from_year y + days_before_month (leap_year y) m + (d - 1)"
    using m by (rule make_day_valid)
  have lo: "0 \<le> days_before_month (leap_year y) m"
    by (simp add: days_before_month_def)
  have "days_before_month (leap_year y) (m + 1) \<le> days_in_year y"
    using month_cases [OF m] by (auto simp: days_before_month_def days_in_year_def)
  then have "?n < day_from_year (y + 1)"
    using d unfolding n day_from_year_Suc days_in_month_def by linarith
  moreover have "day_from_year y \<le> ?n"
    using d lo unfolding n by linarith
  ultimately show y: "year_from_day ?n = y"
    by (intro year_from_day_eq)
  show mm: "month_from_day ?n = m"
    unfolding month_from_day_def y Let_def
    by (rule month_of_year_day_eq) (use m d n in \<open>auto simp: days_in_month_def\<close>)
  show "date_from_day ?n = d"
    unfolding date_from_day_def Let_def y mm using n by simp
qed

lemma days_in_month_bounds: "1 \<le> m \<Longrightarrow> m \<le> 12 \<Longrightarrow> 28 \<le> days_in_month y m \<and> days_in_month y m \<le> 31"
  using month_cases [of m] by (auto simp: days_in_month_def days_before_month_def)

section \<open>Text\<close>

definition ms_per_day :: int where
  "ms_per_day = 86400000"

text \<open>Read exactly \<open>n\<close> digits off the front.\<close>

definition read_digits :: "nat \<Rightarrow> string \<Rightarrow> (int \<times> string) option" where
  "read_digits n s =
     (if length (take n s) = n \<and> list_all is_digit (take n s)
      then Some (digits_val (take n s), drop n s) else None)"

text \<open>Read the character \<open>c\<close> and then exactly \<open>n\<close> digits.\<close>

definition read_field :: "char \<Rightarrow> nat \<Rightarrow> string \<Rightarrow> (int \<times> string) option" where
  "read_field c n s =
     (case s of [] \<Rightarrow> None | d # r \<Rightarrow> if d = c then read_digits n r else None)"

definition read_date :: "string \<Rightarrow> (int \<times> string) option" where
  "read_date s =
     Option.bind (read_digits 4 s) (\<lambda>(y, r).
       (case read_field CHR ''-'' 2 r of
          None \<Rightarrow> Some (make_day y 0 1, r)
        | Some (m, r1) \<Rightarrow>
            if m < 1 \<or> 12 < m then None else
            (case read_field CHR ''-'' 2 r1 of
               None \<Rightarrow> Some (make_day y (m - 1) 1, r1)
             | Some (d, r2) \<Rightarrow>
                 if d < 1 \<or> 31 < d then None else Some (make_day y (m - 1) d, r2))))"

text \<open>The fraction of a second: its first three digits are the milliseconds.\<close>

definition read_fraction :: "string \<Rightarrow> (int \<times> string) option" where
  "read_fraction s =
     (case s of
        [] \<Rightarrow> Some (0, s)
      | c # r \<Rightarrow>
          if c = CHR ''.'' then
            (let ds = takeWhile is_digit r
             in if ds = [] then None
                else Some (digits_val (take 3 (ds @ ''00'')), dropWhile is_digit r))
          else Some (0, s))"

definition read_zone :: "string \<Rightarrow> int option" where
  "read_zone s =
     (if s = [] \<or> s = ''Z'' then Some 0
      else (case s of
        [] \<Rightarrow> None
      | c # r \<Rightarrow>
          if c = CHR ''+'' \<or> c = CHR ''-'' then
            Option.bind (read_digits 2 r) (\<lambda>(h, r1).
              Option.bind (read_field CHR '':'' 2 r1) (\<lambda>(m, r2).
                if r2 = [] \<and> h \<le> 23 \<and> m \<le> 59
                then Some ((if c = CHR ''-'' then -1 else 1) * (h * 60 + m) * 60000) else None))
          else None))"

definition read_time :: "string \<Rightarrow> int option" where
  "read_time s =
     (if s = [] then Some 0 else
      Option.bind (read_field CHR ''T'' 2 s) (\<lambda>(h, r1).
        Option.bind (read_field CHR '':'' 2 r1) (\<lambda>(m, r2).
          Option.bind
            (case read_field CHR '':'' 2 r2 of
               None \<Rightarrow> Some (0, 0, r2)
             | Some (sec, r3) \<Rightarrow>
                 map_option (\<lambda>(ms, r4). (sec, ms, r4)) (read_fraction r3)) (\<lambda>(sec, ms, r5).
            Option.bind (read_zone r5) (\<lambda>tz.
              if m \<le> 59 \<and> sec \<le> 59 \<and> (h \<le> 23 \<or> (h = 24 \<and> m = 0 \<and> sec = 0 \<and> ms = 0))
              then Some ((h * 60 + m) * 60000 + sec * 1000 + ms - tz) else None)))))"

definition parse_iso :: "string \<Rightarrow> int option" where
  "parse_iso s =
     Option.bind (read_date s) (\<lambda>(day, r). map_option (\<lambda>t. day * ms_per_day + t) (read_time r))"

definition month_names :: "string list" where
  "month_names = [''Jan'', ''Feb'', ''Mar'', ''Apr'', ''May'', ''Jun'',
     ''Jul'', ''Aug'', ''Sep'', ''Oct'', ''Nov'', ''Dec'']"

fun index_of :: "'a \<Rightarrow> 'a list \<Rightarrow> nat option" where
  "index_of x [] = None"
| "index_of x (y # ys) = (if x = y then Some 0 else map_option Suc (index_of x ys))"

text \<open>\<open>Thu, 01 Jan 1970 00:00:00 GMT\<close>, the form of an HTTP date.\<close>

definition parse_utc :: "string \<Rightarrow> int option" where
  "parse_utc s =
     (if length s = 29 \<and> take 2 (drop 3 s) = '', '' \<and> drop 25 s = '' GMT'' then
        Option.bind (read_digits 2 (drop 5 s)) (\<lambda>(d, _).
        Option.bind (index_of (take 3 (drop 8 s)) month_names) (\<lambda>m.
        Option.bind (read_digits 4 (drop 12 s)) (\<lambda>(y, _).
        Option.bind (read_digits 2 (drop 17 s)) (\<lambda>(h, r1).
        Option.bind (read_field CHR '':'' 2 r1) (\<lambda>(mi, r2).
        Option.bind (read_field CHR '':'' 2 r2) (\<lambda>(sec, _).
          if 1 \<le> d \<and> d \<le> 31 \<and> h \<le> 23 \<and> mi \<le> 59 \<and> sec \<le> 59
          then Some (make_day y (int m) d * ms_per_day + (h * 60 + mi) * 60000 + sec * 1000)
          else None))))))
      else None)"

definition date_parse :: "string \<Rightarrow> int option" where
  "date_parse s = (case parse_iso s of None \<Rightarrow> parse_utc s | Some t \<Rightarrow> Some t)"

definition show_year :: "int \<Rightarrow> string" where
  "show_year y =
     (if 0 \<le> y \<and> y \<le> 9999 then pad_start 4 CHR ''0'' (show_int y)
      else (if y < 0 then ''-'' else ''+'') @ pad_start 6 CHR ''0'' (show_int \<bar>y\<bar>))"

definition show2 :: "int \<Rightarrow> string" where
  "show2 n = pad_start 2 CHR ''0'' (show_int n)"

definition show_civil :: "int \<Rightarrow> int \<Rightarrow> int \<Rightarrow> string" where
  "show_civil y m d = show_year y @ ''-'' @ show2 m @ ''-'' @ show2 d"

definition iso_date :: "int \<Rightarrow> string" where
  "iso_date n = show_civil (year_from_day n) (month_from_day n) (date_from_day n)"

definition to_iso :: "int \<Rightarrow> string" where
  "to_iso t =
     (let n = t div ms_per_day; k = t mod ms_per_day
      in iso_date n @ ''T'' @ show2 (k div 3600000) @ '':'' @ show2 (k div 60000 mod 60) @ '':'' @
         show2 (k div 1000 mod 60) @ ''.'' @ pad_start 3 CHR ''0'' (show_int (k mod 1000)) @ ''Z'')"

end
