(* ===== verification/ApiErrors.thy ===== *)
theory ApiErrors
  imports JsDate
begin

text \<open>
  \<open>lib/api/errors.ts\<close>: the one error type every request and every validator throws, the kind
  it gives to an HTTP status, the text shown to the user and the reading of \<open>Retry-After\<close>.

  \<open>api_error\<close> has the fields of the class \<open>ApiError\<close>; the \<open>cause\<close> is not kept. The \<open>url\<close> of an
  error is the path of its request: the code turns a path into a URL with \<open>buildApiUrl\<close>, which
  prefixes the configured origin.
\<close>

datatype api_error_kind =
    Unauthorized | Forbidden | NotFound | Conflict | Validation | RateLimited | Server
  | Network | Timeout | Aborted | InvalidResponse | Unexpected

record api_error =
  err_message :: string
  err_kind :: api_error_kind
  err_status :: "int option"
  err_method :: string
  err_url :: string
  err_retry_after :: "int option"
  err_request_id :: "string option"
  err_details :: json

text \<open>What a \<open>catch\<close> can receive: an \<open>ApiError\<close>, or another \<open>Error\<close> with its message.\<close>

datatype exn = ApiExn api_error | JsExn string

definition apiErrorKindForStatus :: "int \<Rightarrow> api_error_kind" where
  "apiErrorKindForStatus status =
     (if status = 401 then Unauthorized
      else if status = 403 then Forbidden
      else if status = 404 then NotFound
      else if status = 409 then Conflict
      else if status = 422 then Validation
      else if status = 429 then RateLimited
      else if 500 \<le> status then Server
      else Unexpected)"

text \<open>\<open>/[...]/u.test\<close> for a letter of the Ukrainian or Russian alphabet, and the two dashes.\<close>

definition cyrillic_pair :: "char \<Rightarrow> char \<Rightarrow> bool" where
  "cyrillic_pair a b =
     (let x = of_char a :: nat; y = of_char b :: nat
      in (x = 208 \<and> ((144 \<le> y \<and> y \<le> 191) \<or> y = 134 \<or> y = 135 \<or> y = 132))
       \<or> (x = 209 \<and> ((128 \<le> y \<and> y \<le> 143) \<or> y = 150 \<or> y = 151 \<or> y = 148))
       \<or> (x = 210 \<and> (y = 144 \<or> y = 145)))"

fun has_cyrillic :: "string \<Rightarrow> bool" where
  "has_cyrillic (a # b # cs) = (cyrillic_pair a b \<or> has_cyrillic (b # cs))"
| "has_cyrillic _ = False"

definition starts_dash :: "string \<Rightarrow> bool" where
  "starts_dash s =
     (starts_with [CHR 0xE2, CHR 0x80, CHR 0x94] s \<or> starts_with [CHR 0xE2, CHR 0x80, CHR 0x93] s)"

definition starts_space :: "string \<Rightarrow> bool" where
  "starts_space s = list_ex (\<lambda>w. starts_with w s) white_space"

lemma strip_length: "length (strip ws s) \<le> length s"
proof (induction ws s rule: strip.induct)
  case (1 ws s)
  show ?case
  proof (cases "List.find (\<lambda>w. w \<noteq> [] \<and> starts_with w s) ws")
    case None
    then show ?thesis by (simp add: strip.simps [of ws s])
  next
    case (Some w)
    with 1 have "length (strip ws (drop (length w) s)) \<le> length (drop (length w) s)" by blast
    with Some show ?thesis by (simp add: strip.simps [of ws s])
  qed
qed

lemma js_trim_start_length: "length (js_trim_start s) \<le> length s"
  by (simp add: js_trim_start_def strip_length)

text \<open>\<open>.replace(/\s+[dash]\s+/gu, ", ")\<close>, then \<open>.replace(/[dash]/gu, "-")\<close>.\<close>

function comma_dashes :: "string \<Rightarrow> string" where
  "comma_dashes s =
     (case s of
        [] \<Rightarrow> []
      | c # cs \<Rightarrow>
          if starts_space s \<and> starts_dash (js_trim_start s) \<and> starts_space (drop 3 (js_trim_start s))
          then '', '' @ comma_dashes (js_trim_start (drop 3 (js_trim_start s)))
          else c # comma_dashes cs)"
  by pat_completeness auto
termination
proof (relation "measure length")
  fix s :: string and c cs
  assume "s = c # cs"
    and "starts_space s \<and> starts_dash (js_trim_start s) \<and> starts_space (drop 3 (js_trim_start s))"
  then have "js_trim_start s \<noteq> []" by (auto simp: starts_dash_def starts_with_def)
  then have "length (drop 3 (js_trim_start s)) < length s"
    using js_trim_start_length [of s] \<open>s = c # cs\<close> by (cases "js_trim_start s") auto
  then show "(js_trim_start (drop 3 (js_trim_start s)), s) \<in> measure length"
    using js_trim_start_length [of "drop 3 (js_trim_start s)"] by simp
qed auto

declare comma_dashes.simps [simp del]

fun plain_dashes :: "string \<Rightarrow> string" where
  "plain_dashes [] = []"
| "plain_dashes (a # b # c # cs) =
     (if starts_dash [a, b, c] then CHR ''-'' # plain_dashes cs else a # plain_dashes (b # c # cs))"
| "plain_dashes (a # cs) = a # plain_dashes cs"

definition err_readString :: "json \<Rightarrow> string option" where
  "err_readString value =
     (if \<not> is_string value \<or> \<not> has_cyrillic (str_of value) then None
      else (let t = plain_dashes (comma_dashes (js_trim (str_of value)))
            in if t = [] then None else Some t))"

text \<open>\<open>message.replace(/^Value error,\s*/u, "")\<close>\<close>

definition drop_value_error :: "string \<Rightarrow> string" where
  "drop_value_error m =
     (if starts_with ''Value error,'' m then js_trim_start (drop 12 m) else m)"

definition is_js_object :: "json \<Rightarrow> bool" where
  "is_js_object v = (case v of JObj _ \<Rightarrow> True | JArr _ \<Rightarrow> True | _ \<Rightarrow> False)"

definition readValidationMessages :: "json \<Rightarrow> string list" where
  "readValidationMessages value =
     (if \<not> is_array value then [] else
      concat (map (\<lambda>item.
        if \<not> is_js_object item then []
        else (case err_readString (fld item ''msg'') of
                None \<Rightarrow> []
              | Some message \<Rightarrow> [drop_value_error message])) (elems value)))"

definition msg_server :: string where
  "msg_server = uk ''Servis tym^asovo nedostupnyj. Sprobujte pizniwe.''"

definition status_message :: "int \<Rightarrow> string" where
  "status_message status =
     (if status = 401 then uk ''Sesi$ ne pidtverd*eno abo vona zaverwylas@.''
      else if status = 403 then uk ''Nedostatn=o prav dl@ ci#~ di~.''
      else if status = 404 then uk ''Dani ne znajdeno abo dostup do nyx zakryto.''
      else if status = 409 then
        uk ''Dani zminylys@. Onovit= storinku ta perevirte ~x pered povtorno$ sprobo$.''
      else if status = 422 then uk ''Perevirte zapovneni pol@ ta sprobujte qe raz.''
      else if status = 429 then uk ''Zabahato zapytiv. Za^ekajte pered povtorom.''
      else uk ''Ne vdalos@ vykonaty di$. Sprobujte qe raz.'')"

definition problem_text :: "json \<Rightarrow> string option" where
  "problem_text payload =
     (if \<not> is_js_object payload then None else
      (let detail = fld payload ''detail''
       in case err_readString detail of Some t \<Rightarrow> Some t | None \<Rightarrow>
          if readValidationMessages detail \<noteq> []
          then Some (js_join '' '' (readValidationMessages detail))
          else (case (if is_js_object detail then err_readString (fld detail ''message'') else None) of
                  Some t \<Rightarrow> Some t
                | None \<Rightarrow> err_readString (fld payload ''message''))))"

definition problemMessage :: "json \<Rightarrow> int \<Rightarrow> string" where
  "problemMessage payload status =
     (if 500 \<le> status then msg_server
      else case problem_text payload of Some t \<Rightarrow> t | None \<Rightarrow> status_message status)"

definition parseRetryAfter :: "string option \<Rightarrow> int \<Rightarrow> int option" where
  "parseRetryAfter value nowMs =
     (case value of
        None \<Rightarrow> None
      | Some v \<Rightarrow>
          if v = [] then None
          else (let seconds = js_number v
                in if num_finite seconds \<and> num_le (Fin 0) seconds then Some \<lceil>num_rat seconds\<rceil>
                   else (case date_parse v of
                           None \<Rightarrow> None
                         | Some timestamp \<Rightarrow> Some (max 0 \<lceil>rat_of_int (timestamp - nowMs) / 1000\<rceil>))))"

definition apiErrorDisplayMessage :: "exn \<Rightarrow> string" where
  "apiErrorDisplayMessage e =
     (case e of
        JsExn _ \<Rightarrow> uk ''Ne vdalos@ vykonaty di$. Sprobujte qe raz.''
      | ApiExn err \<Rightarrow>
          (case err_kind err of
             Network \<Rightarrow> uk ''Ne vdalos@ pidkl$^ytys@. Perevirte z|#dnann@ z internetom i sprobujte qe raz.''
           | Timeout \<Rightarrow> uk ''Servis ne vidpoviv v^asno. Sprobujte qe raz.''
           | Aborted \<Rightarrow> uk ''Di$ skasovano.''
           | Server \<Rightarrow> msg_server
           | InvalidResponse \<Rightarrow>
               uk ''Ne vdalos@ pereviryty otrymani dani. Onovit= storinku abo sprobujte pizniwe.''
           | _ \<Rightarrow>
               (case err_readString (JStr (err_message err)) of
                  Some t \<Rightarrow> t
                | None \<Rightarrow> problemMessage JNull (case err_status err of None \<Rightarrow> 0 | Some s \<Rightarrow> s))))"

lemma kind_server_iff: "apiErrorKindForStatus s = Server \<longleftrightarrow> 500 \<le> s"
  by (simp add: apiErrorKindForStatus_def)

lemma problemMessage_server: "500 \<le> s \<Longrightarrow> problemMessage p s = msg_server"
  by (simp add: problemMessage_def)

lemma parseRetryAfter_nonneg: "parseRetryAfter v now = Some n \<Longrightarrow> 0 \<le> n"
proof -
  assume a: "parseRetryAfter v now = Some n"
  have "0 \<le> \<lceil>num_rat x\<rceil>" if "num_finite x" "num_le (Fin 0) x" for x
    using that by (cases x) auto
  with a show ?thesis
    by (auto simp: parseRetryAfter_def Let_def split: option.splits if_splits)
qed

end
