(* ===== verification/Access.thy ===== *)
theory Access
  imports ApiErrors
begin

text \<open>
  \<open>lib/api/access.ts\<close>: the primitives every response validator is built from
  (\<open>isRecord\<close>, \<open>invalidResponse\<close>, \<open>requiredString\<close>, \<open>requiredUuid\<close>, \<open>requiredDateTime\<close>) and
  the validators of the current user, the organizations and the access of an organization.

  A validator takes the \<open>unknown\<close> payload and returns the value the application keeps, or throws.
  \<open>result\<close> is that: \<open>Inl\<close> the thrown \<open>ApiError\<close>, \<open>Inr\<close> the value. The lemmas in \<open>ok_iff\<close> say
  when each primitive returns; \<open>reject\<close> is \<open>if (bad) invalidResponse(path, expected)\<close>.
\<close>

type_synonym 'a result = "api_error + 'a"

definition isRecord :: "json \<Rightarrow> bool" where
  "isRecord v = (case v of JObj _ \<Rightarrow> True | _ \<Rightarrow> False)"

definition invalid_error :: "string \<Rightarrow> json \<Rightarrow> api_error" where
  "invalid_error path details =
     \<lparr> err_message = uk ''Ne vdalos@ pereviryty otrymani dani. Onovit= storinku abo sprobujte pizniwe.'',
       err_kind = InvalidResponse, err_status = Some 200, err_method = ''GET'', err_url = path,
       err_retry_after = None, err_request_id = None, err_details = details \<rparr>"

definition invalidResponse :: "string \<Rightarrow> string \<Rightarrow> 'a result" where
  "invalidResponse path expected = Inl (invalid_error path (JObj [(''expected'', JStr expected)]))"

definition reject :: "bool \<Rightarrow> string \<Rightarrow> string \<Rightarrow> unit result" where
  "reject bad path expected = (if bad then invalidResponse path expected else Inr ())"

definition match_classes :: "(char \<Rightarrow> bool) list \<Rightarrow> string \<Rightarrow> bool" where
  "match_classes ps s = list_all2 (\<lambda>p c. p c) ps s"

definition uuid_shape :: "(char \<Rightarrow> bool) list" where
  "uuid_shape =
     (let dash = (\<lambda>c. c = CHR ''-'');
          version = (\<lambda>c. c \<in> set ''12345'');
          variant = (\<lambda>c. char_lower c \<in> set ''89ab'')
      in replicate 8 is_hex @ [dash] @ replicate 4 is_hex @ [dash] @ [version] @ replicate 3 is_hex @
         [dash] @ [variant] @ replicate 3 is_hex @ [dash] @ replicate 12 is_hex)"

definition is_uuid :: "string \<Rightarrow> bool" where
  "is_uuid s = match_classes uuid_shape s"

definition requiredString :: "json \<Rightarrow> string \<Rightarrow> string \<Rightarrow> string result" where
  "requiredString record key path =
     (let v = fld record key
      in if \<not> is_string v \<or> str_of v = [] then invalidResponse path key else Inr (str_of v))"

definition requiredUuid :: "json \<Rightarrow> string \<Rightarrow> string \<Rightarrow> string result" where
  "requiredUuid record key path =
     bindE (requiredString record key path) (\<lambda>v.
       if \<not> is_uuid v then invalidResponse path (key @ '': uuid'') else Inr v)"

definition requiredDateTime :: "json \<Rightarrow> string \<Rightarrow> string \<Rightarrow> string result" where
  "requiredDateTime record key path =
     bindE (requiredString record key path) (\<lambda>v.
       if date_parse v = None then invalidResponse path (key @ '': date-time'') else Inr v)"

definition permissionCodes :: "string list" where
  "permissionCodes =
     [''organization.read'', ''site.read'', ''site.create'', ''device.read'', ''device.create'',
      ''telemetry.read'', ''event.read'', ''alarm.read'', ''notification.read'',
      ''alarm.acknowledge'', ''command.read'', ''command.execute'', ''capability.read'',
      ''capability.manage'', ''membership.read'', ''membership.manage'']"

definition organizationRoles :: "string list" where
  "organizationRoles = [''owner'', ''admin'', ''operator'', ''viewer'', ''service'']"

definition platformRoles :: "string list" where
  "platformRoles = [''user'', ''service_admin'', ''superadmin'']"

definition parsePlatformRole :: "json \<Rightarrow> string \<Rightarrow> string result" where
  "parsePlatformRole value path =
     (if \<not> is_string value \<or> str_of value \<notin> set platformRoles
      then invalidResponse path ''platform_role'' else Inr (str_of value))"

definition parseOrganizationRole :: "json \<Rightarrow> string \<Rightarrow> bool \<Rightarrow> string option result" where
  "parseOrganizationRole value path nullable =
     (if nullable \<and> value = JNull then Inr None
      else if \<not> is_string value \<or> str_of value \<notin> set organizationRoles
      then invalidResponse path ''organization_role'' else Inr (Some (str_of value)))"

definition isPermissionCode :: "json \<Rightarrow> bool" where
  "isPermissionCode v = (is_string v \<and> str_of v \<in> set permissionCodes)"

record membership =
  mem_organization_id :: string
  mem_role :: "string option"

record current_user =
  user_id :: string
  user_email :: string
  user_login_name :: "string option"
  user_display_name :: string
  user_platform_role :: string
  user_is_active :: bool
  user_auth_session_id :: string
  user_auth_session_expires_at :: string
  user_memberships :: "membership list"

definition parseMembership :: "string \<Rightarrow> json \<Rightarrow> membership result" where
  "parseMembership path m =
     seqE (reject (\<not> isRecord m) path ''CurrentUserMembershipRead'') (
     bindE (requiredUuid m ''organization_id'' path) (\<lambda>oid.
     bindE (parseOrganizationRole (fld m ''role'') path False) (\<lambda>role.
     Inr \<lparr> mem_organization_id = oid, mem_role = role \<rparr>)))"

text \<open>A property that may be missing or null, and otherwise is a non-empty string.\<close>

definition optionalString :: "json \<Rightarrow> string \<Rightarrow> string \<Rightarrow> string option result" where
  "optionalString record key path =
     (if is_nullish (fld record key) then Inr None
      else bindE (requiredString record key path) (\<lambda>s. Inr (Some s)))"

definition bool_of :: "json \<Rightarrow> bool" where
  "bool_of v = (v = JBool True)"

definition parseCurrentUserResponse :: "json \<Rightarrow> current_user result" where
  "parseCurrentUserResponse value =
     (let path = ''/api/v1/auth/me'' in
     seqE (reject (\<not> isRecord value) path ''CurrentUserRead'') (
     seqE (reject (\<not> is_array (fld value ''memberships'')) path ''memberships[]'') (
     bindE (mapE (parseMembership path) (elems (fld value ''memberships''))) (\<lambda>memberships.
     seqE (reject (\<not> is_bool (fld value ''is_active'')) path ''is_active'') (
     bindE (requiredUuid value ''id'' path) (\<lambda>id.
     bindE (requiredString value ''email'' path) (\<lambda>email.
     bindE (optionalString value ''login_name'' path) (\<lambda>login_name.
     seqE (reject (\<not> is_string (fld value ''display_name'')) path ''display_name'') (
     bindE (parsePlatformRole (fld value ''platform_role'') path) (\<lambda>platform_role.
     bindE (requiredUuid value ''auth_session_id'' path) (\<lambda>session_id.
     bindE (requiredDateTime value ''auth_session_expires_at'' path) (\<lambda>expires.
     Inr \<lparr> user_id = id, user_email = email, user_login_name = login_name,
           user_display_name = str_of (fld value ''display_name''),
           user_platform_role = platform_role, user_is_active = bool_of (fld value ''is_active''),
           user_auth_session_id = session_id, user_auth_session_expires_at = expires,
           user_memberships = memberships \<rparr>))))))))))))"

record organization =
  org_id :: string
  org_name :: string
  org_slug :: string
  org_is_active :: bool
  org_created_at :: string
  org_updated_at :: string

definition parseOrganization :: "json \<Rightarrow> string \<Rightarrow> organization result" where
  "parseOrganization value path =
     seqE (reject (\<not> isRecord value) path ''OrganizationRead'') (
     seqE (reject (\<not> is_bool (fld value ''is_active'')) path ''is_active'') (
     bindE (requiredUuid value ''id'' path) (\<lambda>id.
     bindE (requiredString value ''name'' path) (\<lambda>name.
     bindE (requiredString value ''slug'' path) (\<lambda>slug.
     bindE (requiredDateTime value ''created_at'' path) (\<lambda>created.
     bindE (requiredDateTime value ''updated_at'' path) (\<lambda>updated.
     Inr \<lparr> org_id = id, org_name = name, org_slug = slug,
           org_is_active = bool_of (fld value ''is_active''),
           org_created_at = created, org_updated_at = updated \<rparr>)))))))"

definition parseOrganizationListResponse :: "json \<Rightarrow> organization list result" where
  "parseOrganizationListResponse value =
     (let path = ''/api/v1/organizations'' in
     seqE (reject (\<not> is_array value \<or> 100 < length (elems value)) path ''OrganizationRead[]'') (
     mapE (\<lambda>item. parseOrganization item path) (elems value)))"

text \<open>\<open>encodeURIComponent\<close>, on UTF-8 bytes.\<close>

definition hex_digit :: "nat \<Rightarrow> char" where
  "hex_digit d = (if d < 10 then char_of (48 + d) else char_of (55 + d))"

definition encode_component :: "string \<Rightarrow> string" where
  "encode_component s =
     concat (map (\<lambda>c. if is_alnum c \<or> c \<in> set ''-_.!~*()'' \<or> c = CHR 0x27 then [c]
        else (let n = of_char c :: nat in [CHR ''%'', hex_digit (n div 16), hex_digit (n mod 16)])) s)"

record organization_access =
  acc_organization_id :: string
  acc_platform_role :: string
  acc_organization_role :: "string option"
  acc_permissions :: "string list"

text \<open>\<open>[...new Set(xs)]\<close>: the distinct elements in the order of their first occurrence.\<close>

definition set_spread :: "'a list \<Rightarrow> 'a list" where
  "set_spread xs = rev (remdups (rev xs))"

definition parseOrganizationAccessResponse :: "json \<Rightarrow> string \<Rightarrow> organization_access result" where
  "parseOrganizationAccessResponse value organizationId =
     (let path = ''/api/v1/organizations/'' @ encode_component organizationId @ ''/access'' in
     seqE (reject (\<not> isRecord value) path ''OrganizationAccessRead'') (
     bindE (requiredUuid value ''organization_id'' path) (\<lambda>received.
     seqE (if received \<noteq> organizationId
           then Inl (invalid_error path (JObj [(''expected'', JStr organizationId), (''received'', JStr received)]))
           else Inr ()) (
     seqE (reject (\<not> is_array (fld value ''permissions'') \<or>
                   \<not> list_all isPermissionCode (elems (fld value ''permissions''))) path ''permissions[]'') (
     bindE (parsePlatformRole (fld value ''platform_role'') path) (\<lambda>platform_role.
     bindE (parseOrganizationRole (fld value ''organization_role'') path True) (\<lambda>role.
     Inr \<lparr> acc_organization_id = received, acc_platform_role = platform_role,
           acc_organization_role = role,
           acc_permissions = set_spread (map str_of (elems (fld value ''permissions''))) \<rparr>)))))))"

definition organizationRoleLabel :: "string option \<Rightarrow> string \<Rightarrow> string" where
  "organizationRoleLabel role platformRole =
     (if role = Some ''owner'' then uk ''Vlasnyk''
      else if role = Some ''admin'' then uk ''Administrator''
      else if role = Some ''operator'' then uk ''Operator''
      else if role = Some ''viewer'' then uk ''Sposteriha^''
      else if role = Some ''service'' then uk ''Servisnyj specialist''
      else if platformRole = ''superadmin'' then uk ''Superadministrator''
      else if platformRole = ''service_admin'' then uk ''Administrator servisu''
      else uk ''Korystuva^'')"

section \<open>When the primitives return\<close>

lemma invalidResponse_not_ok [simp]: "invalidResponse p x \<noteq> Inr y"
  by (simp add: invalidResponse_def)

lemma reject_ok [ok_iff]: "reject bad p x = Inr u \<longleftrightarrow> \<not> bad"
  by (simp add: reject_def)

lemma invalidResponse_if_ok [ok_iff]:
  "(if b then invalidResponse p x else m) = Inr y \<longleftrightarrow> \<not> b \<and> m = Inr y"
  by simp

lemma requiredString_ok [ok_iff]:
  "requiredString r k p = Inr s \<longleftrightarrow> fld r k = JStr s \<and> s \<noteq> []"
  by (cases "fld r k") (auto simp: requiredString_def)

lemma requiredUuid_ok [ok_iff]:
  "requiredUuid r k p = Inr s \<longleftrightarrow> fld r k = JStr s \<and> is_uuid s"
proof -
  have "\<not> is_uuid []" by (simp add: is_uuid_def match_classes_def uuid_shape_def Let_def)
  then show ?thesis by (auto simp: requiredUuid_def ok_iff)
qed

lemma date_parse_Nil [simp]: "date_parse [] = None"
  by (simp add: date_parse_def parse_iso_def read_date_def read_digits_def parse_utc_def)

lemma requiredDateTime_ok [ok_iff]:
  "requiredDateTime r k p = Inr s \<longleftrightarrow> fld r k = JStr s \<and> date_parse s \<noteq> None"
  by (auto simp: requiredDateTime_def ok_iff)

lemma parsePlatformRole_ok [ok_iff]:
  "parsePlatformRole v p = Inr s \<longleftrightarrow> v = JStr s \<and> s \<in> set platformRoles"
  by (cases v) (auto simp: parsePlatformRole_def)

lemma parseOrganizationRole_ok [ok_iff]:
  "parseOrganizationRole v p n = Inr r \<longleftrightarrow>
     (n \<and> v = JNull \<and> r = None) \<or> (\<exists>s. v = JStr s \<and> r = Some s \<and> s \<in> set organizationRoles)"
  by (cases v) (auto simp: parseOrganizationRole_def)

lemma optionalString_ok [ok_iff]:
  "optionalString r k p = Inr x \<longleftrightarrow>
     (is_nullish (fld r k) \<and> x = None) \<or> (\<exists>s. fld r k = JStr s \<and> s \<noteq> [] \<and> x = Some s)"
  by (auto simp: optionalString_def ok_iff is_nullish_def)

lemma set_spread_simps [simp]: "distinct (set_spread xs)" "set (set_spread xs) = set xs"
  by (simp_all add: set_spread_def)

lemma is_uuid_length: "is_uuid s \<Longrightarrow> length s = 36"
  by (auto simp: is_uuid_def match_classes_def uuid_shape_def Let_def dest!: list_all2_lengthD)

section \<open>Access of an organization\<close>

text \<open>What the application may rely on after the check of an access response: it is about the
  organization that was asked for, it holds known permissions only, each once.\<close>

definition wf_access :: "string \<Rightarrow> organization_access \<Rightarrow> bool" where
  "wf_access oid a \<longleftrightarrow>
     acc_organization_id a = oid \<and> is_uuid oid
     \<and> distinct (acc_permissions a) \<and> set (acc_permissions a) \<subseteq> set permissionCodes
     \<and> acc_platform_role a \<in> set platformRoles
     \<and> (case acc_organization_role a of None \<Rightarrow> True | Some r \<Rightarrow> r \<in> set organizationRoles)"

lemma parse_access_wf:
  assumes "parseOrganizationAccessResponse v oid = Inr a"
  shows "wf_access oid a"
  using assms
  by (auto simp: parseOrganizationAccessResponse_def Let_def ok_iff wf_access_def list_all_iff
      isPermissionCode_def split: if_splits)

text \<open>The permissions are those of the payload.\<close>

lemma parse_access_permissions:
  assumes "parseOrganizationAccessResponse v oid = Inr a"
  shows "p \<in> set (acc_permissions a) \<longleftrightarrow> JStr p \<in> set (elems (fld v ''permissions''))"
proof -
  from assms have perms: "acc_permissions a = set_spread (map str_of (elems (fld v ''permissions'')))"
    and strs: "\<forall>x \<in> set (elems (fld v ''permissions'')). is_string x"
    by (auto simp: parseOrganizationAccessResponse_def Let_def ok_iff list_all_iff
        isPermissionCode_def split: if_splits)
  have "is_string x \<Longrightarrow> x = JStr (str_of x)" for x by (cases x) auto
  with strs show ?thesis unfolding perms by (auto simp: image_iff) (metis str_of.simps(1))
qed

section \<open>Properties\<close>

text \<open>An accepted access response is about the organization that was asked for, holds only
  permissions the application knows, each once, and exactly those of the payload.\<close>

theorem access_exact:
  assumes "parseOrganizationAccessResponse v oid = Inr a"
  shows "wf_access oid a
    \<and> (\<forall>p. p \<in> set (acc_permissions a) \<longleftrightarrow> JStr p \<in> set (elems (fld v ''permissions'')))"
  using parse_access_wf [OF assms] parse_access_permissions [OF assms] by blast

lemma access_exact_witness:
  "\<exists>a. parseOrganizationAccessResponse
       (JObj [(''organization_id'', JStr ''11111111-0000-4000-8000-000000000000''), (''platform_role'', JStr ''user''),
              (''organization_role'', JStr ''viewer''),
              (''permissions'', JArr [JStr ''device.read'', JStr ''site.read'', JStr ''device.read''])])
       ''11111111-0000-4000-8000-000000000000'' = Inr a
     \<and> set (acc_permissions a) = {''device.read'', ''site.read''}" (is "\<exists>a. parseOrganizationAccessResponse ?v ?o = Inr a \<and> _")
proof -
  have "isOk (parseOrganizationAccessResponse ?v ?o)" by code_simp
  then obtain a where a: "parseOrganizationAccessResponse ?v ?o = Inr a" unfolding isOk_iff by blast
  have "p \<in> set (acc_permissions a) \<longleftrightarrow> p \<in> {''device.read'', ''site.read''}" for p
    using access_exact [OF a, THEN conjunct2, rule_format, of p] by auto
  with a show ?thesis by blast
qed

end
