(* ===== verification/Programs.thy ===== *)
theory Programs
  imports Access "HOL-Library.AList"
begin

text \<open>
  \<open>lib/api/programs.ts\<close>: the staged program sent to a frequency converter and its progress.
  \<open>parseProgramPlan\<close> turns an \<open>unknown\<close> payload into a plan or nothing; \<open>encode_plan\<close> is the
  object literal the code sends, and the round trip of the two is proved. Progress is kept as the
  validated object, with \<open>max_schedule_seconds\<close> filled in by \<open>with_field\<close> (the object spread).
\<close>

record program_step =
  step_frequency :: rat
  step_duration :: int

record program_plan =
  plan_steps :: "program_step list"

definition MAX_PROGRAM_STEPS :: nat where "MAX_PROGRAM_STEPS = 8"
definition MAX_PROGRAM_SECONDS :: int where "MAX_PROGRAM_SECONDS = 86400"
definition MAX_SCHEDULE_DAYS :: int where "MAX_SCHEDULE_DAYS = 7"
definition MAX_SCHEDULE_SECONDS :: int where "MAX_SCHEDULE_SECONDS = MAX_SCHEDULE_DAYS * 86400"

definition programStateLabels :: "(string \<times> string) list" where
  "programStateLabels =
     [(''idle'', uk ''Hotovyj do prohramy''), (''setting'', uk ''Vstanovlenn@ ^astoty''),
      (''starting'', uk ''O^ikuvann@ robo^o~ ^astoty''), (''holding'', uk ''Vykonu#t=s@''),
      (''stopping'', uk ''O^ikuvann@ pidtverd*enn@ zupynky''), (''completed'', uk ''Prohramu zaverweno''),
      (''interrupted'', uk ''Prohramu perervano''), (''failed'', uk ''Pomylka prohramy'')]"

text \<open>\<open>Object.hasOwn(labels, key)\<close>\<close>

definition has_label :: "(string \<times> string) list \<Rightarrow> string \<Rightarrow> bool" where
  "has_label labels key = (key \<in> set (map fst labels))"

definition programActive :: "json option \<Rightarrow> bool" where
  "programActive progress =
     (case progress of
        None \<Rightarrow> False
      | Some p \<Rightarrow> fld p ''state'' \<in> set (map JStr [''setting'', ''starting'', ''holding'', ''stopping'']))"

definition durationText :: "int \<Rightarrow> string" where
  "durationText seconds =
     (let h = seconds div 3600; m = seconds mod 3600 div 60; s = seconds mod 60;
          parts = [if h \<noteq> 0 then show_int h @ uk '' hod'' else [],
                   if m \<noteq> 0 then show_int m @ uk '' xv'' else [],
                   if s \<noteq> 0 then show_int s @ uk '' s'' else []];
          text = js_join '' '' (filter (\<lambda>p. p \<noteq> []) parts)
      in if text = [] then uk ''0 s'' else text)"

text \<open>At most two decimals, up to a tolerance of one millionth of a hundredth.\<close>

definition two_decimals :: "rat \<Rightarrow> bool" where
  "two_decimals q \<longleftrightarrow> \<bar>q * 100 - of_int (math_round (q * 100))\<bar> \<le> 1 / 1000000"

definition parseProgramStep :: "int \<Rightarrow> json \<Rightarrow> program_step option" where
  "parseProgramStep maxSeconds step =
     (let f = fld step ''frequency_hz''; d = fld step ''duration_seconds'' in
      if \<not> isRecord step \<or> length (obj_keys step) \<noteq> 2
         \<or> \<not> is_finite f \<or> rat_of f \<le> 0 \<or> 100 < rat_of f \<or> \<not> two_decimals (rat_of f)
         \<or> \<not> is_integer d \<or> int_of d < 10 \<or> maxSeconds < int_of d
      then None
      else Some \<lparr> step_frequency = rat_of f, step_duration = int_of d \<rparr>)"

definition total_seconds :: "program_step list \<Rightarrow> int" where
  "total_seconds steps = sum_list (map step_duration steps)"

definition parseProgramPlan :: "json \<Rightarrow> int \<Rightarrow> program_plan option" where
  "parseProgramPlan raw maxSeconds =
     (let steps = fld raw ''steps'' in
      if \<not> isRecord raw \<or> fld raw ''version'' \<noteq> JNum (Fin 1) \<or> length (obj_keys raw) \<noteq> 2
         \<or> \<not> is_array steps \<or> length (elems steps) < 1 \<or> MAX_PROGRAM_STEPS < length (elems steps)
      then None
      else (case those (map (parseProgramStep maxSeconds) (elems steps)) of
              None \<Rightarrow> None
            | Some ss \<Rightarrow> if total_seconds ss \<le> maxSeconds then Some \<lparr> plan_steps = ss \<rparr> else None))"

definition sameProgram :: "json \<Rightarrow> json \<Rightarrow> bool" where
  "sameProgram a b =
     (case (parseProgramPlan a MAX_PROGRAM_SECONDS, parseProgramPlan b MAX_PROGRAM_SECONDS) of
        (Some left, Some right) \<Rightarrow>
          length (plan_steps left) = length (plan_steps right) \<and>
          list_all (\<lambda>(x, y). step_frequency x = step_frequency y \<and> step_duration x = step_duration y)
            (zip (plan_steps left) (plan_steps right))
      | _ \<Rightarrow> False)"

record frequency_limits =
  min_hz :: rat
  max_hz :: rat

definition programWithinLimits :: "program_plan \<Rightarrow> frequency_limits option \<Rightarrow> bool" where
  "programWithinLimits plan limits =
     (case limits of
        None \<Rightarrow> False
      | Some l \<Rightarrow> list_all (\<lambda>s. min_hz l \<le> step_frequency s \<and> step_frequency s \<le> max_hz l) (plan_steps plan))"

definition with_field :: "json \<Rightarrow> string \<Rightarrow> json \<Rightarrow> json" where
  "with_field v k x = (case v of JObj ps \<Rightarrow> JObj (AList.update k x ps) | _ \<Rightarrow> v)"

lemma fld_with_field [simp]:
  "isRecord v \<Longrightarrow> fld (with_field v k x) j = (if j = k then x else fld v j)"
  by (auto simp: isRecord_def with_field_def update_conv split: json.splits)

lemma isRecord_with_field [simp]: "isRecord (with_field v k x) = isRecord v"
  by (auto simp: isRecord_def with_field_def split: json.splits)

text \<open>A number in the closed interval, and the same for integers.\<close>

definition int_in :: "json \<Rightarrow> int \<Rightarrow> int \<Rightarrow> bool" where
  "int_in v lo hi = (is_integer v \<and> lo \<le> int_of v \<and> int_of v \<le> hi)"

definition num_in :: "json \<Rightarrow> rat \<Rightarrow> rat \<Rightarrow> bool" where
  "num_in v lo hi = (is_finite v \<and> lo \<le> rat_of v \<and> rat_of v \<le> hi)"

definition parseProgramProgress :: "json \<Rightarrow> json option result" where
  "parseProgramProgress raw =
     (if is_nullish raw then Inr None else
      (let path = ''/api/v1/devices/overview''; g = fld raw in
      seqE (reject (\<not> isRecord raw \<or> g ''version'' \<noteq> JNum (Fin 1) \<or> \<not> is_bool (g ''ready'')
              \<or> \<not> is_string (g ''state'') \<or> \<not> has_label programStateLabels (str_of (g ''state'')))
              path ''program progress'') (
      seqE (forE (\<lambda>key. reject (\<not> int_in (g key) 0 (int MAX_PROGRAM_STEPS)) path ''program step'')
              [''step_index'', ''step_count'']) (
      seqE (reject (int_of (g ''step_count'') < int_of (g ''step_index'')) path ''program step order'') (
      seqE (if g ''command_id'' \<noteq> JNull then bindE (requiredUuid raw ''command_id'' path) (\<lambda>_. Inr ()) else Inr ()) (
      seqE (reject (g ''target_frequency_hz'' \<noteq> JNull \<and> \<not> num_in (g ''target_frequency_hz'') 0 100)
              path ''program frequency'') (
      seqE (reject (g ''remaining_seconds'' \<noteq> JNull \<and> \<not> int_in (g ''remaining_seconds'') 0 MAX_SCHEDULE_SECONDS)
              path ''program remaining time'') (
      seqE (reject (g ''reason'' \<noteq> JNull \<and> (\<not> is_string (g ''reason'') \<or> 96 < js_length (str_of (g ''reason''))))
              path ''program reason'') (
      seqE (reject (if g ''state'' = JStr ''idle''
                    then g ''command_id'' \<noteq> JNull \<or> g ''step_index'' \<noteq> JNum (Fin 0)
                      \<or> g ''step_count'' \<noteq> JNum (Fin 0) \<or> g ''target_frequency_hz'' \<noteq> JNull
                      \<or> g ''remaining_seconds'' \<noteq> JNull \<or> g ''reason'' \<noteq> JNull
                    else g ''command_id'' = JNull \<or> g ''step_count'' = JNum (Fin 0)) path ''program identity'') (
      seqE (reject (g ''state'' \<in> set (map JStr [''setting'', ''starting'', ''holding''])
                    \<and> (g ''step_index'' = JNum (Fin 0) \<or> g ''target_frequency_hz'' = JNull))
              path ''program active target'') (
      seqE (reject (g ''state'' = JStr ''holding'' \<and> g ''remaining_seconds'' = JNull) path ''program hold time'') (
      seqE (reject (g ''supports_schedule'' \<noteq> JUndef \<and> \<not> is_bool (g ''supports_schedule'')) path ''calendar support'') (
      seqE (reject (g ''max_schedule_seconds'' \<noteq> JUndef
                    \<and> \<not> int_in (g ''max_schedule_seconds'') 60 MAX_SCHEDULE_SECONDS)
              path ''calendar duration limit'') (
      Inr (Some (with_field raw ''max_schedule_seconds''
        (if is_nullish (g ''max_schedule_seconds'') then JNum (Fin (of_int MAX_PROGRAM_SECONDS))
         else g ''max_schedule_seconds'')))))))))))))))))"

section \<open>Plans\<close>

definition wf_step :: "int \<Rightarrow> program_step \<Rightarrow> bool" where
  "wf_step maxSeconds s \<longleftrightarrow>
     0 < step_frequency s \<and> step_frequency s \<le> 100 \<and> two_decimals (step_frequency s)
     \<and> 10 \<le> step_duration s \<and> step_duration s \<le> maxSeconds"

definition wf_plan :: "int \<Rightarrow> program_plan \<Rightarrow> bool" where
  "wf_plan maxSeconds p \<longleftrightarrow>
     1 \<le> length (plan_steps p) \<and> length (plan_steps p) \<le> MAX_PROGRAM_STEPS
     \<and> (\<forall>s \<in> set (plan_steps p). wf_step maxSeconds s)
     \<and> total_seconds (plan_steps p) \<le> maxSeconds"

text \<open>The object literal \<open>{ version: plan.version, steps: plan.steps }\<close>.\<close>

definition encode_step :: "program_step \<Rightarrow> json" where
  "encode_step s = JObj [(''frequency_hz'', JNum (Fin (step_frequency s))),
     (''duration_seconds'', JNum (Fin (of_int (step_duration s))))]"

definition encode_plan :: "program_plan \<Rightarrow> json" where
  "encode_plan p = JObj [(''version'', JNum (Fin 1)), (''steps'', JArr (map encode_step (plan_steps p)))]"

lemma parseProgramStep_wf: "parseProgramStep m v = Some s \<Longrightarrow> wf_step m s"
  by (auto simp: parseProgramStep_def Let_def wf_step_def split: if_splits)

lemma parse_encode_step: "wf_step m s \<Longrightarrow> parseProgramStep m (encode_step s) = Some s"
  by (auto simp: parseProgramStep_def encode_step_def wf_step_def isRecord_def int_of_def)

lemma those_Some: "those xs = Some ys \<longleftrightarrow> xs = map Some ys"
proof (induction xs arbitrary: ys)
  case (Cons x xs)
  then show ?case by (cases x; cases ys) auto
qed auto

lemma those_map_Some: "(\<And>x. x \<in> set xs \<Longrightarrow> f (g x) = Some x) \<Longrightarrow> those (map f (map g xs)) = Some xs"
  by (induction xs) auto

lemma parseProgramPlan_wf:
  assumes "parseProgramPlan raw m = Some p"
  shows "wf_plan m p"
proof -
  from assms have len: "\<not> length (elems (fld raw ''steps'')) < 1" "\<not> MAX_PROGRAM_STEPS < length (elems (fld raw ''steps''))"
    and th: "map (parseProgramStep m) (elems (fld raw ''steps'')) = map Some (plan_steps p)"
    and tot: "total_seconds (plan_steps p) \<le> m"
    by (auto simp: parseProgramPlan_def Let_def those_Some split: if_splits option.splits)
  from th have "\<forall>s \<in> set (plan_steps p). \<exists>v. parseProgramStep m v = Some s"
    by (metis in_set_conv_nth length_map nth_map)
  moreover from th have "length (plan_steps p) = length (elems (fld raw ''steps''))"
    by (metis length_map)
  ultimately show ?thesis using len tot parseProgramStep_wf by (auto simp: wf_plan_def Suc_le_eq)
qed

lemma parse_encode_plan:
  assumes "wf_plan m p"
  shows "parseProgramPlan (encode_plan p) m = Some p"
proof -
  have "those (map (parseProgramStep m) (map encode_step (plan_steps p))) = Some (plan_steps p)"
    by (rule those_map_Some) (use assms parse_encode_step in \<open>auto simp: wf_plan_def\<close>)
  with assms show ?thesis
    by (auto simp: parseProgramPlan_def encode_plan_def isRecord_def wf_plan_def simp del: map_map)
qed

lemma sameProgram_iff:
  "sameProgram a b \<longleftrightarrow>
     (\<exists>p. parseProgramPlan a MAX_PROGRAM_SECONDS = Some p \<and> parseProgramPlan b MAX_PROGRAM_SECONDS = Some p)"
proof -
  have "length (plan_steps l) = length (plan_steps r) \<and>
      list_all (\<lambda>(x, y). step_frequency x = step_frequency y \<and> step_duration x = step_duration y)
        (zip (plan_steps l) (plan_steps r)) \<longleftrightarrow> l = r" for l r :: program_plan
    by (auto simp: list_all_length intro!: program_plan.equality nth_equalityI program_step.equality)
  then show ?thesis by (auto simp: sameProgram_def split: option.splits)
qed

text \<open>A progress that is not idle belongs to a command and has steps; while it runs it has a
  target frequency within the range of the converter.\<close>

definition wf_progress :: "json \<Rightarrow> bool" where
  "wf_progress p \<longleftrightarrow> isRecord p
     \<and> int_in (fld p ''step_index'') 0 8 \<and> int_in (fld p ''step_count'') 0 8
     \<and> int_of (fld p ''step_index'') \<le> int_of (fld p ''step_count'')
     \<and> (fld p ''state'' \<noteq> JStr ''idle'' \<longrightarrow> (\<exists>c. fld p ''command_id'' = JStr c \<and> is_uuid c))
     \<and> (fld p ''state'' \<in> {JStr ''setting'', JStr ''starting'', JStr ''holding''} \<longrightarrow>
          num_in (fld p ''target_frequency_hz'') 0 100 \<and> 1 \<le> int_of (fld p ''step_index''))
     \<and> int_in (fld p ''max_schedule_seconds'') 60 MAX_SCHEDULE_SECONDS"

lemma int_of_zero: "is_integer v \<Longrightarrow> int_of v = 0 \<longleftrightarrow> v = JNum (Fin 0)"
  by (cases v) (auto simp: num_integer_cases int_of_def)

lemma parseProgramProgress_wf:
  assumes "parseProgramProgress raw = Inr (Some p)"
  shows "wf_progress p"
proof -
  let ?g = "fld raw"
  from assms have r: "isRecord raw"
    and p: "p = with_field raw ''max_schedule_seconds''
        (if is_nullish (?g ''max_schedule_seconds'') then JNum (Fin (of_int MAX_PROGRAM_SECONDS))
         else ?g ''max_schedule_seconds'')"
    and i: "int_in (?g ''step_index'') 0 8" "int_in (?g ''step_count'') 0 8"
    and o: "int_of (?g ''step_index'') \<le> int_of (?g ''step_count'')"
    and c: "?g ''command_id'' \<noteq> JNull \<Longrightarrow> \<exists>c. ?g ''command_id'' = JStr c \<and> is_uuid c"
    and f: "?g ''target_frequency_hz'' \<noteq> JNull \<Longrightarrow> num_in (?g ''target_frequency_hz'') 0 100"
    and id: "?g ''state'' \<noteq> JStr ''idle'' \<Longrightarrow> ?g ''command_id'' \<noteq> JNull"
    and act: "?g ''state'' \<in> {JStr ''setting'', JStr ''starting'', JStr ''holding''} \<Longrightarrow>
        ?g ''step_index'' \<noteq> JNum (Fin 0) \<and> ?g ''target_frequency_hz'' \<noteq> JNull"
    and mx: "?g ''max_schedule_seconds'' \<noteq> JUndef \<Longrightarrow>
        int_in (?g ''max_schedule_seconds'') 60 MAX_SCHEDULE_SECONDS"
    by (auto simp: parseProgramProgress_def Let_def ok_iff MAX_PROGRAM_STEPS_def split: if_splits)
  have "int_in (fld p ''max_schedule_seconds'') 60 MAX_SCHEDULE_SECONDS"
    using mx r unfolding p
    by (auto simp: is_nullish_def int_in_def int_of_def MAX_PROGRAM_SECONDS_def MAX_SCHEDULE_SECONDS_def
        MAX_SCHEDULE_DAYS_def)
  moreover have "1 \<le> int_of (?g ''step_index'')" if "?g ''step_index'' \<noteq> JNum (Fin 0)"
    using i(1) int_of_zero [of "?g ''step_index''"] that by (auto simp: int_in_def)
  ultimately show ?thesis
    using r i o c f id act unfolding wf_progress_def p by auto
qed

section \<open>Properties\<close>

text \<open>Plans round-trip: what the parser accepts is a plan of one to eight steps within the limits of
  frequency, duration and total time, and a plan within the limits, written as the object the client sends,
  parses back to itself.\<close>

theorem plan_roundtrip:
  "parseProgramPlan (encode_plan p) m = Some p \<longleftrightarrow> wf_plan m p"
  using parse_encode_plan parseProgramPlan_wf by blast

text \<open>Program progress that is accepted is coherent: indices within the plan, an active program belongs
  to a command and a running one has a target frequency.\<close>

theorem progress_coherent:
  assumes "parseProgramProgress raw = Inr (Some p)"
  shows "wf_progress p"
  using assms by (rule parseProgramProgress_wf)

definition sample_progress :: json where
  "sample_progress = JObj [(''version'', JNum (Fin 1)), (''ready'', JBool True), (''state'', JStr ''holding''), (''step_index'', JNum (Fin 1)),
     (''step_count'', JNum (Fin 2)), (''command_id'', JStr ''11111111-0000-4000-8000-000000000000''),
     (''target_frequency_hz'', JNum (Fin 30)), (''remaining_seconds'', JNum (Fin 60)), (''reason'', JNull)]"

lemma progress_coherent_witness: "\<exists>p. parseProgramProgress sample_progress = Inr (Some p) \<and> wf_progress p"
proof -
  have "holds (\<lambda>r. r \<noteq> None) (parseProgramProgress sample_progress)" by code_simp
  then obtain p where "parseProgramProgress sample_progress = Inr (Some p)" unfolding holds_iff by auto
  with progress_coherent show ?thesis by blast
qed

end
