(* ===== verification/Numerals.thy ===== *)
theory Numerals
  imports JsValue
begin

text \<open>
  Lemmas on printing and reading decimal numerals: the digits of a printed number denote it,
  text without outer white space is its own trim, and \<open>Number\<close> of a plain decimal is its value.
  The parsers of parameters, dates and times rest on them.
\<close>

lemma of_char_digit: "d < 10 \<Longrightarrow> (of_char (digit_char d) :: nat) = 48 + d"
  by (simp add: digit_char_def)

lemma digit_val_digit_char: "d < 10 \<Longrightarrow> digit_val (digit_char d) = int d"
  by (simp add: digit_val_def of_char_digit)

lemma is_digit_digit_char: "d < 10 \<Longrightarrow> is_digit (digit_char d)"
  by (simp add: is_digit_def of_char_digit Let_def)

lemma digits_val_append: "digits_val (xs @ [c]) = 10 * digits_val xs + digit_val c"
  by (simp add: digits_val_def)

lemma show_nat_digits: "list_all is_digit (show_nat n)"
proof (induction n rule: show_nat.induct)
  case (1 n)
  then show ?case
    by (cases "n < 10") (simp_all add: show_nat.simps [of n] is_digit_digit_char)
qed

lemma digits_val_show_nat: "digits_val (show_nat n) = int n"
proof (induction n rule: show_nat.induct)
  case (1 n)
  show ?case
  proof (cases "n < 10")
    case True
    then show ?thesis by (simp add: show_nat.simps [of n] digits_val_def digit_val_digit_char)
  next
    case False
    with 1 have "digits_val (show_nat (n div 10)) = int (n div 10)" by simp
    with False show ?thesis
      by (simp add: show_nat.simps [of n] digits_val_append digit_val_digit_char) presburger
  qed
qed

lemma show_nat_ne: "show_nat n \<noteq> []"
  by (subst show_nat.simps) simp

lemma split_digits_append:
  "list_all is_digit ds \<Longrightarrow> (\<And>c. r = c # tl r \<Longrightarrow> \<not> is_digit c) \<Longrightarrow> split_digits (ds @ r) = (ds, r)"
  by (induction ds; cases r) (auto simp: split_digits_def)


lemma math_round_int: "math_round (of_int i) = i"
  unfolding math_round_def by linarith

section \<open>Trimming\<close>

text \<open>A visible ASCII character: no white space starts or ends with one.\<close>

definition graphic :: "char \<Rightarrow> bool" where
  "graphic c = (let n = of_char c :: nat in 33 \<le> n \<and> n \<le> 126)"

lemma graphic_white: "graphic c \<Longrightarrow> c \<notin> set (map hd white_space) \<and> c \<notin> set (map last white_space)"
  by (auto simp: graphic_def white_space_def)

lemma strip_id:
  assumes "s = [] \<or> hd s \<notin> set (map hd ws)"
  shows "strip ws s = s"
proof -
  have "\<not> (w \<noteq> [] \<and> starts_with w s)" if "w \<in> set ws" for w
    using assms that by (cases w; cases s) (force simp: starts_with_def)+
  then have "List.find (\<lambda>w. w \<noteq> [] \<and> starts_with w s) ws = None"
    by (auto simp: find_None_iff)
  then show ?thesis by (simp add: strip.simps [of ws s])
qed

lemma js_trim_id:
  assumes "s = [] \<or> (graphic (hd s) \<and> graphic (last s))"
  shows "js_trim s = s"
proof -
  have ne: "\<forall>w \<in> set white_space. w \<noteq> []" by (simp add: white_space_def)
  have m: "map hd (map rev white_space) = map last white_space"
    using ne by (auto simp: hd_rev)
  have "js_trim_start s = s"
    unfolding js_trim_start_def by (rule strip_id) (use assms graphic_white in auto)
  moreover have "strip (map rev white_space) (rev s) = rev s"
    by (rule strip_id) (use assms graphic_white m in \<open>auto simp: hd_rev\<close>)
  ultimately show ?thesis by (simp add: js_trim_def js_trim_end_def)
qed

lemma digit_graphic: "is_digit c \<Longrightarrow> graphic c"
  by (simp add: is_digit_def graphic_def Let_def)

section \<open>Reading\<close>

lemma digit_not: "is_digit c \<Longrightarrow> c \<noteq> CHR ''-'' \<and> c \<noteq> CHR ''+'' \<and> c \<noteq> CHR ''.'' \<and> c \<noteq> CHR '':''"
  by (auto simp: is_digit_def)

lemma char_lower_digit: "is_digit c \<Longrightarrow> char_lower c = c"
  by (auto simp: is_digit_def char_lower_def Let_def)

lemma read_unsigned_decimal:
  assumes "list_all is_digit ip" "list_all is_digit fp" "ip \<noteq> []"
  shows "read_unsigned (ip @ (if fp = [] then [] else CHR ''.'' # fp)) =
    Fin (of_int (digits_val (ip @ fp)) / 10 ^ length fp)"
proof -
  let ?r = "if fp = [] then [] else CHR ''.'' # fp"
  have i: "hd (ip @ ?r) = hd ip" "is_digit (hd ip)" using assms by (cases ip; auto)+
  have "\<not> is_digit (CHR ''I'')" by (simp add: is_digit_def)
  with i have "ip @ ?r \<noteq> ''Infinity''" by auto
  moreover have "split_digits (ip @ ?r) = (ip, ?r)"
    by (rule split_digits_append) (use assms in \<open>auto simp: is_digit_def split: if_splits\<close>)
  moreover have "split_digits fp = (fp, [])"
    using split_digits_append [of fp "[]"] assms by simp
  ultimately show ?thesis
    using assms(3) by (auto simp: read_unsigned_def read_exponent_def pow10_def)
qed

lemma js_number_decimal:
  assumes "list_all is_digit ip" "list_all is_digit fp" "ip \<noteq> []"
  shows "js_number (ip @ (if fp = [] then [] else CHR ''.'' # fp)) =
    Fin (of_int (digits_val (ip @ fp)) / 10 ^ length fp)"
proof -
  let ?s = "ip @ (if fp = [] then [] else CHR ''.'' # fp)"
  have "list_all graphic ip" "list_all graphic fp"
    using assms digit_graphic by (auto simp: list_all_iff)
  then have t: "js_trim ?s = ?s"
    by (intro js_trim_id) (use assms in \<open>auto simp: last_append list_all_iff\<close>)
  obtain c r where s: "?s = c # r" "is_digit c" using assms by (cases ip) auto
  have "r = [] \<or> hd r = CHR ''.'' \<or> is_digit (hd r)"
    using s assms by (cases ip; cases "tl ip") (auto split: if_splits)
  moreover have "d = CHR ''.'' \<or> is_digit d \<Longrightarrow> char_lower d \<notin> set ''xob''" for d
    using char_lower_digit [of d] digit_not [of d]
    by (elim disjE) (auto simp: is_digit_def char_lower_def)
  ultimately have "js_lower (take 2 (c # r)) \<notin> {''0x'', ''0o'', ''0b''}"
    by (cases r) (auto simp: js_lower_def)
  with s t digit_not [OF s(2)] show ?thesis
    using read_unsigned_decimal [OF assms] by (simp add: js_number_def)
qed

section \<open>The order of strings\<close>

lemma str_lt_irrefl: "\<not> str_lt s s"
  by (induction s) auto

lemma str_lt_trans: "str_lt a b \<Longrightarrow> str_lt b c \<Longrightarrow> str_lt a c"
proof (induction a b arbitrary: c rule: str_lt.induct)
  case (2 b bs)
  then show ?case by (cases c) auto
next
  case (3 a as b bs)
  then show ?case by (cases c) auto
qed simp

lemma str_lt_total: "a = b \<or> str_lt a b \<or> str_lt b a"
proof (induction a arbitrary: b)
  case Nil
  then show ?case by (cases b) auto
next
  case (Cons x a)
  show ?case
  proof (cases b)
    case (Cons y b')
    have "x = y \<or> (of_char x :: nat) < of_char y \<or> (of_char y :: nat) < of_char x"
      by (metis linorder_neqE_nat of_char_eq_iff)
    with Cons.IH [of b'] Cons show ?thesis by auto
  qed simp
qed

lemma num_lt_trans: "num_lt a b \<Longrightarrow> num_lt b c \<Longrightarrow> num_lt a c"
  by (cases a; cases b; cases c) auto

lemma num_lt_irrefl: "\<not> num_lt a a"
  by (cases a) auto

end
