(* ===== verification/VfdSettings.thy ===== *)
theory VfdSettings
  imports Access Numerals
begin

text \<open>
  \<open>lib/api/vfd-settings.ts\<close>: the validator of the settings a frequency converter reports, the
  label of its control source, and the reading of a parameter typed by the user.

  The validator returns the payload itself; the model keeps it as \<open>json\<close> too. \<open>wf_vfd\<close> states
  what the rest of the application may read from it. A parameter register holds tenths:
  \<open>parameterWord_tenths\<close> is the round trip between a register value and its decimal text.
\<close>

definition vfd_path :: string where
  "vfd_path = ''/api/v1/devices/overview''"

definition vfd_word :: "json \<Rightarrow> int \<Rightarrow> bool" where
  "vfd_word value most = (value = JNull \<or> (is_integer value \<and> 0 \<le> int_of value \<and> int_of value \<le> most))"

definition vfd_parameters :: "string list" where
  "vfd_parameters = [''F0.10'', ''F0.11'']"

definition parseVfdSettings :: "json \<Rightarrow> json option result" where
  "parseVfdSettings raw =
     (let g = fld raw in
      if is_nullish raw then Inr None
      else if \<not> isRecord raw \<or> g ''version'' \<noteq> JNum (Fin 1) \<or> g ''driver_id'' \<noteq> JStr ''su600''
        \<or> \<not> is_bool (g ''ready'')
        \<or> \<not> is_safe_integer (g ''command_sequence'') \<or> int_of (g ''command_sequence'') < 0
        \<or> \<not> vfd_word (g ''run_source'') 2 \<or> \<not> vfd_word (g ''frequency_source'') 7
        \<or> \<not> isRecord (g ''parameters'')
        \<or> list_ex (\<lambda>code. code \<notin> set vfd_parameters) (obj_keys (g ''parameters''))
        \<or> \<not> list_all (\<lambda>code. vfd_word (fld (g ''parameters'') code) 9999) vfd_parameters
      then invalidResponse vfd_path ''model-specific VFD settings''
      else Inr (Some raw))"

text \<open>\<open>settings.run_source === 2 && settings.frequency_source === 6\<close>: control from the site.\<close>

definition remote_source :: "json \<Rightarrow> bool" where
  "remote_source s = (fld s ''run_source'' = JNum (Fin 2) \<and> fld s ''frequency_source'' = JNum (Fin 6))"

definition sourceLabel :: "json option \<Rightarrow> string" where
  "sourceLabel settings =
     (case settings of
        None \<Rightarrow> uk ''Ne pidtverd*eno''
      | Some s \<Rightarrow>
          (let run = fld s ''run_source''; freq = fld s ''frequency_source'' in
           if run = JNull \<or> freq = JNull then uk ''Ne pidtverd*eno''
           else if remote_source s then uk ''Dystancijne''
           else if run = JNum (Fin 0) \<and> freq = JNum (Fin 0) then uk ''Misceve % krutylka paneli''
           else if run = JNum (Fin 0) \<and> freq = JNum (Fin 1) then uk ''Misceve % knopky paneli''
           else if run = JNum (Fin 1) then uk ''Misceve % klemy ustanovky''
           else uk ''D*erela zapusku ta ^astoty vidrizn@$t=s@''))"

text \<open>\<open>/^\d+(?:[.,]\d)?$/\<close>\<close>

definition decimal_tenths :: "string \<Rightarrow> bool" where
  "decimal_tenths t =
     (let (ds, r) = split_digits t in
      ds \<noteq> [] \<and> (r = [] \<or> (length r = 2 \<and> hd r \<in> set ''.,'' \<and> is_digit (r ! 1))))"

text \<open>\<open>text.replace(",", ".")\<close>: the first comma.\<close>

fun comma_to_dot :: "string \<Rightarrow> string" where
  "comma_to_dot [] = []"
| "comma_to_dot (c # cs) = (if c = CHR '','' then CHR ''.'' # cs else c # comma_to_dot cs)"

definition parameterWord :: "string \<Rightarrow> int option" where
  "parameterWord text =
     (if \<not> decimal_tenths (js_trim text) then None
      else (let raw = math_round (num_rat (js_number (comma_to_dot (js_trim text))) * 10)
            in if 1 \<le> raw \<and> raw \<le> 9999 then Some raw else None))"

section \<open>Settings\<close>

definition wf_vfd :: "json \<Rightarrow> bool" where
  "wf_vfd s \<longleftrightarrow> isRecord s \<and> vfd_word (fld s ''run_source'') 2 \<and> vfd_word (fld s ''frequency_source'') 7
     \<and> (\<forall>code \<in> set vfd_parameters. vfd_word (fld (fld s ''parameters'') code) 9999)
     \<and> set (obj_keys (fld s ''parameters'')) \<subseteq> set vfd_parameters"

lemma parseVfdSettings_cases:
  "parseVfdSettings raw = Inr r \<Longrightarrow>
     (r = None \<and> is_nullish raw) \<or> (r = Some raw \<and> wf_vfd raw \<and> \<not> is_nullish raw)"
  by (auto simp: parseVfdSettings_def Let_def wf_vfd_def list_all_iff list_ex_iff split: if_splits)

text \<open>The label says remote exactly when the interlock of the control page lets the site control
  the converter.\<close>

lemma sourceLabel_remote:
  "sourceLabel (Some s) = uk ''Dystancijne'' \<longleftrightarrow> remote_source s"
proof -
  have d: "uk ''Dystancijne'' \<noteq> uk ''Ne pidtverd*eno''"
    "uk ''Dystancijne'' \<noteq> uk ''Misceve % krutylka paneli''"
    "uk ''Dystancijne'' \<noteq> uk ''Misceve % knopky paneli''"
    "uk ''Dystancijne'' \<noteq> uk ''Misceve % klemy ustanovky''"
    "uk ''Dystancijne'' \<noteq> uk ''D*erela zapusku ta ^astoty vidrizn@$t=s@''"
    by code_simp+
  have "remote_source s \<Longrightarrow> fld s ''run_source'' \<noteq> JNull \<and> fld s ''frequency_source'' \<noteq> JNull"
    by (simp add: remote_source_def)
  then show ?thesis
    by (simp add: sourceLabel_def Let_def d d [symmetric])
qed


section \<open>Parameters\<close>

text \<open>A register value as the decimal text with one place.\<close>

definition tenths_text :: "nat \<Rightarrow> char \<Rightarrow> string" where
  "tenths_text n sep = show_nat (n div 10) @ [sep, digit_char (n mod 10)]"

lemma comma_to_dot_digits: "list_all is_digit ds \<Longrightarrow> comma_to_dot (ds @ r) = ds @ comma_to_dot r"
  by (induction ds) (auto simp: is_digit_def)

lemma parameterWord_roundtrip:
  assumes "1 \<le> n" "n \<le> 9999" "sep \<in> set ''.,''"
  shows "parameterWord (tenths_text n sep) = Some (int n)"
proof -
  let ?ip = "show_nat (n div 10)" and ?fp = "[digit_char (n mod 10)]"
  have d: "list_all is_digit ?ip" "list_all is_digit ?fp" "?ip \<noteq> []"
    by (simp_all add: show_nat_digits is_digit_digit_char show_nat_ne)
  have g: "graphic (hd ?ip)" "graphic (digit_char (n mod 10))"
    using d by (cases ?ip; simp add: digit_graphic)+
  have t: "js_trim (tenths_text n sep) = tenths_text n sep"
    by (rule js_trim_id) (use g d in \<open>simp add: tenths_text_def\<close>)
  have nd: "\<not> is_digit sep" using assms(3) by (auto simp: is_digit_def)
  have "split_digits (tenths_text n sep) = (?ip, [sep, digit_char (n mod 10)])"
    unfolding tenths_text_def by (rule split_digits_append) (use d nd in auto)
  then have s: "decimal_tenths (tenths_text n sep)"
    using d assms(3) by (simp add: decimal_tenths_def is_digit_digit_char)
  have "comma_to_dot (tenths_text n sep) = ?ip @ CHR ''.'' # ?fp"
    using assms(3) is_digit_digit_char [of "n mod 10"]
    by (auto simp: tenths_text_def comma_to_dot_digits d is_digit_def)
  moreover have "js_number (?ip @ CHR ''.'' # ?fp) = Fin (of_int (digits_val (?ip @ ?fp)) / 10)"
    using js_number_decimal [OF d] by simp
  moreover have "digits_val (?ip @ ?fp) = int n"
    by (simp add: digits_val_append digits_val_show_nat digit_val_digit_char) presburger
  ultimately have "num_rat (js_number (comma_to_dot (tenths_text n sep))) * 10 = of_int (int n)"
    by simp
  then have "math_round (num_rat (js_number (comma_to_dot (tenths_text n sep))) * 10) = int n"
    by (simp only: math_round_int)
  with s t assms show ?thesis by (simp add: parameterWord_def)
qed

lemma parameterWord_bounds: "parameterWord t = Some n \<Longrightarrow> 1 \<le> n \<and> n \<le> 9999"
  by (auto simp: parameterWord_def Let_def split: if_splits)

section \<open>Properties\<close>

text \<open>A converter parameter typed with one decimal, with a comma or a point, becomes exactly its register
  word in tenths.\<close>

theorem parameter_exact:
  assumes "1 \<le> n" and "n \<le> 9999" and "sep \<in> set ''.,''"
  shows "parameterWord (tenths_text n sep) = Some (int n)"
  using assms by (rule parameterWord_roundtrip)

lemma parameter_exact_witness: "parameterWord ''50,0'' = Some 500"
proof -
  have "tenths_text 500 (CHR '','') = ''50,0''" by code_simp
  with parameter_exact [of 500 "CHR '',''"] show ?thesis by simp
qed

end
