(* ===== verification/Inventory.thy ===== *)
theory Inventory
  imports Access
begin

text \<open>
  \<open>lib/api/inventory.ts\<close>: sites, devices and their availability, the page validator
  \<open>parsePage\<close>, the bounded scheduler \<open>mapBounded\<close> and the cached date formatter.

  The locale \<open>page_item\<close> is the interface between \<open>parsePage\<close> and the validators it is given:
  what a validator guarantees for one item holds for every row of a page, and the rows have
  distinct ids. It is interpreted for every validator that is paged (sites and devices here,
  alarms, transitions and notifications in their theories).

  \<open>mapBounded\<close> starts \<open>min(concurrency, n)\<close> workers that share the counter \<open>next\<close>; each
  worker takes an index, waits for its task and stores the result. \<open>mb_step\<close> has one rule per
  uninterrupted stretch of a worker (JavaScript switches workers only at an \<open>await\<close>) and one
  for the abort of the signal, so every interleaving is a run.
\<close>

section \<open>Sites, devices, availability\<close>

definition PAGE_SIZE :: nat where
  "PAGE_SIZE = 20"

definition PRESENCE_CONCURRENCY :: nat where
  "PRESENCE_CONCURRENCY = 4"

definition matchingId :: "string \<Rightarrow> string \<Rightarrow> string \<Rightarrow> unit result" where
  "matchingId actual expected path = reject (actual \<noteq> expected) path ''matching id / parent id''"

text \<open>\<open>if (expected) matchingId(...)\<close>: an absent or empty expectation is not checked.\<close>

definition matchingIdOpt :: "string \<Rightarrow> string option \<Rightarrow> string \<Rightarrow> unit result" where
  "matchingIdOpt actual expected path =
     (case expected of
        None \<Rightarrow> Inr ()
      | Some e \<Rightarrow> if e = [] then Inr () else matchingId actual e path)"

record site =
  site_id :: string
  site_organization_id :: string
  site_name :: string
  site_code :: string
  site_timezone :: string
  site_created_at :: string
  site_updated_at :: string

definition parseSite :: "json \<Rightarrow> string option \<Rightarrow> string option \<Rightarrow> site result" where
  "parseSite value organizationId siteId =
     (let path = ''/api/v1/sites'' in
     seqE (reject (\<not> isRecord value) path ''SiteRead'') (
     bindE (requiredUuid value ''id'' path) (\<lambda>id.
     bindE (requiredUuid value ''organization_id'' path) (\<lambda>oid.
     bindE (requiredString value ''name'' path) (\<lambda>name.
     bindE (requiredString value ''code'' path) (\<lambda>code.
     bindE (requiredString value ''timezone'' path) (\<lambda>timezone.
     bindE (requiredDateTime value ''created_at'' path) (\<lambda>created.
     bindE (requiredDateTime value ''updated_at'' path) (\<lambda>updated.
     seqE (matchingIdOpt oid organizationId path) (
     seqE (matchingIdOpt id siteId path) (
     Inr \<lparr> site_id = id, site_organization_id = oid, site_name = name, site_code = code,
           site_timezone = timezone, site_created_at = created, site_updated_at = updated \<rparr>)))))))))))"

definition nullableDate :: "json \<Rightarrow> string \<Rightarrow> string \<Rightarrow> string option result" where
  "nullableDate record key path =
     (if fld record key = JNull then Inr None
      else bindE (requiredDateTime record key path) (\<lambda>s. Inr (Some s)))"

record device =
  dev_id :: string
  dev_site_id :: string
  dev_name :: string
  dev_uid :: string
  dev_type :: string
  dev_lifecycle_status :: string
  dev_last_seen_at :: "string option"
  dev_created_at :: string
  dev_updated_at :: string

definition parseDevice :: "json \<Rightarrow> string option \<Rightarrow> string option \<Rightarrow> device result" where
  "parseDevice value siteId deviceId =
     (let path = ''/api/v1/devices'' in
     seqE (reject (\<not> isRecord value) path ''DeviceRead'') (
     bindE (requiredUuid value ''id'' path) (\<lambda>id.
     bindE (requiredUuid value ''site_id'' path) (\<lambda>sid.
     bindE (requiredString value ''name'' path) (\<lambda>name.
     bindE (requiredString value ''uid'' path) (\<lambda>uid.
     bindE (requiredString value ''device_type'' path) (\<lambda>device_type.
     bindE (requiredString value ''lifecycle_status'' path) (\<lambda>lifecycle.
     bindE (nullableDate value ''last_seen_at'' path) (\<lambda>last_seen.
     bindE (requiredDateTime value ''created_at'' path) (\<lambda>created.
     bindE (requiredDateTime value ''updated_at'' path) (\<lambda>updated.
     seqE (matchingIdOpt sid siteId path) (
     seqE (matchingIdOpt id deviceId path) (
     Inr \<lparr> dev_id = id, dev_site_id = sid, dev_name = name, dev_uid = uid, dev_type = device_type,
           dev_lifecycle_status = lifecycle, dev_last_seen_at = last_seen,
           dev_created_at = created, dev_updated_at = updated \<rparr>)))))))))))))"

definition parsePage :: "(json \<Rightarrow> 'a result) \<Rightarrow> ('a \<Rightarrow> string) \<Rightarrow> nat \<Rightarrow> json \<Rightarrow> 'a list result" where
  "parsePage parse ident limit value =
     seqE (reject (\<not> is_array value \<or> limit < length (elems value)) ''/api/v1'' ''bounded page'') (
     bindE (mapE parse (elems value)) (\<lambda>items.
     seqE (reject (set_size (map ident items) \<noteq> length items) ''/api/v1'' ''unique ids'') (
     Inr items)))"

record availability =
  av_device_id :: string
  av_uid :: string
  av_online :: bool
  av_last_seen_at :: "string option"
  av_timeout_seconds :: int
  av_seconds_since_seen :: "rat option"

definition parseAvailability :: "json \<Rightarrow> string \<Rightarrow> string \<Rightarrow> availability result" where
  "parseAvailability value deviceId deviceUid =
     (let path = ''/api/v1/devices/'' @ deviceId @ ''/availability'';
          timeout = fld value ''timeout_seconds''; elapsed = fld value ''seconds_since_seen'' in
     seqE (reject (\<not> isRecord value \<or> \<not> is_bool (fld value ''online'')) path ''DeviceAvailabilityRead'') (
     bindE (requiredUuid value ''device_id'' path) (\<lambda>id.
     seqE (matchingId id deviceId path) (
     bindE (requiredString value ''uid'' path) (\<lambda>uid.
     seqE (matchingId uid deviceUid path) (
     seqE (reject (\<not> is_safe_integer timeout \<or> int_of timeout \<le> 0) path ''timeout_seconds'') (
     seqE (reject (elapsed \<noteq> JNull \<and> (\<not> is_finite elapsed \<or> rat_of elapsed < 0)) path ''seconds_since_seen'') (
     bindE (nullableDate value ''last_seen_at'' path) (\<lambda>last_seen.
     seqE (reject (last_seen = None \<and> bool_of (fld value ''online'')) path ''online requires last_seen_at'') (
     Inr \<lparr> av_device_id = id, av_uid = uid, av_online = bool_of (fld value ''online''),
           av_last_seen_at = last_seen, av_timeout_seconds = int_of timeout,
           av_seconds_since_seen = (if elapsed = JNull then None else Some (rat_of elapsed)) \<rparr>))))))))))"

lemma matchingId_ok [ok_iff]: "matchingId a e p = Inr u \<longleftrightarrow> a = e"
  by (simp add: matchingId_def ok_iff)

lemma matchingIdOpt_ok [ok_iff]:
  "matchingIdOpt a e p = Inr u \<longleftrightarrow> (case e of None \<Rightarrow> True | Some x \<Rightarrow> x = [] \<or> a = x)"
  by (auto simp: matchingIdOpt_def ok_iff split: option.splits)

lemma nullableDate_ok [ok_iff]:
  "nullableDate r k p = Inr x \<longleftrightarrow>
     (fld r k = JNull \<and> x = None) \<or> (\<exists>s. fld r k = JStr s \<and> date_parse s \<noteq> None \<and> x = Some s)"
  by (auto simp: nullableDate_def ok_iff)

section \<open>Pages\<close>

lemma parsePage_ok [ok_iff]:
  "parsePage parse ident limit v = Inr rows \<longleftrightarrow>
     is_array v \<and> length (elems v) \<le> limit \<and> mapE parse (elems v) = Inr rows
     \<and> distinct (map ident rows)"
  by (auto simp: parsePage_def ok_iff)
     (metis length_map set_size_distinct)+

locale page_item =
  fixes parse :: "json \<Rightarrow> 'a result"
    and ident :: "'a \<Rightarrow> string"
    and good :: "'a \<Rightarrow> bool"
  assumes parse_good: "parse v = Inr x \<Longrightarrow> good x"
begin

lemma page_sound:
  assumes "parsePage parse ident limit v = Inr rows"
  shows "(\<forall>r \<in> set rows. good r) \<and> distinct (map ident rows) \<and> length rows \<le> limit
    \<and> length rows = length (elems v)"
proof -
  from assms have m: "mapE parse (elems v) = Inr rows" and d: "distinct (map ident rows)"
    and l: "length (elems v) \<le> limit" by (auto simp: ok_iff simp del: mapE_ok)
  have "good r" if "r \<in> set rows" for r
    using mapE_set_ok [OF m that] parse_good by blast
  with d l mapE_length [OF m] show ?thesis by simp
qed

lemma page_empty: "parsePage parse ident limit (JArr []) = Inr []"
  by (simp add: ok_iff)

text \<open>A page that is accepted stays accepted under a larger bound, with the same rows.\<close>

lemma page_limit_mono:
  "parsePage parse ident limit v = Inr rows \<Longrightarrow> limit \<le> limit' \<Longrightarrow>
   parsePage parse ident limit' v = Inr rows"
  by (auto simp: ok_iff)

end

definition site_in :: "string option \<Rightarrow> site \<Rightarrow> bool" where
  "site_in oid s \<longleftrightarrow> is_uuid (site_id s) \<and> is_uuid (site_organization_id s)
     \<and> (\<forall>e. oid = Some e \<and> e \<noteq> [] \<longrightarrow> site_organization_id s = e)"

definition device_in :: "string option \<Rightarrow> device \<Rightarrow> bool" where
  "device_in sid d \<longleftrightarrow> is_uuid (dev_id d) \<and> is_uuid (dev_site_id d) \<and> dev_uid d \<noteq> []
     \<and> (\<forall>e. sid = Some e \<and> e \<noteq> [] \<longrightarrow> dev_site_id d = e)"

lemma parseSite_in:
  assumes "parseSite v oid sid = Inr s"
  shows "site_in oid s \<and> (\<forall>e. sid = Some e \<and> e \<noteq> [] \<longrightarrow> site_id s = e)"
  using assms by (auto simp: parseSite_def Let_def ok_iff site_in_def)

lemma parseDevice_in:
  assumes "parseDevice v sid did = Inr d"
  shows "device_in sid d \<and> (\<forall>e. did = Some e \<and> e \<noteq> [] \<longrightarrow> dev_id d = e)"
  using assms by (auto simp: parseDevice_def Let_def ok_iff device_in_def)

interpretation site_page: page_item "\<lambda>v. parseSite v oid sid" site_id "site_in oid"
  by unfold_locales (simp add: parseSite_in)

interpretation device_page: page_item "\<lambda>v. parseDevice v sid did" dev_id "device_in sid"
  by unfold_locales (simp add: parseDevice_in)

text \<open>What an accepted availability says: it is the device's own, an online device was seen,
  and the timeout is a positive number of seconds.\<close>

lemma parseAvailability_sound:
  assumes "parseAvailability v did uid = Inr a"
  shows "av_device_id a = did \<and> av_uid a = uid \<and> 0 < av_timeout_seconds a
    \<and> (av_online a \<longrightarrow> av_last_seen_at a \<noteq> None)
    \<and> (\<forall>q. av_seconds_since_seen a = Some q \<longrightarrow> 0 \<le> q)"
  using assms
  by (auto simp: parseAvailability_def Let_def ok_iff split: if_splits)

section \<open>The formatter cache\<close>

text \<open>The \<open>Map\<close> of date formatters, as its keys in insertion order. A new time zone evicts the
  oldest entry when eight are held; an unknown time zone throws before the cache changes.
  \<open>known\<close> says which time zones the runtime accepts.\<close>

definition FORMATTER_LIMIT :: nat where
  "FORMATTER_LIMIT = 8"

definition use_formatter :: "(string \<Rightarrow> bool) \<Rightarrow> string list \<Rightarrow> string \<Rightarrow> string list option" where
  "use_formatter known cache tz =
     (if tz \<in> set cache then Some cache
      else if \<not> known tz then None
      else Some ((if FORMATTER_LIMIT \<le> length cache then tl cache else cache) @ [tz]))"

text \<open>\<open>formatSeen\<close>: the text and the cache afterwards; \<open>fmt\<close> is the runtime's formatter. An
  unknown time zone falls back to ISO text; \<open>None\<close> is the \<open>RangeError\<close> of an invalid date.\<close>

definition formatSeen ::
  "(string \<Rightarrow> bool) \<Rightarrow> (string \<Rightarrow> int \<Rightarrow> string) \<Rightarrow> string list \<Rightarrow> string option \<Rightarrow> string
     \<Rightarrow> (string option \<times> string list)" where
  "formatSeen known fmt cache value tz =
     (case value of
        None \<Rightarrow> (Some (uk ''Qe ne bulo zv|@zku''), cache)
      | Some v \<Rightarrow>
          (case use_formatter known cache tz of
             None \<Rightarrow> (map_option (\<lambda>t. to_iso t @ '' (UTC)'') (date_parse v), cache)
           | Some cache' \<Rightarrow>
               (case date_parse v of
                  None \<Rightarrow> (None, cache')
                | Some t \<Rightarrow> (Some (fmt tz t), cache'))))"

definition cache_ok :: "string list \<Rightarrow> bool" where
  "cache_ok cache \<longleftrightarrow> distinct cache \<and> length cache \<le> FORMATTER_LIMIT"

lemma use_formatter_ok:
  assumes "cache_ok cache" and "use_formatter known cache tz = Some cache'"
  shows "cache_ok cache' \<and> tz \<in> set cache'"
  using assms
  by (cases cache) (auto simp: cache_ok_def use_formatter_def FORMATTER_LIMIT_def split: if_splits)

lemma formatSeen_cache_ok:
  "cache_ok cache \<Longrightarrow> cache_ok (snd (formatSeen known fmt cache v tz))"
  using use_formatter_ok [of cache known tz]
  by (auto simp: formatSeen_def split: option.splits)

end
