(* ===== verification/Readiness.thy ===== *)
theory Readiness
  imports Access
begin

text \<open>
  \<open>lib/api/readiness.ts\<close>: whether an installation is ready, as the server reports it. A missing
  report reads as blocked. \<open>rd_state\<close> keeps the reported value, which the code tests through
  \<open>String\<close> and does not convert.
\<close>

record readiness =
  rd_state :: json
  rd_title :: string
  rd_next_action :: "string option"
  rd_blockers :: "string list"

definition readiness_states :: "string list" where
  "readiness_states = [''needs_equipment'', ''awaiting_controller'', ''needs_local_confirmation'',
     ''needs_commissioning'', ''ready'', ''offline'', ''blocked'']"

definition unknown_readiness :: readiness where
  "unknown_readiness =
     \<lparr> rd_state = JStr ''blocked'', rd_title = uk ''Hotovnist= qe ne pidtverd*eno'',
       rd_next_action = Some (uk ''Monta*nyk ma# pereviryty pidkl$^enn@ ta hotovnist= obladnann@.''),
       rd_blockers = [uk ''Potribne aktual=ne pidtverd*enn@ hotovnosti''] \<rparr>"

definition bad_blocker :: "json \<Rightarrow> bool" where
  "bad_blocker item = (\<not> is_string item \<or> js_blank (str_of item) \<or> 1000 < js_length (str_of item))"

definition parseReadiness :: "json \<Rightarrow> string \<Rightarrow> readiness result" where
  "parseReadiness value path =
     (if is_nullish value then Inr unknown_readiness else
     (let state = fld value ''state''; blockers = fld value ''blockers'' in
     seqE (reject (\<not> isRecord value \<or> js_string state \<notin> set readiness_states) path ''installation readiness'') (
     seqE (reject (\<not> is_array blockers \<or> 20 < length (elems blockers) \<or> list_ex bad_blocker (elems blockers))
             path ''installation blockers'') (
     seqE (reject (state = JStr ''ready'' \<and> elems blockers \<noteq> []) path ''ready installation without blockers'') (
     bindE (requiredString value ''title'' path) (\<lambda>title.
     bindE (optionalString value ''next_action'' path) (\<lambda>next.
     Inr \<lparr> rd_state = state, rd_title = title, rd_next_action = next,
           rd_blockers = map str_of (elems blockers) \<rparr>)))))))"

definition wf_readiness :: "readiness \<Rightarrow> bool" where
  "wf_readiness r \<longleftrightarrow> js_string (rd_state r) \<in> set readiness_states \<and> rd_title r \<noteq> []
     \<and> length (rd_blockers r) \<le> 20 \<and> (\<forall>b \<in> set (rd_blockers r). \<not> js_blank b \<and> js_length b \<le> 1000)
     \<and> (rd_state r = JStr ''ready'' \<longrightarrow> rd_blockers r = [])"

lemma unknown_readiness_wf: "wf_readiness unknown_readiness"
proof -
  have "rd_title unknown_readiness \<noteq> []" by code_simp
  moreover have "\<not> js_blank (hd (rd_blockers unknown_readiness)) \<and> js_length (hd (rd_blockers unknown_readiness)) \<le> 1000"
    by code_simp
  ultimately show ?thesis
    by (simp add: wf_readiness_def unknown_readiness_def readiness_states_def)
qed

lemma parseReadiness_wf:
  assumes "parseReadiness v p = Inr r"
  shows "wf_readiness r"
proof (cases "is_nullish v")
  case True
  with assms show ?thesis by (simp add: parseReadiness_def unknown_readiness_wf)
next
  case False
  with assms show ?thesis
    by (auto simp: parseReadiness_def Let_def ok_iff wf_readiness_def list_ex_iff bad_blocker_def not_less)
qed

text \<open>The report is never ready by default.\<close>

lemma parseReadiness_missing: "is_nullish v \<Longrightarrow> parseReadiness v p = Inr unknown_readiness"
  by (simp add: parseReadiness_def)

text \<open>
  The test of the state goes through \<open>String\<close>: the array \<open>["ready"]\<close> passes it, and then is not
  the string \<open>"ready"\<close>, so the blockers of such a report are not rejected.
\<close>

lemma parseReadiness_array_state:
  "parseReadiness (JObj [(''state'', JArr [JStr ''ready'']), (''title'', JStr ''x''),
     (''blockers'', JArr [JStr ''fault''])]) p
   = Inr \<lparr> rd_state = JArr [JStr ''ready''], rd_title = ''x'', rd_next_action = None,
           rd_blockers = [''fault''] \<rparr>"
proof -
  have "\<not> bad_blocker (JStr ''fault'')" by code_simp
  then show ?thesis
    by (simp add: parseReadiness_def is_nullish_def isRecord_def reject_def readiness_states_def
        requiredString_def optionalString_def Let_def)
qed

end
