(* ===== verification/Equipment.thy ===== *)
theory Equipment
  imports Inventory Readiness
begin

text \<open>
  \<open>lib/api/equipment.ts\<close>: the passport of the equipment behind a controller. The server says
  which configuration it wants (\<open>desired\<close>), the controller which one it runs (\<open>reported\<close>); the
  passport may call itself verified only when the two agree field by field.

  The validator returns the payload with four fields replaced: \<open>equipment_passport\<close> keeps the
  payload (\<open>eq_data\<close>) and these four. \<open>verified_ok\<close> is the contract of a verified passport.
\<close>

definition equipmentStateLabels :: "(string \<times> string) list" where
  "equipmentStateLabels =
     [(''legacy'', uk ''Pasport qe ne vvedeno v ekspluataci$''),
      (''awaiting'', uk ''Kontroler qe ne pidtverdyv konfihuraci$ obladnann@''),
      (''mismatch'', uk ''Konfihuraci@ kontrolera vidrizn@#t=s@ vid zbere*eno~''),
      (''stale'', uk ''Pidtverd*enn@ obladnann@ zastarilo; onovit= dani''),
      (''incompatible'', uk ''Profil= abo stan obladnann@ nesumisnyj z keruvann@m''),
      (''verified'', uk ''Konfihuraci$ pidtverd*eno na moment perevirky'')]"

definition eq_path :: string where
  "eq_path = ''/api/v1/devices/equipment''"

definition equipmentState :: "json \<Rightarrow> string result" where
  "equipmentState value =
     (if \<not> is_string value \<or> str_of value \<notin> set (map fst equipmentStateLabels)
      then invalidResponse eq_path ''equipment state'' else Inr (str_of value))"

definition eq_record :: "json \<Rightarrow> json result" where
  "eq_record value = (if \<not> isRecord value then invalidResponse eq_path ''equipment object'' else Inr value)"

definition revision_ok :: "json \<Rightarrow> bool" where
  "revision_ok v = (is_safe_integer v \<and> 1 \<le> int_of v \<and> int_of v \<le> 2147483647)"

definition eq_revision :: "json \<Rightarrow> unit result" where
  "eq_revision value = reject (\<not> revision_ok value) eq_path ''revision''"

definition is_hash :: "json \<Rightarrow> bool" where
  "is_hash v = (is_string v \<and> match_classes (replicate 64 is_hex_lower) (str_of v))"

definition eq_hash :: "json \<Rightarrow> unit result" where
  "eq_hash value = reject (\<not> is_hash value) eq_path ''configuration hash''"

record equipment_target =
  tg_binding_id :: string
  tg_revision :: int
  tg_configuration_hash :: string

definition parseEquipmentTarget :: "json \<Rightarrow> equipment_target option result" where
  "parseEquipmentTarget value =
     (if is_nullish value then Inr None else
      bindE (eq_record value) (\<lambda>data.
      bindE (requiredUuid data ''binding_id'' eq_path) (\<lambda>bid.
      seqE (eq_revision (fld data ''revision'')) (
      seqE (eq_hash (fld data ''configuration_hash'')) (
      Inr (Some \<lparr> tg_binding_id = bid, tg_revision = int_of (fld data ''revision''),
                  tg_configuration_hash = str_of (fld data ''configuration_hash'') \<rparr>))))))"

definition sameEquipmentTarget :: "equipment_target option \<Rightarrow> equipment_target option \<Rightarrow> bool" where
  "sameEquipmentTarget a b =
     (case (a, b) of
        (Some x, Some y) \<Rightarrow> tg_binding_id x = tg_binding_id y \<and> tg_revision x = tg_revision y
          \<and> tg_configuration_hash x = tg_configuration_hash y
      | _ \<Rightarrow> a = None \<and> b = None)"

text \<open>A call whose result is not used.\<close>

definition ignoreE :: "'a result \<Rightarrow> unit result" where
  "ignoreE m = bindE m (\<lambda>_. Inr ())"

definition whenE :: "bool \<Rightarrow> 'a result \<Rightarrow> unit result" where
  "whenE b m = (if b then ignoreE m else Inr ())"

lemma ignoreE_ok [ok_iff]: "ignoreE m = Inr u \<longleftrightarrow> (\<exists>x. m = Inr x)"
  by (simp add: ignoreE_def ok_iff)

lemma whenE_ok [ok_iff]: "whenE b m = Inr u \<longleftrightarrow> (b \<longrightarrow> (\<exists>x. m = Inr x))"
  by (simp add: whenE_def ok_iff)

definition eq_binding :: "json \<Rightarrow> bool \<Rightarrow> json result" where
  "eq_binding value report =
     bindE (eq_record value) (\<lambda>data.
     seqE (ignoreE (requiredUuid data ''module_id'' eq_path)) (
     seqE (ignoreE (requiredUuid data ''binding_id'' eq_path)) (
     seqE (forE (\<lambda>key. eq_revision (fld data key))
            [''revision'', ''binding_generation'', ''profile_version'', ''driver_version'']) (
     seqE (forE (\<lambda>key. requiredString data key eq_path) [''profile_id'', ''driver_id'']) (
     seqE (eq_hash (fld data ''profile_hash'')) (
     seqE (whenE report (
       seqE (eq_hash (fld data ''configuration_hash''))
            (reject (fld data ''command_protocol'' \<noteq> JNum (Fin 3) \<or> \<not> is_bool (fld data ''compatible''))
               eq_path ''equipment protocol''))) (
     Inr data)))))))"

definition eq_installation :: "device \<Rightarrow> json \<Rightarrow> string result" where
  "eq_installation dev raw =
     bindE (eq_record raw) (\<lambda>item.
     bindE (requiredUuid item ''site_id'' eq_path) (\<lambda>sid.
     seqE (matchingId sid (dev_site_id dev) eq_path) (
     seqE (ignoreE (requiredString item ''name'' eq_path)) (
     requiredUuid item ''id'' eq_path))))"

definition motor_ok :: "json \<Rightarrow> unit result" where
  "motor_ok motor =
     forE (\<lambda>key. let v = fld motor key in
         if key \<noteq> ''rated_frequency_hz'' \<and> v = JNull then Inr ()
         else reject (\<not> is_finite v \<or> rat_of v \<le> 0) eq_path ''motor nameplate'')
       [''rated_frequency_hz'', ''rated_current_a'', ''rated_voltage_v'', ''rated_power_kw'']"

definition module_kinds :: "string list" where
  "module_kinds = [''vfd'', ''pressure_sensor'', ''digital_input'', ''relay'', ''other'']"

definition eq_module :: "device \<Rightarrow> string list \<Rightarrow> json \<Rightarrow> string result" where
  "eq_module dev installations raw =
     bindE (eq_record raw) (\<lambda>item.
     bindE (requiredUuid item ''device_id'' eq_path) (\<lambda>did.
     seqE (matchingId did (dev_id dev) eq_path) (
     seqE (whenE (\<not> is_nullish (fld item ''retired_at'')) (requiredDateTime item ''retired_at'' eq_path)) (
     bindE (requiredUuid item ''installation_id'' eq_path) (\<lambda>iid.
     seqE (reject (iid \<notin> set installations) eq_path ''module installation'') (
     seqE (forE (\<lambda>key. requiredString item key eq_path)
            [''slot'', ''name'', ''manufacturer'', ''series'', ''model'']) (
     seqE (forE (\<lambda>key. whenE (fld item key \<noteq> JNull) (requiredString item key eq_path))
            [''serial_number'', ''hardware_revision'', ''software_revision'']) (
     seqE (reject (js_string (fld item ''kind'') \<notin> set module_kinds) eq_path ''module kind'') (
     seqE (whenE (fld item ''motor'' \<noteq> JNull) (bindE (eq_record (fld item ''motor'')) motor_ok)) (
     requiredUuid item ''id'' eq_path))))))))))"

definition baud_rates :: "jsnum list" where
  "baud_rates = map Fin [1200, 2400, 4800, 9600, 19200, 38400, 57600, 115200]"

definition limits_ok :: "json \<Rightarrow> bool" where
  "limits_ok limits =
     (let lo = fld limits ''min_hz''; hi = fld limits ''max_hz'' in
      is_finite lo \<and> is_finite hi \<and> 0 \<le> rat_of lo \<and> rat_of hi \<le> 100 \<and> rat_of lo < rat_of hi)"

definition bus_ok :: "json \<Rightarrow> bool" where
  "bus_ok bus =
     (fld bus ''transport'' = JStr ''modbus_rtu''
      \<and> is_integer (fld bus ''address'') \<and> 1 \<le> int_of (fld bus ''address'') \<and> int_of (fld bus ''address'') \<le> 247
      \<and> js_to_number (fld bus ''baud'') \<in> set baud_rates
      \<and> js_string (fld bus ''parity'') \<in> set [''none'', ''even'', ''odd'']
      \<and> js_to_number (fld bus ''stop_bits'') \<in> {Fin 1, Fin 2})"

definition eq_desired :: "device \<Rightarrow> string list \<Rightarrow> json \<Rightarrow> unit result" where
  "eq_desired dev modules value =
     bindE (eq_record value) (\<lambda>desired.
     bindE (eq_binding (fld desired ''manifest'') False) (\<lambda>manifest.
     seqE (eq_hash (fld desired ''configuration_hash'')) (
     seqE (ignoreE (requiredDateTime desired ''created_at'' eq_path)) (
     seqE (ignoreE (requiredUuid desired ''actor_user_id'' eq_path)) (
     seqE (reject (fld manifest ''version'' \<noteq> JNum (Fin 1)) eq_path ''desired module'') (
     bindE (requiredUuid manifest ''module_id'' eq_path) (\<lambda>mid.
     seqE (reject (mid \<notin> set modules) eq_path ''desired module'') (
     bindE (requiredString manifest ''device_uid'' eq_path) (\<lambda>uid.
     seqE (matchingId uid (dev_uid dev) eq_path) (
     bindE (eq_record (fld manifest ''frequency_limits'')) (\<lambda>limits.
     seqE (reject (\<not> limits_ok limits) eq_path ''installation limits'') (
     bindE (eq_record (fld manifest ''bus'')) (\<lambda>bus.
     reject (\<not> bus_ok bus) eq_path ''bus settings'')))))))))))))"

definition confirmed_keys :: "string list" where
  "confirmed_keys = [''module_id'', ''binding_id'', ''revision'', ''binding_generation'', ''profile_id'',
     ''profile_version'', ''profile_hash'', ''driver_id'', ''driver_version'']"

definition eq_confirmed :: "json \<Rightarrow> json \<Rightarrow> unit result" where
  "eq_confirmed desired_value reported_value =
     seqE (reject (desired_value = JNull \<or> reported_value = JNull) eq_path ''confirmed equipment'') (
     bindE (eq_record desired_value) (\<lambda>desired.
     bindE (eq_record (fld desired ''manifest'')) (\<lambda>manifest.
     bindE (eq_record reported_value) (\<lambda>report.
     reject (\<not> truthy (fld report ''compatible'')
        \<or> \<not> js_eq (fld report ''configuration_hash'') (fld desired ''configuration_hash'')
        \<or> list_ex (\<lambda>key. \<not> js_eq (fld report key) (fld manifest key)) confirmed_keys)
       eq_path ''matching equipment confirmation''))))"

record equipment_passport =
  eq_data :: json
  eq_can_install :: bool
  eq_readiness :: readiness
  eq_capability :: json
  eq_mode :: json

text \<open>\<open>value ?? fallback\<close>\<close>

definition nullish_or :: "json \<Rightarrow> json \<Rightarrow> json" where
  "nullish_or v d = (if is_nullish v then d else v)"

definition parseEquipmentPassport :: "json \<Rightarrow> device \<Rightarrow> equipment_passport result" where
  "parseEquipmentPassport value dev =
     bindE (eq_record value) (\<lambda>data.
     (let g = fld data; insts = elems (g ''installations''); mods = elems (g ''modules'') in
     bindE (requiredUuid data ''device_id'' eq_path) (\<lambda>did.
     seqE (matchingId did (dev_id dev) eq_path) (
     bindE (requiredString data ''controller_uid'' eq_path) (\<lambda>uid.
     seqE (matchingId uid (dev_uid dev) eq_path) (
     seqE (whenE (\<not> is_nullish (g ''controller_id'')) (requiredUuid data ''controller_id'' eq_path)) (
     bindE (equipmentState (g ''configuration_state'')) (\<lambda>state.
     seqE (whenE (g ''firmware_version'' \<noteq> JNull) (requiredString data ''firmware_version'' eq_path)) (
     seqE (reject (\<not> is_array (g ''installations'') \<or> 100 < length insts
                   \<or> \<not> is_array (g ''modules'') \<or> 32 < length mods) eq_path ''bounded equipment list'') (
     bindE (mapE (eq_installation dev) insts) (\<lambda>installations.
     bindE (mapE (eq_module dev installations) mods) (\<lambda>modules.
     seqE (reject (set_size installations \<noteq> length insts \<or> set_size modules \<noteq> length mods)
             eq_path ''unique equipment ids'') (
     seqE (whenE (g ''desired'' \<noteq> JNull) (eq_desired dev modules (g ''desired''))) (
     seqE (whenE (g ''reported'' \<noteq> JNull) (eq_binding (g ''reported'') True)) (
     seqE (whenE (state = ''verified'') (eq_confirmed (g ''desired'') (g ''reported''))) (
     seqE (reject (g ''can_install'' \<noteq> JUndef \<and> \<not> is_bool (g ''can_install'')) eq_path ''installation permission'') (
     (let capability = nullish_or (g ''firmware_control_capability'') (JStr ''read_only'');
          mode = nullish_or (g ''commissioned_control_mode'') JNull in
     seqE (reject (js_string capability \<notin> set [''read_only'', ''bench'', ''full'']) eq_path
             ''firmware control capability'') (
     seqE (reject (mode \<noteq> JNull
             \<and> js_string mode \<notin> set [''read_only'', ''bench_without_motor'', ''extended_test''])
             eq_path ''commissioned control mode'') (
     bindE (parseReadiness (g ''readiness'') eq_path) (\<lambda>readiness.
     seqE (reject (rd_state readiness = JStr ''ready'' \<and> state \<noteq> ''verified'') eq_path
             ''verified installation readiness'') (
     Inr \<lparr> eq_data = data, eq_can_install = bool_of (g ''can_install''), eq_readiness = readiness,
           eq_capability = capability, eq_mode = mode \<rparr>))))))))))))))))))))))"

section \<open>Verified passports\<close>

definition desired_of :: "equipment_passport \<Rightarrow> json" where
  "desired_of p = fld (eq_data p) ''desired''"

definition manifest_of :: "equipment_passport \<Rightarrow> json" where
  "manifest_of p = fld (desired_of p) ''manifest''"

definition reported_of :: "equipment_passport \<Rightarrow> json" where
  "reported_of p = fld (eq_data p) ''reported''"

definition module_ids :: "equipment_passport \<Rightarrow> json list" where
  "module_ids p = map (\<lambda>m. fld m ''id'') (elems (fld (eq_data p) ''modules''))"

definition installation_ids :: "equipment_passport \<Rightarrow> json list" where
  "installation_ids p = map (\<lambda>m. fld m ''id'') (elems (fld (eq_data p) ''installations''))"

definition eq_state :: "equipment_passport \<Rightarrow> json" where
  "eq_state p = fld (eq_data p) ''configuration_state''"

text \<open>The controller reports, field by field, the configuration that is stored, for a module of
  this controller, with a sane frequency range and bus address.\<close>

definition verified_ok :: "device \<Rightarrow> equipment_passport \<Rightarrow> bool" where
  "verified_ok dev p \<longleftrightarrow>
     (\<forall>k \<in> set confirmed_keys. js_eq (fld (reported_of p) k) (fld (manifest_of p) k))
     \<and> js_eq (fld (reported_of p) ''configuration_hash'') (fld (desired_of p) ''configuration_hash'')
     \<and> fld (reported_of p) ''compatible'' = JBool True
     \<and> fld (manifest_of p) ''device_uid'' = JStr (dev_uid dev)
     \<and> fld (manifest_of p) ''module_id'' \<in> set (module_ids p)
     \<and> limits_ok (fld (manifest_of p) ''frequency_limits'') \<and> bus_ok (fld (manifest_of p) ''bus'')"

definition passport_ok :: "device \<Rightarrow> equipment_passport \<Rightarrow> bool" where
  "passport_ok dev p \<longleftrightarrow>
     fld (eq_data p) ''device_id'' = JStr (dev_id dev)
     \<and> (\<exists>s \<in> set (map fst equipmentStateLabels). eq_state p = JStr s)
     \<and> distinct (installation_ids p) \<and> distinct (module_ids p)
     \<and> (\<forall>m \<in> set (elems (fld (eq_data p) ''modules'')). fld m ''installation_id'' \<in> set (installation_ids p))
     \<and> (rd_state (eq_readiness p) = JStr ''ready'' \<longrightarrow>
          rd_blockers (eq_readiness p) = [] \<and> eq_state p = JStr ''verified'')
     \<and> (eq_state p = JStr ''verified'' \<longrightarrow> verified_ok dev p)"

lemma eq_record_ok [ok_iff]: "eq_record v = Inr d \<longleftrightarrow> isRecord v \<and> d = v"
  by (auto simp: eq_record_def)

lemma bind_record: "bindE (eq_record v) f = Inr y \<longleftrightarrow> isRecord v \<and> f v = Inr y"
  by (auto simp: ok_iff)

lemma equipmentState_ok [ok_iff]:
  "equipmentState v = Inr s \<longleftrightarrow> v = JStr s \<and> s \<in> set (map fst equipmentStateLabels)"
  by (cases v) (auto simp: equipmentState_def)

lemma eq_hash_ok [ok_iff]: "eq_hash v = Inr u \<longleftrightarrow> is_hash v"
  by (simp add: eq_hash_def ok_iff)

lemma eq_revision_ok [ok_iff]: "eq_revision v = Inr u \<longleftrightarrow> revision_ok v"
  by (simp add: eq_revision_def ok_iff)

lemma eq_binding_ok:
  "eq_binding v report = Inr d \<Longrightarrow>
     d = v \<and> isRecord v \<and> (report \<longrightarrow> is_hash (fld v ''configuration_hash'') \<and> is_bool (fld v ''compatible''))"
  by (auto simp: eq_binding_def ok_iff)

lemma eq_module_ok:
  "eq_module dev insts v = Inr i \<Longrightarrow>
     fld v ''id'' = JStr i \<and> (\<exists>s \<in> set insts. fld v ''installation_id'' = JStr s)"
  by (auto simp: eq_module_def ok_iff)

lemma eq_installation_ok: "eq_installation dev v = Inr i \<Longrightarrow> fld v ''id'' = JStr i"
  by (auto simp: eq_installation_def ok_iff)

lemma eq_desired_ok:
  assumes "eq_desired dev modules d = Inr u"
  shows "\<exists>m \<in> set modules. fld (fld d ''manifest'') ''module_id'' = JStr m"
    and "fld (fld d ''manifest'') ''device_uid'' = JStr (dev_uid dev)"
    and "limits_ok (fld (fld d ''manifest'') ''frequency_limits'')"
    and "bus_ok (fld (fld d ''manifest'') ''bus'')"
  using assms by (auto simp: eq_desired_def ok_iff dest!: eq_binding_ok)

lemma eq_confirmed_ok:
  assumes "eq_confirmed d r = Inr u"
  shows "d \<noteq> JNull" "r \<noteq> JNull" "truthy (fld r ''compatible'')"
    "js_eq (fld r ''configuration_hash'') (fld d ''configuration_hash'')"
    "\<forall>k \<in> set confirmed_keys. js_eq (fld r k) (fld (fld d ''manifest'') k)"
  using assms by (auto simp: eq_confirmed_def ok_iff list_ex_iff)

lemma ids_of: "mapE f xs = Inr ys \<Longrightarrow> (\<And>v i. f v = Inr i \<Longrightarrow> fld v ''id'' = JStr i) \<Longrightarrow>
    map (\<lambda>m. fld m ''id'') xs = map JStr ys"
  by (metis mapE_id)

lemma parseEquipmentPassport_parts:
  assumes "parseEquipmentPassport v dev = Inr p"
  obtains installations modules state where
    "eq_data p = v" "fld v ''device_id'' = JStr (dev_id dev)"
    "equipmentState (fld v ''configuration_state'') = Inr state"
    "mapE (eq_installation dev) (elems (fld v ''installations'')) = Inr installations"
    "mapE (eq_module dev installations) (elems (fld v ''modules'')) = Inr modules"
    "set_size installations = length (elems (fld v ''installations''))"
    "set_size modules = length (elems (fld v ''modules''))"
    "fld v ''desired'' \<noteq> JNull \<Longrightarrow> eq_desired dev modules (fld v ''desired'') = Inr ()"
    "fld v ''reported'' \<noteq> JNull \<Longrightarrow> \<exists>r. eq_binding (fld v ''reported'') True = Inr r"
    "state = ''verified'' \<Longrightarrow> eq_confirmed (fld v ''desired'') (fld v ''reported'') = Inr ()"
    "parseReadiness (fld v ''readiness'') eq_path = Inr (eq_readiness p)"
    "rd_state (eq_readiness p) = JStr ''ready'' \<Longrightarrow> state = ''verified''"
  using assms unfolding parseEquipmentPassport_def Let_def bind_record
  unfolding bindE_ok seqE_ok
    matchingId_ok reject_ok whenE_ok sum.inject
  apply (elim exE conjE)
  subgoal premises prems
    by (rule prems(1) [OF _ _ prems(8) prems(11) prems(12)])
      (use prems(3,4,13-16,20,21) in \<open>simp_all add: requiredUuid_ok flip: prems(22)\<close>)
  done

lemma parseEquipmentPassport_sound:
  assumes "parseEquipmentPassport v dev = Inr p"
  shows "passport_ok dev p"
proof -
  obtain iss ms st where p: "eq_data p = v" "fld v ''device_id'' = JStr (dev_id dev)"
    and st: "fld v ''configuration_state'' = JStr st" "st \<in> set (map fst equipmentStateLabels)"
    and i: "mapE (eq_installation dev) (elems (fld v ''installations'')) = Inr iss"
    and m: "mapE (eq_module dev iss) (elems (fld v ''modules'')) = Inr ms"
    and sz: "set_size iss = length (elems (fld v ''installations''))"
      "set_size ms = length (elems (fld v ''modules''))"
    and d: "fld v ''desired'' \<noteq> JNull \<Longrightarrow> eq_desired dev ms (fld v ''desired'') = Inr ()"
    and r: "fld v ''reported'' \<noteq> JNull \<Longrightarrow> \<exists>r. eq_binding (fld v ''reported'') True = Inr r"
    and c: "st = ''verified'' \<Longrightarrow> eq_confirmed (fld v ''desired'') (fld v ''reported'') = Inr ()"
    and rd: "parseReadiness (fld v ''readiness'') eq_path = Inr (eq_readiness p)"
      "rd_state (eq_readiness p) = JStr ''ready'' \<Longrightarrow> st = ''verified''"
    by (rule parseEquipmentPassport_parts [OF assms]) (auto simp: equipmentState_ok)
  have ii: "installation_ids p = map JStr iss"
    unfolding installation_ids_def p by (rule ids_of [OF i eq_installation_ok])
  have mi: "module_ids p = map JStr ms"
    unfolding module_ids_def p by (rule ids_of [OF m]) (simp add: eq_module_ok)
  have "distinct iss" "distinct ms"
    using sz mapE_length [OF i] mapE_length [OF m] by (metis set_size_distinct)+
  then have dist: "distinct (installation_ids p)" "distinct (module_ids p)"
    by (simp_all add: ii mi distinct_map inj_on_def)
  have inst: "fld x ''installation_id'' \<in> set (installation_ids p)"
    if x: "x \<in> set (elems (fld v ''modules''))" for x
  proof -
    from m x obtain y where "eq_module dev iss x = Inr y"
      by (auto simp: mapE_ok list_all2_conv_all_nth in_set_conv_nth)
    then show ?thesis using eq_module_ok by (fastforce simp: ii)
  qed
  have ver: "verified_ok dev p" if "st = ''verified''"
  proof -
    note e = eq_confirmed_ok [OF c [OF that]]
    note f = eq_desired_ok [OF d [OF e(1)]]
    from r [OF e(2)] have "is_bool (fld (fld v ''reported'') ''compatible'')"
      by (auto dest: eq_binding_ok)
    with e(3) have "fld (fld v ''reported'') ''compatible'' = JBool True"
      by (cases "fld (fld v ''reported'') ''compatible''") auto
    with e f show ?thesis
      by (auto simp: verified_ok_def reported_of_def manifest_of_def desired_of_def p mi)
  qed
  have "wf_readiness (eq_readiness p)" using rd(1) by (rule parseReadiness_wf)
  then show ?thesis
    using p st rd dist inst ver by (auto simp: passport_ok_def eq_state_def wf_readiness_def)
qed

text \<open>The nine compared fields include the hash of the profile, so a verified passport names the
  same profile on both sides; equality of targets is an equivalence.\<close>

lemma sameEquipmentTarget_iff: "sameEquipmentTarget a b \<longleftrightarrow> a = b"
  by (cases a; cases b) (auto simp: sameEquipmentTarget_def)

end
