(* ===== verification/Diagnostics.thy ===== *)
theory Diagnostics
  imports Programs VfdSettings Equipment
begin

text \<open>
  \<open>lib/api/diagnostics.ts\<close>: what a controller reports about itself: its firmware, its uptime, the
  reason of the last reset, the radio signal, the last stop, the program it runs and the settings
  of the converter.
\<close>

definition stopReasonLabels :: "(string \<times> string) list" where
  "stopReasonLabels =
     [(''program_completed'', uk ''Prohrama zaverwena''), (''command'', uk ''Komanda {STOP}''),
      (''local_disarm'', uk ''Lokal=nyj {DISARM}''), (''bench_timer'', uk ''Zaverwyvs@ stendovyj tajmer''),
      (''network_lost'', uk ''Vtra^eno hotovnist= mere*evoho kanalu''),
      (''vfd_link_lost'', uk ''Vtra^eno zv|@zok iz ^astotnykom''), (''vfd_fault'', uk ''Pomylka ^astotnyka''),
      (''configuration_mismatch'', uk ''Nalawtuvann@ ne vidpovida$t= profil$''),
      (''storage_failed'', uk ''Pomylka zbere*enn@ stanu''),
      (''physical_result_unconfirmed'', uk ''Rezul=tat keruvann@ ne pidtverd*eno''),
      (''restart_recovery'', uk ''Vidnovlenn@ pisl@ perezapusku z nezaverwenym keruvann@m'')]"

definition resetReasonLabels :: "(string \<times> string) list" where
  "resetReasonLabels =
     [(''unknown'', uk ''Pry^ynu ne vyzna^eno''), (''power_on'', uk ''Uvimknenn@ *yvlenn@''),
      (''external'', uk ''Zovniwnij {RESET}''), (''software'', uk ''Prohramnyj perezapusk''),
      (''panic'', uk ''Zbij prohramy''), (''interrupt_watchdog'', uk ''{Watchdog }pereryvan=''),
      (''task_watchdog'', uk ''{Watchdog }zada^i''), (''watchdog'', ''Watchdog''),
      (''deep_sleep'', uk ''Vyxid iz hlybokoho snu''), (''brownout'', uk ''Prosidann@ *yvlenn@''),
      (''sdio'', uk ''Skydann@ {SDIO}'')]"

definition transportLabels :: "(string \<times> string) list" where
  "transportLabels =
     [(''wifi'', ''Wi-Fi''), (''cellular'', uk ''Mobil=na mere*a''), (''ethernet'', ''Ethernet''),
      (''unknown'', uk ''Ne vyzna^eno'')]"

definition diag_path :: string where
  "diag_path = ''/api/v1/devices/overview''"

definition diag_record :: "json \<Rightarrow> json result" where
  "diag_record value = (if \<not> isRecord value then invalidResponse diag_path ''diagnostic object'' else Inr value)"

definition diag_uptime :: "json \<Rightarrow> int result" where
  "diag_uptime value =
     (if \<not> is_safe_integer value \<or> int_of value < 0 then invalidResponse diag_path ''diagnostic uptime''
      else Inr (int_of value))"

definition knownKey :: "json \<Rightarrow> (string \<times> string) list \<Rightarrow> string result" where
  "knownKey value labels =
     (if \<not> is_string value \<or> \<not> has_label labels (str_of value)
      then invalidResponse diag_path ''diagnostic code'' else Inr (str_of value))"

text \<open>\<open>/^[0-9A-Za-z.+_-]{1,32}$/\<close>\<close>

definition firmware_ok :: "string \<Rightarrow> bool" where
  "firmware_ok s = (1 \<le> length s \<and> length s \<le> 32 \<and> list_all (\<lambda>c. is_alnum c \<or> c \<in> set ''.+_-'') s)"

record radio_signal =
  sig_metric :: string
  sig_dbm :: int

record stop_diagnostics =
  stop_reason :: string
  stop_uptime_ms :: int
  stop_confirmed :: bool
  stop_requested_at :: "string option"

text \<open>\<open>dg_vfd_settings\<close> is the outer option when the property is absent.\<close>

record diagnostics =
  dg_firmware :: string
  dg_uptime_ms :: int
  dg_reset_reason :: string
  dg_transport :: string
  dg_signal :: "radio_signal option"
  dg_last_stop :: "stop_diagnostics option"
  dg_program :: "json option"
  dg_vfd_settings :: "json option option"

definition parseSignal :: "json \<Rightarrow> string \<Rightarrow> radio_signal option result" where
  "parseSignal raw transport =
     (if is_nullish raw then Inr None else
      bindE (diag_record raw) (\<lambda>value.
      (let metric = fld value ''metric''; dbm = fld value ''dbm'' in
      seqE (reject ((metric \<noteq> JStr ''rssi'' \<and> metric \<noteq> JStr ''rsrp'') \<or> \<not> is_safe_integer dbm
              \<or> int_of dbm < -160 \<or> 0 < int_of dbm \<or> transport \<notin> set [''wifi'', ''cellular'']
              \<or> (transport = ''wifi'' \<and> (metric \<noteq> JStr ''rssi'' \<or> int_of dbm < -127)))
              diag_path ''radio signal'') (
      Inr (Some \<lparr> sig_metric = str_of metric, sig_dbm = int_of dbm \<rparr>)))))"

definition parseLastStop :: "json \<Rightarrow> int \<Rightarrow> stop_diagnostics option result" where
  "parseLastStop raw uptimeMs =
     (if is_nullish raw then Inr None else
      bindE (diag_record raw) (\<lambda>stop.
      seqE (reject (\<not> is_bool (fld stop ''confirmed'')) diag_path ''stop confirmation'') (
      bindE (diag_uptime (fld stop ''uptime_ms'')) (\<lambda>stoppedAt.
      seqE (reject (uptimeMs < stoppedAt) diag_path ''stop after sample'') (
      bindE (knownKey (fld stop ''reason'') stopReasonLabels) (\<lambda>reason.
      bindE (if is_nullish (fld stop ''requested_at'') then Inr None
             else bindE (requiredDateTime stop ''requested_at'' diag_path) (\<lambda>s. Inr (Some s))) (\<lambda>requested.
      Inr (Some \<lparr> stop_reason = reason, stop_uptime_ms = stoppedAt,
                  stop_confirmed = bool_of (fld stop ''confirmed''), stop_requested_at = requested \<rparr>))))))))"

definition parseDiagnostics :: "json \<Rightarrow> diagnostics option result" where
  "parseDiagnostics raw =
     (if is_nullish raw then Inr None else
      bindE (diag_record raw) (\<lambda>data.
      seqE (reject (fld data ''version'' \<noteq> JNum (Fin 1)) diag_path ''diagnostic version'') (
      bindE (requiredString data ''firmware_version'' diag_path) (\<lambda>firmware.
      seqE (reject (\<not> firmware_ok firmware) diag_path ''firmware version'') (
      bindE (diag_uptime (fld data ''uptime_ms'')) (\<lambda>uptimeMs.
      bindE (diag_record (fld data ''connection'')) (\<lambda>connection.
      bindE (knownKey (fld connection ''transport'') transportLabels) (\<lambda>transport.
      bindE (parseSignal (fld connection ''signal'') transport) (\<lambda>signal.
      bindE (parseLastStop (fld data ''last_stop'') uptimeMs) (\<lambda>lastStop.
      bindE (knownKey (fld data ''reset_reason'') resetReasonLabels) (\<lambda>reset.
      bindE (parseProgramProgress (fld data ''program'')) (\<lambda>program.
      bindE (if fld data ''vfd_settings'' = JUndef then Inr None
             else bindE (parseVfdSettings (fld data ''vfd_settings'')) (\<lambda>v. Inr (Some v))) (\<lambda>vfd.
      Inr (Some \<lparr> dg_firmware = firmware, dg_uptime_ms = uptimeMs, dg_reset_reason = reset,
                  dg_transport = transport, dg_signal = signal, dg_last_stop = lastStop,
                  dg_program = program, dg_vfd_settings = vfd \<rparr>))))))))))))))"

definition uptimeText :: "int \<Rightarrow> string" where
  "uptimeText ms =
     (let seconds = ms div 1000; days = seconds div 86400
      in (if days \<noteq> 0 then show_int days @ uk '' d '' else []) @ show_int (seconds div 3600 mod 24) @ uk '' hod ''
         @ show_int (seconds div 60 mod 60) @ uk '' xv '' @ show_int (seconds mod 60) @ uk '' s'')"

section \<open>What diagnostics say\<close>

definition wf_signal :: "string \<Rightarrow> radio_signal \<Rightarrow> bool" where
  "wf_signal transport s \<longleftrightarrow>
     (transport = ''wifi'' \<and> sig_metric s = ''rssi'' \<and> -127 \<le> sig_dbm s \<and> sig_dbm s \<le> 0)
     \<or> (transport = ''cellular'' \<and> sig_metric s \<in> {''rssi'', ''rsrp''} \<and> -160 \<le> sig_dbm s \<and> sig_dbm s \<le> 0)"

definition wf_diagnostics :: "diagnostics \<Rightarrow> bool" where
  "wf_diagnostics d \<longleftrightarrow>
     firmware_ok (dg_firmware d) \<and> 0 \<le> dg_uptime_ms d
     \<and> has_label resetReasonLabels (dg_reset_reason d) \<and> has_label transportLabels (dg_transport d)
     \<and> (\<forall>s. dg_signal d = Some s \<longrightarrow> wf_signal (dg_transport d) s)
     \<and> (\<forall>s. dg_last_stop d = Some s \<longrightarrow> has_label stopReasonLabels (stop_reason s)
           \<and> 0 \<le> stop_uptime_ms s \<and> stop_uptime_ms s \<le> dg_uptime_ms d)
     \<and> (\<forall>p. dg_program d = Some p \<longrightarrow> wf_progress p)
     \<and> (\<forall>v. dg_vfd_settings d = Some (Some v) \<longrightarrow> wf_vfd v)"

lemma diag_record_ok [ok_iff]: "diag_record v = Inr d \<longleftrightarrow> isRecord v \<and> d = v"
  by (auto simp: diag_record_def)

lemma diag_uptime_ok [ok_iff]:
  "diag_uptime v = Inr n \<longleftrightarrow> is_safe_integer v \<and> 0 \<le> int_of v \<and> n = int_of v"
  by (auto simp: diag_uptime_def)

lemma knownKey_ok [ok_iff]: "knownKey v labels = Inr k \<longleftrightarrow> v = JStr k \<and> has_label labels k"
  by (cases v) (auto simp: knownKey_def)

lemma parseSignal_wf: "parseSignal raw t = Inr (Some s) \<Longrightarrow> wf_signal t s"
  unfolding parseSignal_def if_None_ok Let_def bindE_ok seqE_ok reject_ok diag_record_ok
    sum.inject option.inject de_Morgan_disj de_Morgan_conj not_not
  by (elim exE conjE, hypsubst, simp add: wf_signal_def) (elim disjE; simp)

lemma parseLastStop_wf:
  "parseLastStop raw up = Inr (Some s) \<Longrightarrow>
     has_label stopReasonLabels (stop_reason s) \<and> 0 \<le> stop_uptime_ms s \<and> stop_uptime_ms s \<le> up"
  unfolding parseLastStop_def if_None_ok
  by (auto simp: ok_iff)

lemma parseDiagnostics_wf:
  assumes "parseDiagnostics raw = Inr (Some d)"
  shows "wf_diagnostics d"
proof -
  from assms obtain connection where
    f: "firmware_ok (dg_firmware d)" "0 \<le> dg_uptime_ms d"
      "has_label resetReasonLabels (dg_reset_reason d)" "has_label transportLabels (dg_transport d)"
    and s: "parseSignal (fld connection ''signal'') (dg_transport d) = Inr (dg_signal d)"
    and l: "parseLastStop (fld raw ''last_stop'') (dg_uptime_ms d) = Inr (dg_last_stop d)"
    and p: "parseProgramProgress (fld raw ''program'') = Inr (dg_program d)"
    and v: "\<forall>w. dg_vfd_settings d = Some w \<longrightarrow> parseVfdSettings (fld raw ''vfd_settings'') = Inr w"
    unfolding parseDiagnostics_def if_None_ok bindE_ok seqE_ok reject_ok diag_record_ok diag_uptime_ok
      knownKey_ok sum.inject option.inject
    apply (elim exE conjE)
    subgoal premises prems
      using prems by - (hypsubst, rule prems(1),
          simp_all add: bindE_ok split: if_splits, elim exE conjE, hypsubst, simp)
    done
  from v have "wf_vfd w" if "dg_vfd_settings d = Some (Some w)" for w
    using that parseVfdSettings_cases by blast
  with f s l p show ?thesis
    unfolding wf_diagnostics_def
    using parseSignal_wf parseLastStop_wf parseProgramProgress_wf by metis
qed

end
