(* ===== verification/Overview.thy ===== *)
theory Overview
  imports Diagnostics
begin

text \<open>
  \<open>lib/api/overview.ts\<close>: the snapshot of one device the control page works from: its access,
  availability, telemetry freshness, diagnostics, assigned modules with their channels and
  commands, and the limits of the output frequency.

  \<open>controlBlockReason\<close> is the interlock of the page: \<open>None\<close> lets START and frequency changes
  through. \<open>unblocked\<close> says what that means; \<open>effectiveQuality\<close> ages the snapshot while it is
  shown. A snapshot that the validator accepts is coherent (\<open>wf_overview\<close>).
\<close>

datatype quality = Fresh | Stale | Missing | Invalid

fun quality_of :: "json \<Rightarrow> quality option" where
  "quality_of (JStr s) = map_of [(''fresh'', Fresh), (''stale'', Stale), (''missing'', Missing), (''invalid'', Invalid)] s"
| "quality_of _ = None"

record freshness =
  fr_status :: quality
  fr_reason :: string
  fr_received_at :: "string option"
  fr_reported_at :: "string option"
  fr_age :: "rat option"
  fr_stale_after :: int

text \<open>A channel with its reading. The unit is null or text; the value null, a number or a boolean.\<close>

record channel =
  ch_key :: string
  ch_source :: string
  ch_data_type :: string
  ch_unit :: json
  ch_supports_series :: bool
  ch_status :: quality
  ch_value :: json

record ov_module =
  md_assignment_id :: string
  md_code :: string
  md_name :: string
  md_supported :: bool
  md_channels :: "channel list"
  md_commands :: "string list"
  md_allowed :: "string list"

record overview =
  ov_equipment_target :: "equipment_target option"
  ov_equipment_state :: string
  ov_generated_at :: string
  ov_device :: device
  ov_availability :: availability
  ov_freshness :: freshness
  ov_diagnostics :: "diagnostics option"
  ov_modules :: "ov_module list"
  ov_allowed :: "string list"
  ov_limits :: "frequency_limits option"

definition ov_path :: string where
  "ov_path = ''/api/v1/devices/overview''"

definition freshness_reasons :: "string list" where
  "freshness_reasons = [''no_telemetry'', ''recent'', ''timeout'', ''session_changed'', ''future_timestamp'',
     ''delayed_report'']"

definition ov_record :: "json \<Rightarrow> json result" where
  "ov_record value = (if \<not> isRecord value then invalidResponse ov_path ''object'' else Inr value)"

definition ov_array :: "json \<Rightarrow> json list result" where
  "ov_array value = (if \<not> is_array value then invalidResponse ov_path ''array'' else Inr (elems value))"

definition ov_strings :: "json \<Rightarrow> string list result" where
  "ov_strings value =
     bindE (ov_array value) (\<lambda>xs.
       mapE (\<lambda>item. if is_string item \<and> str_of item \<noteq> [] then Inr (str_of item)
                    else invalidResponse ov_path ''string[]'') xs)"

definition ov_unique :: "string list \<Rightarrow> unit result" where
  "ov_unique values = reject (set_size values \<noteq> length values) ov_path ''unique keys''"

definition ov_date :: "json \<Rightarrow> string \<Rightarrow> string option result" where
  "ov_date value key =
     (if fld value key = JNull then Inr None
      else bindE (requiredDateTime value key ov_path) (\<lambda>s. Inr (Some s)))"

definition parseFreshness :: "json \<Rightarrow> freshness result" where
  "parseFreshness value =
     bindE (ov_record value) (\<lambda>data.
     (let status = fld data ''status''; reason = fld data ''reason''; age = fld data ''received_age_seconds'';
          threshold = fld data ''stale_after_seconds'' in
     seqE (reject (quality_of status \<notin> {Some Fresh, Some Stale, Some Missing}
             \<or> \<not> is_string reason \<or> str_of reason \<notin> set freshness_reasons) ov_path ''freshness status/reason'') (
     seqE (reject (age \<noteq> JNull \<and> (\<not> is_finite age \<or> rat_of age < 0)) ov_path ''received age'') (
     seqE (reject (\<not> is_safe_integer threshold \<or> int_of threshold \<le> 0) ov_path ''stale threshold'') (
     bindE (ov_date data ''received_at'') (\<lambda>received.
     bindE (ov_date data ''reported_at'') (\<lambda>reported.
     seqE (reject (if quality_of status = Some Missing
             then reason \<noteq> JStr ''no_telemetry'' \<or> received \<noteq> None \<or> age \<noteq> JNull
             else received = None \<or> age = JNull \<or> reason = JStr ''no_telemetry'') ov_path ''coherent freshness'') (
     seqE (reject ((quality_of status = Some Fresh) \<noteq> (reason = JStr ''recent'')) ov_path ''fresh reason'') (
     Inr \<lparr> fr_status = the (quality_of status), fr_reason = str_of reason, fr_received_at = received,
           fr_reported_at = reported, fr_age = (if age = JNull then None else Some (rat_of age)),
           fr_stale_after = int_of threshold \<rparr>)))))))))"

definition channelSupported :: "channel \<Rightarrow> bool" where
  "channelSupported c \<longleftrightarrow>
     (ch_source c = ''values'' \<and> ch_data_type c = ''number'')
     \<or> (ch_source c = ''state'' \<and> ch_data_type c \<in> set [''boolean'', ''integer''])"

text \<open>The value has the type the channel declares.\<close>

definition typed_value :: "string \<Rightarrow> json \<Rightarrow> bool" where
  "typed_value data_type v =
     (if data_type = ''boolean'' then is_bool v
      else is_finite v \<and> (data_type = ''integer'' \<longrightarrow> is_safe_integer v))"

definition parseReading :: "json \<Rightarrow> channel \<Rightarrow> (quality \<times> json) result" where
  "parseReading raw c =
     (if \<not> channelSupported c then Inr (Missing, JNull) else
      bindE (ov_record raw) (\<lambda>data.
      case quality_of (fld data ''status'') of
        None \<Rightarrow> invalidResponse ov_path ''reading status''
      | Some status \<Rightarrow>
          seqE (reject (ch_source c = ''values'' \<and> fld data ''unit'' \<noteq> ch_unit c) ov_path ''matching unit'') (
          if status = Missing \<or> status = Invalid
          then seqE (reject (fld data ''value'' \<noteq> JNull) ov_path ''missing/invalid must be null'') (
               Inr (status, JNull))
          else seqE (reject (\<not> typed_value (ch_data_type c) (fld data ''value'')) ov_path ''typed finite reading'') (
               Inr (status, fld data ''value'')))))"

record ov_capability =
  cap_id :: string
  cap_code :: string
  cap_name :: string

definition parseCapability :: "json \<Rightarrow> ov_capability result" where
  "parseCapability raw =
     bindE (ov_record raw) (\<lambda>cap.
     bindE (requiredUuid cap ''id'' ov_path) (\<lambda>id.
     bindE (requiredString cap ''code'' ov_path) (\<lambda>code.
     bindE (requiredString cap ''name'' ov_path) (\<lambda>name.
     Inr \<lparr> cap_id = id, cap_code = code, cap_name = name \<rparr>))))"

definition reading_key :: "string \<Rightarrow> string \<Rightarrow> string" where
  "reading_key source key = source @ '':'' @ key"

text \<open>The loop that fills the \<open>readings\<close> map, one list of one source.\<close>

fun addReadings :: "string \<Rightarrow> json list \<Rightarrow> (string \<times> json) list \<Rightarrow> (string \<times> json) list result" where
  "addReadings source [] readings = Inr readings"
| "addReadings source (raw # rest) readings =
     bindE (ov_record raw) (\<lambda>item.
     bindE (requiredString item ''key'' ov_path) (\<lambda>k.
     seqE (reject (reading_key source k \<in> set (map fst readings)) ov_path ''unique readings'') (
     addReadings source rest (readings @ [(reading_key source k, item)]))))"

definition lookup :: "(string \<times> json) list \<Rightarrow> string \<Rightarrow> json" where
  "lookup readings key = (case map_of readings key of None \<Rightarrow> JUndef | Some v \<Rightarrow> v)"

definition parseChannel :: "(string \<times> json) list \<Rightarrow> freshness \<Rightarrow> json \<Rightarrow> channel result" where
  "parseChannel readings freshness raw =
     bindE (ov_record raw) (\<lambda>ch.
     seqE (reject (fld ch ''unit'' \<noteq> JNull \<and> \<not> is_string (fld ch ''unit'')) ov_path ''channel unit'') (
     seqE (reject (\<not> is_bool (fld ch ''supports_series'')) ov_path ''supports_series flag'') (
     bindE (requiredString ch ''key'' ov_path) (\<lambda>key.
     bindE (requiredString ch ''source'' ov_path) (\<lambda>source.
     bindE (requiredString ch ''data_type'' ov_path) (\<lambda>data_type.
     (let c = \<lparr> ch_key = key, ch_source = source, ch_data_type = data_type, ch_unit = fld ch ''unit'',
                ch_supports_series = bool_of (fld ch ''supports_series''), ch_status = Missing, ch_value = JNull \<rparr> in
     bindE (parseReading (lookup readings (reading_key source key)) c) (\<lambda>(status, value).
     seqE (reject (status = Fresh \<and> fr_status freshness \<noteq> Fresh) ov_path ''coherent reading quality'') (
     Inr (c\<lparr>ch_status := status, ch_value := value\<rparr>))))))))))"

definition parseModule ::
  "string list \<Rightarrow> ov_capability list \<Rightarrow> (string \<times> json) list \<Rightarrow> freshness \<Rightarrow> json \<Rightarrow> ov_module result" where
  "parseModule permissions capabilities readings freshness raw =
     bindE (ov_record raw) (\<lambda>item.
     bindE (requiredUuid item ''capability_id'' ov_path) (\<lambda>cid.
     bindE (requiredString item ''code'' ov_path) (\<lambda>code.
     (case List.find (\<lambda>c. cap_id c = cid \<and> cap_code c = code) capabilities of
        None \<Rightarrow> invalidResponse ov_path ''assigned capability''
      | Some cap \<Rightarrow>
     seqE (reject (\<not> is_bool (fld item ''supported'')) ov_path ''assigned capability'') (
     bindE (bindE (ov_array (fld item ''channels'')) (mapE (parseChannel readings freshness))) (\<lambda>channels.
     bindE (ov_strings (fld item ''command_types'')) (\<lambda>commands.
     bindE (ov_strings (fld item ''allowed_commands'')) (\<lambda>allowed.
     seqE (ov_unique commands) (
     seqE (ov_unique allowed) (
     seqE (reject (list_ex (\<lambda>command. command \<notin> set commands) allowed
                   \<or> (''command.execute'' \<notin> set permissions \<and> allowed \<noteq> [])) ov_path ''allowed commands'') (
     seqE (reject (\<not> bool_of (fld item ''supported'') \<and> (channels \<noteq> [] \<or> commands \<noteq> [])) ov_path
             ''unsupported module'') (
     bindE (requiredUuid item ''assignment_id'' ov_path) (\<lambda>aid.
     Inr \<lparr> md_assignment_id = aid, md_code = code, md_name = cap_name cap,
           md_supported = bool_of (fld item ''supported''), md_channels = channels,
           md_commands = commands, md_allowed = allowed \<rparr>)))))))))))))"

definition channel_key :: "channel \<Rightarrow> string" where
  "channel_key c = reading_key (ch_source c) (ch_key c)"

definition ov_channel_keys :: "ov_module list \<Rightarrow> string list" where
  "ov_channel_keys modules = concat (map (\<lambda>m. map channel_key (md_channels m)) modules)"

definition parseLimits :: "json \<Rightarrow> frequency_limits option result" where
  "parseLimits value =
     (if is_nullish value then Inr None else
      bindE (ov_record value) (\<lambda>limits.
      seqE (reject (\<not> limits_ok limits) ov_path ''frequency limits'') (
      Inr (Some \<lparr> min_hz = rat_of (fld limits ''min_hz''), max_hz = rat_of (fld limits ''max_hz'') \<rparr>))))"

definition overview_permissions :: "string list" where
  "overview_permissions = [''device.read'', ''capability.read'', ''telemetry.read'']"

definition parseOverview :: "json \<Rightarrow> device \<Rightarrow> string \<Rightarrow> overview result" where
  "parseOverview value expected organizationId =
     bindE (ov_record value) (\<lambda>data.
     bindE (parseDevice (fld data ''device'') (Some (dev_site_id expected)) (Some (dev_id expected))) (\<lambda>dev.
     seqE (matchingId (dev_uid dev) (dev_uid expected) ov_path) (
     bindE (parseOrganizationAccessResponse (fld data ''access'') organizationId) (\<lambda>access.
     (let permissions = acc_permissions access in
     seqE (reject (\<not> list_all (\<lambda>p. p \<in> set permissions) overview_permissions) ov_path
             ''overview read permissions'') (
     bindE (parseFreshness (fld data ''telemetry_freshness'')) (\<lambda>freshness.
     bindE (bindE (ov_array (fld data ''capabilities'')) (mapE parseCapability)) (\<lambda>capabilities.
     seqE (ov_unique (map cap_id capabilities)) (
     seqE (ov_unique (map cap_code capabilities)) (
     bindE (bindE (ov_array (fld data ''readings'')) (\<lambda>xs. addReadings ''values'' xs [])) (\<lambda>values.
     bindE (bindE (ov_array (fld data ''state_readings'')) (\<lambda>xs. addReadings ''state'' xs values)) (\<lambda>readings.
     bindE (bindE (ov_array (fld data ''modules''))
              (mapE (parseModule permissions capabilities readings freshness))) (\<lambda>modules.
     seqE (ov_unique (map md_assignment_id modules)) (
     seqE (ov_unique (map md_code modules)) (
     seqE (ov_unique (ov_channel_keys modules)) (
     seqE (reject (length modules \<noteq> length capabilities
             \<or> list_ex (\<lambda>k. k \<notin> set (ov_channel_keys modules)) (map fst readings)) ov_path
             ''assigned channels only'') (
     bindE (ov_strings (fld data ''allowed_commands'')) (\<lambda>allowed.
     bindE (ov_strings (fld data ''command_types'')) (\<lambda>types.
     seqE (ov_unique allowed) (
     seqE (ov_unique types) (
     (let moduleCommands = concat (map md_commands modules); moduleAllowed = concat (map md_allowed modules) in
     seqE (reject (length types \<noteq> length moduleCommands \<or> list_ex (\<lambda>x. x \<notin> set moduleCommands) types
             \<or> length allowed \<noteq> length moduleAllowed \<or> list_ex (\<lambda>x. x \<notin> set moduleAllowed) allowed) ov_path
             ''consistent command permissions'') (
     bindE (parseLimits (fld data ''frequency_limits'')) (\<lambda>limits.
     bindE (parseDiagnostics (fld data ''diagnostics'')) (\<lambda>diagnostics.
     seqE (reject (diagnostics \<noteq> None \<and> fr_status freshness = Missing) ov_path
             ''diagnostics without telemetry'') (
     bindE (parseEquipmentTarget (fld data ''equipment_target'')) (\<lambda>target.
     bindE (equipmentState (nullish_or (fld data ''equipment_state'') (JStr ''legacy''))) (\<lambda>state.
     bindE (requiredDateTime data ''generated_at'' ov_path) (\<lambda>generated.
     bindE (parseAvailability (fld data ''availability'') (dev_id dev) (dev_uid dev)) (\<lambda>availability.
     Inr \<lparr> ov_equipment_target = target, ov_equipment_state = state, ov_generated_at = generated,
           ov_device = dev, ov_availability = availability, ov_freshness = freshness,
           ov_diagnostics = diagnostics, ov_modules = modules, ov_allowed = allowed,
           ov_limits = limits \<rparr>))))))))))))))))))))))))))))))"

section \<open>The control interlock\<close>

text \<open>The first summand of the age is infinite when the server gave none. A time that cannot be
  parsed makes the sum \<open>NaN\<close>, and the comparison false.\<close>

definition data_expired :: "freshness \<Rightarrow> rat \<Rightarrow> bool" where
  "data_expired f elapsed =
     (let over = (\<lambda>lag. case fr_age f of
            None \<Rightarrow> True
          | Some age \<Rightarrow> of_int (fr_stale_after f) < age + lag + max 0 elapsed)
      in case (fr_reported_at f, fr_received_at f) of
           (Some reported, Some received) \<Rightarrow>
             if reported = [] \<or> received = [] then over 0
             else (case (date_parse received, date_parse reported) of
                (Some a, Some b) \<Rightarrow> over (max 0 (of_int (a - b) / 1000))
              | _ \<Rightarrow> False)
         | _ \<Rightarrow> over 0)"

definition effectiveQuality :: "quality \<Rightarrow> freshness \<Rightarrow> rat \<Rightarrow> quality" where
  "effectiveQuality status f elapsed =
     (if status \<noteq> Fresh then status
      else if fr_status f \<noteq> Fresh \<or> data_expired f elapsed then Stale else Fresh)"

definition interlocks :: "(string \<times> string) list" where
  "interlocks =
     [(''vfd_link'', uk ''Nema# zv|@zku kontrolera z ^astotnykom.''),
      (''vfd_configuration_valid'', uk ''Nalawtuvann@ ^astotnyka ne vidpovida$t= profil$ keruvann@.''),
      (''control_armed'',
       uk ''Kontroler qe ne dozvolyv keruvann@. Perevirte zv|@zok i nalawtuvann@ re*ymu keruvann@.'')]"

definition msg_local_control :: string where
  "msg_local_control =
     uk ''>astotnyk keru#t=s@ miscevo abo ma# inwe d*erelo ^astoty. Dl@ zapusku iz sajtu uvimknit= dystancijne keruvann@.''"

definition msg_await_diagnostics :: string where
  "msg_await_diagnostics = uk ''O^iku#mo svi*u diahnostyku kontrolera dl@ zapusku ta zminy ^astoty.''"

fun interlockReason :: "overview \<Rightarrow> rat \<Rightarrow> ov_module \<Rightarrow> (string \<times> string) list \<Rightarrow> string option" where
  "interlockReason ov elapsed m [] = None"
| "interlockReason ov elapsed m ((key, message) # rest) =
     (case List.find (\<lambda>c. ch_key c = key \<and> ch_source c = ''state'') (md_channels m) of
        None \<Rightarrow> Some msg_await_diagnostics
      | Some c \<Rightarrow>
          if effectiveQuality (ch_status c) (ov_freshness ov) elapsed \<noteq> Fresh then Some msg_await_diagnostics
          else if ch_value c \<noteq> JBool True then Some message
          else interlockReason ov elapsed m rest)"

text \<open>\<open>overview.diagnostics?.vfd_settings\<close>\<close>

definition vfd_source :: "overview \<Rightarrow> json option" where
  "vfd_source ov =
     (case ov_diagnostics ov of None \<Rightarrow> None | Some d \<Rightarrow> (case dg_vfd_settings d of None \<Rightarrow> None | Some v \<Rightarrow> v))"

definition data_fresh :: "overview \<Rightarrow> rat \<Rightarrow> bool" where
  "data_fresh ov elapsed = (effectiveQuality (fr_status (ov_freshness ov)) (ov_freshness ov) elapsed = Fresh)"

definition controlBlockReason :: "overview \<Rightarrow> rat \<Rightarrow> string option" where
  "controlBlockReason ov elapsed =
     (if (case vfd_source ov of None \<Rightarrow> False | Some s \<Rightarrow> data_fresh ov elapsed \<and> \<not> remote_source s)
      then Some msg_local_control
      else if ov_equipment_state ov \<noteq> [] \<and> ov_equipment_state ov \<notin> set [''legacy'', ''verified'']
      then map_of equipmentStateLabels (ov_equipment_state ov)
      else (case List.find (\<lambda>m. md_code m = ''vfd.diagnostics.read'') (ov_modules ov) of
              None \<Rightarrow> None
            | Some m \<Rightarrow> interlockReason ov elapsed m interlocks))"

section \<open>Texts\<close>

definition qualityLabels :: "quality \<Rightarrow> string" where
  "qualityLabels q =
     (case q of Fresh \<Rightarrow> uk ''Svi*i dani'' | Stale \<Rightarrow> uk ''Zastarili dani'' | Missing \<Rightarrow> uk ''Nema# danyx''
      | Invalid \<Rightarrow> uk ''Nekorektni dani'')"

definition reasonLabels :: "(string \<times> string) list" where
  "reasonLabels =
     [(''no_telemetry'', uk ''Telemetri@ qe ne nadxodyla''), (''recent'', uk ''Telemetri@ otrymana neqodavno''),
      (''timeout'', uk ''Perevyqeno ^as aktual=nosti''),
      (''session_changed'', uk ''O^iku#mo dani pisl@ perezapusku kontrolera''),
      (''future_timestamp'', uk ''>as kontrolera abo povidomlenn@ potrebu# perevirky''),
      (''delayed_report'', uk ''Povidomlenn@ nadijwlo iz zatrymko$'')]"

definition channel_labels :: "(string \<times> string) list" where
  "channel_labels =
     [(''vfd.frequency_hz'', uk ''Vyxidna ^astota''), (''vfd.set_frequency_hz'', uk ''Zadana ^astota''),
      (''vfd.current_a'', uk ''Strum''), (''vfd.voltage_v'', uk ''Vyxidna napruha''), (''pressure.bar'', uk ''Tysk''),
      (''water_level.percent'', uk ''Riven= vody''), (''pump_running'', uk ''Stan roboty ^astotnyka''),
      (''vfd_fault_code'', uk ''Kod pomylky ^astotnyka''), (''local_mode'', uk ''Ru^nyj re*ym''),
      (''emergency_stop'', uk ''Avarijna zupynka''), (''vfd_link'', uk ''Zv|@zok iz ^astotnykom''),
      (''vfd_configuration_valid'', uk ''Nalawtuvann@ profil$ perevireno''),
      (''control_armed'', uk ''Dozvil keruvann@'')]"

definition channelLabel :: "string \<Rightarrow> string" where
  "channelLabel key = (case map_of channel_labels key of None \<Rightarrow> key | Some l \<Rightarrow> l)"

text \<open>\<open>fmt\<close> is the number format of the runtime.\<close>

definition readingText :: "(jsnum \<Rightarrow> string) \<Rightarrow> channel \<Rightarrow> string" where
  "readingText fmt c =
     (if ch_status c = Missing \<or> ch_status c = Invalid then ''-''
      else case ch_value c of
             JBool b \<Rightarrow> if b then uk ''Tak'' else uk ''Ni''
           | JNum n \<Rightarrow> fmt n
           | _ \<Rightarrow> ''-'')"

section \<open>Ageing\<close>

definition wf_freshness :: "freshness \<Rightarrow> bool" where
  "wf_freshness f \<longleftrightarrow>
     fr_status f \<in> {Fresh, Stale, Missing} \<and> 0 < fr_stale_after f
     \<and> (\<forall>t. fr_received_at f = Some t \<longrightarrow> date_parse t \<noteq> None)
     \<and> (\<forall>t. fr_reported_at f = Some t \<longrightarrow> date_parse t \<noteq> None)
     \<and> (\<forall>a. fr_age f = Some a \<longrightarrow> 0 \<le> a)
     \<and> (if fr_status f = Missing then fr_received_at f = None \<and> fr_age f = None
        else fr_received_at f \<noteq> None \<and> fr_age f \<noteq> None)
     \<and> (fr_status f = Fresh \<longleftrightarrow> fr_reason f = ''recent'')"

lemma data_expired_mono: "data_expired f e \<Longrightarrow> e \<le> e' \<Longrightarrow> data_expired f e'"
  by (auto simp: data_expired_def Let_def split: option.splits if_splits)

lemma data_expired_late:
  assumes "wf_freshness f" and "of_int (fr_stale_after f) < e"
  shows "data_expired f e"
proof -
  have over: "of_int (fr_stale_after f) < a + l + max 0 e" if "0 \<le> a" "0 \<le> l" for a l :: rat
    using that assms(2) by linarith
  have over0: "of_int (fr_stale_after f) < a + max 0 e" if "0 \<le> a" for a :: rat
    using that assms(2) by linarith
  have "0 \<le> a" if "fr_age f = Some a" for a
    using assms(1) that by (simp add: wf_freshness_def)
  with over over0 assms(1) show ?thesis
    by (auto simp: data_expired_def wf_freshness_def split: option.splits)
qed

lemma effectiveQuality_fresh:
  "effectiveQuality q f e = Fresh \<longleftrightarrow> q = Fresh \<and> fr_status f = Fresh \<and> \<not> data_expired f e"
  by (simp add: effectiveQuality_def)

lemma effectiveQuality_mono:
  "effectiveQuality q f e \<noteq> Fresh \<Longrightarrow> e \<le> e' \<Longrightarrow> effectiveQuality q f e' \<noteq> Fresh"
  using data_expired_mono by (auto simp: effectiveQuality_fresh)

section \<open>What the interlock lets through\<close>

definition interlock_holds :: "overview \<Rightarrow> rat \<Rightarrow> ov_module \<Rightarrow> string \<Rightarrow> bool" where
  "interlock_holds ov e m key \<longleftrightarrow>
     (\<exists>c. List.find (\<lambda>c. ch_key c = key \<and> ch_source c = ''state'') (md_channels m) = Some c
        \<and> effectiveQuality (ch_status c) (ov_freshness ov) e = Fresh \<and> ch_value c = JBool True)"

definition diagnostics_module :: "overview \<Rightarrow> ov_module option" where
  "diagnostics_module ov = List.find (\<lambda>m. md_code m = ''vfd.diagnostics.read'') (ov_modules ov)"

definition unblocked :: "overview \<Rightarrow> rat \<Rightarrow> bool" where
  "unblocked ov e \<longleftrightarrow>
     (\<forall>s. vfd_source ov = Some s \<and> data_fresh ov e \<longrightarrow> remote_source s)
     \<and> ov_equipment_state ov \<in> {''legacy'', ''verified''}
     \<and> (\<forall>m. diagnostics_module ov = Some m \<longrightarrow>
          (\<forall>key \<in> {''vfd_link'', ''vfd_configuration_valid'', ''control_armed''}. interlock_holds ov e m key))"

lemma interlockReason_None:
  "interlockReason ov e m ks = None \<longleftrightarrow> (\<forall>k \<in> set (map fst ks). interlock_holds ov e m k)"
proof (induction ks)
  case (Cons k ks)
  have "interlockReason ov e m (k # ks) = None \<longleftrightarrow>
      interlock_holds ov e m (fst k) \<and> interlockReason ov e m ks = None"
    by (cases k) (auto simp: interlock_holds_def split: option.splits if_splits)
  with Cons show ?case by simp
qed simp

lemma label_of_state:
  "s \<in> set (map fst equipmentStateLabels) \<Longrightarrow> s \<noteq> [] \<and> map_of equipmentStateLabels s \<noteq> None"
  by (auto simp: equipmentStateLabels_def)

lemma controlBlockReason_iff:
  assumes "ov_equipment_state ov \<in> set (map fst equipmentStateLabels)"
  shows "controlBlockReason ov e = None \<longleftrightarrow> unblocked ov e"
proof -
  have keys: "set (map fst interlocks) = {''vfd_link'', ''vfd_configuration_valid'', ''control_armed''}"
    by (simp add: interlocks_def)
  show ?thesis
  proof (cases "ov_equipment_state ov \<in> {''legacy'', ''verified''}")
    case True
    then have "ov_equipment_state ov \<in> set [''legacy'', ''verified'']" by simp
    with True show ?thesis
      unfolding controlBlockReason_def unblocked_def diagnostics_module_def
      by (simp only: keys [symmetric] split: option.splits)
        (auto simp: interlockReason_None simp del: set_map)
  next
    case False
    with label_of_state [OF assms] show ?thesis
      by (auto simp: controlBlockReason_def unblocked_def split: option.splits)
  qed
qed

lemma interlock_expires:
  assumes "interlock_holds ov e m key"
  shows "\<not> data_expired (ov_freshness ov) e"
  using assms by (auto simp: interlock_holds_def effectiveQuality_fresh)

section \<open>What an accepted snapshot says\<close>

definition wf_channel :: "freshness \<Rightarrow> channel \<Rightarrow> bool" where
  "wf_channel f c \<longleftrightarrow>
     (ch_status c = Fresh \<longrightarrow> fr_status f = Fresh)
     \<and> (ch_status c \<in> {Missing, Invalid} \<longrightarrow> ch_value c = JNull)
     \<and> (ch_status c \<in> {Fresh, Stale} \<longrightarrow> channelSupported c \<and> typed_value (ch_data_type c) (ch_value c))"

definition wf_module :: "freshness \<Rightarrow> ov_module \<Rightarrow> bool" where
  "wf_module f m \<longleftrightarrow>
     set (md_allowed m) \<subseteq> set (md_commands m) \<and> distinct (md_commands m) \<and> distinct (md_allowed m)
     \<and> (md_supported m \<or> (md_channels m = [] \<and> md_commands m = []))
     \<and> (\<forall>c \<in> set (md_channels m). wf_channel f c)"

definition wf_limits :: "frequency_limits \<Rightarrow> bool" where
  "wf_limits l \<longleftrightarrow> 0 \<le> min_hz l \<and> min_hz l < max_hz l \<and> max_hz l \<le> 100"

definition wf_overview :: "device \<Rightarrow> overview \<Rightarrow> bool" where
  "wf_overview expected ov \<longleftrightarrow>
     dev_uid (ov_device ov) = dev_uid expected
     \<and> (dev_id expected \<noteq> [] \<longrightarrow> dev_id (ov_device ov) = dev_id expected)
     \<and> (dev_site_id expected \<noteq> [] \<longrightarrow> dev_site_id (ov_device ov) = dev_site_id expected)
     \<and> av_device_id (ov_availability ov) = dev_id (ov_device ov)
     \<and> wf_freshness (ov_freshness ov)
     \<and> (\<forall>m \<in> set (ov_modules ov). wf_module (ov_freshness ov) m)
     \<and> distinct (map md_code (ov_modules ov)) \<and> distinct (ov_channel_keys (ov_modules ov))
     \<and> set (ov_allowed ov) = set (concat (map md_allowed (ov_modules ov)))
     \<and> distinct (concat (map md_allowed (ov_modules ov)))
     \<and> ov_equipment_state ov \<in> set (map fst equipmentStateLabels)
     \<and> (\<forall>l. ov_limits ov = Some l \<longrightarrow> wf_limits l)
     \<and> (\<forall>d. ov_diagnostics ov = Some d \<longrightarrow> wf_diagnostics d \<and> fr_status (ov_freshness ov) \<noteq> Missing)"

lemma ov_record_ok [ok_iff]: "ov_record v = Inr d \<longleftrightarrow> isRecord v \<and> d = v"
  by (auto simp: ov_record_def)

lemma ov_unique_ok [ok_iff]: "ov_unique xs = Inr u \<longleftrightarrow> distinct xs"
  by (simp add: ov_unique_def ok_iff)

lemma ov_array_ok [ok_iff]: "ov_array v = Inr xs \<longleftrightarrow> is_array v \<and> xs = elems v"
  by (auto simp: ov_array_def)

lemma ov_date_ok [ok_iff]:
  "ov_date v k = Inr x \<longleftrightarrow>
     (fld v k = JNull \<and> x = None) \<or> (\<exists>s. fld v k = JStr s \<and> date_parse s \<noteq> None \<and> x = Some s)"
  by (auto simp: ov_date_def ok_iff)

lemma ov_date_parses: "ov_date v k = Inr (Some t) \<Longrightarrow> date_parse t \<noteq> None"
  by (auto simp: ov_date_ok)

lemma parseFreshness_wf:
  assumes "parseFreshness v = Inr f"
  shows "wf_freshness f"
  using assms
  unfolding parseFreshness_def Let_def bindE_ok seqE_ok reject_ok ov_record_ok sum.inject
  apply (elim exE conjE)
  subgoal premises prems
    unfolding wf_freshness_def prems(10) [symmetric]
    using prems(3-9) unfolding prems(2)
    by (auto simp: str_of_eq split: if_splits dest: ov_date_parses)
  done


lemma parseReading_wf:
  assumes "parseReading raw c = Inr (q, v)"
  shows "(q \<in> {Missing, Invalid} \<longrightarrow> v = JNull)
    \<and> (q \<in> {Fresh, Stale} \<longrightarrow> channelSupported c \<and> typed_value (ch_data_type c) v)"
  using assms unfolding parseReading_def
  by (cases "channelSupported c"; cases q)
    (auto simp: bindE_ok seqE_ok ov_record_ok reject_ok split: option.splits if_splits)

lemma parseChannel_wf:
  assumes "parseChannel readings f raw = Inr c"
  shows "wf_channel f c"
  using assms unfolding parseChannel_def Let_def bindE_ok seqE_ok reject_ok ov_record_ok sum.inject
  apply (elim exE conjE)
  subgoal premises prems for rec key source data_type x
  proof (cases x)
    case (Pair q v)
    note r = parseReading_wf [OF prems(8) [unfolded Pair]]
    from prems(9) have c: "q = Fresh \<longrightarrow> fr_status f = Fresh" and
      "c = \<lparr>ch_key = key, ch_source = source, ch_data_type = data_type, ch_unit = fld rec ''unit'',
         ch_supports_series = bool_of (fld rec ''supports_series''), ch_status = q, ch_value = v\<rparr>"
      by (simp_all add: Pair seqE_ok reject_ok)
    with r show ?thesis by (cases q) (simp_all add: wf_channel_def channelSupported_def)
  qed
  done

lemma ov_strings_map: "ov_strings v = Inr xs \<Longrightarrow> elems v = map JStr xs"
proof -
  assume "ov_strings v = Inr xs"
  then have m: "mapE (\<lambda>item. if is_string item \<and> str_of item \<noteq> [] then Inr (str_of item)
      else invalidResponse ov_path ''string[]'') (elems v) = Inr xs"
    by (auto simp: ov_strings_def bindE_ok ov_array_ok)
  have "map (\<lambda>x. x) (elems v) = map JStr xs"
    using mapE_id [OF m, of JStr "\<lambda>x. x"] by (metis str_of_eq invalidResponse_not_ok sum.inject(2))
  then show ?thesis by simp
qed

lemma parseModule_wf:
  assumes "parseModule perms caps readings f raw = Inr m"
  shows "wf_module f m \<and> (''command.execute'' \<notin> set perms \<longrightarrow> md_allowed m = [])"
  using assms unfolding parseModule_def bindE_ok ov_record_ok
  apply (elim exE conjE)
  subgoal premises prems for _ cid code
  proof (cases "List.find (\<lambda>c. cap_id c = cid \<and> cap_code c = code) caps")
    case None
    with prems show ?thesis by simp
  next
    case (Some cap)
    show ?thesis
      using prems(5) unfolding Some option.case bindE_ok seqE_ok reject_ok ov_unique_ok sum.inject
      apply (elim exE conjE)
      subgoal premises q for channels _ commands allowed aid
      proof -
        have "wf_channel f c" if "c \<in> set channels" for c
          using mapE_set_ok [OF q(3) that] parseChannel_wf by blast
        with q show ?thesis
          by (auto simp: wf_module_def list_ex_iff)
      qed
      done
  qed
  done

lemma parseLimits_wf: "parseLimits v = Inr (Some l) \<Longrightarrow> wf_limits l"
  unfolding parseLimits_def if_None_ok
  by (auto simp: bindE_ok seqE_ok ov_record_ok reject_ok limits_ok_def Let_def wf_limits_def)

lemma distinct_cover:
  assumes "distinct xs" "length xs = length ys" "set xs \<subseteq> set ys"
  shows "set xs = set ys \<and> distinct ys"
proof -
  have "card (set xs) = length ys" using assms by (simp add: distinct_card)
  moreover have "card (set ys) \<le> length ys" by (rule card_length)
  moreover have "card (set xs) \<le> card (set ys)" using assms(3) by (simp add: card_mono)
  ultimately show ?thesis
    using assms(3) by (metis List.finite_set card_distinct card_seteq le_antisym order_refl)
qed

definition device_matches :: "device \<Rightarrow> device \<Rightarrow> bool" where
  "device_matches expected d \<longleftrightarrow>
     dev_uid d = dev_uid expected
     \<and> (dev_id expected \<noteq> [] \<longrightarrow> dev_id d = dev_id expected)
     \<and> (dev_site_id expected \<noteq> [] \<longrightarrow> dev_site_id d = dev_site_id expected)"

lemma device_matches_parsed:
  "parseDevice d (Some (dev_site_id expected)) (Some (dev_id expected)) = Inr x \<Longrightarrow>
   dev_uid x = dev_uid expected \<Longrightarrow> device_matches expected x"
  using parseDevice_in by (fastforce simp: device_matches_def device_in_def)

lemma state_parsed:
  "equipmentState w = Inr s \<Longrightarrow> s \<in> set (map fst equipmentStateLabels)"
  by (simp only: equipmentState_ok)

lemma availability_device: "parseAvailability w did uid = Inr a \<Longrightarrow> av_device_id a = did"
  using parseAvailability_sound by blast

text \<open>The parts of the consistency check the proof below uses.\<close>

lemma allowed_length:
  "\<not> (a \<or> b \<or> length xs \<noteq> length ys \<or> list_ex (\<lambda>x. x \<notin> set ys) xs) \<Longrightarrow> length xs = length ys"
  by simp

lemma allowed_subset:
  "\<not> (a \<or> b \<or> c \<or> list_ex (\<lambda>x. x \<notin> set ys) xs) \<Longrightarrow> set xs \<subseteq> set ys"
  by (auto simp: list_ex_iff)

lemma read_permissions: "\<not> \<not> list_all (\<lambda>p. p \<in> set ps) xs \<Longrightarrow> set xs \<subseteq> set ps"
  by (auto simp: list_all_iff)

lemma parseOverview_parts:
  assumes "parseOverview v expected org = Inr ov"
  obtains access caps readings where
    "isRecord v"
    "device_matches expected (ov_device ov)"
    "parseOrganizationAccessResponse (fld v ''access'') org = Inr access"
    "set overview_permissions \<subseteq> set (acc_permissions access)"
    "parseFreshness (fld v ''telemetry_freshness'') = Inr (ov_freshness ov)"
    "mapE (parseModule (acc_permissions access) caps readings (ov_freshness ov)) (elems (fld v ''modules''))
       = Inr (ov_modules ov)"
    "distinct (map md_code (ov_modules ov))" "distinct (ov_channel_keys (ov_modules ov))"
    "ov_strings (fld v ''allowed_commands'') = Inr (ov_allowed ov)"
    "distinct (ov_allowed ov)"
    "length (ov_allowed ov) = length (concat (map md_allowed (ov_modules ov)))"
    "set (ov_allowed ov) \<subseteq> set (concat (map md_allowed (ov_modules ov)))"
    "parseLimits (fld v ''frequency_limits'') = Inr (ov_limits ov)"
    "parseDiagnostics (fld v ''diagnostics'') = Inr (ov_diagnostics ov)"
    "ov_diagnostics ov \<noteq> None \<Longrightarrow> fr_status (ov_freshness ov) \<noteq> Missing"
    "ov_equipment_state ov \<in> set (map fst equipmentStateLabels)"
    "av_device_id (ov_availability ov) = dev_id (ov_device ov)"
  using assms unfolding parseOverview_def Let_def bindE_ok seqE_ok reject_ok ov_record_ok ov_unique_ok
    matchingId_ok ov_array_ok sum.inject
  apply (elim exE conjE)
  apply hypsubst
  subgoal premises prems
    using prems(2-) apply -
    apply (rule prems(1), unfold overview.select_convs)
    apply (assumption | rule device_matches_parsed | erule state_parsed | erule availability_device
        | erule allowed_length | erule allowed_subset | erule read_permissions | simp)+
    done
  done

lemma parseOverview_wf:
  assumes "parseOverview v expected org = Inr ov"
  shows "wf_overview expected ov"
proof (rule parseOverview_parts [OF assms])
  fix access caps readings
  assume d: "device_matches expected (ov_device ov)"
    and f: "parseFreshness (fld v ''telemetry_freshness'') = Inr (ov_freshness ov)"
    and m: "mapE (parseModule (acc_permissions access) caps readings (ov_freshness ov)) (elems (fld v ''modules''))
       = Inr (ov_modules ov)"
    and k: "distinct (map md_code (ov_modules ov))" "distinct (ov_channel_keys (ov_modules ov))"
    and al: "distinct (ov_allowed ov)" "length (ov_allowed ov) = length (concat (map md_allowed (ov_modules ov)))"
    "set (ov_allowed ov) \<subseteq> set (concat (map md_allowed (ov_modules ov)))"
    and l: "parseLimits (fld v ''frequency_limits'') = Inr (ov_limits ov)"
    and g: "parseDiagnostics (fld v ''diagnostics'') = Inr (ov_diagnostics ov)"
      "ov_diagnostics ov \<noteq> None \<Longrightarrow> fr_status (ov_freshness ov) \<noteq> Missing"
    and st: "ov_equipment_state ov \<in> set (map fst equipmentStateLabels)"
    and av: "av_device_id (ov_availability ov) = dev_id (ov_device ov)"
  have "wf_module (ov_freshness ov) x" if "x \<in> set (ov_modules ov)" for x
    using mapE_set_ok [OF m that] parseModule_wf by blast
  moreover have "wf_limits x" if "ov_limits ov = Some x" for x
    using l that parseLimits_wf by simp
  moreover have "wf_diagnostics x \<and> fr_status (ov_freshness ov) \<noteq> Missing" if "ov_diagnostics ov = Some x" for x
    using g that parseDiagnostics_wf by simp
  ultimately show ?thesis
    using d st av k parseFreshness_wf [OF f] distinct_cover [OF al]
    unfolding wf_overview_def device_matches_def by blast
qed

text \<open>Without the permission to execute commands the snapshot allows none.\<close>

lemma parseOverview_no_execute:
  assumes "parseOverview v expected org = Inr ov"
    and "JStr ''command.execute'' \<notin> set (elems (fld (fld v ''access'') ''permissions''))"
  shows "ov_allowed ov = []"
proof (rule parseOverview_parts [OF assms(1)])
  fix access caps readings
  assume a: "parseOrganizationAccessResponse (fld v ''access'') org = Inr access"
    and m: "mapE (parseModule (acc_permissions access) caps readings (ov_freshness ov)) (elems (fld v ''modules''))
       = Inr (ov_modules ov)"
    and s: "set (ov_allowed ov) \<subseteq> set (concat (map md_allowed (ov_modules ov)))"
  have "''command.execute'' \<notin> set (acc_permissions access)"
    using parse_access_permissions [OF a] assms(2) by blast
  then have "md_allowed x = []" if "x \<in> set (ov_modules ov)" for x
    using mapE_set_ok [OF m that] parseModule_wf by blast
  with s show ?thesis by auto
qed


section \<open>Properties\<close>

text \<open>A snapshot that passes: one module with the three interlock channels.\<close>

definition sample_id :: "char \<Rightarrow> string" where
  "sample_id d = replicate 8 d @ ''-0000-4000-8000-000000000000''"

definition sample_date :: json where
  "sample_date = JStr ''2026-07-01T10:00:00Z''"

definition sample_device :: device where
  "sample_device = \<lparr> dev_id = sample_id (CHR ''1''), dev_site_id = sample_id (CHR ''2''), dev_name = ''P'',
     dev_uid = ''u1'', dev_type = ''pump'', dev_lifecycle_status = ''active'', dev_last_seen_at = None,
     dev_created_at = ''2026-07-01T10:00:00Z'', dev_updated_at = ''2026-07-01T10:00:00Z'' \<rparr>"

definition sample_access :: "string list \<Rightarrow> json" where
  "sample_access extra = JObj [(''organization_id'', JStr (sample_id (CHR ''3''))), (''platform_role'', JStr ''user''),
     (''organization_role'', JStr ''operator''),
     (''permissions'', JArr (map JStr (overview_permissions @ extra)))]"

definition sample_channel :: "string \<Rightarrow> json" where
  "sample_channel key = JObj [(''key'', JStr key), (''source'', JStr ''state''), (''data_type'', JStr ''boolean''),
     (''unit'', JNull), (''supports_series'', JBool False)]"

definition sample_reading :: "string \<Rightarrow> json" where
  "sample_reading key = JObj [(''key'', JStr key), (''status'', JStr ''fresh''), (''value'', JBool True)]"

definition sample_overview :: "bool \<Rightarrow> string list \<Rightarrow> json" where
  "sample_overview full extra = (let keys = (if full then map fst interlocks else []); commands = (if full then [''START''] else []) in JObj
     [(''device'', JObj [(''id'', JStr (dev_id sample_device)), (''site_id'', JStr (dev_site_id sample_device)),
        (''name'', JStr ''P''), (''uid'', JStr ''u1''), (''device_type'', JStr ''pump''),
        (''lifecycle_status'', JStr ''active''), (''last_seen_at'', JNull), (''created_at'', sample_date),
        (''updated_at'', sample_date)]),
      (''access'', sample_access extra),
      (''telemetry_freshness'', JObj [(''status'', JStr ''fresh''), (''reason'', JStr ''recent''),
        (''received_age_seconds'', JNum (Fin 2)), (''stale_after_seconds'', JNum (Fin 30)),
        (''received_at'', sample_date), (''reported_at'', JNull)]),
      (''capabilities'', JArr (if \<not> full then [] else [JObj [(''id'', JStr (sample_id (CHR ''4''))),
        (''code'', JStr ''vfd.diagnostics.read''), (''name'', JStr ''D'')]])),
      (''readings'', JArr []), (''state_readings'', JArr (map sample_reading keys)),
      (''modules'', JArr (if \<not> full then [] else [JObj [(''capability_id'', JStr (sample_id (CHR ''4''))),
        (''code'', JStr ''vfd.diagnostics.read''), (''supported'', JBool True),
        (''channels'', JArr (map sample_channel keys)), (''command_types'', JArr (map JStr commands)),
        (''allowed_commands'', JArr (map JStr commands)), (''assignment_id'', JStr (sample_id (CHR ''5'')))]])),
      (''allowed_commands'', JArr (map JStr commands)), (''command_types'', JArr (map JStr commands)),
      (''frequency_limits'', JObj [(''min_hz'', JNum (Fin 5)), (''max_hz'', JNum (Fin 50))]),
      (''diagnostics'', JNull), (''equipment_target'', JNull), (''equipment_state'', JStr ''verified''),
      (''generated_at'', sample_date),
      (''availability'', JObj [(''online'', JBool True), (''device_id'', JStr (dev_id sample_device)),
        (''uid'', JStr ''u1''), (''timeout_seconds'', JNum (Fin 60)), (''seconds_since_seen'', JNull),
        (''last_seen_at'', sample_date)])])"

definition sample_parsed :: "bool \<Rightarrow> string list \<Rightarrow> overview result" where
  "sample_parsed full extra = parseOverview (sample_overview full extra) sample_device (sample_id (CHR ''3''))"

text \<open>C5: An accepted overview snapshot is coherent: it is about the expected device, no reading is
  fresher than the telemetry it came in, the commands allowed on the device are exactly those allowed
  by its modules with no command in two modules, channel keys are unique, the frequency limits satisfy
  0 <= min < max <= 100, and diagnostics never appear without telemetry.\<close>

theorem overview_accepted_coherent:
  "parseOverview v expected org = Inr ov \<Longrightarrow> wf_overview expected ov"
  by (rule parseOverview_wf)

lemma sample_full:
  "holds (\<lambda>ov. ov_allowed ov = [''START''] \<and> controlBlockReason ov 10 = None \<and> diagnostics_module ov \<noteq> None
      \<and> of_int (fr_stale_after (ov_freshness ov)) < (31 :: rat))
     (sample_parsed True [''command.execute''])"
  by code_simp

lemma sample_small: "holds (\<lambda>ov. True) (sample_parsed False [])"
  by code_simp

lemma overview_accepted_coherent_witness:
  "\<exists>ov. sample_parsed True [''command.execute''] = Inr ov \<and> wf_overview sample_device ov"
  using sample_full overview_accepted_coherent unfolding holds_iff sample_parsed_def by blast

text \<open>C4: The control interlock of an accepted snapshot opens exactly when it should: the page offers
  START and frequency changes iff the converter is not known to be under another control source, the
  equipment passport is legacy or verified, and (when the diagnostics capability is assigned) the link,
  configuration and arming channels are all present, currently fresh and true.\<close>

theorem control_opens_iff:
  assumes "parseOverview v expected org = Inr ov"
  shows "controlBlockReason ov elapsed = None \<longleftrightarrow> unblocked ov elapsed"
  using parseOverview_wf [OF assms] by (intro controlBlockReason_iff) (simp add: wf_overview_def)

lemma control_opens_iff_witness:
  "\<exists>ov. sample_parsed True [''command.execute''] = Inr ov \<and> controlBlockReason ov 10 = None \<and> unblocked ov 10"
  using sample_full control_opens_iff unfolding holds_iff sample_parsed_def by blast

text \<open>The interlock never outlives its data: when the diagnostics capability is assigned, control
  is blocked as soon as the snapshot has been shown for longer than the staleness threshold the server
  gave, whatever the channels said.\<close>

theorem control_expires:
  assumes "parseOverview v expected org = Inr ov" and "diagnostics_module ov \<noteq> None"
    and "of_int (fr_stale_after (ov_freshness ov)) < elapsed"
  shows "controlBlockReason ov elapsed \<noteq> None"
proof -
  from parseOverview_wf [OF assms(1)] have s: "ov_equipment_state ov \<in> set (map fst equipmentStateLabels)"
    and f: "wf_freshness (ov_freshness ov)" by (simp_all add: wf_overview_def)
  from data_expired_late [OF f assms(3)] have "\<not> unblocked ov elapsed"
    using assms(2) interlock_expires unfolding unblocked_def by blast
  with controlBlockReason_iff [OF s] show ?thesis by simp
qed

lemma control_expires_witness:
  "\<exists>ov. sample_parsed True [''command.execute''] = Inr ov \<and> controlBlockReason ov 31 \<noteq> None"
  using sample_full control_expires unfolding holds_iff sample_parsed_def by blast

text \<open>A user whose access lacks the permission to execute commands is offered none, whatever the
  rest of the payload claims.\<close>

theorem overview_commands_need_permission:
  assumes "parseOverview v expected org = Inr ov"
    and "JStr ''command.execute'' \<notin> set (elems (fld (fld v ''access'') ''permissions''))"
  shows "ov_allowed ov = []"
  using assms by (rule parseOverview_no_execute)

lemma overview_commands_need_permission_witness:
  "\<exists>ov. sample_parsed False [] = Inr ov \<and> ov_allowed ov = []"
proof -
  have "JStr ''command.execute'' \<notin> set (elems (fld (fld (sample_overview False []) ''access'') ''permissions''))"
    by (simp add: sample_overview_def sample_access_def overview_permissions_def Let_def)
  then show ?thesis
    using sample_small overview_commands_need_permission unfolding holds_iff sample_parsed_def by blast
qed

end
