(* ===== verification/Calendar.thy ===== *)
theory Calendar
  imports Access Numerals
begin

text \<open>
  \<open>lib/calendar-date.ts\<close>: calendar dates as ISO text, and the arithmetic on them that the schedule
  form uses.

  A calendar date is the text of a \<open>civil\<close> date with a year of four digits; \<open>civil\<close> is a linear order
  (\<open>instantiation\<close> below), which the text order and the order of day numbers agree with. The code
  computes on a \<open>Date\<close> at noon UTC; here a \<open>Date\<close> is its milliseconds, and \<open>None\<close> is an invalid one
  (whose \<open>toISOString\<close> throws).
\<close>

section \<open>The code\<close>

definition MIN_CALENDAR_DATE :: string where
  "MIN_CALENDAR_DATE = ''2000-01-01''"

definition MAX_CALENDAR_DATE :: string where
  "MAX_CALENDAR_DATE = ''2199-12-31''"

definition iso_day_shape :: "(char \<Rightarrow> bool) list" where
  "iso_day_shape =
     (let dash = (\<lambda>c. c = CHR ''-'')
      in replicate 4 is_digit @ [dash] @ replicate 2 is_digit @ [dash] @ replicate 2 is_digit)"

definition noon :: "string \<Rightarrow> int option" where
  "noon value = date_parse (value @ ''T12:00:00Z'')"

text \<open>\<open>toISOString().slice(0, 10)\<close>\<close>

definition iso_prefix :: "int \<Rightarrow> string" where
  "iso_prefix t = take 10 (to_iso t)"

definition isCalendarDate :: "string \<Rightarrow> bool" where
  "isCalendarDate value =
     (match_classes iso_day_shape value \<and>
      (case noon value of None \<Rightarrow> False | Some t \<Rightarrow> iso_prefix t = value))"

text \<open>\<open>parts\<close> is the runtime's calendar: the year, month and day of a moment in a time zone.\<close>

definition calendarDate :: "(string \<Rightarrow> int \<Rightarrow> string \<times> string \<times> string) \<Rightarrow> int \<Rightarrow> string \<Rightarrow> string" where
  "calendarDate parts moment timezone =
     (case parts timezone moment of (y, m, d) \<Rightarrow> js_join ''-'' [y, m, d])"

fun split_on :: "char \<Rightarrow> string \<Rightarrow> string list" where
  "split_on sep [] = [[]]"
| "split_on sep (c # cs) =
     (if c = sep then [] # split_on sep cs
      else case split_on sep cs of [] \<Rightarrow> [[c]] | w # ws \<Rightarrow> (c # w) # ws)"

definition displayCalendarDate :: "string \<Rightarrow> string" where
  "displayCalendarDate value =
     (if isCalendarDate value then js_join ''.'' (rev (split_on (CHR ''-'') value)) else value)"

definition dotted_shape :: "(char \<Rightarrow> bool) list" where
  "dotted_shape =
     (let dot = (\<lambda>c. c = CHR ''.'')
      in replicate 2 is_digit @ [dot] @ replicate 2 is_digit @ [dot] @ replicate 4 is_digit)"

definition readCalendarInput :: "string \<Rightarrow> string" where
  "readCalendarInput value =
     (let formatted = (if match_classes (replicate 8 is_digit) value
            then take 2 value @ ''.'' @ take 2 (drop 2 value) @ ''.'' @ drop 4 value else value);
          iso = (if match_classes dotted_shape formatted
            then js_join ''-'' (rev (split_on (CHR ''.'') formatted)) else formatted)
      in if isCalendarDate iso then iso else formatted)"

definition clampCalendarDate :: "string \<Rightarrow> string \<Rightarrow> string \<Rightarrow> string" where
  "clampCalendarDate value lo hi = (if str_lt value lo then lo else if str_lt hi value then hi else value)"

definition calendarInputError :: "string \<Rightarrow> string \<Rightarrow> string \<Rightarrow> bool \<Rightarrow> string" where
  "calendarInputError value lo hi required =
     (if value = [] then (if required then uk ''Vka*it= datu.'' else [])
      else if \<not> isCalendarDate value then uk ''Vka*it= dijsnu datu u formati DD.MM.RRRR.''
      else if str_lt value lo then uk ''Data ma# buty ne raniwe '' @ displayCalendarDate lo @ ''.''
      else if str_lt hi value then uk ''Data ma# buty ne pizniwe '' @ displayCalendarDate hi @ ''.''
      else [])"

text \<open>A \<open>Date\<close> cannot leave 100 million days around 1970.\<close>

definition time_clip :: "int \<Rightarrow> int option" where
  "time_clip t = (if \<bar>t\<bar> \<le> 8640000000000000 then Some t else None)"

definition day_of :: "int \<Rightarrow> int" where
  "day_of t = t div ms_per_day"

definition get_utc_date :: "int \<Rightarrow> int" where
  "get_utc_date t = date_from_day (day_of t)"

text \<open>\<open>setUTCDate\<close> and \<open>setUTCMonth\<close> keep the other fields and the time of day.\<close>

definition set_utc_date :: "int \<Rightarrow> int \<Rightarrow> int option" where
  "set_utc_date t d =
     time_clip (make_day (year_from_day (day_of t)) (month_from_day (day_of t) - 1) d * ms_per_day + t mod ms_per_day)"

definition set_utc_month :: "int \<Rightarrow> int \<Rightarrow> int option" where
  "set_utc_month t m0 =
     time_clip (make_day (year_from_day (day_of t)) m0 (date_from_day (day_of t)) * ms_per_day + t mod ms_per_day)"

definition shiftCalendarDays :: "string \<Rightarrow> int \<Rightarrow> string option" where
  "shiftCalendarDays value days =
     map_option iso_prefix (Option.bind (noon value) (\<lambda>t. set_utc_date t (get_utc_date t + days)))"

text \<open>\<open>new Date(Date.UTC(year, month, 0)).getUTCDate()\<close>: \<open>Date.UTC\<close> reads a year below 100 as 19xx.\<close>

definition utc_year :: "int \<Rightarrow> int" where
  "utc_year y = (if 0 \<le> y \<and> y \<le> 99 then 1900 + y else y)"

definition last_day_of_month :: "int \<Rightarrow> int" where
  "last_day_of_month t =
     date_from_day (make_day (utc_year (year_from_day (day_of t))) (month_from_day (day_of t)) 0)"

definition shiftCalendarMonths :: "string \<Rightarrow> int \<Rightarrow> string option" where
  "shiftCalendarMonths value months =
     map_option iso_prefix
       (Option.bind (noon value) (\<lambda>t.
        Option.bind (set_utc_date t 1) (\<lambda>t1.
        Option.bind (set_utc_month t1 (month_from_day (day_of t1) - 1 + months)) (\<lambda>t2.
        set_utc_date t2 (min (get_utc_date t) (last_day_of_month t2))))))"

definition month_offset :: "string \<Rightarrow> int option" where
  "month_offset first = map_option (\<lambda>t. (weekday_of_day (day_of t) + 6) mod 7) (noon first)"

definition calendarMonthRows :: "string \<Rightarrow> string list list option" where
  "calendarMonthRows value =
     (let first = take 7 value @ ''-01'' in
      Option.bind (month_offset first) (\<lambda>offset.
      Option.bind (shiftCalendarDays first (- offset)) (\<lambda>start.
      those (map (\<lambda>week. those (map (\<lambda>day. shiftCalendarDays start (week * 7 + day)) [0..6])) [0..5]))))"

section \<open>Civil dates\<close>

datatype civil = Civil (cyear: int) (cmonth: int) (cday: int)

instantiation civil :: linorder
begin

definition less_civil :: "civil \<Rightarrow> civil \<Rightarrow> bool" where
  "less_civil a b \<longleftrightarrow> cyear a < cyear b \<or> (cyear a = cyear b \<and>
     (cmonth a < cmonth b \<or> (cmonth a = cmonth b \<and> cday a < cday b)))"

definition less_eq_civil :: "civil \<Rightarrow> civil \<Rightarrow> bool" where
  "less_eq_civil a b \<longleftrightarrow> a < b \<or> a = (b :: civil)"

instance
proof
  fix x y z :: civil
  show "(x < y) = (x \<le> y \<and> \<not> y \<le> x)"
    by (auto simp: less_eq_civil_def less_civil_def)
  show "x \<le> x" by (simp add: less_eq_civil_def)
  show "x \<le> y \<Longrightarrow> y \<le> z \<Longrightarrow> x \<le> z"
    by (auto simp: less_eq_civil_def less_civil_def)
  show "x \<le> y \<Longrightarrow> y \<le> x \<Longrightarrow> x = y"
    by (auto simp: less_eq_civil_def less_civil_def)
  show "x \<le> y \<or> y \<le> x"
    by (cases x; cases y) (auto simp: less_eq_civil_def less_civil_def)
qed

end

definition wf_civil :: "civil \<Rightarrow> bool" where
  "wf_civil c \<longleftrightarrow> valid_civil (cyear c) (cmonth c) (cday c) \<and> 0 \<le> cyear c \<and> cyear c \<le> 9999"

definition civil_day :: "civil \<Rightarrow> int" where
  "civil_day c = make_day (cyear c) (cmonth c - 1) (cday c)"

definition civil_text :: "civil \<Rightarrow> string" where
  "civil_text c = show_civil (cyear c) (cmonth c) (cday c)"

definition civil_of :: "int \<Rightarrow> civil" where
  "civil_of n = Civil (year_from_day n) (month_from_day n) (date_from_day n)"

lemma civil_of_civil_day: "wf_civil c \<Longrightarrow> civil_of (civil_day c) = c"
  by (cases c) (simp add: wf_civil_def civil_of_def civil_day_def day_of_civil)

lemma civil_day_civil_of: "civil_day (civil_of n) = n"
  by (simp add: civil_of_def civil_day_def civil_of_day)

lemma valid_civil_of: "valid_civil (cyear (civil_of n)) (cmonth (civil_of n)) (cday (civil_of n))"
  by (simp add: civil_of_def civil_of_day)

lemma civil_day_in_year:
  assumes "wf_civil c"
  shows "day_from_year (cyear c) \<le> civil_day c \<and> civil_day c < day_from_year (cyear c + 1)"
  using year_from_day_bounds [of "civil_day c"] civil_of_civil_day [OF assms]
  by (metis civil.sel(1) civil_of_def)

lemma days_before_month_le:
  "1 \<le> i \<Longrightarrow> i \<le> j \<Longrightarrow> j \<le> 12 \<Longrightarrow> days_before_month lp i \<le> days_before_month lp j"
  using month_cases [of i] month_cases [of j] by (auto simp: days_before_month_def)

lemma civil_day_less:
  assumes "wf_civil a" "wf_civil b" "a < b"
  shows "civil_day a < civil_day b"
proof (cases "cyear a = cyear b")
  case True
  have m: "1 \<le> cmonth a" "cmonth a \<le> 12" "1 \<le> cmonth b" "cmonth b \<le> 12"
    and d: "cday a \<le> days_in_month (cyear a) (cmonth a)" "1 \<le> cday b"
    using assms by (auto simp: wf_civil_def valid_civil_def)
  have e: "civil_day a = day_from_year (cyear a) + days_before_month (leap_year (cyear a)) (cmonth a) + (cday a - 1)"
    "civil_day b = day_from_year (cyear a) + days_before_month (leap_year (cyear a)) (cmonth b) + (cday b - 1)"
    using m True by (simp_all add: civil_day_def make_day_valid)
  show ?thesis
  proof (cases "cmonth a = cmonth b")
    case eq: True
    with assms True e show ?thesis by (auto simp: less_civil_def)
  next
    case False
    with assms(3) True have "cmonth a + 1 \<le> cmonth b" by (auto simp: less_civil_def)
    then have "days_before_month (leap_year (cyear a)) (cmonth a + 1)
        \<le> days_before_month (leap_year (cyear a)) (cmonth b)"
      using m by (intro days_before_month_le) auto
    with d e show ?thesis by (simp add: days_in_month_def)
  qed
next
  case False
  with assms(3) have "cyear a + 1 \<le> cyear b" by (auto simp: less_civil_def)
  then have "0 \<le> 365 * (cyear b - (cyear a + 1))" by simp
  with day_from_year_mono [OF \<open>cyear a + 1 \<le> cyear b\<close>] civil_day_in_year [OF assms(1)]
    civil_day_in_year [OF assms(2)]
  show ?thesis by linarith
qed

lemma civil_day_less_iff: "wf_civil a \<Longrightarrow> wf_civil b \<Longrightarrow> civil_day a < civil_day b \<longleftrightarrow> a < b"
  using civil_day_less by (metis less_irrefl not_less_iff_gr_or_eq order_less_asym)

section \<open>The text of a date\<close>

lemma show_nat_length: "n < 10 ^ k \<Longrightarrow> 1 \<le> k \<Longrightarrow> length (show_nat n) \<le> k"
proof (induction n arbitrary: k rule: show_nat.induct)
  case (1 n)
  show ?case
  proof (cases "n < 10")
    case False
    with 1(2,3) obtain j where k: "k = Suc j" "1 \<le> j"
      by (cases k; cases "k - 1") auto
    have "n div 10 < 10 ^ j" using 1(2) by (simp add: k less_mult_imp_div_less mult.commute)
    then have "length (show_nat (n div 10)) \<le> j" using 1(1) False k by blast
    with False k show ?thesis by (simp add: show_nat.simps [of n])
  qed (use 1 in \<open>simp add: show_nat.simps [of n]\<close>)
qed

lemma digits_val_pad: "digits_val (replicate k (CHR ''0'') @ s) = digits_val s"
  by (induction k) (simp_all add: digits_val_def digit_val_def)

definition fixed_width :: "nat \<Rightarrow> int \<Rightarrow> string" where
  "fixed_width k n = pad_start k (CHR ''0'') (show_int n)"

lemma fixed_width:
  assumes "0 \<le> n" "n < 10 ^ k" "1 \<le> k"
  shows "length (fixed_width k n) = k" "list_all is_digit (fixed_width k n)"
    "digits_val (fixed_width k n) = n"
proof -
  have "nat n < 10 ^ k" using assms by (simp add: nat_less_iff)
  then have "length (show_nat (nat n)) \<le> k" using assms(3) by (rule show_nat_length)
  then show "length (fixed_width k n) = k"
    using assms(1) by (simp add: fixed_width_def pad_start_def show_int_def)
  have "is_digit (CHR ''0'')" by (simp add: is_digit_def)
  then show "list_all is_digit (fixed_width k n)"
    using assms(1) show_nat_digits by (auto simp: fixed_width_def pad_start_def show_int_def list_all_iff)
  show "digits_val (fixed_width k n) = n"
    using assms(1) by (simp add: fixed_width_def pad_start_def show_int_def digits_val_pad digits_val_show_nat)
qed

lemma show2_fixed: "show2 n = fixed_width 2 n"
  by (simp add: show2_def fixed_width_def)

lemma civil_text_fixed:
  "0 \<le> cyear c \<Longrightarrow> cyear c \<le> 9999 \<Longrightarrow>
   civil_text c = fixed_width 4 (cyear c) @ ''-'' @ fixed_width 2 (cmonth c) @ ''-'' @ fixed_width 2 (cday c)"
  by (simp add: civil_text_def show_civil_def show_year_def show2_fixed fixed_width_def)

lemma wf_civil_bounds:
  assumes "wf_civil c"
  shows "0 \<le> cyear c \<and> cyear c < 10 ^ 4" "0 \<le> cmonth c \<and> cmonth c < 10 ^ 2" "0 \<le> cday c \<and> cday c < 10 ^ 2"
    "1 \<le> cmonth c" "cmonth c \<le> 12" "1 \<le> cday c" "cday c \<le> 31"
  using assms days_in_month_bounds [of "cmonth c" "cyear c"] by (auto simp: wf_civil_def valid_civil_def)

lemma civil_text_parts:
  assumes "wf_civil c"
  obtains ys ms ds where "civil_text c = ys @ ''-'' @ ms @ ''-'' @ ds"
    "length ys = 4" "length ms = 2" "length ds = 2"
    "list_all is_digit ys" "list_all is_digit ms" "list_all is_digit ds"
    "digits_val ys = cyear c" "digits_val ms = cmonth c" "digits_val ds = cday c"
  using that [OF civil_text_fixed] fixed_width [of "cyear c" 4] fixed_width [of "cmonth c" 2]
    fixed_width [of "cday c" 2] wf_civil_bounds [OF assms] by auto

lemma list_all2_replicate: "list_all2 (\<lambda>p c. p c) (replicate n P) s \<longleftrightarrow> length s = n \<and> list_all P s"
  by (auto simp: list_all2_conv_all_nth list_all_length)

lemma iso_day_shape_iff:
  "match_classes iso_day_shape s \<longleftrightarrow>
     (\<exists>ys ms ds. s = ys @ ''-'' @ ms @ ''-'' @ ds \<and> length ys = 4 \<and> length ms = 2 \<and> length ds = 2
        \<and> list_all is_digit ys \<and> list_all is_digit ms \<and> list_all is_digit ds)" (is "_ = ?r")
proof
  assume "match_classes iso_day_shape s"
  then show ?r
    by (auto simp: Let_def match_classes_def iso_day_shape_def list_all2_append1 list_all2_replicate list_all2_Cons1)
next
  assume ?r
  then show "match_classes iso_day_shape s"
    by (auto simp: Let_def match_classes_def iso_day_shape_def list_all2_append list_all2_replicate)
qed

lemma read_digits_prefix:
  "length ds = n \<Longrightarrow> list_all is_digit ds \<Longrightarrow> read_digits n (ds @ r) = Some (digits_val ds, r)"
  by (simp add: read_digits_def)

lemma read_field_prefix:
  "length ds = n \<Longrightarrow> list_all is_digit ds \<Longrightarrow> read_field c n (c # ds @ r) = Some (digits_val ds, r)"
  by (simp add: read_field_def read_digits_prefix)

lemma noon_time: "read_time ''T12:00:00Z'' = Some 43200000"
  by code_simp

lemma noon_civil:
  assumes "wf_civil c"
  shows "noon (civil_text c) = Some (civil_day c * ms_per_day + 43200000)"
proof (rule civil_text_parts [OF assms])
  fix ys ms ds
  assume t: "civil_text c = ys @ ''-'' @ ms @ ''-'' @ ds" and l: "length ys = 4" "length ms = 2" "length ds = 2"
    and g: "list_all is_digit ys" "list_all is_digit ms" "list_all is_digit ds"
    and v: "digits_val ys = cyear c" "digits_val ms = cmonth c" "digits_val ds = cday c"
  have "read_date (civil_text c @ ''T12:00:00Z'') = Some (civil_day c, ''T12:00:00Z'')"
    using read_digits_prefix [OF l(1) g(1)] read_field_prefix [OF l(2) g(2)] read_field_prefix [OF l(3) g(3)]
      wf_civil_bounds [OF assms]
    by (simp add: read_date_def t v civil_day_def)
  then show ?thesis
    by (simp add: noon_def date_parse_def parse_iso_def noon_time)
qed

lemma day_of_noon: "day_of (n * ms_per_day + 43200000) = n" "(n * ms_per_day + 43200000) mod ms_per_day = 43200000"
  "43200000 mod ms_per_day = 43200000"
  by (simp_all add: day_of_def ms_per_day_def)

lemma iso_prefix_civil:
  assumes "0 \<le> cyear (civil_of (day_of t))" "cyear (civil_of (day_of t)) \<le> 9999"
  shows "iso_prefix t = civil_text (civil_of (day_of t))"
proof -
  let ?c = "civil_of (day_of t)"
  have w: "wf_civil ?c" using assms valid_civil_of by (simp add: wf_civil_def)
  obtain r where "to_iso t = civil_text ?c @ r"
    by (auto simp: to_iso_def Let_def iso_date_def civil_text_def civil_of_def day_of_def)
  moreover have "length (civil_text ?c) = 10"
    by (rule civil_text_parts [OF w]) simp
  ultimately show ?thesis by (simp add: iso_prefix_def)
qed

lemma calendar_prefix:
  assumes "iso_prefix t = v" "match_classes iso_day_shape v"
  shows "wf_civil (civil_of (day_of t)) \<and> v = civil_text (civil_of (day_of t))"
proof -
  let ?c = "civil_of (day_of t)"
  have "0 \<le> cyear ?c \<and> cyear ?c \<le> 9999"
  proof (rule ccontr)
    assume "\<not> ?thesis"
    then have "hd (to_iso t) \<in> {CHR ''-'', CHR ''+''}"
      by (auto simp: to_iso_def Let_def iso_date_def show_civil_def show_year_def civil_of_def day_of_def)
    moreover have "to_iso t \<noteq> []" by (simp add: to_iso_def Let_def)
    ultimately have "hd v \<in> {CHR ''-'', CHR ''+''}"
      using assms(1) by (cases "to_iso t") (auto simp: iso_prefix_def)
    moreover have "is_digit (hd v)"
      using assms(2) by (auto simp: iso_day_shape_iff) (metis hd_append2 list.pred_set hd_in_set length_0_conv zero_neq_numeral)
    ultimately show False using digit_not by blast
  qed
  then show ?thesis
    using iso_prefix_civil [of t] assms(1) valid_civil_of by (auto simp: wf_civil_def)
qed

lemma isCalendarDate_iff: "isCalendarDate v \<longleftrightarrow> (\<exists>c. wf_civil c \<and> v = civil_text c)"
proof
  assume "isCalendarDate v"
  then obtain t where "iso_prefix t = v" "match_classes iso_day_shape v"
    by (auto simp: isCalendarDate_def split: option.splits)
  then show "\<exists>c. wf_civil c \<and> v = civil_text c" using calendar_prefix by blast
next
  assume "\<exists>c. wf_civil c \<and> v = civil_text c"
  then obtain c where w: "wf_civil c" and v: "v = civil_text c" by blast
  have "match_classes iso_day_shape v"
    unfolding v iso_day_shape_iff by (rule civil_text_parts [OF w]) blast
  moreover have "iso_prefix (civil_day c * ms_per_day + 43200000) = civil_text c"
    using iso_prefix_civil [of "civil_day c * ms_per_day + 43200000"] w civil_of_civil_day [OF w]
    by (simp add: day_of_noon wf_civil_def)
  ultimately show "isCalendarDate v"
    using noon_civil [OF w] by (simp add: isCalendarDate_def v)
qed

section \<open>Arithmetic\<close>

lemma calendar_year_day:
  "0 \<le> n \<and> n \<le> 9999 \<Longrightarrow> -719528 \<le> day_from_year n \<and> day_from_year n \<le> 2932532"
  using day_from_year_mono [of 0 n] day_from_year_mono [of n 9999]
  by (simp add: day_from_year_def)

lemma year_day_range:
  assumes "0 \<le> cyear (civil_of n)" "cyear (civil_of n) \<le> 9999"
  shows "\<bar>n * ms_per_day + 43200000\<bar> \<le> 8640000000000000"
proof -
  have "day_from_year (cyear (civil_of n)) \<le> n \<and> n < day_from_year (cyear (civil_of n) + 1)"
    using year_from_day_bounds [of n] by (simp add: civil_of_def)
  moreover have "day_from_year (cyear (civil_of n) + 1) \<le> day_from_year (cyear (civil_of n)) + 366"
    using days_in_year_bounds by (simp add: day_from_year_Suc)
  ultimately have "-719528 \<le> n \<and> n \<le> 2932898"
    using calendar_year_day [of "cyear (civil_of n)"] assms by linarith
  then show ?thesis by (simp add: ms_per_day_def abs_le_iff)
qed

lemma make_day_shift: "make_day y m0 (d + k) = make_day y m0 d + k"
  by (simp add: make_day_def Let_def)

lemma set_utc_date_noon:
  "set_utc_date (n * ms_per_day + 43200000) (date_from_day n + k) =
     time_clip ((n + k) * ms_per_day + 43200000)"
  using civil_of_day(2) [of n] by (simp add: set_utc_date_def day_of_noon make_day_shift)

definition calendar_day :: "int \<Rightarrow> bool" where
  "calendar_day n \<longleftrightarrow> 0 \<le> cyear (civil_of n) \<and> cyear (civil_of n) \<le> 9999"

lemma wf_civil_of: "calendar_day n \<Longrightarrow> wf_civil (civil_of n)"
  using valid_civil_of by (simp add: calendar_day_def wf_civil_def)

lemma calendar_day_civil: "wf_civil c \<Longrightarrow> calendar_day (civil_day c)"
  by (simp add: calendar_day_def civil_of_civil_day wf_civil_def)

text \<open>The text of a day number, and shifting it.\<close>

lemma shift_days:
  assumes "wf_civil c" and "calendar_day (civil_day c + k)"
  shows "shiftCalendarDays (civil_text c) k = Some (civil_text (civil_of (civil_day c + k)))"
proof -
  let ?n = "civil_day c + k"
  have "time_clip (?n * ms_per_day + 43200000) = Some (?n * ms_per_day + 43200000)"
    using year_day_range [of ?n] assms(2) by (simp add: calendar_day_def time_clip_def)
  then show ?thesis
    using iso_prefix_civil [of "?n * ms_per_day + 43200000"] assms(2)
    by (simp add: shiftCalendarDays_def noon_civil [OF assms(1)] get_utc_date_def day_of_noon
        set_utc_date_noon calendar_day_def)
qed

lemma calendar_day_between:
  assumes "calendar_day a" "calendar_day b" "a \<le> n" "n \<le> b"
  shows "calendar_day n"
proof -
  have m: "x \<le> y \<Longrightarrow> year_from_day x \<le> year_from_day y" for x y
    using year_from_day_bounds [of x] year_from_day_bounds [of y] day_from_year_strict
    by (meson order_le_less_trans order_trans)
  from m [OF assms(3)] m [OF assms(4)] assms(1,2) show ?thesis
    by (simp add: calendar_day_def civil_of_def)
qed

text \<open>Shifting by months: the month index moves, the day is cut to the length of the new month.\<close>

definition shift_month :: "civil \<Rightarrow> int \<Rightarrow> civil" where
  "shift_month c k =
     (let i = cyear c * 12 + (cmonth c - 1) + k; y = i div 12; m = i mod 12 + 1
      in Civil y m (min (cday c) (days_in_month y m)))"

lemma last_day_zero:
  assumes "1 \<le> m" "m \<le> 12"
  shows "date_from_day (make_day y m 0) = days_in_month y m"
proof -
  have v: "valid_civil y m (days_in_month y m)"
    using assms days_in_month_bounds [OF assms, of y] unfolding valid_civil_def by linarith
  have "make_day y m 0 = make_day y (m - 1) (days_in_month y m)"
  proof (cases "m = 12")
    case True
    then show ?thesis
      by (simp add: make_day_def days_in_month_def day_from_year_Suc days_in_year_def days_before_month_def)
  next
    case False
    with assms show ?thesis by (simp add: make_day_def days_in_month_def)
  qed
  with day_of_civil(3) [OF v] show ?thesis by simp
qed

lemma clip_calendar: "calendar_day n \<Longrightarrow> time_clip (n * ms_per_day + 43200000) = Some (n * ms_per_day + 43200000)"
  using year_day_range [of n] by (simp add: calendar_day_def time_clip_def)

lemma set_date_civil:
  assumes "wf_civil (Civil y m d)" "wf_civil (Civil y m d')"
  shows "set_utc_date (civil_day (Civil y m d) * ms_per_day + 43200000) d' =
    Some (civil_day (Civil y m d') * ms_per_day + 43200000)"
  using civil_of_civil_day [OF assms(1)] clip_calendar [OF calendar_day_civil [OF assms(2)]]
  by (simp add: set_utc_date_def day_of_noon civil_of_def civil_day_def)

lemma wf_month:
  assumes "1 \<le> m" "m \<le> 12" "0 \<le> y" "y \<le> 9999" "1 \<le> d" "d \<le> days_in_month y m"
  shows "wf_civil (Civil y m d)"
  using assms by (simp add: wf_civil_def valid_civil_def)

lemma shift_months:
  assumes c: "wf_civil c" and y: "100 \<le> cyear (shift_month c k)" "cyear (shift_month c k) \<le> 9999"
  shows "shiftCalendarMonths (civil_text c) k = Some (civil_text (shift_month c k))"
    and "wf_civil (shift_month c k)"
proof -
  define i where "i = cyear c * 12 + (cmonth c - 1) + k"
  define Y where "Y = i div 12"
  define M where "M = i mod 12 + 1"
  have cc: "c = Civil (cyear c) (cmonth c) (cday c)" by simp
  have M: "1 \<le> M" "M \<le> 12" by (auto simp: M_def)
  have Y: "100 \<le> Y" "Y \<le> 9999" using y by (simp_all add: shift_month_def Let_def Y_def i_def)
  note dm = days_in_month_bounds [OF M, of Y]
  note b = wf_civil_bounds [OF c]
  have ld: "1 \<le> days_in_month (cyear c) (cmonth c)"
    using days_in_month_bounds [OF b(4,5), of "cyear c"] by linarith
  have w1: "wf_civil (Civil (cyear c) (cmonth c) 1)"
    by (rule wf_month) (use b ld in auto)
  have w2: "wf_civil (Civil Y M 1)"
    by (rule wf_month) (use M Y dm in auto)
  have w3: "wf_civil (Civil Y M (min (cday c) (days_in_month Y M)))"
    by (rule wf_month) (use M Y dm b in auto)
  have sm: "shift_month c k = Civil Y M (min (cday c) (days_in_month Y M))"
    by (simp add: shift_month_def Let_def Y_def M_def i_def)
  with w3 show "wf_civil (shift_month c k)" by simp
  let ?n1 = "civil_day (Civil (cyear c) (cmonth c) 1)" and ?n2 = "civil_day (Civil Y M 1)"
  have s1: "set_utc_date (civil_day c * ms_per_day + 43200000) 1 = Some (?n1 * ms_per_day + 43200000)"
    using set_date_civil [of "cyear c" "cmonth c" "cday c" 1] c w1 cc by simp
  have i: "i = (cmonth c - 1 + k) + cyear c * 12" by (simp add: i_def)
  have YM: "Y = cyear c + (cmonth c - 1 + k) div 12" "M = (cmonth c - 1 + k) mod 12 + 1"
    unfolding Y_def M_def i by (simp_all only: div_mult_self1 mod_mult_self1)
  have n2: "make_day (cyear c) (cmonth c - 1 + k) 1 = ?n2"
    by (simp add: civil_day_def make_day_def Let_def YM)
  have f1: "year_from_day ?n1 = cyear c" "month_from_day ?n1 = cmonth c" "date_from_day ?n1 = 1"
    using civil_of_civil_day [OF w1] by (simp_all add: civil_of_def)
  have s2: "set_utc_month (?n1 * ms_per_day + 43200000) (cmonth c - 1 + k) = Some (?n2 * ms_per_day + 43200000)"
    using n2 clip_calendar [OF calendar_day_civil [OF w2]]
    by (simp add: set_utc_month_def day_of_noon f1)
  have f2: "year_from_day ?n2 = Y" "month_from_day ?n2 = M"
    using civil_of_civil_day [OF w2] by (simp_all add: civil_of_def)
  have l2: "last_day_of_month (?n2 * ms_per_day + 43200000) = days_in_month Y M"
    using Y last_day_zero [OF M] by (simp add: last_day_of_month_def day_of_noon f2 utc_year_def)
  have g: "get_utc_date (civil_day c * ms_per_day + 43200000) = cday c"
    using civil_of_civil_day [OF c] by (simp add: get_utc_date_def day_of_noon civil_of_def) (metis civil.sel(3))
  have "iso_prefix (civil_day (shift_month c k) * ms_per_day + 43200000) = civil_text (shift_month c k)"
    using iso_prefix_civil [of "civil_day (shift_month c k) * ms_per_day + 43200000"] civil_of_civil_day [OF w3] Y
    by (simp add: day_of_noon sm)
  then show "shiftCalendarMonths (civil_text c) k = Some (civil_text (shift_month c k))"
    using set_date_civil [OF w2 w3] by (simp add: shiftCalendarMonths_def noon_civil [OF c] s1 day_of_noon f1 s2 l2 g sm)
qed

section \<open>The order of the texts\<close>

lemma str_lt_append:
  "length a = length b \<Longrightarrow> str_lt (a @ x) (b @ y) \<longleftrightarrow> str_lt a b \<or> (a = b \<and> str_lt x y)"
  by (induction a b rule: list_induct2) auto

lemma digits_val_Cons: "digits_val (c # cs) = digit_val c * 10 ^ length cs + digits_val cs"
proof (induction cs rule: rev_induct)
  case (snoc d cs)
  then show ?case using digits_val_append [of "c # cs" d] by (simp add: digits_val_append algebra_simps)
qed (simp add: digits_val_def)

lemma digits_val_bounds: "list_all is_digit s \<Longrightarrow> 0 \<le> digits_val s \<and> digits_val s < 10 ^ length s"
proof (induction s rule: rev_induct)
  case (snoc d s)
  then have "0 \<le> digit_val d \<and> digit_val d \<le> 9" by (simp add: is_digit_def digit_val_def Let_def)
  with snoc show ?case by (simp add: digits_val_append)
qed (simp add: digits_val_def)

lemma str_lt_digits:
  "length a = length b \<Longrightarrow> list_all is_digit a \<Longrightarrow> list_all is_digit b \<Longrightarrow>
   str_lt a b \<longleftrightarrow> digits_val a < digits_val b"
proof (induction a b rule: list_induct2)
  case (Cons x xs y ys)
  have bx: "0 \<le> digits_val xs" "digits_val xs < 10 ^ length xs"
    and bY: "0 \<le> digits_val ys" "digits_val ys < 10 ^ length xs"
    using digits_val_bounds Cons by fastforce+
  have lt: "digits_val (x # xs) < digits_val (y # ys)" if "digit_val x < digit_val y" for x y
  proof -
    have "(digit_val x + 1) * 10 ^ length xs \<le> digit_val y * 10 ^ length xs"
      using that by (intro mult_right_mono) auto
    then show ?thesis using bx bY Cons(1) by (simp add: digits_val_Cons algebra_simps)
  qed
  have gt: "\<not> digits_val (x # xs) < digits_val (y # ys)" if "digit_val y < digit_val x" for x y
  proof -
    have "(digit_val y + 1) * 10 ^ length xs \<le> digit_val x * 10 ^ length xs"
      using that by (intro mult_right_mono) auto
    then show ?thesis using bx bY Cons(1) by (simp add: digits_val_Cons algebra_simps)
  qed
  have e: "digit_val x = digit_val y \<longleftrightarrow> x = y" by (simp add: digit_val_def)
  have l: "digit_val x < digit_val y \<longleftrightarrow> (of_char x :: nat) < of_char y" by (simp add: digit_val_def)
  consider "digit_val x < digit_val y" | "digit_val y < digit_val x" | "x = y" using e by linarith
  then show ?case
  proof cases
    case 1
    with lt l show ?thesis by simp
  next
    case 2
    with gt l e show ?thesis by (auto simp: digit_val_def)
  next
    case 3
    with Cons show ?thesis by (simp add: digits_val_Cons)
  qed
qed (simp add: digits_val_def)

lemma civil_text_less:
  assumes "wf_civil a" "wf_civil b"
  shows "str_lt (civil_text a) (civil_text b) \<longleftrightarrow> a < b"
proof (rule civil_text_parts [OF assms(1)], rule civil_text_parts [OF assms(2)])
  fix ya ma da yb mb db
  assume t: "civil_text a = ya @ ''-'' @ ma @ ''-'' @ da" "civil_text b = yb @ ''-'' @ mb @ ''-'' @ db"
    and l: "length ya = 4" "length ma = 2" "length da = 2" "length yb = 4" "length mb = 2" "length db = 2"
    and g: "list_all is_digit ya" "list_all is_digit ma" "list_all is_digit da"
      "list_all is_digit yb" "list_all is_digit mb" "list_all is_digit db"
    and v: "digits_val ya = cyear a" "digits_val ma = cmonth a" "digits_val da = cday a"
      "digits_val yb = cyear b" "digits_val mb = cmonth b" "digits_val db = cday b"
  have y: "str_lt ya yb \<longleftrightarrow> cyear a < cyear b" "str_lt ma mb \<longleftrightarrow> cmonth a < cmonth b"
    "str_lt da db \<longleftrightarrow> cday a < cday b"
    using str_lt_digits l g v by metis+
  have "ya = yb \<longleftrightarrow> cyear a = cyear b" "ma = mb \<longleftrightarrow> cmonth a = cmonth b"
    using y(1,2) str_lt_total [of ya yb] str_lt_total [of ma mb] v str_lt_digits l g by (metis less_irrefl)+
  with y l show ?thesis
    unfolding t less_civil_def by (subst str_lt_append) (auto simp: str_lt_append)
qed

lemma civil_text_inj: "wf_civil a \<Longrightarrow> wf_civil b \<Longrightarrow> civil_text a = civil_text b \<longleftrightarrow> a = b"
  using civil_text_less [of a b] civil_text_less [of b a] str_lt_irrefl by (metis neq_iff)

lemma clamp_civil:
  assumes "wf_civil v" "wf_civil lo" "wf_civil hi" "lo \<le> hi"
  shows "clampCalendarDate (civil_text v) (civil_text lo) (civil_text hi) = civil_text (max lo (min v hi))"
  using assms by (auto simp: clampCalendarDate_def civil_text_less max_def min_def not_less)

section \<open>Display and input\<close>

lemma split_on_word: "sep \<notin> set w \<Longrightarrow> split_on sep w = [w]"
  by (induction w) auto

lemma split_on_append: "sep \<notin> set w \<Longrightarrow> split_on sep (w @ sep # r) = w # split_on sep r"
  by (induction w) auto

lemma digits_no: "list_all is_digit w \<Longrightarrow> CHR ''-'' \<notin> set w \<and> CHR ''.'' \<notin> set w"
  using digit_not by (auto simp: list_all_iff)

lemma list_all2_fixed:
  "list_all2 (\<lambda>p c. p c) (replicate 8 is_digit) s \<longleftrightarrow> length s = 8 \<and> list_all is_digit s"
  by (rule list_all2_replicate)

lemma dotted_shape_parts:
  "length ds = 2 \<Longrightarrow> length ms = 2 \<Longrightarrow> length ys = 4 \<Longrightarrow> list_all is_digit ds \<Longrightarrow> list_all is_digit ms \<Longrightarrow>
   list_all is_digit ys \<Longrightarrow> match_classes dotted_shape (ds @ ''.'' @ ms @ ''.'' @ ys)"
  by (auto simp: Let_def match_classes_def dotted_shape_def list_all2_append list_all2_replicate)

lemma display_read:
  assumes "wf_civil c"
  shows "readCalendarInput (displayCalendarDate (civil_text c)) = civil_text c"
    and "displayCalendarDate (civil_text c) =
      fixed_width 2 (cday c) @ ''.'' @ fixed_width 2 (cmonth c) @ ''.'' @ fixed_width 4 (cyear c)"
    and "readCalendarInput (fixed_width 2 (cday c) @ fixed_width 2 (cmonth c) @ fixed_width 4 (cyear c)) = civil_text c"
proof -
  let ?y = "fixed_width 4 (cyear c)" and ?m = "fixed_width 2 (cmonth c)" and ?d = "fixed_width 2 (cday c)"
  have f: "length ?y = 4" "length ?m = 2" "length ?d = 2"
    "list_all is_digit ?y" "list_all is_digit ?m" "list_all is_digit ?d"
    using fixed_width wf_civil_bounds [OF assms] by auto
  note no = digits_no [OF f(4)] digits_no [OF f(5)] digits_no [OF f(6)]
  have t: "civil_text c = ?y @ ''-'' @ ?m @ ''-'' @ ?d"
    using assms by (intro civil_text_fixed) (auto simp: wf_civil_def)
  have cal: "isCalendarDate (civil_text c)" using assms isCalendarDate_iff by blast
  show disp: "displayCalendarDate (civil_text c) = ?d @ ''.'' @ ?m @ ''.'' @ ?y"
    using cal no by (simp add: displayCalendarDate_def t split_on_append split_on_word)
  have d: "js_join ''-'' (rev (split_on (CHR ''.'') (?d @ ''.'' @ ?m @ ''.'' @ ?y))) = civil_text c"
    using no by (simp add: t split_on_append split_on_word)
  note sh = dotted_shape_parts [OF f(3) f(2) f(1) f(6) f(5) f(4)]
  have "\<not> match_classes (replicate 8 is_digit) (?d @ ''.'' @ ?m @ ''.'' @ ?y)"
    using f unfolding match_classes_def list_all2_fixed by simp
  then show "readCalendarInput (displayCalendarDate (civil_text c)) = civil_text c"
    unfolding disp using sh d cal by (simp add: readCalendarInput_def Let_def)
  have "match_classes (replicate 8 is_digit) (?d @ ?m @ ?y)"
    using f unfolding match_classes_def list_all2_fixed by simp
  then show "readCalendarInput (?d @ ?m @ ?y) = civil_text c"
    using sh d cal f by (simp add: readCalendarInput_def Let_def)
qed

section \<open>The month grid\<close>

definition month_first :: "civil \<Rightarrow> int" where
  "month_first c = civil_day (Civil (cyear c) (cmonth c) 1)"

definition grid_start :: "civil \<Rightarrow> int" where
  "grid_start c = month_first c - (weekday_of_day (month_first c) + 6) mod 7"

lemma grid_start_monday:
  "weekday_of_day (grid_start c) = 1" "grid_start c \<le> month_first c" "month_first c \<le> grid_start c + 6"
proof -
  show "weekday_of_day (grid_start c) = 1"
    unfolding weekday_of_day_def grid_start_def by presburger
  have "0 \<le> (weekday_of_day (month_first c) + 6) mod 7" "(weekday_of_day (month_first c) + 6) mod 7 \<le> 6"
    by auto
  then show "grid_start c \<le> month_first c" "month_first c \<le> grid_start c + 6"
    unfolding grid_start_def by linarith+
qed

lemma those_Some_map: "(\<And>x. x \<in> set xs \<Longrightarrow> f x = Some (g x)) \<Longrightarrow> those (map f xs) = Some (map g xs)"
  by (induction xs) auto

lemma month_rows:
  assumes "wf_civil c" "calendar_day (grid_start c)" "calendar_day (grid_start c + 41)"
  shows "calendarMonthRows (civil_text c) =
    Some (map (\<lambda>w. map (\<lambda>d. civil_text (civil_of (grid_start c + (w * 7 + d)))) [0..6]) [0..5])"
proof -
  let ?c1 = "Civil (cyear c) (cmonth c) 1"
  note b = wf_civil_bounds [OF assms(1)]
  have "1 \<le> days_in_month (cyear c) (cmonth c)"
    using days_in_month_bounds [OF b(4,5), of "cyear c"] by linarith
  then have w1: "wf_civil ?c1" by (intro wf_month) (use b in auto)
  have "take 7 (civil_text c) @ ''-01'' = civil_text ?c1"
  proof -
    have "fixed_width 2 1 = ''01''" by code_simp
    moreover have "civil_text c = fixed_width 4 (cyear c) @ ''-'' @ fixed_width 2 (cmonth c) @ ''-'' @ fixed_width 2 (cday c)"
      "civil_text ?c1 = fixed_width 4 (cyear c) @ ''-'' @ fixed_width 2 (cmonth c) @ ''-'' @ fixed_width 2 1"
      using assms(1) civil_text_fixed [of c] civil_text_fixed [of ?c1] by (auto simp: wf_civil_def)
    ultimately show ?thesis
      using fixed_width(1) [of "cyear c" 4] fixed_width(1) [of "cmonth c" 2] b by simp
  qed
  moreover have "month_offset (civil_text ?c1) = Some ((weekday_of_day (month_first c) + 6) mod 7)"
    by (simp add: month_offset_def noon_civil [OF w1] day_of_noon month_first_def)
  moreover have st: "civil_day ?c1 + - ((weekday_of_day (month_first c) + 6) mod 7) = grid_start c"
    by (simp add: grid_start_def month_first_def)
  moreover have "shiftCalendarDays (civil_text ?c1) (- ((weekday_of_day (month_first c) + 6) mod 7)) =
      Some (civil_text (civil_of (grid_start c)))"
    using shift_days [OF w1, of "- ((weekday_of_day (month_first c) + 6) mod 7)"] assms(2) by (simp only: st)
  moreover have "shiftCalendarDays (civil_text (civil_of (grid_start c))) (w * 7 + d) =
      Some (civil_text (civil_of (grid_start c + (w * 7 + d))))" if "w \<in> set [0..5]" "d \<in> set [0..6]" for w d
  proof -
    have "calendar_day (grid_start c + (w * 7 + d))"
      by (rule calendar_day_between [OF assms(2,3)]) (use that in auto)
    then show ?thesis
      using shift_days [OF wf_civil_of [OF assms(2)], of "w * 7 + d"] by (simp add: civil_day_civil_of)
  qed
  then have "those (map (\<lambda>week. those (map (\<lambda>day. shiftCalendarDays (civil_text (civil_of (grid_start c)))
        (week * 7 + day)) [0..6])) [0..5]) =
      Some (map (\<lambda>w. map (\<lambda>d. civil_text (civil_of (grid_start c + (w * 7 + d)))) [0..6]) [0..5])"
    by (intro those_Some_map)
  ultimately show ?thesis
    unfolding calendarMonthRows_def Let_def by simp
qed

section \<open>Properties\<close>

text \<open>C39: The test for a calendar date accepts exactly the texts of the dates that exist: four digits of
  year, a month from 1 to 12 and a day from 1 to the length of that month in that year. The days that
  \<open>Date.parse\<close> would roll into the next month (30 February) are refused.\<close>

theorem calendar_date_exact:
  "isCalendarDate v \<longleftrightarrow> (\<exists>c. wf_civil c \<and> v = civil_text c)"
  by (rule isCalendarDate_iff)

text \<open>Shifting a date by days is exact across months, years and leap days: the result is the text of
  the date whose day number is the old one plus the shift, and shifting back returns the date.\<close>

theorem shift_days_exact:
  assumes "wf_civil c" and "calendar_day (civil_day c + k)"
  shows "shiftCalendarDays (civil_text c) k = Some (civil_text (civil_of (civil_day c + k)))
    \<and> shiftCalendarDays (civil_text (civil_of (civil_day c + k))) (- k) = Some (civil_text c)"
  using shift_days [OF assms] shift_days [OF wf_civil_of [OF assms(2)], of "- k"]
    calendar_day_civil [OF assms(1)]
  by (simp add: civil_day_civil_of civil_of_civil_day [OF assms(1)])

lemma shift_days_exact_witness:
  "shiftCalendarDays ''2024-02-28'' 2 = Some ''2024-03-01'' \<and> shiftCalendarDays ''2024-03-01'' (- 2) = Some ''2024-02-28''"
proof -
  have "wf_civil (Civil 2024 2 28)" "calendar_day (civil_day (Civil 2024 2 28) + 2)"
    "civil_text (Civil 2024 2 28) = ''2024-02-28''"
    "civil_text (civil_of (civil_day (Civil 2024 2 28) + 2)) = ''2024-03-01''"
    by code_simp+
  with shift_days_exact [of "Civil 2024 2 28" 2] show ?thesis by simp
qed

text \<open>Shifting a date by months moves the month and keeps the day, cut to the length of the new month;
  the result is a date that exists. (Years below 100, where \<open>Date.UTC\<close> means 19xx, are excluded; the
  calendar starts in 2000.)\<close>

theorem shift_months_exact:
  assumes "wf_civil c" and "100 \<le> cyear (shift_month c k)" and "cyear (shift_month c k) \<le> 9999"
  shows "shiftCalendarMonths (civil_text c) k = Some (civil_text (shift_month c k)) \<and> wf_civil (shift_month c k)"
  using shift_months [OF assms] by blast

lemma shift_months_exact_witness:
  "shiftCalendarMonths ''2023-12-31'' 2 = Some ''2024-02-29''"
proof -
  have "wf_civil (Civil 2023 12 31)" "shift_month (Civil 2023 12 31) 2 = Civil 2024 2 29"
    "civil_text (Civil 2023 12 31) = ''2023-12-31''" "civil_text (Civil 2024 2 29) = ''2024-02-29''"
    by code_simp+
  with shift_months_exact [of "Civil 2023 12 31" 2] show ?thesis by simp
qed

text \<open>The month grid of the date picker is six weeks of consecutive days. It starts on the Monday on or
  before the first of the month, and the whole month is in it.\<close>

theorem month_grid_complete:
  assumes "wf_civil c" and "calendar_day (grid_start c)" and "calendar_day (grid_start c + 41)"
  shows "calendarMonthRows (civil_text c) =
      Some (map (\<lambda>w. map (\<lambda>d. civil_text (civil_of (grid_start c + (w * 7 + d)))) [0..6]) [0..5])
    \<and> weekday_of_day (grid_start c) = 1
    \<and> grid_start c \<le> month_first c
    \<and> month_first c + days_in_month (cyear c) (cmonth c) - 1 \<le> grid_start c + 41"
proof -
  have "days_in_month (cyear c) (cmonth c) \<le> 31"
    using days_in_month_bounds wf_civil_bounds(4,5) [OF assms(1)] by blast
  with grid_start_monday [of c] month_rows [OF assms] show ?thesis by simp
qed

lemma month_grid_complete_witness:
  "map_option (\<lambda>rows. hd (hd rows)) (calendarMonthRows ''2026-07-15'') = Some ''2026-06-29''"
proof -
  have "wf_civil (Civil 2026 7 15)" "calendar_day (grid_start (Civil 2026 7 15))"
    "calendar_day (grid_start (Civil 2026 7 15) + 41)" "civil_text (Civil 2026 7 15) = ''2026-07-15''"
    "civil_text (civil_of (grid_start (Civil 2026 7 15) + 0)) = ''2026-06-29''"
    by code_simp+
  moreover have "hd [0..6] = (0::int)" "hd [0..5] = (0::int)" "[0..6] \<noteq> ([] :: int list)" "[0..5] \<noteq> ([] :: int list)"
    by code_simp+
  ultimately show ?thesis
    using month_grid_complete [of "Civil 2026 7 15"] by (simp add: hd_map)
qed

text \<open>What the date field shows for a date reads back as that date, and so do the same digits typed
  without the dots.\<close>

theorem date_input_roundtrip:
  assumes "wf_civil c"
  shows "readCalendarInput (displayCalendarDate (civil_text c)) = civil_text c
    \<and> readCalendarInput (fixed_width 2 (cday c) @ fixed_width 2 (cmonth c) @ fixed_width 4 (cyear c)) = civil_text c"
  using display_read [OF assms] by blast

lemma date_input_roundtrip_witness: "readCalendarInput ''15072026'' = ''2026-07-15''"
proof -
  have "wf_civil (Civil 2026 7 15)"
    "fixed_width 2 (cday (Civil 2026 7 15)) @ fixed_width 2 (cmonth (Civil 2026 7 15)) @ fixed_width 4 (cyear (Civil 2026 7 15)) = ''15072026''"
    "civil_text (Civil 2026 7 15) = ''2026-07-15''" by code_simp+
  with date_input_roundtrip [of "Civil 2026 7 15"] show ?thesis by simp
qed

text \<open>Clamping compares dates as texts, and that is the order of the dates: the result is the date
  nearest to the given one within the bounds.\<close>

theorem clamp_is_nearest:
  assumes "wf_civil v" and "wf_civil lo" and "wf_civil hi" and "lo \<le> hi"
  shows "clampCalendarDate (civil_text v) (civil_text lo) (civil_text hi) = civil_text (max lo (min v hi))"
  using assms by (rule clamp_civil)

lemma clamp_is_nearest_witness:
  "clampCalendarDate ''2026-12-31'' MIN_CALENDAR_DATE ''2026-07-15'' = ''2026-07-15''"
proof -
  have "wf_civil (Civil 2026 12 31)" "wf_civil (Civil 2000 1 1)" "wf_civil (Civil 2026 7 15)"
    "Civil 2000 1 1 \<le> Civil 2026 7 15" "civil_text (Civil 2026 12 31) = ''2026-12-31''"
    "civil_text (Civil 2000 1 1) = MIN_CALENDAR_DATE" "civil_text (Civil 2026 7 15) = ''2026-07-15''"
    "max (Civil 2000 1 1) (min (Civil 2026 12 31) (Civil 2026 7 15)) = Civil 2026 7 15"
    by code_simp+
  with clamp_is_nearest [of "Civil 2026 12 31" "Civil 2000 1 1" "Civil 2026 7 15"] show ?thesis by simp
qed

end
