(* ===== verification/TelemetrySeries.thy ===== *)
theory TelemetrySeries
  imports Overview Calendar
begin

text \<open>
  \<open>lib/api/telemetry-series.ts\<close>: the window of a history chart and the validator of the aggregated
  series that answers it.

  The window is computed from the clock and sent as ISO text; the answer must consist of buckets
  that tile the window without a gap. \<open>tiles\<close> states this on milliseconds. The proof needs that ISO
  text reads back as the time it was printed from (\<open>parse_to_iso\<close>).
\<close>

section \<open>The code\<close>

record history_period =
  per_seconds :: int
  per_label :: string
  per_bucket :: int

definition period :: "int \<Rightarrow> string \<Rightarrow> int \<Rightarrow> history_period" where
  "period s l b = \<lparr> per_seconds = s, per_label = l, per_bucket = b \<rparr>"

definition periods :: "history_period list" where
  "periods =
     [period 900 (uk ''15 xvylyn'') 60, period 1800 (uk ''30 xvylyn'') 60, period 3600 (uk ''1 hodyna'') 60,
      period 10800 (uk ''3 hodyny'') 300, period 21600 (uk ''6 hodyn'') 300, period 43200 (uk ''12 hodyn'') 900,
      period 86400 (uk ''24 hodyny'') 900, period 172800 (uk ''2 dni'') 900, period 259200 (uk ''3 dni'') 900,
      period 604800 (uk ''7 dniv'') 3600]"

definition historyBuckets :: "int list" where
  "historyBuckets = [60, 300, 900, 3600, 86400]"

definition seriesChannels :: "overview \<Rightarrow> channel list" where
  "seriesChannels ov =
     filter (\<lambda>c. ch_supports_series c \<and> ch_source c = ''values'' \<and> ch_data_type c = ''number'' \<and> ch_unit c \<noteq> JNull)
       (concat (map md_channels (filter md_supported (ov_modules ov))))"

record series_window =
  win_start :: string
  win_end :: string
  win_bucket :: int

text \<open>\<open>new Date(t).toISOString()\<close>, which throws for a time outside the range of \<open>Date\<close>.\<close>

definition iso_text :: "int \<Rightarrow> string + string" where
  "iso_text t = (case time_clip t of None \<Rightarrow> Inl ''Invalid time value'' | Some u \<Rightarrow> Inr (to_iso u))"

definition seriesWindow :: "jsnum \<Rightarrow> jsnum \<Rightarrow> jsnum \<Rightarrow> string + series_window" where
  "seriesWindow seconds bucket now =
     (let s = num_rat seconds; b = num_rat bucket in
      if \<not> num_integer seconds \<or> s < 1 \<or> 604800 < s \<or> \<not> num_integer bucket \<or> b < 1 \<or> 86400 < b
        \<or> 1000 < \<lceil>s / b\<rceil> \<or> \<not> num_finite now
      then Inl ''Invalid history window''
      else (let e = \<lfloor>num_rat now / 1000\<rfloor> * 1000 in
            bindE (iso_text (e - \<lfloor>s\<rfloor> * 1000)) (\<lambda>start.
            bindE (iso_text e) (\<lambda>stop.
            Inr \<lparr> win_start = start, win_end = stop, win_bucket = \<lfloor>b\<rfloor> \<rparr>))))"

definition ts_path :: string where
  "ts_path = ''/api/v1/devices/telemetry/series''"

definition ts_object :: "json \<Rightarrow> json result" where
  "ts_object raw = (if \<not> isRecord raw then invalidResponse ts_path ''object'' else Inr raw)"

definition ts_count :: "json \<Rightarrow> string \<Rightarrow> int result" where
  "ts_count raw key =
     (let v = fld raw key in
      if \<not> is_safe_integer v \<or> int_of v < 0 then invalidResponse ts_path key else Inr (int_of v))"

definition ts_aggregate :: "json \<Rightarrow> string \<Rightarrow> rat option result" where
  "ts_aggregate raw key =
     (let v = fld raw key in
      if v \<noteq> JNull \<and> \<not> is_finite v then invalidResponse ts_path key
      else Inr (if v = JNull then None else Some (rat_of v)))"

record bucket =
  bk_start :: string
  bk_end :: string
  bk_status :: string
  bk_samples :: int
  bk_missing :: int
  bk_invalid :: int
  bk_minimum :: "rat option"
  bk_maximum :: "rat option"
  bk_average :: "rat option"

record series =
  se_device_id :: string
  se_metric :: string
  se_unit :: json
  se_start :: string
  se_end :: string
  se_bucket_seconds :: int
  se_generated_at :: string
  se_messages :: int
  se_samples :: int
  se_max_messages :: int
  se_buckets :: "bucket list"

definition bucket_status :: "int \<Rightarrow> int \<Rightarrow> int \<Rightarrow> string" where
  "bucket_status samples missing invalid =
     (if samples \<noteq> 0 then (if missing \<noteq> 0 \<or> invalid \<noteq> 0 then ''partial'' else ''ok'')
      else if invalid \<noteq> 0 then ''invalid'' else if missing \<noteq> 0 then ''missing'' else ''empty'')"

text \<open>The milliseconds of a text that was checked with \<open>requiredDateTime\<close>.\<close>

definition ms_of :: "string \<Rightarrow> int" where
  "ms_of s = (case date_parse s of None \<Rightarrow> 0 | Some t \<Rightarrow> t)"

definition aggregates_ok :: "int \<Rightarrow> rat option \<Rightarrow> rat option \<Rightarrow> rat option \<Rightarrow> bool" where
  "aggregates_ok samples minimum maximum average =
     (if samples \<noteq> 0
      then (case (minimum, maximum, average) of (Some lo, Some hi, Some av) \<Rightarrow> lo \<le> av \<and> av \<le> hi | _ \<Rightarrow> False)
      else minimum = None \<and> maximum = None \<and> average = None)"

definition parseBucket :: "int \<Rightarrow> int \<Rightarrow> int \<Rightarrow> nat \<times> json \<Rightarrow> bucket result" where
  "parseBucket start stop bucketMs indexed =
     (let expectedStart = start + int (fst indexed) * bucketMs in
      bindE (ts_object (snd indexed)) (\<lambda>b.
      bindE (requiredDateTime b ''start'' ts_path) (\<lambda>from.
      bindE (requiredDateTime b ''end'' ts_path) (\<lambda>to.
      seqE (reject (ms_of from \<noteq> expectedStart \<or> ms_of to \<noteq> min stop (expectedStart + bucketMs)) ts_path
              ''contiguous bucket bounds'') (
      bindE (ts_count b ''sample_count'') (\<lambda>samples.
      bindE (ts_count b ''missing_count'') (\<lambda>missing.
      bindE (ts_count b ''invalid_count'') (\<lambda>invalid.
      bindE (ts_aggregate b ''minimum'') (\<lambda>minimum.
      bindE (ts_aggregate b ''maximum'') (\<lambda>maximum.
      bindE (ts_aggregate b ''average'') (\<lambda>average.
      seqE (reject (fld b ''status'' \<noteq> JStr (bucket_status samples missing invalid)) ts_path ''coherent bucket status'') (
      seqE (reject (\<not> aggregates_ok samples minimum maximum average) ts_path ''coherent aggregates'') (
      Inr \<lparr> bk_start = from, bk_end = to, bk_status = bucket_status samples missing invalid,
            bk_samples = samples, bk_missing = missing, bk_invalid = invalid,
            bk_minimum = minimum, bk_maximum = maximum, bk_average = average \<rparr>)))))))))))))"

definition bucket_messages :: "bucket \<Rightarrow> int" where
  "bucket_messages b = bk_samples b + bk_missing b + bk_invalid b"

definition parseSeries :: "json \<Rightarrow> string \<Rightarrow> channel \<Rightarrow> series_window \<Rightarrow> series result" where
  "parseSeries raw deviceId channel expected =
     bindE (ts_object raw) (\<lambda>data.
     (let bucketMs = win_bucket expected * 1000; rows = elems (fld data ''buckets'') in
     seqE (reject (fld data ''device_id'' \<noteq> JStr deviceId \<or> fld data ''metric'' \<noteq> JStr (ch_key channel)
             \<or> fld data ''unit'' \<noteq> ch_unit channel \<or> fld data ''time_basis'' \<noteq> JStr ''server_received_at''
             \<or> fld data ''bucket_seconds'' \<noteq> JNum (Fin (of_int (win_bucket expected)))) ts_path
             ''series identity/unit/bucket'') (
     bindE (requiredDateTime data ''start'' ts_path) (\<lambda>start.
     bindE (requiredDateTime data ''end'' ts_path) (\<lambda>stop.
     seqE (reject (ms_of start \<noteq> ms_of (win_start expected) \<or> ms_of stop \<noteq> ms_of (win_end expected)) ts_path
             ''requested time window'') (
     bindE (ts_count data ''message_count'') (\<lambda>messageCount.
     bindE (ts_count data ''sample_count'') (\<lambda>sampleCount.
     bindE (ts_count data ''max_messages'') (\<lambda>maxMessages.
     seqE (reject (maxMessages < 1 \<or> 100000 < maxMessages \<or> maxMessages < messageCount) ts_path ''message budget'') (
     (let len = \<lceil>rat_of_int (ms_of stop - ms_of start) / of_int bucketMs\<rceil> in
     seqE (reject (len < 1 \<or> 1000 < len \<or> \<not> is_array (fld data ''buckets'') \<or> int (length rows) \<noteq> len) ts_path
             ''complete bounded buckets'') (
     bindE (mapE (parseBucket (ms_of start) (ms_of stop) bucketMs) (zip [0..<length rows] rows)) (\<lambda>buckets.
     seqE (reject (sum_list (map bk_samples buckets) \<noteq> sampleCount
             \<or> sum_list (map bucket_messages buckets) \<noteq> messageCount) ts_path ''complete counts'') (
     bindE (requiredDateTime data ''generated_at'' ts_path) (\<lambda>generated.
     Inr \<lparr> se_device_id = deviceId, se_metric = ch_key channel, se_unit = ch_unit channel, se_start = start,
           se_end = stop, se_bucket_seconds = win_bucket expected, se_generated_at = generated,
           se_messages = messageCount, se_samples = sampleCount, se_max_messages = maxMessages,
           se_buckets = buckets \<rparr>)))))))))))))))"

definition bucketLabels :: "(string \<times> string) list" where
  "bucketLabels =
     [(''ok'', uk ''Povni dani''), (''partial'', uk ''>astkovi dani''), (''empty'', uk ''Nema# povidomlen=''),
      (''missing'', uk ''Nema# metryky''), (''invalid'', uk ''Nekorektni dani'')]"

section \<open>What an accepted series says\<close>

definition wf_bucket :: "bucket \<Rightarrow> bool" where
  "wf_bucket b \<longleftrightarrow>
     0 \<le> bk_samples b \<and> 0 \<le> bk_missing b \<and> 0 \<le> bk_invalid b
     \<and> bk_status b = bucket_status (bk_samples b) (bk_missing b) (bk_invalid b)
     \<and> aggregates_ok (bk_samples b) (bk_minimum b) (bk_maximum b) (bk_average b)"

text \<open>The buckets cover \<open>[a, z)\<close> one after the other, each of length \<open>w\<close> but the last, which is cut.\<close>

definition tiles :: "int \<Rightarrow> int \<Rightarrow> int \<Rightarrow> bucket list \<Rightarrow> bool" where
  "tiles a z w bs \<longleftrightarrow>
     bs \<noteq> [] \<and> ms_of (bk_start (hd bs)) = a \<and> ms_of (bk_end (last bs)) = z
     \<and> (\<forall>i. Suc i < length bs \<longrightarrow> ms_of (bk_end (bs ! i)) = ms_of (bk_start (bs ! Suc i))
           \<and> ms_of (bk_end (bs ! i)) = ms_of (bk_start (bs ! i)) + w)
     \<and> (\<forall>b \<in> set bs. ms_of (bk_start b) < ms_of (bk_end b) \<and> ms_of (bk_end b) \<le> ms_of (bk_start b) + w)"

lemma ts_object_ok: "ts_object v = Inr d \<longleftrightarrow> isRecord v \<and> d = v"
  by (auto simp: ts_object_def)

lemma ts_count_ok: "ts_count r k = Inr n \<longleftrightarrow> is_safe_integer (fld r k) \<and> n = int_of (fld r k) \<and> 0 \<le> n"
  by (auto simp: ts_count_def Let_def)

lemma parseBucket_wf:
  assumes "parseBucket a z w (i, raw) = Inr b"
  shows "wf_bucket b \<and> ms_of (bk_start b) = a + int i * w \<and> ms_of (bk_end b) = min z (a + int i * w + w)"
  using assms unfolding parseBucket_def Let_def bindE_ok seqE_ok reject_ok ts_object_ok ts_count_ok sum.inject
  apply (elim exE conjE)
  subgoal premises p
    using p unfolding wf_bucket_def by - (hypsubst, simp)
  done

lemma ceiling_tiles:
  assumes "0 < w" "int n = \<lceil>rat_of_int (z - a) / of_int w\<rceil>" "1 \<le> n" "i < n"
  shows "a + int i * w < z" "Suc i < n \<Longrightarrow> a + int i * w + w < z" "Suc i = n \<Longrightarrow> z \<le> a + int i * w + w"
proof -
  have "of_int (int n - 1) < rat_of_int (z - a) / of_int w" using assms(2) by linarith
  then have "rat_of_int ((int n - 1) * w) < of_int (z - a)"
    using assms(1) by (simp add: pos_less_divide_eq)
  then have lo: "(int n - 1) * w < z - a" by (simp only: of_int_less_iff)
  have "rat_of_int (z - a) / of_int w \<le> of_int (int n)" using assms(2) by linarith
  then have "rat_of_int (z - a) \<le> of_int (int n * w)"
    using assms(1) by (simp add: pos_divide_le_eq)
  then have hi: "z - a \<le> int n * w" by (simp only: of_int_le_iff)
  have m: "int j * w \<le> (int n - 1) * w" if "j < n" for j
    using that assms(1) by (intro mult_right_mono) auto
  show "a + int i * w < z" using lo m [OF assms(4)] by linarith
  show "Suc i < n \<Longrightarrow> a + int i * w + w < z"
    using lo m [of "Suc i"] by (simp add: distrib_right)
  show "Suc i = n \<Longrightarrow> z \<le> a + int i * w + w"
    using hi by (auto simp: distrib_right)
qed

section \<open>ISO text reads back\<close>

lemma read_fraction_ms:
  "length ds = 3 \<Longrightarrow> list_all is_digit ds \<Longrightarrow>
   read_fraction (CHR ''.'' # ds @ ''Z'') = Some (digits_val ds, ''Z'')"
proof -
  assume l: "length ds = 3" and d: "list_all is_digit ds"
  have z: "\<not> is_digit (CHR ''Z'')" by (simp add: is_digit_def)
  have "takeWhile is_digit (ds @ ''Z'') = ds" "dropWhile is_digit (ds @ ''Z'') = ''Z''"
    using d z by (simp_all add: list_all_iff)
  moreover have "ds \<noteq> []" using l by auto
  ultimately show ?thesis using l by (simp add: read_fraction_def)
qed

lemma mixed_radix:
  "(k::int) = q * 1000 + f \<Longrightarrow> q = p * 60 + s \<Longrightarrow> p = h * 60 + m \<Longrightarrow> (h * 60 + m) * 60000 + s * 1000 + f = k"
  by simp

lemma read_field_fixed:
  "0 \<le> n \<Longrightarrow> n < 100 \<Longrightarrow> read_field c 2 (c # fixed_width 2 n @ x) = Some (n, x)"
  using read_field_prefix [of "fixed_width 2 n" 2] fixed_width [of n 2] by simp

lemma read_time_fields:
  assumes "0 \<le> h" "h \<le> 23" "0 \<le> m" "m \<le> 59" "0 \<le> s" "s \<le> 59" "0 \<le> f" "f < 1000"
  shows "read_time (''T'' @ show2 h @ '':'' @ show2 m @ '':'' @ show2 s @ ''.''
      @ pad_start 3 CHR ''0'' (show_int f) @ ''Z'') = Some ((h * 60 + m) * 60000 + s * 1000 + f)"
proof -
  have "read_fraction (CHR ''.'' # fixed_width 3 f @ ''Z'') = Some (f, ''Z'')"
    using read_fraction_ms [of "fixed_width 3 f"] fixed_width [of f 3] assms by simp
  moreover have "read_zone ''Z'' = Some 0" by (simp add: read_zone_def)
  ultimately show ?thesis
    unfolding show2_fixed fixed_width_def [of 3, symmetric]
    using assms by (simp add: read_time_def read_field_fixed)
qed

lemma read_time_iso:
  assumes k: "0 \<le> k" "k < ms_per_day"
  shows "read_time (''T'' @ show2 (k div 3600000) @ '':'' @ show2 (k div 60000 mod 60) @ '':'' @
         show2 (k div 1000 mod 60) @ ''.'' @ pad_start 3 CHR ''0'' (show_int (k mod 1000)) @ ''Z'') = Some k"
proof -
  have "k div 60000 = k div 1000 div 60" "k div 3600000 = k div 60000 div 60"
    by (simp_all add: zdiv_zmult2_eq [symmetric])
  then have e: "(k div 3600000 * 60 + k div 60000 mod 60) * 60000 + k div 1000 mod 60 * 1000 + k mod 1000 = k"
    by (intro mixed_radix [of k "k div 1000" _ "k div 60000"]) (simp_all only: div_mult_mod_eq)
  have b: "0 \<le> k div 3600000" "k div 3600000 \<le> 23" "0 \<le> k div 60000 mod 60" "k div 60000 mod 60 \<le> 59"
    "0 \<le> k div 1000 mod 60" "k div 1000 mod 60 \<le> 59" "0 \<le> k mod 1000" "k mod 1000 < 1000"
    using k by (simp_all add: ms_per_day_def)
  show ?thesis by (rule read_time_fields [OF b, unfolded e])
qed

lemma read_date_civil:
  assumes "wf_civil c"
  shows "read_date (civil_text c @ r) = Some (civil_day c, r)"
proof (rule civil_text_parts [OF assms])
  fix ys ms ds
  assume t: "civil_text c = ys @ ''-'' @ ms @ ''-'' @ ds" and l: "length ys = 4" "length ms = 2" "length ds = 2"
    and g: "list_all is_digit ys" "list_all is_digit ms" "list_all is_digit ds"
    and v: "digits_val ys = cyear c" "digits_val ms = cmonth c" "digits_val ds = cday c"
  show ?thesis
    using read_digits_prefix [OF l(1) g(1)] read_field_prefix [OF l(2) g(2)] read_field_prefix [OF l(3) g(3)]
      wf_civil_bounds [OF assms]
    by (simp add: read_date_def t v civil_day_def)
qed

lemma parse_to_iso:
  assumes "calendar_day (day_of t)"
  shows "date_parse (to_iso t) = Some t"
proof -
  let ?k = "t mod ms_per_day"
  let ?r = "''T'' @ show2 (?k div 3600000) @ '':'' @ show2 (?k div 60000 mod 60) @ '':'' @
         show2 (?k div 1000 mod 60) @ ''.'' @ pad_start 3 CHR ''0'' (show_int (?k mod 1000)) @ ''Z''"
  have k: "0 \<le> ?k" "?k < ms_per_day" by (simp_all add: ms_per_day_def)
  have "to_iso t = civil_text (civil_of (day_of t)) @ ?r"
    by (simp add: to_iso_def Let_def iso_date_def civil_text_def civil_of_def day_of_def)
  moreover have "read_date (civil_text (civil_of (day_of t)) @ ?r) = Some (day_of t, ?r)"
    using read_date_civil [OF wf_civil_of [OF assms]] by (simp only: civil_day_civil_of)
  ultimately have "parse_iso (to_iso t) = Some (day_of t * ms_per_day + ?k)"
    using read_time_iso [OF k] by (simp add: parse_iso_def)
  then show ?thesis by (simp add: date_parse_def day_of_def)
qed

definition series_ok :: "string \<Rightarrow> channel \<Rightarrow> series_window \<Rightarrow> series \<Rightarrow> bool" where
  "series_ok did c win s \<longleftrightarrow>
     se_device_id s = did \<and> se_metric s = ch_key c \<and> se_unit s = ch_unit c
     \<and> (\<forall>b \<in> set (se_buckets s). wf_bucket b)
     \<and> tiles (ms_of (win_start win)) (ms_of (win_end win)) (win_bucket win * 1000) (se_buckets s)
     \<and> length (se_buckets s) \<le> 1000
     \<and> se_samples s = sum_list (map bk_samples (se_buckets s))
     \<and> se_messages s = sum_list (map bucket_messages (se_buckets s))
     \<and> 0 \<le> se_samples s \<and> se_samples s \<le> se_messages s \<and> se_messages s \<le> se_max_messages s
     \<and> se_max_messages s \<le> 100000"

lemma parseSeries_parts:
  assumes "parseSeries raw did c win = Inr s"
  shows "se_device_id s = did \<and> se_metric s = ch_key c \<and> se_unit s = ch_unit c
    \<and> se_messages s \<le> se_max_messages s \<and> se_max_messages s \<le> 100000
    \<and> mapE (parseBucket (ms_of (win_start win)) (ms_of (win_end win)) (win_bucket win * 1000))
       (zip [0..<length (elems (fld raw ''buckets''))] (elems (fld raw ''buckets''))) = Inr (se_buckets s)
    \<and> int (length (elems (fld raw ''buckets''))) =
       \<lceil>rat_of_int (ms_of (win_end win) - ms_of (win_start win)) / of_int (win_bucket win * 1000)\<rceil>
    \<and> 1 \<le> length (elems (fld raw ''buckets'')) \<and> length (elems (fld raw ''buckets'')) \<le> 1000
    \<and> se_samples s = sum_list (map bk_samples (se_buckets s))
    \<and> se_messages s = sum_list (map bucket_messages (se_buckets s))"
  using assms unfolding parseSeries_def Let_def bindE_ok seqE_ok reject_ok ts_object_ok sum.inject
  apply (elim exE conjE)
  subgoal premises p for data start stop mc sc mx buckets generated
  proof -
    have w: "ms_of start = ms_of (win_start win)" "ms_of stop = ms_of (win_end win)"
      using p(6) by simp_all
    have len: "int (length (elems (fld raw ''buckets''))) =
       \<lceil>rat_of_int (ms_of (win_end win) - ms_of (win_start win)) / of_int (win_bucket win * 1000)\<rceil>"
      "1 \<le> int (length (elems (fld raw ''buckets'')))" "int (length (elems (fld raw ''buckets''))) \<le> 1000"
      using p(11) unfolding p(2) w by linarith+
    have m: "mapE (parseBucket (ms_of (win_start win)) (ms_of (win_end win)) (win_bucket win * 1000))
       (zip [0..<length (elems (fld raw ''buckets''))] (elems (fld raw ''buckets''))) = Inr buckets"
      using p(12) unfolding p(2) w by simp
    have b: "mc \<le> mx" "mx \<le> 100000" using p(10) by linarith+
    have c: "sum_list (map bk_samples buckets) = sc" "sum_list (map bucket_messages buckets) = mc"
      using p(13) by simp_all
    have n: "1 \<le> length (elems (fld raw ''buckets''))" "length (elems (fld raw ''buckets'')) \<le> 1000"
      using len(2,3) by linarith+
    have "s = \<lparr> se_device_id = did, se_metric = ch_key c, se_unit = ch_unit c, se_start = start,
           se_end = stop, se_bucket_seconds = win_bucket win, se_generated_at = generated,
           se_messages = mc, se_samples = sc, se_max_messages = mx, se_buckets = buckets \<rparr>"
      using p(15) by (rule sym)
    then show ?thesis using len(1) n m b c by (intro conjI) simp_all
  qed
  done

lemma sum_samples_le: "(\<And>b. b \<in> set bs \<Longrightarrow> wf_bucket b) \<Longrightarrow>
    0 \<le> sum_list (map bk_samples bs) \<and> sum_list (map bk_samples bs) \<le> sum_list (map bucket_messages bs)"
proof (induction bs)
  case (Cons a bs)
  have "wf_bucket a" using Cons.prems by simp
  moreover have "0 \<le> sum_list (map bk_samples bs)
      \<and> sum_list (map bk_samples bs) \<le> sum_list (map bucket_messages bs)"
    using Cons.prems by (intro Cons.IH) simp
  ultimately show ?case
    unfolding wf_bucket_def list.map sum_list.Cons bucket_messages_def [of a] by linarith
qed simp

lemma parseSeries_ok:
  assumes "parseSeries raw did c win = Inr s" and pos: "0 < win_bucket win"
  shows "series_ok did c win s"
proof -
  let ?a = "ms_of (win_start win)" and ?z = "ms_of (win_end win)" and ?w = "win_bucket win * 1000"
  let ?rows = "elems (fld raw ''buckets'')" and ?bs = "se_buckets s"
  note parts = parseSeries_parts [OF assms(1)]
  have m: "mapE (parseBucket ?a ?z ?w) (zip [0..<length ?rows] ?rows) = Inr ?bs" using parts by blast
  have n: "length ?bs = length ?rows" using mapE_length [OF m] by simp
  have b: "wf_bucket (?bs ! i) \<and> ms_of (bk_start (?bs ! i)) = ?a + int i * ?w
      \<and> ms_of (bk_end (?bs ! i)) = min ?z (?a + int i * ?w + ?w)" if "i < length ?bs" for i
  proof -
    have "parseBucket ?a ?z ?w (zip [0..<length ?rows] ?rows ! i) = Inr (?bs ! i)"
      using m that n by (auto simp: mapE_ok list_all2_conv_all_nth)
    then show ?thesis using that n parseBucket_wf [of ?a ?z ?w i "?rows ! i"] by simp
  qed
  have len: "int (length ?bs) = \<lceil>rat_of_int (?z - ?a) / of_int ?w\<rceil>" "1 \<le> length ?bs" using parts n by auto
  have w: "0 < ?w" using pos by simp
  note t = ceiling_tiles [OF w len(1) len(2)]
  have wf: "\<forall>x \<in> set ?bs. wf_bucket x" using b by (metis in_set_conv_nth)
  have ends: "ms_of (bk_end (?bs ! i)) = ?a + int i * ?w + ?w" if "Suc i < length ?bs" for i
    using b [of i] t(2) [of i] that by simp
  have last: "ms_of (bk_end (last ?bs)) = ?z"
  proof -
    have i: "length ?bs - 1 < length ?bs" "Suc (length ?bs - 1) = length ?bs" using len(2) by linarith+
    then have "ms_of (bk_end (?bs ! (length ?bs - 1))) = ?z" using b [OF i(1)] t(3) [OF i] by linarith
    moreover have "?bs \<noteq> []" using len(2) by auto
    ultimately show ?thesis by (metis last_conv_nth)
  qed
  have each: "ms_of (bk_start x) < ms_of (bk_end x) \<and> ms_of (bk_end x) \<le> ms_of (bk_start x) + ?w"
    if x: "x \<in> set ?bs" for x
  proof -
    from x obtain i where i: "i < length ?bs" "x = ?bs ! i" by (metis in_set_conv_nth)
    with b [OF i(1)] t(1) [OF i(1)] w show ?thesis by (simp add: min_def)
  qed
  have "tiles ?a ?z ?w ?bs"
    unfolding tiles_def
  proof (intro conjI allI impI)
    show "?bs \<noteq> []" using len(2) by auto
    then show "ms_of (bk_start (hd ?bs)) = ?a" using b [of 0] by (simp add: hd_conv_nth)
    show "ms_of (bk_end (last ?bs)) = ?z" by (rule last)
    show "\<forall>x \<in> set ?bs. ms_of (bk_start x) < ms_of (bk_end x) \<and> ms_of (bk_end x) \<le> ms_of (bk_start x) + ?w"
      using each by blast
    fix i assume i: "Suc i < length ?bs"
    show "ms_of (bk_end (?bs ! i)) = ms_of (bk_start (?bs ! Suc i))"
      using ends [OF i] b [of "Suc i"] i by (simp add: distrib_right)
    show "ms_of (bk_end (?bs ! i)) = ms_of (bk_start (?bs ! i)) + ?w"
      using ends [OF i] b [of i] i by simp
  qed
  with parts wf n sum_samples_le [of ?bs] show ?thesis
    by (simp add: series_ok_def)
qed

section \<open>Properties\<close>

lemma seriesWindow_ok:
  assumes "seriesWindow (Fin (of_int secs)) (Fin (of_int bucket)) (Fin now) = Inr win"
  defines "z \<equiv> \<lfloor>now / 1000\<rfloor> * 1000"
  shows "win_start win = to_iso (z - secs * 1000) \<and> win_end win = to_iso z \<and> win_bucket win = bucket
    \<and> 1 \<le> bucket"
  using assms by (auto simp: seriesWindow_def Let_def iso_text_def time_clip_def ok_iff split: if_splits)

lemma ms_of_to_iso: "calendar_day (day_of t) \<Longrightarrow> ms_of (to_iso t) = t"
  by (simp add: ms_of_def parse_to_iso)

text \<open>C13: A series accepted for a window computed by \<open>seriesWindow\<close> covers exactly the last \<open>secs\<close>
  seconds before the clock's full second: its buckets are contiguous, each as long as asked but a last shorter
  one, every bucket's status and aggregates agree with its counts, the totals are the sums over the buckets, and
  there are at most a thousand buckets.\<close>

theorem series_tiles_window:
  assumes "seriesWindow (Fin (of_int secs)) (Fin (of_int bucket)) (Fin now) = Inr win"
    and "calendar_day (day_of (\<lfloor>now / 1000\<rfloor> * 1000))" and "calendar_day (day_of (\<lfloor>now / 1000\<rfloor> * 1000 - secs * 1000))"
    and "parseSeries raw deviceId channel win = Inr s"
  shows "tiles (\<lfloor>now / 1000\<rfloor> * 1000 - secs * 1000) (\<lfloor>now / 1000\<rfloor> * 1000) (bucket * 1000) (se_buckets s)
    \<and> (\<forall>b \<in> set (se_buckets s). wf_bucket b) \<and> length (se_buckets s) \<le> 1000
    \<and> se_device_id s = deviceId \<and> se_metric s = ch_key channel
    \<and> se_samples s = sum_list (map bk_samples (se_buckets s))
    \<and> se_messages s = sum_list (map bucket_messages (se_buckets s)) \<and> se_messages s \<le> se_max_messages s"
  using seriesWindow_ok [OF assms(1)] ms_of_to_iso [OF assms(2)] ms_of_to_iso [OF assms(3)]
    parseSeries_ok [OF assms(4)]
  by (simp add: series_ok_def)

definition sample_series_channel :: channel where
  "sample_series_channel = \<lparr> ch_key = ''hum'', ch_source = ''values'', ch_data_type = ''number'', ch_unit = JStr ''%'',
     ch_supports_series = True, ch_status = Missing, ch_value = JNull \<rparr>"

definition sample_int :: "int \<Rightarrow> json" where
  "sample_int n = JNum (Fin (of_int n))"

definition sample_bucket :: "string \<Rightarrow> string \<Rightarrow> int \<Rightarrow> json" where
  "sample_bucket a z n = JObj [(''start'', JStr a), (''end'', JStr z), (''sample_count'', sample_int n),
     (''missing_count'', sample_int 1), (''invalid_count'', sample_int 0),
     (''minimum'', if n = 0 then JNull else sample_int 2), (''maximum'', if n = 0 then JNull else sample_int 4),
     (''average'', if n = 0 then JNull else sample_int 3),
     (''status'', JStr (if n = 0 then ''missing'' else ''partial''))]"

definition sample_series :: json where
  "sample_series = JObj [(''device_id'', JStr ''d''), (''metric'', JStr ''hum''), (''unit'', JStr ''%''),
     (''time_basis'', JStr ''server_received_at''), (''bucket_seconds'', sample_int 60),
     (''start'', JStr ''1970-01-01T00:00:00Z''), (''end'', JStr ''1970-01-01T00:01:30Z''),
     (''message_count'', sample_int 7), (''sample_count'', sample_int 5), (''max_messages'', sample_int 1000),
     (''buckets'', JArr [sample_bucket ''1970-01-01T00:00:00Z'' ''1970-01-01T00:01:00Z'' 5,
                       sample_bucket ''1970-01-01T00:01:00Z'' ''1970-01-01T00:01:30Z'' 0]),
     (''generated_at'', JStr ''1970-01-01T00:01:31Z'')]"

lemma sample_dates:
  "date_parse ''1970-01-01T00:00:00Z'' = Some 0" "date_parse ''1970-01-01T00:01:00Z'' = Some 60000"
  "date_parse ''1970-01-01T00:01:30Z'' = Some 90000" "date_parse ''1970-01-01T00:01:31Z'' = Some 91000"
  "date_parse ''1970-01-01T00:00:00.000Z'' = Some 0" "date_parse ''1970-01-01T00:01:30.000Z'' = Some 90000"
  by code_simp+

lemma sample_ints:
  "is_safe_integer (sample_int n) \<longleftrightarrow> \<bar>n\<bar> \<le> max_safe" "int_of (sample_int n) = n" "is_finite (sample_int n)"
  "rat_of (sample_int n) = of_int n" "sample_int n \<noteq> JNull" "JNum (Fin 60) = sample_int 60"
  by (auto simp: sample_int_def int_of_def)

lemma sample_record: "isRecord (JObj x)"
  by (simp add: isRecord_def)

lemma requiredDateTime_value:
  "fld r k = JStr s \<Longrightarrow> date_parse s = Some t \<Longrightarrow> requiredDateTime r k p = Inr s"
  using requiredDateTime_ok [of r k p s] by simp

lemma ts_count_value: "fld r k = sample_int n \<Longrightarrow> 0 \<le> n \<Longrightarrow> n \<le> max_safe \<Longrightarrow> ts_count r k = Inr n"
  by (simp add: ts_count_def sample_ints Let_def)

lemmas sample_eval = sample_dates sample_ints sample_record requiredDateTime_value ts_count_value ts_object_def
  max_safe_def ms_of_def reject_def

definition sample_window :: series_window where
  "sample_window = \<lparr> win_start = ''1970-01-01T00:00:00.000Z'', win_end = ''1970-01-01T00:01:30.000Z'', win_bucket = 60 \<rparr>"

lemma sample_window_is: "seriesWindow (Fin (of_int 90)) (Fin (of_int 60)) (Fin 90500) = Inr sample_window"
proof -
  have "iso_date 0 = ''1970-01-01''" "show2 0 = ''00''" "show2 1 = ''01''" "show2 30 = ''30''"
    "pad_start 3 CHR ''0'' (show_int 0) = ''000''" by code_simp+
  then have "to_iso 0 = win_start sample_window" "to_iso 90000 = win_end sample_window"
    by (simp_all add: to_iso_def ms_per_day_def sample_window_def)
  moreover have "\<lfloor>90500 / 1000 :: rat\<rfloor> = 90" "\<lceil>90 / 60 :: rat\<rceil> = 2" by code_simp+
  moreover have "Fin (of_int 90) = Fin 90" "Fin (of_int 60) = Fin 60" by simp_all
  moreover have "num_integer (Fin 90)" "num_integer (Fin 60)" by code_simp+
  ultimately show ?thesis by (simp add: seriesWindow_def Let_def iso_text_def time_clip_def sample_window_def)
qed

lemma sample_series_parses: "isOk (parseSeries sample_series ''d'' sample_series_channel sample_window)"
proof -
  have "\<lceil>90000 / 60000 :: rat\<rceil> = 2" by (rule ceiling_unique) simp_all
  then show ?thesis
    by (simp add: parseSeries_def sample_series_def sample_series_channel_def Let_def sample_eval parseBucket_def
        sample_bucket_def ts_aggregate_def bucket_status_def aggregates_ok_def bucket_messages_def upt_rec sample_window_def)
qed

lemma series_tiles_window_witness:
  "\<exists>s. parseSeries sample_series ''d'' sample_series_channel sample_window = Inr s \<and> tiles 0 90000 60000 (se_buckets s)"
proof -
  have "\<lfloor>90500 / 1000 :: rat\<rfloor> = 90" by (rule floor_unique) simp_all
  then have e: "\<lfloor>90500 / 1000 :: rat\<rfloor> * 1000 = 90000" by (simp only:)
  have "day_of 90000 = 0" "day_of (90000 - 90 * 1000) = 0" "calendar_day 0"
    by (simp_all add: day_of_def ms_per_day_def) code_simp
  then have c: "calendar_day (day_of 90000)" "calendar_day (day_of (90000 - 90 * 1000))" by simp_all
  from sample_series_parses obtain s where s: "parseSeries sample_series ''d'' sample_series_channel sample_window = Inr s"
    unfolding isOk_iff by blast
  have "tiles (90000 - 90 * 1000) 90000 (60 * 1000) (se_buckets s)"
    by (rule series_tiles_window [OF sample_window_is, unfolded e, OF c s, THEN conjunct1])
  with s show ?thesis by auto
qed

text \<open>Every period the history panel offers, with its default bucket, is a valid window of at most a
  thousand buckets at any moment of the calendar.\<close>

theorem periods_valid:
  assumes "p \<in> set periods" and "0 \<le> now" and "now \<le> 253402300799000"
  shows "isOk (seriesWindow (Fin (of_int (per_seconds p))) (Fin (of_int (per_bucket p))) (Fin now))
    \<and> per_seconds p \<le> 1000 * per_bucket p \<and> per_bucket p \<in> set historyBuckets"
proof -
  have "\<forall>p \<in> set periods. 1 \<le> per_seconds p \<and> per_seconds p \<le> 604800 \<and> 1 \<le> per_bucket p \<and> per_bucket p \<le> 86400
      \<and> \<lceil>rat_of_int (per_seconds p) / of_int (per_bucket p)\<rceil> \<le> 1000
      \<and> per_seconds p \<le> 1000 * per_bucket p \<and> per_bucket p \<in> set historyBuckets"
    by code_simp
  then have p: "1 \<le> per_seconds p" "per_seconds p \<le> 604800" "1 \<le> per_bucket p" "per_bucket p \<le> 86400"
    "\<lceil>rat_of_int (per_seconds p) / of_int (per_bucket p)\<rceil> \<le> 1000"
    "per_seconds p \<le> 1000 * per_bucket p" "per_bucket p \<in> set historyBuckets" using assms(1) by blast+
  let ?e = "\<lfloor>now / 1000\<rfloor>"
  have "0 \<le> ?e" "?e \<le> 253402300799" using assms(2,3) by (simp_all add: floor_le_iff)
  with p(1,2) have "\<bar>?e * 1000 - per_seconds p * 1000\<bar> \<le> 8640000000000000" "\<bar>?e * 1000\<bar> \<le> 8640000000000000"
    by linarith+
  with p show ?thesis by (simp add: seriesWindow_def Let_def iso_text_def time_clip_def)
qed

lemma periods_valid_witness:
  "isOk (seriesWindow (Fin (of_int 604800)) (Fin (of_int 3600)) (Fin 1782900090500))"
proof -
  have "last periods \<in> set periods" "per_seconds (last periods) = 604800" "per_bucket (last periods) = 3600"
    by (simp_all add: periods_def period_def)
  with periods_valid [of "last periods" 1782900090500] show ?thesis by simp
qed

end
