(* ===== verification/TelemetryChart.thy ===== *)
theory TelemetryChart
  imports TelemetrySeries
begin

text \<open>
  \<open>components/telemetry-chart.tsx\<close>: the geometry of the history chart and its selection.

  The drawing is computed from the buckets and the measured width: the vertical scale (\<open>chart_scale\<close>), the
  paths of the average (\<open>chart_segments\<close>), the bars and points (\<open>chart_marks\<close>) and the axes. The state is the
  width and the start of the selected bucket. Coordinates are exact rationals: the rounding of doubles is not
  modelled, nor the texts made by \<open>Intl\<close>.
\<close>

section \<open>The scale\<close>

text \<open>A bucket with a minimum has a maximum in an accepted series; \<open>null\<close> counts as 0 in arithmetic.\<close>

definition chart_number :: "rat option \<Rightarrow> rat" where
  "chart_number v = (case v of None \<Rightarrow> 0 | Some n \<Rightarrow> n)"

definition chart_values :: "bucket list \<Rightarrow> rat list" where
  "chart_values bs =
     concat (map (\<lambda>b. case bk_minimum b of None \<Rightarrow> [] | Some lo \<Rightarrow> [lo, chart_number (bk_maximum b)]) bs)"

fun js_min_list :: "rat list \<Rightarrow> rat" where
  "js_min_list [] = 0"
| "js_min_list [v] = v"
| "js_min_list (v # w # vs) = min v (js_min_list (w # vs))"

fun js_max_list :: "rat list \<Rightarrow> rat" where
  "js_max_list [] = 0"
| "js_max_list [v] = v"
| "js_max_list (v # w # vs) = max v (js_max_list (w # vs))"

record chart_scale =
  cs_magnitude :: rat
  cs_low :: rat
  cs_high :: rat

definition chart_scale :: "bucket list \<Rightarrow> chart_scale" where
  "chart_scale bs =
     (let vs = chart_values bs; magnitude = js_max_list (1 # map abs vs);
          low = (if vs = [] then 0 else js_min_list (map (\<lambda>n. n / magnitude) vs));
          high = (if vs = [] then 1 else js_max_list (map (\<lambda>n. n / magnitude) vs)) in
      \<lparr> cs_magnitude = magnitude,
        cs_low = (if high = low then max (-1) (low - 1 / 10) else low),
        cs_high = (if high = low then min 1 (high + 1 / 10) else high) \<rparr>)"

definition chart_left :: rat where "chart_left = 70"
definition chart_right :: "int \<Rightarrow> rat" where "chart_right width = of_int width - 16"
definition chart_top :: rat where "chart_top = 20"
definition chart_bottom :: rat where "chart_bottom = 224"

definition chart_y :: "chart_scale \<Rightarrow> rat \<Rightarrow> rat" where
  "chart_y sc n =
     chart_bottom - (n / cs_magnitude sc - cs_low sc) / (cs_high sc - cs_low sc) * (chart_bottom - chart_top)"

definition chart_x :: "int \<Rightarrow> nat \<Rightarrow> nat \<Rightarrow> rat" where
  "chart_x width n index = chart_left + (of_nat index + 1 / 2) / of_nat n * (chart_right width - chart_left)"

section \<open>The drawing\<close>

text \<open>The commands of a path, in the place of the text \<open>Mx,y Lx,y\<close>.\<close>

datatype path_command = MoveTo rat rat | LineTo rat rat

text \<open>The loop over the buckets with its variables \<open>segment\<close>, \<open>segments\<close> and \<open>lastSample\<close>.\<close>

fun chart_loop :: "(nat \<Rightarrow> rat) \<Rightarrow> (rat \<Rightarrow> rat) \<Rightarrow> nat \<Rightarrow> bucket list \<Rightarrow> path_command list \<Rightarrow> path_command list list
    \<Rightarrow> nat \<Rightarrow> path_command list list \<times> nat" where
  "chart_loop x y i [] segment segments lastSample =
     ((if segment \<noteq> [] then segments @ [segment] else segments), lastSample)"
| "chart_loop x y i (b # bs) segment segments lastSample =
     (case bk_average b of
        None \<Rightarrow> chart_loop x y (Suc i) bs [] (if segment \<noteq> [] then segments @ [segment] else segments) lastSample
      | Some a \<Rightarrow> chart_loop x y (Suc i) bs
          (segment @ [if segment \<noteq> [] then LineTo (x i) (y a) else MoveTo (x i) (y a)]) segments i)"

definition chart_segments :: "int \<Rightarrow> bucket list \<Rightarrow> path_command list list \<times> nat" where
  "chart_segments width bs = chart_loop (chart_x width (length bs)) (chart_y (chart_scale bs)) 0 bs [] [] 0"

text \<open>The bar of the range and the point of the average, for a bucket with samples.\<close>

record chart_mark =
  mk_x :: rat
  mk_min :: rat
  mk_max :: rat
  mk_y :: rat
  mk_partial :: bool

definition chart_mark_of :: "int \<Rightarrow> bucket list \<Rightarrow> nat \<times> bucket \<Rightarrow> chart_mark list" where
  "chart_mark_of width bs indexed =
     (let b = snd indexed; y = chart_y (chart_scale bs) in
      case bk_average b of
        None \<Rightarrow> []
      | Some a \<Rightarrow> [\<lparr> mk_x = chart_x width (length bs) (fst indexed), mk_min = y (chart_number (bk_minimum b)),
          mk_max = y (chart_number (bk_maximum b)), mk_y = y a, mk_partial = (bk_status b = ''partial'') \<rparr>])"

definition chart_marks :: "int \<Rightarrow> bucket list \<Rightarrow> chart_mark list" where
  "chart_marks width bs = concat (map (chart_mark_of width bs) (zip [0..<length bs] bs))"

text \<open>The horizontal lines with the values written beside them, the vertical ones with their times.\<close>

definition chart_grid :: "bucket list \<Rightarrow> (rat \<times> rat) list" where
  "chart_grid bs =
     (let sc = chart_scale bs in
      map (\<lambda>i. (chart_bottom - (chart_bottom - chart_top) * of_nat i / 4,
                (cs_low sc + (cs_high sc - cs_low sc) * of_nat i / 4) * cs_magnitude sc)) [0..<5])"

definition chart_time_axis :: "int \<Rightarrow> series \<Rightarrow> (rat \<times> rat) list" where
  "chart_time_axis width s =
     (let steps = (if width < 520 then 2 else 4 :: nat); from = rat_of_int (ms_of (se_start s)); to = of_int (ms_of (se_end s)) in
      map (\<lambda>i. (chart_left + (chart_right width - chart_left) * of_nat i / of_nat steps,
                from + (to - from) * of_nat i / of_nat steps)) [0..<steps + 1])"

section \<open>The selection\<close>

record chart_state =
  cc_width :: int
  cc_selected :: "string option"

definition chart_start :: chart_state where
  "chart_start = \<lparr> cc_width = 800, cc_selected = None \<rparr>"

definition chart_resized :: "rat \<Rightarrow> chart_state \<Rightarrow> chart_state" where
  "chart_resized w st = st\<lparr>cc_width := max 240 (round w)\<rparr>"

fun find_position :: "('a \<Rightarrow> bool) \<Rightarrow> 'a list \<Rightarrow> nat option" where
  "find_position P [] = None"
| "find_position P (x # xs) = (if P x then Some 0 else map_option Suc (find_position P xs))"

definition chart_index :: "bucket list \<Rightarrow> chart_state \<Rightarrow> nat" where
  "chart_index bs st =
     (case find_position (\<lambda>b. Some (bk_start b) = cc_selected st) bs of
        None \<Rightarrow> snd (chart_segments (cc_width st) bs)
      | Some i \<Rightarrow> i)"

definition pointer_index :: "int \<Rightarrow> nat \<Rightarrow> rat \<Rightarrow> rat \<Rightarrow> rat \<Rightarrow> nat" where
  "pointer_index width n clientX boundsLeft boundsWidth =
     (let position = (clientX - boundsLeft) / boundsWidth * of_int width in
      nat (max 0 (min (int n - 1) \<lfloor>(position - chart_left) / (chart_right width - chart_left) * of_nat n\<rfloor>)))"

text \<open>The slider, whose value is kept between 0 and the last bucket by its limits.\<close>

definition chart_slide :: "bucket list \<Rightarrow> nat \<Rightarrow> chart_state \<Rightarrow> chart_state" where
  "chart_slide bs k st = (if k < length bs then st\<lparr>cc_selected := Some (bk_start (bs ! k))\<rparr> else st)"

definition chart_inspect :: "bucket list \<Rightarrow> rat \<Rightarrow> rat \<Rightarrow> rat \<Rightarrow> chart_state \<Rightarrow> chart_state" where
  "chart_inspect bs clientX boundsLeft boundsWidth st =
     chart_slide bs (pointer_index (cc_width st) (length bs) clientX boundsLeft boundsWidth) st"

section \<open>The scale contains the values\<close>

lemma js_min_le: "v \<in> set vs \<Longrightarrow> js_min_list vs \<le> v"
  by (induction vs rule: js_min_list.induct) (auto simp: min_le_iff_disj)

lemma js_max_ge: "v \<in> set vs \<Longrightarrow> v \<le> js_max_list vs"
  by (induction vs rule: js_max_list.induct) (auto simp: le_max_iff_disj)

lemma js_min_in: "vs \<noteq> [] \<Longrightarrow> js_min_list vs \<in> set vs"
  by (induction vs rule: js_min_list.induct) (auto simp: min_def)

lemma js_max_in: "vs \<noteq> [] \<Longrightarrow> js_max_list vs \<in> set vs"
  by (induction vs rule: js_max_list.induct) (auto simp: max_def)

definition scale_ok :: "chart_scale \<Rightarrow> bool" where
  "scale_ok sc \<longleftrightarrow> 1 \<le> cs_magnitude sc \<and> -1 \<le> cs_low sc \<and> cs_low sc < cs_high sc \<and> cs_high sc \<le> 1"

lemma magnitude_ge: "1 \<le> js_max_list (1 # map abs vs)" "v \<in> set vs \<Longrightarrow> \<bar>v\<bar> \<le> js_max_list (1 # map abs vs)"
  using js_max_ge [of _ "1 # map abs vs"] by auto

lemma scaled_bounds:
  assumes "v \<in> set vs"
  shows "-1 \<le> v / js_max_list (1 # map abs vs)" "v / js_max_list (1 # map abs vs) \<le> 1"
  using magnitude_ge(1) [of vs] magnitude_ge(2) [OF assms] by (auto simp: divide_le_eq le_divide_eq abs_le_iff)

lemma scale_holds: "scale_ok (chart_scale bs)"
proof (cases "chart_values bs = []")
  case True
  then show ?thesis by (simp add: scale_ok_def chart_scale_def)
next
  case False
  let ?m = "js_max_list (1 # map abs (chart_values bs))"
  let ?ws = "map (\<lambda>n. n / ?m) (chart_values bs)"
  have b: "-1 \<le> w \<and> w \<le> 1" if "w \<in> set ?ws" for w using that scaled_bounds by auto
  have lo: "js_min_list ?ws \<in> set ?ws" and hi: "js_max_list ?ws \<in> set ?ws"
    using False by (auto intro!: js_min_in js_max_in simp del: set_map)
  then have "js_min_list ?ws \<le> js_max_list ?ws" by (auto intro: js_min_le simp del: set_map)
  with b [OF lo] b [OF hi] False magnitude_ge(1) [of "chart_values bs"] show ?thesis
    by (auto simp: scale_ok_def chart_scale_def Let_def)
qed

lemma scale_contains:
  assumes "v \<in> set (chart_values bs)"
  shows "cs_low (chart_scale bs) \<le> v / cs_magnitude (chart_scale bs)"
    "v / cs_magnitude (chart_scale bs) \<le> cs_high (chart_scale bs)"
proof -
  let ?m = "js_max_list (1 # map abs (chart_values bs))"
  have i: "v / ?m \<in> set (map (\<lambda>n. n / ?m) (chart_values bs))"
    using assms by (simp only: set_map image_eqI [where x = v])
  from js_min_le [OF i] js_max_ge [OF i] scaled_bounds [OF assms] assms
  show "cs_low (chart_scale bs) \<le> v / cs_magnitude (chart_scale bs)"
    "v / cs_magnitude (chart_scale bs) \<le> cs_high (chart_scale bs)"
    by (auto simp: chart_scale_def Let_def)
qed

lemma chart_y_mono:
  assumes "u \<le> v"
  shows "chart_y (chart_scale bs) v \<le> chart_y (chart_scale bs) u"
proof -
  have "u / cs_magnitude (chart_scale bs) \<le> v / cs_magnitude (chart_scale bs)"
    using assms scale_holds [of bs] by (simp add: scale_ok_def divide_right_mono)
  then have "(u / cs_magnitude (chart_scale bs) - cs_low (chart_scale bs)) / (cs_high (chart_scale bs) - cs_low (chart_scale bs))
      \<le> (v / cs_magnitude (chart_scale bs) - cs_low (chart_scale bs)) / (cs_high (chart_scale bs) - cs_low (chart_scale bs))"
    using scale_holds [of bs] by (intro divide_right_mono) (simp_all add: scale_ok_def)
  then show ?thesis unfolding chart_y_def by (intro diff_left_mono mult_right_mono) (simp_all add: chart_bottom_def chart_top_def)
qed

lemma chart_y_bounds:
  assumes "v \<in> set (chart_values bs)"
  shows "chart_top \<le> chart_y (chart_scale bs) v \<and> chart_y (chart_scale bs) v \<le> chart_bottom"
proof -
  let ?sc = "chart_scale bs"
  define f where "f = (v / cs_magnitude ?sc - cs_low ?sc) / (cs_high ?sc - cs_low ?sc)"
  have "0 \<le> f" "f \<le> 1"
    unfolding f_def using scale_contains [OF assms] scale_holds [of bs] by (auto simp: scale_ok_def divide_le_eq)
  then show ?thesis unfolding chart_y_def f_def [symmetric] by (simp add: chart_bottom_def chart_top_def)
qed

lemma grid_true:
  assumes "(position, v) \<in> set (chart_grid bs)"
  shows "chart_y (chart_scale bs) v = position"
proof -
  let ?sc = "chart_scale bs"
  have m: "cs_magnitude ?sc \<noteq> 0" and h: "cs_high ?sc - cs_low ?sc \<noteq> 0"
    using scale_holds [of bs] by (auto simp: scale_ok_def)
  from assms obtain i :: nat where i: "position = chart_bottom - (chart_bottom - chart_top) * of_nat i / 4"
    and v: "v = (cs_low ?sc + (cs_high ?sc - cs_low ?sc) * of_nat i / 4) * cs_magnitude ?sc"
    by (auto simp: chart_grid_def Let_def)
  from m v have "v / cs_magnitude ?sc - cs_low ?sc = (cs_high ?sc - cs_low ?sc) * (of_nat i / 4)" by simp
  then have q: "(v / cs_magnitude ?sc - cs_low ?sc) / (cs_high ?sc - cs_low ?sc) = of_nat i / 4"
    by (simp only: nonzero_mult_div_cancel_left [OF h])
  show ?thesis unfolding chart_y_def q i by simp
qed

lemma wf_bucket_values:
  assumes "wf_bucket b" and "b \<in> set bs" and "bk_average b = Some a"
  obtains lo hi where "bk_minimum b = Some lo" "bk_maximum b = Some hi" "lo \<le> a" "a \<le> hi"
    "lo \<in> set (chart_values bs)" "hi \<in> set (chart_values bs)"
proof -
  from assms(1,3) obtain lo hi where v: "bk_minimum b = Some lo" "bk_maximum b = Some hi" "lo \<le> a" "a \<le> hi"
    by (auto simp: wf_bucket_def aggregates_ok_def split: option.splits if_splits)
  moreover have "{lo, hi} \<subseteq> set (chart_values bs)"
    using v(1,2) assms(2) by (auto simp: chart_values_def chart_number_def intro!: bexI [of _ b])
  ultimately show ?thesis using that by auto
qed

lemma chart_x_inside:
  assumes "240 \<le> width" "i < n"
  shows "chart_left < chart_x width n i \<and> chart_x width n i < chart_right width"
proof -
  define w f where "w = chart_right width - chart_left" and "f = (of_nat i + 1 / 2) / (of_nat n :: rat)"
  have w: "0 < w" using assms(1) by (simp add: w_def chart_right_def chart_left_def)
  have n: "(0::rat) < of_nat n" using assms(2) by simp
  have "of_nat i + 1 \<le> (of_nat n :: rat)" using assms(2) by (metis Suc_leI of_nat_Suc of_nat_mono add.commute)
  then have "0 < f" "f < 1" using n by (auto simp: f_def)
  with w have "0 < f * w" "f * w < w" by simp_all
  then show ?thesis unfolding chart_x_def f_def [symmetric] w_def [symmetric] by (simp add: w_def)
qed

lemma marks_inside:
  assumes "\<forall>b \<in> set bs. wf_bucket b" "240 \<le> width" "m \<in> set (chart_marks width bs)"
  shows "chart_left < mk_x m \<and> mk_x m < chart_right width
    \<and> chart_top \<le> mk_max m \<and> mk_max m \<le> mk_y m \<and> mk_y m \<le> mk_min m \<and> mk_min m \<le> chart_bottom"
proof -
  from assms(3) obtain i where i: "i < length bs" and mi: "m \<in> set (chart_mark_of width bs (i, bs ! i))"
    by (auto simp: chart_marks_def set_zip)
  then obtain b a where i: "i < length bs" "b = bs ! i" "bk_average b = Some a"
    and m: "chart_mark_of width bs (i, b) = [m]"
    by (cases "bk_average (bs ! i)") (auto simp: chart_mark_of_def Let_def)
  then have "b \<in> set bs" by simp
  with assms(1) i(3) obtain lo hi where v: "bk_minimum b = Some lo" "bk_maximum b = Some hi" "lo \<le> a" "a \<le> hi"
    "lo \<in> set (chart_values bs)" "hi \<in> set (chart_values bs)"
    using wf_bucket_values [of b bs a] by blast
  from m i(3) v(1,2) chart_x_inside [OF assms(2) i(1)] chart_y_mono [OF v(3)] chart_y_mono [OF v(4)]
    chart_y_bounds [OF v(5)] chart_y_bounds [OF v(6)]
  show ?thesis by (auto simp: chart_mark_of_def Let_def chart_number_def)
qed

section \<open>What the paths draw\<close>

fun command_point :: "path_command \<Rightarrow> rat \<times> rat" where
  "command_point (MoveTo x y) = (x, y)"
| "command_point (LineTo x y) = (x, y)"

text \<open>The straight lines a path draws.\<close>

fun path_lines :: "path_command list \<Rightarrow> ((rat \<times> rat) \<times> (rat \<times> rat)) list" where
  "path_lines (c # LineTo x y # cs) = (command_point c, (x, y)) # path_lines (LineTo x y # cs)"
| "path_lines (c # MoveTo x y # cs) = path_lines (MoveTo x y # cs)"
| "path_lines _ = []"

lemma path_lines_snoc:
  "cs \<noteq> [] \<Longrightarrow> path_lines (cs @ [LineTo x y]) = path_lines cs @ [(command_point (last cs), (x, y))]"
  by (induction cs rule: path_lines.induct) (auto simp: neq_Nil_conv)

text \<open>The points of the buckets from the \<open>i\<close>-th on, and the lines between neighbours, after a point \<open>prev\<close>.\<close>

fun data_points :: "(nat \<Rightarrow> rat) \<Rightarrow> (rat \<Rightarrow> rat) \<Rightarrow> nat \<Rightarrow> bucket list \<Rightarrow> (rat \<times> rat) list" where
  "data_points x y i [] = []"
| "data_points x y i (b # bs) =
     (case bk_average b of None \<Rightarrow> [] | Some a \<Rightarrow> [(x i, y a)]) @ data_points x y (Suc i) bs"

fun data_lines :: "(nat \<Rightarrow> rat) \<Rightarrow> (rat \<Rightarrow> rat) \<Rightarrow> (rat \<times> rat) option \<Rightarrow> nat \<Rightarrow> bucket list
    \<Rightarrow> ((rat \<times> rat) \<times> (rat \<times> rat)) list" where
  "data_lines x y prev i [] = []"
| "data_lines x y prev i (b # bs) =
     (case bk_average b of
        None \<Rightarrow> data_lines x y None (Suc i) bs
      | Some a \<Rightarrow> (case prev of None \<Rightarrow> [] | Some p \<Rightarrow> [(p, (x i, y a))]) @ data_lines x y (Some (x i, y a)) (Suc i) bs)"

lemma chart_loop_draws:
  "concat (map (map command_point) (fst (chart_loop x y i bs seg segs l)))
     = concat (map (map command_point) segs) @ map command_point seg @ data_points x y i bs
   \<and> concat (map path_lines (fst (chart_loop x y i bs seg segs l)))
     = concat (map path_lines segs) @ path_lines seg
         @ data_lines x y (if seg = [] then None else Some (command_point (last seg))) i bs"
proof (induction bs arbitrary: i seg segs l)
  case (Cons b bs)
  then show ?case by (cases "bk_average b") (simp_all add: path_lines_snoc)
qed simp

lemma data_lines_set:
  "set (data_lines x y prev i bs) =
     {(p, (x i, y a)) | p a. prev = Some p \<and> bs \<noteq> [] \<and> bk_average (hd bs) = Some a}
     \<union> {((x (i + j), y a), (x (i + Suc j), y c)) | j a c. Suc j < length bs
          \<and> bk_average (bs ! j) = Some a \<and> bk_average (bs ! Suc j) = Some c}"
proof (induction bs arbitrary: prev i)
  case (Cons b bs)
  have shift: "{((x (i + j), y a), (x (i + Suc j), y c)) | j a c. Suc j < length (b # bs)
          \<and> bk_average ((b # bs) ! j) = Some a \<and> bk_average ((b # bs) ! Suc j) = Some c}
      = {((x i, y a), (x (Suc i), y c)) | a c. bs \<noteq> [] \<and> bk_average b = Some a \<and> bk_average (hd bs) = Some c}
        \<union> {((x (Suc i + j), y a), (x (Suc i + Suc j), y c)) | j a c. Suc j < length bs
          \<and> bk_average (bs ! j) = Some a \<and> bk_average (bs ! Suc j) = Some c}" (is "?L = ?A \<union> ?B")
  proof (intro set_eqI iffI)
    fix z assume "z \<in> ?L"
    then obtain j a c where z: "z = ((x (i + j), y a), (x (i + Suc j), y c))" "Suc j < length (b # bs)"
      "bk_average ((b # bs) ! j) = Some a" "bk_average ((b # bs) ! Suc j) = Some c" by blast
    show "z \<in> ?A \<union> ?B"
    proof (cases j)
      case 0
      with z show ?thesis by (auto simp: hd_conv_nth)
    next
      case (Suc k)
      with z have "z = ((x (Suc i + k), y a), (x (Suc i + Suc k), y c))" "Suc k < length bs"
        "bk_average (bs ! k) = Some a" "bk_average (bs ! Suc k) = Some c" by auto
      then show ?thesis by blast
    qed
  next
    fix z assume "z \<in> ?A \<union> ?B"
    then show "z \<in> ?L"
    proof
      assume "z \<in> ?A"
      then obtain a c where "z = ((x i, y a), (x (Suc i), y c))" "bs \<noteq> []" "bk_average b = Some a" "bk_average (bs ! 0) = Some c"
        by (auto simp: hd_conv_nth)
      then have "z = ((x (i + 0), y a), (x (i + Suc 0), y c))" "Suc 0 < length (b # bs)"
        "bk_average ((b # bs) ! 0) = Some a" "bk_average ((b # bs) ! Suc 0) = Some c" by auto
      then show ?thesis by blast
    next
      assume "z \<in> ?B"
      then obtain j a c where "z = ((x (Suc i + j), y a), (x (Suc i + Suc j), y c))" "Suc j < length bs"
        "bk_average (bs ! j) = Some a" "bk_average (bs ! Suc j) = Some c" by blast
      then have "z = ((x (i + Suc j), y a), (x (i + Suc (Suc j)), y c))" "Suc (Suc j) < length (b # bs)"
        "bk_average ((b # bs) ! Suc j) = Some a" "bk_average ((b # bs) ! Suc (Suc j)) = Some c" by auto
      then show ?thesis by blast
    qed
  qed
  show ?case
  proof (cases "bk_average b")
    case None
    then show ?thesis unfolding shift by (simp add: Cons.IH)
  next
    case (Some v)
    then show ?thesis unfolding shift by (auto simp: Cons.IH split: option.splits)
  qed
qed simp

lemma marks_points:
  "map (\<lambda>m. (mk_x m, mk_y m)) (chart_marks width bs) = data_points (chart_x width (length bs)) (chart_y (chart_scale bs)) 0 bs"
proof -
  have "map (\<lambda>m. (mk_x m, mk_y m)) (concat (map (chart_mark_of width bs) (zip [i..<i + length cs] cs)))
      = data_points (chart_x width (length bs)) (chart_y (chart_scale bs)) i cs" for i cs
  proof (induction cs arbitrary: i)
    case (Cons c cs)
    have "[i..<i + length (c # cs)] = i # [Suc i..<Suc i + length cs]" by (simp add: upt_conv_Cons del: upt_Suc)
    with Cons [of "Suc i"] show ?case
      by (simp only: zip_Cons_Cons list.map concat.simps map_append data_points.simps)
        (simp add: chart_mark_of_def Let_def split: option.splits)
  qed simp
  from this [of 0 bs] show ?thesis by (simp add: chart_marks_def)
qed

section \<open>What is selected\<close>

inductive chart_reachable :: "chart_state \<Rightarrow> bool" where
  reach_start: "chart_reachable chart_start"
| reach_resized: "chart_reachable st \<Longrightarrow> chart_reachable (chart_resized w st)"
| reach_slide: "chart_reachable st \<Longrightarrow> chart_reachable (chart_slide bs k st)"
| reach_inspect: "chart_reachable st \<Longrightarrow> chart_reachable (chart_inspect bs clientX l w st)"

lemma slide_width [simp]: "cc_width (chart_slide bs k st) = cc_width st"
  by (simp add: chart_slide_def)

lemma chart_width: "chart_reachable st \<Longrightarrow> 240 \<le> cc_width st"
  by (induction rule: chart_reachable.induct) (simp_all add: chart_start_def chart_resized_def chart_inspect_def)

lemma loop_last: "snd (chart_loop x y i bs seg segs l) = l \<or>
    (i \<le> snd (chart_loop x y i bs seg segs l) \<and> snd (chart_loop x y i bs seg segs l) < i + length bs)"
proof (induction bs arbitrary: i seg segs l)
  case (Cons b bs)
  show ?case
  proof (cases "bk_average b")
    case None
    then show ?thesis using Cons [of "Suc i" "[]" "if seg \<noteq> [] then segs @ [seg] else segs" l] by auto
  next
    case (Some a)
    then show ?thesis
      using Cons [of "Suc i" "seg @ [if seg \<noteq> [] then LineTo (x i) (y a) else MoveTo (x i) (y a)]" segs i] by auto
  qed
qed simp

lemma find_position_bound: "find_position P xs = Some i \<Longrightarrow> i < length xs \<and> P (xs ! i)"
  by (induction xs arbitrary: i) (auto split: if_splits)

lemma find_position_unique:
  "i < length xs \<Longrightarrow> P (xs ! i) \<Longrightarrow> (\<And>j. j < length xs \<Longrightarrow> P (xs ! j) \<Longrightarrow> j = i) \<Longrightarrow> find_position P xs = Some i"
proof (induction xs arbitrary: i)
  case (Cons x xs)
  show ?case
  proof (cases i)
    case 0
    with Cons.prems show ?thesis by simp
  next
    case (Suc k)
    with Cons.prems(3) [of 0] have "\<not> P x" by auto
    moreover have "find_position P xs = Some k"
    proof (rule Cons.IH)
      show "j = k" if "j < length xs" "P (xs ! j)" for j using Cons.prems(3) [of "Suc j"] that Suc by simp
    qed (use Cons.prems Suc in auto)
    ultimately show ?thesis using Suc by simp
  qed
qed simp

lemma chart_index_bound: "bs \<noteq> [] \<Longrightarrow> chart_index bs st < length bs"
  using loop_last [of "chart_x (cc_width st) (length bs)" "chart_y (chart_scale bs)" 0 bs "[]" "[]" 0]
  by (auto simp: chart_index_def chart_segments_def split: option.splits dest: find_position_bound)

lemma tiles_start:
  assumes "tiles a z w bs" "i < length bs"
  shows "ms_of (bk_start (bs ! i)) = a + int i * w"
  using assms(2)
proof (induction i)
  case 0
  with assms(1) show ?case by (auto simp: tiles_def hd_conv_nth)
next
  case (Suc i)
  from assms(1) Suc.prems have "ms_of (bk_end (bs ! i)) = ms_of (bk_start (bs ! Suc i))"
    "ms_of (bk_end (bs ! i)) = ms_of (bk_start (bs ! i)) + w" unfolding tiles_def by blast+
  with Suc show ?case by (simp add: algebra_simps)
qed

lemma tiles_distinct:
  assumes "tiles a z w bs" "i < length bs" "j < length bs" "bk_start (bs ! j) = bk_start (bs ! i)"
  shows "j = i"
proof -
  have "bs ! i \<in> set bs" using assms(2) by simp
  with assms(1) have "0 < w" by (force simp: tiles_def)
  moreover have "int i * w = int j * w" using tiles_start [OF assms(1,2)] tiles_start [OF assms(1,3)] assms(4) by simp
  ultimately show ?thesis by simp
qed

lemma slide_selects:
  assumes "tiles a z w bs" "i < length bs"
  shows "chart_index bs (chart_slide bs i st) = i"
proof -
  have "find_position (\<lambda>b. Some (bk_start b) = cc_selected (chart_slide bs i st)) bs = Some i"
    by (rule find_position_unique) (use assms in \<open>auto simp: chart_slide_def intro: tiles_distinct\<close>)
  then show ?thesis by (simp add: chart_index_def)
qed

lemma pointer_column:
  assumes "240 \<le> width" "i < n"
    and "chart_left + of_nat i / of_nat n * (chart_right width - chart_left) \<le> (clientX - l) / w * of_int width"
    and "(clientX - l) / w * of_int width < chart_left + of_nat (Suc i) / of_nat n * (chart_right width - chart_left)"
  shows "pointer_index width n clientX l w = i"
proof -
  define d p where "d = chart_right width - chart_left" and "p = (clientX - l) / w * of_int width"
  have d: "0 < d" using assms(1) by (simp add: d_def chart_right_def chart_left_def)
  have n: "(0::rat) < of_nat n" using assms(2) by simp
  have "of_nat i / of_nat n \<le> (p - chart_left) / d" "(p - chart_left) / d < of_nat (Suc i) / of_nat n"
    using assms(3,4) d unfolding d_def [symmetric] p_def [symmetric]
    by (simp_all only: pos_le_divide_eq pos_divide_less_eq)
  then have "of_nat i \<le> (p - chart_left) / d * of_nat n" "(p - chart_left) / d * of_nat n < of_nat (Suc i)"
    using n by (simp_all only: pos_divide_le_eq pos_less_divide_eq)
  then have "\<lfloor>(p - chart_left) / d * of_nat n\<rfloor> = int i" by (intro floor_unique) auto
  with assms(2) show ?thesis by (simp add: pointer_index_def Let_def d_def p_def)
qed

section \<open>Properties\<close>


text \<open>The pointer selects what is under it: after any resizes and selections, on any accepted series, pressing
  anywhere in the column of a bucket makes that bucket the selected one, moving the slider to a position selects the
  bucket at that position, and the bucket whose values are shown always exists.\<close>

theorem chart_selects:
  assumes "chart_reachable st"
    and "seriesWindow (Fin (of_int secs)) (Fin (of_int bucket)) (Fin now) = Inr win"
    and "parseSeries raw deviceId channel win = Inr s" and "i < length (se_buckets s)"
    and "chart_left + of_nat i / of_nat (length (se_buckets s)) * (chart_right (cc_width st) - chart_left)
      \<le> (clientX - boundsLeft) / boundsWidth * of_int (cc_width st)"
    and "(clientX - boundsLeft) / boundsWidth * of_int (cc_width st)
      < chart_left + of_nat (Suc i) / of_nat (length (se_buckets s)) * (chart_right (cc_width st) - chart_left)"
  shows "chart_index (se_buckets s) (chart_inspect (se_buckets s) clientX boundsLeft boundsWidth st) = i
    \<and> chart_index (se_buckets s) (chart_slide (se_buckets s) i st) = i
    \<and> chart_index (se_buckets s) st < length (se_buckets s)"
proof -
  have t: "tiles (ms_of (win_start win)) (ms_of (win_end win)) (win_bucket win * 1000) (se_buckets s)"
    using seriesWindow_ok [OF assms(2)] parseSeries_ok [OF assms(3)] by (simp add: series_ok_def)
  have "pointer_index (cc_width st) (length (se_buckets s)) clientX boundsLeft boundsWidth = i"
    by (rule pointer_column [OF chart_width [OF assms(1)] assms(4-6)])
  moreover have "se_buckets s \<noteq> []" using assms(4) by auto
  ultimately show ?thesis using slide_selects [OF t assms(4)] chart_index_bound by (simp add: chart_inspect_def)
qed

lemma sample_series_length:
  assumes "parseSeries sample_series ''d'' sample_series_channel sample_window = Inr s"
  shows "length (se_buckets s) = 2"
proof -
  have "\<lceil>90000 / 60000 :: rat\<rceil> = 2" by (rule ceiling_unique) simp_all
  with assms show ?thesis
    by (auto simp: parseSeries_def sample_series_def sample_series_channel_def Let_def sample_eval parseBucket_def
        sample_bucket_def ts_aggregate_def bucket_status_def aggregates_ok_def bucket_messages_def upt_rec sample_window_def)
qed


lemma chart_selects_witness:
  "\<exists>s. parseSeries sample_series ''d'' sample_series_channel sample_window = Inr s
     \<and> chart_index (se_buckets s) (chart_inspect (se_buckets s) 200 0 400 chart_start) = 0"
proof -
  from sample_series_parses obtain s where s: "parseSeries sample_series ''d'' sample_series_channel sample_window = Inr s"
    unfolding isOk_iff by blast
  from chart_selects [OF reach_start sample_window_is s, of 0 200 0 400] s sample_series_length [OF s] show ?thesis
    by (auto simp: chart_left_def chart_right_def chart_start_def)
qed

end
