(* ===== verification/TimeInput.thy ===== *)
theory TimeInput
  imports Access Numerals Programs Calendar
begin

text \<open>
  \<open>lib/time-input.ts\<close> and \<open>lib/schedule-validation.ts\<close>: the time of day as the user types it, and the
  checks of the schedule form on the start, the changes and the stop of one run.

  \<open>timing_ok\<close> states what the checks are for: one strictly increasing sequence of minutes from the
  start over the changes to the stop, of at most 7 days.
\<close>

section \<open>The code\<close>

text \<open>The two groups of \<open>/^(\d{1,2}):(\d{2})(?::00)?$/\<close>, or of the form without a colon.\<close>

definition colon_parts :: "string \<Rightarrow> (string \<times> string) option" where
  "colon_parts input =
     (let (h, r) = split_digits input; m = take 2 (tl r); z = drop 3 r in
      if 1 \<le> length h \<and> length h \<le> 2 \<and> r \<noteq> [] \<and> hd r = CHR '':'' \<and> length m = 2 \<and> list_all is_digit m
        \<and> (z = [] \<or> z = '':00'')
      then Some (h, m) else None)"

definition bare_parts :: "bool \<Rightarrow> string \<Rightarrow> (string \<times> string) option" where
  "bare_parts whole input =
     (let k = length input - 2 in
      if list_all is_digit input \<and> (length input = 4 \<or> (whole \<and> length input = 3))
      then Some (take k input, drop k input) else None)"

definition time_parts :: "bool \<Rightarrow> string \<Rightarrow> (string \<times> string) option" where
  "time_parts whole input =
     (case colon_parts input of None \<Rightarrow> bare_parts whole input | Some p \<Rightarrow> Some p)"

definition normalizeTimeInput :: "bool \<Rightarrow> string \<Rightarrow> string" where
  "normalizeTimeInput whole value =
     (case time_parts whole (js_trim value) of
        None \<Rightarrow> value
      | Some (h, m) \<Rightarrow>
          if 23 < digits_val h \<or> 59 < digits_val m then value
          else pad_start 2 (CHR ''0'') h @ '':'' @ m)"

text \<open>\<open>/^(?:[01]\d|2[0-3]):[0-5]\d$/\<close>\<close>

definition is_clock :: "string \<Rightarrow> bool" where
  "is_clock s =
     (length s = 5 \<and> is_digit (s ! 0) \<and> is_digit (s ! 1) \<and> s ! 2 = CHR '':'' \<and> is_digit (s ! 3) \<and> is_digit (s ! 4)
      \<and> (s ! 0 \<in> set ''01'' \<or> (s ! 0 = CHR ''2'' \<and> s ! 1 \<in> set ''0123'')) \<and> s ! 3 \<in> set ''012345'')"

definition timeInputError :: "string \<Rightarrow> string" where
  "timeInputError value =
     (if value = [] then uk ''Vka*it= ^as.''
      else if is_clock (normalizeTimeInput True value) then []
      else uk ''Vka*it= ^as vid 00:00 do 23:59, napryklad 6:00 abo 06:00.'')"

definition minuteOfDay :: "string \<Rightarrow> int option" where
  "minuteOfDay value =
     (if timeInputError value \<noteq> [] then None
      else (case split_on (CHR '':'') (normalizeTimeInput True value) of
              h # m # _ \<Rightarrow> Some (digits_val h * 60 + digits_val m)
            | _ \<Rightarrow> None))"

record schedule_change =
  chg_at :: string
  chg_day_offset :: int
  chg_frequency :: rat

record schedule_spec =
  sp_name :: string
  sp_timezone :: string
  sp_start_date :: string
  sp_until_date :: string
  sp_start_time :: string
  sp_stop_time :: string
  sp_stop_day_offset :: int
  sp_frequency :: rat
  sp_repeat :: string
  sp_weekdays :: "int list"
  sp_interval_days :: int
  sp_month_day :: int
  sp_months :: "int list"
  sp_excluded_dates :: "string list"
  sp_changes :: "schedule_change list"

definition scheduleDayLabels :: "string list" where
  "scheduleDayLabels =
     [uk ''Toho samoho dn@'', uk ''Nastupnoho dn@'', uk ''>erez 2 dni'', uk ''>erez 3 dni'', uk ''>erez 4 dni'',
      uk ''>erez 5 dniv'', uk ''>erez 6 dniv'', uk ''>erez 7 dniv'']"

text \<open>\<open>toLocaleLowerCase("uk-UA")\<close> on the capital letters of the Ukrainian alphabet.\<close>

fun lower_uk :: "string \<Rightarrow> string" where
  "lower_uk (a # b # cs) =
     (let x = of_char a :: nat; y = of_char b :: nat in
      if x = 208 \<and> 144 \<le> y \<and> y \<le> 159 then a # char_of (y + 32) # lower_uk cs
      else if x = 208 \<and> 160 \<le> y \<and> y \<le> 175 then CHR 0xD1 # char_of (y - 32) # lower_uk cs
      else if x = 208 \<and> (y = 132 \<or> y = 134 \<or> y = 135) then CHR 0xD1 # char_of (y + 16) # lower_uk cs
      else if x = 210 \<and> y = 144 then a # CHR 0x91 # lower_uk cs
      else char_lower a # lower_uk (b # cs))"
| "lower_uk cs = map char_lower cs"

definition pointLabel :: "int \<Rightarrow> string" where
  "pointLabel minutes =
     (let day = minutes div 1440;
          time = pad_start 2 (CHR ''0'') (show_int (minutes mod 1440 div 60)) @ '':'' @
                 pad_start 2 (CHR ''0'') (show_int (minutes mod 60));
          label = (if 0 \<le> day \<and> nat day < length scheduleDayLabels
                   then lower_uk (scheduleDayLabels ! nat day) else ''undefined'')
      in time @ '' ('' @ label @ '')'')"

definition normalizeScheduleTimes :: "schedule_spec \<Rightarrow> schedule_spec" where
  "normalizeScheduleTimes spec =
     spec\<lparr>sp_start_time := normalizeTimeInput True (sp_start_time spec),
          sp_stop_time := normalizeTimeInput True (sp_stop_time spec),
          sp_changes := map (\<lambda>c. c\<lparr>chg_at := normalizeTimeInput True (chg_at c)\<rparr>) (sp_changes spec)\<rparr>"

record timing_errors =
  te_stop :: string
  te_changes :: "string list"

definition msg_change :: string where
  "msg_change = uk ''Zmina ''"

definition msg_stop_early :: string where
  "msg_stop_early =
     uk ''Zupynka ma# buty qonajmenwe ^erez 1 xv pisl@ zapusku. Dl@ roboty ^erez pivni^ oberit= nastupnyj den= zupynky.''"

definition msg_stop_late :: string where
  "msg_stop_late = uk ''Odyn zapusk mo*e tryvaty ne bil=we 7 dib (168 hodyn).''"

definition changeError :: "int \<Rightarrow> int \<Rightarrow> nat \<Rightarrow> int option \<Rightarrow> int \<Rightarrow> string" where
  "changeError start stop index previous point =
     (if stop \<le> point then
        msg_change @ show_nat (index + 1) @ uk '' o '' @ pointLabel point @ uk '' ma# buty raniwe zupynky o '' @
        pointLabel stop @ uk '', qonajmenwe na 1 xv.''
      else if point \<le> start then
        msg_change @ show_nat (index + 1) @ uk '' ma# buty qonajmenwe ^erez 1 xv pisl@ zapusku o '' @
        pointLabel start @ ''.''
      else (case previous of
              Some p \<Rightarrow>
                if point \<le> p then
                  msg_change @ show_nat (index + 1) @
                  uk '' ma# buty qonajmenwe ^erez 1 xv pisl@ poperedn=o~ zminy o '' @ pointLabel p @ ''.''
                else []
            | None \<Rightarrow> []))"

text \<open>The loop over the changes, with its variable \<open>previous\<close>.\<close>

fun changeErrors :: "int \<Rightarrow> int \<Rightarrow> nat \<Rightarrow> int option \<Rightarrow> schedule_change list \<Rightarrow> string list" where
  "changeErrors start stop index previous [] = []"
| "changeErrors start stop index previous (c # cs) =
     (case minuteOfDay (chg_at c) of
        None \<Rightarrow> [] # changeErrors start stop (Suc index) None cs
      | Some time \<Rightarrow>
          (let point = chg_day_offset c * 1440 + time
           in changeError start stop index previous point # changeErrors start stop (Suc index) (Some point) cs))"

definition scheduleTimingErrors :: "schedule_spec \<Rightarrow> timing_errors" where
  "scheduleTimingErrors spec =
     (let none = map (\<lambda>_. []) (sp_changes spec) in
      case (minuteOfDay (sp_start_time spec), minuteOfDay (sp_stop_time spec)) of
        (Some start, Some stopTime) \<Rightarrow>
          (let stop = sp_stop_day_offset spec * 1440 + stopTime in
           if stop - start < 1 then
             \<lparr> te_stop = msg_stop_early,
               te_changes = none \<rparr>
           else if MAX_SCHEDULE_SECONDS div 60 < stop - start then
             \<lparr> te_stop = msg_stop_late, te_changes = none \<rparr>
           else \<lparr> te_stop = [], te_changes = changeErrors start stop 0 (Some start) (sp_changes spec) \<rparr>)
      | _ \<Rightarrow> \<lparr> te_stop = [], te_changes = none \<rparr>)"

section \<open>Times of day\<close>

definition time_text :: "int \<Rightarrow> int \<Rightarrow> string" where
  "time_text h m = fixed_width 2 h @ '':'' @ fixed_width 2 m"

definition in_day :: "int \<Rightarrow> int \<Rightarrow> bool" where
  "in_day h m \<longleftrightarrow> 0 \<le> h \<and> h < 24 \<and> 0 \<le> m \<and> m < 60"

lemma digits_eq:
  "length a = length b \<Longrightarrow> list_all is_digit a \<Longrightarrow> list_all is_digit b \<Longrightarrow> digits_val a = digits_val b \<Longrightarrow> a = b"
  using str_lt_digits [of a b] str_lt_digits [of b a] str_lt_total [of a b] by simp

lemma fixed_of_digits:
  assumes "length s = k" "list_all is_digit s" "1 \<le> k"
  shows "fixed_width k (digits_val s) = s"
  using digits_val_bounds [OF assms(2)] fixed_width [of "digits_val s" k] assms by (intro digits_eq) auto

lemma digit_char_val: "is_digit c \<Longrightarrow> c = digit_char (nat (digit_val c)) \<and> 0 \<le> digit_val c \<and> digit_val c \<le> 9"
proof -
  assume d: "is_digit c"
  then have "48 + nat (int (of_char c) - 48) = of_char c" by (simp add: is_digit_def Let_def) linarith
  then have "digit_char (nat (digit_val c)) = char_of (of_char c :: nat)"
    by (simp only: digit_char_def digit_val_def)
  with d show ?thesis by (simp add: is_digit_def digit_val_def Let_def)
qed

lemma digit_low:
  assumes "is_digit c"
  shows "c \<in> set ''01'' \<longleftrightarrow> digit_val c \<le> 1" "c = CHR ''2'' \<longleftrightarrow> digit_val c = 2"
    "c \<in> set ''0123'' \<longleftrightarrow> digit_val c \<le> 3" "c \<in> set ''012345'' \<longleftrightarrow> digit_val c \<le> 5"
proof -
  have e: "c = d \<longleftrightarrow> digit_val c = digit_val d" for d by (simp add: digit_val_def)
  have v: "digit_val (CHR ''0'') = 0" "digit_val (CHR ''1'') = 1" "digit_val (CHR ''2'') = 2"
    "digit_val (CHR ''3'') = 3" "digit_val (CHR ''4'') = 4" "digit_val (CHR ''5'') = 5"
    by (simp_all add: digit_val_def)
  show "c \<in> set ''01'' \<longleftrightarrow> digit_val c \<le> 1" "c = CHR ''2'' \<longleftrightarrow> digit_val c = 2"
    "c \<in> set ''0123'' \<longleftrightarrow> digit_val c \<le> 3" "c \<in> set ''012345'' \<longleftrightarrow> digit_val c \<le> 5"
    using digit_char_val [OF assms] by (auto simp: e v)
qed

lemma two_digits: "digits_val [a, b] = 10 * digit_val a + digit_val b"
  by (simp add: digits_val_def)

lemma length_two: "length s = 2 \<longleftrightarrow> (\<exists>a b. s = [a, b])"
  by (cases s; cases "tl s") auto

lemma is_clock_iff: "is_clock s \<longleftrightarrow> (\<exists>h m. in_day h m \<and> s = time_text h m)"
proof
  assume c: "is_clock s"
  then obtain a b x y where s: "s = [a, b, CHR '':'', x, y]"
    by (auto simp: is_clock_def length_Suc_conv eval_nat_numeral)
  from c have d: "is_digit a" "is_digit b" "is_digit x" "is_digit y"
    and lo: "a \<in> set ''01'' \<or> (a = CHR ''2'' \<and> b \<in> set ''0123'')" "x \<in> set ''012345''"
    unfolding is_clock_def s by auto
  note v = digit_char_val [OF d(1)] digit_char_val [OF d(2)] digit_char_val [OF d(3)] digit_char_val [OF d(4)]
  have "in_day (digits_val [a, b]) (digits_val [x, y])"
    using lo v unfolding digit_low [OF d(1)] digit_low [OF d(2)] digit_low [OF d(3)] in_day_def two_digits by auto
  moreover have "s = time_text (digits_val [a, b]) (digits_val [x, y])"
    using fixed_of_digits [of "[a, b]" 2] fixed_of_digits [of "[x, y]" 2] d by (simp add: time_text_def s)
  ultimately show "\<exists>h m. in_day h m \<and> s = time_text h m" by blast
next
  assume "\<exists>h m. in_day h m \<and> s = time_text h m"
  then obtain h m where r: "in_day h m" and s: "s = time_text h m" by blast
  have fh: "length (fixed_width 2 h) = 2" "list_all is_digit (fixed_width 2 h)" "digits_val (fixed_width 2 h) = h"
    and fm: "length (fixed_width 2 m) = 2" "list_all is_digit (fixed_width 2 m)" "digits_val (fixed_width 2 m) = m"
    using r fixed_width [of h 2] fixed_width [of m 2] by (auto simp: in_day_def)
  from fh(1) fm(1) obtain a b x y where w: "fixed_width 2 h = [a, b]" "fixed_width 2 m = [x, y]"
    unfolding length_two by blast
  have d: "is_digit a" "is_digit b" "is_digit x" "is_digit y" using fh(2) fm(2) by (simp_all add: w)
  note v = digit_char_val [OF d(1)] digit_char_val [OF d(2)] digit_char_val [OF d(3)] digit_char_val [OF d(4)]
  have "a \<in> set ''01'' \<or> (a = CHR ''2'' \<and> b \<in> set ''0123'')" "x \<in> set ''012345''"
    using r fh(3) fm(3) v
    unfolding digit_low [OF d(1)] digit_low [OF d(2)] digit_low [OF d(3)] in_day_def w two_digits by linarith+
  then show "is_clock s"
    using d by (simp add: is_clock_def s time_text_def w)
qed

lemma split_time: 
  assumes "in_day h m"
  shows "split_on (CHR '':'') (time_text h m) = [fixed_width 2 h, fixed_width 2 m]"
    "digits_val (fixed_width 2 h) = h" "digits_val (fixed_width 2 m) = m"
proof -
  have f: "list_all is_digit (fixed_width 2 h)" "list_all is_digit (fixed_width 2 m)"
    using assms fixed_width [of h 2] fixed_width [of m 2] by (auto simp: in_day_def)
  have "CHR '':'' \<notin> set (fixed_width 2 h)" "CHR '':'' \<notin> set (fixed_width 2 m)"
    using f digit_not by (auto simp: list_all_iff)
  then show "split_on (CHR '':'') (time_text h m) = [fixed_width 2 h, fixed_width 2 m]"
    by (simp add: time_text_def split_on_append split_on_word)
  show "digits_val (fixed_width 2 h) = h" "digits_val (fixed_width 2 m) = m"
    using assms fixed_width [of h 2] fixed_width [of m 2] by (auto simp: in_day_def)
qed

lemma normalize_Nil: "normalizeTimeInput True [] = []"
  by code_simp

lemma msg_times: "timeInputError v = [] \<longleftrightarrow> is_clock (normalizeTimeInput True v)"
proof -
  have "timeInputError [] \<noteq> []" "timeInputError ''x'' \<noteq> []" "\<not> is_clock (normalizeTimeInput True ''x'')"
    "\<not> is_clock []" by code_simp+
  then show ?thesis using normalize_Nil by (auto simp: timeInputError_def split: if_splits)
qed

lemma minuteOfDay_iff:
  "minuteOfDay v = Some n \<longleftrightarrow> (\<exists>h m. in_day h m \<and> normalizeTimeInput True v = time_text h m \<and> n = h * 60 + m)"
proof (cases "timeInputError v = []")
  case True
  then obtain h m where r: "in_day h m" "normalizeTimeInput True v = time_text h m"
    by (auto simp: msg_times is_clock_iff)
  have inj: "h' = h \<and> m' = m" if "in_day h' m'" "time_text h' m' = time_text h m" for h' m'
    using split_time [OF r(1)] split_time [OF that(1)] that(2) by (metis list.inject)
  have "minuteOfDay v = Some (h * 60 + m)"
    using True r split_time [OF r(1)] by (simp add: minuteOfDay_def)
  then have n: "minuteOfDay v = Some n \<longleftrightarrow> n = h * 60 + m" by auto
  show ?thesis
  proof
    show "minuteOfDay v = Some n \<Longrightarrow> \<exists>h m. in_day h m \<and> normalizeTimeInput True v = time_text h m \<and> n = h * 60 + m"
      using n r by blast
    assume "\<exists>h m. in_day h m \<and> normalizeTimeInput True v = time_text h m \<and> n = h * 60 + m"
    then obtain h' m' where w: "in_day h' m'" "time_text h' m' = time_text h m" "n = h' * 60 + m'"
      using r(2) by auto
    from inj [OF w(1,2)] w(3) n show "minuteOfDay v = Some n" by simp
  qed
next
  case False
  then show ?thesis by (auto simp: minuteOfDay_def msg_times is_clock_iff)
qed

lemma minuteOfDay_range: "minuteOfDay v = Some n \<Longrightarrow> 0 \<le> n \<and> n < 1440"
  by (auto simp: minuteOfDay_iff in_day_def)

lemma time_parts_digits:
  assumes "time_parts w s = Some (h, m)"
  shows "list_all is_digit h \<and> list_all is_digit m \<and> 1 \<le> length h \<and> length h \<le> 2 \<and> length m = 2"
proof (cases "colon_parts s")
  case None
  with assms have "bare_parts w s = Some (h, m)" by (simp add: time_parts_def)
  then have "list_all is_digit s" "length s = 4 \<or> length s = 3" "h = take (length s - 2) s" "m = drop (length s - 2) s"
    by (auto simp: bare_parts_def Let_def split: if_splits)
  then show ?thesis by (auto simp: list_all_iff dest: in_set_takeD in_set_dropD)
next
  case (Some p)
  with assms have "p = (h, m)" by (simp add: time_parts_def)
  have "list_all is_digit (takeWhile is_digit s)" by (auto simp: list_all_iff dest: set_takeWhileD)
  with Some \<open>p = (h, m)\<close> show ?thesis
    by (simp add: colon_parts_def split_digits_def Let_def split: if_splits) (elim conjE, hypsubst, simp)
qed

lemma normalize_cases:
  "normalizeTimeInput w v = v \<or> (\<exists>h m. in_day h m \<and> normalizeTimeInput w v = time_text h m)"
proof (cases "time_parts w (js_trim v)")
  case (Some p)
  obtain h m where p: "p = (h, m)" by (cases p)
  note d = time_parts_digits [OF Some [unfolded p]]
  have dh: "list_all is_digit h" "list_all is_digit m" "length m = 2" "1 \<le> length h" "length h \<le> 2" using d by auto
  have "is_digit (CHR ''0'')" by (simp add: is_digit_def)
  then have "list_all is_digit (pad_start 2 (CHR ''0'') h)" "length (pad_start 2 (CHR ''0'') h) = 2"
    using dh by (auto simp: pad_start_def list_all_iff)
  from fixed_of_digits [OF this(2) this(1)] have "pad_start 2 (CHR ''0'') h = fixed_width 2 (digits_val h)"
    by (simp add: pad_start_def digits_val_pad)
  moreover have "m = fixed_width 2 (digits_val m)" using fixed_of_digits [of m 2] dh by simp
  moreover have "0 \<le> digits_val h" "0 \<le> digits_val m" using digits_val_bounds dh by blast+
  ultimately have t: "pad_start 2 (CHR ''0'') h @ '':'' @ m = time_text (digits_val h) (digits_val m)"
    and n: "0 \<le> digits_val h" "0 \<le> digits_val m" by (simp_all add: time_text_def)
  show ?thesis
  proof (cases "23 < digits_val h \<or> 59 < digits_val m")
    case True
    then show ?thesis by (simp add: normalizeTimeInput_def Some p)
  next
    case False
    then have "normalizeTimeInput w v = time_text (digits_val h) (digits_val m)"
      using t by (simp add: normalizeTimeInput_def Some p)
    moreover have "in_day (digits_val h) (digits_val m)" using False n by (simp add: in_day_def)
    ultimately show ?thesis by blast
  qed
qed (simp add: normalizeTimeInput_def)

lemma normalize_time_text:
  assumes "in_day h m"
  shows "normalizeTimeInput w (time_text h m) = time_text h m"
proof -
  have f: "length (fixed_width 2 h) = 2" "list_all is_digit (fixed_width 2 h)" "digits_val (fixed_width 2 h) = h"
    "length (fixed_width 2 m) = 2" "list_all is_digit (fixed_width 2 m)" "digits_val (fixed_width 2 m) = m"
    using assms fixed_width [of h 2] fixed_width [of m 2] by (auto simp: in_day_def)
  have ne: "fixed_width 2 h \<noteq> []" "fixed_width 2 m \<noteq> []" using f by auto
  have "graphic (hd (fixed_width 2 h))" "graphic (last (fixed_width 2 m))"
    using f ne by (auto simp: list_all_iff intro: digit_graphic)
  then have t: "js_trim (time_text h m) = time_text h m"
    using ne by (intro js_trim_id) (simp add: time_text_def)
  have "split_digits (time_text h m) = (fixed_width 2 h, CHR '':'' # fixed_width 2 m)"
    unfolding time_text_def append.simps
    by (rule split_digits_append) (use f in \<open>auto simp: is_digit_def\<close>)
  then have "colon_parts (time_text h m) = Some (fixed_width 2 h, fixed_width 2 m)"
    using f by (simp add: colon_parts_def)
  then show ?thesis
    unfolding normalizeTimeInput_def t time_parts_def
    using f assms by (simp add: in_day_def pad_start_def) (simp add: time_text_def)
qed

lemma minuteOfDay_time_text: "in_day h m \<Longrightarrow> minuteOfDay (time_text h m) = Some (h * 60 + m)"
  using minuteOfDay_iff normalize_time_text by blast

section \<open>One run of a schedule\<close>

definition change_point :: "schedule_change \<Rightarrow> int option" where
  "change_point c = map_option (\<lambda>t. chg_day_offset c * 1440 + t) (minuteOfDay (chg_at c))"

text \<open>All times can be read, and these are the minutes they denote.\<close>

definition run_points :: "schedule_spec \<Rightarrow> (int \<times> int list \<times> int) option" where
  "run_points spec =
     (case (minuteOfDay (sp_start_time spec), those (map change_point (sp_changes spec)), minuteOfDay (sp_stop_time spec)) of
        (Some start, Some ps, Some t) \<Rightarrow> Some (start, ps, sp_stop_day_offset spec * 1440 + t)
      | _ \<Rightarrow> None)"

definition timing_ok :: "int \<Rightarrow> int list \<Rightarrow> int \<Rightarrow> bool" where
  "timing_ok start ps stop \<longleftrightarrow> sorted_wrt (<) (start # ps @ [stop]) \<and> stop - start \<le> 10080"

definition no_timing_errors :: "timing_errors \<Rightarrow> bool" where
  "no_timing_errors e \<longleftrightarrow> te_stop e = [] \<and> list_all (\<lambda>x. x = []) (te_changes e)"

lemma msgs_ne: "msg_change \<noteq> []" "msg_stop_early \<noteq> []" "msg_stop_late \<noteq> []"
  by code_simp+

lemma changeError_Nil:
  "changeError start stop i (Some p) point = [] \<longleftrightarrow> point < stop \<and> start < point \<and> p < point"
  using msgs_ne(1) by (auto simp: changeError_def)

lemma changeErrors_ok:
  "map change_point cs = map Some ps \<Longrightarrow> start \<le> p \<Longrightarrow>
   list_all (\<lambda>x. x = []) (changeErrors start stop i (Some p) cs)
     \<longleftrightarrow> (\<forall>q \<in> set ps. q < stop) \<and> sorted_wrt (<) (p # ps)"
proof (induction cs arbitrary: ps p i)
  case (Cons c cs)
  then obtain q qs where ps: "ps = q # qs" and q: "change_point c = Some q" and qs: "map change_point cs = map Some qs"
    by (cases ps) auto
  from q obtain t where t: "minuteOfDay (chg_at c) = Some t" "q = chg_day_offset c * 1440 + t"
    by (auto simp: change_point_def)
  show ?case
  proof (cases "p < q \<and> q < stop")
    case True
    with Cons.prems have "start < q" "start \<le> q" by auto
    with True Cons.IH [OF qs, of q "Suc i"] show ?thesis
      by (auto simp: ps t Let_def changeError_Nil intro: less_trans)
  next
    case False
    then show ?thesis by (auto simp: ps t Let_def changeError_Nil)
  qed
qed auto

lemma scheduleTimingErrors_iff:
  assumes "run_points spec = Some (start, ps, stop)"
  shows "no_timing_errors (scheduleTimingErrors spec) \<longleftrightarrow> timing_ok start ps stop"
proof -
  from assms obtain t where m: "minuteOfDay (sp_start_time spec) = Some start"
      "minuteOfDay (sp_stop_time spec) = Some t" "stop = sp_stop_day_offset spec * 1440 + t"
    and p: "map change_point (sp_changes spec) = map Some ps"
    by (auto simp: run_points_def those_Some split: option.splits)
  have mx: "MAX_SCHEDULE_SECONDS div 60 = 10080"
    by (simp add: MAX_SCHEDULE_SECONDS_def MAX_SCHEDULE_DAYS_def)
  show ?thesis
  proof (cases "1 \<le> stop - start \<and> stop - start \<le> 10080")
    case True
    then have "scheduleTimingErrors spec =
        \<lparr> te_stop = [], te_changes = changeErrors start stop 0 (Some start) (sp_changes spec) \<rparr>"
      by (simp add: scheduleTimingErrors_def m mx)
    moreover have "timing_ok start ps stop \<longleftrightarrow> (\<forall>q \<in> set ps. q < stop) \<and> sorted_wrt (<) (start # ps)"
      using True by (auto simp: timing_ok_def sorted_wrt_append)
    ultimately show ?thesis
      using changeErrors_ok [OF p, of start start stop 0] by (simp add: no_timing_errors_def)
  next
    case False
    then have "te_stop (scheduleTimingErrors spec) \<noteq> []"
      using msgs_ne by (auto simp: scheduleTimingErrors_def m mx)
    moreover have "\<not> timing_ok start ps stop" using False by (auto simp: timing_ok_def)
    ultimately show ?thesis by (simp add: no_timing_errors_def)
  qed
qed

text \<open>Normalizing the times of the form does not change what they mean.\<close>

lemma normalize_idem: "normalizeTimeInput True (normalizeTimeInput True v) = normalizeTimeInput True v"
  using normalize_cases [of True v] normalize_time_text by metis

lemma minuteOfDay_normalize: "minuteOfDay (normalizeTimeInput True v) = minuteOfDay v"
  using minuteOfDay_iff normalize_idem by (metis option.exhaust)

lemma run_points_normalize: "run_points (normalizeScheduleTimes spec) = run_points spec"
proof -
  have "map change_point (map (\<lambda>c. c\<lparr>chg_at := normalizeTimeInput True (chg_at c)\<rparr>) cs) = map change_point cs" for cs
    by (simp add: change_point_def minuteOfDay_normalize)
  moreover have "sp_stop_day_offset (normalizeScheduleTimes spec) = sp_stop_day_offset spec"
    "sp_start_time (normalizeScheduleTimes spec) = normalizeTimeInput True (sp_start_time spec)"
    "sp_stop_time (normalizeScheduleTimes spec) = normalizeTimeInput True (sp_stop_time spec)"
    "sp_changes (normalizeScheduleTimes spec) =
      map (\<lambda>c. c\<lparr>chg_at := normalizeTimeInput True (chg_at c)\<rparr>) (sp_changes spec)"
    by (simp_all add: normalizeScheduleTimes_def)
  ultimately show ?thesis
    unfolding run_points_def by (simp only: minuteOfDay_normalize)
qed

section \<open>Properties\<close>

text \<open>The time field reads exactly the times of day: a text is accepted iff it normalizes to HH:MM with
  0 <= HH < 24 and 0 <= MM < 60, its value is the minute of the day, and normalizing again changes nothing.\<close>

theorem time_input_exact:
  "(minuteOfDay v = Some n \<longleftrightarrow>
      (\<exists>h m. in_day h m \<and> normalizeTimeInput True v = time_text h m \<and> n = h * 60 + m))
   \<and> (timeInputError v = [] \<longleftrightarrow> minuteOfDay v \<noteq> None)
   \<and> minuteOfDay (normalizeTimeInput True v) = minuteOfDay v"
proof -
  have "timeInputError v = [] \<longleftrightarrow> (\<exists>n. minuteOfDay v = Some n)"
    by (auto simp: minuteOfDay_iff msg_times is_clock_iff)
  then show ?thesis using minuteOfDay_iff minuteOfDay_normalize by auto
qed

text \<open>When all times of a schedule rule can be read, the form shows no timing error iff the start, the
  frequency changes and the stop are strictly increasing minutes and the run is at most 7 days; and the
  normalized rule that is saved has the same times.\<close>

theorem schedule_timing_exact:
  assumes "run_points spec = Some (start, ps, stop)"
  shows "(no_timing_errors (scheduleTimingErrors spec) \<longleftrightarrow> timing_ok start ps stop)
    \<and> run_points (normalizeScheduleTimes spec) = Some (start, ps, stop)"
  using scheduleTimingErrors_iff [OF assms] run_points_normalize [of spec] assms by simp

definition sample_spec :: schedule_spec where
  "sample_spec = \<lparr> sp_name = ''n'', sp_timezone = ''UTC'', sp_start_date = ''2026-07-01'', sp_until_date = ''2026-07-01'',
     sp_start_time = ''19:00'', sp_stop_time = ''2:00'', sp_stop_day_offset = 1, sp_frequency = 40,
     sp_repeat = ''once'', sp_weekdays = [], sp_interval_days = 1, sp_month_day = 1, sp_months = [],
     sp_excluded_dates = [], sp_changes = [\<lparr> chg_at = ''2100'', chg_day_offset = 0, chg_frequency = 30 \<rparr>] \<rparr>"

lemma schedule_timing_exact_witness:
  "no_timing_errors (scheduleTimingErrors sample_spec) \<and> timing_ok 1140 [1260] 1560"
proof -
  have "run_points sample_spec = Some (1140, [1260], 1560)" "timing_ok 1140 [1260] 1560" by code_simp+
  with schedule_timing_exact [of sample_spec 1140 "[1260]" 1560] show ?thesis by blast
qed

end
