(* ===== verification/Schedules.thy ===== *)
theory Schedules
  imports TimeInput Equipment
begin

text \<open>
  \<open>lib/api/schedules.ts\<close>: schedule rules, the schedules of a device, the runs a rule produces, the
  preview of a rule and the history of a schedule.

  Rules, schedules and occurrences are the validated payloads; a run is rebuilt by its validator
  (\<open>schedule_run\<close>). \<open>known\<close> says which time zones the runtime accepts.
\<close>

definition MAX_DEVICE_SCHEDULES :: nat where
  "MAX_DEVICE_SCHEDULES = 8"

definition sched_path :: string where
  "sched_path = ''/api/v1/devices/schedules''"

definition dayOffset :: "json \<Rightarrow> bool" where
  "dayOffset value = int_in value 0 MAX_SCHEDULE_DAYS"

definition repeatLabels :: "(string \<times> string) list" where
  "repeatLabels =
     [(''once'', uk ''Odyn raz''), (''daily'', uk ''Qodn@''), (''weekly'', uk ''Za dn@my ty*n@''),
      (''interval'', uk ''Ko*ni {N }dniv''), (''monthly'', uk ''Qomis@c@''), (''yearly'', uk ''Qoroku'')]"

definition iso_day_text :: "string \<Rightarrow> bool" where
  "iso_day_text s =
     (match_classes iso_day_shape s
      \<and> (case date_parse s of None \<Rightarrow> False | Some t \<Rightarrow> iso_prefix t = s))"

definition isoDay :: "json \<Rightarrow> bool" where
  "isoDay value = (is_string value \<and> iso_day_text (str_of value))"

text \<open>\<open>(?:[01]\d|2[0-3]):[0-5]\d\<close> at the front.\<close>

definition localTime :: "json \<Rightarrow> bool" where
  "localTime value =
     (is_string value \<and> (let s = str_of value in is_clock (take 5 s) \<and> (drop 5 s = [] \<or> drop 5 s = '':00'')))"

text \<open>What follows the minutes in \<open>zonedSecond\<close>: \<open>:[0-5]\d(?:\.0+)?(?:Z|[+-]hh:mm)$\<close>.\<close>

definition zone_suffix :: "string \<Rightarrow> bool" where
  "zone_suffix z = (z = ''Z'' \<or> (z \<noteq> [] \<and> hd z \<in> set ''+-'' \<and> is_clock (tl z)))"

definition zero_fraction :: "string \<Rightarrow> string option" where
  "zero_fraction r =
     (if r = [] \<or> hd r \<noteq> CHR ''.'' then Some r
      else if takeWhile (\<lambda>c. c = CHR ''0'') (tl r) = [] then None
      else Some (dropWhile (\<lambda>c. c = CHR ''0'') (tl r)))"

definition zonedSecond :: "string \<Rightarrow> bool" where
  "zonedSecond s =
     (match_classes iso_day_shape (take 10 s) \<and> take 1 (drop 10 s) = ''T'' \<and> is_clock (take 5 (drop 11 s))
      \<and> (let sec = take 3 (drop 16 s) in
         length sec = 3 \<and> hd sec = CHR '':'' \<and> sec ! 1 \<in> set ''012345'' \<and> is_digit (sec ! 2))
      \<and> (case zero_fraction (drop 19 s) of None \<Rightarrow> False | Some z \<Rightarrow> zone_suffix z))"

definition schedule_hz :: "json \<Rightarrow> bool" where
  "schedule_hz value = (is_finite value \<and> 0 < rat_of value \<and> rat_of value \<le> 100)"

definition formatScheduleTime ::
  "(string \<Rightarrow> bool) \<Rightarrow> (string \<Rightarrow> int \<Rightarrow> string) \<Rightarrow> string list \<Rightarrow> string \<Rightarrow> string \<Rightarrow> string \<times> string list" where
  "formatScheduleTime known fmt cache value timezone =
     (case date_parse value of
        None \<Rightarrow> (uk ''Nekorektna data'', cache)
      | Some t \<Rightarrow>
          (case use_formatter known cache timezone of
             None \<Rightarrow> (to_iso t @ '' (UTC)'', cache)
           | Some cache' \<Rightarrow> (fmt timezone t, cache')))"

definition newScheduleSpec :: "string \<Rightarrow> string \<Rightarrow> schedule_spec" where
  "newScheduleSpec timezone today =
     \<lparr> sp_name = [], sp_timezone = timezone, sp_start_date = today, sp_until_date = today,
       sp_start_time = ''19:00'', sp_stop_time = ''02:00'', sp_stop_day_offset = 1, sp_frequency = 0,
       sp_repeat = ''once'', sp_weekdays = [], sp_interval_days = 1, sp_month_day = 1, sp_months = [1..12],
       sp_excluded_dates = [], sp_changes = [] \<rparr>"

definition int_list_ok :: "json \<Rightarrow> int \<Rightarrow> int \<Rightarrow> bool" where
  "int_list_ok values lo hi =
     (is_array values \<and> int (length (elems values)) \<le> hi - lo + 1
      \<and> set_size (elems values) = length (elems values)
      \<and> list_all (\<lambda>v. is_integer v \<and> lo \<le> int_of v \<and> int_of v \<le> hi) (elems values))"

definition parseScheduleSpec :: "(string \<Rightarrow> bool) \<Rightarrow> json \<Rightarrow> json result" where
  "parseScheduleSpec known raw =
     (let g = fld raw in
     seqE (reject (\<not> isRecord raw \<or> \<not> is_string (g ''name'') \<or> js_blank (str_of (g ''name''))
             \<or> \<not> is_string (g ''timezone'') \<or> \<not> isoDay (g ''start_date'') \<or> \<not> isoDay (g ''until_date'')
             \<or> \<not> localTime (g ''start_time'') \<or> \<not> localTime (g ''stop_time'') \<or> \<not> dayOffset (g ''stop_day_offset'')
             \<or> \<not> schedule_hz (g ''frequency_hz'') \<or> \<not> is_string (g ''repeat'')
             \<or> \<not> has_label repeatLabels (str_of (g ''repeat''))) sched_path ''schedule rule'') (
     seqE (reject (\<not> known (str_of (g ''timezone''))) sched_path ''schedule timezone'') (
     seqE (reject (\<not> int_list_ok (g ''weekdays'') 0 6) sched_path ''weekdays'') (
     seqE (reject (\<not> int_list_ok (g ''months'') 1 12) sched_path ''months'') (
     seqE (reject (\<not> is_integer (g ''interval_days'') \<or> int_of (g ''interval_days'') < 1 \<or> 366 < int_of (g ''interval_days'')
             \<or> \<not> is_integer (g ''month_day'') \<or> int_of (g ''month_day'') < -1 \<or> int_of (g ''month_day'') = 0
             \<or> 31 < int_of (g ''month_day'')) sched_path ''schedule interval'') (
     seqE (reject (\<not> is_array (g ''excluded_dates'') \<or> 100 < length (elems (g ''excluded_dates''))
             \<or> list_ex (\<lambda>v. \<not> isoDay v) (elems (g ''excluded_dates''))) sched_path ''schedule exclusions'') (
     seqE (reject (\<not> is_array (g ''changes'') \<or> 7 < length (elems (g ''changes''))
             \<or> list_ex (\<lambda>v. \<not> isRecord v \<or> \<not> localTime (fld v ''at'') \<or> \<not> dayOffset (fld v ''day_offset'')
                  \<or> \<not> schedule_hz (fld v ''frequency_hz'')) (elems (g ''changes'')))
             sched_path ''schedule frequency changes'') (
     Inr raw))))))))"

definition parseSchedule :: "(string \<Rightarrow> bool) \<Rightarrow> json \<Rightarrow> string \<Rightarrow> string \<Rightarrow> json result" where
  "parseSchedule known raw deviceId organizationId =
     (let g = fld raw in
     seqE (reject (\<not> isRecord raw) sched_path ''schedule'') (
     seqE (forE (\<lambda>f. requiredUuid raw f sched_path) [''id'', ''device_id'', ''organization_id'']) (
     seqE (reject (g ''device_id'' \<noteq> JStr deviceId \<or> g ''organization_id'' \<noteq> JStr organizationId) sched_path
             ''schedule scope'') (
     seqE (reject (\<not> is_safe_integer (g ''revision'') \<or> int_of (g ''revision'') < 1 \<or> \<not> is_bool (g ''enabled''))
             sched_path ''schedule revision'') (
     seqE (forE (\<lambda>f. requiredDateTime raw f sched_path) [''created_at'', ''updated_at'']) (
     seqE (whenE (g ''next_start_at'' \<noteq> JNull) (requiredDateTime raw ''next_start_at'' sched_path)) (
     seqE (ignoreE (parseScheduleSpec known (g ''spec''))) (
     Inr raw))))))))"

definition parseSchedules :: "(string \<Rightarrow> bool) \<Rightarrow> json \<Rightarrow> string \<Rightarrow> string \<Rightarrow> json list result" where
  "parseSchedules known raw deviceId organizationId =
     seqE (reject (\<not> is_array raw \<or> 50 < length (elems raw)) sched_path ''schedule list'') (
     bindE (mapE (\<lambda>row. parseSchedule known row deviceId organizationId) (elems raw)) (\<lambda>rows.
     seqE (reject (set_size (map (\<lambda>r. str_of (fld r ''id'')) rows) \<noteq> length rows) sched_path ''duplicate schedule'') (
     Inr rows)))"

record schedule_run =
  run_plan :: program_plan
  run_starts_at :: string
  run_stops_at :: string

text \<open>The day of a text of \<open>zonedSecond\<close>: \<open>isoDay(value.slice(0, 10))\<close>.\<close>

definition run_moment :: "json \<Rightarrow> bool" where
  "run_moment v = (is_string v \<and> zonedSecond (str_of v) \<and> iso_day_text (take 10 (str_of v)))"

definition parseScheduleRun :: "json \<Rightarrow> schedule_run option" where
  "parseScheduleRun raw =
     (let starts = fld raw ''starts_at''; stops = fld raw ''stops_at'' in
      if \<not> isRecord raw \<or> length (obj_keys raw) \<noteq> 4 \<or> \<not> run_moment starts \<or> \<not> run_moment stops then None
      else (case (date_parse (str_of starts), date_parse (str_of stops),
                  parseProgramPlan (JObj [(''version'', fld raw ''version''), (''steps'', fld raw ''steps'')])
                    MAX_SCHEDULE_SECONDS) of
              (Some a, Some b, Some plan) \<Rightarrow>
                if b - a \<noteq> total_seconds (plan_steps plan) * 1000 then None
                else Some \<lparr> run_plan = plan, run_starts_at = str_of starts, run_stops_at = str_of stops \<rparr>
            | _ \<Rightarrow> None))"

definition parseSchedulePreview :: "json \<Rightarrow> json result" where
  "parseSchedulePreview raw =
     (let g = fld raw in
     seqE (reject (\<not> isRecord raw \<or> \<not> is_array (g ''runs'') \<or> 5 < length (elems (g ''runs''))
             \<or> list_ex (\<lambda>run. parseScheduleRun run = None) (elems (g ''runs''))
             \<or> \<not> is_array (g ''conflicts'') \<or> 50 < length (elems (g ''conflicts'')) \<or> \<not> is_array (g ''notes'')
             \<or> list_ex (\<lambda>note. \<not> is_string note) (elems (g ''notes''))
             \<or> g ''conflict_horizon_days'' \<noteq> JNum (Fin 366)) sched_path ''schedule preview'') (
     seqE (forE (\<lambda>v. requiredUuid (JObj [(''id'', v)]) ''id'' sched_path) (elems (g ''conflicts''))) (
     Inr raw)))"

definition parseOccurrence :: "string \<Rightarrow> json \<Rightarrow> json result" where
  "parseOccurrence scheduleId row =
     seqE (reject (\<not> isRecord row \<or> fld row ''schedule_id'' \<noteq> JStr scheduleId \<or> \<not> is_integer (fld row ''revision''))
             sched_path ''schedule occurrence'') (
     seqE (forE (\<lambda>f. requiredUuid row f sched_path) [''id'', ''schedule_id'']) (
     seqE (forE (\<lambda>f. requiredDateTime row f sched_path) [''starts_at'', ''stops_at'', ''created_at'']) (
     seqE (whenE (fld row ''command_id'' \<noteq> JNull) (requiredUuid row ''command_id'' sched_path)) (
     seqE (ignoreE (requiredString row ''status'' sched_path)) (
     seqE (reject (fld row ''reason'' \<noteq> JNull \<and> \<not> is_string (fld row ''reason'')) sched_path ''schedule reason'') (
     Inr row))))))"

definition parseScheduleHistory :: "json \<Rightarrow> string \<Rightarrow> json list result" where
  "parseScheduleHistory raw scheduleId =
     seqE (reject (\<not> is_array raw \<or> 30 < length (elems raw)) sched_path ''schedule history'') (
     mapE (parseOccurrence scheduleId) (elems raw))"

section \<open>Runs\<close>

text \<open>A run is a well-formed plan that lasts exactly from its start to its stop, both given to the second.\<close>

definition wf_run :: "schedule_run \<Rightarrow> bool" where
  "wf_run r \<longleftrightarrow>
     wf_plan MAX_SCHEDULE_SECONDS (run_plan r)
     \<and> (\<exists>a b. date_parse (run_starts_at r) = Some a \<and> date_parse (run_stops_at r) = Some b
          \<and> b - a = total_seconds (plan_steps (run_plan r)) * 1000
          \<and> a + 10000 \<le> b \<and> b \<le> a + 7 * ms_per_day)"

lemma total_at_least:
  assumes "wf_plan m p"
  shows "10 \<le> total_seconds (plan_steps p)"
proof -
  obtain s ss where p: "plan_steps p = s # ss" using assms by (cases "plan_steps p") (auto simp: wf_plan_def)
  have "\<forall>x \<in> set (s # ss). 10 \<le> step_duration x" using assms by (auto simp: wf_plan_def wf_step_def p)
  then have "10 \<le> step_duration s" "0 \<le> sum_list (map step_duration ss)"
    by (auto intro!: sum_list_int_nonneg)
  then show ?thesis by (simp add: p total_seconds_def)
qed

lemma parseScheduleRun_wf:
  assumes "parseScheduleRun raw = Some r"
  shows "wf_run r"
proof -
  from assms obtain a b where d: "date_parse (run_starts_at r) = Some a" "date_parse (run_stops_at r) = Some b"
    and p: "parseProgramPlan (JObj [(''version'', fld raw ''version''), (''steps'', fld raw ''steps'')])
      MAX_SCHEDULE_SECONDS = Some (run_plan r)"
    and t: "b - a = total_seconds (plan_steps (run_plan r)) * 1000"
    by (auto simp: parseScheduleRun_def Let_def split: if_splits option.splits)
  have w: "wf_plan MAX_SCHEDULE_SECONDS (run_plan r)" using p by (rule parseProgramPlan_wf)
  then have "total_seconds (plan_steps (run_plan r)) \<le> 604800"
    by (simp add: wf_plan_def MAX_SCHEDULE_SECONDS_def MAX_SCHEDULE_DAYS_def)
  with total_at_least [OF w] t w d show ?thesis
    by (simp add: wf_run_def ms_per_day_def)
qed

section \<open>Schedules\<close>

definition wf_schedule :: "(string \<Rightarrow> bool) \<Rightarrow> string \<Rightarrow> string \<Rightarrow> json \<Rightarrow> bool" where
  "wf_schedule known did oid s \<longleftrightarrow>
     fld s ''device_id'' = JStr did \<and> fld s ''organization_id'' = JStr oid \<and> 1 \<le> int_of (fld s ''revision'')
     \<and> (let spec = fld s ''spec'' in
        known (str_of (fld spec ''timezone'')) \<and> isoDay (fld spec ''start_date'') \<and> isoDay (fld spec ''until_date'')
        \<and> localTime (fld spec ''start_time'') \<and> localTime (fld spec ''stop_time'')
        \<and> dayOffset (fld spec ''stop_day_offset'') \<and> schedule_hz (fld spec ''frequency_hz'')
        \<and> int_list_ok (fld spec ''weekdays'') 0 6 \<and> int_list_ok (fld spec ''months'') 1 12
        \<and> length (elems (fld spec ''changes'')) \<le> 7)"

lemma parseSchedule_wf:
  assumes "parseSchedule known raw did oid = Inr s"
  shows "s = raw \<and> wf_schedule known did oid s"
  using assms
  unfolding parseSchedule_def parseScheduleSpec_def Let_def seqE_ok reject_ok ignoreE_ok sum.inject
  apply (elim exE conjE)
  subgoal premises p
    using p unfolding wf_schedule_def Let_def by (simp add: not_less)
  done

lemma parseSchedules_sound:
  assumes "parseSchedules known raw did oid = Inr rows"
  shows "(\<forall>s \<in> set rows. wf_schedule known did oid s) \<and> distinct (map (\<lambda>s. str_of (fld s ''id'')) rows)
    \<and> length rows \<le> 50"
proof -
  from assms have m: "mapE (\<lambda>row. parseSchedule known row did oid) (elems raw) = Inr rows"
    and l: "length (elems raw) \<le> 50"
    and d: "set_size (map (\<lambda>r. str_of (fld r ''id'')) rows) = length rows"
    unfolding parseSchedules_def bindE_ok seqE_ok reject_ok by auto
  have "distinct (map (\<lambda>s. str_of (fld s ''id'')) rows)"
    using d by (metis length_map set_size_distinct)
  moreover have "\<forall>s \<in> set rows. wf_schedule known did oid s"
    using mapE_set_ok [OF m] parseSchedule_wf by blast
  ultimately show ?thesis using mapE_length [OF m] l by simp
qed

text \<open>An ISO day is a calendar date, so every date of an accepted rule exists.\<close>

lemma midnight_civil:
  assumes "wf_civil c"
  shows "date_parse (civil_text c) = Some (civil_day c * ms_per_day)"
proof (rule civil_text_parts [OF assms])
  fix ys ms ds
  assume t: "civil_text c = ys @ ''-'' @ ms @ ''-'' @ ds" and l: "length ys = 4" "length ms = 2" "length ds = 2"
    and g: "list_all is_digit ys" "list_all is_digit ms" "list_all is_digit ds"
    and v: "digits_val ys = cyear c" "digits_val ms = cmonth c" "digits_val ds = cday c"
  have "read_date (civil_text c) = Some (civil_day c, [])"
    using read_digits_prefix [OF l(1) g(1)] read_field_prefix [OF l(2) g(2)] read_field_prefix [OF l(3) g(3), of _ "[]"]
      wf_civil_bounds [OF assms]
    by (simp add: read_date_def t v civil_day_def)
  then show ?thesis by (simp add: date_parse_def parse_iso_def read_time_def)
qed

lemma iso_day_text_iff: "iso_day_text s \<longleftrightarrow> isCalendarDate s"
proof
  assume "isCalendarDate s"
  then obtain c where w: "wf_civil c" and s: "s = civil_text c" by (auto simp: isCalendarDate_iff)
  have "iso_prefix (civil_day c * ms_per_day) = civil_text c"
    using iso_prefix_civil [of "civil_day c * ms_per_day"] civil_of_civil_day [OF w] w
    by (simp add: day_of_def ms_per_day_def wf_civil_def)
  moreover have "match_classes iso_day_shape s" using \<open>isCalendarDate s\<close> by (simp add: isCalendarDate_def)
  ultimately show "iso_day_text s" by (simp add: iso_day_text_def s midnight_civil [OF w])
next
  assume a: "iso_day_text s"
  then obtain t where t: "iso_prefix t = s" and m: "match_classes iso_day_shape s"
    by (auto simp: iso_day_text_def split: option.splits)
  then show "isCalendarDate s" using calendar_prefix isCalendarDate_iff by blast
qed

section \<open>Properties\<close>

text \<open>A run that is accepted (from a command or a preview) is a well-formed plan of at most 7 days whose
  steps last, to the millisecond, exactly from its start to its stop.\<close>

theorem schedule_run_exact: "parseScheduleRun raw = Some r \<Longrightarrow> wf_run r"
  by (rule parseScheduleRun_wf)

definition sample_run :: json where
  "sample_run = JObj [(''version'', JNum (Fin 1)),
     (''steps'', JArr [encode_step \<lparr> step_frequency = 40, step_duration = 3600 \<rparr>]),
     (''starts_at'', JStr ''2026-07-01T19:00:00+03:00''), (''stops_at'', JStr ''2026-07-01T17:00:00Z'')]"

lemma schedule_run_exact_witness: "\<exists>r. parseScheduleRun sample_run = Some r \<and> wf_run r"
proof -
  have "parseScheduleRun sample_run \<noteq> None" by code_simp
  then show ?thesis using schedule_run_exact by blast
qed

text \<open>The schedules of a device that are accepted belong to the device and the organization, none appears
  twice, and every rule has a known time zone, times of day, offsets of at most 7 days, frequencies in
  (0, 100] and at most 7 changes.\<close>

theorem schedules_scoped:
  assumes "parseSchedules known raw did oid = Inr rows"
  shows "(\<forall>s \<in> set rows. wf_schedule known did oid s) \<and> distinct (map (\<lambda>s. str_of (fld s ''id'')) rows)
    \<and> length rows \<le> 50"
  using assms by (rule parseSchedules_sound)

definition sample_schedule :: json where
  "sample_schedule = (let u = JStr (replicate 8 (CHR ''1'') @ ''-0000-4000-8000-000000000000'');
     d = JStr ''2026-07-01T10:00:00Z'' in JObj
     [(''id'', u), (''device_id'', u), (''organization_id'', u), (''revision'', JNum (Fin 1)), (''enabled'', JBool True),
      (''created_at'', d), (''updated_at'', d), (''next_start_at'', JNull),
      (''spec'', JObj [(''name'', JStr ''n''), (''timezone'', JStr ''UTC''), (''start_date'', JStr ''2026-07-01''),
        (''until_date'', JStr ''2026-07-31''), (''start_time'', JStr ''19:00''), (''stop_time'', JStr ''02:00:00''),
        (''stop_day_offset'', JNum (Fin 1)), (''frequency_hz'', JNum (Fin 40)), (''repeat'', JStr ''daily''),
        (''weekdays'', JArr []), (''months'', JArr [JNum (Fin 7)]), (''interval_days'', JNum (Fin 1)),
        (''month_day'', JNum (Fin (-1))), (''excluded_dates'', JArr []), (''changes'', JArr [])])])"

lemma schedules_scoped_witness:
  "\<exists>rows. parseSchedules (\<lambda>z. z = ''UTC'') (JArr [sample_schedule])
      (replicate 8 (CHR ''1'') @ ''-0000-4000-8000-000000000000'')
      (replicate 8 (CHR ''1'') @ ''-0000-4000-8000-000000000000'') = Inr rows \<and> length rows \<le> 50"
proof -
  have "holds (\<lambda>_. True) (parseSchedules (\<lambda>z. z = ''UTC'') (JArr [sample_schedule])
      (replicate 8 (CHR ''1'') @ ''-0000-4000-8000-000000000000'')
      (replicate 8 (CHR ''1'') @ ''-0000-4000-8000-000000000000''))" by code_simp
  then show ?thesis using schedules_scoped unfolding holds_iff by blast
qed

end
