(* ===== verification/Commands.thy ===== *)
theory Commands
  imports Equipment Programs Numerals
begin

text \<open>
  \<open>lib/api/commands.ts\<close>: the commands sent to a device, the validators of a command, of the
  receipt of a command just sent, and of one page of the journal.

  A command is the validated payload itself. \<open>wf_command\<close> is what the validator guarantees.
  The journal is paged from the newest command back with a cursor (time and id). The locale
  \<open>cursor_order\<close> is the interface between a page check and the order it relies on: pages fetched
  one after the other form one strictly descending list. \<open>isBefore\<close> interprets it.
\<close>

definition commandLabels :: "(string \<times> string) list" where
  "commandLabels =
     [(''vfd.start'', uk ''Zapustyty''), (''vfd.stop'', uk ''Zupynyty''), (''vfd.frequency.set'', uk ''Zadaty ^astotu''),
      (''vfd.program.start'', uk ''Zapustyty za etapamy''), (''vfd.schedule.start'', uk ''Zapusk za rozkladom''),
      (''vfd.source.set'', uk ''Zminyty d*erelo keruvann@''),
      (''vfd.parameter.set'', uk ''Zminyty parametr ^astotnyka'')]"

definition statusLabels :: "(string \<times> string) list" where
  "statusLabels =
     [(''queued'', uk ''U ^erzi''), (''published'', uk ''Rozpo^ato dostavku''),
      (''acknowledged'', uk ''Kontroler pidtverdyv pryjom''), (''succeeded'', uk ''Kontroler povidomyv pro vykonann@''),
      (''failed'', uk ''Pomylka vykonann@''), (''cancelled'', uk ''Dostavku skasovano''),
      (''expired'', uk ''Strok dostavky mynuv''), (''result_unknown'', uk ''Rezul=tat nevidomyj'')]"

datatype work_mode = ModeTimer | ModeProgram | ModeSchedule

definition commandWorkMode :: "json \<Rightarrow> work_mode option" where
  "commandWorkMode command =
     (if fld command ''command_type'' = JStr ''vfd.schedule.start'' then Some ModeSchedule
      else if fld command ''command_type'' \<noteq> JStr ''vfd.program.start'' then None
      else (case parseProgramPlan (fld command ''payload'') MAX_PROGRAM_SECONDS of
              None \<Rightarrow> None
            | Some plan \<Rightarrow> Some (if length (plan_steps plan) = 1 then ModeTimer else ModeProgram)))"

definition label_or :: "(string \<times> string) list \<Rightarrow> string \<Rightarrow> string" where
  "label_or labels key = (case map_of labels key of None \<Rightarrow> key | Some l \<Rightarrow> l)"

definition commandLabel :: "string \<Rightarrow> json \<Rightarrow> string" where
  "commandLabel type payload =
     (if type = ''vfd.source.set'' \<and> isRecord payload then
        (if fld payload ''source'' = JStr ''local'' then uk ''Uvimknuty misceve keruvann@''
         else if fld payload ''source'' = JStr ''remote'' then uk ''Uvimknuty dystancijne keruvann@''
         else label_or commandLabels type)
      else if type = ''vfd.parameter.set'' \<and> isRecord payload
        \<and> js_string (fld payload ''code'') \<in> set [''F0.10'', ''F0.11''] then
        label_or commandLabels type @ uk '' % '' @ js_string (fld payload ''code'')
      else if type = ''vfd.program.start'' \<and>
        (case parseProgramPlan payload MAX_PROGRAM_SECONDS of None \<Rightarrow> False | Some p \<Rightarrow> length (plan_steps p) = 1)
      then uk ''Zapusk za tajmerom''
      else label_or commandLabels type)"

definition commandPending :: "json \<Rightarrow> bool" where
  "commandPending command = (fld command ''status'' \<in> set (map JStr [''queued'', ''published'', ''acknowledged'']))"

definition validFrequency :: "string \<Rightarrow> rat option" where
  "validFrequency text =
     (if js_blank text then None
      else (let value = js_number text in
            if num_finite value \<and> 0 \<le> num_rat value \<and> num_rat value \<le> 100 then Some (num_rat value) else None))"

record command_input =
  ci_request_id :: string
  ci_type :: string
  ci_payload :: json
  ci_ttl :: int
  ci_target :: "equipment_target option"
  ci_supersedes :: "string option"

text \<open>\<open>throw new Error(message)\<close> is \<open>Inl message\<close>. The plan is given as the value it came from.\<close>

definition makeCommandInput ::
  "string \<Rightarrow> string \<Rightarrow> jsnum \<Rightarrow> string \<Rightarrow> json \<Rightarrow> string + command_input" where
  "makeCommandInput type frequency ttl requestId program =
     (let input = (\<lambda>payload. \<lparr> ci_request_id = requestId, ci_type = type, ci_payload = payload,
            ci_ttl = \<lfloor>num_rat ttl\<rfloor>, ci_target = None, ci_supersedes = None \<rparr>) in
      if \<not> num_integer ttl \<or> num_rat ttl < 5 \<or> 300 < num_rat ttl
      then Inl (uk ''>as na pryjn@tt@ komandy ma# buty vid 5 do 300 sekund.'')
      else if type = ''vfd.program.start'' then
        (case parseProgramPlan program MAX_PROGRAM_SECONDS of
           None \<Rightarrow> Inl (uk ''Perevirte ^astoty ta tryvalist= etapiv prohramy.'')
         | Some plan \<Rightarrow> Inr (input (encode_plan plan)))
      else if type = ''vfd.frequency.set'' then
        (case validFrequency frequency of
           None \<Rightarrow> Inl (uk ''Vka*it= ^astotu vid 0 do 100 Hc.'')
         | Some value \<Rightarrow> Inr (input (JObj [(''frequency_hz'', JNum (Fin value))])))
      else Inr (input (JObj [])))"

section \<open>The order of the journal\<close>

definition cmd_path :: string where
  "cmd_path = ''/api/v1/commands''"

text \<open>The digits after the first point that is followed by a digit: \<open>value.match(/\.(\d+)/)?.[1] ?? ""\<close>.\<close>

fun fraction_digits :: "string \<Rightarrow> string" where
  "fraction_digits [] = []"
| "fraction_digits (c # cs) =
     (if c = CHR ''.'' \<and> cs \<noteq> [] \<and> is_digit (hd cs) then takeWhile is_digit cs else fraction_digits cs)"

definition pad_end :: "nat \<Rightarrow> char \<Rightarrow> string \<Rightarrow> string" where
  "pad_end n c s = s @ replicate (n - length s) c"

text \<open>Microseconds since 1970: the milliseconds of the parser and the next three digits.\<close>

definition micros :: "string \<Rightarrow> jsnum" where
  "micros value =
     (case date_parse value of
        None \<Rightarrow> NaN
      | Some ms \<Rightarrow>
          Fin (of_int (ms * 1000 + digits_val (take 3 (drop 3 (pad_end 6 (CHR ''0'') (fraction_digits value)))))))"

record command_cursor =
  before_created_at :: string
  before_id :: string

definition cursor_before :: "command_cursor \<Rightarrow> command_cursor \<Rightarrow> bool" where
  "cursor_before a b =
     (let time = micros (before_created_at a); boundary = micros (before_created_at b) in
      num_lt time boundary \<or> (num_eq time boundary \<and> str_lt (js_lower (before_id a)) (js_lower (before_id b))))"

definition commandCursor :: "json \<Rightarrow> command_cursor" where
  "commandCursor command =
     \<lparr> before_created_at = str_of (fld command ''created_at''), before_id = str_of (fld command ''id'') \<rparr>"

definition isBefore :: "json \<Rightarrow> command_cursor \<Rightarrow> bool" where
  "isBefore command cursor = cursor_before (commandCursor command) cursor"

section \<open>Validators\<close>

definition parseCommand :: "json \<Rightarrow> string \<Rightarrow> string \<Rightarrow> string option \<Rightarrow> json result" where
  "parseCommand raw deviceId organizationId expectedId =
     (let g = fld raw; present = (\<lambda>f. g f \<noteq> JUndef \<and> g f \<noteq> JNull) in
     seqE (reject (\<not> isRecord raw) cmd_path ''command object'') (
     seqE (forE (\<lambda>f. requiredUuid raw f cmd_path) [''id'', ''request_id'', ''device_id'']) (
     seqE (reject (g ''device_id'' \<noteq> JStr deviceId
             \<or> (case expectedId of None \<Rightarrow> False | Some e \<Rightarrow> e \<noteq> [] \<and> g ''id'' \<noteq> JStr e)) cmd_path ''command scope'') (
     seqE (forE (\<lambda>f. whenE (g f \<noteq> JNull) (requiredUuid raw f cmd_path))
             [''actor_user_id'', ''actor_auth_session_id'', ''actor_organization_id'']) (
     seqE (reject (g ''actor_organization_id'' \<noteq> JNull \<and> g ''actor_organization_id'' \<noteq> JStr organizationId)
             cmd_path ''actor organization'') (
     seqE (forE (\<lambda>f. reject (g f \<noteq> JNull \<and> \<not> is_string (g f)) cmd_path f)
             [''actor_platform_role'', ''actor_organization_role'', ''actor_email'', ''actor_display_name'',
              ''last_publish_error'', ''error_code'', ''error_message'']) (
     seqE (reject (present ''control_sequence''
             \<and> (\<not> is_safe_integer (g ''control_sequence'') \<or> int_of (g ''control_sequence'') < 1))
             cmd_path ''control sequence'') (
     seqE (whenE (present ''supersedes_request_id'') (requiredUuid raw ''supersedes_request_id'' cmd_path)) (
     seqE (ignoreE (parseEquipmentTarget (g ''equipment_target''))) (
     seqE (ignoreE (requiredString raw ''command_type'' cmd_path)) (
     seqE (reject (\<not> is_string (g ''status'') \<or> \<not> has_label statusLabels (str_of (g ''status'')))
             cmd_path ''command status'') (
     seqE (reject (\<not> isRecord (g ''payload'') \<or> \<not> isRecord (g ''result'')) cmd_path ''command payload/result'') (
     seqE (forE (\<lambda>f. requiredDateTime raw f cmd_path) [''created_at'', ''updated_at'', ''expires_at'']) (
     seqE (forE (\<lambda>f. whenE (g f \<noteq> JNull) (requiredDateTime raw f cmd_path))
             [''published_at'', ''last_publish_attempt_at'', ''acknowledged_at'', ''result_deadline_at'',
              ''result_timed_out_at'', ''completed_at'']) (
     seqE (reject (\<not> int_in (g ''ttl_seconds'') 5 300
             \<or> \<not> is_safe_integer (g ''publish_attempts'') \<or> int_of (g ''publish_attempts'') < 0)
             cmd_path ''command counters'') (
     Inr raw))))))))))))))))"

text \<open>The target of a validated command.\<close>

definition command_target :: "json \<Rightarrow> equipment_target option" where
  "command_target command =
     (case parseEquipmentTarget (fld command ''equipment_target'') of Inl _ \<Rightarrow> None | Inr t \<Rightarrow> t)"

definition same_payload :: "json \<Rightarrow> json \<Rightarrow> bool" where
  "same_payload actual sent =
     (length (obj_keys actual) = length (obj_keys sent)
      \<and> list_all (\<lambda>key. js_eq (fld actual key) (fld sent key)) (obj_keys sent))"

definition parseCommandReceipt ::
  "json \<Rightarrow> string \<Rightarrow> string \<Rightarrow> string \<Rightarrow> command_input \<Rightarrow> json result" where
  "parseCommandReceipt raw deviceId organizationId userId input =
     bindE (parseCommand raw deviceId organizationId None) (\<lambda>command.
     seqE (reject (\<not> sameEquipmentTarget (command_target command) (ci_target input)) cmd_path
             ''matching equipment target'') (
     seqE (reject (fld command ''request_id'' \<noteq> JStr (ci_request_id input)
             \<or> fld command ''command_type'' \<noteq> JStr (ci_type input)
             \<or> \<not> js_eq (fld command ''ttl_seconds'') (JNum (Fin (of_int (ci_ttl input))))
             \<or> (if is_nullish (fld command ''supersedes_request_id'') then None
                 else Some (fld command ''supersedes_request_id'')) \<noteq> map_option JStr (ci_supersedes input)
             \<or> fld command ''actor_user_id'' \<noteq> JStr userId
             \<or> fld command ''actor_organization_id'' \<noteq> JStr organizationId
             \<or> (if ci_type input = ''vfd.program.start''
                 then \<not> sameProgram (fld command ''payload'') (ci_payload input)
                 else \<not> same_payload (fld command ''payload'') (ci_payload input)))
             cmd_path ''matching command receipt'') (
     Inr command)))"

text \<open>Each row is checked against the row before it, the first against the cursor of the page.\<close>

fun page_ordered :: "command_cursor option \<Rightarrow> json list \<Rightarrow> bool" where
  "page_ordered boundary [] = True"
| "page_ordered boundary (row # rows) =
     ((case boundary of None \<Rightarrow> True | Some b \<Rightarrow> isBefore row b) \<and> page_ordered (Some (commandCursor row)) rows)"

definition parseCommandPage :: "json \<Rightarrow> string \<Rightarrow> string \<Rightarrow> command_cursor option \<Rightarrow> json list result" where
  "parseCommandPage raw deviceId organizationId cursor =
     seqE (reject (\<not> is_array raw \<or> 21 < length (elems raw)) cmd_path ''bounded command page'') (
     bindE (mapE (\<lambda>row. parseCommand row deviceId organizationId None) (elems raw)) (\<lambda>commands.
     seqE (reject (set_size (map (\<lambda>row. str_of (fld row ''id'')) commands) \<noteq> length commands) cmd_path
             ''unique commands'') (
     seqE (reject (\<not> page_ordered cursor commands) cmd_path ''ordered cursor page'') (
     Inr commands))))"

section \<open>Paging\<close>

locale cursor_order =
  fixes key :: "'a \<Rightarrow> 'k" and before :: "'k \<Rightarrow> 'k \<Rightarrow> bool"
  assumes before_trans: "before x y \<Longrightarrow> before y z \<Longrightarrow> before x z"
    and before_irrefl: "\<not> before x x"
begin

lemma chain_sorted:
  assumes "successively (\<lambda>a b. before (key b) (key a)) xs"
  shows "sorted_wrt (\<lambda>a b. before (key b) (key a)) xs"
  using assms by (subst (asm) successively_conv_sorted_wrt) (auto intro: before_trans transpI)

lemma chain_distinct:
  "successively (\<lambda>a b. before (key b) (key a)) xs \<Longrightarrow> distinct (map key xs)"
  by (drule chain_sorted, induction xs) (use before_irrefl in auto)

text \<open>Everything on a page is before a boundary that its first row is before.\<close>

lemma chain_below:
  assumes "successively (\<lambda>a b. before (key b) (key a)) xs" "before (key (hd xs)) c" "x \<in> set xs"
  shows "before (key x) c"
  using chain_sorted [OF assms(1)] assms(2,3) by (cases xs) (auto intro: before_trans)

text \<open>A page that continues after the last row of the page before it extends the descending list.\<close>

lemma pages_append:
  assumes "successively (\<lambda>a b. before (key b) (key a)) xs" "successively (\<lambda>a b. before (key b) (key a)) ys"
    and "xs \<noteq> [] \<Longrightarrow> ys \<noteq> [] \<Longrightarrow> before (key (hd ys)) (key (last xs))"
  shows "sorted_wrt (\<lambda>a b. before (key b) (key a)) (xs @ ys) \<and> distinct (map key (xs @ ys))"
proof -
  have "successively (\<lambda>a b. before (key b) (key a)) (xs @ ys)"
    using assms by (auto simp: successively_append_iff)
  then show ?thesis using chain_sorted chain_distinct by blast
qed

end

lemma cursor_before_trans: "cursor_before x y \<Longrightarrow> cursor_before y z \<Longrightarrow> cursor_before x z"
  by (auto simp: cursor_before_def Let_def num_eq_def intro: num_lt_trans str_lt_trans)

lemma cursor_before_irrefl: "\<not> cursor_before x x"
  by (simp add: cursor_before_def Let_def num_lt_irrefl str_lt_irrefl)

interpretation journal_order: cursor_order commandCursor cursor_before
  by unfold_locales (blast intro: cursor_before_trans, rule cursor_before_irrefl)

abbreviation descending :: "json list \<Rightarrow> bool" where
  "descending \<equiv> sorted_wrt (\<lambda>a b. cursor_before (commandCursor b) (commandCursor a))"

lemma page_ordered_successively:
  "page_ordered boundary rows \<longleftrightarrow>
     successively (\<lambda>a b. cursor_before (commandCursor b) (commandCursor a)) rows
     \<and> (\<forall>c. boundary = Some c \<and> rows \<noteq> [] \<longrightarrow> cursor_before (commandCursor (hd rows)) c)"
proof (induction rows arbitrary: boundary)
  case (Cons row rows)
  show ?case
    by (cases rows; cases boundary)
      (use Cons.IH [of "Some (commandCursor row)"] in \<open>auto simp: isBefore_def\<close>)
qed simp

section \<open>What the validators guarantee\<close>

definition wf_command :: "string \<Rightarrow> string \<Rightarrow> json \<Rightarrow> bool" where
  "wf_command deviceId organizationId c \<longleftrightarrow>
     isRecord c \<and> fld c ''device_id'' = JStr deviceId
     \<and> (\<exists>i. fld c ''id'' = JStr i \<and> is_uuid i) \<and> (\<exists>i. fld c ''request_id'' = JStr i \<and> is_uuid i)
     \<and> (\<exists>t. fld c ''command_type'' = JStr t \<and> t \<noteq> [])
     \<and> (\<exists>s. fld c ''status'' = JStr s \<and> has_label statusLabels s)
     \<and> (fld c ''actor_organization_id'' = JNull \<or> fld c ''actor_organization_id'' = JStr organizationId)
     \<and> (\<exists>d. fld c ''created_at'' = JStr d \<and> date_parse d \<noteq> None)
     \<and> isRecord (fld c ''payload'') \<and> int_in (fld c ''ttl_seconds'') 5 300
     \<and> (\<exists>t. parseEquipmentTarget (fld c ''equipment_target'') = Inr t)"

lemma parseCommand_wf:
  assumes "parseCommand raw did oid e = Inr c"
  shows "c = raw \<and> wf_command did oid c
    \<and> (\<forall>i. e = Some i \<and> i \<noteq> [] \<longrightarrow> fld c ''id'' = JStr i)"
proof -
  have s: "is_string v \<and> has_label statusLabels (str_of v) \<Longrightarrow> \<exists>s. v = JStr s \<and> has_label statusLabels s" for v
    by (cases v) auto
  show ?thesis
    using assms
    unfolding parseCommand_def Let_def seqE_ok reject_ok ignoreE_ok sum.inject
    apply (elim conjE)
    subgoal premises p
      using p(1,3,5,11,16) p(2) p(9,10,12,13,15) s [of "fld raw ''status''"]
      unfolding wf_command_def p(16) [symmetric] 
      by (auto simp: ok_iff)
    done
qed

definition receipt_matches :: "string \<Rightarrow> string \<Rightarrow> string \<Rightarrow> command_input \<Rightarrow> json \<Rightarrow> bool" where
  "receipt_matches did oid uid input c \<longleftrightarrow>
     wf_command did oid c
     \<and> fld c ''request_id'' = JStr (ci_request_id input) \<and> fld c ''command_type'' = JStr (ci_type input)
     \<and> int_of (fld c ''ttl_seconds'') = ci_ttl input
     \<and> fld c ''actor_user_id'' = JStr uid \<and> fld c ''actor_organization_id'' = JStr oid
     \<and> command_target c = ci_target input
     \<and> (case ci_supersedes input of None \<Rightarrow> is_nullish (fld c ''supersedes_request_id'')
        | Some s \<Rightarrow> fld c ''supersedes_request_id'' = JStr s)
     \<and> (if ci_type input = ''vfd.program.start''
        then \<exists>p. parseProgramPlan (fld c ''payload'') MAX_PROGRAM_SECONDS = Some p
               \<and> parseProgramPlan (ci_payload input) MAX_PROGRAM_SECONDS = Some p
        else same_payload (fld c ''payload'') (ci_payload input))"

lemma js_eq_int: "js_eq v (JNum (Fin (of_int i))) \<Longrightarrow> int_of v = i"
  by (cases v) (auto simp: num_eq_def int_of_def)

lemma parseCommandReceipt_matches:
  assumes "parseCommandReceipt raw did oid uid input = Inr c"
  shows "receipt_matches did oid uid input c"
  using assms unfolding parseCommandReceipt_def bindE_ok seqE_ok reject_ok sameEquipmentTarget_iff sum.inject
  apply (elim exE conjE)
  subgoal premises p for x
  proof -
    have w: "wf_command did oid c" using parseCommand_wf [OF p(1)] p(4) by auto
    show ?thesis
      using p(2,3) w js_eq_int unfolding p(4) receipt_matches_def sameProgram_iff
      by (cases "ci_supersedes input") (auto split: if_splits)
  qed
  done

lemma parseCommandPage_ok:
  assumes "parseCommandPage raw did oid cursor = Inr rows"
  shows "length rows \<le> 21" "\<forall>c \<in> set rows. wf_command did oid c"
    "distinct (map (\<lambda>c. fld c ''id'') rows)" "page_ordered cursor rows"
proof -
  from assms have m: "mapE (\<lambda>row. parseCommand row did oid None) (elems raw) = Inr rows"
    and l: "length (elems raw) \<le> 21" and o: "page_ordered cursor rows"
    and d: "distinct (map (\<lambda>row. str_of (fld row ''id'')) rows)"
    unfolding parseCommandPage_def bindE_ok seqE_ok reject_ok
    by (auto simp: simp del: set_size_distinct) (metis length_map set_size_distinct)
  show "length rows \<le> 21" using mapE_length [OF m] l by simp
  show "page_ordered cursor rows" by (rule o)
  show "\<forall>c \<in> set rows. wf_command did oid c"
    using mapE_set_ok [OF m] parseCommand_wf by blast
  have "distinct (map str_of (map (\<lambda>c. fld c ''id'') rows))" using d by (simp add: o_def)
  then show "distinct (map (\<lambda>c. fld c ''id'') rows)" by (metis distinct_map)
qed

section \<open>The journal\<close>

text \<open>
  The pages of \<open>CommandJournal\<close>: the stack of cursors (the first page has none) and the rows of the
  page that is open, when they have arrived. A response is kept only if it passes \<open>parseCommandPage\<close>
  with the cursor of the open page. \<open>Next\<close> is enabled when there is a row beyond the 20 shown.
\<close>

record journal =
  jr_cursors :: "command_cursor option list"
  jr_data :: "json list option"

definition journal_start :: journal where
  "journal_start = \<lparr> jr_cursors = [None], jr_data = None \<rparr>"

definition journal_rows :: "journal \<Rightarrow> json list" where
  "journal_rows j = (case jr_data j of None \<Rightarrow> [] | Some rows \<Rightarrow> take 20 rows)"

definition journal_load :: "string \<Rightarrow> string \<Rightarrow> json \<Rightarrow> journal \<Rightarrow> journal" where
  "journal_load did oid raw j =
     (case parseCommandPage raw did oid (last (jr_cursors j)) of
        Inl _ \<Rightarrow> j\<lparr>jr_data := None\<rparr>
      | Inr rows \<Rightarrow> j\<lparr>jr_data := Some rows\<rparr>)"

definition journal_next :: "journal \<Rightarrow> journal" where
  "journal_next j =
     (case jr_data j of
        None \<Rightarrow> j
      | Some rows \<Rightarrow>
          if length rows \<le> 20 then j
          else \<lparr> jr_cursors = jr_cursors j @ [Some (commandCursor (last (journal_rows j)))], jr_data = None \<rparr>)"

definition journal_previous :: "journal \<Rightarrow> journal" where
  "journal_previous j =
     (if length (jr_cursors j) = 1 then j
      else \<lparr> jr_cursors = butlast (jr_cursors j), jr_data = None \<rparr>)"

inductive journal_reachable :: "string \<Rightarrow> string \<Rightarrow> journal \<Rightarrow> bool" for did oid :: string where
  "journal_reachable did oid journal_start"
| "journal_reachable did oid j \<Longrightarrow> journal_reachable did oid (journal_load did oid raw j)"
| "journal_reachable did oid j \<Longrightarrow> journal_reachable did oid (journal_next j)"
| "journal_reachable did oid j \<Longrightarrow> journal_reachable did oid (journal_previous j)"

text \<open>The first page has no cursor, each deeper page starts strictly further back, and the rows
  of the open page are commands of this device, each once, strictly descending from its cursor.\<close>

definition cursors_descend :: "command_cursor option list \<Rightarrow> bool" where
  "cursors_descend cs \<longleftrightarrow>
     (\<exists>ds. cs = None # map Some ds \<and> successively (\<lambda>a b. cursor_before b a) ds)"

definition page_descends :: "command_cursor option \<Rightarrow> json list \<Rightarrow> bool" where
  "page_descends cursor rows \<longleftrightarrow> descending rows
     \<and> (\<forall>c. cursor = Some c \<longrightarrow> (\<forall>r \<in> set rows. cursor_before (commandCursor r) c))"

definition journal_inv :: "string \<Rightarrow> string \<Rightarrow> journal \<Rightarrow> bool" where
  "journal_inv did oid j \<longleftrightarrow>
     cursors_descend (jr_cursors j)
     \<and> (\<forall>rows. jr_data j = Some rows \<longrightarrow>
          page_descends (last (jr_cursors j)) rows \<and> (\<forall>r \<in> set rows. wf_command did oid r)
          \<and> distinct (map (\<lambda>c. fld c ''id'') rows))"

lemma page_ordered_descends: "page_ordered c rows \<Longrightarrow> page_descends c rows"
  unfolding page_ordered_successively page_descends_def
  using journal_order.chain_sorted journal_order.chain_below by (metis empty_iff list.set(1))

lemma cursors_butlast:
  assumes "cursors_descend cs" "length cs \<noteq> 1"
  shows "cursors_descend (butlast cs)"
proof -
  from assms obtain ds where ds: "cs = None # map Some ds" "successively (\<lambda>a b. cursor_before b a) ds"
    by (auto simp: cursors_descend_def)
  with assms(2) have "ds \<noteq> []" by auto
  then have "butlast cs = None # map Some (butlast ds)" by (simp add: ds map_butlast)
  moreover have "successively (\<lambda>a b. cursor_before b a) (butlast ds)"
    using ds(2) \<open>ds \<noteq> []\<close> by (metis append_butlast_last_id successively_append_iff)
  ultimately show ?thesis by (auto simp: cursors_descend_def)
qed

lemma cursors_snoc:
  assumes "cursors_descend cs" "\<And>d. last cs = Some d \<Longrightarrow> cursor_before c d"
  shows "cursors_descend (cs @ [Some c])"
proof -
  from assms(1) obtain ds where ds: "cs = None # map Some ds" "successively (\<lambda>a b. cursor_before b a) ds"
    by (auto simp: cursors_descend_def)
  have "successively (\<lambda>a b. cursor_before b a) (ds @ [c])"
    using ds assms(2) [of "last ds"] by (cases "ds = []") (simp_all add: successively_append_iff last_map)
  moreover have "cs @ [Some c] = None # map Some (ds @ [c])" by (simp add: ds)
  ultimately show ?thesis unfolding cursors_descend_def by blast
qed

lemma journal_next_inv:
  assumes "journal_inv did oid j"
  shows "journal_inv did oid (journal_next j)"
proof (cases "jr_data j")
  case (Some rows)
  show ?thesis
  proof (cases "length rows \<le> 20")
    case False
    then have ne: "take 20 rows \<noteq> []" by auto
    then have "last (take 20 rows) \<in> set rows" by (meson in_set_takeD last_in_set)
    then have "cursor_before (commandCursor (last (take 20 rows))) d" if "last (jr_cursors j) = Some d" for d
      using assms Some that by (simp add: journal_inv_def page_descends_def)
    then show ?thesis
      using assms Some False cursors_snoc by (simp add: journal_inv_def journal_next_def journal_rows_def)
  qed (use assms Some in \<open>simp add: journal_next_def\<close>)
qed (use assms in \<open>simp add: journal_next_def\<close>)

lemma journal_load_inv:
  assumes "journal_inv did oid j"
  shows "journal_inv did oid (journal_load did oid raw j)"
proof (cases "parseCommandPage raw did oid (last (jr_cursors j))")
  case (Inr rows)
  with assms parseCommandPage_ok [OF Inr] page_ordered_descends show ?thesis
    by (simp add: journal_inv_def journal_load_def)
qed (use assms in \<open>simp add: journal_inv_def journal_load_def\<close>)

lemma journal_reachable_inv: "journal_reachable did oid j \<Longrightarrow> journal_inv did oid j"
proof (induction rule: journal_reachable.induct)
  case 1
  show ?case by (simp add: journal_inv_def journal_start_def cursors_descend_def)
next
  case (4 j)
  then show ?case using cursors_butlast by (auto simp: journal_inv_def journal_previous_def)
qed (auto intro: journal_next_inv journal_load_inv)

section \<open>Making a command\<close>

definition wf_input :: "command_input \<Rightarrow> bool" where
  "wf_input i \<longleftrightarrow> 5 \<le> ci_ttl i \<and> ci_ttl i \<le> 300
     \<and> (ci_type i = ''vfd.program.start'' \<longrightarrow>
          (\<exists>p. wf_plan MAX_PROGRAM_SECONDS p \<and> parseProgramPlan (ci_payload i) MAX_PROGRAM_SECONDS = Some p))
     \<and> (ci_type i = ''vfd.frequency.set'' \<longrightarrow>
          (\<exists>f. ci_payload i = JObj [(''frequency_hz'', JNum (Fin f))] \<and> 0 \<le> f \<and> f \<le> 100))
     \<and> (ci_type i \<noteq> ''vfd.program.start'' \<and> ci_type i \<noteq> ''vfd.frequency.set'' \<longrightarrow> ci_payload i = JObj [])"

lemma validFrequency_range: "validFrequency t = Some f \<Longrightarrow> 0 \<le> f \<and> f \<le> 100"
  by (auto simp: validFrequency_def Let_def split: if_splits)

lemma makeCommandInput_wf:
  assumes "makeCommandInput type frequency ttl requestId program = Inr i"
  shows "wf_input i \<and> ci_type i = type \<and> ci_request_id i = requestId"
proof -
  have "5 \<le> \<lfloor>num_rat ttl\<rfloor> \<and> \<lfloor>num_rat ttl\<rfloor> \<le> 300"
    using assms by (cases ttl) (auto simp: makeCommandInput_def floor_le_iff le_floor_iff split: if_splits)
  then show ?thesis
    using assms parse_encode_plan parseProgramPlan_wf validFrequency_range
    by (auto simp: makeCommandInput_def wf_input_def Let_def split: if_splits option.splits)
qed

section \<open>Properties\<close>

text \<open>An accepted receipt is the answer to exactly the command that was sent: same device, request
  id, type, lifetime, equipment target and superseded request, sent by this user for this organization,
  with the same payload (for a program: the same plan).\<close>

theorem receipt_is_for_command:
  "parseCommandReceipt raw did oid uid input = Inr c \<Longrightarrow> receipt_matches did oid uid input c"
  by (rule parseCommandReceipt_matches)

definition sample_command :: "string \<Rightarrow> json" where
  "sample_command created = (let u = JStr (replicate 8 (CHR ''1'') @ ''-0000-4000-8000-000000000000'') in JObj
     [(''id'', u), (''request_id'', u), (''device_id'', u), (''actor_user_id'', u), (''actor_auth_session_id'', JNull),
      (''actor_organization_id'', u), (''actor_platform_role'', JNull), (''actor_organization_role'', JNull),
      (''actor_email'', JNull), (''actor_display_name'', JNull), (''last_publish_error'', JNull),
      (''error_code'', JNull), (''error_message'', JNull), (''command_type'', JStr ''vfd.stop''),
      (''status'', JStr ''queued''), (''payload'', JObj []), (''result'', JObj []),
      (''created_at'', JStr created), (''updated_at'', JStr created), (''expires_at'', JStr created),
      (''published_at'', JNull), (''last_publish_attempt_at'', JNull), (''acknowledged_at'', JNull),
      (''result_deadline_at'', JNull), (''result_timed_out_at'', JNull), (''completed_at'', JNull),
      (''ttl_seconds'', JNum (Fin 30)), (''publish_attempts'', JNum (Fin 0))])"

definition sample_uuid :: string where
  "sample_uuid = replicate 8 (CHR ''1'') @ ''-0000-4000-8000-000000000000''"

definition sample_input :: command_input where
  "sample_input = \<lparr> ci_request_id = sample_uuid, ci_type = ''vfd.stop'', ci_payload = JObj [], ci_ttl = 30,
     ci_target = None, ci_supersedes = None \<rparr>"

lemma sample_receipt:
  "holds (\<lambda>c. True) (parseCommandReceipt (sample_command ''2026-07-01T10:00:00.123456Z'')
     sample_uuid sample_uuid sample_uuid sample_input)"
  by code_simp

lemma receipt_is_for_command_witness:
  "\<exists>c. parseCommandReceipt (sample_command ''2026-07-01T10:00:00.123456Z'') sample_uuid sample_uuid
       sample_uuid sample_input = Inr c
     \<and> receipt_matches sample_uuid sample_uuid sample_uuid sample_input c"
  using sample_receipt receipt_is_for_command unfolding holds_iff by blast

text \<open>C11: Whatever the operator does in the journal (load, refresh, next and previous page) and whatever
  the server answers, the deeper page starts strictly further back in time, and the rows on screen are
  commands of this device, each once, in strictly descending order below the cursor of the page.\<close>

theorem journal_pages_descend:
  "journal_reachable did oid j \<Longrightarrow> journal_inv did oid j"
  by (rule journal_reachable_inv)

definition sample_journal :: journal where
  "sample_journal = journal_load sample_uuid sample_uuid
     (JArr [sample_command ''2026-07-01T10:00:00.123456Z'']) journal_start"

lemma journal_pages_descend_witness:
  "journal_inv sample_uuid sample_uuid sample_journal \<and> length (journal_rows sample_journal) = 1"
proof -
  have "journal_reachable sample_uuid sample_uuid sample_journal"
    unfolding sample_journal_def by (intro journal_reachable.intros)
  moreover have "length (journal_rows sample_journal) = 1" by code_simp
  ultimately show ?thesis using journal_pages_descend by blast
qed

text \<open>A command that the form could build is within its bounds: its lifetime is 5 to 300 seconds, a
  frequency is 0 to 100 Hz, a program is a plan that parses back, and no other command carries a payload;
  its type and its request id are those asked for.\<close>

theorem command_input_bounded:
  "makeCommandInput type frequency ttl requestId program = Inr i \<Longrightarrow>
     wf_input i \<and> ci_type i = type \<and> ci_request_id i = requestId"
  by (rule makeCommandInput_wf)

lemma command_input_bounded_witness:
  "\<exists>i. makeCommandInput ''vfd.frequency.set'' ''42.5'' (Fin 30) sample_uuid JNull = Inr i \<and> wf_input i"
proof -
  have "holds (\<lambda>i. True) (makeCommandInput ''vfd.frequency.set'' ''42.5'' (Fin 30) sample_uuid JNull)"
    by code_simp
  then show ?thesis using command_input_bounded unfolding holds_iff by blast
qed

end
