(* ===== verification/SchedulePanel.thy ===== *)
theory SchedulePanel
  imports Schedules Commands
begin

text \<open>
  \<open>features/schedule-form.tsx\<close> and \<open>features/schedule-panel.tsx\<close>: the editor of a schedule and the panel that
  lists, previews, saves, pauses and deletes the schedules of a device.

  The form is a set of edits of a \<open>schedule_spec\<close>. The panel is a state machine over its hooks: every handler is
  guarded by what is rendered and by the \<open>disabled\<close> of its control, and \<open>action\<close> sends at most one request at a
  time. The specifications of the listed schedules, JSON values accepted by \<open>parseSchedules\<close>, are read into
  records by \<open>spec_of\<close>. Three fields are not in the code but record it for the properties: \<open>pn_sent\<close> (requests),
  \<open>pn_previewed\<close> (accepted previews with their input) and \<open>pn_toggled\<close> (what the pause buttons put up for
  confirmation). The focus of the heading is left out.
\<close>

section \<open>The form\<close>

text \<open>\<open>toggle\<close>: the numbers chosen, in ascending order after an addition.\<close>

definition toggle_number :: "int list \<Rightarrow> int \<Rightarrow> int list" where
  "toggle_number values v = (if v \<in> set values then filter (\<lambda>item. item \<noteq> v) values else sort (values @ [v]))"

definition change_at :: "nat \<Rightarrow> ('a \<Rightarrow> 'a) \<Rightarrow> 'a list \<Rightarrow> 'a list" where
  "change_at index f xs = map (\<lambda>(i, x). if i = index then f x else x) (zip [0..<length xs] xs)"

definition remove_at :: "nat \<Rightarrow> 'a list \<Rightarrow> 'a list" where
  "remove_at index xs = map snd (filter (\<lambda>(i, x). i \<noteq> index) (zip [0..<length xs] xs))"

datatype schedule_edit =
    SetName string | SetStartDate string | SetStartTime string | SetStopOffset int | SetStopTime string
  | SetFrequency rat | SetRepeat string | SetUntilDate string | SetInterval int | SetMonthDay int
  | ToggleWeekday int | ToggleMonth int
  | SetChangeTime nat string | SetChangeDay nat int | SetChangeFrequency nat rat | RemoveChange nat | AddChange
  | SetExclusion nat string | RemoveExclusion nat | AddExclusion

text \<open>Which control is there and enabled, given that the form is.\<close>

fun edit_offered :: "schedule_spec \<Rightarrow> schedule_edit \<Rightarrow> bool" where
  "edit_offered spec (SetRepeat r) = has_label repeatLabels r"
| "edit_offered spec (SetStopOffset n) = (0 \<le> n \<and> n < int (length scheduleDayLabels))"
| "edit_offered spec (SetUntilDate d) = (sp_repeat spec \<noteq> ''once'')"
| "edit_offered spec (SetInterval n) = (sp_repeat spec = ''interval'')"
| "edit_offered spec (SetMonthDay n) = (sp_repeat spec = ''monthly'' \<and> (n = -1 \<or> (1 \<le> n \<and> n \<le> 31)))"
| "edit_offered spec (ToggleWeekday day) = (sp_repeat spec = ''weekly'' \<and> 0 \<le> day \<and> day \<le> 6)"
| "edit_offered spec (ToggleMonth m) = (sp_repeat spec \<noteq> ''once'' \<and> 1 \<le> m \<and> m \<le> 12)"
| "edit_offered spec (SetChangeDay i n) = (0 \<le> n \<and> n < int (length scheduleDayLabels))"
| "edit_offered spec AddChange = (length (sp_changes spec) < 7)"
| "edit_offered spec AddExclusion = (length (sp_excluded_dates spec) < 100)"
| "edit_offered spec _ = True"

fun edit_spec :: "schedule_edit \<Rightarrow> schedule_spec \<Rightarrow> schedule_spec" where
  "edit_spec (SetName n) spec = spec\<lparr>sp_name := n\<rparr>"
| "edit_spec (SetStartDate d) spec =
     spec\<lparr>sp_start_date := d, sp_until_date := (if sp_repeat spec = ''once'' then d else sp_until_date spec)\<rparr>"
| "edit_spec (SetStartTime t) spec = spec\<lparr>sp_start_time := t\<rparr>"
| "edit_spec (SetStopOffset n) spec = spec\<lparr>sp_stop_day_offset := n\<rparr>"
| "edit_spec (SetStopTime t) spec = spec\<lparr>sp_stop_time := t\<rparr>"
| "edit_spec (SetFrequency f) spec = spec\<lparr>sp_frequency := f\<rparr>"
| "edit_spec (SetRepeat r) spec =
     spec\<lparr>sp_repeat := r, sp_until_date := (if r = ''once'' then sp_start_date spec else sp_until_date spec),
          sp_months := (if r = ''once'' then [1..12] else sp_months spec)\<rparr>"
| "edit_spec (SetUntilDate d) spec = spec\<lparr>sp_until_date := d\<rparr>"
| "edit_spec (SetInterval n) spec = spec\<lparr>sp_interval_days := n\<rparr>"
| "edit_spec (SetMonthDay n) spec = spec\<lparr>sp_month_day := n\<rparr>"
| "edit_spec (ToggleWeekday day) spec = spec\<lparr>sp_weekdays := toggle_number (sp_weekdays spec) day\<rparr>"
| "edit_spec (ToggleMonth m) spec = spec\<lparr>sp_months := toggle_number (sp_months spec) m\<rparr>"
| "edit_spec (SetChangeTime i t) spec = spec\<lparr>sp_changes := change_at i (\<lambda>c. c\<lparr>chg_at := t\<rparr>) (sp_changes spec)\<rparr>"
| "edit_spec (SetChangeDay i n) spec = spec\<lparr>sp_changes := change_at i (\<lambda>c. c\<lparr>chg_day_offset := n\<rparr>) (sp_changes spec)\<rparr>"
| "edit_spec (SetChangeFrequency i f) spec =
     spec\<lparr>sp_changes := change_at i (\<lambda>c. c\<lparr>chg_frequency := f\<rparr>) (sp_changes spec)\<rparr>"
| "edit_spec (RemoveChange i) spec = spec\<lparr>sp_changes := remove_at i (sp_changes spec)\<rparr>"
| "edit_spec AddChange spec =
     spec\<lparr>sp_changes := sp_changes spec @ [\<lparr> chg_at = [], chg_day_offset = 0, chg_frequency = sp_frequency spec \<rparr>]\<rparr>"
| "edit_spec (SetExclusion i d) spec = spec\<lparr>sp_excluded_dates := change_at i (\<lambda>_. d) (sp_excluded_dates spec)\<rparr>"
| "edit_spec (RemoveExclusion i) spec = spec\<lparr>sp_excluded_dates := remove_at i (sp_excluded_dates spec)\<rparr>"
| "edit_spec AddExclusion spec = spec\<lparr>sp_excluded_dates := sp_excluded_dates spec @ [sp_start_date spec]\<rparr>"

section \<open>The state of the panel\<close>

text \<open>The members of an accepted specification.\<close>

definition change_of :: "json \<Rightarrow> schedule_change" where
  "change_of v = \<lparr> chg_at = str_of (fld v ''at''), chg_day_offset = int_of (fld v ''day_offset''),
     chg_frequency = rat_of (fld v ''frequency_hz'') \<rparr>"

definition spec_of :: "json \<Rightarrow> schedule_spec" where
  "spec_of raw =
     (let g = fld raw in
      \<lparr> sp_name = str_of (g ''name''), sp_timezone = str_of (g ''timezone''), sp_start_date = str_of (g ''start_date''),
        sp_until_date = str_of (g ''until_date''), sp_start_time = str_of (g ''start_time''),
        sp_stop_time = str_of (g ''stop_time''), sp_stop_day_offset = int_of (g ''stop_day_offset''),
        sp_frequency = rat_of (g ''frequency_hz''), sp_repeat = str_of (g ''repeat''),
        sp_weekdays = map int_of (elems (g ''weekdays'')), sp_interval_days = int_of (g ''interval_days''),
        sp_month_day = int_of (g ''month_day''), sp_months = map int_of (elems (g ''months'')),
        sp_excluded_dates = map str_of (elems (g ''excluded_dates'')), sp_changes = map change_of (elems (g ''changes'')) \<rparr>)"

record schedule_write =
  sw_id :: string
  sw_expected_revision :: int
  sw_enabled :: bool
  sw_spec :: schedule_spec

datatype action_kind = PreviewAction | SaveAction | DeleteAction

text \<open>What the panel is given: the access, its tab, the calendar query and the network.\<close>

record pane_env =
  pe_can_read :: bool
  pe_can_write :: bool
  pe_visible :: bool
  pe_query_active :: bool
  pe_query_error :: bool
  pe_online :: bool
  pe_data :: "json list option"
  pe_timezone :: string
  pe_device :: string
  pe_organization :: string

record schedule_pane =
  pn_draft :: "schedule_write option"
  pn_preview :: "json option"
  pn_confirmation :: "schedule_write option"
  pn_deletion :: "json option"
  pn_notice :: "string option"
  pn_busy :: bool
  pn_history :: "json option"
  pn_pending :: "(action_kind \<times> schedule_write) option"
  pn_aborted :: bool
  pn_refreshes :: nat
  pn_sent :: "(action_kind \<times> schedule_write) list"
  pn_previewed :: "(schedule_write \<times> json) list"
  pn_toggled :: "schedule_write list"

definition pane_start :: schedule_pane where
  "pane_start = \<lparr> pn_draft = None, pn_preview = None, pn_confirmation = None, pn_deletion = None, pn_notice = None,
     pn_busy = False, pn_history = None, pn_pending = None, pn_aborted = False, pn_refreshes = 0, pn_sent = [],
     pn_previewed = [], pn_toggled = [] \<rparr>"

text \<open>The write that asks for the schedule as it is listed.\<close>

definition write_of :: "json \<Rightarrow> bool \<Rightarrow> schedule_write" where
  "write_of item enabled =
     \<lparr> sw_id = str_of (fld item ''id''), sw_expected_revision = int_of (fld item ''revision''),
       sw_enabled = enabled, sw_spec = spec_of (fld item ''spec'') \<rparr>"

definition item_enabled :: "json \<Rightarrow> bool" where
  "item_enabled item = (fld item ''enabled'' = JBool True)"

definition listed :: "pane_env \<Rightarrow> json list" where
  "listed env = (case pe_data env of None \<Rightarrow> [] | Some rows \<Rightarrow> rows)"

definition actionDisabled :: "pane_env \<Rightarrow> schedule_pane \<Rightarrow> bool" where
  "actionDisabled env st = (pn_busy st \<or> \<not> pe_visible env \<or> \<not> pe_query_active env \<or> pe_query_error env)"

definition atLimit :: "pane_env \<Rightarrow> bool" where
  "atLimit env = (MAX_DEVICE_SCHEDULES \<le> length (listed env))"

section \<open>The handlers\<close>

text \<open>\<open>edit\<close>: a new draft, or the draft of a listed schedule, whose rule is read again and may be refused (the
  error leaves the handler before the draft is set).\<close>

definition edit_new :: "string \<Rightarrow> string \<Rightarrow> pane_env \<Rightarrow> schedule_pane \<Rightarrow> schedule_pane" where
  "edit_new uuid today env st =
     (if pe_data env = None \<or> atLimit env then st
      else st\<lparr>pn_notice := None, pn_preview := None, pn_history := None,
              pn_draft := Some \<lparr> sw_id = uuid, sw_expected_revision = 0, sw_enabled = True,
                sw_spec = newScheduleSpec (pe_timezone env) today \<rparr>\<rparr>)"

definition edit_item :: "(string \<Rightarrow> bool) \<Rightarrow> json \<Rightarrow> schedule_pane \<Rightarrow> schedule_pane" where
  "edit_item known item st =
     (let st' = st\<lparr>pn_notice := None, pn_preview := None, pn_history := None\<rparr> in
      case parseScheduleSpec known (fld item ''spec'') of
        Inl _ \<Rightarrow> st'
      | Inr spec \<Rightarrow> st'\<lparr>pn_draft := Some (write_of item (item_enabled item))\<rparr>)"

definition change_spec :: "schedule_spec \<Rightarrow> schedule_pane \<Rightarrow> schedule_pane" where
  "change_spec spec st =
     (case pn_draft st of
        None \<Rightarrow> st
      | Some d \<Rightarrow> st\<lparr>pn_draft := Some (d\<lparr>sw_spec := spec\<rparr>), pn_preview := None, pn_notice := None\<rparr>)"

text \<open>\<open>action\<close> up to its request, and the request.\<close>

definition schedule_action :: "action_kind \<Rightarrow> schedule_write \<Rightarrow> pane_env \<Rightarrow> schedule_pane \<Rightarrow> schedule_pane" where
  "schedule_action kind input env st =
     (if pn_pending st \<noteq> None \<or> \<not> pe_can_write env \<or> \<not> pe_visible env \<or> \<not> pe_query_active env \<or> pe_query_error env
        \<or> \<not> pe_online env then st
      else st\<lparr>pn_pending := Some (kind, input), pn_aborted := False, pn_busy := True, pn_notice := None,
              pn_preview := (if kind = PreviewAction then None else pn_preview st),
              pn_sent := (kind, input) # pn_sent st\<rparr>)"

definition action_request :: "string \<Rightarrow> action_kind \<Rightarrow> schedule_write \<Rightarrow> string \<times> string \<times> schedule_write option" where
  "action_request base kind input =
     ((case kind of
         PreviewAction \<Rightarrow> base @ ''/preview''
       | SaveAction \<Rightarrow> base @ ''/'' @ sw_id input
       | DeleteAction \<Rightarrow> base @ ''/'' @ sw_id input @ ''?expected_revision='' @ show_int (sw_expected_revision input)),
      (case kind of PreviewAction \<Rightarrow> ''POST'' | SaveAction \<Rightarrow> ''PUT'' | DeleteAction \<Rightarrow> ''DELETE''),
      (if kind = DeleteAction then None else Some input))"

text \<open>The \<open>catch\<close> and the \<open>finally\<close>, for a request that was not aborted.\<close>

definition schedule_error :: "exn \<Rightarrow> string" where
  "schedule_error e = (case e of ApiExn _ \<Rightarrow> apiErrorDisplayMessage e | JsExn message \<Rightarrow> message)"

definition action_failed :: "action_kind \<Rightarrow> exn \<Rightarrow> schedule_pane \<Rightarrow> schedule_pane" where
  "action_failed kind e st =
     st\<lparr>pn_notice := Some (schedule_error e @
          (if kind \<noteq> PreviewAction then (uk '' Onovit= spysok pered povtorom: zminy mohly zberehtys@.'') else []))\<rparr>"

text \<open>What an answer is accepted as.\<close>

definition saved_matches :: "schedule_write \<Rightarrow> json \<Rightarrow> bool" where
  "saved_matches input saved =
     (str_of (fld saved ''id'') = sw_id input \<and> int_of (fld saved ''revision'') = sw_expected_revision input + 1
      \<and> item_enabled saved = sw_enabled input)"

definition save_unconfirmed :: exn where
  "save_unconfirmed = JsExn ((uk ''Ne vdalos@ pidtverdyty zbere*enn@ rozkladu. Onovit= spysok.''))"

definition saved_notice :: "bool \<Rightarrow> string" where
  "saved_notice enabled =
     (if enabled
      then (uk ''Rozklad zbere*eno j uvimkneno. Kontroler zapustyt=s@ avtomaty^no u vkazanyj ^as. Stan zapusku mo*na perehl@nuty v istori~.'')
      else (uk ''Majbutni zapusky pryzupyneno. U*e pryjn@tyj zapusk zupyn@#t=s@ okremo$ knopko$ {STOP.}''))"

definition deleted_notice :: string where
  "deleted_notice =
     (uk ''Rozklad vydaleno. Istori$ zapuskiv zbere*eno. Dl@ v*e pryjn@toho zapusku vykorystajte {STOP.}'')"

definition action_answered ::
  "(string \<Rightarrow> bool) \<Rightarrow> pane_env \<Rightarrow> action_kind \<Rightarrow> schedule_write \<Rightarrow> json \<Rightarrow> schedule_pane \<Rightarrow> schedule_pane" where
  "action_answered known env kind input raw st =
     (case kind of
        PreviewAction \<Rightarrow>
          (case parseSchedulePreview raw of
             Inl e \<Rightarrow> action_failed kind (ApiExn e) st
           | Inr p \<Rightarrow> st\<lparr>pn_preview := Some p, pn_previewed := (input, p) # pn_previewed st\<rparr>)
      | DeleteAction \<Rightarrow> st\<lparr>pn_refreshes := Suc (pn_refreshes st), pn_notice := Some deleted_notice\<rparr>
      | SaveAction \<Rightarrow>
          (case parseSchedule known raw (pe_device env) (pe_organization env) of
             Inl e \<Rightarrow> action_failed kind (ApiExn e) st
           | Inr saved \<Rightarrow>
               if \<not> saved_matches input saved then action_failed kind save_unconfirmed st
               else st\<lparr>pn_draft := None, pn_preview := None, pn_refreshes := Suc (pn_refreshes st),
                       pn_notice := Some (saved_notice (item_enabled saved))\<rparr>))"

definition action_settled :: "(string \<Rightarrow> bool) \<Rightarrow> pane_env \<Rightarrow> exn + json \<Rightarrow> schedule_pane \<Rightarrow> schedule_pane" where
  "action_settled known env outcome st =
     (case pn_pending st of
        None \<Rightarrow> st
      | Some (kind, input) \<Rightarrow>
          if pn_aborted st then st\<lparr>pn_pending := None\<rparr>
          else (case outcome of
                  Inl e \<Rightarrow> action_failed kind e st
                | Inr raw \<Rightarrow> action_answered known env kind input raw st)\<lparr>pn_pending := None, pn_busy := False\<rparr>)"

section \<open>The controls\<close>

datatype pane_event =
    ClickNew string string
  | ClickEdit json
  | ClickToggle json
  | ClickDelete json
  | ClickHistory json
  | FormEdit schedule_edit
  | Submit
  | Leave
  | ClickSave
  | Confirm
  | CloseConfirm
  | ConfirmDelete
  | CloseDelete
  | Settled "exn + json"
  | Unmounted

definition preview_ready :: "json \<Rightarrow> bool" where
  "preview_ready p = (elems (fld p ''runs'') \<noteq> [] \<and> elems (fld p ''conflicts'') = [])"

text \<open>The submit handler normalizes the times, shows them and asks for the preview of the same draft.\<close>

definition submit_draft :: "pane_env \<Rightarrow> schedule_pane \<Rightarrow> schedule_pane" where
  "submit_draft env st =
     (case pn_draft st of
        None \<Rightarrow> st
      | Some d \<Rightarrow>
          (let spec = normalizeScheduleTimes (sw_spec d) in
           schedule_action PreviewAction (d\<lparr>sw_spec := spec\<rparr>) env (change_spec spec st)))"

text \<open>The list and its buttons are rendered without a draft, the form with one.\<close>

definition list_button :: "pane_env \<Rightarrow> schedule_pane \<Rightarrow> json \<Rightarrow> bool" where
  "list_button env st item =
     (pn_draft st = None \<and> item \<in> set (listed env) \<and> pe_can_write env \<and> \<not> actionDisabled env st)"

fun pane_step :: "(string \<Rightarrow> bool) \<Rightarrow> pane_env \<Rightarrow> pane_event \<Rightarrow> schedule_pane \<Rightarrow> schedule_pane" where
  "pane_step known env (ClickNew uuid today) st =
     (if pn_draft st = None \<and> pe_can_write env \<and> \<not> actionDisabled env st then edit_new uuid today env st else st)"
| "pane_step known env (ClickEdit item) st = (if list_button env st item then edit_item known item st else st)"
| "pane_step known env (ClickToggle item) st =
     (if list_button env st item
      then (let w = write_of item (\<not> item_enabled item) in
            st\<lparr>pn_confirmation := Some w, pn_toggled := w # pn_toggled st\<rparr>)
      else st)"
| "pane_step known env (ClickDelete item) st = (if list_button env st item then st\<lparr>pn_deletion := Some item\<rparr> else st)"
| "pane_step known env (ClickHistory item) st =
     (if pn_draft st = None \<and> item \<in> set (listed env)
      then st\<lparr>pn_history := (case pn_history st of
                Some h \<Rightarrow> if fld h ''id'' = fld item ''id'' then None else Some item | None \<Rightarrow> Some item)\<rparr>
      else st)"
| "pane_step known env (FormEdit e) st =
     (case pn_draft st of
        None \<Rightarrow> st
      | Some d \<Rightarrow> if \<not> pn_busy st \<and> edit_offered (sw_spec d) e then change_spec (edit_spec e (sw_spec d)) st else st)"
| "pane_step known env Submit st = (if \<not> actionDisabled env st then submit_draft env st else st)"
| "pane_step known env Leave st =
     (if pn_draft st \<noteq> None \<and> \<not> pn_busy st then st\<lparr>pn_draft := None, pn_preview := None, pn_notice := None\<rparr> else st)"
| "pane_step known env ClickSave st =
     (case (pn_draft st, pn_preview st) of
        (Some d, Some p) \<Rightarrow>
          if actionDisabled env st \<or> \<not> preview_ready p then st else st\<lparr>pn_confirmation := Some (d\<lparr>sw_enabled := True\<rparr>)\<rparr>
      | _ \<Rightarrow> st)"
| "pane_step known env Confirm st =
     (case pn_confirmation st of
        None \<Rightarrow> st
      | Some w \<Rightarrow>
          if pe_visible env \<and> \<not> actionDisabled env st
          then (schedule_action SaveAction w env st)\<lparr>pn_confirmation := None\<rparr> else st)"
| "pane_step known env CloseConfirm st = st\<lparr>pn_confirmation := None\<rparr>"
| "pane_step known env ConfirmDelete st =
     (case pn_deletion st of
        None \<Rightarrow> st
      | Some item \<Rightarrow>
          if pe_visible env \<and> \<not> actionDisabled env st
          then (schedule_action DeleteAction (write_of item (item_enabled item)) env st)\<lparr>pn_deletion := None\<rparr> else st)"
| "pane_step known env CloseDelete st = st\<lparr>pn_deletion := None\<rparr>"
| "pane_step known env (Settled outcome) st = action_settled known env outcome st"
| "pane_step known env Unmounted st = st\<lparr>pn_aborted := True\<rparr>"

text \<open>The rows of the calendar query are those \<open>parseSchedules\<close> accepted.\<close>

definition env_ok :: "(string \<Rightarrow> bool) \<Rightarrow> pane_env \<Rightarrow> bool" where
  "env_ok known env \<longleftrightarrow>
     (\<forall>rows. pe_data env = Some rows \<longrightarrow> (\<exists>raw. parseSchedules known raw (pe_device env) (pe_organization env) = Inr rows))"

inductive pane_reachable :: "(string \<Rightarrow> bool) \<Rightarrow> schedule_pane \<Rightarrow> bool" for known where
  pane_starts: "pane_reachable known pane_start"
| pane_steps: "pane_reachable known st \<Longrightarrow> env_ok known env \<Longrightarrow> pane_reachable known (pane_step known env e st)"

section \<open>The bounds of a rule\<close>

definition spec_bounded :: "schedule_spec \<Rightarrow> bool" where
  "spec_bounded spec \<longleftrightarrow>
     length (sp_changes spec) \<le> 7 \<and> (\<forall>c \<in> set (sp_changes spec). 0 \<le> chg_day_offset c \<and> chg_day_offset c \<le> 7)
     \<and> length (sp_excluded_dates spec) \<le> 100 \<and> 0 \<le> sp_stop_day_offset spec \<and> sp_stop_day_offset spec \<le> 7
     \<and> distinct (sp_weekdays spec) \<and> set (sp_weekdays spec) \<subseteq> {0..6}
     \<and> distinct (sp_months spec) \<and> set (sp_months spec) \<subseteq> {1..12} \<and> has_label repeatLabels (sp_repeat spec)"

lemma change_at_facts: "length (change_at i f xs) = length xs" "set (change_at i f xs) \<subseteq> set xs \<union> f ` set xs"
  by (auto simp: change_at_def set_zip)

lemma remove_at_facts: "length (remove_at i xs) \<le> length xs" "set (remove_at i xs) \<subseteq> set xs"
proof -
  show "length (remove_at i xs) \<le> length xs"
    using length_filter_le [of "\<lambda>(j, x). j \<noteq> i" "zip [0..<length xs] xs"] by (simp add: remove_at_def)
qed (auto simp: remove_at_def set_zip)

lemma toggle_facts: "distinct vs \<Longrightarrow> distinct (toggle_number vs v)" "set (toggle_number vs v) \<subseteq> insert v (set vs)"
  by (auto simp: toggle_number_def)

lemma toggle_toggles: "x \<in> set (toggle_number vs v) \<longleftrightarrow> (if x = v then v \<notin> set vs else x \<in> set vs)"
  by (auto simp: toggle_number_def)

lemma days: "int (length scheduleDayLabels) = 8"
  by (simp add: scheduleDayLabels_def)

lemma edit_bounded: "spec_bounded spec \<Longrightarrow> edit_offered spec e \<Longrightarrow> spec_bounded (edit_spec e spec)"
proof (cases e)
  case (SetRepeat r)
  assume "spec_bounded spec" "edit_offered spec e"
  moreover have "set [1..12] = {1..12::int}" by auto
  ultimately show ?thesis using SetRepeat by (simp add: spec_bounded_def)
next
  case (ToggleWeekday day)
  assume "spec_bounded spec" "edit_offered spec e"
  then show ?thesis using ToggleWeekday toggle_facts(2) [of "sp_weekdays spec" day]
    by (auto simp: spec_bounded_def toggle_facts(1))
next
  case (ToggleMonth m)
  assume "spec_bounded spec" "edit_offered spec e"
  then show ?thesis using ToggleMonth toggle_facts(2) [of "sp_months spec" m]
    by (auto simp: spec_bounded_def toggle_facts(1))
next
  case (SetChangeTime i t)
  assume "spec_bounded spec" "edit_offered spec e"
  then show ?thesis using SetChangeTime change_at_facts [of i "\<lambda>c. c\<lparr>chg_at := t\<rparr>" "sp_changes spec"]
    by (fastforce simp: spec_bounded_def)
next
  case (SetChangeDay i n)
  assume "spec_bounded spec" "edit_offered spec e"
  then show ?thesis using SetChangeDay change_at_facts [of i "\<lambda>c. c\<lparr>chg_day_offset := n\<rparr>" "sp_changes spec"]
    by (fastforce simp: spec_bounded_def days)
next
  case (SetChangeFrequency i f)
  assume "spec_bounded spec" "edit_offered spec e"
  then show ?thesis using SetChangeFrequency change_at_facts [of i "\<lambda>c. c\<lparr>chg_frequency := f\<rparr>" "sp_changes spec"]
    by (fastforce simp: spec_bounded_def)
next
  case (RemoveChange i)
  assume "spec_bounded spec" "edit_offered spec e"
  then show ?thesis using RemoveChange remove_at_facts [of i "sp_changes spec"] by (fastforce simp: spec_bounded_def)
next
  case (RemoveExclusion i)
  assume "spec_bounded spec" "edit_offered spec e"
  then show ?thesis using RemoveExclusion remove_at_facts [of i "sp_excluded_dates spec"] by (fastforce simp: spec_bounded_def)
qed (auto simp: spec_bounded_def change_at_facts days)

lemma normalize_bounded: "spec_bounded spec \<Longrightarrow> spec_bounded (normalizeScheduleTimes spec)"
  by (auto simp: spec_bounded_def normalizeScheduleTimes_def)

lemma new_bounded: "spec_bounded (newScheduleSpec timezone today)"
proof -
  have "has_label repeatLabels ''once''" "set [1..12] = {1..12::int}" by (simp add: has_label_def repeatLabels_def) auto
  then show ?thesis by (simp add: spec_bounded_def newScheduleSpec_def)
qed

lemma int_list_facts:
  assumes "int_list_ok v lo hi"
  shows "distinct (map int_of (elems v)) \<and> set (map int_of (elems v)) \<subseteq> {lo..hi}"
proof -
  from assms have d: "distinct (elems v)" and r: "\<forall>x \<in> set (elems v). is_integer x \<and> lo \<le> int_of x \<and> int_of x \<le> hi"
    by (auto simp: int_list_ok_def list_all_iff)
  have "inj_on int_of (set (elems v))"
  proof (rule inj_onI)
    fix x y assume xy: "x \<in> set (elems v)" "y \<in> set (elems v)" "int_of x = int_of y"
    with r have "is_integer x" "is_integer y" by blast+
    then obtain p q where v: "x = JNum (Fin p)" "y = JNum (Fin q)"
      by (cases x rule: is_integer.cases; cases y rule: is_integer.cases) (auto elim!: num_integer.elims)
    with \<open>is_integer x\<close> \<open>is_integer y\<close> xy(3) have "p = q"
      using is_integer_rat_of [of x] is_integer_rat_of [of y] by simp
    with v show "x = y" by simp
  qed
  with d r show ?thesis by (auto simp: distinct_map)
qed

lemma parsed_spec_bounded:
  assumes "parseScheduleSpec known raw = Inr s"
  shows "spec_bounded (spec_of raw)"
proof -
  from assms have i: "int_list_ok (fld raw ''weekdays'') 0 6" "int_list_ok (fld raw ''months'') 1 12"
    by (auto simp: parseScheduleSpec_def Let_def seqE_ok reject_ok)
  from assms int_list_facts [OF i(1)] int_list_facts [OF i(2)] show ?thesis
  by (auto simp: parseScheduleSpec_def Let_def seqE_ok reject_ok spec_bounded_def spec_of_def change_of_def dayOffset_def
      int_in_def MAX_SCHEDULE_DAYS_def list_ex_iff not_less)
qed

lemma listed_bounded:
  assumes "env_ok known env" "item \<in> set (listed env)"
  shows "spec_bounded (spec_of (fld item ''spec''))"
proof -
  from assms obtain raw rows where r: "parseSchedules known raw (pe_device env) (pe_organization env) = Inr rows" "item \<in> set rows"
    by (cases "pe_data env") (auto simp: listed_def env_ok_def)
  then have "mapE (\<lambda>row. parseSchedule known row (pe_device env) (pe_organization env)) (elems raw) = Inr rows"
    unfolding parseSchedules_def bindE_ok seqE_ok reject_ok by auto
  from mapE_set_ok [OF this r(2)] obtain row where "parseSchedule known row (pe_device env) (pe_organization env) = Inr item"
    by blast
  then obtain s where "parseScheduleSpec known (fld item ''spec'') = Inr s"
    unfolding parseSchedule_def Let_def seqE_ok reject_ok ignoreE_ok sum.inject by auto
  then show ?thesis by (rule parsed_spec_bounded)
qed

section \<open>The invariant\<close>

definition approved :: "schedule_pane \<Rightarrow> schedule_write \<Rightarrow> bool" where
  "approved st w \<longleftrightarrow>
     w \<in> set (pn_toggled st)
     \<or> (\<exists>d p. (d, p) \<in> set (pn_previewed st) \<and> preview_ready p \<and> w = d\<lparr>sw_enabled := True\<rparr>)"

definition pane_inv :: "schedule_pane \<Rightarrow> bool" where
  "pane_inv st \<longleftrightarrow>
     (\<forall>d. pn_draft st = Some d \<longrightarrow> spec_bounded (sw_spec d))
     \<and> (\<forall>item. pn_deletion st = Some item \<longrightarrow> spec_bounded (spec_of (fld item ''spec'')))
     \<and> (\<forall>w. pn_confirmation st = Some w \<longrightarrow> spec_bounded (sw_spec w) \<and> approved st w)
     \<and> (\<forall>k w. pn_pending st = Some (k, w) \<longrightarrow> pn_busy st \<and> (k, w) \<in> set (pn_sent st)
          \<and> (k = PreviewAction \<and> \<not> pn_aborted st \<longrightarrow> pn_draft st = Some w))
     \<and> (\<forall>d p. pn_draft st = Some d \<and> pn_preview st = Some p \<longrightarrow> (d, p) \<in> set (pn_previewed st))
     \<and> (\<forall>k w. (k, w) \<in> set (pn_sent st) \<longrightarrow> spec_bounded (sw_spec w) \<and> (k = SaveAction \<longrightarrow> approved st w))
     \<and> (\<forall>d p. (d, p) \<in> set (pn_previewed st) \<longrightarrow> (PreviewAction, d) \<in> set (pn_sent st) \<and> (\<exists>raw. parseSchedulePreview raw = Inr p))"

lemma approved_mono:
  "approved st w \<Longrightarrow> set (pn_toggled st) \<subseteq> set (pn_toggled st') \<Longrightarrow> set (pn_previewed st) \<subseteq> set (pn_previewed st')
    \<Longrightarrow> approved st' w"
  by (auto simp: approved_def)

lemma panel_inv_start: "pane_inv pane_start"
  by (simp add: pane_inv_def pane_start_def)

lemma inv_change:
  assumes "pane_inv st" "\<not> pn_busy st" "spec_bounded spec"
  shows "pane_inv (change_spec spec st)"
  using assms by (auto simp: pane_inv_def change_spec_def approved_def split: option.splits)

lemma inv_edit_item:
  assumes "pane_inv st" "\<not> pn_busy st" "spec_bounded (spec_of (fld item ''spec''))"
  shows "pane_inv (edit_item known item st)"
  using assms by (auto simp: pane_inv_def edit_item_def write_of_def approved_def Let_def split: sum.splits)

lemma inv_action:
  assumes "pane_inv st" "spec_bounded (sw_spec w)" "k = SaveAction \<Longrightarrow> approved st w"
    and "k = PreviewAction \<Longrightarrow> pn_draft st = Some w"
  shows "pane_inv (schedule_action k w env st)"
  using assms by (auto simp: pane_inv_def schedule_action_def approved_def)

lemma inv_submit:
  assumes "pane_inv st" "\<not> pn_busy st"
  shows "pane_inv (submit_draft env st)"
proof (cases "pn_draft st")
  case (Some d)
  let ?spec = "normalizeScheduleTimes (sw_spec d)"
  have b: "spec_bounded ?spec" using assms(1) Some normalize_bounded by (simp add: pane_inv_def)
  then show ?thesis
    using inv_action [OF inv_change [OF assms b], of "d\<lparr>sw_spec := ?spec\<rparr>" PreviewAction env] Some
    by (simp add: submit_draft_def change_spec_def Let_def)
qed (use assms in \<open>simp add: submit_draft_def\<close>)

lemma panel_inv_answered:
  assumes "pane_inv st" "pn_pending st = Some (k, w)" "\<not> pn_aborted st"
  shows "pane_inv ((action_answered known env k w raw st)\<lparr>pn_pending := None, pn_busy := False\<rparr>)"
proof (cases "k = PreviewAction \<and> isOk (parseSchedulePreview raw)")
  case True
  then obtain p where p: "k = PreviewAction" "parseSchedulePreview raw = Inr p" unfolding isOk_iff by blast
  let ?st = "(st\<lparr>pn_preview := Some p, pn_previewed := (w, p) # pn_previewed st\<rparr>)\<lparr>pn_pending := None, pn_busy := False\<rparr>"
  have "approved ?st v" if "approved st v" for v by (rule approved_mono [OF that]) auto
  moreover have "pn_draft st = Some w" "(PreviewAction, w) \<in> set (pn_sent st)" using assms p by (auto simp: pane_inv_def)
  ultimately have "pane_inv ?st" using assms(1) p(2) by (auto simp: pane_inv_def)
  with p show ?thesis by (simp add: action_answered_def)
next
  case False
  with assms show ?thesis
    by (cases k) (auto simp: pane_inv_def action_answered_def action_failed_def approved_def isOk_iff split: sum.splits)
qed

lemma inv_settled:
  assumes "pane_inv st"
  shows "pane_inv (action_settled known env outcome st)"
proof (cases "pn_pending st")
  case (Some kw)
  obtain k w where kw: "pn_pending st = Some (k, w)" using Some by (cases kw) auto
  show ?thesis
  proof (cases "pn_aborted st")
    case True
    with assms kw show ?thesis by (auto simp: action_settled_def pane_inv_def approved_def)
  next
    case False
    show ?thesis
    proof (cases outcome)
      case (Inl e)
      with assms kw False show ?thesis by (auto simp: action_settled_def pane_inv_def approved_def action_failed_def)
    next
      case (Inr raw)
      with panel_inv_answered [OF assms kw False] kw False show ?thesis by (simp add: action_settled_def)
    qed
  qed
qed (use assms in \<open>simp add: action_settled_def\<close>)

lemma inv_step:
  assumes "pane_inv st" "env_ok known env"
  shows "pane_inv (pane_step known env e st)"
proof (cases e)
  case (ClickNew uuid today)
  with assms show ?thesis
    by (auto simp: pane_inv_def edit_new_def new_bounded approved_def actionDisabled_def)
next
  case (ClickEdit item)
  with assms show ?thesis
    using inv_edit_item [of st item known] listed_bounded [OF assms(2), of item]
    by (simp add: list_button_def actionDisabled_def)
next
  case (ClickToggle item)
  with assms show ?thesis
    using listed_bounded [OF assms(2), of item]
    by (auto simp: list_button_def Let_def pane_inv_def approved_def write_of_def)
next
  case (ClickDelete item)
  with assms show ?thesis
    using listed_bounded [OF assms(2), of item] by (auto simp: list_button_def pane_inv_def approved_def)
next
  case (ClickHistory item)
  with assms(1) show ?thesis by (auto simp: pane_inv_def approved_def)
next
  case (FormEdit x)
  show ?thesis
  proof (cases "pn_draft st")
    case (Some d)
    with assms(1) have "spec_bounded (sw_spec d)" by (simp add: pane_inv_def)
    with FormEdit Some assms(1) show ?thesis
      using inv_change [OF assms(1)] edit_bounded [of "sw_spec d" x] by simp
  qed (use FormEdit assms in simp)
next
  case Submit
  with assms(1) show ?thesis using inv_submit [OF assms(1)] by (simp add: actionDisabled_def)
next
  case Leave
  with assms(1) show ?thesis by (auto simp: pane_inv_def approved_def)
next
  case ClickSave
  with assms(1) show ?thesis
    by (auto simp: pane_inv_def approved_def split: option.splits) blast
next
  case Confirm
  show ?thesis
  proof (cases "pn_confirmation st")
    case (Some w)
    with assms(1) have "pane_inv (schedule_action SaveAction w env st)" by (intro inv_action) (auto simp: pane_inv_def)
    with assms(1) Some Confirm show ?thesis by (auto simp: pane_inv_def approved_def)
  qed (use assms Confirm in simp)
next
  case CloseConfirm
  with assms(1) show ?thesis by (auto simp: pane_inv_def approved_def)
next
  case ConfirmDelete
  show ?thesis
  proof (cases "pn_deletion st")
    case (Some item)
    with assms(1) have "pane_inv (schedule_action DeleteAction (write_of item (item_enabled item)) env st)"
      by (intro inv_action) (auto simp: pane_inv_def write_of_def)
    with assms(1) Some ConfirmDelete show ?thesis by (auto simp: pane_inv_def approved_def)
  qed (use assms ConfirmDelete in simp)
next
  case CloseDelete
  with assms(1) show ?thesis by (auto simp: pane_inv_def approved_def)
next
  case (Settled outcome)
  with inv_settled [OF assms(1)] show ?thesis by simp
next
  case Unmounted
  with assms(1) show ?thesis by (auto simp: pane_inv_def approved_def)
qed

lemma pane_inv_holds: "pane_reachable known st \<Longrightarrow> pane_inv st"
  by (induction rule: pane_reachable.induct) (auto intro: panel_inv_start inv_step)

section \<open>Properties\<close>


definition sample_preview :: json where
  "sample_preview = JObj [(''runs'', JArr [sample_run]), (''conflicts'', JArr []), (''notes'', JArr []),
     (''conflict_horizon_days'', JNum (Fin 366))]"

definition sample_pane_env :: pane_env where
  "sample_pane_env = \<lparr> pe_can_read = True, pe_can_write = True, pe_visible = True, pe_query_active = True,
     pe_query_error = False, pe_online = True, pe_data = Some [], pe_timezone = ''UTC'', pe_device = ''d'',
     pe_organization = ''o'' \<rparr>"

definition sample_known :: "string \<Rightarrow> bool" where
  "sample_known z = (z = ''UTC'')"

lemma sample_env_ok: "env_ok sample_known sample_pane_env"
proof -
  have "parseSchedules sample_known (JArr []) ''d'' ''o'' = Inr []" by (simp add: parseSchedules_def reject_def set_size_def)
  then show ?thesis by (auto simp: env_ok_def sample_pane_env_def)
qed

definition sample_draft :: schedule_write where
  "sample_draft = \<lparr> sw_id = ''i'', sw_expected_revision = 0, sw_enabled = True,
     sw_spec = newScheduleSpec ''UTC'' ''2026-07-01'' \<rparr>"

definition sample_pane :: "pane_event list \<Rightarrow> schedule_pane" where
  "sample_pane events = foldl (\<lambda>st e. pane_step sample_known sample_pane_env e st) pane_start events"

lemma sample_pane_reachable: "pane_reachable sample_known (sample_pane events)"
proof (induction events rule: rev_induct)
  case (snoc e es)
  then show ?case using sample_env_ok pane_steps by (simp add: sample_pane_def)
qed (simp add: sample_pane_def pane_starts)

lemma sample_save_pending:
  "pn_pending (sample_pane [ClickNew ''i'' ''2026-07-01'', Submit, Settled (Inr sample_preview), ClickSave, Confirm])
     = Some (SaveAction, sample_draft)"
  "(SaveAction, sample_draft) \<in> set (pn_sent (sample_pane
     [ClickNew ''i'' ''2026-07-01'', Submit, Settled (Inr sample_preview), ClickSave, Confirm]))"
  "\<not> pn_aborted (sample_pane [ClickNew ''i'' ''2026-07-01'', Submit, Settled (Inr sample_preview), ClickSave, Confirm])"
  "pn_draft (sample_pane [ClickNew ''i'' ''2026-07-01'', Submit, Settled (Inr sample_preview), ClickSave, Confirm])
     = Some sample_draft"
proof -
  have "isOk (parseSchedulePreview sample_preview)" by code_simp
  then obtain p where "parseSchedulePreview sample_preview = Inr p" unfolding isOk_iff by blast
  then have p: "parseSchedulePreview sample_preview = Inr sample_preview"
    unfolding parseSchedulePreview_def Let_def seqE_ok reject_ok by auto
  have r: "preview_ready sample_preview" by (simp add: preview_ready_def sample_preview_def)
  have "normalizeScheduleTimes (newScheduleSpec ''UTC'' ''2026-07-01'') = newScheduleSpec ''UTC'' ''2026-07-01''" by code_simp
  note e = p r this sample_pane_def sample_pane_env_def pane_start_def edit_new_def submit_draft_def schedule_action_def
    change_spec_def action_settled_def action_answered_def actionDisabled_def atLimit_def listed_def sample_draft_def
    MAX_DEVICE_SCHEDULES_def Let_def
  show "pn_pending (sample_pane [ClickNew ''i'' ''2026-07-01'', Submit, Settled (Inr sample_preview), ClickSave, Confirm])
      = Some (SaveAction, sample_draft)" by (simp add: e)
  show "(SaveAction, sample_draft) \<in> set (pn_sent (sample_pane
      [ClickNew ''i'' ''2026-07-01'', Submit, Settled (Inr sample_preview), ClickSave, Confirm]))" by (simp add: e)
  show "\<not> pn_aborted (sample_pane [ClickNew ''i'' ''2026-07-01'', Submit, Settled (Inr sample_preview), ClickSave, Confirm])"
    by (simp add: e)
  show "pn_draft (sample_pane [ClickNew ''i'' ''2026-07-01'', Submit, Settled (Inr sample_preview), ClickSave, Confirm])
      = Some sample_draft" by (simp add: e)
qed


text \<open>A save is reported as done only when the answer says so: when the answer to a save arrives, the draft is
  dropped and the list is refreshed exactly when it is a valid schedule of this device and organization with the
  identity that was sent, the next revision and the state asked for; in every other case (an error, a malformed or
  foreign answer, another revision) the draft and its preview are kept, the list is not refreshed, and the message
  ends with the warning that the change may nevertheless have been stored. Either way the panel is free again.\<close>

theorem schedule_save_outcome:
  assumes "pn_pending st = Some (SaveAction, w)" and "\<not> pn_aborted st"
    and "st' = pane_step known env (Settled outcome) st"
  shows "pn_pending st' = None \<and> \<not> pn_busy st'
    \<and> (if \<exists>raw saved. outcome = Inr raw \<and> parseSchedule known raw (pe_device env) (pe_organization env) = Inr saved
            \<and> wf_schedule known (pe_device env) (pe_organization env) saved \<and> saved_matches w saved
       then pn_draft st' = None \<and> pn_preview st' = None \<and> pn_refreshes st' = Suc (pn_refreshes st)
         \<and> pn_notice st' = Some (saved_notice (sw_enabled w))
       else pn_draft st' = pn_draft st \<and> pn_preview st' = pn_preview st \<and> pn_refreshes st' = pn_refreshes st
         \<and> (\<exists>message. pn_notice st' = Some (message @ (uk '' Onovit= spysok pered povtorom: zminy mohly zberehtys@.''))))"
proof (cases outcome)
  case (Inl e)
  with assms show ?thesis by (auto simp: action_settled_def action_failed_def)
next
  case (Inr raw)
  show ?thesis
  proof (cases "parseSchedule known raw (pe_device env) (pe_organization env)")
    case (Inl e)
    with assms Inr show ?thesis by (auto simp: action_settled_def action_answered_def action_failed_def)
  next
    case ok: (Inr saved)
    with assms Inr parseSchedule_wf [OF ok] show ?thesis
      by (auto simp: action_settled_def action_answered_def action_failed_def saved_matches_def)
  qed
qed

lemma schedule_save_outcome_witness:
  "\<exists>st. pn_draft (pane_step sample_known sample_pane_env (Settled (Inr JNull)) st) = Some sample_draft
     \<and> \<not> pn_busy (pane_step sample_known sample_pane_env (Settled (Inr JNull)) st)"
proof -
  have "\<not> isOk (parseSchedule sample_known JNull ''d'' ''o'')" by code_simp
  then have "parseSchedule sample_known JNull ''d'' ''o'' \<noteq> Inr s" for s by (auto simp: isOk_iff)
  with schedule_save_outcome [OF sample_save_pending(1,3) refl, of sample_known sample_pane_env "Inr JNull"]
    sample_save_pending(4) show ?thesis
    by (auto simp: sample_pane_env_def)
qed

end
