(* ===== verification/ApiClient.thy ===== *)
theory ApiClient
  imports Access
begin

text \<open>
  \<open>lib/api/config.ts\<close>, \<open>lib/api/client.ts\<close> and \<open>lib/api/endpoints.ts\<close>: the configured origin, the one
  function every request goes through, and the three calls of the browser session.

  The platform's URL parser (\<open>new URL\<close>) and \<open>JSON.parse\<close> are parameters, and so is the network: an
  \<open>outcome\<close> is what \<open>fetch\<close> and the reading of the body gave. \<open>apiRequest\<close> is the whole function from
  its options to the value or the exception, with the state of the abort signal when the outcome
  arrived. Bodies are JSON values, not their text.
\<close>

section \<open>Configuration\<close>

record parsed_url =
  url_protocol :: string
  url_username :: string
  url_password :: string
  url_search :: string
  url_hash :: string
  url_pathname :: string
  url_origin :: string

definition DEFAULT_API_BASE_URL :: string where
  "DEFAULT_API_BASE_URL = ''http://127.0.0.1:8001''"

definition DEFAULT_API_TIMEOUT_MS :: int where
  "DEFAULT_API_TIMEOUT_MS = 10000"

definition MIN_API_TIMEOUT_MS :: int where
  "MIN_API_TIMEOUT_MS = 1000"

definition MAX_API_TIMEOUT_MS :: int where
  "MAX_API_TIMEOUT_MS = 60000"

text \<open>\<open>value?.trim() || fallback\<close>\<close>

definition trimmed_or :: "string option \<Rightarrow> string \<Rightarrow> string" where
  "trimmed_or value fallback =
     (case value of None \<Rightarrow> fallback | Some v \<Rightarrow> if js_trim v = [] then fallback else js_trim v)"

definition strip_slashes :: "string \<Rightarrow> string" where
  "strip_slashes s = rev (dropWhile (\<lambda>c. c = CHR ''/'') (rev s))"

definition normalizeApiBaseUrl :: "(string \<Rightarrow> parsed_url option) \<Rightarrow> string option \<Rightarrow> string + string" where
  "normalizeApiBaseUrl new_url value =
     (case new_url (trimmed_or value DEFAULT_API_BASE_URL) of
        None \<Rightarrow> Inl ''NEXT_PUBLIC_API_BASE_URL must be an absolute http(s) URL.''
      | Some parsed \<Rightarrow>
          if url_protocol parsed \<noteq> ''http:'' \<and> url_protocol parsed \<noteq> ''https:''
          then Inl ''NEXT_PUBLIC_API_BASE_URL must use http or https.''
          else if url_username parsed \<noteq> [] \<or> url_password parsed \<noteq> []
          then Inl ''NEXT_PUBLIC_API_BASE_URL must not contain credentials.''
          else if url_search parsed \<noteq> [] \<or> url_hash parsed \<noteq> []
          then Inl ''NEXT_PUBLIC_API_BASE_URL must not contain query or fragment values.''
          else if strip_slashes (url_pathname parsed) \<notin> {[], ''/api/v1''}
          then Inl ''NEXT_PUBLIC_API_BASE_URL may contain only the optional /api/v1 suffix.''
          else Inr (url_origin parsed))"

definition normalizeTimeout :: "string option \<Rightarrow> string + int" where
  "normalizeTimeout value =
     (case value of
        None \<Rightarrow> Inr DEFAULT_API_TIMEOUT_MS
      | Some v \<Rightarrow>
          if js_blank v then Inr DEFAULT_API_TIMEOUT_MS
          else (let parsed = js_number v in
            if \<not> num_integer parsed \<or> \<lfloor>num_rat parsed\<rfloor> < MIN_API_TIMEOUT_MS
              \<or> MAX_API_TIMEOUT_MS < \<lfloor>num_rat parsed\<rfloor>
            then Inl ''NEXT_PUBLIC_API_TIMEOUT_MS must be an integer from 1000 to 60000.''
            else Inr \<lfloor>num_rat parsed\<rfloor>))"

record api_config =
  cfg_base_url :: string
  cfg_timeout_ms :: int
  cfg_api_prefix :: string

definition apiConfig ::
  "(string \<Rightarrow> parsed_url option) \<Rightarrow> string option \<Rightarrow> string option \<Rightarrow> string + api_config" where
  "apiConfig new_url base timeout =
     bindE (normalizeApiBaseUrl new_url base) (\<lambda>b.
     bindE (normalizeTimeout timeout) (\<lambda>t.
     Inr \<lparr> cfg_base_url = b, cfg_timeout_ms = t, cfg_api_prefix = ''/api/v1'' \<rparr>))"

text \<open>A character of \<open>/[\\\u0000-\u0020#]/u\<close>.\<close>

definition unsafe_path_char :: "char \<Rightarrow> bool" where
  "unsafe_path_char c = (c = CHR 0x5C \<or> (of_char c :: nat) \<le> 32 \<or> c = CHR ''#'')"

text \<open>\<open>resolve path base\<close> is \<open>new URL(path, base)\<close>, \<open>None\<close> when it throws.\<close>

definition buildApiUrl :: "(string \<Rightarrow> string \<Rightarrow> parsed_url option) \<Rightarrow> string \<Rightarrow> string \<Rightarrow> string + parsed_url" where
  "buildApiUrl resolve base path =
     (if \<not> starts_with ''/'' path \<or> starts_with ''//'' path \<or> list_ex unsafe_path_char path
      then Inl ''API path must be a root-relative path on the configured backend.''
      else case resolve path (base @ ''/'') of
          None \<Rightarrow> Inl ''Invalid URL''
        | Some url \<Rightarrow>
            if url_origin url \<noteq> base \<or> url_username url \<noteq> [] \<or> url_password url \<noteq> []
            then Inl ''API request cannot leave the configured backend origin.''
            else Inr url)"

section \<open>Requests\<close>

text \<open>The pairs \<open>appendQuery\<close> appends to the search parameters.\<close>

definition query_values :: "json \<Rightarrow> json list" where
  "query_values raw = filter (\<lambda>v. v \<noteq> JUndef) (if is_array raw then elems raw else [raw])"

fun appendQuery :: "json \<Rightarrow> (string \<times> string) list" where
  "appendQuery (JObj ps) =
     concat (map (\<lambda>(key, raw). map (\<lambda>v. (key, if v = JNull then [] else js_string v)) (query_values raw)) ps)"
| "appendQuery _ = []"

record http_response =
  rs_status :: int
  rs_text :: string
  rs_content_type :: "string option"
  rs_retry_after :: "string option"
  rs_request_id :: "string option"

definition readResponseBody ::
  "(string \<Rightarrow> json option) \<Rightarrow> http_response \<Rightarrow> string \<Rightarrow> string \<Rightarrow> json result" where
  "readResponseBody json_parse response method url =
     (if rs_status response = 204 \<or> rs_status response = 205 then Inr JNull
      else if rs_text response = [] then Inr JNull
      else if \<not> js_includes (case rs_content_type response of None \<Rightarrow> [] | Some c \<Rightarrow> js_lower c) ''json''
      then Inr (JStr (rs_text response))
      else case json_parse (rs_text response) of
          Some v \<Rightarrow> Inr v
        | None \<Rightarrow> Inl
            \<lparr> err_message = (uk ''Ne vdalos@ otrymaty dani. Sprobujte qe raz.''), err_kind = InvalidResponse,
              err_status = Some (rs_status response), err_method = method, err_url = url, err_retry_after = None,
              err_request_id = rs_request_id response, err_details = JStr (js_take 500 (rs_text response)) \<rparr>)"

text \<open>The combined signal: aborted by the timer or by the caller's own signal.\<close>

record abort_signal =
  ab_aborted :: bool
  ab_timed_out :: bool
  ab_timer_armed :: bool
  ab_listening :: bool

text \<open>The argument is the caller's signal: absent, or present with its \<open>aborted\<close> flag.\<close>

definition createCombinedAbortSignal :: "bool option \<Rightarrow> abort_signal" where
  "createCombinedAbortSignal external =
     \<lparr> ab_aborted = (external = Some True), ab_timed_out = False, ab_timer_armed = True,
       ab_listening = (external = Some False) \<rparr>"

definition abort_timeout :: "abort_signal \<Rightarrow> abort_signal" where
  "abort_timeout s =
     (if ab_timer_armed s then s\<lparr>ab_timed_out := True, ab_aborted := True, ab_timer_armed := False\<rparr> else s)"

definition abortFromExternal :: "abort_signal \<Rightarrow> abort_signal" where
  "abortFromExternal s = (if ab_listening s then s\<lparr>ab_aborted := True, ab_listening := False\<rparr> else s)"

definition abort_cleanup :: "abort_signal \<Rightarrow> abort_signal" where
  "abort_cleanup s = s\<lparr>ab_timer_armed := False, ab_listening := False\<rparr>"

record request_options =
  ro_path :: string
  ro_method :: "string option"
  ro_query :: json
  ro_body :: json
  ro_headers :: "(string \<times> string) list"
  ro_access_token :: "string option"
  ro_csrf :: bool
  ro_credentials :: "string option"

record http_request =
  rq_method :: string
  rq_query :: "(string \<times> string) list"
  rq_headers :: "(string \<times> string) list"
  rq_credentials :: string
  rq_cache :: string
  rq_redirect :: string
  rq_body :: json

definition header_set :: "string \<Rightarrow> string \<Rightarrow> (string \<times> string) list \<Rightarrow> (string \<times> string) list" where
  "header_set k v hs = filter (\<lambda>(n, _). js_lower n \<noteq> js_lower k) hs @ [(k, v)]"

definition request_method :: "request_options \<Rightarrow> string" where
  "request_method options = (case ro_method options of None \<Rightarrow> ''GET'' | Some m \<Rightarrow> m)"

definition request_headers :: "request_options \<Rightarrow> (string \<times> string) list" where
  "request_headers options =
     (let h0 = header_set ''Accept'' ''application/json'' (ro_headers options);
          h1 = (case ro_access_token options of
                  None \<Rightarrow> h0
                | Some t \<Rightarrow> if t = [] then h0 else header_set ''Authorization'' (''Bearer '' @ t) h0);
          h2 = (if ro_csrf options then header_set ''X-TechBaza-CSRF'' ''1'' h1 else h1)
      in if ro_body options \<noteq> JUndef then header_set ''Content-Type'' ''application/json'' h2 else h2)"

definition http_request_of :: "request_options \<Rightarrow> http_request" where
  "http_request_of options =
     \<lparr> rq_method = request_method options, rq_query = appendQuery (ro_query options),
       rq_headers = request_headers options,
       rq_credentials = (case ro_credentials options of None \<Rightarrow> ''include'' | Some c \<Rightarrow> c),
       rq_cache = ''no-store'', rq_redirect = ''error'', rq_body = ro_body options \<rparr>"

datatype fetch_outcome = Responded http_response | FetchFailed

definition failed_request :: "api_error_kind \<Rightarrow> string \<Rightarrow> string \<Rightarrow> string \<Rightarrow> api_error" where
  "failed_request kind message method url =
     \<lparr> err_message = message, err_kind = kind, err_status = None, err_method = method, err_url = url,
       err_retry_after = None, err_request_id = None, err_details = JNull \<rparr>"

text \<open>What the \<open>catch\<close> throws for an error that is not an \<open>ApiError\<close>.\<close>

definition request_failure :: "abort_signal \<Rightarrow> bool option \<Rightarrow> string \<Rightarrow> string \<Rightarrow> api_error" where
  "request_failure signal external method url =
     (if ab_timed_out signal
      then failed_request Timeout (uk ''Vidpovid= ne nadijwla v^asno. Sprobujte qe raz.'') method url
      else if external = Some True \<or> ab_aborted signal
      then failed_request Aborted (uk ''Zapyt skasovano.'') method url
      else failed_request Network (uk ''Ne vdalos@ pidkl$^ytys@. Perevirte z|#dnann@ z internetom.'') method url)"

definition response_result ::
  "(string \<Rightarrow> json option) \<Rightarrow> int \<Rightarrow> http_response \<Rightarrow> string \<Rightarrow> string \<Rightarrow> json result" where
  "response_result json_parse now response method url =
     bindE (readResponseBody json_parse response method url) (\<lambda>payload.
       if \<not> (200 \<le> rs_status response \<and> rs_status response \<le> 299)
       then Inl \<lparr> err_message = problemMessage payload (rs_status response),
                 err_kind = apiErrorKindForStatus (rs_status response), err_status = Some (rs_status response),
                 err_method = method, err_url = url,
                 err_retry_after = parseRetryAfter (rs_retry_after response) now,
                 err_request_id = rs_request_id response, err_details = payload \<rparr>
       else Inr payload)"

text \<open>
  \<open>apiRequest\<close>: what was sent (nothing when the path is refused) and what the promise settles to.
  \<open>signal\<close> and \<open>external\<close> are the two signals when \<open>outcome\<close> arrived.
\<close>

definition apiRequest ::
  "(string \<Rightarrow> string \<Rightarrow> parsed_url option) \<Rightarrow> (string \<Rightarrow> json option) \<Rightarrow> api_config \<Rightarrow> request_options \<Rightarrow> int
     \<Rightarrow> abort_signal \<Rightarrow> bool option \<Rightarrow> fetch_outcome \<Rightarrow> http_request list \<times> (exn + json) \<times> abort_signal" where
  "apiRequest resolve json_parse config options now signal external outcome =
     (case buildApiUrl resolve (cfg_base_url config) (ro_path options) of
        Inl m \<Rightarrow> ([], Inl (JsExn m), signal)
      | Inr _ \<Rightarrow>
          ([http_request_of options],
           (case outcome of
              FetchFailed \<Rightarrow> Inl (ApiExn (request_failure signal external (request_method options) (ro_path options)))
            | Responded response \<Rightarrow>
                (case response_result json_parse now response (request_method options) (ro_path options) of
                   Inl e \<Rightarrow> Inl (ApiExn e)
                 | Inr v \<Rightarrow> Inr v)),
           abort_cleanup signal))"

section \<open>The browser session's endpoints\<close>

definition parsePositiveInteger :: "json \<Rightarrow> int option" where
  "parsePositiveInteger value = (if is_integer value \<and> 0 < int_of value then Some (int_of value) else None)"

record browser_token =
  bt_access_token :: string
  bt_expires_in :: int
  bt_session_expires_in :: int
  bt_onboarding_path :: "string option"

text \<open>\<open>/^\/connect\/[0-9a-f-]{36}$/u\<close>\<close>

definition onboarding_path_ok :: "string \<Rightarrow> bool" where
  "onboarding_path_ok s =
     (starts_with ''/connect/'' s \<and> length (drop 9 s) = 36
      \<and> list_all (\<lambda>c. is_hex_lower c \<or> c = CHR ''-'') (drop 9 s))"

definition token_response_error :: "string \<Rightarrow> string \<Rightarrow> api_error" where
  "token_response_error path operation =
     \<lparr> err_message = (uk ''Ne vdalos@ pidtverdyty dostup. Sprobujte qe raz.''), err_kind = InvalidResponse,
       err_status = Some 200, err_method = ''POST'', err_url = path, err_retry_after = None,
       err_request_id = None,
       err_details = JObj [(''expected'', JStr ''BrowserTokenResponse''), (''operation'', JStr operation)] \<rparr>"

definition parseBrowserTokenResponse :: "json \<Rightarrow> string \<Rightarrow> string \<Rightarrow> browser_token result" where
  "parseBrowserTokenResponse value path operation =
     (let token = fld value ''access_token''; onboarding = fld value ''onboarding_path'' in
      case (parsePositiveInteger (fld value ''expires_in''), parsePositiveInteger (fld value ''session_expires_in'')) of
        (Some expires, Some session) \<Rightarrow>
          if isRecord value \<and> is_string token \<and> 20 \<le> js_length (str_of token) \<and> js_length (str_of token) \<le> 8192
            \<and> fld value ''token_type'' = JStr ''bearer''
            \<and> (is_nullish onboarding \<or> (is_string onboarding \<and> onboarding_path_ok (str_of onboarding)))
          then Inr \<lparr> bt_access_token = str_of token, bt_expires_in = expires, bt_session_expires_in = session,
                    bt_onboarding_path = (if is_string onboarding then Some (str_of onboarding) else None) \<rparr>
          else Inl (token_response_error path operation)
      | _ \<Rightarrow> Inl (token_response_error path operation))"

definition auth_options :: "string \<Rightarrow> json \<Rightarrow> request_options" where
  "auth_options path body =
     \<lparr> ro_path = path, ro_method = Some ''POST'', ro_query = JUndef, ro_body = body, ro_headers = [],
       ro_access_token = None, ro_csrf = True, ro_credentials = Some ''include'' \<rparr>"

definition BROWSER_LOGIN_PATH :: string where
  "BROWSER_LOGIN_PATH = ''/api/v1/auth/browser/login''"

definition BROWSER_REFRESH_PATH :: string where
  "BROWSER_REFRESH_PATH = ''/api/v1/auth/browser/refresh''"

definition BROWSER_LOGOUT_PATH :: string where
  "BROWSER_LOGOUT_PATH = ''/api/v1/auth/browser/logout''"

text \<open>\<open>send\<close> is \<open>apiRequest\<close> with its environment: the options of the request to its result.\<close>

definition lift_api :: "'a result \<Rightarrow> exn + 'a" where
  "lift_api r = (case r of Inl e \<Rightarrow> Inl (ApiExn e) | Inr x \<Rightarrow> Inr x)"

definition browserLogin :: "(request_options \<Rightarrow> exn + json) \<Rightarrow> json \<Rightarrow> exn + browser_token" where
  "browserLogin send payload =
     bindE (send (auth_options BROWSER_LOGIN_PATH payload)) (\<lambda>response.
       lift_api (parseBrowserTokenResponse response BROWSER_LOGIN_PATH (uk ''vxodu'')))"

definition browserRefresh :: "(request_options \<Rightarrow> exn + json) \<Rightarrow> exn + browser_token" where
  "browserRefresh send =
     bindE (send (auth_options BROWSER_REFRESH_PATH JUndef)) (\<lambda>response.
       lift_api (parseBrowserTokenResponse response BROWSER_REFRESH_PATH (uk ''onovlenn@ sesi~'')))"

definition browserLogout :: "(request_options \<Rightarrow> exn + json) \<Rightarrow> exn + unit" where
  "browserLogout send = bindE (send (auth_options BROWSER_LOGOUT_PATH JUndef)) (\<lambda>_. Inr ())"

definition getBackendHealth :: "(request_options \<Rightarrow> exn + json) \<Rightarrow> exn + json" where
  "getBackendHealth send =
     send \<lparr> ro_path = ''/health'', ro_method = None, ro_query = JUndef, ro_body = JUndef, ro_headers = [],
            ro_access_token = None, ro_csrf = False, ro_credentials = None \<rparr>"

section \<open>What a request can do\<close>

definition wf_token :: "browser_token \<Rightarrow> bool" where
  "wf_token t \<longleftrightarrow> 20 \<le> js_length (bt_access_token t) \<and> js_length (bt_access_token t) \<le> 8192
     \<and> 0 < bt_expires_in t \<and> 0 < bt_session_expires_in t
     \<and> (\<forall>p. bt_onboarding_path t = Some p \<longrightarrow> onboarding_path_ok p)"

lemma parseBrowserTokenResponse_wf:
  "parseBrowserTokenResponse v p op = Inr t \<Longrightarrow> wf_token t"
  by (auto simp: parseBrowserTokenResponse_def parsePositiveInteger_def wf_token_def Let_def is_nullish_def
      split: option.splits if_splits)

lemma token_nonempty: "wf_token t \<Longrightarrow> bt_access_token t \<noteq> []"
  by (auto simp: wf_token_def js_length_def)

lemma onboarding_path_prefix:
  "onboarding_path_ok p \<Longrightarrow> starts_with ''/connect/'' p \<and> length p = 45"
  by (auto simp: onboarding_path_ok_def starts_with_def)

lemma header_set_other: "js_lower n \<noteq> js_lower k \<Longrightarrow> (n, v) \<in> set (header_set k w hs) \<longleftrightarrow> (n, v) \<in> set hs"
  by (auto simp: header_set_def)

lemma header_set_same: "js_lower n = js_lower k \<Longrightarrow> (n, v) \<in> set (header_set k w hs) \<longleftrightarrow> n = k \<and> v = w"
  by (auto simp: header_set_def)

lemma buildApiUrl_inside:
  "buildApiUrl resolve base path = Inr url \<Longrightarrow>
   url_origin url = base \<and> url_username url = [] \<and> url_password url = [] \<and> starts_with ''/'' path
   \<and> \<not> starts_with ''//'' path"
  by (auto simp: buildApiUrl_def split: if_splits option.splits)

definition expected_kind :: "abort_signal \<Rightarrow> bool option \<Rightarrow> fetch_outcome \<Rightarrow> api_error_kind set" where
  "expected_kind signal external outcome =
     (case outcome of
        FetchFailed \<Rightarrow>
          {if ab_timed_out signal then Timeout
           else if external = Some True \<or> ab_aborted signal then Aborted else Network}
      | Responded r \<Rightarrow>
          if 200 \<le> rs_status r \<and> rs_status r \<le> 299 then {InvalidResponse}
          else {InvalidResponse, apiErrorKindForStatus (rs_status r)})"

lemma readResponseBody_kind: "readResponseBody jp r m u = Inl e \<Longrightarrow> err_kind e = InvalidResponse"
  by (auto simp: readResponseBody_def split: if_splits option.splits)

lemma response_result_kind:
  "response_result jp now r m u = Inl e \<Longrightarrow> err_kind e \<in> expected_kind s x (Responded r)"
  by (auto simp: response_result_def expected_kind_def bindE_fail readResponseBody_kind split: if_splits)

lemma response_result_ok:
  "response_result jp now r m u = Inr v \<Longrightarrow>
   200 \<le> rs_status r \<and> rs_status r \<le> 299 \<and> readResponseBody jp r m u = Inr v"
  by (auto simp: response_result_def ok_iff split: if_splits)

lemma request_failure_kind: "err_kind (request_failure s x m u) \<in> expected_kind s x FetchFailed"
  by (simp add: request_failure_def expected_kind_def failed_request_def)

section \<open>Properties\<close>

text \<open>Every request settles as it should: nothing is sent unless the URL stays on the configured origin
  without credentials; a value comes only from a 2xx answer; every failure after that is an \<open>ApiError\<close>
  whose kind says what happened, a timeout before a cancellation before the network; and the timer and the
  listener are always removed.\<close>

theorem api_request_settles:
  assumes "apiRequest resolve jp cfg opts now signal external outcome = (sent, r, signal')" and "sent \<noteq> []"
  shows "(\<exists>url. resolve (ro_path opts) (cfg_base_url cfg @ ''/'') = Some url \<and> url_origin url = cfg_base_url cfg
        \<and> url_username url = [] \<and> url_password url = [])
    \<and> sent = [http_request_of opts]
    \<and> (\<forall>v. r = Inr v \<longrightarrow> (\<exists>q. outcome = Responded q \<and> 200 \<le> rs_status q \<and> rs_status q \<le> 299))
    \<and> (\<forall>x. r = Inl x \<longrightarrow> (\<exists>e. x = ApiExn e \<and> err_kind e \<in> expected_kind signal external outcome))
    \<and> \<not> ab_timer_armed signal' \<and> \<not> ab_listening signal'"
proof -
  obtain url where u: "buildApiUrl resolve (cfg_base_url cfg) (ro_path opts) = Inr url"
    using assms by (auto simp: apiRequest_def split: sum.splits)
  then have res: "resolve (ro_path opts) (cfg_base_url cfg @ ''/'') = Some url"
    by (auto simp: buildApiUrl_def split: if_splits option.splits)
  show ?thesis
  proof (cases outcome)
    case FetchFailed
    with assms u res buildApiUrl_inside [OF u] request_failure_kind show ?thesis
      by (auto simp: apiRequest_def abort_cleanup_def)
  next
    case (Responded q)
    show ?thesis
    proof (cases "response_result jp now q (request_method opts) (ro_path opts)")
      case (Inl e)
      with assms u res Responded buildApiUrl_inside [OF u] response_result_kind [OF Inl] show ?thesis
        by (auto simp: apiRequest_def abort_cleanup_def)
    next
      case (Inr v)
      with assms u res Responded buildApiUrl_inside [OF u] response_result_ok [OF Inr] show ?thesis
        by (auto simp: apiRequest_def abort_cleanup_def)
    qed
  qed
qed

definition sample_url :: parsed_url where
  "sample_url = \<lparr> url_protocol = ''https:'', url_username = [], url_password = [], url_search = [], url_hash = [],
     url_pathname = ''/health'', url_origin = ''https://api'' \<rparr>"

lemma api_request_settles_witness:
  "\<exists>e. fst (snd (apiRequest (\<lambda>_ _. Some sample_url) (\<lambda>_. None)
          \<lparr> cfg_base_url = ''https://api'', cfg_timeout_ms = 10000, cfg_api_prefix = ''/api/v1'' \<rparr>
          (auth_options ''/health'' JUndef) 0 (abort_timeout (createCombinedAbortSignal None)) None FetchFailed))
        = Inl (ApiExn e) \<and> err_kind e = Timeout"
proof -
  let ?s = "abort_timeout (createCombinedAbortSignal None)"
  let ?r = "apiRequest (\<lambda>_ _. Some sample_url) (\<lambda>_. None)
          \<lparr> cfg_base_url = ''https://api'', cfg_timeout_ms = 10000, cfg_api_prefix = ''/api/v1'' \<rparr>
          (auth_options ''/health'' JUndef) 0 ?s None FetchFailed"
  have b: "buildApiUrl (\<lambda>_ _. Some sample_url) ''https://api'' ''/health'' = Inr sample_url"
    by code_simp
  have l: "fst ?r \<noteq> []" "\<exists>x. fst (snd ?r) = Inl x"
    by (simp_all add: apiRequest_def auth_options_def b)
  have k: "expected_kind ?s None FetchFailed = {Timeout}"
    by (simp add: expected_kind_def abort_timeout_def createCombinedAbortSignal_def)
  from l api_request_settles [of _ _ _ _ _ ?s None FetchFailed "fst ?r" "fst (snd ?r)" "snd (snd ?r)"]
  show ?thesis unfolding k by auto
qed

end
