(* ===== verification/LoginModel.thy ===== *)
theory LoginModel
  imports ApiClient Numerals
begin

text \<open>
  \<open>features/login-model.ts\<close> and \<open>features/login-cooldown.ts\<close>: where a login may return to, the checks of the
  login form, what the user is told about a failed login, and the waiting time after too many attempts,
  which the tabs share through \<open>localStorage\<close>.

  \<open>resolve value base\<close> is \<open>new URL(value, base)\<close>.
\<close>

section \<open>Where to return\<close>

definition ALLOWED_RETURN_PATHS :: "string list" where
  "ALLOWED_RETURN_PATHS = [''/devices'', ''/organizations'', ''/alarms'', ''/notifications'', ''/ui-kit'', ''/connect'',
     ''/account'', ''/factory'', ''/operations'', ''/invite'']"

definition DEFAULT_LOGIN_DESTINATION :: string where
  "DEFAULT_LOGIN_DESTINATION = ''/devices''"

definition default_destination :: "string option \<Rightarrow> string" where
  "default_destination portal = (if portal = Some ''staff'' then ''/operations'' else DEFAULT_LOGIN_DESTINATION)"

definition return_allowed :: "string \<Rightarrow> bool" where
  "return_allowed pathname = list_ex (\<lambda>p. pathname = p \<or> starts_with (p @ ''/'') pathname) ALLOWED_RETURN_PATHS"

definition safeLoginReturnTo ::
  "(string \<Rightarrow> string \<Rightarrow> parsed_url option) \<Rightarrow> string option \<Rightarrow> string option \<Rightarrow> string" where
  "safeLoginReturnTo resolve portal value =
     (case value of
        None \<Rightarrow> default_destination portal
      | Some v \<Rightarrow>
          if v = [] \<or> \<not> starts_with ''/'' v \<or> starts_with ''//'' v \<or> js_includes v [CHR 0x5C]
          then default_destination portal
          else (case resolve v ''http://kerumo.local'' of
              None \<Rightarrow> default_destination portal
            | Some url \<Rightarrow>
                if url_origin url \<noteq> ''http://kerumo.local'' \<or> url_pathname url = ''/login''
                then default_destination portal
                else if return_allowed (url_pathname url)
                then url_pathname url @ url_search url @ url_hash url
                else default_destination portal))"

section \<open>The form\<close>

record login_form =
  lf_email :: string
  lf_password :: string
  lf_otp :: "string option"

record login_errors =
  le_email :: "string option"
  le_password :: "string option"
  le_otp :: "string option"

definition MAX_EMAIL_LENGTH :: nat where
  "MAX_EMAIL_LENGTH = 254"

definition MAX_PASSWORD_LENGTH :: nat where
  "MAX_PASSWORD_LENGTH = 128"

text \<open>\<open>/^[^\s@]+@[^\s@]+\.[^\s@]+$/u\<close>: one at sign, no white space, and a dot inside the part after it.\<close>

definition has_white_space :: "string \<Rightarrow> bool" where
  "has_white_space s = list_ex (\<lambda>w. js_includes s w) white_space"

definition dotted :: "string \<Rightarrow> bool" where
  "dotted d = list_ex (\<lambda>k. d ! k = CHR ''.'') [1 ..< length d - 1]"

definition email_pattern :: "string \<Rightarrow> bool" where
  "email_pattern s =
     (let local = takeWhile (\<lambda>c. c \<noteq> CHR ''@'') s; domain = drop (Suc (length local)) s in
      \<not> has_white_space s \<and> CHR ''@'' \<in> set s \<and> local \<noteq> [] \<and> CHR ''@'' \<notin> set domain \<and> dotted domain)"

text \<open>\<open>/^(?:kr-[0-9a-f]{32}-g[1-9][0-9]*|ku-[0-9a-f]{32})$/u\<close>\<close>

definition kit_login :: "string \<Rightarrow> bool" where
  "kit_login s =
     ((starts_with ''kr-'' s \<and> length s \<ge> 38 \<and> list_all is_hex_lower (take 32 (drop 3 s))
         \<and> take 2 (drop 35 s) = ''-g'' \<and> s ! 37 \<in> set ''123456789'' \<and> list_all is_digit (drop 38 s))
      \<or> (starts_with ''ku-'' s \<and> length s = 35 \<and> list_all is_hex_lower (drop 3 s)))"

definition otp_pattern :: "string \<Rightarrow> bool" where
  "otp_pattern s = (length s = 6 \<and> list_all is_digit s)"

definition validateLoginForm :: "login_form \<Rightarrow> string \<times> login_errors" where
  "validateLoginForm values =
     (let email = js_lower (js_trim (lf_email values)) in
      (email,
       \<lparr> le_email =
           (if email = [] then Some (uk ''Vvedit= lohin.'')
            else if MAX_EMAIL_LENGTH < js_length email
              \<or> \<not> (if js_includes email ''@'' then email_pattern email else kit_login email)
            then Some (uk ''Vvedit= postijnyj lohin, lohin iz komplektu abo {email }na@vnoho oblikovoho zapysu.'')
            else None),
         le_password =
           (if lf_password values = [] then Some (uk ''Vvedit= parol=.'')
            else if MAX_PASSWORD_LENGTH < js_length (lf_password values)
            then Some (uk ''Parol= ne mo*e buty dovwym za 128 symvoliv.'')
            else None),
         le_otp =
           (case lf_otp values of
              None \<Rightarrow> None
            | Some otp \<Rightarrow>
                if otp \<noteq> [] \<and> \<not> otp_pattern otp
                then Some (uk ''Vvedit= westyzna^nyj kod iz zastosunku.'') else None) \<rparr>))"

section \<open>A failed login\<close>

record login_presentation =
  lp_summary :: string
  lp_errors :: login_errors
  lp_retry_after :: int
  lp_clear_password :: bool
  lp_tone :: "string option"

definition no_errors :: login_errors where
  "no_errors = \<lparr> le_email = None, le_password = None, le_otp = None \<rparr>"

definition plain_presentation :: "string \<Rightarrow> bool \<Rightarrow> login_presentation" where
  "plain_presentation summary clear =
     \<lparr> lp_summary = summary, lp_errors = no_errors, lp_retry_after = 0, lp_clear_password = clear, lp_tone = None \<rparr>"

text \<open>\<open>details.detail.code\<close>, where both are objects.\<close>

definition error_code :: "json \<Rightarrow> json" where
  "error_code details =
     (let detail = (if is_js_object details then fld details ''detail'' else JNull)
      in if is_js_object detail then fld detail ''code'' else JNull)"

definition unauthorized_presentation :: "json \<Rightarrow> login_presentation" where
  "unauthorized_presentation code =
     (if code = JStr ''mfa_required'' \<or> code = JStr ''mfa_invalid''
      then \<lparr> lp_summary = (if code = JStr ''mfa_required''
               then (uk ''Dl@ c=oho oblikovoho zapysu vvimkneno dvoetapnyj vxid. Vvedit= kod iz zastosunku.'')
               else (uk ''Kod iz zastosunku ne pryjn@to. Do^ekajtes@ novoho kodu j povtorit= vxid.'')),
             lp_errors = no_errors\<lparr>le_otp := Some (uk ''Vvedit= svi*yj westyzna^nyj kod iz zastosunku.'')\<rparr>,
             lp_retry_after = 0, lp_clear_password = False,
             lp_tone = Some (if code = JStr ''mfa_required'' then ''info'' else ''danger'') \<rparr>
      else \<lparr> lp_summary = (uk ''Nevirnyj lohin abo parol=.''),
             lp_errors = no_errors\<lparr>le_password := Some (uk ''Perevirte parol= i povtorit= sprobu.'')\<rparr>,
             lp_retry_after = 0, lp_clear_password = True, lp_tone = None \<rparr>)"

definition loginErrorPresentation :: "exn \<Rightarrow> login_presentation" where
  "loginErrorPresentation error =
     (case error of
        JsExn _ \<Rightarrow> plain_presentation (uk ''Ne vdalos@ uvijty. Sprobujte qe raz.'') False
      | ApiExn e \<Rightarrow>
          (case err_kind e of
             Unauthorized \<Rightarrow> unauthorized_presentation (error_code (err_details e))
           | Forbidden \<Rightarrow>
               plain_presentation (uk ''Vxid nedostupnyj. Perevirte adresu sajtu abo zvernit=s@ do administratora.'') True
           | Validation \<Rightarrow>
               plain_presentation (uk ''Perevirte lohin, parol= i kod iz zastosunku, @kqo vin potriben.'') True
           | RateLimited \<Rightarrow>
               (let s = max 1 (case err_retry_after e of Some n \<Rightarrow> n | None \<Rightarrow> 1)
                in (plain_presentation
                     ((uk ''Zabahato sprob vxodu. Povtorit= ^erez '') @ show_int s @ (uk '' s.'')) True)\<lparr>lp_retry_after := s\<rparr>)
           | Server \<Rightarrow>
               plain_presentation (if err_status e = Some 503
                 then (uk ''Vxid tym^asovo nedostupnyj. Sprobujte pizniwe.'')
                 else (uk ''Ne vdalos@ uvijty. Sprobujte pizniwe.'')) False
           | InvalidResponse \<Rightarrow> plain_presentation (uk ''Ne vdalos@ pidtverdyty vxid. Sprobujte qe raz.'') False
           | Aborted \<Rightarrow> plain_presentation [] False
           | _ \<Rightarrow> plain_presentation (apiErrorDisplayMessage error) False))"

section \<open>The cooldown\<close>

text \<open>The deadline in the storage (its text, which the tabs share) and in the tab's memory; \<open>cd_readable\<close> is
  whether the storage works.\<close>

record cooldown =
  cd_readable :: bool
  cd_text :: "string option"
  cd_memory :: "int option"
  cd_clock :: int

definition readDeadline :: "cooldown \<Rightarrow> int option" where
  "readDeadline c =
     (if \<not> cd_readable c then cd_memory c
      else (let v = (case cd_text c of None \<Rightarrow> Fin 0 | Some t \<Rightarrow> js_number t)
            in if num_safe_integer v \<and> 0 < \<lfloor>num_rat v\<rfloor> then Some \<lfloor>num_rat v\<rfloor> else None))"

definition writeDeadline :: "int option \<Rightarrow> cooldown \<Rightarrow> cooldown" where
  "writeDeadline value c =
     c\<lparr>cd_memory := value, cd_text := (if cd_readable c then map_option show_int value else cd_text c)\<rparr>"

definition cooldown_tick :: "int \<Rightarrow> cooldown \<Rightarrow> cooldown" where
  "cooldown_tick now c =
     (let c1 = c\<lparr>cd_clock := now\<rparr> in
      case readDeadline c1 of Some d \<Rightarrow> if d \<le> now then writeDeadline None c1 else c1 | None \<Rightarrow> c1)"

definition cooldown_block :: "int \<Rightarrow> int \<Rightarrow> cooldown \<Rightarrow> cooldown" where
  "cooldown_block now seconds c =
     (let c1 = c\<lparr>cd_clock := now\<rparr>
      in writeDeadline (Some (max (case readDeadline c1 of Some d \<Rightarrow> d | None \<Rightarrow> 0) (now + seconds * 1000))) c1)"

definition retrySeconds :: "cooldown \<Rightarrow> int" where
  "retrySeconds c = (case readDeadline c of None \<Rightarrow> 0 | Some d \<Rightarrow> max 0 \<lceil>rat_of_int (d - cd_clock c) / 1000\<rceil>)"

section \<open>Facts\<close>

lemma return_allowed_start: "return_allowed p \<Longrightarrow> \<exists>a r. a \<in> set ALLOWED_RETURN_PATHS \<and> p = a @ r \<and> (r = [] \<or> hd r = CHR ''/'')"
proof -
  assume "return_allowed p"
  then obtain a where a: "a \<in> set ALLOWED_RETURN_PATHS" "p = a \<or> starts_with (a @ ''/'') p"
    by (auto simp: return_allowed_def list_ex_iff)
  from a(2) show ?thesis
  proof
    assume "starts_with (a @ ''/'') p"
    then have "p = (a @ ''/'') @ drop (length (a @ ''/'')) p"
      unfolding starts_with_def by (metis append_take_drop_id)
    with a(1) show ?thesis by (metis append.assoc append_Cons append_Nil list.sel(1))
  qed (use a in auto)
qed

lemma js_number_show_nat: "js_number (show_nat n) = Fin (of_nat n)"
proof -
  have "js_number (show_nat n @ []) = Fin (of_int (digits_val (show_nat n @ [])) / 10 ^ 0)"
    using js_number_decimal [of "show_nat n" "[]"] by (simp add: show_nat_digits show_nat_ne)
  then show ?thesis by (simp add: digits_val_show_nat)
qed

lemma readDeadline_write:
  assumes "cd_readable c" "0 < d" "d \<le> max_safe"
  shows "readDeadline (writeDeadline (Some d) c) = Some d"
  using assms by (simp add: readDeadline_def writeDeadline_def show_int_def js_number_show_nat)

lemma readDeadline_clear: "readDeadline (writeDeadline None c) = None"
  by (simp add: readDeadline_def writeDeadline_def)

lemma readDeadline_safe: "cd_readable c \<Longrightarrow> readDeadline c = Some d \<Longrightarrow> 0 < d \<and> d \<le> max_safe"
proof -
  assume a: "cd_readable c" "readDeadline c = Some d"
  let ?v = "case cd_text c of None \<Rightarrow> Fin 0 | Some t \<Rightarrow> js_number t"
  from a have "num_safe_integer ?v" "0 < \<lfloor>num_rat ?v\<rfloor>" "d = \<lfloor>num_rat ?v\<rfloor>"
    by (auto simp: readDeadline_def Let_def split: if_splits)
  then show ?thesis by (cases ?v) auto
qed

section \<open>Properties\<close>

text \<open>A login never sends the user elsewhere: whatever the address asked for, and however the platform parses
  it, the place the login returns to is a path below one of the application's own pages.\<close>

theorem login_return_safe:
  "\<exists>a \<in> set ALLOWED_RETURN_PATHS. starts_with a (safeLoginReturnTo resolve portal value)
     \<and> starts_with ''/'' (safeLoginReturnTo resolve portal value)
     \<and> \<not> starts_with ''//'' (safeLoginReturnTo resolve portal value)"
proof -
  have page: "starts_with ''/'' (a @ r) \<and> \<not> starts_with ''//'' (a @ r) \<and> starts_with a (a @ r)"
    if "a \<in> set ALLOWED_RETURN_PATHS" for a r
    using that by (auto simp: ALLOWED_RETURN_PATHS_def starts_with_def)
  have own: "\<exists>a \<in> set ALLOWED_RETURN_PATHS. \<exists>r. default_destination portal = a @ r"
    by (rule bexI [of _ "default_destination portal"])
      (simp_all add: default_destination_def DEFAULT_LOGIN_DESTINATION_def ALLOWED_RETURN_PATHS_def)
  have "\<exists>a \<in> set ALLOWED_RETURN_PATHS. \<exists>r. safeLoginReturnTo resolve portal value = a @ r"
  proof (cases "safeLoginReturnTo resolve portal value = default_destination portal")
    case True
    with own show ?thesis by simp
  next
    case False
    have "\<exists>url :: parsed_url. safeLoginReturnTo resolve portal value = url_pathname url @ url_search url @ url_hash url
        \<and> return_allowed (url_pathname url)"
    proof (cases "value")
      case None
      with False show ?thesis by (simp add: safeLoginReturnTo_def)
    next
      case (Some v)
      show ?thesis
      proof (cases "resolve v ''http://kerumo.local''")
        case None
        with Some False show ?thesis by (simp add: safeLoginReturnTo_def split: if_splits)
      next
        case (Some url)
        with \<open>value = Some v\<close> False have "return_allowed (url_pathname url)"
          "safeLoginReturnTo resolve portal value = url_pathname url @ url_search url @ url_hash url"
          by (simp_all add: safeLoginReturnTo_def split: if_splits)
        then show ?thesis by blast
      qed
    qed
    then obtain url :: parsed_url where u: "safeLoginReturnTo resolve portal value = url_pathname url @ url_search url @ url_hash url"
      "return_allowed (url_pathname url)" by blast
    from return_allowed_start [OF u(2)] u(1) show ?thesis by (metis append.assoc)
  qed
  then show ?thesis using page by fastforce
qed

text \<open>The waiting time after too many attempts holds in every tab: blocking for some seconds is stored so that
  a reader of the storage finds a deadline no earlier than asked nor than the one already there, the seconds
  shown are at least those asked for, and the deadline goes away only when it has passed.\<close>

theorem cooldown_holds:
  assumes "cd_readable c" and "0 < now" and "0 \<le> seconds" and "now + seconds * 1000 \<le> max_safe"
  shows "\<exists>d. readDeadline (cooldown_block now seconds c) = Some d
    \<and> now + seconds * 1000 \<le> d \<and> (\<forall>e. readDeadline c = Some e \<longrightarrow> e \<le> d)
    \<and> seconds \<le> retrySeconds (cooldown_block now seconds c)
    \<and> (\<forall>t. readDeadline (cooldown_tick t (cooldown_block now seconds c)) = (if d \<le> t then None else Some d))"
proof -
  let ?c = "c\<lparr>cd_clock := now\<rparr>"
  let ?d = "max (case readDeadline c of Some d \<Rightarrow> d | None \<Rightarrow> 0) (now + seconds * 1000)"
  have r: "readDeadline (x\<lparr>cd_clock := t\<rparr>) = readDeadline x" for x t by (simp add: readDeadline_def)
  have b: "cooldown_block now seconds c = writeDeadline (Some ?d) ?c"
    by (simp add: cooldown_block_def Let_def r)
  have d: "0 < ?d" "?d \<le> max_safe"
    using assms readDeadline_safe [OF assms(1)] by (auto split: option.split)
  have rd: "readDeadline (writeDeadline (Some ?d) ?c) = Some ?d"
    using assms(1) d by (intro readDeadline_write) simp_all
  have "rat_of_int seconds \<le> of_int (?d - now) / 1000"
  proof -
    have "seconds * 1000 \<le> ?d - now" by simp
    then have "rat_of_int (seconds * 1000) \<le> of_int (?d - now)" by (simp only: of_int_le_iff)
    then show ?thesis by simp
  qed
  then have "seconds \<le> \<lceil>rat_of_int (?d - now) / 1000\<rceil>" by linarith
  moreover have "cd_clock (writeDeadline (Some ?d) ?c) = now" by (simp add: writeDeadline_def)
  ultimately have s: "seconds \<le> retrySeconds (writeDeadline (Some ?d) ?c)"
    unfolding retrySeconds_def rd by simp
  have t: "readDeadline (cooldown_tick t (writeDeadline (Some ?d) ?c)) = (if ?d \<le> t then None else Some ?d)" for t
    unfolding cooldown_tick_def Let_def r rd by (simp add: readDeadline_clear r rd)
  show ?thesis
    unfolding b using rd s t by (intro exI [of _ ?d]) (simp add: le_max_iff_disj split: option.split)
qed

lemma cooldown_holds_witness:
  "readDeadline (cooldown_block 1000 30 \<lparr> cd_readable = True, cd_text = None, cd_memory = None, cd_clock = 0 \<rparr>) \<noteq> None"
  using cooldown_holds [of "\<lparr> cd_readable = True, cd_text = None, cd_memory = None, cd_clock = 0 \<rparr>" 1000 30]
  by (auto simp: max_safe_def)

end
