(* ===== verification/CommandControls.thy ===== *)
theory CommandControls
  imports Overview Commands ApiClient
begin

text \<open>
  \<open>features/command-controls.tsx\<close> and \<open>draftPlan\<close> of \<open>features/program-settings.tsx\<close>: the card that
  sends commands to a device.

  \<open>controls\<close> is the React state and the refs of the component. Sending is asynchronous: \<open>handleSend\<close>
  registers a call, and the call goes on when the answers to its two requests arrive
  (\<open>overview_arrived\<close>, \<open>receipt_arrived\<close>). A handler runs on the state of the last rendering, which may
  be older than the refs: \<open>handleConfirm\<close> takes it as a second state \<open>v\<close>, and the properties hold
  whatever it is. \<open>cs_aborted\<close>, \<open>cs_calls\<close>, \<open>cs_sent\<close> and \<open>cs_created\<close> record what the component did to
  the outside: controllers aborted, calls under way, POST requests, created commands reported. Time is
  \<open>performance.now()\<close>, a rational number of milliseconds.
\<close>

section \<open>Program drafts\<close>

datatype control_mode = ManualMode | TimerMode | ProgramMode | ScheduleMode

record program_draft =
  pd_id :: nat
  pd_frequency :: string
  pd_hours :: string
  pd_minutes :: string
  pd_seconds :: string

definition emptyProgramStep :: "nat \<Rightarrow> program_draft" where
  "emptyProgramStep i = \<lparr> pd_id = i, pd_frequency = [], pd_hours = ''0'', pd_minutes = ''1'', pd_seconds = ''0'' \<rparr>"

text \<open>\<open>/^\d+$/\<close>\<close>

definition all_digits :: "string \<Rightarrow> bool" where
  "all_digits s = (s \<noteq> [] \<and> list_all is_digit s)"

definition draft_step :: "program_draft \<Rightarrow> json" where
  "draft_step row =
     (if list_ex (\<lambda>v. \<not> all_digits v) [pd_hours row, pd_minutes row, pd_seconds row]
        \<or> num_lt (Fin 24) (js_number (pd_hours row)) \<or> num_lt (Fin 59) (js_number (pd_minutes row))
        \<or> num_lt (Fin 59) (js_number (pd_seconds row)) \<or> js_blank (pd_frequency row)
      then JNull
      else JObj [(''frequency_hz'', JNum (js_number (pd_frequency row))),
                 (''duration_seconds'', JNum (Fin (num_rat (js_number (pd_hours row)) * 3600
                    + num_rat (js_number (pd_minutes row)) * 60 + num_rat (js_number (pd_seconds row)))))])"

definition draftPlan :: "control_mode \<Rightarrow> program_draft list \<Rightarrow> program_plan option" where
  "draftPlan mode rows =
     (if mode \<noteq> TimerMode \<and> mode \<noteq> ProgramMode then None
      else (let selected = (if mode = TimerMode then take 1 rows else rows)
            in parseProgramPlan (JObj [(''version'', JNum (Fin 1)), (''steps'', JArr (map draft_step selected))])
                 MAX_PROGRAM_SECONDS))"

section \<open>State\<close>

record intent =
  it_input :: command_input
  it_deadline :: rat

record uncertain =
  un_intent :: intent
  un_retry_at :: rat
  un_message :: string

datatype dialog = NewDialog string "equipment_target option" | RetryDialog | DiscardDialog

record control_context =
  cx_permissions :: "string list"
  cx_device :: device
  cx_organization :: string
  cx_user :: string

record control_props =
  cp_context :: control_context
  cp_overview :: "overview option"
  cp_received_at :: rat
  cp_active :: bool
  cp_refreshing :: bool

text \<open>One call of \<open>handleSend\<close> that has passed its guards: its controller, what it closed over, and
  \<open>postStarted\<close>.\<close>

record send_call =
  sc_id :: nat
  sc_context :: control_context
  sc_intent :: intent
  sc_previous :: bool
  sc_posted :: bool

record sent_post =
  po_call :: send_call
  po_fresh :: overview
  po_time :: rat
  po_available :: bool
  po_aborted :: bool

record controls =
  cs_frequency :: string
  cs_ttl :: string
  cs_mode :: control_mode
  cs_timer_step :: program_draft
  cs_steps :: "program_draft list"
  cs_next_step :: nat
  cs_dialog :: "dialog option"
  cs_busy_type :: "string option"
  cs_settings_busy :: bool
  cs_uncertain :: "uncertain option"
  cs_notice :: "string option"
  cs_now :: rat
  cs_pending :: "nat option"
  cs_pending_intent :: "intent option"
  cs_mounted :: bool
  cs_fresh_id :: nat
  cs_aborted :: "nat list"
  cs_calls :: "send_call list"
  cs_sent :: "sent_post list"
  cs_created :: "string list"

definition controls_start :: controls where
  "controls_start = \<lparr> cs_frequency = [], cs_ttl = ''30'', cs_mode = ManualMode, cs_timer_step = emptyProgramStep 0,
     cs_steps = [emptyProgramStep 0], cs_next_step = 1, cs_dialog = None, cs_busy_type = None,
     cs_settings_busy = False, cs_uncertain = None, cs_notice = None, cs_now = 0, cs_pending = None,
     cs_pending_intent = None, cs_mounted = True, cs_fresh_id = 0, cs_aborted = [], cs_calls = [], cs_sent = [],
     cs_created = [] \<rparr>"

section \<open>What a rendering allows\<close>

definition control_plan :: "controls \<Rightarrow> program_plan option" where
  "control_plan v = draftPlan (cs_mode v) (if cs_mode v = TimerMode then [cs_timer_step v] else cs_steps v)"

text \<open>\<open>overview?.diagnostics?.program\<close>\<close>

definition overview_program :: "overview option \<Rightarrow> json option" where
  "overview_program ov =
     (case ov of None \<Rightarrow> None | Some o' \<Rightarrow> (case ov_diagnostics o' of None \<Rightarrow> None | Some d \<Rightarrow> dg_program d))"

definition overview_allows :: "overview option \<Rightarrow> string \<Rightarrow> bool" where
  "overview_allows ov type = (case ov of None \<Rightarrow> False | Some o' \<Rightarrow> type \<in> set (ov_allowed o'))"

definition programSupported :: "control_props \<Rightarrow> bool" where
  "programSupported p =
     (overview_allows (cp_overview p) ''vfd.program.start'' \<and> overview_program (cp_overview p) \<noteq> None)"

definition programRunning :: "control_props \<Rightarrow> bool" where
  "programRunning p = programActive (overview_program (cp_overview p))"

definition programValid :: "control_props \<Rightarrow> controls \<Rightarrow> bool" where
  "programValid p v =
     (case control_plan v of
        None \<Rightarrow> False
      | Some plan \<Rightarrow> programWithinLimits plan (case cp_overview p of None \<Rightarrow> None | Some o' \<Rightarrow> ov_limits o'))"

definition control_busy :: "controls \<Rightarrow> bool" where
  "control_busy v = (cs_busy_type v \<noteq> None \<or> cs_settings_busy v)"

definition canExecute :: "control_context \<Rightarrow> bool" where
  "canExecute cx = (''command.execute'' \<in> set (cx_permissions cx))"

definition control_elapsed :: "control_props \<Rightarrow> controls \<Rightarrow> rat" where
  "control_elapsed p v = max 0 ((cs_now v - cp_received_at p) / 1000)"

definition control_online :: "control_props \<Rightarrow> controls \<Rightarrow> bool" where
  "control_online p v =
     (case cp_overview p of
        None \<Rightarrow> False
      | Some o' \<Rightarrow> av_online (ov_availability o') \<and>
          (case av_seconds_since_seen (ov_availability o') of
             None \<Rightarrow> False
           | Some s \<Rightarrow> s + control_elapsed p v \<le> of_int (av_timeout_seconds (ov_availability o'))))"

definition control_blocked :: "control_props \<Rightarrow> controls \<Rightarrow> string option" where
  "control_blocked p v =
     (case cp_overview p of None \<Rightarrow> None | Some o' \<Rightarrow> controlBlockReason o' (control_elapsed p v))"

definition validTtl :: "string \<Rightarrow> bool" where
  "validTtl ttl =
     (\<not> js_blank ttl \<and> num_integer (js_number ttl) \<and> num_le (Fin 5) (js_number ttl)
      \<and> num_le (js_number ttl) (Fin 300))"

text \<open>A block reason is text: the empty one would not block.\<close>

definition permitted :: "control_props \<Rightarrow> controls \<Rightarrow> string \<Rightarrow> bool" where
  "permitted p v type =
     (canExecute (cp_context p) \<and> overview_allows (cp_overview p) type
      \<and> (type = ''vfd.stop''
         \<or> (control_online p v \<and> control_blocked p v \<in> {None, Some []} \<and> \<not> programRunning p)))"

definition frequencyValid :: "control_props \<Rightarrow> controls \<Rightarrow> bool" where
  "frequencyValid p v =
     (case (cp_overview p, validFrequency (cs_frequency v)) of
        (Some o', Some hz) \<Rightarrow>
          (case ov_limits o' of None \<Rightarrow> False | Some l \<Rightarrow> min_hz l \<le> hz \<and> hz \<le> max_hz l)
      | _ \<Rightarrow> False)"

definition programReady :: "control_props \<Rightarrow> controls \<Rightarrow> bool" where
  "programReady p v =
     (programSupported p \<and>
      (case (cp_overview p, overview_program (cp_overview p)) of
         (Some o', Some progress) \<Rightarrow> truthy (fld progress ''ready'') \<and> data_fresh o' (control_elapsed p v)
       | _ \<Rightarrow> False))"

definition run_state :: "overview \<Rightarrow> channel option" where
  "run_state o' =
     List.find (\<lambda>c. ch_key c = ''pump_running'' \<and> ch_source c = ''state'') (concat (map md_channels (ov_modules o')))"

definition programStopped :: "control_props \<Rightarrow> controls \<Rightarrow> bool" where
  "programStopped p v =
     (case cp_overview p of
        None \<Rightarrow> False
      | Some o' \<Rightarrow>
          (case run_state o' of
             None \<Rightarrow> False
           | Some c \<Rightarrow> ch_value c = JBool False
               \<and> effectiveQuality (ch_status c) (ov_freshness o') (control_elapsed p v) = Fresh))"

definition control_enabled :: "control_props \<Rightarrow> controls \<Rightarrow> string \<Rightarrow> bool" where
  "control_enabled p v type =
     (permitted p v type \<and> cp_active p
      \<and> (if type = ''vfd.stop'' then cs_busy_type v \<noteq> Some ''vfd.stop''
         else \<not> cp_refreshing p \<and> \<not> control_busy v \<and> cs_uncertain v = None \<and> validTtl (cs_ttl v)
           \<and> (type \<noteq> ''vfd.frequency.set'' \<or> frequencyValid p v)
           \<and> (type \<noteq> ''vfd.program.start'' \<or> (programReady p v \<and> programStopped p v \<and> programValid p v))))"

definition retryEnabled :: "control_props \<Rightarrow> controls \<Rightarrow> bool" where
  "retryEnabled p v =
     (case cs_uncertain v of
        None \<Rightarrow> False
      | Some u \<Rightarrow>
          permitted p v (ci_type (it_input (un_intent u))) \<and> cp_active p \<and> \<not> cp_refreshing p \<and> \<not> control_busy v
          \<and> cs_now v < it_deadline (un_intent u) \<and> un_retry_at u \<le> cs_now v)"

section \<open>Sending\<close>

text \<open>The checks of the fresh snapshot, before the POST. \<open>Some message\<close> is a thrown error.\<close>

definition send_check :: "command_input \<Rightarrow> bool \<Rightarrow> overview \<Rightarrow> string option" where
  "send_check input previous fresh =
     (let type = ci_type input; stop = (type = ''vfd.stop''); progress = overview_program (Some fresh);
          block = controlBlockReason fresh 0 in
      if \<not> sameEquipmentTarget (ov_equipment_target fresh) (ci_target input)
      then Some ((uk ''Obladnann@ abo joho konfihuraci@ zminylys@. Onovit= panel= ta pidtverd=te novu komandu.''))
      else if type \<notin> set (ov_allowed fresh)
      then Some ((uk ''Komanda bil=we nedostupna. Onovit= panel= ta prava dostupu.''))
      else if \<not> stop \<and> \<not> av_online (ov_availability fresh)
      then Some ((uk ''Prystrij {offline. }Zapusk i zmina ^astoty ne nadsyla$t=s@.''))
      else if \<not> stop \<and> block \<notin> {None, Some []} then block
      else if \<not> stop \<and> programActive progress \<and> \<not> previous
      then Some ((uk ''Prohrama v*e vykonu#t=s@. Spo^atku zupynit= ~~ knopko$ {STOP.}''))
      else if type = ''vfd.program.start''
        \<and> (\<not> (case progress of None \<Rightarrow> False | Some g \<Rightarrow> truthy (fld g ''ready''))
           \<or> fr_status (ov_freshness fresh) \<noteq> Fresh)
      then Some ((uk ''O^iku#mo svi*u telemetri$ ta lokal=nyj dozvil prohram na kontroleri.''))
      else if type = ''vfd.program.start''
        \<and> (case parseProgramPlan (ci_payload input) MAX_PROGRAM_SECONDS of
             None \<Rightarrow> True | Some submitted \<Rightarrow> \<not> programWithinLimits submitted (ov_limits fresh))
      then Some ((uk ''>astoty etapiv poza nalawtovanymy me*amy obladnann@.''))
      else if type = ''vfd.frequency.set''
        \<and> (case ov_limits fresh of
             None \<Rightarrow> True
           | Some l \<Rightarrow>
               (let hz = js_to_number (fld (ci_payload input) ''frequency_hz'') in
                num_lt hz (Fin (min_hz l)) \<or> num_lt (Fin (max_hz l)) hz))
      then Some ((uk ''>astota poza nalawtovanymy me*amy obladnann@. Onovit= panel=.''))
      else None)"

definition call_of :: "nat \<Rightarrow> controls \<Rightarrow> send_call option" where
  "call_of i st = List.find (\<lambda>c. sc_id c = i) (cs_calls st)"

definition abort_pending :: "controls \<Rightarrow> controls" where
  "abort_pending st =
     (case cs_pending st of None \<Rightarrow> st | Some i \<Rightarrow> st\<lparr>cs_aborted := i # cs_aborted st\<rparr>)"

definition stop_pending :: "controls \<Rightarrow> bool" where
  "stop_pending st =
     (case cs_pending_intent st of None \<Rightarrow> False | Some it \<Rightarrow> ci_type (it_input it) = ''vfd.stop'')"

definition handleSend :: "control_context \<Rightarrow> rat \<Rightarrow> bool \<Rightarrow> intent \<Rightarrow> bool \<Rightarrow> controls \<Rightarrow> controls" where
  "handleSend cx now available it previous st =
     (let type = ci_type (it_input it) in
      if \<not> canExecute cx \<or> \<not> available \<or> it_deadline it \<le> now then st
      else if cs_pending st \<noteq> None \<and> (type \<noteq> ''vfd.stop'' \<or> stop_pending st) then st
      else (let i = cs_fresh_id st in
        (abort_pending st)
          \<lparr>cs_fresh_id := Suc i, cs_pending := Some i, cs_pending_intent := Some it,
           cs_busy_type := Some type, cs_notice := None,
           cs_uncertain :=
             (case cs_pending_intent st of
                Some interrupted \<Rightarrow>
                  if type = ''vfd.stop''
                  then Some \<lparr> un_intent = interrupted, un_retry_at = 0,
                    un_message = (uk ''O^ikuvann@ poperedn=oho zapytu perervano dl@ {Stop; }joho pryjom potrebu# perevirky.'') \<rparr>
                  else cs_uncertain st
              | None \<Rightarrow> cs_uncertain st),
           cs_calls := cs_calls st @
             [\<lparr> sc_id = i, sc_context = cx, sc_intent = it, sc_previous = previous, sc_posted = False \<rparr>]\<rparr>))"

text \<open>The \<open>finally\<close> block: the call is over.\<close>

definition send_finally :: "nat \<Rightarrow> controls \<Rightarrow> controls" where
  "send_finally i st =
     (let st1 = st\<lparr>cs_calls := filter (\<lambda>c. sc_id c \<noteq> i) (cs_calls st)\<rparr> in
      if cs_pending st = Some i
      then st1\<lparr>cs_pending := None, cs_pending_intent := None,
               cs_busy_type := (if cs_mounted st then None else cs_busy_type st)\<rparr>
      else st1)"

definition definitelyRejected :: "exn \<Rightarrow> bool" where
  "definitelyRejected e =
     (case e of JsExn _ \<Rightarrow> False
      | ApiExn err \<Rightarrow> err_kind err \<in> set [Unauthorized, Forbidden, NotFound, Conflict, Validation])"

definition send_message :: "exn \<Rightarrow> string" where
  "send_message e = (case e of ApiExn _ \<Rightarrow> apiErrorDisplayMessage e | JsExn m \<Rightarrow> m)"

definition rate_wait :: "exn \<Rightarrow> rat" where
  "rate_wait e =
     (case e of JsExn _ \<Rightarrow> 0
      | ApiExn err \<Rightarrow>
          if err_kind err = RateLimited
          then of_int (case err_retry_after err of None \<Rightarrow> 30 | Some s \<Rightarrow> s) * 1000 else 0)"

text \<open>The \<open>catch\<close> block, then \<open>finally\<close>.\<close>

definition send_failed :: "rat \<Rightarrow> send_call \<Rightarrow> exn \<Rightarrow> controls \<Rightarrow> controls" where
  "send_failed now c e st =
     send_finally (sc_id c)
       (if \<not> cs_mounted st \<or> cs_pending st \<noteq> Some (sc_id c) then st
        else if sc_previous c \<or> (sc_posted c \<and> \<not> definitelyRejected e)
        then st\<lparr>cs_uncertain := Some \<lparr> un_intent = sc_intent c, un_retry_at = now + rate_wait e,
                 un_message = send_message e \<rparr>\<rparr>
        else st\<lparr>cs_notice := Some (send_message e)\<rparr>)"

definition mark_posted :: "nat \<Rightarrow> send_call \<Rightarrow> send_call" where
  "mark_posted i d = (if sc_id d = i then d\<lparr>sc_posted := True\<rparr> else d)"

text \<open>The answer to the first request of a call: the fresh snapshot, the checks, the POST.\<close>

definition msg_cancelled :: string where
  "msg_cancelled = (uk ''Nadsylann@ skasovano do {POST. }Komandu ne postavleno v lokal=nu ^erhu.'')"

definition overview_arrived :: "rat \<Rightarrow> bool \<Rightarrow> nat \<Rightarrow> exn + json \<Rightarrow> controls \<Rightarrow> controls" where
  "overview_arrived now available i answer st =
     (case call_of i st of
        None \<Rightarrow> st
      | Some c \<Rightarrow>
          if sc_posted c then st
          else (case bindE answer (\<lambda>raw.
                  lift_api (parseOverview raw (cx_device (sc_context c)) (cx_organization (sc_context c)))) of
              Inl e \<Rightarrow> send_failed now c e st
            | Inr fresh \<Rightarrow>
                (case send_check (it_input (sc_intent c)) (sc_previous c) fresh of
                   Some message \<Rightarrow> send_failed now c (JsExn message) st
                 | None \<Rightarrow>
                     if i \<in> set (cs_aborted st) \<or> \<not> available \<or> it_deadline (sc_intent c) \<le> now
                     then send_failed now c (JsExn msg_cancelled) st
                     else st\<lparr>cs_calls := map (mark_posted i) (cs_calls st),
                             cs_sent := cs_sent st @
                               [\<lparr> po_call = c, po_fresh = fresh, po_time = now, po_available = available,
                                  po_aborted = (i \<in> set (cs_aborted st)) \<rparr>]\<rparr>)))"

text \<open>The answer to the POST.\<close>

definition receipt_arrived :: "rat \<Rightarrow> nat \<Rightarrow> exn + json \<Rightarrow> controls \<Rightarrow> controls" where
  "receipt_arrived now i answer st =
     (case call_of i st of
        None \<Rightarrow> st
      | Some c \<Rightarrow>
          if \<not> sc_posted c then st
          else (case bindE answer (\<lambda>response.
                  lift_api (parseCommandReceipt response (dev_id (cx_device (sc_context c)))
                    (cx_organization (sc_context c)) (cx_user (sc_context c)) (it_input (sc_intent c)))) of
              Inl e \<Rightarrow> send_failed now c e st
            | Inr command \<Rightarrow>
                if i \<in> set (cs_aborted st) then send_failed now c (JsExn ((uk ''O^ikuvann@ vidpovidi perervano.''))) st
                else if \<not> cs_mounted st \<or> cs_pending st \<noteq> Some i then send_finally i st
                else send_finally i
                  (st\<lparr>cs_uncertain := None,
                      cs_notice := Some ((uk ''Komandu pryjn@to. O^iku#mo rezul=tat vid kontrolera.'')),
                      cs_created := cs_created st @ [str_of (fld command ''id'')]\<rparr>)))"

section \<open>Confirming\<close>

text \<open>The request that a new command of the user supersedes, the request a STOP stands for.\<close>

definition prior_request :: "controls \<Rightarrow> controls \<Rightarrow> intent option" where
  "prior_request v st =
     (case cs_pending_intent st of Some it \<Rightarrow> Some it | None \<Rightarrow> map_option un_intent (cs_uncertain v))"

definition superseded :: "intent \<Rightarrow> string" where
  "superseded prior =
     (case ci_supersedes (it_input prior) of Some r \<Rightarrow> r | None \<Rightarrow> ci_request_id (it_input prior))"

definition ttl_seconds :: "controls \<Rightarrow> jsnum" where
  "ttl_seconds v = (if validTtl (cs_ttl v) then js_number (cs_ttl v) else Fin 30)"

definition new_intent ::
  "rat \<Rightarrow> string \<Rightarrow> string \<Rightarrow> equipment_target option \<Rightarrow> controls \<Rightarrow> controls \<Rightarrow> string + intent" where
  "new_intent now uuid type target v st =
     bindE (makeCommandInput type (cs_frequency v) (ttl_seconds v) uuid
              (case control_plan v of None \<Rightarrow> JNull | Some plan \<Rightarrow> encode_plan plan)) (\<lambda>input.
     (let targeted = (case target of None \<Rightarrow> input | Some t \<Rightarrow> input\<lparr>ci_target := Some t\<rparr>);
          full = (case prior_request v st of
                    Some prior \<Rightarrow> if type = ''vfd.stop'' then targeted\<lparr>ci_supersedes := Some (superseded prior)\<rparr> else targeted
                  | None \<Rightarrow> targeted)
      in Inr \<lparr> it_input = full, it_deadline = now + num_rat (ttl_seconds v) * 1000 \<rparr>))"

text \<open>\<open>onConfirm\<close>, and \<open>onClose\<close> after it unless it throws.\<close>

definition handleConfirm ::
  "control_props \<Rightarrow> controls \<Rightarrow> rat \<Rightarrow> bool \<Rightarrow> string \<Rightarrow> controls \<Rightarrow> controls" where
  "handleConfirm p v now available uuid st =
     (let close = (\<lambda>s. s\<lparr>cs_dialog := None\<rparr>) in
      case cs_dialog v of
        None \<Rightarrow> close st
      | Some DiscardDialog \<Rightarrow>
          close (st\<lparr>cs_uncertain := None, cs_notice :=
            Some ((uk ''Poperedn$ komandu ne skasovano. Perevirte ~~ v *urnali pered novo$ di#$.''))\<rparr>)
      | Some RetryDialog \<Rightarrow>
          close (case cs_uncertain v of
                   Some u \<Rightarrow> if retryEnabled p v then handleSend (cp_context p) now available (un_intent u) True st else st
                 | None \<Rightarrow> st)
      | Some (NewDialog type target) \<Rightarrow>
          if \<not> control_enabled p v type then close st
          else (case new_intent now uuid type target v st of
                  Inl _ \<Rightarrow> st
                | Inr it \<Rightarrow> close (handleSend (cp_context p) now available it False st)))"

section \<open>The component\<close>

text \<open>The interval of one second, and the browser going offline or into the background.\<close>

definition browser_update :: "rat \<Rightarrow> bool \<Rightarrow> controls \<Rightarrow> controls" where
  "browser_update now available st =
     (let st1 = st\<lparr>cs_now := now\<rparr> in if available then st1 else abort_pending st1)"

definition deadline_timer :: "nat \<Rightarrow> controls \<Rightarrow> controls" where
  "deadline_timer i st =
     (if call_of i st = None then st else st\<lparr>cs_aborted := i # cs_aborted st\<rparr>)"

definition controls_unmount :: "controls \<Rightarrow> controls" where
  "controls_unmount st = abort_pending (st\<lparr>cs_mounted := False\<rparr>)"

datatype control_event =
    EvFrequency string | EvTtl string | EvMode control_mode | EvTimerStep program_draft
  | EvSteps "program_draft list" | EvAddStep | EvSettingsBusy bool
  | EvDialog "dialog option"
  | EvConfirm control_props controls rat bool string
  | EvUpdate rat bool | EvDeadline nat | EvUnmounted
  | EvOverview rat bool nat "exn + json" | EvReceipt rat nat "exn + json"

fun control_step :: "control_event \<Rightarrow> controls \<Rightarrow> controls" where
  "control_step (EvFrequency t) st = st\<lparr>cs_frequency := t\<rparr>"
| "control_step (EvTtl t) st = st\<lparr>cs_ttl := t\<rparr>"
| "control_step (EvMode m) st = st\<lparr>cs_mode := m, cs_notice := None\<rparr>"
| "control_step (EvTimerStep d) st = st\<lparr>cs_timer_step := d\<rparr>"
| "control_step (EvSteps ds) st = st\<lparr>cs_steps := ds\<rparr>"
| "control_step EvAddStep st =
     st\<lparr>cs_steps := cs_steps st @ [emptyProgramStep (cs_next_step st)], cs_next_step := Suc (cs_next_step st)\<rparr>"
| "control_step (EvSettingsBusy b) st = st\<lparr>cs_settings_busy := b\<rparr>"
| "control_step (EvDialog d) st = st\<lparr>cs_dialog := d\<rparr>"
| "control_step (EvConfirm p v now available uuid) st = handleConfirm p v now available uuid st"
| "control_step (EvUpdate now available) st = browser_update now available st"
| "control_step (EvDeadline i) st = deadline_timer i st"
| "control_step EvUnmounted st = controls_unmount st"
| "control_step (EvOverview now available i answer) st = overview_arrived now available i answer st"
| "control_step (EvReceipt now i answer) st = receipt_arrived now i answer st"

definition control_run :: "control_event list \<Rightarrow> controls" where
  "control_run evs = foldl (\<lambda>st ev. control_step ev st) controls_start evs"

section \<open>The invariant of the dispatch\<close>

definition post_ok :: "sent_post \<Rightarrow> bool" where
  "post_ok po \<longleftrightarrow>
     (let c = po_call po; input = it_input (sc_intent c) in
      canExecute (sc_context c) \<and> po_available po \<and> \<not> po_aborted po \<and> po_time po < it_deadline (sc_intent c)
      \<and> (\<exists>raw. parseOverview raw (cx_device (sc_context c)) (cx_organization (sc_context c)) = Inr (po_fresh po))
      \<and> send_check input (sc_previous c) (po_fresh po) = None)"

definition sent_ids :: "controls \<Rightarrow> nat list" where
  "sent_ids st = map (\<lambda>po. sc_id (po_call po)) (cs_sent st)"

text \<open>The registered calls: each is the pending one or aborted, and the pending one is registered.\<close>

definition calls_ok ::
  "send_call list \<Rightarrow> nat set \<Rightarrow> nat option \<Rightarrow> intent option \<Rightarrow> string option \<Rightarrow> bool \<Rightarrow> nat \<Rightarrow> bool" where
  "calls_ok calls aborted pending pending_intent busy mounted fresh \<longleftrightarrow>
     distinct (map sc_id calls)
     \<and> (\<forall>c \<in> set calls. sc_id c < fresh \<and> canExecute (sc_context c) \<and> (pending = Some (sc_id c) \<or> sc_id c \<in> aborted))
     \<and> (pending = None \<longrightarrow> pending_intent = None)
     \<and> (\<forall>i. pending = Some i \<longrightarrow> (\<exists>c \<in> set calls. sc_id c = i \<and> pending_intent = Some (sc_intent c)))
     \<and> (mounted \<longrightarrow> busy = map_option (\<lambda>it. ci_type (it_input it)) pending_intent)"

definition calls_inv :: "controls \<Rightarrow> bool" where
  "calls_inv st = calls_ok (cs_calls st) (set (cs_aborted st)) (cs_pending st) (cs_pending_intent st)
     (cs_busy_type st) (cs_mounted st) (cs_fresh_id st)"

definition sent_inv :: "controls \<Rightarrow> bool" where
  "sent_inv st \<longleftrightarrow>
     (\<forall>po \<in> set (cs_sent st). post_ok po)
     \<and> distinct (sent_ids st) \<and> (\<forall>i \<in> set (sent_ids st). i < cs_fresh_id st)
     \<and> (\<forall>c \<in> set (cs_calls st). sc_id c \<in> set (sent_ids st) \<longrightarrow> sc_posted c)"

lemma abort_pending_simps [simp]:
  "cs_pending (abort_pending st) = cs_pending st" "cs_pending_intent (abort_pending st) = cs_pending_intent st"
  "cs_calls (abort_pending st) = cs_calls st" "cs_sent (abort_pending st) = cs_sent st"
  "cs_fresh_id (abort_pending st) = cs_fresh_id st" "cs_busy_type (abort_pending st) = cs_busy_type st"
  "cs_mounted (abort_pending st) = cs_mounted st" "cs_uncertain (abort_pending st) = cs_uncertain st"
  "cs_created (abort_pending st) = cs_created st"
  "set (cs_aborted (abort_pending st)) = set (cs_aborted st) \<union> set_option (cs_pending st)"
  by (simp_all add: abort_pending_def split: option.split)

lemma call_ofD: "call_of i st = Some c \<Longrightarrow> c \<in> set (cs_calls st) \<and> sc_id c = i"
  by (auto simp: call_of_def find_Some_iff)

lemma mark_posted_simps [simp]:
  "sc_id (mark_posted i d) = sc_id d" "sc_context (mark_posted i d) = sc_context d"
  "sc_intent (mark_posted i d) = sc_intent d" "sc_previous (mark_posted i d) = sc_previous d"
  "sc_posted (mark_posted i d) \<longleftrightarrow> sc_posted d \<or> sc_id d = i" "sc_id \<circ> mark_posted i = sc_id"
  by (auto simp: mark_posted_def fun_eq_iff)

lemma calls_unique: "calls_inv st \<Longrightarrow> c \<in> set (cs_calls st) \<Longrightarrow> d \<in> set (cs_calls st) \<Longrightarrow> sc_id c = sc_id d \<Longrightarrow> c = d"
  by (auto simp: calls_inv_def calls_ok_def distinct_map inj_on_def)

lemma calls_inv_abort: "calls_inv st \<Longrightarrow> calls_inv (abort_pending st)"
  by (auto simp: calls_inv_def calls_ok_def)

lemma calls_inv_send:
  assumes "calls_inv st"
  shows "calls_inv (handleSend cx now available it previous st)"
  using assms by (cases "cs_pending st") (auto simp: handleSend_def Let_def calls_inv_def calls_ok_def less_Suc_eq)

lemma calls_inv_finally:
  assumes "calls_inv st"
  shows "calls_inv (send_finally i st)"
proof (cases "cs_pending st = Some i")
  case True
  with assms show ?thesis
    by (auto simp: send_finally_def Let_def calls_inv_def calls_ok_def distinct_map_filter)
next
  case False
  with assms show ?thesis
    by (auto simp: send_finally_def Let_def calls_inv_def calls_ok_def distinct_map_filter)
qed

text \<open>A failed call changes, besides its end, only what the user sees.\<close>

definition send_core :: "controls \<Rightarrow> send_call list \<times> nat list \<times> nat option \<times> intent option \<times> string option \<times> bool \<times> nat
    \<times> sent_post list \<times> string list" where
  "send_core st = (cs_calls st, cs_aborted st, cs_pending st, cs_pending_intent st, cs_busy_type st, cs_mounted st,
     cs_fresh_id st, cs_sent st, cs_created st)"

lemma send_failed_core:
  obtains st' where "send_failed now c e st = send_finally (sc_id c) st'" "send_core st' = send_core st"
  by (rule that [OF send_failed_def]) (simp add: send_core_def)

lemma calls_inv_failed: "calls_inv st \<Longrightarrow> calls_inv (send_failed now c e st)"
proof -
  assume a: "calls_inv st"
  obtain st' where st': "send_failed now c e st = send_finally (sc_id c) st'" "send_core st' = send_core st"
    by (rule send_failed_core)
  from a st'(2) have "calls_inv st'" by (simp add: send_core_def calls_inv_def)
  with st'(1) show ?thesis by (simp add: calls_inv_finally)
qed

lemma calls_inv_overview:
  assumes "calls_inv st"
  shows "calls_inv (overview_arrived now available i answer st)"
proof -
  have "calls_inv (st\<lparr>cs_calls := map (mark_posted i) (cs_calls st), cs_sent := x\<rparr>)" for x
    using assms by (auto simp: calls_inv_def calls_ok_def)
  with assms show ?thesis
    by (auto simp: overview_arrived_def calls_inv_failed split: option.split sum.split)
qed

lemma calls_inv_receipt:
  assumes "calls_inv st"
  shows "calls_inv (receipt_arrived now i answer st)"
proof -
  have "calls_inv (st\<lparr>cs_uncertain := u, cs_notice := n, cs_created := x\<rparr>)" for u n x
    using assms by (simp add: calls_inv_def)
  with assms show ?thesis
    by (auto simp: receipt_arrived_def calls_inv_failed calls_inv_finally split: option.split sum.split)
qed

lemma calls_inv_confirm: "calls_inv st \<Longrightarrow> calls_inv (handleConfirm p v now available uuid st)"
proof -
  assume a: "calls_inv st"
  have close: "calls_inv (s\<lparr>cs_dialog := d\<rparr>) = calls_inv s" for s d by (simp add: calls_inv_def)
  have quiet: "calls_inv (s\<lparr>cs_uncertain := u, cs_notice := n\<rparr>) = calls_inv s" for s u n by (simp add: calls_inv_def)
  from a show ?thesis
    by (auto simp: handleConfirm_def Let_def close quiet calls_inv_send split: option.split sum.split dialog.split)
qed

lemma calls_inv_step: "calls_inv st \<Longrightarrow> calls_inv (control_step ev st)"
proof (cases ev)
  case (EvUpdate now available)
  assume a: "calls_inv st"
  then have "calls_inv (st\<lparr>cs_now := now\<rparr>)" by (simp add: calls_inv_def)
  with EvUpdate show ?thesis by (simp add: browser_update_def Let_def calls_inv_abort)
next
  case EvUnmounted
  assume a: "calls_inv st"
  then have "calls_inv (st\<lparr>cs_mounted := False\<rparr>)" by (simp add: calls_inv_def calls_ok_def)
  with EvUnmounted show ?thesis by (simp add: controls_unmount_def calls_inv_abort)
next
  case (EvDeadline i)
  assume a: "calls_inv st"
  with EvDeadline show ?thesis by (auto simp: deadline_timer_def calls_inv_def calls_ok_def)
qed (simp_all add: calls_inv_confirm calls_inv_overview calls_inv_receipt, simp_all add: calls_inv_def)

definition sent_ok :: "sent_post list \<Rightarrow> send_call list \<Rightarrow> nat \<Rightarrow> bool" where
  "sent_ok sent calls fresh \<longleftrightarrow>
     (let ids = map (\<lambda>po. sc_id (po_call po)) sent in
      (\<forall>po \<in> set sent. post_ok po) \<and> distinct ids \<and> (\<forall>i \<in> set ids. i < fresh)
      \<and> (\<forall>c \<in> set calls. sc_id c \<in> set ids \<longrightarrow> sc_posted c))"

lemma sent_inv_ok: "sent_inv st = sent_ok (cs_sent st) (cs_calls st) (cs_fresh_id st)"
  by (simp add: sent_inv_def sent_ok_def sent_ids_def)

lemma sent_inv_send: "sent_inv st \<Longrightarrow> sent_inv (handleSend cx now available it previous st)"
  by (auto simp: sent_inv_ok sent_ok_def handleSend_def Let_def less_Suc_eq)

lemma sent_inv_finally: "sent_inv st \<Longrightarrow> sent_inv (send_finally i st)"
  by (auto simp: sent_inv_ok sent_ok_def send_finally_def Let_def)

lemma sent_inv_failed: "sent_inv st \<Longrightarrow> sent_inv (send_failed now c e st)"
proof -
  assume a: "sent_inv st"
  obtain st' where st': "send_failed now c e st = send_finally (sc_id c) st'" "send_core st' = send_core st"
    by (rule send_failed_core)
  from a st'(2) have "sent_inv st'" by (simp add: send_core_def sent_inv_ok)
  with st'(1) show ?thesis by (simp add: sent_inv_finally)
qed

lemma lift_api_Inr [simp]: "lift_api r = Inr v \<longleftrightarrow> r = Inr v"
  by (cases r) (auto simp: lift_api_def)

lemma sent_inv_overview:
  assumes "sent_inv st" "calls_inv st"
  shows "sent_inv (overview_arrived now available i answer st)"
proof (cases "call_of i st")
  case None
  with assms show ?thesis by (simp add: overview_arrived_def)
next
  case (Some c)
  note c = call_ofD [OF Some]
  show ?thesis
  proof (cases "bindE answer (\<lambda>raw.
      lift_api (parseOverview raw (cx_device (sc_context c)) (cx_organization (sc_context c))))")
    case (Inl e)
    with Some assms show ?thesis by (simp add: overview_arrived_def sent_inv_failed)
  next
    case (Inr fresh)
    then have raw: "\<exists>raw. parseOverview raw (cx_device (sc_context c)) (cx_organization (sc_context c)) = Inr fresh"
      by (auto simp: bindE_def split: sum.splits)
    let ?po = "\<lparr> po_call = c, po_fresh = fresh, po_time = now, po_available = available, po_aborted = (i \<in> set (cs_aborted st)) \<rparr>"
    have "sent_inv (st\<lparr>cs_calls := map (mark_posted i) (cs_calls st), cs_sent := cs_sent st @ [?po]\<rparr>)"
      if "post_ok ?po" "\<not> sc_posted c"
    proof -
      have "\<forall>d \<in> set (cs_calls st). sc_id d = sc_id c \<longrightarrow> d = c"
        using calls_unique [OF assms(2)] c by blast
      then show ?thesis
        using that assms c by (auto simp: sent_inv_ok sent_ok_def Let_def calls_inv_def calls_ok_def)
    qed
    moreover have "canExecute (sc_context c)"
      using assms(2) c by (auto simp: calls_inv_def calls_ok_def)
    ultimately show ?thesis
      using Some Inr raw assms(1)
      by (auto simp: overview_arrived_def sent_inv_failed post_ok_def Let_def split: option.split)
  qed
qed

lemma sent_inv_receipt: "sent_inv st \<Longrightarrow> sent_inv (receipt_arrived now i answer st)"
proof -
  assume a: "sent_inv st"
  have "sent_inv (st\<lparr>cs_uncertain := u, cs_notice := n, cs_created := x\<rparr>)" for u n x
    using a by (simp add: sent_inv_ok)
  with a show ?thesis
    by (auto simp: receipt_arrived_def sent_inv_failed sent_inv_finally split: option.split sum.split)
qed

lemma sent_inv_confirm: "sent_inv st \<Longrightarrow> sent_inv (handleConfirm p v now available uuid st)"
proof -
  assume a: "sent_inv st"
  have close: "sent_inv (s\<lparr>cs_dialog := d\<rparr>) = sent_inv s" for s d by (simp add: sent_inv_ok)
  have quiet: "sent_inv (s\<lparr>cs_uncertain := u, cs_notice := n\<rparr>) = sent_inv s" for s u n by (simp add: sent_inv_ok)
  from a show ?thesis
    by (auto simp: handleConfirm_def Let_def close quiet sent_inv_send split: option.split sum.split dialog.split)
qed

lemma sent_inv_step: "sent_inv st \<Longrightarrow> calls_inv st \<Longrightarrow> sent_inv (control_step ev st)"
proof (cases ev)
  case (EvUpdate now available)
  moreover assume "sent_inv st"
  ultimately show ?thesis by (simp add: browser_update_def Let_def sent_inv_ok)
next
  case EvUnmounted
  moreover assume "sent_inv st"
  ultimately show ?thesis by (simp add: controls_unmount_def sent_inv_ok)
next
  case (EvDeadline i)
  moreover assume "sent_inv st"
  ultimately show ?thesis by (simp add: deadline_timer_def sent_inv_ok)
qed (simp_all add: sent_inv_confirm sent_inv_overview sent_inv_receipt, simp_all add: sent_inv_ok)

lemma control_run_snoc: "control_run (evs @ [ev]) = control_step ev (control_run evs)"
  by (simp add: control_run_def)

lemma control_run_inv: "calls_inv (control_run evs) \<and> sent_inv (control_run evs)"
proof (induction evs rule: rev_induct)
  case Nil
  show ?case
    by (simp add: control_run_def controls_start_def calls_inv_def calls_ok_def sent_inv_ok sent_ok_def)
next
  case (snoc ev evs)
  then show ?case by (simp add: control_run_snoc calls_inv_step sent_inv_step)
qed

text \<open>The controllers made so far are at most the confirmations.\<close>

definition is_confirm :: "control_event \<Rightarrow> bool" where
  "is_confirm ev = (case ev of EvConfirm _ _ _ _ _ \<Rightarrow> True | _ \<Rightarrow> False)"

lemma send_finally_fresh [simp]: "cs_fresh_id (send_finally i st) = cs_fresh_id st"
  by (simp add: send_finally_def Let_def)

lemma send_failed_fresh [simp]: "cs_fresh_id (send_failed now c e st) = cs_fresh_id st"
  by (simp add: send_failed_def)

lemma handleConfirm_fresh: "cs_fresh_id (handleConfirm p v now available uuid st) \<le> Suc (cs_fresh_id st)"
  by (auto simp: handleConfirm_def handleSend_def Let_def split: option.split sum.split dialog.split)

lemma control_step_fresh: "cs_fresh_id (control_step ev st) \<le> cs_fresh_id st + (if is_confirm ev then 1 else 0)"
  using handleConfirm_fresh
  by (cases ev) (auto simp: is_confirm_def browser_update_def Let_def controls_unmount_def deadline_timer_def
      overview_arrived_def receipt_arrived_def split: option.split sum.split)

lemma control_run_fresh: "cs_fresh_id (control_run evs) \<le> length (filter is_confirm evs)"
proof (induction evs rule: rev_induct)
  case Nil
  show ?case by (simp add: control_run_def controls_start_def)
next
  case (snoc ev evs)
  have "cs_fresh_id (control_run (evs @ [ev])) \<le> cs_fresh_id (control_run evs) + (if is_confirm ev then 1 else 0)"
    unfolding control_run_snoc by (rule control_step_fresh)
  with snoc show ?case by (cases "is_confirm ev") simp_all
qed

section \<open>Block reasons are texts\<close>

lemma block_texts:
  "msg_local_control \<noteq> []" "msg_await_diagnostics \<noteq> []" "list_all (\<lambda>(k, m). m \<noteq> []) interlocks"
  "list_all (\<lambda>(k, m). m \<noteq> []) equipmentStateLabels"
  by code_simp+

lemma interlockReason_text: "list_all (\<lambda>(k, m). m \<noteq> []) ks \<Longrightarrow> interlockReason ov e m ks \<noteq> Some []"
  using block_texts(2) by (induction ks) (auto split: option.splits if_splits)

lemma controlBlockReason_text: "controlBlockReason ov e \<noteq> Some []"
proof -
  have "map_of equipmentStateLabels k \<noteq> Some []" for k
    using block_texts(4) by (auto simp: list_all_iff dest!: map_of_SomeD)
  then show ?thesis
    using block_texts(1) interlockReason_text [OF block_texts(3)]
    by (auto simp: controlBlockReason_def split: option.splits if_splits)
qed

lemma send_check_cleared:
  assumes "send_check input previous fresh = None"
  shows "ov_equipment_target fresh = ci_target input \<and> ci_type input \<in> set (ov_allowed fresh)
    \<and> (ci_type input \<noteq> ''vfd.stop'' \<longrightarrow> av_online (ov_availability fresh) \<and> controlBlockReason fresh 0 = None
         \<and> (programActive (overview_program (Some fresh)) \<longrightarrow> previous))
    \<and> (ci_type input = ''vfd.frequency.set'' \<longrightarrow> (\<exists>l. ov_limits fresh = Some l
         \<and> \<not> num_lt (js_to_number (fld (ci_payload input) ''frequency_hz'')) (Fin (min_hz l))
         \<and> \<not> num_lt (Fin (max_hz l)) (js_to_number (fld (ci_payload input) ''frequency_hz''))))
    \<and> (ci_type input = ''vfd.program.start'' \<longrightarrow> fr_status (ov_freshness fresh) = Fresh
         \<and> (\<exists>g. overview_program (Some fresh) = Some g \<and> truthy (fld g ''ready''))
         \<and> (\<exists>plan. parseProgramPlan (ci_payload input) MAX_PROGRAM_SECONDS = Some plan
               \<and> programWithinLimits plan (ov_limits fresh)))"
proof -
  note t = controlBlockReason_text [of fresh 0]
  show ?thesis
  proof (intro conjI impI)
    show "ov_equipment_target fresh = ci_target input" "ci_type input \<in> set (ov_allowed fresh)"
      using assms by (simp_all add: send_check_def Let_def sameEquipmentTarget_iff split: if_splits)
  next
    assume "ci_type input \<noteq> ''vfd.stop''"
    with assms t show "av_online (ov_availability fresh)" "controlBlockReason fresh 0 = None"
      by (auto simp: send_check_def Let_def split: if_splits)
  next
    assume "ci_type input \<noteq> ''vfd.stop''" "programActive (overview_program (Some fresh))"
    with assms t show previous by (auto simp: send_check_def Let_def split: if_splits)
  next
    assume f: "ci_type input = ''vfd.frequency.set''"
    with assms t show "\<exists>l. ov_limits fresh = Some l
         \<and> \<not> num_lt (js_to_number (fld (ci_payload input) ''frequency_hz'')) (Fin (min_hz l))
         \<and> \<not> num_lt (Fin (max_hz l)) (js_to_number (fld (ci_payload input) ''frequency_hz''))"
      by (cases "ov_limits fresh") (simp_all add: send_check_def Let_def split: if_splits)
  next
    assume p: "ci_type input = ''vfd.program.start''"
    from assms p t show "fr_status (ov_freshness fresh) = Fresh"
      by (simp add: send_check_def Let_def split: if_splits)
    from assms p t show "\<exists>g. overview_program (Some fresh) = Some g \<and> truthy (fld g ''ready'')"
      by (cases "overview_program (Some fresh)") (simp_all add: send_check_def Let_def split: if_splits)
    from assms p t show "\<exists>plan. parseProgramPlan (ci_payload input) MAX_PROGRAM_SECONDS = Some plan
        \<and> programWithinLimits plan (ov_limits fresh)"
      by (cases "parseProgramPlan (ci_payload input) MAX_PROGRAM_SECONDS")
        (simp_all add: send_check_def Let_def split: if_splits)
  qed
qed

lemma draftPlan_wf: "control_plan v = Some plan \<Longrightarrow> wf_plan MAX_PROGRAM_SECONDS plan"
  by (auto simp: control_plan_def draftPlan_def Let_def split: if_splits intro: parseProgramPlan_wf)

lemma validTtl_bounds: "validTtl t \<Longrightarrow> \<exists>n :: int. js_number t = Fin (of_int n) \<and> 5 \<le> n \<and> n \<le> 300"
  by (cases "js_number t") (auto simp: validTtl_def elim!: Ints_cases)

text \<open>What an enabled dialog sends.\<close>

lemma new_intent_ok:
  assumes "control_enabled p v type"
  shows "\<exists>it n. new_intent now uuid type target v st = Inr it \<and> ci_type (it_input it) = type
    \<and> ci_request_id (it_input it) = uuid \<and> ci_ttl (it_input it) = n \<and> 5 \<le> n \<and> n \<le> 300
    \<and> it_deadline it = now + of_int n * 1000 \<and> ci_target (it_input it) = target
    \<and> ci_supersedes (it_input it) = (if type = ''vfd.stop'' then map_option superseded (prior_request v st) else None)"
proof -
  obtain n :: int where n: "ttl_seconds v = Fin (of_int n)" "5 \<le> n" "n \<le> 300"
  proof (cases "validTtl (cs_ttl v)")
    case True
    with validTtl_bounds [OF True] that show ?thesis by (auto simp: ttl_seconds_def)
  next
    case False
    with that [of 30] show ?thesis by (simp add: ttl_seconds_def)
  qed
  have "\<exists>input. makeCommandInput type (cs_frequency v) (ttl_seconds v) uuid
      (case control_plan v of None \<Rightarrow> JNull | Some plan \<Rightarrow> encode_plan plan) = Inr input \<and> ci_type input = type
      \<and> ci_request_id input = uuid \<and> ci_ttl input = n \<and> ci_target input = None \<and> ci_supersedes input = None"
  proof (cases "type = ''vfd.program.start''")
    case True
    with assms obtain plan where p: "control_plan v = Some plan"
      by (auto simp: control_enabled_def programValid_def split: option.splits)
    from parse_encode_plan [OF draftPlan_wf [OF p]] p n True show ?thesis
      by (simp add: makeCommandInput_def)
  next
    case False
    have "validFrequency (cs_frequency v) \<noteq> None" if "type = ''vfd.frequency.set''"
      using assms that by (auto simp: control_enabled_def frequencyValid_def split: option.splits)
    with False n show ?thesis
      by (auto simp: makeCommandInput_def)
  qed
  then show ?thesis using n
    by (auto simp: new_intent_def Let_def split: option.split)
qed

section \<open>Properties\<close>

text \<open>A snapshot of a page that offers START, a rendering with its dialog open, and the run in which the
  user confirms and the fresh snapshot arrives.\<close>

definition sample_page :: overview where
  "sample_page = \<lparr> ov_equipment_target = None, ov_equipment_state = ''verified'', ov_generated_at = [],
     ov_device = sample_device,
     ov_availability = \<lparr> av_device_id = dev_id sample_device, av_uid = ''u1'', av_online = True, av_last_seen_at = None,
       av_timeout_seconds = 60, av_seconds_since_seen = Some 1 \<rparr>,
     ov_freshness = \<lparr> fr_status = Fresh, fr_reason = ''recent'', fr_received_at = None, fr_reported_at = None,
       fr_age = Some 1, fr_stale_after = 30 \<rparr>,
     ov_diagnostics = None, ov_modules = [], ov_allowed = [''START'', ''vfd.stop''], ov_limits = None \<rparr>"

definition sample_context :: control_context where
  "sample_context = \<lparr> cx_permissions = [''command.execute''], cx_device = sample_device,
     cx_organization = sample_id (CHR ''3''), cx_user = sample_id (CHR ''6'') \<rparr>"

definition sample_props :: control_props where
  "sample_props = \<lparr> cp_context = sample_context, cp_overview = Some sample_page, cp_received_at = 0, cp_active = True,
     cp_refreshing = False \<rparr>"

definition sample_view :: controls where
  "sample_view = controls_start\<lparr>cs_dialog := Some (NewDialog ''START'' None)\<rparr>"

definition sample_confirm :: control_event where
  "sample_confirm = EvConfirm sample_props sample_view 0 True ''r1''"

definition sample_dispatch :: "control_event list" where
  "sample_dispatch = [sample_confirm, EvOverview 1 True 0 (Inr (sample_overview True [''command.execute'']))]"

lemma sample_enabled: "control_enabled sample_props sample_view ''START''"
  by code_simp

definition sample_intent :: intent where
  "sample_intent = \<lparr> it_input = \<lparr> ci_request_id = ''r1'', ci_type = ''START'', ci_payload = JObj [], ci_ttl = 30,
     ci_target = None, ci_supersedes = None \<rparr>, it_deadline = 30000 \<rparr>"

definition sample_call :: "bool \<Rightarrow> send_call" where
  "sample_call posted = \<lparr> sc_id = 0, sc_context = sample_context, sc_intent = sample_intent, sc_previous = False,
     sc_posted = posted \<rparr>"

lemma sample_new_intent: "new_intent 0 ''r1'' ''START'' None sample_view controls_start = Inr sample_intent"
  by code_simp

lemma sample_confirmed:
  "control_run [sample_confirm] = controls_start\<lparr>cs_fresh_id := 1, cs_pending := Some 0,
     cs_pending_intent := Some sample_intent, cs_busy_type := Some ''START'', cs_notice := None,
     cs_calls := [sample_call False], cs_dialog := None\<rparr>"
proof -
  have "cs_dialog sample_view = Some (NewDialog ''START'' None)" by (simp add: sample_view_def)
  then have "control_run [sample_confirm]
      = (handleSend sample_context 0 True sample_intent False controls_start)\<lparr>cs_dialog := None\<rparr>"
    using sample_enabled sample_new_intent
    by (simp add: control_run_def sample_confirm_def handleConfirm_def sample_props_def)
  also have "\<dots> = controls_start\<lparr>cs_fresh_id := 1, cs_pending := Some 0,
     cs_pending_intent := Some sample_intent, cs_busy_type := Some ''START'', cs_notice := None,
     cs_calls := [sample_call False], cs_dialog := None\<rparr>"
    by (simp add: handleSend_def canExecute_def sample_context_def sample_intent_def controls_start_def abort_pending_def
        sample_call_def)
  finally show ?thesis .
qed

lemma sample_fresh:
  "holds (\<lambda>fresh. send_check (it_input sample_intent) False fresh = None) (sample_parsed True [''command.execute''])"
  by code_simp

lemma sample_sent:
  "\<exists>fresh. control_run sample_dispatch = (control_run [sample_confirm])\<lparr>cs_calls := [sample_call True],
     cs_sent := [\<lparr> po_call = sample_call False, po_fresh = fresh, po_time = 1, po_available = True, po_aborted = False \<rparr>]\<rparr>"
proof -
  obtain fresh where f: "sample_parsed True [''command.execute''] = Inr fresh"
    "send_check (it_input sample_intent) False fresh = None"
    using sample_fresh by (auto simp: holds_iff)
  then have "parseOverview (sample_overview True [''command.execute'']) sample_device (sample_id (CHR ''3'')) = Inr fresh"
    by (simp add: sample_parsed_def)
  then have "overview_arrived 1 True 0 (Inr (sample_overview True [''command.execute''])) (control_run [sample_confirm])
      = (control_run [sample_confirm])\<lparr>cs_calls := [sample_call True],
     cs_sent := [\<lparr> po_call = sample_call False, po_fresh = fresh, po_time = 1, po_available = True, po_aborted = False \<rparr>]\<rparr>"
    using f(2)
    by (simp add: overview_arrived_def sample_confirmed call_of_def sample_call_def sample_context_def bindE_def
        lift_api_def controls_start_def mark_posted_def) (simp add: sample_intent_def)
  then show ?thesis
    by (intro exI [of _ fresh]) (simp add: sample_dispatch_def control_run_def)
qed

text \<open>C3: No command leaves the page unchecked: every POST a run of the component sends was confirmed by a
  user with the permission to execute commands, before its deadline, with the browser online and visible and
  the call not aborted, and follows a fresh snapshot of the same device that is coherent, names the same
  equipment configuration the user confirmed and allows the command. Unless it is STOP, the device is online,
  the interlock is open and no program is running (except for a repeat of the same request); a frequency is
  within the limits of the installation, and so is every stage of a program.\<close>

theorem posts_are_checked:
  assumes "po \<in> set (cs_sent (control_run evs))"
    and "c = po_call po" and "input = it_input (sc_intent c)" and "fresh = po_fresh po"
  shows "''command.execute'' \<in> set (cx_permissions (sc_context c)) \<and> po_time po < it_deadline (sc_intent c)
    \<and> po_available po \<and> \<not> po_aborted po \<and> wf_overview (cx_device (sc_context c)) fresh
    \<and> ov_equipment_target fresh = ci_target input \<and> ci_type input \<in> set (ov_allowed fresh)
    \<and> (ci_type input \<noteq> ''vfd.stop'' \<longrightarrow> av_online (ov_availability fresh) \<and> unblocked fresh 0
         \<and> (programActive (overview_program (Some fresh)) \<longrightarrow> sc_previous c))
    \<and> (ci_type input = ''vfd.frequency.set'' \<longrightarrow> (\<exists>l. ov_limits fresh = Some l
         \<and> \<not> num_lt (js_to_number (fld (ci_payload input) ''frequency_hz'')) (Fin (min_hz l))
         \<and> \<not> num_lt (Fin (max_hz l)) (js_to_number (fld (ci_payload input) ''frequency_hz''))))
    \<and> (ci_type input = ''vfd.program.start'' \<longrightarrow> fr_status (ov_freshness fresh) = Fresh
         \<and> (\<exists>plan. parseProgramPlan (ci_payload input) MAX_PROGRAM_SECONDS = Some plan
               \<and> programWithinLimits plan (ov_limits fresh)))"
proof -
  have ok: "post_ok po" using control_run_inv [of evs] assms(1) by (auto simp: sent_inv_def)
  then obtain raw where raw: "parseOverview raw (cx_device (sc_context c)) (cx_organization (sc_context c)) = Inr fresh"
    using assms by (auto simp: post_ok_def Let_def)
  note wf = parseOverview_wf [OF raw]
  from wf have "controlBlockReason fresh 0 = None \<longleftrightarrow> unblocked fresh 0"
    by (intro controlBlockReason_iff) (simp add: wf_overview_def)
  moreover have "send_check input (sc_previous c) fresh = None"
    using ok assms by (simp add: post_ok_def Let_def)
  ultimately show ?thesis
    using send_check_cleared [of input "sc_previous c" fresh] wf ok assms
    by (simp add: post_ok_def Let_def canExecute_def)
qed

lemma posts_are_checked_witness:
  "\<exists>po. po \<in> set (cs_sent (control_run sample_dispatch)) \<and> ci_request_id (it_input (sc_intent (po_call po))) = ''r1''
     \<and> po_time po < it_deadline (sc_intent (po_call po))"
proof -
  obtain po where "po \<in> set (cs_sent (control_run sample_dispatch))" "po_call po = sample_call False"
    using sample_sent by auto
  with posts_are_checked [OF this(1) refl refl refl] show ?thesis
    by (intro exI [of _ po]) (simp add: sample_call_def sample_intent_def)
qed

text \<open>C6: One command at a time: at any moment at most one call under way is not aborted, the one the component
  holds as pending; while it is mounted the page shows itself busy with exactly that command. No confirmation,
  however stale the rendering it comes from, starts a call while a STOP is pending or anything but a STOP while
  another call is.\<close>

theorem one_command_at_a_time:
  assumes "st = control_run evs"
  shows "(\<forall>c \<in> set (cs_calls st). sc_id c \<notin> set (cs_aborted st) \<longrightarrow> cs_pending st = Some (sc_id c))
    \<and> distinct (map sc_id (cs_calls st))
    \<and> (cs_mounted st \<longrightarrow> cs_busy_type st = map_option (\<lambda>it. ci_type (it_input it)) (cs_pending_intent st))
    \<and> (cs_pending st \<noteq> None \<longleftrightarrow> cs_pending_intent st \<noteq> None)
    \<and> (\<forall>c \<in> set (cs_calls (handleConfirm p v now available uuid st)) - set (cs_calls st).
         cs_pending st = None \<or> (\<not> stop_pending st \<and> ci_type (it_input (sc_intent c)) = ''vfd.stop''))"
proof -
  have "calls_inv st" using control_run_inv assms by simp
  moreover have "cs_pending st = None \<or> (\<not> stop_pending st \<and> ci_type (it_input (sc_intent c)) = ''vfd.stop'')"
    if "c \<in> set (cs_calls (handleConfirm p v now available uuid st)) - set (cs_calls st)" for c
    using that by (auto simp: handleConfirm_def handleSend_def Let_def split: option.splits sum.splits dialog.splits if_splits)
  ultimately show ?thesis by (auto simp: calls_inv_def calls_ok_def)
qed

lemma one_command_at_a_time_witness:
  "cs_busy_type (control_run sample_dispatch) = Some ''START''"
  using one_command_at_a_time [OF refl, of sample_dispatch] sample_sent
  by (auto simp: sample_confirmed controls_start_def sample_intent_def)

text \<open>C16: A command is never sent by itself: each call posts at most once, and a run never posts more often
  than the user confirmed.\<close>

theorem one_post_per_confirmation:
  "distinct (sent_ids (control_run evs))
   \<and> length (cs_sent (control_run evs)) \<le> length (filter is_confirm evs)"
proof -
  let ?st = "control_run evs"
  have d: "distinct (sent_ids ?st)" "set (sent_ids ?st) \<subseteq> {..<cs_fresh_id ?st}"
    using control_run_inv [of evs] by (auto simp: sent_inv_def)
  then have "length (sent_ids ?st) \<le> cs_fresh_id ?st"
    using card_mono [OF _ d(2)] by (simp add: distinct_card)
  with d(1) control_run_fresh [of evs] show ?thesis by (simp add: sent_ids_def)
qed

text \<open>C15: A command whose reception is unknown is not lost and not doubled: when the POST of the pending call
  fails without a definite refusal the same request stays on the page for a check, and while it does the only
  calls a confirmation starts are a repeat of exactly this request or a STOP that names the request it
  supersedes.\<close>

theorem unknown_outcome_kept:
  assumes "call_of i st = Some c" and "sc_posted c" and "cs_mounted st" and "cs_pending st = Some i"
    and "\<not> definitelyRejected e" and "cs_uncertain v = Some u"
  shows "cs_uncertain (receipt_arrived now i (Inl e) st)
      = Some \<lparr> un_intent = sc_intent c, un_retry_at = now + rate_wait e, un_message = send_message e \<rparr>
    \<and> (\<forall>d \<in> set (cs_calls (handleConfirm p v now available uuid st')) - set (cs_calls st').
         (sc_intent d = un_intent u \<and> sc_previous d \<and> un_retry_at u \<le> cs_now v)
         \<or> (ci_type (it_input (sc_intent d)) = ''vfd.stop'' \<and> \<not> sc_previous d
            \<and> ci_supersedes (it_input (sc_intent d)) = map_option superseded (prior_request v st')
            \<and> prior_request v st' \<noteq> None))"
proof -
  have "cs_uncertain (send_finally j s) = cs_uncertain s" for j s by (simp add: send_finally_def Let_def)
  then have "cs_uncertain (receipt_arrived now i (Inl e) st)
      = Some \<lparr> un_intent = sc_intent c, un_retry_at = now + rate_wait e, un_message = send_message e \<rparr>"
    using assms call_ofD [OF assms(1)] by (simp add: receipt_arrived_def bindE_def send_failed_def)
  moreover have new: "sc_intent d = it \<and> sc_previous d = b"
    if "d \<in> set (cs_calls (handleSend cx now available it b s)) - set (cs_calls s)" for d cx it b s
    using that by (auto simp: handleSend_def Let_def split: if_splits)
  have "(sc_intent d = un_intent u \<and> sc_previous d \<and> un_retry_at u \<le> cs_now v)
         \<or> (ci_type (it_input (sc_intent d)) = ''vfd.stop'' \<and> \<not> sc_previous d
            \<and> ci_supersedes (it_input (sc_intent d)) = map_option superseded (prior_request v st')
            \<and> prior_request v st' \<noteq> None)"
    if d: "d \<in> set (cs_calls (handleConfirm p v now available uuid st')) - set (cs_calls st')" for d
  proof (cases "cs_dialog v")
    case None
    with d show ?thesis by (simp add: handleConfirm_def)
  next
    case (Some dl)
    show ?thesis
    proof (cases dl)
      case RetryDialog
      with Some d assms(6) new [of d "cp_context p" "un_intent u" True st'] show ?thesis
        by (auto simp: handleConfirm_def retryEnabled_def split: if_splits)
    next
      case DiscardDialog
      with Some d show ?thesis by (simp add: handleConfirm_def)
    next
      case (NewDialog type target)
      with Some d have en: "control_enabled p v type" by (auto simp: handleConfirm_def Let_def split: if_splits)
      then have t: "type = ''vfd.stop''" using assms(6) by (auto simp: control_enabled_def split: if_splits)
      obtain it where it: "new_intent now uuid type target v st' = Inr it" "ci_type (it_input it) = type"
        "ci_supersedes (it_input it) = map_option superseded (prior_request v st')"
        using new_intent_ok [OF en, of now uuid target st'] t by auto
      have "prior_request v st' \<noteq> None" using assms(6) by (simp add: prior_request_def split: option.split)
      with Some NewDialog d en it t new [of d "cp_context p" it False st'] show ?thesis
        by (simp add: handleConfirm_def)
    qed
  qed
  ultimately show ?thesis by blast
qed

text \<open>Confirming an enabled command never fails: the request built from it is valid, carries the identifier
  made for it and the configuration shown in the dialog, its time to live is between 5 and 300 seconds and ends
  exactly at the deadline of the call; a STOP, and only a STOP, names the request it supersedes.\<close>

theorem confirmed_request_valid:
  assumes "control_enabled p v type"
  shows "\<exists>it n. new_intent now uuid type target v st = Inr it \<and> ci_type (it_input it) = type
    \<and> ci_request_id (it_input it) = uuid \<and> ci_ttl (it_input it) = n \<and> 5 \<le> n \<and> n \<le> 300
    \<and> it_deadline it = now + of_int n * 1000 \<and> ci_target (it_input it) = target
    \<and> ci_supersedes (it_input it) = (if type = ''vfd.stop'' then map_option superseded (prior_request v st) else None)"
  by (rule new_intent_ok [OF assms])

lemma confirmed_request_valid_witness:
  "new_intent 0 ''r1'' ''START'' None sample_view controls_start = Inr sample_intent \<and> ci_ttl (it_input sample_intent) \<le> 300"
  using confirmed_request_valid [OF sample_enabled, of 0 "''r1''" None controls_start] sample_new_intent by auto

lemma unknown_outcome_kept_witness:
  "cs_uncertain (receipt_arrived 2 0 (Inl (JsExn ''lost'')) (control_run sample_dispatch))
     = Some \<lparr> un_intent = sample_intent, un_retry_at = 2, un_message = ''lost'' \<rparr>"
proof -
  obtain fresh where s: "control_run sample_dispatch = (control_run [sample_confirm])\<lparr>cs_calls := [sample_call True],
     cs_sent := [\<lparr> po_call = sample_call False, po_fresh = fresh, po_time = 1, po_available = True, po_aborted = False \<rparr>]\<rparr>"
    using sample_sent by blast
  let ?u = "\<lparr> un_intent = sample_intent, un_retry_at = 0, un_message = [] \<rparr>"
  show ?thesis
    using unknown_outcome_kept [of 0 "control_run sample_dispatch" "sample_call True" "JsExn ''lost''"
        "controls_start\<lparr>cs_uncertain := Some ?u\<rparr>" ?u 2]
    by (simp add: s sample_confirmed call_of_def sample_call_def controls_start_def definitelyRejected_def rate_wait_def
        send_message_def)
qed

end
