(* ===== verification/VfdSettingsChange.thy ===== *)
theory VfdSettingsChange
  imports CommandControls VfdSettings
begin

text \<open>
  \<open>features/vfd-settings.tsx\<close>: changing the control source and the service parameters of the frequency converter.

  \<open>useSettingsChange\<close> sends one write at a time: a confirmed change is checked against a fresh snapshot, posted
  once, and the panel stays busy until a receipt of that very request is settled; a write whose outcome is not known
  is looked for (GET), never repeated. The handlers run on the rendered state: the page commits a handler's updates
  before the next event. Not in the code, but recorded for the properties: \<open>vs_opened\<close> (the request ids drawn by
  \<open>open\<close>), \<open>vs_posts\<close> (the requests posted, latest first, with the snapshot they were checked against) and
  \<open>vs_resolved\<close> (the requests rejected or answered).
\<close>

section \<open>State\<close>

record vfd_change =
  vc_input :: command_input
  vc_title :: string
  vc_description :: string

record settings_change =
  vs_dialog :: "vfd_change option"
  vs_intent :: "command_input option"
  vs_sending :: bool
  vs_notice :: "string option"
  vs_running :: bool
  vs_call :: "(command_input \<times> bool) option"
  vs_data :: "json option option"
  vs_notified :: "string option"
  vs_created :: "string list"
  vs_refreshes :: nat
  vs_opened :: "string list"
  vs_posts :: "(command_input \<times> overview) list"
  vs_resolved :: "(command_input \<times> json option) list"

definition change_start :: settings_change where
  "change_start = \<lparr> vs_dialog = None, vs_intent = None, vs_sending = False, vs_notice = None, vs_running = False,
     vs_call = None, vs_data = None, vs_notified = None, vs_created = [], vs_refreshes = 0, vs_opened = [],
     vs_posts = [], vs_resolved = [] \<rparr>"

text \<open>What a rendering is given: the access and the device, the snapshot and its age, the activity of the section and
  of the query.\<close>

record change_view =
  cv_overview :: "overview option"
  cv_elapsed :: rat
  cv_section :: bool
  cv_query_active :: bool

definition vfd_ready :: "json \<Rightarrow> bool" where
  "vfd_ready settings = truthy (fld settings ''ready'')"

definition change_settled :: "settings_change \<Rightarrow> bool" where
  "change_settled st = (case vs_data st of Some (Some command) \<Rightarrow> \<not> commandPending command | _ \<Rightarrow> False)"

definition change_busy :: "settings_change \<Rightarrow> bool" where
  "change_busy st = (vs_sending st \<or> (vs_intent st \<noteq> None \<and> \<not> change_settled st))"

definition canAct :: "control_context \<Rightarrow> change_view \<Rightarrow> bool" where
  "canAct cx v =
     (case cv_overview v of
        None \<Rightarrow> False
      | Some ov \<Rightarrow>
          cv_section v \<and> cv_query_active v \<and> av_online (ov_availability ov) \<and> data_fresh ov (cv_elapsed v)
          \<and> (case vfd_source ov of None \<Rightarrow> False | Some s \<Rightarrow> vfd_ready s)
          \<and> ''command.execute'' \<in> set (cx_permissions cx))"

section \<open>Opening a change\<close>

definition open_change ::
  "control_context \<Rightarrow> change_view \<Rightarrow> string \<Rightarrow> json \<Rightarrow> bool \<Rightarrow> string \<Rightarrow> string \<Rightarrow> settings_change \<Rightarrow> settings_change" where
  "open_change cx v uuid payload parameter title description st =
     (case cv_overview v of
        None \<Rightarrow> st
      | Some ov \<Rightarrow>
          if \<not> canAct cx v \<or> change_busy st then st
          else st\<lparr>vs_opened := uuid # vs_opened st,
                  vs_dialog := Some \<lparr> vc_input = \<lparr> ci_request_id = uuid,
                      ci_type = (if parameter then ''vfd.parameter.set'' else ''vfd.source.set''),
                      ci_payload = payload, ci_ttl = 30, ci_target = ov_equipment_target ov, ci_supersedes = None \<rparr>,
                    vc_title = title, vc_description = description \<rparr>\<rparr>)"

text \<open>The dash and the arrow of the texts, in UTF-8.\<close>

definition em_dash :: string where "em_dash = [CHR 0xE2, CHR 0x80, CHR 0x94]"
definition arrow_right :: string where "arrow_right = [CHR 0xE2, CHR 0x86, CHR 0x92]"

datatype control_source = LocalSource | RemoteSource

definition source_word :: "json \<Rightarrow> int \<Rightarrow> bool" where
  "source_word v n = (v = JNum (Fin (of_int n)))"

text \<open>The two buttons of \<open>VfdSourceControl\<close>.\<close>

definition source_enabled :: "control_context \<Rightarrow> change_view \<Rightarrow> settings_change \<Rightarrow> control_source \<Rightarrow> json \<Rightarrow> bool" where
  "source_enabled cx v st source settings =
     (canAct cx v \<and> \<not> change_busy st
      \<and> \<not> (case source of
             RemoteSource \<Rightarrow> source_word (fld settings ''run_source'') 2 \<and> source_word (fld settings ''frequency_source'') 6
           | LocalSource \<Rightarrow> source_word (fld settings ''run_source'') 0 \<and> source_word (fld settings ''frequency_source'') 0))"

definition source_payload :: "control_source \<Rightarrow> json \<Rightarrow> json" where
  "source_payload source settings = JObj
     [(''source'', JStr (case source of LocalSource \<Rightarrow> ''local'' | RemoteSource \<Rightarrow> ''remote'')),
      (''expected_run_source'', fld settings ''run_source''),
      (''expected_frequency_source'', fld settings ''frequency_source'')]"

definition click_source ::
  "control_context \<Rightarrow> change_view \<Rightarrow> string \<Rightarrow> control_source \<Rightarrow> settings_change \<Rightarrow> settings_change" where
  "click_source cx v uuid source st =
     (case cv_overview v of
        None \<Rightarrow> st
      | Some ov \<Rightarrow>
          (case vfd_source ov of
             None \<Rightarrow> st
           | Some settings \<Rightarrow>
               if ''vfd.source.set'' \<in> set (ov_allowed ov) \<and> source_enabled cx v st source settings
               then open_change cx v uuid (source_payload source settings) False
                 (case source of LocalSource \<Rightarrow> (uk ''Uvimknuty misceve keruvann@'') | RemoteSource \<Rightarrow> (uk ''Uvimknuty dystancijne keruvann@''))
                 (case source of
                    LocalSource \<Rightarrow> (uk ''Zapusk i zupynka '') @ em_dash @ (uk '' knopkamy paneli ^astotnyka, ^astota '') @ em_dash @ (uk '' ~~ krutylko$.'')
                  | RemoteSource \<Rightarrow> (uk ''Zapusk ta ^astota zadavatymut=s@ iz sajtu. Zadana dystancijna ^astota spo^atku stane 0 Hc.'')) st
               else st))"

text \<open>The apply button of \<open>VfdServiceParameters\<close>, for a parameter and the text typed for it. The roles are those of the
  platform; the description shows the change in seconds.\<close>

definition actual_parameter :: "json \<Rightarrow> string \<Rightarrow> json" where
  "actual_parameter settings code = fld (fld settings ''parameters'') code"

definition click_parameter ::
  "control_context \<Rightarrow> string \<Rightarrow> change_view \<Rightarrow> string \<Rightarrow> string \<Rightarrow> string \<Rightarrow> string \<Rightarrow> settings_change \<Rightarrow> settings_change" where
  "click_parameter cx role v uuid code label text st =
     (case cv_overview v of
        None \<Rightarrow> st
      | Some ov \<Rightarrow>
          (case (vfd_source ov, parameterWord text) of
             (Some settings, Some word) \<Rightarrow>
               (let actual = actual_parameter settings code in
                if role \<in> set [''superadmin'', ''service_admin''] \<and> code \<in> set vfd_parameters
                  \<and> ''vfd.parameter.set'' \<in> set (ov_allowed ov) \<and> canAct cx v \<and> \<not> change_busy st
                  \<and> is_number actual \<and> actual \<noteq> JNum (Fin (of_int word))
                then open_change cx v uuid
                  (JObj [(''code'', JStr code), (''expected_raw'', actual), (''value_raw'', JNum (Fin (of_int word)))]) True
                  (((uk ''Zminyty '')) @ code)
                  (label @ '': '' @ show_num (Fin (rat_of actual / 10)) @ ((uk '' s '')) @ arrow_right @ ((uk '' '')) @ show_num (Fin (of_int word / 10))
                     @ ((uk '' s. Pisl@ zapysu kontroler pere^yta# parametr.''))) st
                else st)
           | _ \<Rightarrow> st))"

section \<open>Sending\<close>

definition change_finally :: "settings_change \<Rightarrow> settings_change" where
  "change_finally st = st\<lparr>vs_running := False, vs_sending := False, vs_call := None\<rparr>"

definition change_definite :: "exn \<Rightarrow> bool" where
  "change_definite e =
     (case e of JsExn _ \<Rightarrow> False
      | ApiExn err \<Rightarrow> err_kind err \<in> set [Validation, Forbidden, NotFound, Conflict, Unauthorized])"

definition error_message :: "exn \<Rightarrow> string" where
  "error_message e = (case e of ApiExn err \<Rightarrow> err_message err | JsExn m \<Rightarrow> m)"

definition msg_unconfirmed :: string where
  "msg_unconfirmed =
     (uk ''Dostavku ne pidtverd*eno. Avtomaty^no perevir@#mo status komandy. Povtornyj zapys ne nadsyla#t=s@.'')"

text \<open>The \<open>catch\<close> block and \<open>finally\<close>. A new intent is a new key of the query, so its data start anew.\<close>

definition change_failed :: "command_input \<Rightarrow> bool \<Rightarrow> exn \<Rightarrow> settings_change \<Rightarrow> settings_change" where
  "change_failed input attempted e st =
     change_finally
       (if \<not> attempted \<or> change_definite e
        then st\<lparr>vs_intent := None, vs_data := None, vs_notice := Some (error_message e),
                vs_resolved := (if attempted then (input, None) # vs_resolved st else vs_resolved st)\<rparr>
        else st\<lparr>vs_notice := Some msg_unconfirmed\<rparr>)"

text \<open>\<open>onConfirm\<close>: \<open>send\<close> up to its first request; \<open>onClose\<close> after it.\<close>

definition confirm_change :: "control_context \<Rightarrow> change_view \<Rightarrow> settings_change \<Rightarrow> settings_change" where
  "confirm_change cx v st =
     (case vs_dialog st of
        None \<Rightarrow> st
      | Some d \<Rightarrow>
          if \<not> canAct cx v \<or> change_busy st then st
          else if vs_running st then st\<lparr>vs_dialog := None\<rparr>
          else st\<lparr>vs_running := True, vs_sending := True, vs_notice := None, vs_call := Some (vc_input d, False),
                  vs_dialog := None\<rparr>)"

text \<open>The checks of the fresh snapshot; \<open>available\<close> stands for the active section, the network and the visible page.\<close>

definition change_allowed :: "command_input \<Rightarrow> bool \<Rightarrow> overview \<Rightarrow> bool" where
  "change_allowed input available current =
     (available \<and> fr_status (ov_freshness current) = Fresh \<and> av_online (ov_availability current)
      \<and> sameEquipmentTarget (ov_equipment_target current) (ci_target input)
      \<and> (case vfd_source current of
           None \<Rightarrow> False
         | Some settings \<Rightarrow>
             vfd_ready settings
             \<and> (if ci_type input = ''vfd.source.set''
                then fld settings ''run_source'' = fld (ci_payload input) ''expected_run_source''
                  \<and> fld settings ''frequency_source'' = fld (ci_payload input) ''expected_frequency_source''
                else actual_parameter settings (str_of (fld (ci_payload input) ''code''))
                  = fld (ci_payload input) ''expected_raw'')))"

definition snapshot_arrived :: "control_context \<Rightarrow> bool \<Rightarrow> exn + json \<Rightarrow> settings_change \<Rightarrow> settings_change" where
  "snapshot_arrived cx available answer st =
     (case vs_call st of
        Some (input, False) \<Rightarrow>
          (case bindE answer (\<lambda>raw. lift_api (parseOverview raw (cx_device cx) (cx_organization cx))) of
             Inl e \<Rightarrow> change_failed input False e st
           | Inr current \<Rightarrow>
               if \<not> change_allowed input available current
               then change_failed input False
                 (JsExn ((uk ''Stan zminyvs@. Onovit= pokazann@ ta pidtverd=te novu di$.''))) st
               else st\<lparr>vs_intent := Some input, vs_data := None, vs_call := Some (input, True),
                       vs_posts := (input, current) # vs_posts st\<rparr>)
      | _ \<Rightarrow> st)"

definition notify_created :: "json \<Rightarrow> settings_change \<Rightarrow> settings_change" where
  "notify_created command st =
     (let i = str_of (fld command ''id'') in
      if vs_notified st = Some i then st else st\<lparr>vs_notified := Some i, vs_created := vs_created st @ [i]\<rparr>)"

definition receipt_of :: "control_context \<Rightarrow> command_input \<Rightarrow> exn + json \<Rightarrow> exn + json" where
  "receipt_of cx input answer =
     bindE answer (\<lambda>raw. lift_api (parseCommandReceipt raw (dev_id (cx_device cx)) (cx_organization cx) (cx_user cx) input))"

definition post_answered :: "control_context \<Rightarrow> exn + json \<Rightarrow> settings_change \<Rightarrow> settings_change" where
  "post_answered cx answer st =
     (case vs_call st of
        Some (input, True) \<Rightarrow>
          (case receipt_of cx input answer of
             Inl e \<Rightarrow> change_failed input True e st
           | Inr command \<Rightarrow>
               change_finally ((notify_created command st)
                 \<lparr>vs_notice := Some ((uk ''Komandu pryjn@to. O^iku#mo perevirku nalawtuvan= kontrolerom.'')),
                  vs_refreshes := Suc (vs_refreshes st)\<rparr>))
      | _ \<Rightarrow> st)"

section \<open>Watching the command\<close>

text \<open>One run of the query function, for the intent it was keyed by, and the effect on its data. A missing receipt is
  \<open>null\<close>; any other error leaves the data.\<close>

definition is_not_found :: "exn \<Rightarrow> bool" where
  "is_not_found e = (case e of ApiExn err \<Rightarrow> err_kind err = NotFound | JsExn _ \<Rightarrow> False)"

definition watch_enabled :: "control_context \<Rightarrow> settings_change \<Rightarrow> bool" where
  "watch_enabled cx st = (vs_intent st \<noteq> None \<and> ''command.read'' \<in> set (cx_permissions cx))"

definition poll_while :: "json option \<Rightarrow> bool" where
  "poll_while command =
     (case command of None \<Rightarrow> True | Some c \<Rightarrow> commandPending c \<or> fld c ''status'' = JStr ''result_unknown'')"

definition receipt_polled :: "control_context \<Rightarrow> command_input \<Rightarrow> exn + json \<Rightarrow> settings_change \<Rightarrow> settings_change" where
  "receipt_polled cx key answer st =
     (if \<not> watch_enabled cx st \<or> vs_intent st \<noteq> Some key then st
      else (case receipt_of cx key answer of
              Inl e \<Rightarrow> if is_not_found e then st\<lparr>vs_data := Some None\<rparr> else st
            | Inr command \<Rightarrow>
                notify_created command
                  (st\<lparr>vs_data := Some (Some command),
                      vs_resolved := (if commandPending command then vs_resolved st
                                      else (key, Some command) # vs_resolved st)\<rparr>)))"

section \<open>Runs\<close>

text \<open>The request ids are those of \<open>crypto.randomUUID\<close>, which never returns an earlier one.\<close>

inductive change_reachable :: "control_context \<Rightarrow> settings_change \<Rightarrow> bool" for cx where
  change_starts: "change_reachable cx change_start"
| source_clicked: "change_reachable cx st \<Longrightarrow> uuid \<notin> set (vs_opened st) \<Longrightarrow>
    change_reachable cx (click_source cx v uuid source st)"
| parameter_clicked: "change_reachable cx st \<Longrightarrow> uuid \<notin> set (vs_opened st) \<Longrightarrow>
    change_reachable cx (click_parameter cx role v uuid code label text st)"
| change_confirmed: "change_reachable cx st \<Longrightarrow> change_reachable cx (confirm_change cx v st)"
| change_dismissed: "change_reachable cx st \<Longrightarrow> change_reachable cx (st\<lparr>vs_dialog := None\<rparr>)"
| change_snapshot: "change_reachable cx st \<Longrightarrow> change_reachable cx (snapshot_arrived cx available answer st)"
| change_answered: "change_reachable cx st \<Longrightarrow> change_reachable cx (post_answered cx answer st)"
| change_polled: "change_reachable cx st \<Longrightarrow> change_reachable cx (receipt_polled cx key answer st)"

section \<open>Which requests are made\<close>

text \<open>A request as the page makes it.\<close>

definition request_ok :: "command_input \<Rightarrow> bool" where
  "request_ok input \<longleftrightarrow>
     ci_ttl input = 30 \<and> ci_supersedes input = None
     \<and> ((ci_type input = ''vfd.source.set'' \<and> str_of (fld (ci_payload input) ''source'') \<in> {''local'', ''remote''})
        \<or> (ci_type input = ''vfd.parameter.set'' \<and> str_of (fld (ci_payload input) ''code'') \<in> set vfd_parameters
           \<and> (\<exists>word. 1 \<le> word \<and> word \<le> 9999 \<and> fld (ci_payload input) ''value_raw'' = JNum (Fin (of_int word))
                \<and> fld (ci_payload input) ''expected_raw'' \<noteq> JNum (Fin (of_int word)))))"

definition resolved_ids :: "settings_change \<Rightarrow> command_input set" where
  "resolved_ids st = fst ` set (vs_resolved st)"

definition post_id :: "command_input \<times> overview \<Rightarrow> string" where
  "post_id p = ci_request_id (fst p)"

definition change_inv :: "control_context \<Rightarrow> settings_change \<Rightarrow> bool" where
  "change_inv cx st \<longleftrightarrow>
     (\<forall>d. vs_dialog st = Some d \<longrightarrow> request_ok (vc_input d) \<and> ''command.execute'' \<in> set (cx_permissions cx)
        \<and> ci_request_id (vc_input d) \<in> set (vs_opened st) \<and> ci_request_id (vc_input d) \<notin> post_id ` set (vs_posts st)
        \<and> (\<forall>input b. vs_call st = Some (input, b) \<longrightarrow> ci_request_id input \<noteq> ci_request_id (vc_input d)))
     \<and> (\<forall>input. vs_call st = Some (input, False) \<longrightarrow> request_ok input \<and> ''command.execute'' \<in> set (cx_permissions cx)
        \<and> ci_request_id input \<in> set (vs_opened st) \<and> ci_request_id input \<notin> post_id ` set (vs_posts st)
        \<and> (\<forall>p \<in> set (vs_posts st). fst p \<in> resolved_ids st))
     \<and> (\<forall>input. vs_call st = Some (input, True) \<longrightarrow> vs_intent st = Some input)
     \<and> (vs_call st \<noteq> None \<longrightarrow> vs_sending st)
     \<and> (\<forall>p \<in> set (vs_posts st). post_id p \<in> set (vs_opened st) \<and> request_ok (fst p)
          \<and> ''command.execute'' \<in> set (cx_permissions cx)
          \<and> wf_overview (cx_device cx) (snd p) \<and> change_allowed (fst p) True (snd p)
          \<and> (fst p \<in> resolved_ids st \<or> vs_intent st = Some (fst p)))
     \<and> distinct (map post_id (vs_posts st))
     \<and> (\<forall>i. vs_intent st = Some i \<longrightarrow> i \<in> fst ` set (vs_posts st))
     \<and> (\<forall>i c. vs_intent st = Some i \<and> vs_data st = Some (Some c) \<and> \<not> commandPending c \<longrightarrow> i \<in> resolved_ids st)
     \<and> (\<forall>i c. (i, Some c) \<in> set (vs_resolved st) \<longrightarrow>
          receipt_matches (dev_id (cx_device cx)) (cx_organization cx) (cx_user cx) i c)"

lemma settled_data: "change_settled st \<longleftrightarrow> (\<exists>c. vs_data st = Some (Some c) \<and> \<not> commandPending c)"
  by (auto simp: change_settled_def split: option.splits)

lemma lift_ok: "lift_api r = Inr x \<longleftrightarrow> r = Inr x"
  by (cases r) (simp_all add: lift_api_def)

lemma vfd_inv_start: "change_inv cx change_start"
  by (simp add: change_inv_def change_start_def)

lemma inv_resolved:
  assumes "change_inv cx st" "\<not> change_busy st"
  shows "vs_call st = None" "\<forall>p \<in> set (vs_posts st). fst p \<in> resolved_ids st"
proof -
  from assms show "vs_call st = None" by (cases "vs_call st") (auto simp: change_inv_def change_busy_def)
  show "\<forall>p \<in> set (vs_posts st). fst p \<in> resolved_ids st"
  proof
    fix p assume p: "p \<in> set (vs_posts st)"
    with assms(1) consider "fst p \<in> resolved_ids st" | "vs_intent st = Some (fst p)" by (auto simp: change_inv_def)
    then show "fst p \<in> resolved_ids st"
    proof cases
      case 2
      with assms(2) obtain c where "vs_data st = Some (Some c)" "\<not> commandPending c"
        by (auto simp: change_busy_def settled_data)
      with 2 assms(1) show ?thesis by (auto simp: change_inv_def)
    qed
  qed
qed

lemma inv_open:
  assumes "change_inv cx st" "uuid \<notin> set (vs_opened st)"
    and "\<And>ov. cv_overview v = Some ov \<Longrightarrow>
      request_ok \<lparr> ci_request_id = uuid, ci_type = (if parameter then ''vfd.parameter.set'' else ''vfd.source.set''),
        ci_payload = payload, ci_ttl = 30, ci_target = ov_equipment_target ov, ci_supersedes = None \<rparr>"
  shows "change_inv cx (open_change cx v uuid payload parameter title description st)"
proof (cases "cv_overview v = None \<or> \<not> canAct cx v \<or> change_busy st")
  case True
  with assms(1) show ?thesis by (auto simp: open_change_def split: option.splits)
next
  case False
  then obtain ov where ov: "cv_overview v = Some ov" "canAct cx v" "\<not> change_busy st" by auto
  then have e: "''command.execute'' \<in> set (cx_permissions cx)" by (simp add: canAct_def)
  have c: "vs_call st = None" using inv_resolved(1) [OF assms(1) ov(3)] .
  have u: "uuid \<notin> post_id ` set (vs_posts st)" using assms(1,2) by (auto simp: change_inv_def)
  from assms(1) ov e c u assms(3) [OF ov(1)] show ?thesis
    by (auto simp: open_change_def change_inv_def resolved_ids_def)
qed

lemma source_request_ok:
  "request_ok \<lparr> ci_request_id = uuid, ci_type = ''vfd.source.set'', ci_payload = source_payload source settings,
     ci_ttl = 30, ci_target = t, ci_supersedes = None \<rparr>"
  by (cases source) (auto simp: request_ok_def source_payload_def)

lemma inv_source:
  assumes "change_inv cx st" "uuid \<notin> set (vs_opened st)"
  shows "change_inv cx (click_source cx v uuid source st)"
  using assms inv_open [OF assms, of v False] source_request_ok
  by (auto simp: click_source_def split: option.splits)

lemma parameterWord_range: "parameterWord t = Some w \<Longrightarrow> 1 \<le> w \<and> w \<le> 9999"
  by (auto simp: parameterWord_def Let_def split: if_splits)

lemma inv_parameter:
  assumes "change_inv cx st" "uuid \<notin> set (vs_opened st)"
  shows "change_inv cx (click_parameter cx role v uuid code label text st)"
proof (cases "parameterWord text")
  case (Some w)
  have "request_ok \<lparr> ci_request_id = uuid, ci_type = ''vfd.parameter.set'',
      ci_payload = JObj [(''code'', JStr code), (''expected_raw'', actual), (''value_raw'', JNum (Fin (of_int w)))],
      ci_ttl = 30, ci_target = t, ci_supersedes = None \<rparr>"
    if "code \<in> set vfd_parameters" "actual \<noteq> JNum (Fin (of_int w))" for actual t
    using that parameterWord_range [OF Some] by (auto simp: request_ok_def)
  then show ?thesis
    using assms(1) inv_open [OF assms, of v True] Some
    by (auto simp: click_parameter_def Let_def split: option.splits)
qed (use assms in \<open>simp add: click_parameter_def split: option.splits\<close>)

lemma inv_confirm:
  assumes "change_inv cx st"
  shows "change_inv cx (confirm_change cx v st)"
proof (cases "vs_dialog st = None \<or> \<not> canAct cx v \<or> change_busy st")
  case True
  with assms show ?thesis by (auto simp: confirm_change_def split: option.splits)
next
  case False
  then obtain d where d: "vs_dialog st = Some d" "canAct cx v" "\<not> change_busy st" by auto
  from inv_resolved [OF assms d(3)] assms d show ?thesis
    by (auto simp: confirm_change_def change_inv_def resolved_ids_def)
qed

lemma inv_dismiss: "change_inv cx st \<Longrightarrow> change_inv cx (st\<lparr>vs_dialog := None\<rparr>)"
  by (auto simp: change_inv_def resolved_ids_def)

lemma inv_failed:
  assumes "change_inv cx st" "vs_call st = Some (input, attempted)"
  shows "change_inv cx (change_failed input attempted e st)"
proof (cases attempted)
  case True
  with assms show ?thesis
    by (auto simp: change_failed_def change_finally_def change_inv_def resolved_ids_def)
next
  case False
  with assms have "\<forall>p \<in> set (vs_posts st). fst p \<in> resolved_ids st" by (simp add: change_inv_def)
  with False assms show ?thesis
    by (auto simp: change_failed_def change_finally_def change_inv_def resolved_ids_def)
qed

lemma inv_snapshot:
  assumes "change_inv cx st"
  shows "change_inv cx (snapshot_arrived cx available answer st)"
proof (cases "\<exists>input. vs_call st = Some (input, False)")
  case True
  then obtain input where c: "vs_call st = Some (input, False)" by blast
  let ?r = "bindE answer (\<lambda>raw. lift_api (parseOverview raw (cx_device cx) (cx_organization cx)))"
  show ?thesis
  proof (cases "\<exists>current. ?r = Inr current \<and> change_allowed input available current")
    case False
    with c inv_failed [OF assms c] show ?thesis by (auto simp: snapshot_arrived_def split: sum.splits)
  next
    case True
    then obtain current where r: "?r = Inr current" "change_allowed input available current" by blast
    then obtain raw where "parseOverview raw (cx_device cx) (cx_organization cx) = Inr current"
      by (auto simp: bindE_ok lift_ok)
    then have w: "wf_overview (cx_device cx) current" by (rule parseOverview_wf)
    from r(2) have a: "change_allowed input True current" by (simp add: change_allowed_def)
    have "post_id (input, current) = ci_request_id input" by (simp add: post_id_def)
    with assms c r w a show ?thesis
      by (auto simp: snapshot_arrived_def change_inv_def resolved_ids_def)
  qed
next
  case False
  then have "snapshot_arrived cx available answer st = st"
    by (cases "vs_call st") (auto simp: snapshot_arrived_def split: prod.splits bool.splits)
  with assms show ?thesis by simp
qed

lemma notify_fields [simp]:
  "vs_dialog (notify_created c st) = vs_dialog st" "vs_call (notify_created c st) = vs_call st"
  "vs_intent (notify_created c st) = vs_intent st" "vs_sending (notify_created c st) = vs_sending st"
  "vs_data (notify_created c st) = vs_data st" "vs_opened (notify_created c st) = vs_opened st"
  "vs_posts (notify_created c st) = vs_posts st" "vs_resolved (notify_created c st) = vs_resolved st"
  by (simp_all add: notify_created_def Let_def)

lemma vfd_inv_answered:
  assumes "change_inv cx st"
  shows "change_inv cx (post_answered cx answer st)"
proof (cases "\<exists>input. vs_call st = Some (input, True)")
  case True
  then obtain input where c: "vs_call st = Some (input, True)" by blast
  show ?thesis
  proof (cases "receipt_of cx input answer")
    case (Inl e)
    with c inv_failed [OF assms c] show ?thesis by (simp add: post_answered_def)
  next
    case (Inr command)
    with c assms show ?thesis
      by (auto simp: post_answered_def change_finally_def change_inv_def resolved_ids_def)
  qed
next
  case False
  then have "post_answered cx answer st = st"
    by (cases "vs_call st") (auto simp: post_answered_def split: prod.splits bool.splits)
  with assms show ?thesis by simp
qed

lemma inv_polled:
  assumes "change_inv cx st"
  shows "change_inv cx (receipt_polled cx key answer st)"
proof (cases "vs_intent st = Some key \<and> watch_enabled cx st")
  case True
  show ?thesis
  proof (cases "receipt_of cx key answer")
    case (Inl e)
    with True assms show ?thesis by (auto simp: receipt_polled_def change_inv_def resolved_ids_def)
  next
    case (Inr command)
    then have m: "receipt_matches (dev_id (cx_device cx)) (cx_organization cx) (cx_user cx) key command"
      by (auto simp: receipt_of_def bindE_ok lift_ok parseCommandReceipt_matches)
    with Inr True assms show ?thesis
      by (auto simp: receipt_polled_def change_inv_def resolved_ids_def)
  qed
qed (use assms in \<open>auto simp: receipt_polled_def\<close>)

lemma change_inv_holds: "change_reachable cx st \<Longrightarrow> change_inv cx st"
  by (induction rule: change_reachable.induct)
    (auto intro: vfd_inv_start inv_source inv_parameter inv_confirm inv_dismiss inv_snapshot vfd_inv_answered inv_polled)

section \<open>Properties\<close>

text \<open>C17: No converter setting is written blindly: in every run, whatever the clicks, snapshots, receipts and errors,
  each write that is posted was made by the page within its limits (the local or the remote source; one of the two
  service parameters with a value from 1 to 9999 that differs from the one read), by a user who may execute commands,
  and follows a coherent fresh snapshot of the device: online, ready for changes, of the equipment that was
  confirmed, and still showing exactly the values the user saw; and no confirmed change is posted twice.\<close>

theorem vfd_writes_checked:
  assumes "change_reachable cx st"
  shows "(\<forall>(input, current) \<in> set (vs_posts st).
      request_ok input \<and> ''command.execute'' \<in> set (cx_permissions cx) \<and> wf_overview (cx_device cx) current
      \<and> fr_status (ov_freshness current) = Fresh \<and> av_online (ov_availability current)
      \<and> ov_equipment_target current = ci_target input
      \<and> (\<exists>settings. vfd_source current = Some settings \<and> vfd_ready settings
          \<and> (if ci_type input = ''vfd.source.set''
             then fld settings ''run_source'' = fld (ci_payload input) ''expected_run_source''
               \<and> fld settings ''frequency_source'' = fld (ci_payload input) ''expected_frequency_source''
             else actual_parameter settings (str_of (fld (ci_payload input) ''code''))
               = fld (ci_payload input) ''expected_raw'')))
    \<and> distinct (map post_id (vs_posts st))"
proof -
  have i: "change_inv cx st" by (rule change_inv_holds [OF assms])
  then have "\<forall>p \<in> set (vs_posts st). request_ok (fst p) \<and> ''command.execute'' \<in> set (cx_permissions cx)
      \<and> wf_overview (cx_device cx) (snd p) \<and> change_allowed (fst p) True (snd p)"
    by (simp add: change_inv_def)
  moreover have "distinct (map post_id (vs_posts st))" using i by (simp add: change_inv_def)
  ultimately show ?thesis
    by (auto simp: change_allowed_def sameEquipmentTarget_iff split: option.splits dest!: bspec)
qed


definition sample_settings :: json where
  "sample_settings = JObj [(''version'', JNum (Fin 1)), (''driver_id'', JStr ''su600''), (''ready'', JBool True),
     (''command_sequence'', JNum (Fin 0)), (''run_source'', JNum (Fin 0)), (''frequency_source'', JNum (Fin 0)),
     (''parameters'', JObj [(''F0.10'', JNum (Fin 100)), (''F0.11'', JNull)])]"

definition sample_diagnostics :: json where
  "sample_diagnostics = JObj [(''version'', JNum (Fin 1)), (''firmware_version'', JStr ''1.0''), (''uptime_ms'', JNum (Fin 5)),
     (''connection'', JObj [(''transport'', JStr ''wifi'')]), (''reset_reason'', JStr ''power_on''),
     (''vfd_settings'', sample_settings)]"

definition sample_snapshot :: json where
  "sample_snapshot = with_field (sample_overview True [''command.execute'']) ''diagnostics'' sample_diagnostics"

definition sample_source_input :: command_input where
  "sample_source_input = \<lparr> ci_request_id = ''r1'', ci_type = ''vfd.source.set'',
     ci_payload = source_payload RemoteSource sample_settings, ci_ttl = 30, ci_target = None, ci_supersedes = None \<rparr>"

lemma sample_change_allowed:
  "holds (change_allowed sample_source_input True) (parseOverview sample_snapshot sample_device (sample_id (CHR ''3'')))"
  by code_simp

definition sample_change_view :: change_view where
  "sample_change_view = \<lparr> cv_overview = Some (sample_page\<lparr>ov_allowed := [''vfd.source.set''],
       ov_diagnostics := Some \<lparr> dg_firmware = ''1.0'', dg_uptime_ms = 5, dg_reset_reason = ''power_on'', dg_transport = ''wifi'',
         dg_signal = None, dg_last_stop = None, dg_program = None, dg_vfd_settings = Some (Some sample_settings) \<rparr>\<rparr>),
     cv_elapsed = 0, cv_section = True, cv_query_active = True \<rparr>"

definition sample_confirmed_change :: settings_change where
  "sample_confirmed_change = confirm_change sample_context sample_change_view
     (click_source sample_context sample_change_view ''r1'' RemoteSource change_start)"

lemma sample_confirmed_reachable: "change_reachable sample_context sample_confirmed_change"
  unfolding sample_confirmed_change_def
  by (intro change_confirmed source_clicked change_starts) (simp add: change_start_def)

lemma sample_confirmed_fields:
  "vs_call sample_confirmed_change = Some (sample_source_input, False)" "vs_posts sample_confirmed_change = []"
  "vs_resolved sample_confirmed_change = []"
proof -
  have c: "canAct sample_context sample_change_view" by code_simp
  have v: "vfd_source (the (cv_overview sample_change_view)) = Some sample_settings"
    by (simp add: sample_change_view_def vfd_source_def)
  have e: "source_enabled sample_context sample_change_view change_start RemoteSource sample_settings" by code_simp
  have b: "\<not> change_busy change_start" by (simp add: change_busy_def change_start_def)
  have k: "click_source sample_context sample_change_view ''r1'' RemoteSource change_start
      = open_change sample_context sample_change_view ''r1'' (source_payload RemoteSource sample_settings) False
          ((uk ''Uvimknuty dystancijne keruvann@''))
          ((uk ''Zapusk ta ^astota zadavatymut=s@ iz sajtu. Zadana dystancijna ^astota spo^atku stane 0 Hc.'')) change_start"
    using v e by (simp add: click_source_def sample_change_view_def)
  have t: "ov_equipment_target sample_page = None" by (simp add: sample_page_def)
  let ?st = "click_source sample_context sample_change_view ''r1'' RemoteSource change_start"
  have f: "\<exists>d. vs_dialog ?st = Some d \<and> vc_input d = sample_source_input" "\<not> change_busy ?st" "\<not> vs_running ?st"
    "vs_posts ?st = []" "vs_resolved ?st = []"
    using c b t unfolding k
    by (simp_all add: open_change_def sample_change_view_def sample_source_input_def change_busy_def change_start_def)
  then obtain d where d: "vs_dialog ?st = Some d" "vc_input d = sample_source_input" by blast
  then show "vs_call sample_confirmed_change = Some (sample_source_input, False)" "vs_posts sample_confirmed_change = []"
    "vs_resolved sample_confirmed_change = []"
    using c f by (simp_all add: sample_confirmed_change_def confirm_change_def)
qed

definition sample_written :: settings_change where
  "sample_written = snapshot_arrived sample_context True (Inr sample_snapshot) sample_confirmed_change"

lemma sample_written_reachable: "change_reachable sample_context sample_written"
  unfolding sample_written_def by (intro change_snapshot sample_confirmed_reachable)

lemma sample_written_post:
  "\<exists>current. vs_posts sample_written = [(sample_source_input, current)] \<and> vs_resolved sample_written = []"
proof -
  obtain current where c: "parseOverview sample_snapshot sample_device (sample_id (CHR ''3'')) = Inr current"
    "change_allowed sample_source_input True current"
    using sample_change_allowed by (auto simp: holds_iff)
  then have "bindE (Inr sample_snapshot) (\<lambda>raw. lift_api (parseOverview raw (cx_device sample_context)
      (cx_organization sample_context))) = Inr current"
    by (simp add: sample_context_def lift_ok)
  with c(2) show ?thesis
    by (simp add: sample_written_def snapshot_arrived_def sample_confirmed_fields lift_api_def)
qed

lemma vfd_writes_checked_witness:
  "\<exists>current. (sample_source_input, current) \<in> set (vs_posts sample_written) \<and> fr_status (ov_freshness current) = Fresh"
  using vfd_writes_checked [OF sample_written_reachable] sample_written_post by auto


end
