(* ===== verification/QueryCache.thy ===== *)
theory QueryCache
  imports ApiErrors
begin

text \<open>
  \<open>lib/api/query-keys.ts\<close>, \<open>lib/api/query-client.ts\<close> and \<open>lib/api/polling-policy.ts\<close>: the keys under which
  answers are cached, the retry policy, the removal of a session's answers, and the budget that paces polling.

  The cache itself is the query library's: a cache is the list of the keys it holds, and its \<open>removeQueries\<close> is
  the parameter \<open>remove\<close>. What the code relies on is a hypothesis: a query is removed by a key exactly when its
  own key starts with it.
\<close>

section \<open>Keys\<close>

record session_scope =
  sc_user :: string
  sc_session :: string

definition sessionRoot :: "session_scope \<Rightarrow> json list" where
  "sessionRoot scope = [JStr ''kerumo'', JStr ''session'', JStr (sc_user scope), JStr (sc_session scope)]"

definition publicRoot :: "json list" where
  "publicRoot = [JStr ''kerumo'', JStr ''public'']"

definition allSessionsRoot :: "json list" where
  "allSessionsRoot = [JStr ''kerumo'', JStr ''session'']"

definition page_part :: "int \<Rightarrow> json" where
  "page_part n = JObj [(''page'', JNum (Fin (of_int n)))]"

definition id_or_null :: "string option \<Rightarrow> json" where
  "id_or_null x = (case x of None \<Rightarrow> JNull | Some s \<Rightarrow> JStr s)"

text \<open>The queries of the application, one constructor per function of \<open>apiQueryKeys\<close>, with its arguments.\<close>

datatype api_query =
    Health
  | InventoryQuery session_scope "string option" "string option" string int
  | CurrentUser session_scope
  | Organizations session_scope
  | OrganizationAccess session_scope string
  | Sites session_scope string int
  | Devices session_scope string int
  | DeviceOverview session_scope string
  | TelemetrySeriesQuery session_scope string string string string int
  | CommandQuery session_scope string
  | DeviceCommands session_scope string int
  | DeviceAlarms session_scope string int
  | AlarmQuery session_scope string string string
  | Notifications session_scope string int
  | NotificationQuery session_scope string string

fun apiQueryKeys :: "api_query \<Rightarrow> json list" where
  "apiQueryKeys Health = [JStr ''kerumo'', JStr ''public'', JStr ''health'']"
| "apiQueryKeys (InventoryQuery s oid sid resource n) = sessionRoot s @
     [JStr ''inventory'', id_or_null oid, id_or_null sid, JStr resource,
      JObj [(''page'', JNum (Fin (of_int n))), (''limit'', JNum (Fin 20))]]"
| "apiQueryKeys (CurrentUser s) = sessionRoot s @ [JStr ''auth'', JStr ''me'']"
| "apiQueryKeys (Organizations s) = sessionRoot s @ [JStr ''organizations'']"
| "apiQueryKeys (OrganizationAccess s oid) = sessionRoot s @ [JStr ''organizations'', JStr oid, JStr ''access'']"
| "apiQueryKeys (Sites s oid n) = sessionRoot s @ [JStr ''organizations'', JStr oid, JStr ''sites'', page_part n]"
| "apiQueryKeys (Devices s sid n) = sessionRoot s @ [JStr ''sites'', JStr sid, JStr ''devices'', page_part n]"
| "apiQueryKeys (DeviceOverview s did) = sessionRoot s @ [JStr ''devices'', JStr did, JStr ''overview'']"
| "apiQueryKeys (TelemetrySeriesQuery s did metric start stop bucket) = sessionRoot s @
     [JStr ''devices'', JStr did, JStr ''telemetry'', JStr ''series'',
      JObj [(''metric'', JStr metric), (''start'', JStr start), (''end'', JStr stop),
            (''bucketSeconds'', JNum (Fin (of_int bucket)))]]"
| "apiQueryKeys (CommandQuery s cid) = sessionRoot s @ [JStr ''commands'', JStr cid]"
| "apiQueryKeys (DeviceCommands s did n) = sessionRoot s @ [JStr ''devices'', JStr did, JStr ''commands'', page_part n]"
| "apiQueryKeys (DeviceAlarms s did n) = sessionRoot s @ [JStr ''devices'', JStr did, JStr ''alarms'', page_part n]"
| "apiQueryKeys (AlarmQuery s oid did aid) = sessionRoot s @
     [JStr ''organizations'', JStr oid, JStr ''devices'', JStr did, JStr ''alarms'', JStr aid]"
| "apiQueryKeys (Notifications s oid n) = sessionRoot s @
     [JStr ''organizations'', JStr oid, JStr ''notifications'', page_part n]"
| "apiQueryKeys (NotificationQuery s oid nid) = sessionRoot s @
     [JStr ''organizations'', JStr oid, JStr ''notifications'', JStr nid]"

fun query_scope :: "api_query \<Rightarrow> session_scope option" where
  "query_scope Health = None"
| "query_scope (InventoryQuery s _ _ _ _) = Some s"
| "query_scope (CurrentUser s) = Some s"
| "query_scope (Organizations s) = Some s"
| "query_scope (OrganizationAccess s _) = Some s"
| "query_scope (Sites s _ _) = Some s"
| "query_scope (Devices s _ _) = Some s"
| "query_scope (DeviceOverview s _) = Some s"
| "query_scope (TelemetrySeriesQuery s _ _ _ _ _) = Some s"
| "query_scope (CommandQuery s _) = Some s"
| "query_scope (DeviceCommands s _ _) = Some s"
| "query_scope (DeviceAlarms s _ _) = Some s"
| "query_scope (AlarmQuery s _ _ _) = Some s"
| "query_scope (Notifications s _ _) = Some s"
| "query_scope (NotificationQuery s _ _) = Some s"

lemma page_part_eq [simp]: "page_part n = page_part m \<longleftrightarrow> n = m"
  by (simp add: page_part_def)

lemma page_part_not_text [simp]: "page_part n \<noteq> JStr s" "JStr s \<noteq> page_part n"
  by (simp_all add: page_part_def)

lemma id_or_null_eq [simp]: "id_or_null x = id_or_null y \<longleftrightarrow> x = y"
  by (simp add: id_or_null_def split: option.split)

lemma sessionRoot_eq [simp]: "sessionRoot s @ xs = sessionRoot t @ ys \<longleftrightarrow> s = t \<and> xs = ys"
  by (auto simp: sessionRoot_def)

lemma sessionRoot_inj [simp]: "sessionRoot s = sessionRoot t \<longleftrightarrow> s = t"
  by (auto simp: sessionRoot_def)

lemma sessionRoot_public [simp]: "sessionRoot s @ xs \<noteq> JStr ''kerumo'' # JStr ''public'' # ys"
  "JStr ''kerumo'' # JStr ''public'' # ys \<noteq> sessionRoot s @ xs"
  by (auto simp: sessionRoot_def)

lemma key_inj: "apiQueryKeys p = apiQueryKeys q \<Longrightarrow> p = q"
  by (cases p; cases q) simp_all

lemma key_under_root: "query_scope q = Some s \<Longrightarrow> \<exists>r. apiQueryKeys q = sessionRoot s @ r"
  by (cases q) auto

section \<open>The cache\<close>

definition clearSessionCache :: "(json list \<Rightarrow> json list list \<Rightarrow> json list list) \<Rightarrow> session_scope \<Rightarrow> json list list \<Rightarrow> json list list" where
  "clearSessionCache remove scope cache = remove (sessionRoot scope) cache"

definition clearAllSessionCaches :: "(json list \<Rightarrow> json list list \<Rightarrow> json list list) \<Rightarrow> json list list \<Rightarrow> json list list" where
  "clearAllSessionCaches remove cache = remove allSessionsRoot cache"

lemma root_prefix: "take (length (sessionRoot s)) (apiQueryKeys q) = sessionRoot s \<longleftrightarrow> query_scope q = Some s"
proof (cases "query_scope q")
  case None
  then have "q = Health" by (cases q) auto
  then show ?thesis by (simp add: sessionRoot_def)
next
  case (Some t)
  then obtain r where r: "apiQueryKeys q = sessionRoot t @ r" using key_under_root by blast
  then show ?thesis using Some r by (auto simp: sessionRoot_def)
qed

lemma all_roots_prefix: "take (length allSessionsRoot) (apiQueryKeys q) = allSessionsRoot \<longleftrightarrow> query_scope q \<noteq> None"
  by (cases q) (simp_all add: allSessionsRoot_def sessionRoot_def)

section \<open>Retries\<close>

definition NO_AUTOMATIC_RETRY :: "api_error_kind list" where
  "NO_AUTOMATIC_RETRY = [Unauthorized, Forbidden, NotFound, Conflict, Validation, RateLimited, Aborted, InvalidResponse]"

definition shouldRetryApiQuery :: "int \<Rightarrow> exn \<Rightarrow> bool" where
  "shouldRetryApiQuery failureCount error =
     (if 2 \<le> failureCount then False
      else (case error of ApiExn e \<Rightarrow> err_kind e \<notin> set NO_AUTOMATIC_RETRY | JsExn _ \<Rightarrow> True))"

definition query_retry_delay :: "nat \<Rightarrow> int" where
  "query_retry_delay attemptIndex = min (1000 * 2 ^ attemptIndex) 5000"

text \<open>The attempts of one query whose errors are \<open>errs\<close>, in order: the number of requests made.\<close>

fun query_attempts :: "int \<Rightarrow> exn list \<Rightarrow> nat" where
  "query_attempts failures [] = 1"
| "query_attempts failures (e # errs) = (if shouldRetryApiQuery failures e then Suc (query_attempts (failures + 1) errs) else 1)"

lemma query_attempts_bound: "query_attempts n errs \<le> nat (max 0 (2 - n)) + 1"
proof (induction n errs rule: query_attempts.induct)
  case (2 n e errs)
  show ?case
  proof (cases "shouldRetryApiQuery n e")
    case True
    then have "n < 2" by (simp add: shouldRetryApiQuery_def split: if_splits)
    with 2 True show ?thesis by simp
  qed simp
qed simp

section \<open>Polling\<close>

definition transient_kinds :: "api_error_kind list" where
  "transient_kinds = [Network, Timeout, Server, RateLimited]"

text \<open>Times are rational: the backoff carries a jitter.\<close>

record polling_budget =
  pb_failures :: nat
  pb_error :: "exn option"
  pb_next_attempt_at :: rat
  pb_retry_after_at :: rat

definition polling_start :: polling_budget where
  "polling_start = \<lparr> pb_failures = 0, pb_error = None, pb_next_attempt_at = 0, pb_retry_after_at = 0 \<rparr>"

definition polling_success :: "polling_budget \<Rightarrow> polling_budget" where
  "polling_success b = b\<lparr>pb_failures := 0, pb_error := None, pb_next_attempt_at := 0, pb_retry_after_at := 0\<rparr>"

definition polling_failure :: "exn \<Rightarrow> rat \<Rightarrow> rat \<Rightarrow> rat \<Rightarrow> polling_budget \<Rightarrow> polling_budget" where
  "polling_failure error baseMs now jitter b =
     (let failures = Suc (pb_failures b);
          backoff = min 300000 (baseMs * 2 ^ min (failures - 1) 5);
          retryAfterAt = (case error of
              ApiExn e \<Rightarrow> (case err_retry_after e of Some s \<Rightarrow> now + of_int s * 1000 | None \<Rightarrow> 0)
            | JsExn _ \<Rightarrow> 0)
      in b\<lparr>pb_error := Some error, pb_failures := failures, pb_retry_after_at := retryAfterAt,
           pb_next_attempt_at := max (now + backoff * (1 + max 0 (min 1 jitter) * (1 / 10))) retryAfterAt\<rparr>)"

definition polling_interval :: "rat \<Rightarrow> rat \<Rightarrow> polling_budget \<Rightarrow> rat option" where
  "polling_interval baseMs now b =
     (if baseMs = 0 then None else
      (case pb_error b of
         None \<Rightarrow> Some baseMs
       | Some error \<Rightarrow>
           if (case error of ApiExn e \<Rightarrow> err_kind e \<in> set transient_kinds | JsExn _ \<Rightarrow> False)
           then Some (max 1000 (pb_next_attempt_at b - now)) else None))"

definition polling_blocked :: "bool \<Rightarrow> rat \<Rightarrow> polling_budget \<Rightarrow> bool" where
  "polling_blocked manual now b = (now < (if manual then pb_retry_after_at b else pb_next_attempt_at b))"

section \<open>Properties\<close>

text \<open>Cached answers never mix: two different queries (of any two sessions) have different keys, and
  clearing a session's cache removes exactly the answers of that session, clearing all of them leaves exactly
  the public ones, whatever the query library's store, as long as it removes by prefix.\<close>

theorem session_caches_separate:
  assumes "\<And>k p c. k \<in> set (remove p c) \<longleftrightarrow> k \<in> set c \<and> take (length p) k \<noteq> p"
  shows "(apiQueryKeys q = apiQueryKeys q' \<longleftrightarrow> q = q')
    \<and> (apiQueryKeys q \<in> set (clearSessionCache remove scope cache)
        \<longleftrightarrow> apiQueryKeys q \<in> set cache \<and> query_scope q \<noteq> Some scope)
    \<and> (apiQueryKeys q \<in> set (clearAllSessionCaches remove cache)
        \<longleftrightarrow> apiQueryKeys q \<in> set cache \<and> query_scope q = None)"
  using key_inj [of q q'] assms by (auto simp: clearSessionCache_def clearAllSessionCaches_def root_prefix all_roots_prefix)

definition sample_remove :: "json list \<Rightarrow> json list list \<Rightarrow> json list list" where
  "sample_remove prefix cache = filter (\<lambda>k. take (length prefix) k \<noteq> prefix) cache"

lemma session_caches_separate_witness:
  "apiQueryKeys Health \<in> set (clearAllSessionCaches sample_remove [apiQueryKeys Health,
      apiQueryKeys (CurrentUser \<lparr> sc_user = ''u'', sc_session = ''s'' \<rparr>)])"
  using session_caches_separate [of sample_remove Health Health undefined
      "[apiQueryKeys Health, apiQueryKeys (CurrentUser \<lparr> sc_user = ''u'', sc_session = ''s'' \<rparr>)]"]
  by (simp add: sample_remove_def)

text \<open>Polling backs off and obeys the server: a failed poll is not repeated automatically before the
  backoff (doubling up to five times, at most five minutes) nor before the moment of \<open>Retry-After\<close>, which also
  holds back a manual refresh; an error that cannot pass by itself stops polling, and a success starts afresh.\<close>

theorem polling_backs_off:
  assumes "0 < baseMs" and "0 \<le> now" and b'_def: "b' = polling_failure error baseMs now jitter b"
  shows "(t < now + min 300000 (baseMs * 2 ^ min (pb_failures b) 5) \<longrightarrow> polling_blocked False t b')
    \<and> (\<forall>e s. error = ApiExn e \<and> err_retry_after e = Some s \<and> t < now + of_int s * 1000 \<longrightarrow>
         polling_blocked True t b' \<and> polling_blocked False t b')
    \<and> (polling_interval baseMs now b' = None \<longleftrightarrow> (\<forall>e. error = ApiExn e \<longrightarrow> err_kind e \<notin> set transient_kinds))
    \<and> (\<forall>i. polling_interval baseMs now b' = Some i \<longrightarrow>
         now + i \<ge> now + min 300000 (baseMs * 2 ^ min (pb_failures b) 5) \<and> 1000 \<le> i)
    \<and> polling_success b' = polling_start"
proof -
  let ?wait = "min 300000 (baseMs * 2 ^ min (pb_failures b) 5)"
  let ?j = "max 0 (min 1 jitter) * (1 / 10 :: rat)"
  have "0 \<le> ?wait" using assms(1) by simp
  then have "?wait * 1 \<le> ?wait * (1 + ?j)" by (intro mult_left_mono) simp_all
  then have g: "now + ?wait \<le> pb_next_attempt_at b'" by (simp add: b'_def polling_failure_def Let_def le_max_iff_disj)
  have r: "error = ApiExn e \<Longrightarrow> err_retry_after e = Some s \<Longrightarrow>
      pb_retry_after_at b' = now + of_int s * 1000 \<and> now + of_int s * 1000 \<le> pb_next_attempt_at b'" for e s
    by (simp add: b'_def polling_failure_def Let_def)
  have e: "pb_error b' = Some error" by (simp add: b'_def polling_failure_def Let_def)
  have "t < now + ?wait \<Longrightarrow> polling_blocked False t b'" using g by (simp add: polling_blocked_def)
  moreover have "error = ApiExn x \<Longrightarrow> err_retry_after x = Some s \<Longrightarrow> t < now + of_int s * 1000 \<Longrightarrow>
      polling_blocked True t b' \<and> polling_blocked False t b'" for x s
    using r [of x s] by (simp add: polling_blocked_def)
  moreover have "polling_interval baseMs now b' = None \<longleftrightarrow> (\<forall>e. error = ApiExn e \<longrightarrow> err_kind e \<notin> set transient_kinds)"
    using assms(1) e by (cases error) (auto simp: polling_interval_def)
  moreover have "now + i \<ge> now + ?wait \<and> 1000 \<le> i" if "polling_interval baseMs now b' = Some i" for i
    using that g e by (auto simp: polling_interval_def le_max_iff_disj split: if_splits)
  moreover have "polling_success b' = polling_start" by (simp add: polling_success_def polling_start_def)
  ultimately show ?thesis by blast
qed

lemma polling_backs_off_witness:
  "polling_blocked False 1000 (polling_failure (JsExn ''x'') 5000 0 0 polling_start)"
  using polling_backs_off [of 5000 0 _ "JsExn ''x''" 0 polling_start 1000, OF _ _ refl]
  by (simp add: polling_start_def)

text \<open>A failing query is sent at most three times, once when its error says that repeating it cannot help,
  and the pauses between grow from one to at most five seconds.\<close>

theorem query_retries_bounded:
  "1 \<le> query_attempts 0 errs \<and> query_attempts 0 errs \<le> 3
   \<and> (err_kind e \<in> set NO_AUTOMATIC_RETRY \<longrightarrow> query_attempts 0 (ApiExn e # errs) = 1)
   \<and> 1000 \<le> query_retry_delay k \<and> query_retry_delay k \<le> query_retry_delay (Suc k) \<and> query_retry_delay k \<le> 5000"
proof -
  have "1 \<le> query_attempts 0 errs" by (cases errs) simp_all
  moreover have "(1::int) \<le> 2 ^ k" by simp
  then have "(1000::int) \<le> 1000 * 2 ^ k" "(1000::int) * 2 ^ k \<le> 1000 * 2 ^ Suc k" by simp_all
  then have "1000 \<le> query_retry_delay k \<and> query_retry_delay k \<le> query_retry_delay (Suc k) \<and> query_retry_delay k \<le> 5000"
    unfolding query_retry_delay_def by linarith
  ultimately show ?thesis
    using query_attempts_bound [of 0 errs] by (auto simp: shouldRetryApiQuery_def)
qed

lemma query_retries_bounded_witness: "query_attempts 0 [JsExn ''a'', JsExn ''b'', JsExn ''c'', JsExn ''d''] = 3"
proof -
  have "3 \<le> query_attempts 0 [JsExn ''a'', JsExn ''b'', JsExn ''c'', JsExn ''d'']"
    by (simp add: shouldRetryApiQuery_def)
  with query_retries_bounded [of "[JsExn ''a'', JsExn ''b'', JsExn ''c'', JsExn ''d'']"] show ?thesis by simp
qed

end
