(* ===== verification/AuthCoordination.thy ===== *)
theory AuthCoordination
  imports ApiClient Numerals
begin

text \<open>
  \<open>features/auth-coordination.ts\<close>: what the tabs of one browser tell each other about the session (the
  channel's messages), the delays before a refresh, the marker of a recent logout, and the lease in
  \<open>localStorage\<close> that serialises the authentication operations of the tabs where Web Locks are missing.

  A cell of \<open>localStorage\<close> is \<open>stored\<close>: no (or empty) text, text that is not JSON, or the value of its
  JSON text. The lease protocol is a step relation over the calls of \<open>withStorageLease\<close> in all tabs; a
  step is the code of one call between two \<open>await\<close>s, and time passes between steps.
\<close>

section \<open>Messages\<close>

definition MAX_FUTURE_CLOCK_SKEW_MS :: int where
  "MAX_FUTURE_CLOCK_SKEW_MS = 60000"

definition MIN_SNAPSHOT_TOKEN_LENGTH :: nat where
  "MIN_SNAPSHOT_TOKEN_LENGTH = 20"

definition MAX_SNAPSHOT_TOKEN_LENGTH :: nat where
  "MAX_SNAPSHOT_TOKEN_LENGTH = 8192"

record auth_snapshot =
  sn_source_tab :: string
  sn_target_tab :: "string option"
  sn_issued_at :: int
  sn_origin :: string
  sn_email :: "string option"
  sn_access_token :: string
  sn_access_expires_at :: int
  sn_session_expires_at :: int

datatype auth_message =
    SessionRequest string int
  | SessionSnapshot auth_snapshot
  | SessionCleared string int string

definition auth_readString :: "json \<Rightarrow> nat \<Rightarrow> string option" where
  "auth_readString value maxLength =
     (if \<not> is_string value then None
      else (let n = js_trim (str_of value) in if n \<noteq> [] \<and> js_length n \<le> maxLength then Some n else None))"

definition auth_readInteger :: "json \<Rightarrow> int option" where
  "auth_readInteger value = (if is_safe_integer value then Some (int_of value) else None)"

text \<open>\<open>None\<close> is \<open>undefined\<close> (refused), \<open>Some None\<close> is \<open>null\<close>.\<close>

definition readNullableEmail :: "json \<Rightarrow> string option option" where
  "readNullableEmail value =
     (if value = JNull then Some None
      else if \<not> is_string value then None
      else (let n = js_lower (js_trim (str_of value))
            in if n \<noteq> [] \<and> js_length n \<le> 254 then Some (Some n) else None))"

definition parse_snapshot :: "json \<Rightarrow> string \<Rightarrow> int \<Rightarrow> auth_message option" where
  "parse_snapshot value sourceTab issuedAt =
     (let targetRaw = fld value ''targetTab'';
          target = (if targetRaw = JNull then None else auth_readString targetRaw 128);
          origin = fld value ''sessionOrigin'' in
      case (readNullableEmail (fld value ''email''),
            auth_readString (fld value ''accessToken'') MAX_SNAPSHOT_TOKEN_LENGTH,
            auth_readInteger (fld value ''accessExpiresAt''), auth_readInteger (fld value ''sessionExpiresAt'')) of
        (Some email, Some token, Some access, Some session) \<Rightarrow>
          if (target = None \<and> targetRaw \<noteq> JNull)
            \<or> (origin \<noteq> JStr ''login'' \<and> origin \<noteq> JStr ''refresh'')
            \<or> js_length token < MIN_SNAPSHOT_TOKEN_LENGTH
            \<or> access \<le> issuedAt \<or> session \<le> issuedAt
          then None
          else Some (SessionSnapshot
            \<lparr> sn_source_tab = sourceTab, sn_target_tab = target, sn_issued_at = issuedAt,
              sn_origin = str_of origin, sn_email = email, sn_access_token = token,
              sn_access_expires_at = access, sn_session_expires_at = session \<rparr>)
      | _ \<Rightarrow> None)"

definition cleared_reasons :: "string list" where
  "cleared_reasons = [''expired'', ''revoked'', ''logout'']"

definition parseAuthChannelMessage :: "json \<Rightarrow> int \<Rightarrow> auth_message option" where
  "parseAuthChannelMessage value nowMs =
     (if \<not> isRecord value \<or> fld value ''version'' \<noteq> JNum (Fin 1) then None else
      (case (auth_readString (fld value ''sourceTab'') 128, auth_readInteger (fld value ''issuedAt'')) of
         (Some sourceTab, Some issuedAt) \<Rightarrow>
           if nowMs + MAX_FUTURE_CLOCK_SKEW_MS < issuedAt then None
           else if fld value ''type'' = JStr ''session-request'' then Some (SessionRequest sourceTab issuedAt)
           else if fld value ''type'' = JStr ''session-cleared'' then
             (let reason = fld value ''reason'' in
              if reason \<notin> set (map JStr cleared_reasons) then None
              else Some (SessionCleared sourceTab issuedAt (str_of reason)))
           else if fld value ''type'' = JStr ''session-snapshot'' then parse_snapshot value sourceTab issuedAt
           else None
       | _ \<Rightarrow> None))"

text \<open>The object literals that are posted.\<close>

definition json_of_int :: "int \<Rightarrow> json" where
  "json_of_int n = JNum (Fin (of_int n))"

definition json_of_option :: "string option \<Rightarrow> json" where
  "json_of_option x = (case x of None \<Rightarrow> JNull | Some s \<Rightarrow> JStr s)"

fun encode_message :: "auth_message \<Rightarrow> json" where
  "encode_message (SessionRequest tab issued) =
     JObj [(''version'', JNum (Fin 1)), (''type'', JStr ''session-request''), (''sourceTab'', JStr tab),
           (''issuedAt'', json_of_int issued)]"
| "encode_message (SessionSnapshot s) =
     JObj [(''version'', JNum (Fin 1)), (''type'', JStr ''session-snapshot''), (''sourceTab'', JStr (sn_source_tab s)),
           (''targetTab'', json_of_option (sn_target_tab s)), (''issuedAt'', json_of_int (sn_issued_at s)),
           (''sessionOrigin'', JStr (sn_origin s)), (''email'', json_of_option (sn_email s)),
           (''accessToken'', JStr (sn_access_token s)), (''accessExpiresAt'', json_of_int (sn_access_expires_at s)),
           (''sessionExpiresAt'', json_of_int (sn_session_expires_at s))]"
| "encode_message (SessionCleared tab issued reason) =
     JObj [(''version'', JNum (Fin 1)), (''type'', JStr ''session-cleared''), (''sourceTab'', JStr tab),
           (''issuedAt'', json_of_int issued), (''reason'', JStr reason)]"

section \<open>Delays\<close>

definition isSnapshotUsable :: "auth_snapshot \<Rightarrow> int \<Rightarrow> int \<Rightarrow> bool" where
  "isSnapshotUsable snapshot nowMs minimumValidityMs =
     (minimumValidityMs < sn_access_expires_at snapshot - nowMs
      \<and> minimumValidityMs < sn_session_expires_at snapshot - nowMs)"

definition refreshDelayMs :: "int \<Rightarrow> int \<Rightarrow> int" where
  "refreshDelayMs accessExpiresAt nowMs =
     (let remaining = accessExpiresAt - nowMs;
          early = min 60000 (max 5000 (remaining div 5))
      in max 1000 (remaining - early))"

definition retry_schedule :: "int list" where
  "retry_schedule = [1000, 5000, 15000, 30000, 60000]"

definition refreshRetryDelayMs :: "int \<Rightarrow> int option \<Rightarrow> int" where
  "refreshRetryDelayMs attempt retryAfterSeconds =
     (case retryAfterSeconds of
        Some s \<Rightarrow> max 1000 (s * 1000)
      | None \<Rightarrow> retry_schedule ! nat (min (max 0 attempt) (int (length retry_schedule) - 1)))"

section \<open>Cells of the storage\<close>

datatype stored = NoText | BadText | JsonText json

record lease =
  ls_owner :: string
  ls_nonce :: string
  ls_expires_at :: int

record logout_marker =
  lm_issued_at :: int
  lm_expires_at :: int
  lm_nonce :: string

definition LOCK_LEASE_MS :: int where
  "LOCK_LEASE_MS = 15000"

definition LOCK_TIMEOUT_MS :: int where
  "LOCK_TIMEOUT_MS = 25000"

definition LOGOUT_MARKER_TTL_MS :: int where
  "LOGOUT_MARKER_TTL_MS = 300000"

definition parseLease :: "stored \<Rightarrow> lease option" where
  "parseLease value =
     (case value of
        JsonText parsed \<Rightarrow>
          if \<not> isRecord parsed then None
          else (case (auth_readString (fld parsed ''owner'') 128, auth_readString (fld parsed ''nonce'') 128,
                      auth_readInteger (fld parsed ''expiresAt'')) of
                  (Some owner, Some nonce, Some expires) \<Rightarrow>
                    Some \<lparr> ls_owner = owner, ls_nonce = nonce, ls_expires_at = expires \<rparr>
                | _ \<Rightarrow> None)
      | _ \<Rightarrow> None)"

definition parseLogoutMarker :: "stored \<Rightarrow> logout_marker option" where
  "parseLogoutMarker value =
     (case value of
        JsonText parsed \<Rightarrow>
          if \<not> isRecord parsed then None
          else (case (auth_readInteger (fld parsed ''issuedAt''), auth_readInteger (fld parsed ''expiresAt''),
                      auth_readString (fld parsed ''nonce'') 128) of
                  (Some issued, Some expires, Some nonce) \<Rightarrow>
                    Some \<lparr> lm_issued_at = issued, lm_expires_at = expires, lm_nonce = nonce \<rparr>
                | _ \<Rightarrow> None)
      | _ \<Rightarrow> None)"

definition encode_lease :: "lease \<Rightarrow> stored" where
  "encode_lease l = JsonText (JObj [(''owner'', JStr (ls_owner l)), (''nonce'', JStr (ls_nonce l)),
     (''expiresAt'', json_of_int (ls_expires_at l))])"

definition encode_marker :: "logout_marker \<Rightarrow> stored" where
  "encode_marker m = JsonText (JObj [(''issuedAt'', json_of_int (lm_issued_at m)),
     (''expiresAt'', json_of_int (lm_expires_at m)), (''nonce'', JStr (lm_nonce m))])"

text \<open>The operations on the marker: \<open>available\<close> is \<open>storageAvailable()\<close>, and the cell is passed through.\<close>

definition recordLogoutMarker :: "bool \<Rightarrow> string \<Rightarrow> int \<Rightarrow> stored \<Rightarrow> stored" where
  "recordLogoutMarker available nonce issuedAt cell =
     (if \<not> available then cell
      else encode_marker \<lparr> lm_issued_at = issuedAt, lm_expires_at = issuedAt + LOGOUT_MARKER_TTL_MS, lm_nonce = nonce \<rparr>)"

definition clearLogoutMarker :: "bool \<Rightarrow> stored \<Rightarrow> stored" where
  "clearLogoutMarker available cell = (if available then NoText else cell)"

definition readRecentLogoutMarker :: "bool \<Rightarrow> int \<Rightarrow> stored \<Rightarrow> int option \<times> stored" where
  "readRecentLogoutMarker available nowMs cell =
     (if \<not> available then (None, cell) else
      (case parseLogoutMarker cell of
         None \<Rightarrow> (None, clearLogoutMarker available cell)
       | Some m \<Rightarrow>
           if nowMs + MAX_FUTURE_CLOCK_SKEW_MS < lm_issued_at m \<or> lm_expires_at m \<le> nowMs
           then (None, clearLogoutMarker available cell)
           else (Some (lm_issued_at m), cell)))"

section \<open>The lease\<close>

datatype lease_phase = Waiting int | Confirming int | Holding | Finished | TimedOut

record lease_call =
  lc_owner :: string
  lc_nonce :: string
  lc_deadline :: int
  lc_phase :: lease_phase

record lease_world =
  lw_now :: int
  lw_cell :: stored
  lw_calls :: "lease_call list"

definition lease_mine :: "lease_call \<Rightarrow> stored \<Rightarrow> bool" where
  "lease_mine c cell =
     (case parseLease cell of None \<Rightarrow> False | Some l \<Rightarrow> ls_owner l = lc_owner c \<and> ls_nonce l = lc_nonce c)"

definition lease_free :: "int \<Rightarrow> stored \<Rightarrow> bool" where
  "lease_free now cell = (case parseLease cell of None \<Rightarrow> True | Some l \<Rightarrow> ls_expires_at l \<le> now)"

definition lease_of :: "lease_call \<Rightarrow> int \<Rightarrow> lease" where
  "lease_of c expires = \<lparr> ls_owner = lc_owner c, ls_nonce = lc_nonce c, ls_expires_at = expires \<rparr>"

definition set_phase :: "nat \<Rightarrow> lease_phase \<Rightarrow> lease_world \<Rightarrow> lease_world" where
  "set_phase i p w = w\<lparr>lw_calls := (lw_calls w)[i := (lw_calls w ! i)\<lparr>lc_phase := p\<rparr>]\<rparr>"

text \<open>The call \<open>i\<close> is at the head of the loop (or resumes after its \<open>delay\<close>), with the clock \<open>now\<close>; \<open>d\<close> is
  the random part of the next delay.\<close>

definition lease_attempt :: "nat \<Rightarrow> int \<Rightarrow> lease_world \<Rightarrow> lease_world" where
  "lease_attempt i d w =
     (let c = lw_calls w ! i; now = lw_now w in
      if lc_deadline c \<le> now then set_phase i TimedOut w
      else if lease_free now (lw_cell w)
      then set_phase i (Confirming (now + 25 + d)) (w\<lparr>lw_cell := encode_lease (lease_of c (now + LOCK_LEASE_MS))\<rparr>)
      else set_phase i (Waiting (now + 50 + d)) w)"

definition lease_confirm :: "nat \<Rightarrow> int \<Rightarrow> lease_world \<Rightarrow> lease_world" where
  "lease_confirm i d w =
     (if lease_mine (lw_calls w ! i) (lw_cell w) then set_phase i Holding w
      else set_phase i (Waiting (lw_now w + 50 + d)) w)"

definition lease_renew :: "nat \<Rightarrow> lease_world \<Rightarrow> lease_world" where
  "lease_renew i w =
     (let c = lw_calls w ! i in
      if lease_mine c (lw_cell w) then w\<lparr>lw_cell := encode_lease (lease_of c (lw_now w + LOCK_LEASE_MS))\<rparr> else w)"

definition lease_release :: "nat \<Rightarrow> lease_world \<Rightarrow> lease_world" where
  "lease_release i w =
     set_phase i Finished (if lease_mine (lw_calls w ! i) (lw_cell w) then w\<lparr>lw_cell := NoText\<rparr> else w)"

definition lease_enter :: "string \<Rightarrow> string \<Rightarrow> lease_world \<Rightarrow> lease_world" where
  "lease_enter owner nonce w =
     w\<lparr>lw_calls := lw_calls w @ [\<lparr> lc_owner = owner, lc_nonce = nonce,
          lc_deadline = lw_now w + LOCK_TIMEOUT_MS, lc_phase = Waiting (lw_now w) \<rparr>]\<rparr>"

text \<open>Text that \<open>readString\<close> returns unchanged; so are tab ids and nonces (\<open>crypto.randomUUID\<close> or the
  \<open>tab-\<close> text of \<open>createAuthTabId\<close>). A call's nonce is new: that is what \<open>randomUUID\<close> is for.\<close>

definition clean :: "nat \<Rightarrow> string \<Rightarrow> bool" where
  "clean n s \<longleftrightarrow> js_trim s = s \<and> s \<noteq> [] \<and> js_length s \<le> n"

inductive lease_step :: "lease_world \<Rightarrow> lease_world \<Rightarrow> bool" where
  enter: "clean 128 owner \<Longrightarrow> clean 128 nonce \<Longrightarrow> nonce \<notin> lc_nonce ` set (lw_calls w) \<Longrightarrow>
     lease_step w (lease_enter owner nonce w)"
| attempt: "i < length (lw_calls w) \<Longrightarrow> lc_phase (lw_calls w ! i) = Waiting wake \<Longrightarrow> wake \<le> lw_now w \<Longrightarrow> 0 \<le> d \<Longrightarrow>
     lease_step w (lease_attempt i d w)"
| confirm: "i < length (lw_calls w) \<Longrightarrow> lc_phase (lw_calls w ! i) = Confirming wake \<Longrightarrow> wake \<le> lw_now w \<Longrightarrow> 0 \<le> d \<Longrightarrow>
     lease_step w (lease_confirm i d w)"
| renew: "i < length (lw_calls w) \<Longrightarrow> lc_phase (lw_calls w ! i) = Holding \<Longrightarrow> lease_step w (lease_renew i w)"
| release: "i < length (lw_calls w) \<Longrightarrow> lc_phase (lw_calls w ! i) = Holding \<Longrightarrow> lease_step w (lease_release i w)"

inductive_cases lease_stepE: "lease_step w w'"

text \<open>\<open>withCrossTabAuthLock\<close> uses the lease only where the browser has no lock manager.\<close>

datatype lock_kind = WebLock | StorageLease | Unserialised

definition withCrossTabAuthLock :: "bool \<Rightarrow> bool \<Rightarrow> lock_kind" where
  "withCrossTabAuthLock has_locks available =
     (if has_locks then WebLock else if available then StorageLease else Unserialised)"

text \<open>Time passes in time for the owner of the cell: its lease does not run out while it confirms or holds it
  (a holder renews every five seconds, a lease lasts fifteen).\<close>

definition in_time :: "lease_world \<Rightarrow> int \<Rightarrow> bool" where
  "in_time w t \<longleftrightarrow>
     (\<forall>c \<in> set (lw_calls w). \<forall>l. (lc_phase c = Holding \<or> (\<exists>k. lc_phase c = Confirming k)) \<and> lease_mine c (lw_cell w)
        \<and> parseLease (lw_cell w) = Some l \<longrightarrow> t < ls_expires_at l)"

definition MAX_TIME :: int where
  "MAX_TIME = 8640000000000000"

inductive lease_reachable :: "lease_world \<Rightarrow> bool" where
  start: "0 \<le> now \<Longrightarrow> now \<le> MAX_TIME \<Longrightarrow>
     lease_reachable \<lparr> lw_now = now, lw_cell = cell, lw_calls = [] \<rparr>"
| step: "lease_reachable w \<Longrightarrow> lease_step w w' \<Longrightarrow> lease_reachable w'"
| pass: "lease_reachable w \<Longrightarrow> lw_now w \<le> t \<Longrightarrow> t \<le> MAX_TIME \<Longrightarrow> in_time w t \<Longrightarrow> lease_reachable (w\<lparr>lw_now := t\<rparr>)"


section \<open>Trimmed text\<close>

lemma strip_fixed: "List.find (\<lambda>w. w \<noteq> [] \<and> starts_with w s) ws = None \<Longrightarrow> strip ws s = s"
  by (simp add: strip.simps [of ws s])

lemma strip_result: "List.find (\<lambda>w. w \<noteq> [] \<and> starts_with w (strip ws s)) ws = None"
proof (induction ws s rule: strip.induct)
  case (1 ws s)
  then show ?case
    by (cases "List.find (\<lambda>w. w \<noteq> [] \<and> starts_with w s) ws") (simp_all add: strip.simps [of ws s])
qed

lemma strip_idem [simp]: "strip ws (strip ws s) = strip ws s"
  by (rule strip_fixed) (rule strip_result)

lemma strip_suffix: "\<exists>k. strip ws s = drop k s"
proof (induction ws s rule: strip.induct)
  case (1 ws s)
  show ?case
  proof (cases "List.find (\<lambda>w. w \<noteq> [] \<and> starts_with w s) ws")
    case None
    then show ?thesis by (auto simp: strip.simps [of ws s] intro: exI [of _ 0])
  next
    case (Some w)
    with 1 obtain k where "strip ws (drop (length w) s) = drop k (drop (length w) s)" by blast
    with Some show ?thesis by (auto simp: strip.simps [of ws s])
  qed
qed

lemma starts_with_take: "starts_with w (take k s) \<Longrightarrow> starts_with w s"
proof -
  assume a: "starts_with w (take k s)"
  then have "length w \<le> length (take k s)" unfolding starts_with_def by (metis length_take min.cobounded2 nat_le_linear take_all)
  then have "min (length w) k = length w" by simp
  with a show ?thesis by (simp add: starts_with_def)
qed

lemma js_trim_end_take: "\<exists>k. js_trim_end s = take k s"
proof -
  obtain k where "strip (map rev white_space) (rev s) = drop k (rev s)" using strip_suffix by blast
  then show ?thesis by (auto simp: js_trim_end_def rev_drop)
qed

lemma js_trim_idem [simp]: "js_trim (js_trim s) = js_trim s"
proof -
  let ?t = "js_trim_start s"
  obtain k where k: "js_trim s = take k ?t" using js_trim_end_take js_trim_def by metis
  have "List.find (\<lambda>w. w \<noteq> [] \<and> starts_with w ?t) white_space = None"
    by (simp add: js_trim_start_def strip_result)
  then have "List.find (\<lambda>w. w \<noteq> [] \<and> starts_with w (take k ?t)) white_space = None"
    using starts_with_take unfolding find_None_iff by blast
  then have "js_trim_start (js_trim s) = js_trim s" unfolding k js_trim_start_def by (rule strip_fixed)
  then show ?thesis by (simp add: js_trim_def js_trim_end_def)
qed

definition caseless :: "string \<Rightarrow> bool" where
  "caseless w \<longleftrightarrow> list_all (\<lambda>x. \<not> (65 \<le> (of_char x :: nat) \<and> of_char x \<le> (90::nat))
     \<and> \<not> (97 \<le> (of_char x :: nat) \<and> of_char x \<le> (122::nat))) w"

lemma char_lower_eq:
  "\<not> (65 \<le> (of_char x :: nat) \<and> of_char x \<le> (90::nat)) \<Longrightarrow>
   \<not> (97 \<le> (of_char x :: nat) \<and> of_char x \<le> (122::nat)) \<Longrightarrow> char_lower c = x \<longleftrightarrow> c = x"
  by (auto simp: char_lower_def Let_def)

lemma starts_with_lower: "caseless w \<Longrightarrow> starts_with w (js_lower s) \<longleftrightarrow> starts_with w s"
proof (induction w arbitrary: s)
  case (Cons x w)
  then show ?case
    by (cases s) (auto simp: starts_with_def js_lower_def caseless_def char_lower_eq)
qed (simp add: starts_with_def)

lemma find_cong: "(\<And>x. x \<in> set xs \<Longrightarrow> P x = Q x) \<Longrightarrow> List.find P xs = List.find Q xs"
  by (induction xs) auto

lemma strip_lower: "list_all caseless ws \<Longrightarrow> strip ws (js_lower s) = js_lower (strip ws s)"
proof (induction ws s rule: strip.induct)
  case (1 ws s)
  have e: "List.find (\<lambda>w. w \<noteq> [] \<and> starts_with w (js_lower s)) ws = List.find (\<lambda>w. w \<noteq> [] \<and> starts_with w s) ws"
    using 1(2) by (intro find_cong) (auto simp: list_all_iff starts_with_lower)
  show ?case
  proof (cases "List.find (\<lambda>w. w \<noteq> [] \<and> starts_with w s) ws")
    case None
    with e show ?thesis by (simp add: strip.simps [of ws])
  next
    case (Some w)
    with 1 have "strip ws (js_lower (drop (length w) s)) = js_lower (strip ws (drop (length w) s))" by simp
    with Some e show ?thesis
      unfolding strip.simps [of ws s] strip.simps [of ws "js_lower s"] by (simp add: js_lower_def drop_map)
  qed
qed

lemma js_trim_lower: "js_trim (js_lower s) = js_lower (js_trim s)"
proof -
  have w: "list_all caseless white_space" "list_all caseless (map rev white_space)" by code_simp+
  have r: "rev (js_lower x) = js_lower (rev x)" for x by (simp add: js_lower_def rev_map)
  show ?thesis
    by (simp add: js_trim_def js_trim_start_def js_trim_end_def strip_lower w r)
qed

lemma js_lower_idem [simp]: "js_lower (js_lower s) = js_lower s"
proof -
  have "char_lower (char_lower c) = char_lower c" for c
    by (auto simp: char_lower_def Let_def)
  then show ?thesis by (simp add: js_lower_def)
qed

section \<open>Well-formed messages\<close>


definition safe_int :: "int \<Rightarrow> bool" where
  "safe_int n \<longleftrightarrow> \<bar>n\<bar> \<le> max_safe"

definition wf_snapshot :: "auth_snapshot \<Rightarrow> bool" where
  "wf_snapshot s \<longleftrightarrow>
     clean 128 (sn_source_tab s) \<and> safe_int (sn_issued_at s)
     \<and> (\<forall>t. sn_target_tab s = Some t \<longrightarrow> clean 128 t)
     \<and> sn_origin s \<in> {''login'', ''refresh''}
     \<and> (\<forall>e. sn_email s = Some e \<longrightarrow> clean 254 e \<and> js_lower e = e)
     \<and> clean MAX_SNAPSHOT_TOKEN_LENGTH (sn_access_token s) \<and> MIN_SNAPSHOT_TOKEN_LENGTH \<le> js_length (sn_access_token s)
     \<and> safe_int (sn_access_expires_at s) \<and> safe_int (sn_session_expires_at s)
     \<and> sn_issued_at s < sn_access_expires_at s \<and> sn_issued_at s < sn_session_expires_at s"

fun wf_message :: "auth_message \<Rightarrow> bool" where
  "wf_message (SessionRequest tab issued) \<longleftrightarrow> clean 128 tab \<and> safe_int issued"
| "wf_message (SessionSnapshot s) \<longleftrightarrow> wf_snapshot s"
| "wf_message (SessionCleared tab issued reason) \<longleftrightarrow> clean 128 tab \<and> safe_int issued \<and> reason \<in> set cleared_reasons"

fun message_issued_at :: "auth_message \<Rightarrow> int" where
  "message_issued_at (SessionRequest tab issued) = issued"
| "message_issued_at (SessionSnapshot s) = sn_issued_at s"
| "message_issued_at (SessionCleared tab issued reason) = issued"

lemma auth_readString_iff: "auth_readString v n = Some s \<longleftrightarrow> (\<exists>r. v = JStr r \<and> s = js_trim r \<and> s \<noteq> [] \<and> js_length s \<le> n)"
  by (cases v) (auto simp: auth_readString_def Let_def)

lemma auth_readString_clean: "auth_readString v n = Some s \<Longrightarrow> clean n s"
  by (auto simp: auth_readString_iff clean_def)

lemma auth_readString_JStr [simp]: "clean n s \<Longrightarrow> auth_readString (JStr s) n = Some s"
  by (simp add: auth_readString_def clean_def)

lemma auth_readInteger_iff: "auth_readInteger v = Some n \<longleftrightarrow> v = json_of_int n \<and> safe_int n"
proof (cases v)
  case (JNum x)
  then show ?thesis
    by (cases x) (auto simp: auth_readInteger_def json_of_int_def safe_int_def int_of_def)
qed (auto simp: auth_readInteger_def json_of_int_def)

lemma readNullableEmail_clean: "readNullableEmail v = Some (Some e) \<Longrightarrow> clean 254 e \<and> js_lower e = e"
  by (auto simp: readNullableEmail_def Let_def clean_def js_trim_lower split: if_splits)

lemma readNullableEmail_json:
  "(\<forall>e. x = Some e \<longrightarrow> clean 254 e \<and> js_lower e = e) \<Longrightarrow> readNullableEmail (json_of_option x) = Some x"
  by (cases x) (auto simp: readNullableEmail_def json_of_option_def clean_def)


lemma parse_snapshot_wf:
  assumes "parse_snapshot v tab issued = Some m" "clean 128 tab" "safe_int issued"
  shows "wf_message m \<and> message_issued_at m = issued"
proof -
  obtain email token access session where
    r: "readNullableEmail (fld v ''email'') = Some email"
      "auth_readString (fld v ''accessToken'') MAX_SNAPSHOT_TOKEN_LENGTH = Some token"
      "auth_readInteger (fld v ''accessExpiresAt'') = Some access"
      "auth_readInteger (fld v ''sessionExpiresAt'') = Some session"
    using assms(1) by (auto simp: parse_snapshot_def Let_def split: option.splits)
  let ?t = "fld v ''targetTab''"
  from assms(1) have m: "m = SessionSnapshot
            \<lparr> sn_source_tab = tab, sn_target_tab = (if ?t = JNull then None else auth_readString ?t 128),
              sn_issued_at = issued, sn_origin = str_of (fld v ''sessionOrigin''), sn_email = email,
              sn_access_token = token, sn_access_expires_at = access, sn_session_expires_at = session \<rparr>"
    and o: "fld v ''sessionOrigin'' = JStr ''login'' \<or> fld v ''sessionOrigin'' = JStr ''refresh''"
    and b: "MIN_SNAPSHOT_TOKEN_LENGTH \<le> js_length token" "issued < access" "issued < session"
    unfolding parse_snapshot_def Let_def r option.case prod.case
    by (simp_all split: if_splits)
  have "safe_int access" "safe_int session" using r(3,4) by (simp_all add: auth_readInteger_iff)
  moreover have "\<forall>e. email = Some e \<longrightarrow> clean 254 e \<and> js_lower e = e"
    using r(1) readNullableEmail_clean by blast
  moreover have "clean MAX_SNAPSHOT_TOKEN_LENGTH token" using r(2) by (rule auth_readString_clean)
  moreover have "\<forall>t. (if ?t = JNull then None else auth_readString ?t 128) = Some t \<longrightarrow> clean 128 t"
    by (auto intro: auth_readString_clean)
  ultimately show ?thesis using o b assms(2,3) unfolding m by (auto simp: wf_snapshot_def)
qed

lemma parseAuthChannelMessage_wf:
  assumes "parseAuthChannelMessage v now = Some m"
  shows "wf_message m \<and> message_issued_at m \<le> now + MAX_FUTURE_CLOCK_SKEW_MS"
proof -
  obtain tab issued where
    r: "auth_readString (fld v ''sourceTab'') 128 = Some tab" "auth_readInteger (fld v ''issuedAt'') = Some issued"
    and i: "issued \<le> now + MAX_FUTURE_CLOCK_SKEW_MS"
    using assms by (auto simp: parseAuthChannelMessage_def split: if_splits option.splits)
  note c = auth_readString_clean [OF r(1)]
  have si: "safe_int issued" using r(2) by (simp add: auth_readInteger_iff)
  show ?thesis
    using assms i c si parse_snapshot_wf [OF _ c si]
    unfolding parseAuthChannelMessage_def r option.case prod.case Let_def
    by (auto split: if_splits simp: cleared_reasons_def)
qed

lemma auth_readInteger_json [simp]: "safe_int n \<Longrightarrow> auth_readInteger (json_of_int n) = Some n"
  by (simp add: auth_readInteger_iff)

lemma parse_encode_message:
  assumes "wf_message m" "message_issued_at m \<le> now + MAX_FUTURE_CLOCK_SKEW_MS"
  shows "parseAuthChannelMessage (encode_message m) now = Some m"
proof (cases m)
  case (SessionSnapshot s)
  have t: "(if json_of_option (sn_target_tab s) = JNull then None else auth_readString (json_of_option (sn_target_tab s)) 128)
      = sn_target_tab s" "sn_target_tab s = None \<Longrightarrow> json_of_option (sn_target_tab s) = JNull"
    using assms(1) SessionSnapshot by (auto simp: json_of_option_def wf_snapshot_def split: option.split)
  have e: "readNullableEmail (json_of_option (sn_email s)) = Some (sn_email s)"
    using assms(1) SessionSnapshot by (intro readNullableEmail_json) (simp add: wf_snapshot_def)
  show ?thesis
    using assms t e unfolding SessionSnapshot
    by (cases "sn_target_tab s")
      (auto simp: parseAuthChannelMessage_def isRecord_def parse_snapshot_def Let_def wf_snapshot_def)
qed (use assms in \<open>auto simp: parseAuthChannelMessage_def isRecord_def Let_def\<close>)

section \<open>The logout marker\<close>

lemma parse_encode_marker:
  "safe_int (lm_issued_at m) \<Longrightarrow> safe_int (lm_expires_at m) \<Longrightarrow> clean 128 (lm_nonce m) \<Longrightarrow>
   parseLogoutMarker (encode_marker m) = Some m"
  by (simp add: parseLogoutMarker_def encode_marker_def isRecord_def)

lemma marker_lifetime:
  assumes "clean 128 nonce" "0 \<le> t" "t \<le> MAX_TIME"
  shows "fst (readRecentLogoutMarker True now (recordLogoutMarker True nonce t cell)) =
     (if t - MAX_FUTURE_CLOCK_SKEW_MS \<le> now \<and> now < t + LOGOUT_MARKER_TTL_MS then Some t else None)"
proof -
  have "safe_int t" "safe_int (t + LOGOUT_MARKER_TTL_MS)"
    using assms by (auto simp: safe_int_def MAX_TIME_def LOGOUT_MARKER_TTL_MS_def max_safe_def)
  with parse_encode_marker [of "\<lparr> lm_issued_at = t, lm_expires_at = t + LOGOUT_MARKER_TTL_MS, lm_nonce = nonce \<rparr>"]
  show ?thesis
    using assms(1) by (auto simp: readRecentLogoutMarker_def recordLogoutMarker_def)
qed

lemma marker_read_keeps: "fst (readRecentLogoutMarker av now cell) = Some t \<Longrightarrow> snd (readRecentLogoutMarker av now cell) = cell"
  by (auto simp: readRecentLogoutMarker_def split: option.splits if_splits)

section \<open>The lease is exclusive\<close>


lemma parse_encode_lease:
  "clean 128 (ls_owner l) \<Longrightarrow> clean 128 (ls_nonce l) \<Longrightarrow> safe_int (ls_expires_at l) \<Longrightarrow> parseLease (encode_lease l) = Some l"
  by (simp add: parseLease_def encode_lease_def isRecord_def)

definition active :: "lease_call \<Rightarrow> bool" where
  "active c \<longleftrightarrow> lc_phase c = Holding \<or> (\<exists>k. lc_phase c = Confirming k)"

definition lease_inv :: "lease_world \<Rightarrow> bool" where
  "lease_inv w \<longleftrightarrow>
     0 \<le> lw_now w \<and> lw_now w \<le> MAX_TIME \<and> distinct (map lc_nonce (lw_calls w))
     \<and> (\<forall>c \<in> set (lw_calls w). clean 128 (lc_owner c) \<and> clean 128 (lc_nonce c))
     \<and> (\<forall>c \<in> set (lw_calls w). lc_phase c = Holding \<longrightarrow> lease_mine c (lw_cell w))
     \<and> (\<forall>c \<in> set (lw_calls w). active c \<and> lease_mine c (lw_cell w) \<longrightarrow> \<not> lease_free (lw_now w) (lw_cell w))"

lemma parse_lease_of:
  assumes "clean 128 (lc_owner c)" "clean 128 (lc_nonce c)" "0 \<le> t" "t \<le> MAX_TIME"
  shows "parseLease (encode_lease (lease_of c (t + LOCK_LEASE_MS))) = Some (lease_of c (t + LOCK_LEASE_MS))"
  using assms by (intro parse_encode_lease) (simp_all add: lease_of_def safe_int_def max_safe_def MAX_TIME_def LOCK_LEASE_MS_def)

lemma lease_mine_encoded:
  assumes "clean 128 (lc_owner c)" "clean 128 (lc_nonce c)" "0 \<le> t" "t \<le> MAX_TIME"
  shows "lease_mine b (encode_lease (lease_of c (t + LOCK_LEASE_MS))) \<longleftrightarrow> lc_owner b = lc_owner c \<and> lc_nonce b = lc_nonce c"
    "lease_free now (encode_lease (lease_of c (t + LOCK_LEASE_MS))) \<longleftrightarrow> t + LOCK_LEASE_MS \<le> now"
  unfolding lease_mine_def lease_free_def parse_lease_of [OF assms] by (auto simp: lease_of_def)

lemma lease_mine_phase [simp]: "lease_mine (c\<lparr>lc_phase := p\<rparr>) cell = lease_mine c cell"
  by (simp add: lease_mine_def split: option.split)

lemma lease_mine_NoText [simp]: "\<not> lease_mine c NoText"
  by (simp add: lease_mine_def parseLease_def)

lemma set_phase_simps [simp]:
  "lw_now (set_phase i p w) = lw_now w" "lw_cell (set_phase i p w) = lw_cell w"
  "lw_calls (set_phase i p w) = (lw_calls w)[i := (lw_calls w ! i)\<lparr>lc_phase := p\<rparr>]"
  by (simp_all add: set_phase_def)

lemma nonces_set_phase:
  "i < length cs \<Longrightarrow> map lc_nonce (cs[i := (cs ! i)\<lparr>lc_phase := p\<rparr>]) = map lc_nonce cs"
  by (rule nth_equalityI) (auto simp: nth_list_update)

lemma set_update_phase:
  "c \<in> set (cs[i := x]) \<Longrightarrow> c = x \<or> (\<exists>j. j < length cs \<and> j \<noteq> i \<and> c = cs ! j)"
  by (metis in_set_conv_nth length_list_update nth_list_update_eq nth_list_update_neq)

lemma same_nonce: "distinct (map lc_nonce cs) \<Longrightarrow> i < length cs \<Longrightarrow> j < length cs \<Longrightarrow>
    lc_nonce (cs ! i) = lc_nonce (cs ! j) \<Longrightarrow> i = j"
  by (metis length_map nth_eq_iff_index_eq nth_map)

text \<open>A step of one call that leaves the cell alone.\<close>

lemma lease_inv_phase:
  assumes "lease_inv w" "i < length (lw_calls w)"
    and "p = Holding \<Longrightarrow> lease_mine (lw_calls w ! i) (lw_cell w) \<and> active (lw_calls w ! i)"
    and "\<And>k. p \<noteq> Confirming k"
  shows "lease_inv (set_phase i p w)"
proof -
  let ?c = "lw_calls w ! i"
  have c: "?c \<in> set (lw_calls w)" using assms(2) by simp
  have m: "x \<in> set ((lw_calls w)[i := ?c\<lparr>lc_phase := p\<rparr>]) \<Longrightarrow> x = ?c\<lparr>lc_phase := p\<rparr> \<or> x \<in> set (lw_calls w)" for x
    using set_update_phase by fastforce
  from assms(1) c have f: "clean 128 (lc_owner ?c)" "clean 128 (lc_nonce ?c)"
    "active ?c \<Longrightarrow> lease_mine ?c (lw_cell w) \<Longrightarrow> \<not> lease_free (lw_now w) (lw_cell w)"
    unfolding lease_inv_def by blast+
  have "active (?c\<lparr>lc_phase := p\<rparr>) \<Longrightarrow> p = Holding" using assms(4) by (simp add: active_def)
  with assms f show ?thesis
    unfolding lease_inv_def set_phase_simps nonces_set_phase [OF assms(2)]
    by (auto dest!: m)
qed

lemma lease_inv_attempt:
  assumes inv: "lease_inv w" and i: "i < length (lw_calls w)" and ph: "lc_phase (lw_calls w ! i) = Waiting k"
  shows "lease_inv (lease_attempt i d w)"
proof -
  let ?c = "lw_calls w ! i" and ?now = "lw_now w"
  let ?cell = "encode_lease (lease_of ?c (?now + LOCK_LEASE_MS))"
  have c: "?c \<in> set (lw_calls w)" using i by simp
  have cl: "clean 128 (lc_owner ?c)" "clean 128 (lc_nonce ?c)" "0 \<le> ?now" "?now \<le> MAX_TIME"
    using inv c by (auto simp: lease_inv_def)
  have took: "lease_inv (set_phase i (Confirming (?now + 25 + d)) (w\<lparr>lw_cell := ?cell\<rparr>))"
    if free: "lease_free ?now (lw_cell w)"
  proof -
    have idle: "lc_phase x \<noteq> Holding" if "x \<in> set (lw_calls w)" for x
      using inv free that unfolding lease_inv_def active_def by blast
    have unfree: "\<not> lease_free ?now ?cell" using lease_mine_encoded(2) [OF cl] by (simp add: LOCK_LEASE_MS_def)
    have m: "x \<in> set ((lw_calls w)[i := ?c\<lparr>lc_phase := q\<rparr>]) \<Longrightarrow> x = ?c\<lparr>lc_phase := q\<rparr> \<or> x \<in> set (lw_calls w)" for x q
      using set_update_phase by fastforce
    show ?thesis
      using inv c idle unfree unfolding lease_inv_def set_phase_def
      by (auto dest!: m simp: nonces_set_phase [OF i])
  qed
  show ?thesis
    using took lease_inv_phase [OF inv i, of TimedOut] lease_inv_phase [OF inv i, of "Waiting (?now + 50 + d)"]
    by (simp add: lease_attempt_def Let_def)
qed

lemma holders_equal:
  assumes "lease_inv w" "i < length (lw_calls w)" "j < length (lw_calls w)"
    and "lease_mine (lw_calls w ! i) (lw_cell w)" "lease_mine (lw_calls w ! j) (lw_cell w)"
  shows "i = j"
proof -
  have "lc_nonce (lw_calls w ! i) = lc_nonce (lw_calls w ! j)"
    using assms(4,5) by (auto simp: lease_mine_def split: option.splits)
  with assms(1-3) show ?thesis by (auto simp: lease_inv_def intro: same_nonce)
qed

lemma lease_inv_renew:
  assumes inv: "lease_inv w" and i: "i < length (lw_calls w)"
  shows "lease_inv (lease_renew i w)"
proof (cases "lease_mine (lw_calls w ! i) (lw_cell w)")
  case True
  let ?c = "lw_calls w ! i" and ?now = "lw_now w"
  have c: "?c \<in> set (lw_calls w)" using i by simp
  have cl: "clean 128 (lc_owner ?c)" "clean 128 (lc_nonce ?c)" "0 \<le> ?now" "?now \<le> MAX_TIME"
    using inv c by (auto simp: lease_inv_def)
  from True obtain l where l: "parseLease (lw_cell w) = Some l" "ls_owner l = lc_owner ?c" "ls_nonce l = lc_nonce ?c"
    by (auto simp: lease_mine_def split: option.splits)
  have same: "lease_mine x (encode_lease (lease_of ?c (?now + LOCK_LEASE_MS))) \<longleftrightarrow> lease_mine x (lw_cell w)" for x
    unfolding lease_mine_encoded(1) [OF cl] lease_mine_def [of x "lw_cell w"] l option.case by auto
  have "\<not> lease_free ?now (encode_lease (lease_of ?c (?now + LOCK_LEASE_MS)))"
    using lease_mine_encoded(2) [OF cl] by (simp add: LOCK_LEASE_MS_def)
  with inv True show ?thesis by (simp add: lease_renew_def Let_def lease_inv_def same)
next
  case False
  with inv show ?thesis by (simp add: lease_renew_def Let_def)
qed

lemma lease_inv_release:
  assumes inv: "lease_inv w" and i: "i < length (lw_calls w)" and ph: "lc_phase (lw_calls w ! i) = Holding"
  shows "lease_inv (lease_release i w)"
proof -
  have mine: "lease_mine (lw_calls w ! i) (lw_cell w)" using inv i ph by (auto simp: lease_inv_def)
  have others: "lc_phase (lw_calls w ! j) \<noteq> Holding" if "j < length (lw_calls w)" "j \<noteq> i" for j
  proof
    assume "lc_phase (lw_calls w ! j) = Holding"
    then have "lease_mine (lw_calls w ! j) (lw_cell w)" using inv that by (auto simp: lease_inv_def)
    with holders_equal [OF inv i that(1) mine] that(2) show False by simp
  qed
  have "lc_phase x \<noteq> Holding" if "x \<in> set ((lw_calls w)[i := (lw_calls w ! i)\<lparr>lc_phase := Finished\<rparr>])" for x
    using set_update_phase [OF that] others by auto
  moreover have "clean 128 (lc_owner x) \<and> clean 128 (lc_nonce x)"
    if "x \<in> set ((lw_calls w)[i := (lw_calls w ! i)\<lparr>lc_phase := Finished\<rparr>])" for x
    using set_update_phase [OF that] inv i by (auto simp: lease_inv_def)
  ultimately show ?thesis
    using inv mine by (simp add: lease_release_def lease_inv_def nonces_set_phase [OF i])
qed

lemma lease_inv_enter:
  assumes "lease_inv w" "clean 128 owner" "clean 128 nonce" "nonce \<notin> lc_nonce ` set (lw_calls w)"
  shows "lease_inv (lease_enter owner nonce w)"
  using assms by (auto simp: lease_inv_def lease_enter_def active_def)

lemma lease_inv_step: "lease_step w w' \<Longrightarrow> lease_inv w \<Longrightarrow> lease_inv w'"
proof (induction rule: lease_step.induct)
  case (confirm i w k d)
  then show ?case
    using lease_inv_phase [of w i Holding] lease_inv_phase [of w i "Waiting (lw_now w + 50 + d)"]
    by (auto simp: lease_confirm_def active_def)
qed (auto intro: lease_inv_enter lease_inv_attempt lease_inv_renew lease_inv_release)

lemma lease_reachable_inv: "lease_reachable w \<Longrightarrow> lease_inv w"
proof (induction rule: lease_reachable.induct)
  case (start now cell)
  then show ?case by (simp add: lease_inv_def)
next
  case (step w w')
  then show ?case by (simp add: lease_inv_step)
next
  case (pass w t)
  have "\<not> lease_free t (lw_cell w)" if "c \<in> set (lw_calls w)" "active c" "lease_mine c (lw_cell w)" for c
    using pass(4) that unfolding in_time_def active_def lease_free_def lease_mine_def
    by (fastforce split: option.splits)
  with pass show ?case by (auto simp: lease_inv_def)
qed

text \<open>Without any assumption on time: a lease that has not run out is changed by its owner only.\<close>

lemma lease_respected_step:
  assumes "lease_step w w'" "\<not> lease_free (lw_now w) (lw_cell w)" "lw_cell w' \<noteq> lw_cell w"
  shows "\<exists>c \<in> set (lw_calls w). lc_phase c = Holding \<and> lease_mine c (lw_cell w)"
  using assms
proof (induction rule: lease_step.induct)
  case (renew i w)
  then show ?case by (auto simp: lease_renew_def Let_def split: if_splits)
next
  case (release i w)
  then show ?case by (auto simp: lease_release_def Let_def split: if_splits)
qed (auto simp: lease_enter_def lease_attempt_def lease_confirm_def Let_def split: if_splits)


section \<open>Properties\<close>

text \<open>The tabs' messages round-trip: every message that a tab can post in its well-formed shape is read
  back unchanged by another tab, and whatever arrives on the channel, what the reader accepts is such a
  message, issued no later than a minute ahead of the reader's clock.\<close>

theorem channel_message_exact:
  "((\<exists>v. parseAuthChannelMessage v now = Some m)
      \<longleftrightarrow> wf_message m \<and> message_issued_at m \<le> now + MAX_FUTURE_CLOCK_SKEW_MS)
   \<and> (parseAuthChannelMessage (encode_message m) now = Some m
      \<longleftrightarrow> wf_message m \<and> message_issued_at m \<le> now + MAX_FUTURE_CLOCK_SKEW_MS)"
  using parse_encode_message parseAuthChannelMessage_wf by blast


text \<open>Two calls, of which the first acquires the lease.\<close>

definition sample_nonce :: "char \<Rightarrow> string" where
  "sample_nonce c = ''tab-'' @ [c]"

definition sample_calls :: "lease_phase \<Rightarrow> lease_call list" where
  "sample_calls p = [\<lparr> lc_owner = sample_nonce (CHR ''a''), lc_nonce = sample_nonce (CHR ''1''), lc_deadline = 25000, lc_phase = p \<rparr>,
     \<lparr> lc_owner = sample_nonce (CHR ''b''), lc_nonce = sample_nonce (CHR ''2''), lc_deadline = 25000, lc_phase = Waiting 0 \<rparr>]"

definition sample_cell :: stored where
  "sample_cell = encode_lease \<lparr> ls_owner = sample_nonce (CHR ''a''), ls_nonce = sample_nonce (CHR ''1''), ls_expires_at = 15000 \<rparr>"

definition sample_world :: lease_world where
  "sample_world = \<lparr> lw_now = 25, lw_cell = sample_cell, lw_calls = sample_calls Holding \<rparr>"

lemma sample_clean: "clean 128 (sample_nonce c)" if "c \<in> set ''12ab''"
proof -
  have "js_trim (sample_nonce c) = sample_nonce c"
    by (rule js_trim_id) (use that in \<open>auto simp: sample_nonce_def graphic_def\<close>)
  moreover have "js_length (sample_nonce c) \<le> 128"
    using that by (auto simp: js_length_def sample_nonce_def code_unit_width_def)
  ultimately show ?thesis by (simp add: clean_def sample_nonce_def)
qed

lemma sample_nonce_eq: "sample_nonce c = sample_nonce d \<longleftrightarrow> c = d"
  by (simp add: sample_nonce_def)

lemma sample_lease:
  "parseLease sample_cell = Some \<lparr> ls_owner = sample_nonce (CHR ''a''), ls_nonce = sample_nonce (CHR ''1''), ls_expires_at = 15000 \<rparr>"
  unfolding sample_cell_def
  by (rule parse_encode_lease) (simp_all add: sample_clean safe_int_def max_safe_def)

lemma sample_world_reachable: "lease_reachable sample_world"
proof -
  let ?n = sample_nonce
  let ?w0 = "\<lparr> lw_now = 0, lw_cell = NoText, lw_calls = [] \<rparr>"
  have 0: "lease_reachable ?w0" by (rule lease_reachable.start) (simp_all add: MAX_TIME_def)
  have 1: "lease_reachable (lease_enter (?n (CHR ''a'')) (?n (CHR ''1'')) ?w0)"
    by (rule lease_reachable.step [OF 0 lease_step.enter]) (simp_all add: sample_clean)
  have 2: "lease_reachable (lease_enter (?n (CHR ''b'')) (?n (CHR ''2'')) (lease_enter (?n (CHR ''a'')) (?n (CHR ''1'')) ?w0))"
    by (rule lease_reachable.step [OF 1 lease_step.enter]) (simp_all add: sample_clean lease_enter_def sample_nonce_eq)
  let ?w2 = "\<lparr> lw_now = 0, lw_cell = NoText, lw_calls = sample_calls (Waiting 0) \<rparr>"
  have w2: "lease_reachable ?w2" using 2 by (simp add: lease_enter_def sample_calls_def LOCK_TIMEOUT_MS_def)
  have "lease_reachable (lease_attempt 0 0 ?w2)"
    by (rule lease_reachable.step [OF w2 lease_step.attempt [of 0 _ 0]]) (simp_all add: sample_calls_def)
  then have w3: "lease_reachable \<lparr> lw_now = 0, lw_cell = sample_cell, lw_calls = sample_calls (Confirming 25) \<rparr>"
    by (simp add: lease_attempt_def Let_def sample_calls_def lease_free_def parseLease_def set_phase_def lease_of_def
        LOCK_LEASE_MS_def sample_cell_def)
  have "lease_reachable (\<lparr> lw_now = 0, lw_cell = sample_cell, lw_calls = sample_calls (Confirming 25) \<rparr>\<lparr>lw_now := 25\<rparr>)"
    by (rule lease_reachable.pass [OF w3]) (auto simp: in_time_def MAX_TIME_def sample_lease)
  then have w4: "lease_reachable \<lparr> lw_now = 25, lw_cell = sample_cell, lw_calls = sample_calls (Confirming 25) \<rparr>" by simp
  have "lease_reachable (lease_confirm 0 0 \<lparr> lw_now = 25, lw_cell = sample_cell, lw_calls = sample_calls (Confirming 25) \<rparr>)"
    by (rule lease_reachable.step [OF w4 lease_step.confirm [of 0 _ 25]]) (simp_all add: sample_calls_def)
  then show ?thesis
    by (simp add: lease_confirm_def lease_mine_def sample_lease sample_calls_def set_phase_def sample_world_def)
qed


text \<open>With no assumption on time at all, a lease that has not run out is changed only by a step of the call
  that holds it (a renewal or the release).\<close>

theorem lease_respected:
  assumes "lease_step w w'" and "\<not> lease_free (lw_now w) (lw_cell w)" and "lw_cell w' \<noteq> lw_cell w"
  shows "\<exists>c \<in> set (lw_calls w). lc_phase c = Holding \<and> lease_mine c (lw_cell w)"
  using assms by (rule lease_respected_step)

lemma lease_respected_witness:
  "\<exists>c \<in> set (lw_calls sample_world). lc_phase c = Holding \<and> lease_mine c (lw_cell sample_world)"
proof (rule lease_respected)
  show "lease_step sample_world (lease_release 0 sample_world)"
    by (rule lease_step.release) (simp_all add: sample_world_def sample_calls_def)
  show "\<not> lease_free (lw_now sample_world) (lw_cell sample_world)"
    by (simp add: lease_free_def sample_world_def sample_lease)
  show "lw_cell (lease_release 0 sample_world) \<noteq> lw_cell sample_world"
    by (simp add: lease_release_def lease_mine_def sample_world_def sample_lease sample_calls_def)
      (simp add: sample_cell_def encode_lease_def)
qed

text \<open>A logout is remembered for five minutes: the marker recorded at a moment is read back exactly from a
  minute before (clocks of other writers may lag) until five minutes after it, and not later.\<close>

theorem logout_marker_lifetime:
  assumes "clean 128 nonce" and "0 \<le> t" and "t \<le> MAX_TIME"
  shows "fst (readRecentLogoutMarker True now (recordLogoutMarker True nonce t cell)) =
     (if t - MAX_FUTURE_CLOCK_SKEW_MS \<le> now \<and> now < t + LOGOUT_MARKER_TTL_MS then Some t else None)"
  using assms by (rule marker_lifetime)

lemma logout_marker_lifetime_witness:
  "fst (readRecentLogoutMarker True 400000 (recordLogoutMarker True (sample_nonce (CHR ''1'')) 100000 NoText)) = None"
  using logout_marker_lifetime [of "sample_nonce (CHR ''1'')" 100000 400000 NoText] sample_clean [of "CHR ''1''"]
  by (simp add: MAX_TIME_def LOGOUT_MARKER_TTL_MS_def MAX_FUTURE_CLOCK_SKEW_MS_def)

text \<open>The token is renewed in time and not in a rush: the refresh is scheduled at least a second ahead and,
  for a token valid for six seconds or more, at least five seconds before it expires; a retry waits at least
  as long as the server asked, otherwise one second to one minute, never less after more failures.\<close>

theorem refresh_delays:
  "1000 \<le> refreshDelayMs expires now
   \<and> (6000 \<le> expires - now \<longrightarrow> now + refreshDelayMs expires now \<le> expires - 5000)
   \<and> 1000 \<le> refreshRetryDelayMs a r
   \<and> (\<forall>s. r = Some s \<longrightarrow> s * 1000 \<le> refreshRetryDelayMs a r)
   \<and> (a \<le> b \<longrightarrow> refreshRetryDelayMs a None \<le> refreshRetryDelayMs b None) \<and> refreshRetryDelayMs b None \<le> 60000"
proof -
  have sched: "\<forall>i < 5. \<forall>j < 5. i \<le> j \<longrightarrow> retry_schedule ! i \<le> retry_schedule ! j" "\<forall>i < 5. 1000 \<le> retry_schedule ! i"
    "\<forall>i < 5. retry_schedule ! i \<le> 60000"
    by (simp_all add: retry_schedule_def numeral_eq_Suc All_less_Suc)
  have k: "nat (min (max 0 x) 4) < 5" for x :: int by auto
  have len: "int (length retry_schedule) - 1 = 4" by (simp add: retry_schedule_def)
  have "a \<le> b \<Longrightarrow> nat (min (max 0 a) 4) \<le> nat (min (max 0 b) 4)" by auto
  then have m: "a \<le> b \<Longrightarrow> refreshRetryDelayMs a None \<le> refreshRetryDelayMs b None"
    using sched(1) k by (simp add: refreshRetryDelayMs_def len)
  have u: "refreshRetryDelayMs b None \<le> 60000" and l: "1000 \<le> refreshRetryDelayMs a r"
    using sched(2,3) k by (auto simp: refreshRetryDelayMs_def len split: option.split)
  obtain e where e: "refreshDelayMs expires now = max 1000 (expires - now - e)" "5000 \<le> e"
    by (simp add: refreshDelayMs_def Let_def)
  then have "1000 \<le> refreshDelayMs expires now"
    "6000 \<le> expires - now \<Longrightarrow> now + refreshDelayMs expires now \<le> expires - 5000" by linarith+
  moreover have "\<forall>s. r = Some s \<longrightarrow> s * 1000 \<le> refreshRetryDelayMs a r" by (simp add: refreshRetryDelayMs_def)
  ultimately show ?thesis using m u l by blast
qed

lemma refresh_delays_witness: "600000 + refreshDelayMs 900000 600000 \<le> 900000 - 5000"
  using refresh_delays [of 900000 600000] by simp

end
