(* ===== verification/InventoryContext.thy ===== *)
theory InventoryContext
  imports TelemetrySeries QueryCache AuthCoordination
begin

text \<open>
  \<open>features/inventory-context.ts\<close> and \<open>features/telemetry-preferences.ts\<close>: what a route says about the
  organization, site and device it is about, and the two things a session keeps in \<open>sessionStorage\<close>: the last
  confirmed context and the chart the user selected.

  The storage is a list of cells, or \<open>None\<close> where the browser refuses it. The text of a cell is untrusted:
  it is read as \<open>stored\<close> and checked again.
\<close>

section \<open>Routes\<close>

record inventory_target =
  nt_organization :: "string option"
  nt_site :: "string option"
  nt_device :: "string option"
  nt_directory :: bool
  nt_invalid :: bool

definition no_target :: inventory_target where
  "no_target = \<lparr> nt_organization = None, nt_site = None, nt_device = None, nt_directory = False, nt_invalid = False \<rparr>"

definition invalid_target :: inventory_target where
  "invalid_target = no_target\<lparr>nt_invalid := True\<rparr>"

fun split_on :: "char \<Rightarrow> string \<Rightarrow> string list" where
  "split_on d [] = [[]]"
| "split_on d (c # cs) =
     (if c = d then [] # split_on d cs
      else (case split_on d cs of [] \<Rightarrow> [[c]] | p # ps \<Rightarrow> (c # p) # ps))"

text \<open>The regular expressions, on the parts of the path between slashes. A group \<open>([^/]+)\<close> is a non-empty part.\<close>

fun members_path :: "string list \<Rightarrow> string option" where
  "members_path [a, b, x, c] = (if a = [] \<and> b = ''organizations'' \<and> x \<noteq> [] \<and> c = ''members'' then Some x else None)"
| "members_path _ = None"

fun notification_path_of :: "string list \<Rightarrow> (string \<times> string option) option" where
  "notification_path_of [a, b, x, c] =
     (if a = [] \<and> b = ''organizations'' \<and> x \<noteq> [] \<and> c = ''notifications'' then Some (x, None) else None)"
| "notification_path_of [a, b, x, c, y] =
     (if a = [] \<and> b = ''organizations'' \<and> x \<noteq> [] \<and> c = ''notifications'' \<and> y \<noteq> [] then Some (x, Some y) else None)"
| "notification_path_of _ = None"

fun sites_path :: "string list \<Rightarrow> (string \<times> string option) option" where
  "sites_path [a, b, x, c] =
     (if a = [] \<and> b = ''organizations'' \<and> x \<noteq> [] \<and> c = ''sites'' then Some (x, None) else None)"
| "sites_path [a, b, x, c, y, d] =
     (if a = [] \<and> b = ''organizations'' \<and> x \<noteq> [] \<and> c = ''sites'' \<and> y \<noteq> [] \<and> d = ''devices'' then Some (x, Some y) else None)"
| "sites_path _ = None"

fun device_path :: "string list \<Rightarrow> string option" where
  "device_path [a, b, x] = (if a = [] \<and> b = ''devices'' \<and> x \<noteq> [] then Some x else None)"
| "device_path _ = None"

fun alarm_path_of :: "string list \<Rightarrow> (string \<times> string option) option" where
  "alarm_path_of [a, b, c, x] =
     (if a = [] \<and> b = ''alarms'' \<and> c = ''devices'' \<and> x \<noteq> [] then Some (x, None) else None)"
| "alarm_path_of [a, b, c, x, y] =
     (if a = [] \<and> b = ''alarms'' \<and> c = ''devices'' \<and> x \<noteq> [] \<and> y \<noteq> [] then Some (x, Some y) else None)"
| "alarm_path_of _ = None"

definition uuid_or_none :: "string option \<Rightarrow> bool" where
  "uuid_or_none x = (case x of None \<Rightarrow> True | Some y \<Rightarrow> is_uuid y)"

definition inventoryTarget :: "string \<Rightarrow> inventory_target" where
  "inventoryTarget pathname =
     (let parts = split_on (CHR ''/'') pathname in
      if pathname = ''/organizations'' then no_target\<lparr>nt_directory := True\<rparr>
      else (case members_path parts of
        Some x \<Rightarrow> if is_uuid x then no_target\<lparr>nt_organization := Some x\<rparr> else invalid_target
      | None \<Rightarrow> (case notification_path_of parts of
        Some (x, y) \<Rightarrow> if is_uuid x \<and> uuid_or_none y then no_target\<lparr>nt_organization := Some x\<rparr> else invalid_target
      | None \<Rightarrow>
        if starts_with ''/notifications/'' pathname then invalid_target
        else (case sites_path parts of
        Some (x, y) \<Rightarrow>
          if is_uuid x \<and> uuid_or_none y then no_target\<lparr>nt_organization := Some x, nt_site := y\<rparr> else invalid_target
      | None \<Rightarrow> (case device_path parts of
        Some x \<Rightarrow> if is_uuid x then no_target\<lparr>nt_device := Some x\<rparr> else invalid_target
      | None \<Rightarrow> (case alarm_path_of parts of
        Some (x, y) \<Rightarrow> if is_uuid x \<and> uuid_or_none y then no_target\<lparr>nt_device := Some x\<rparr> else invalid_target
      | None \<Rightarrow>
        if starts_with ''/alarms/'' pathname \<or> starts_with ''/organizations/'' pathname then invalid_target
        else no_target))))))"

section \<open>The storage of the session\<close>

type_synonym session_storage = "(string \<times> stored) list option"

definition CONTEXT_PREFIX :: string where
  "CONTEXT_PREFIX = ''kerumo.context.v1:''"

definition contextStorageKey :: "session_scope \<Rightarrow> string" where
  "contextStorageKey scope = CONTEXT_PREFIX @ sc_user scope @ '':'' @ sc_session scope"

definition storage_get :: "string \<Rightarrow> session_storage \<Rightarrow> stored" where
  "storage_get key st =
     (case st of None \<Rightarrow> BadText | Some cells \<Rightarrow> (case map_of cells key of None \<Rightarrow> NoText | Some v \<Rightarrow> v))"

definition storage_set :: "string \<Rightarrow> json \<Rightarrow> session_storage \<Rightarrow> session_storage" where
  "storage_set key v st = map_option (AList.update key (JsonText v)) st"

record saved_context =
  sv_organization :: string
  sv_site :: "string option"

definition saved_of :: "json \<Rightarrow> saved_context option" where
  "saved_of raw =
     (let o' = fld raw ''organizationId''; s = fld raw ''siteId'' in
      if \<not> isRecord raw \<or> ''organizationId'' \<notin> set (obj_keys raw) \<or> ''siteId'' \<notin> set (obj_keys raw) then None
      else if \<not> is_string o' \<or> \<not> is_uuid (str_of o') then None
      else if s \<noteq> JNull \<and> (\<not> is_string s \<or> \<not> is_uuid (str_of s)) then None
      else Some \<lparr> sv_organization = str_of o', sv_site = (if s = JNull then None else Some (str_of s)) \<rparr>)"

definition readSavedContext :: "session_scope \<Rightarrow> session_storage \<Rightarrow> saved_context option" where
  "readSavedContext scope st =
     (case storage_get (contextStorageKey scope) st of JsonText raw \<Rightarrow> saved_of raw | _ \<Rightarrow> None)"

definition saveContext :: "session_scope \<Rightarrow> saved_context \<Rightarrow> session_storage \<Rightarrow> session_storage" where
  "saveContext scope v st =
     storage_set (contextStorageKey scope)
       (JObj [(''organizationId'', JStr (sv_organization v)), (''siteId'', id_or_null (sv_site v))]) st"

definition forgotten_key :: "session_scope option \<Rightarrow> string \<Rightarrow> bool" where
  "forgotten_key scope key =
     (case scope of
        Some s \<Rightarrow> key = contextStorageKey s \<or> starts_with (contextStorageKey s @ '':'') key
      | None \<Rightarrow> starts_with CONTEXT_PREFIX key)"

definition forgetContext :: "session_scope option \<Rightarrow> session_storage \<Rightarrow> session_storage" where
  "forgetContext scope st = map_option (filter (\<lambda>(key, v). \<not> forgotten_key scope key)) st"

section \<open>The selected chart\<close>

record history_selection =
  hs_metric :: string
  hs_seconds :: int
  hs_bucket :: int

definition historyPreferencesKey :: "session_scope \<Rightarrow> string \<Rightarrow> string \<Rightarrow> string" where
  "historyPreferencesKey scope organizationId deviceId =
     contextStorageKey scope @ '':history:'' @ organizationId @ '':'' @ deviceId"

definition json_is_int :: "json \<Rightarrow> int \<Rightarrow> bool" where
  "json_is_int v n = js_eq v (JNum (Fin (of_int n)))"

definition default_period :: history_period where
  "default_period = (case List.find (\<lambda>p. per_seconds p = 3600) periods of Some p \<Rightarrow> p | None \<Rightarrow> hd periods)"

definition selected_period :: "json \<Rightarrow> history_period" where
  "selected_period data =
     (case List.find (\<lambda>p. json_is_int (fld data ''seconds'') (per_seconds p)) periods of
        Some p \<Rightarrow> p | None \<Rightarrow> default_period)"

definition normalizeHistorySelection :: "json \<Rightarrow> channel list \<Rightarrow> history_selection" where
  "normalizeHistorySelection raw channels =
     (let data = (if isRecord raw then raw else JObj []);
          p = selected_period data;
          bucket = (case List.find (\<lambda>v. json_is_int (fld data ''bucket'') v
                      \<and> \<lceil>rat_of_int (per_seconds p) / of_int v\<rceil> \<le> 1000) historyBuckets of
                    Some v \<Rightarrow> v | None \<Rightarrow> per_bucket p)
      in \<lparr> hs_metric =
             (case List.find (\<lambda>c. fld data ''metric'' = JStr (ch_key c)) channels of
                Some c \<Rightarrow> ch_key c
              | None \<Rightarrow> (case channels of [] \<Rightarrow> [] | c # cs \<Rightarrow> ch_key c)),
           hs_seconds = per_seconds p, hs_bucket = bucket \<rparr>)"

definition readHistorySelection :: "string \<Rightarrow> channel list \<Rightarrow> session_storage \<Rightarrow> history_selection" where
  "readHistorySelection key channels st =
     (case storage_get key st of
        JsonText raw \<Rightarrow> normalizeHistorySelection raw channels
      | _ \<Rightarrow> normalizeHistorySelection JNull channels)"

definition saveHistorySelection :: "string \<Rightarrow> history_selection \<Rightarrow> session_storage \<Rightarrow> session_storage" where
  "saveHistorySelection key s st =
     storage_set key (JObj [(''metric'', JStr (hs_metric s)), (''seconds'', JNum (Fin (of_int (hs_seconds s)))),
       (''bucket'', JNum (Fin (of_int (hs_bucket s))))]) st"

section \<open>Facts\<close>

lemma storage_get_set:
  "storage_get k (storage_set k' v (Some cells)) = (if k = k' then JsonText v else storage_get k (Some cells))"
  by (auto simp: storage_get_def storage_set_def update_conv)

lemma map_of_filter_key: "map_of (filter (\<lambda>(k, v). P k) xs) k = (if P k then map_of xs k else None)"
  by (induction xs) auto

lemma storage_get_forget:
  "storage_get k (forgetContext scope (Some cells)) = (if forgotten_key scope k then NoText else storage_get k (Some cells))"
  by (simp add: storage_get_def forgetContext_def map_of_filter_key)

lemma starts_with_iff: "starts_with p s \<longleftrightarrow> (\<exists>r. s = p @ r)"
  unfolding starts_with_def by (metis append_eq_conv_conj append_take_drop_id)

lemma starts_with_append [simp]: "starts_with p (p @ r)"
  by (simp add: starts_with_def)

lemma read_saved:
  assumes "is_uuid (sv_organization v)" "\<forall>s. sv_site v = Some s \<longrightarrow> is_uuid s"
  shows "readSavedContext scope (saveContext scope v (Some cells)) = Some v"
  using assms
  by (cases v) (auto simp: readSavedContext_def saveContext_def storage_get_set saved_of_def isRecord_def id_or_null_def
      split: option.splits)

lemma saved_of_uuid: "saved_of raw = Some v \<Longrightarrow> is_uuid (sv_organization v) \<and> (\<forall>s. sv_site v = Some s \<longrightarrow> is_uuid s)"
  by (auto simp: saved_of_def Let_def split: if_splits)

lemma readSavedContext_uuid:
  "readSavedContext scope st = Some v \<Longrightarrow> is_uuid (sv_organization v) \<and> (\<forall>s. sv_site v = Some s \<longrightarrow> is_uuid s)"
  by (auto simp: readSavedContext_def saved_of_uuid split: stored.splits)

lemma history_key_forgotten: "forgotten_key (Some scope) (historyPreferencesKey scope oid did)"
  by (simp add: forgotten_key_def historyPreferencesKey_def starts_with_def)

lemma is_uuid_ne: "is_uuid s \<Longrightarrow> s \<noteq> []"
  using is_uuid_length [of s] by auto

definition target_ok :: "inventory_target \<Rightarrow> bool" where
  "target_ok t \<longleftrightarrow> uuid_or_none (nt_organization t) \<and> uuid_or_none (nt_site t) \<and> uuid_or_none (nt_device t)
     \<and> (nt_site t \<noteq> None \<longrightarrow> nt_organization t \<noteq> None) \<and> (nt_device t \<noteq> None \<longrightarrow> nt_organization t = None)
     \<and> (nt_invalid t \<or> nt_directory t \<longrightarrow> nt_organization t = None \<and> nt_device t = None)"

lemma inventoryTarget_ok: "target_ok (inventoryTarget pathname)"
  by (simp add: inventoryTarget_def Let_def target_ok_def invalid_target_def no_target_def uuid_or_none_def
      split: option.split)

section \<open>Sessions do not share keys\<close>

definition wf_scope :: "session_scope \<Rightarrow> bool" where
  "wf_scope s \<longleftrightarrow> is_uuid (sc_user s) \<and> is_uuid (sc_session s)"

lemma key_split:
  assumes "wf_scope s" "wf_scope t" "contextStorageKey s @ x = contextStorageKey t @ y"
  shows "s = t \<and> x = y"
proof -
  have l: "length (sc_user s) = length (sc_user t)" "length (sc_session s) = length (sc_session t)"
    using assms(1,2) is_uuid_length by (simp_all add: wf_scope_def)
  from assms(3) have "sc_user s @ '':'' @ sc_session s @ x = sc_user t @ '':'' @ sc_session t @ y"
    by (simp add: contextStorageKey_def)
  then have "sc_user s = sc_user t" "sc_session s @ x = sc_session t @ y" using l(1) by simp_all
  with l(2) show ?thesis by simp
qed

lemma forgotten_other:
  assumes "wf_scope s" "wf_scope t" "s \<noteq> t"
  shows "\<not> forgotten_key (Some s) (contextStorageKey t @ x)"
proof
  assume "forgotten_key (Some s) (contextStorageKey t @ x)"
  then have "\<exists>r. contextStorageKey t @ x = contextStorageKey s @ r"
    unfolding forgotten_key_def starts_with_iff by auto
  then show False using key_split [OF assms(2,1)] assms(3) by blast
qed

section \<open>Charts\<close>

definition valid_selection :: "channel list \<Rightarrow> history_selection \<Rightarrow> bool" where
  "valid_selection channels s \<longleftrightarrow>
     (if channels = [] then hs_metric s = [] else hs_metric s \<in> set (map ch_key channels))
     \<and> hs_seconds s \<in> set (map per_seconds periods) \<and> hs_bucket s \<in> set historyBuckets
     \<and> \<lceil>rat_of_int (hs_seconds s) / of_int (hs_bucket s)\<rceil> \<le> 1000"

lemma periods_facts:
  "list_all (\<lambda>p. per_bucket p \<in> set historyBuckets \<and> \<lceil>rat_of_int (per_seconds p) / of_int (per_bucket p)\<rceil> \<le> 1000
     \<and> List.find (\<lambda>q. per_seconds p = per_seconds q) periods = Some p) periods"
  by code_simp

lemma default_in: "default_period \<in> set periods"
  by code_simp

lemma selected_in: "selected_period data \<in> set periods"
  using default_in by (auto simp: selected_period_def find_Some_iff split: option.split)

lemma json_is_int_of [simp]: "json_is_int (JNum (Fin (of_int m))) n \<longleftrightarrow> m = n"
  by (simp add: json_is_int_def num_eq_def)

lemma find_metric_in:
  "channels \<noteq> [] \<Longrightarrow> (case List.find P channels of Some c \<Rightarrow> ch_key c
     | None \<Rightarrow> (case channels of [] \<Rightarrow> [] | c # cs \<Rightarrow> ch_key c)) \<in> ch_key ` set channels"
  by (cases channels) (auto simp: find_Some_iff split: option.split)

lemma find_bucket_in:
  "P b \<Longrightarrow> b \<in> set vs \<Longrightarrow>
   (case List.find (\<lambda>v. Q v \<and> P v) vs of Some v \<Rightarrow> v | None \<Rightarrow> b) \<in> set vs
   \<and> P (case List.find (\<lambda>v. Q v \<and> P v) vs of Some v \<Rightarrow> v | None \<Rightarrow> b)"
  by (auto simp: find_Some_iff split: option.split)

lemma normalize_valid: "valid_selection channels (normalizeHistorySelection raw channels)"
proof -
  define data where "data = (if isRecord raw then raw else JObj [])"
  define p where "p = selected_period data"
  have p: "p \<in> set periods" unfolding p_def by (rule selected_in)
  with periods_facts have b: "per_bucket p \<in> set historyBuckets" "\<lceil>rat_of_int (per_seconds p) / of_int (per_bucket p)\<rceil> \<le> 1000"
    by (auto simp: list_all_iff)
  note bucket = find_bucket_in [of "\<lambda>v. \<lceil>rat_of_int (per_seconds p) / of_int v\<rceil> \<le> 1000", OF b(2,1),
      of "json_is_int (fld data ''bucket'')"]
  have metric: "channels \<noteq> [] \<Longrightarrow> hs_metric (normalizeHistorySelection raw channels) \<in> ch_key ` set channels"
    using find_metric_in [of channels] by (simp add: normalizeHistorySelection_def Let_def)
  have "hs_seconds (normalizeHistorySelection raw channels) = per_seconds p"
    "hs_bucket (normalizeHistorySelection raw channels)
       = (case List.find (\<lambda>v. json_is_int (fld data ''bucket'') v \<and> \<lceil>rat_of_int (per_seconds p) / of_int v\<rceil> \<le> 1000)
            historyBuckets of Some v \<Rightarrow> v | None \<Rightarrow> per_bucket p)"
    by (simp_all only: normalizeHistorySelection_def Let_def history_selection.simps data_def p_def)
  moreover have "channels = [] \<Longrightarrow> hs_metric (normalizeHistorySelection raw channels) = []"
    by (simp add: normalizeHistorySelection_def Let_def)
  ultimately show ?thesis using bucket metric p unfolding valid_selection_def by (simp del: ceiling_le_iff ceiling_le_numeral)
qed

lemma find_metric:
  "(case List.find (\<lambda>c. m = ch_key c) cs of Some c \<Rightarrow> ch_key c | None \<Rightarrow> d) = (if m \<in> set (map ch_key cs) then m else d)"
  by (induction cs) auto

lemma find_int: "List.find (\<lambda>v. n = v \<and> P v) vs = (if n \<in> set vs \<and> P n then Some n else None)" for n :: int
  by (induction vs) auto

lemma normalize_saved:
  assumes "valid_selection channels s"
  shows "normalizeHistorySelection (JObj [(''metric'', JStr (hs_metric s)), (''seconds'', JNum (Fin (of_int (hs_seconds s)))),
       (''bucket'', JNum (Fin (of_int (hs_bucket s))))]) channels = s"
proof -
  define d where "d = JObj [(''metric'', JStr (hs_metric s)), (''seconds'', JNum (Fin (of_int (hs_seconds s)))),
       (''bucket'', JNum (Fin (of_int (hs_bucket s))))]"
  have d: "isRecord d" "fld d ''metric'' = JStr (hs_metric s)" "fld d ''seconds'' = JNum (Fin (of_int (hs_seconds s)))"
    "fld d ''bucket'' = JNum (Fin (of_int (hs_bucket s)))" by (simp_all add: d_def isRecord_def)
  from assms obtain p where p: "p \<in> set periods" "hs_seconds s = per_seconds p" by (auto simp: valid_selection_def)
  with periods_facts have "List.find (\<lambda>q. per_seconds p = per_seconds q) periods = Some p" by (auto simp: list_all_iff)
  then have sp: "selected_period d = p" using p(2) by (simp add: selected_period_def d)
  have "normalizeHistorySelection d channels = s"
    using assms p(2) by (cases s; cases channels)
      (auto simp: normalizeHistorySelection_def Let_def d sp find_int find_metric valid_selection_def)
  then show ?thesis by (simp only: d_def)
qed

section \<open>Properties\<close>

text \<open>What a session remembers is its own: the context it saves is read back unchanged, another session's
  reading is not affected, and forgetting the session removes its context and every chart selection it saved,
  and nothing of another session.\<close>

theorem session_storage_separate:
  assumes "wf_scope s" and "is_uuid (sv_organization v)" and "\<forall>x. sv_site v = Some x \<longrightarrow> is_uuid x"
  shows "readSavedContext s (saveContext s v (Some cells)) = Some v
    \<and> readSavedContext s (forgetContext (Some s) (Some cells)) = None
    \<and> storage_get (historyPreferencesKey s oid did) (forgetContext (Some s) (Some cells)) = NoText
    \<and> (wf_scope t \<and> t \<noteq> s \<longrightarrow>
         readSavedContext t (saveContext s v (Some cells)) = readSavedContext t (Some cells)
         \<and> readSavedContext t (forgetContext (Some s) (Some cells)) = readSavedContext t (Some cells)
         \<and> storage_get (historyPreferencesKey t oid did) (forgetContext (Some s) (Some cells))
             = storage_get (historyPreferencesKey t oid did) (Some cells))"
proof -
  have other: "contextStorageKey t \<noteq> contextStorageKey s" "\<not> forgotten_key (Some s) (contextStorageKey t)"
    "\<not> forgotten_key (Some s) (historyPreferencesKey t oid did)" if "wf_scope t" "t \<noteq> s"
    using that assms(1) key_split [of t s "[]" "[]"] forgotten_other [of s t "[]"]
      forgotten_other [of s t "'':history:'' @ oid @ '':'' @ did"]
    by (auto simp: historyPreferencesKey_def)
  have mine: "forgotten_key (Some s) (contextStorageKey s)" by (simp add: forgotten_key_def)
  show ?thesis
    using read_saved [OF assms(2,3)] other mine history_key_forgotten [of s oid did]
    by (auto simp: readSavedContext_def saveContext_def storage_get_set storage_get_forget)
qed

definition sample_scope :: "char \<Rightarrow> session_scope" where
  "sample_scope d = \<lparr> sc_user = sample_id d, sc_session = sample_id d \<rparr>"

lemma sample_uuid: "is_uuid (sample_id (CHR ''1'')) \<and> is_uuid (sample_id (CHR ''2''))"
  by code_simp

lemma session_storage_separate_witness:
  "readSavedContext (sample_scope (CHR ''1''))
     (saveContext (sample_scope (CHR ''1'')) \<lparr> sv_organization = sample_id (CHR ''1''), sv_site = None \<rparr> (Some []))
   = Some \<lparr> sv_organization = sample_id (CHR ''1''), sv_site = None \<rparr>"
  using session_storage_separate [of "sample_scope (CHR ''1'')" "\<lparr> sv_organization = sample_id (CHR ''1''), sv_site = None \<rparr>" "[]"]
    sample_uuid
  by (simp add: wf_scope_def sample_scope_def)

text \<open>A stored chart selection is never trusted: whatever text the storage holds, the selection read has a
  period and an interval the server accepts, with at most a thousand points, and a channel that is offered; and
  a valid selection that was saved is read back unchanged.\<close>

theorem chart_selection_valid:
  "valid_selection channels (readHistorySelection key channels st)
   \<and> (valid_selection channels s \<longrightarrow> readHistorySelection key channels (saveHistorySelection key s (Some cells)) = s)"
  by (auto simp: readHistorySelection_def normalize_valid saveHistorySelection_def storage_get_set normalize_saved
      split: stored.split)

lemma chart_selection_valid_witness:
  "readHistorySelection ''k'' [] (saveHistorySelection ''k'' \<lparr> hs_metric = [], hs_seconds = 900, hs_bucket = 60 \<rparr> (Some []))
     = \<lparr> hs_metric = [], hs_seconds = 900, hs_bucket = 60 \<rparr>"
proof -
  have "valid_selection [] \<lparr> hs_metric = [], hs_seconds = 900, hs_bucket = 60 \<rparr>" by code_simp
  then show ?thesis
    using chart_selection_valid [of "[]" "''k''" None "\<lparr> hs_metric = [], hs_seconds = 900, hs_bucket = 60 \<rparr>" "[]"] by blast
qed

end
