(* ===== verification/AuthSession.thy ===== *)
theory AuthSession
  imports AuthCoordination
begin

text \<open>
  \<open>features/auth-session.tsx\<close> and \<open>features/auth-session-runtime.ts\<close>: the session of one tab.

  \<open>auth_state\<close> holds the refs of \<open>AuthSessionProvider\<close> (\<open>as_session\<close> is \<open>sessionRef\<close>, \<open>as_shown\<close> the state
  React renders), the cell of the logout marker, which the tabs share, and what has gone out: the messages
  posted, the request controllers aborted, the peer waiters resolved, the number of cache clears. Each
  callback of the provider is a function on this state at the time \<open>now\<close>; an asynchronous one is cut at
  its \<open>await\<close>s into a beginning and what happens with each answer. \<open>auth_step\<close> is the tab's reaction to one
  event and \<open>auth_reachable\<close> all runs, with the clock free to do anything, also to go back.
\<close>

section \<open>State\<close>

definition PEER_RESPONSE_WINDOW_MS :: int where
  "PEER_RESPONSE_WINDOW_MS = 350"

definition MIN_ACCESS_VALIDITY_MS :: int where
  "MIN_ACCESS_VALIDITY_MS = 30000"

definition MIN_PEER_TOKEN_VALIDITY_MS :: int where
  "MIN_PEER_TOKEN_VALIDITY_MS = 5000"

definition MAX_TIMER_DELAY_MS :: int where
  "MAX_TIMER_DELAY_MS = 2147483647"

record authenticated =
  au_email :: "string option"
  au_access_expires :: int
  au_session_expires :: int
  au_source :: string
  au_refresh_state :: string
  au_refresh_message :: "string option"

datatype session =
    Restoring int
  | Anonymous string
  | Authenticated authenticated
  | Unavailable string "int option"
  | LoggingOut int "string option"
  | LogoutFailed string "int option" "string option"

record auth_state =
  as_tab :: string
  as_storage :: bool
  as_nonce :: string
  as_marker :: stored
  as_mounted :: bool
  as_channel :: bool
  as_session :: session
  as_shown :: session
  as_token :: "string option"
  as_latest_peer :: "auth_snapshot option"
  as_last_event :: int
  as_refreshing :: "int option"
  as_logging_out :: bool
  as_intent :: bool
  as_fallback :: "(authenticated \<times> string) option"
  as_requests :: "nat list"
  as_aborted :: "nat list"
  as_waiters :: "nat list"
  as_resolved :: "(nat \<times> auth_snapshot option) list"
  as_retry_timer :: "int option"
  as_retry_attempt :: int
  as_not_before :: int
  as_posted :: "auth_message list"
  as_cache_clears :: nat

fun auth_of :: "session \<Rightarrow> authenticated option" where
  "auth_of (Authenticated a) = Some a"
| "auth_of _ = None"

definition is_leaving :: "session \<Rightarrow> bool" where
  "is_leaving s = (case s of LoggingOut _ _ \<Rightarrow> True | LogoutFailed _ _ _ \<Rightarrow> True | _ \<Rightarrow> False)"

section \<open>The callbacks\<close>

definition commitSession :: "session \<Rightarrow> auth_state \<Rightarrow> auth_state" where
  "commitSession next st = st\<lparr>as_session := next, as_shown := (if as_mounted st then next else as_shown st)\<rparr>"

definition postMessage :: "auth_message \<Rightarrow> auth_state \<Rightarrow> auth_state" where
  "postMessage m st = (if as_channel st then st\<lparr>as_posted := as_posted st @ [m]\<rparr> else st)"

definition clearRetryTimer :: "auth_state \<Rightarrow> auth_state" where
  "clearRetryTimer st = st\<lparr>as_retry_timer := None\<rparr>"

definition resolvePeerWaiters :: "auth_snapshot option \<Rightarrow> auth_state \<Rightarrow> auth_state" where
  "resolvePeerWaiters snapshot st =
     st\<lparr>as_resolved := as_resolved st @ map (\<lambda>w. (w, snapshot)) (as_waiters st), as_waiters := []\<rparr>"

definition abortAuthorizedRequests :: "auth_state \<Rightarrow> auth_state" where
  "abortAuthorizedRequests st = st\<lparr>as_aborted := as_aborted st @ as_requests st, as_requests := []\<rparr>"

text \<open>\<open>readRecentLogoutMarker()\<close>, which may clear the cell.\<close>

definition recent_marker :: "int \<Rightarrow> auth_state \<Rightarrow> int option \<times> auth_state" where
  "recent_marker now st =
     (let r = readRecentLogoutMarker (as_storage st) now (as_marker st) in (fst r, st\<lparr>as_marker := snd r\<rparr>))"

definition sessionOrigin :: "authenticated \<Rightarrow> string" where
  "sessionOrigin a = (if au_source a = ''login'' then ''login'' else ''refresh'')"

definition normalizeEmail :: "string \<Rightarrow> string" where
  "normalizeEmail value = js_lower (js_trim value)"

definition snapshot_of :: "auth_state \<Rightarrow> string option \<Rightarrow> int \<Rightarrow> authenticated \<Rightarrow> string \<Rightarrow> auth_snapshot" where
  "snapshot_of st target issued a token =
     \<lparr> sn_source_tab = as_tab st, sn_target_tab = target, sn_issued_at = issued, sn_origin = sessionOrigin a,
       sn_email = au_email a, sn_access_token = token, sn_access_expires_at = au_access_expires a,
       sn_session_expires_at = au_session_expires a \<rparr>"

definition publishSnapshot :: "int \<Rightarrow> authenticated \<Rightarrow> auth_state \<Rightarrow> auth_state" where
  "publishSnapshot now a st =
     (case as_token st of
        None \<Rightarrow> st
      | Some token \<Rightarrow>
          if token = [] \<or> as_intent st then st
          else (case recent_marker now st of
                  (Some _, st1) \<Rightarrow> st1
                | (None, st1) \<Rightarrow>
                    postMessage (SessionSnapshot (snapshot_of st1 None (as_last_event st1) a token)) st1))"

text \<open>The common end of \<open>applyTokenResponse\<close> and \<open>applyPeerSnapshot\<close>.\<close>

definition adopt :: "authenticated \<Rightarrow> string \<Rightarrow> int \<Rightarrow> auth_state \<Rightarrow> auth_state" where
  "adopt next token issuedAt st =
     commitSession (Authenticated next) (clearRetryTimer
       (st\<lparr>as_token := Some token, as_last_event := issuedAt, as_retry_attempt := 0, as_not_before := 0\<rparr>))"

definition response_session :: "int \<Rightarrow> browser_token \<Rightarrow> string option \<Rightarrow> string \<Rightarrow> authenticated" where
  "response_session now response email source =
     \<lparr> au_email = email, au_access_expires = now + bt_expires_in response * 1000,
       au_session_expires = now + bt_session_expires_in response * 1000, au_source = source,
       au_refresh_state = ''ready'', au_refresh_message = None \<rparr>"

text \<open>\<open>options.email ?? (current.status === "authenticated" ? current.email : null)\<close>\<close>

definition email_or_current :: "string option \<Rightarrow> auth_state \<Rightarrow> string option" where
  "email_or_current email st =
     (case email of Some e \<Rightarrow> Some e
      | None \<Rightarrow> (case auth_of (as_session st) of Some a \<Rightarrow> au_email a | None \<Rightarrow> None))"

definition applyTokenResponse ::
  "int \<Rightarrow> browser_token \<Rightarrow> string option \<Rightarrow> string \<Rightarrow> int \<Rightarrow> bool \<Rightarrow> bool \<Rightarrow> auth_state \<Rightarrow> bool \<times> auth_state" where
  "applyTokenResponse now response email source issuedAt broadcast force st =
     (let apply_it = (\<lambda>st. let next = response_session now response (email_or_current email st) source;
              st1 = adopt next (bt_access_token response) issuedAt st
            in (True, if broadcast then publishSnapshot now next st1 else st1)) in
      if force then
        apply_it (st\<lparr>as_marker := clearLogoutMarker (as_storage st) (as_marker st), as_intent := False, as_fallback := None\<rparr>)
      else if as_intent st \<or> is_leaving (as_session st) then (False, st)
      else (case recent_marker now st of
              (Some _, st1) \<Rightarrow> (False, st1)
            | (None, st1) \<Rightarrow> if issuedAt < as_last_event st1 then (False, st1) else apply_it st1))"

definition peer_session :: "auth_snapshot \<Rightarrow> string option \<Rightarrow> authenticated" where
  "peer_session snapshot email =
     \<lparr> au_email = email, au_access_expires = sn_access_expires_at snapshot,
       au_session_expires = sn_session_expires_at snapshot, au_source = ''peer'',
       au_refresh_state = ''ready'', au_refresh_message = None \<rparr>"

definition applyPeerSnapshot :: "int \<Rightarrow> auth_snapshot \<Rightarrow> auth_state \<Rightarrow> bool \<times> auth_state" where
  "applyPeerSnapshot now snapshot st =
     (if as_intent st then (False, st) else
      (case recent_marker now st of
         (Some _, st1) \<Rightarrow> (False, st1)
       | (None, st1) \<Rightarrow>
           if is_leaving (as_session st1) then (False, st1)
           else if \<not> isSnapshotUsable snapshot now MIN_PEER_TOKEN_VALIDITY_MS then (False, st1)
           else if sn_issued_at snapshot < as_last_event st1 then (False, st1)
           else (True, adopt (peer_session snapshot (email_or_current (sn_email snapshot) st1))
             (sn_access_token snapshot) (sn_issued_at snapshot) (st1\<lparr>as_latest_peer := Some snapshot\<rparr>))))"

definition clearSessionInternal :: "string \<Rightarrow> bool \<Rightarrow> int \<Rightarrow> auth_state \<Rightarrow> auth_state" where
  "clearSessionInternal reason broadcast issuedAt st =
     (if issuedAt < as_last_event st then st else
      (let st1 = (if reason = ''logout''
                  then st\<lparr>as_marker := recordLogoutMarker (as_storage st) (as_nonce st) issuedAt (as_marker st)\<rparr> else st);
           st2 = st1\<lparr>as_intent := False, as_fallback := None, as_token := None, as_latest_peer := None,
                     as_last_event := issuedAt, as_retry_attempt := 0, as_not_before := 0\<rparr>;
           st3 = commitSession (Anonymous reason)
                   (resolvePeerWaiters None (abortAuthorizedRequests (clearRetryTimer st2)));
           st4 = st3\<lparr>as_cache_clears := Suc (as_cache_clears st3)\<rparr>
       in if broadcast \<and> reason \<noteq> ''none'' then postMessage (SessionCleared (as_tab st4) issuedAt reason) st4 else st4))"

text \<open>\<open>requestPeerSnapshot\<close>: whether a waiter was registered (it resolves with an answer or after
  \<open>PEER_RESPONSE_WINDOW_MS\<close>), or the promise resolved with null at once.\<close>

definition requestPeerSnapshot :: "int \<Rightarrow> nat \<Rightarrow> auth_state \<Rightarrow> bool \<times> auth_state" where
  "requestPeerSnapshot now waiter st =
     (if \<not> as_channel st \<or> as_intent st then (False, st) else
      (case recent_marker now st of
         (Some _, st1) \<Rightarrow> (False, st1)
       | (None, st1) \<Rightarrow>
           (True, postMessage (SessionRequest (as_tab st1) now) (st1\<lparr>as_waiters := as_waiters st1 @ [waiter]\<rparr>))))"

definition peer_timeout :: "nat \<Rightarrow> auth_state \<Rightarrow> auth_state" where
  "peer_timeout waiter st =
     (if waiter \<in> set (as_waiters st)
      then st\<lparr>as_waiters := filter (\<lambda>w. w \<noteq> waiter) (as_waiters st), as_resolved := as_resolved st @ [(waiter, None)]\<rparr>
      else st)"

definition retry_after_of :: "exn \<Rightarrow> int option" where
  "retry_after_of e = (case e of ApiExn err \<Rightarrow> err_retry_after err | JsExn _ \<Rightarrow> None)"

definition scheduleRetry :: "int \<Rightarrow> exn \<Rightarrow> auth_state \<Rightarrow> auth_state" where
  "scheduleRetry now error st =
     (if as_intent st then st else
      (let delay = refreshRetryDelayMs (as_retry_attempt st) (retry_after_of error);
           retryAt = now + delay;
           st1 = (clearRetryTimer st)\<lparr>as_retry_attempt := as_retry_attempt st + 1,
                   as_not_before := (if retry_after_of error = None then 0 else retryAt)\<rparr>;
           st2 = (case auth_of (as_session st1) of
                    Some a \<Rightarrow>
                      if as_token st1 \<noteq> None \<and> MIN_PEER_TOKEN_VALIDITY_MS < au_access_expires a - now
                      then commitSession (Authenticated (a\<lparr>au_refresh_state := ''degraded'',
                             au_refresh_message := Some (apiErrorDisplayMessage error)\<rparr>)) st1
                      else commitSession (Unavailable (apiErrorDisplayMessage error) (Some retryAt)) st1
                  | None \<Rightarrow> commitSession (Unavailable (apiErrorDisplayMessage error) (Some retryAt)) st1)
       in st2\<lparr>as_retry_timer := Some (min delay MAX_TIMER_DELAY_MS)\<rparr>))"

definition current_email :: "auth_state \<Rightarrow> string option" where
  "current_email st = (case auth_of (as_session st) of Some a \<Rightarrow> au_email a | None \<Rightarrow> None)"

definition commitApiRefresh :: "int \<Rightarrow> browser_token \<Rightarrow> int \<Rightarrow> auth_state \<Rightarrow> auth_state" where
  "commitApiRefresh now response issuedAt st =
     snd (applyTokenResponse now response (current_email st) ''refresh'' issuedAt True False st)"

datatype refresh_start = RefreshRefused | RefreshJoined | RefreshStarted

definition refreshSession :: "int \<Rightarrow> auth_state \<Rightarrow> refresh_start \<times> auth_state" where
  "refreshSession now st =
     (if as_intent st \<or> is_leaving (as_session st) then (RefreshRefused, st) else
      (case recent_marker now st of
         (Some _, st1) \<Rightarrow> (RefreshRefused, st1)
       | (None, st1) \<Rightarrow>
           if as_refreshing st1 \<noteq> None then (RefreshJoined, st1)
           else (let remaining = as_not_before st1 - now in
             if 0 < remaining
             then (RefreshRefused,
               if as_retry_timer st1 = None then st1\<lparr>as_retry_timer := Some (min remaining MAX_TIMER_DELAY_MS)\<rparr> else st1)
             else (RefreshStarted, st1\<lparr>as_refreshing := Some (as_last_event st1)\<rparr>))))"

datatype refresh_outcome = PeerOutcome auth_snapshot | ApiOutcome browser_token int

definition isNewUsablePeerSnapshot :: "int \<Rightarrow> auth_snapshot option \<Rightarrow> int \<Rightarrow> bool" where
  "isNewUsablePeerSnapshot now snapshot baselineEventAt =
     (case snapshot of
        None \<Rightarrow> False
      | Some s \<Rightarrow> baselineEventAt < sn_issued_at s \<and> isSnapshotUsable s now MIN_PEER_TOKEN_VALIDITY_MS)"

text \<open>
  The operation that \<open>coordinatedBrowserRefresh\<close> runs under the lock, from its three answers: the cached
  snapshot at \<open>t1\<close>, the requested one at \<open>t2\<close> and the API's answer at \<open>t3\<close>. The second component is whether
  the API was called.
\<close>

definition coordinatedBrowserRefresh ::
  "int \<Rightarrow> int \<times> auth_snapshot option \<Rightarrow> int \<times> auth_snapshot option \<Rightarrow> int \<times> (exn + browser_token)
     \<Rightarrow> (exn + refresh_outcome) \<times> bool" where
  "coordinatedBrowserRefresh baseline cached requested api =
     (case cached of (t1, c) \<Rightarrow> if isNewUsablePeerSnapshot t1 c baseline then (Inr (PeerOutcome (the c)), False) else
     (case requested of (t2, r) \<Rightarrow> if isNewUsablePeerSnapshot t2 r baseline then (Inr (PeerOutcome (the r)), False) else
     (case api of (t3, a) \<Rightarrow> (bindE a (\<lambda>response. Inr (ApiOutcome response t3)), True))))"

text \<open>What \<open>refreshSession\<close> does when the coordinated refresh has settled.\<close>

definition refresh_failed :: "int \<Rightarrow> int \<Rightarrow> exn \<Rightarrow> auth_state \<Rightarrow> bool \<times> auth_state" where
  "refresh_failed now baseline error st =
     (if isNewUsablePeerSnapshot now (as_latest_peer st) baseline
      then applyPeerSnapshot now (the (as_latest_peer st)) st
      else (False,
        case error of
          ApiExn e \<Rightarrow>
            if err_kind e = Forbidden then clearSessionInternal ''revoked'' True now st
            else if err_kind e = Unauthorized then clearSessionInternal ''expired'' True now st
            else if err_kind e = Aborted then st
            else scheduleRetry now error st
        | JsExn _ \<Rightarrow> scheduleRetry now error st))"

definition refresh_settled :: "int \<Rightarrow> exn + refresh_outcome \<Rightarrow> auth_state \<Rightarrow> bool \<times> auth_state" where
  "refresh_settled now outcome st =
     (let r = (case outcome of
                 Inr (PeerOutcome snapshot) \<Rightarrow> applyPeerSnapshot now snapshot st
               | Inr (ApiOutcome response issuedAt) \<Rightarrow>
                   applyTokenResponse now response (current_email st) ''refresh'' issuedAt False False st
               | Inl error \<Rightarrow>
                   refresh_failed now (case as_refreshing st of Some b \<Rightarrow> b | None \<Rightarrow> 0) error st)
      in (fst r, (snd r)\<lparr>as_refreshing := None\<rparr>))"

definition login_begin :: "auth_state \<Rightarrow> auth_state" where
  "login_begin st = st\<lparr>as_intent := False, as_fallback := None\<rparr>"

definition login_done :: "int \<Rightarrow> browser_token \<Rightarrow> string \<Rightarrow> auth_state \<Rightarrow> auth_state" where
  "login_done now response name st =
     snd (applyTokenResponse now response (Some (normalizeEmail name)) ''login'' now True True st)"

definition logout :: "int \<Rightarrow> auth_state \<Rightarrow> auth_state" where
  "logout now st =
     (if as_logging_out st then st else
      (let fallback = (case (auth_of (as_session st), as_token st) of
                         (Some a, Some t) \<Rightarrow> if t = [] then as_fallback st else Some (a, t)
                       | _ \<Rightarrow> as_fallback st);
           st1 = st\<lparr>as_fallback := fallback, as_intent := True\<rparr>;
           st2 = commitSession (LoggingOut now (case fallback of None \<Rightarrow> None | Some (a, _) \<Rightarrow> au_email a))
                   (resolvePeerWaiters None (abortAuthorizedRequests (clearRetryTimer st1)))
       in st2\<lparr>as_cache_clears := Suc (as_cache_clears st2), as_logging_out := True\<rparr>))"

definition logout_done :: "int \<Rightarrow> auth_state \<Rightarrow> auth_state" where
  "logout_done now st = (clearSessionInternal ''logout'' True now st)\<lparr>as_logging_out := False\<rparr>"

definition logout_failed :: "int \<Rightarrow> exn \<Rightarrow> auth_state \<Rightarrow> auth_state" where
  "logout_failed now error st =
     (if as_session st = Anonymous ''logout'' then st
      else commitSession (LogoutFailed (apiErrorDisplayMessage error)
             (map_option (\<lambda>s. now + s * 1000) (retry_after_of error))
             (case as_fallback st of None \<Rightarrow> None | Some (a, _) \<Rightarrow> au_email a))
             (st\<lparr>as_intent := False\<rparr>))\<lparr>as_logging_out := False\<rparr>"

definition fallback_usable :: "int \<Rightarrow> authenticated \<Rightarrow> bool" where
  "fallback_usable now a = (now < au_session_expires a \<and> MIN_PEER_TOKEN_VALIDITY_MS < au_access_expires a - now)"

definition cancelLogout :: "int \<Rightarrow> auth_state \<Rightarrow> auth_state" where
  "cancelLogout now st =
     (case as_session st of
        LogoutFailed _ _ _ \<Rightarrow>
          (let st1 = st\<lparr>as_intent := False\<rparr>;
               restore = snd (refreshSession now (commitSession (Restoring now) (st1\<lparr>as_fallback := None\<rparr>))) in
           (case as_fallback st1 of
              Some (a, token) \<Rightarrow>
                if fallback_usable now a
                then commitSession (Authenticated (a\<lparr>au_refresh_state := ''ready'', au_refresh_message := None\<rparr>))
                       (st1\<lparr>as_token := Some token, as_fallback := None\<rparr>)
                else restore
            | None \<Rightarrow> restore))
      | _ \<Rightarrow> st)"

definition clearSession :: "int \<Rightarrow> string \<Rightarrow> auth_state \<Rightarrow> auth_state" where
  "clearSession now reason st = clearSessionInternal reason True now st"

text \<open>\<open>getAccessToken\<close>: a token at once (\<open>Inr\<close>), or the refresh it starts.\<close>

definition getAccessToken :: "int \<Rightarrow> int \<Rightarrow> auth_state \<Rightarrow> ((refresh_start option) + string) \<times> auth_state" where
  "getAccessToken now minimumValidityMs st =
     (if as_intent st then (Inl None, st) else
      (case (auth_of (as_session st), as_token st) of
         (Some a, Some token) \<Rightarrow>
           if token \<noteq> [] \<and> minimumValidityMs < au_access_expires a - now then (Inr token, st)
           else (let r = refreshSession now st in (Inl (Some (fst r)), snd r))
       | _ \<Rightarrow> (let r = refreshSession now st in (Inl (Some (fst r)), snd r))))"

definition getAccessToken_refreshed :: "bool \<Rightarrow> auth_state \<Rightarrow> string option" where
  "getAccessToken_refreshed refreshed st = (if refreshed \<and> \<not> as_intent st then as_token st else None)"

section \<open>The channel and the lifecycle\<close>

definition answer_request :: "int \<Rightarrow> string \<Rightarrow> auth_state \<Rightarrow> auth_state" where
  "answer_request now sourceTab st =
     (if as_intent st then st else
      (case recent_marker now st of
         (Some _, st1) \<Rightarrow> st1
       | (None, st1) \<Rightarrow>
           (case (auth_of (as_session st1), as_token st1) of
              (Some a, Some token) \<Rightarrow>
                if token \<noteq> [] \<and> MIN_PEER_TOKEN_VALIDITY_MS < au_access_expires a - now
                then postMessage (SessionSnapshot (snapshot_of st1 (Some sourceTab)
                       (if as_last_event st1 = 0 then now else as_last_event st1) a token)) st1
                else st1
            | _ \<Rightarrow> st1)))"

definition on_message :: "int \<Rightarrow> json \<Rightarrow> auth_state \<Rightarrow> auth_state" where
  "on_message now value st =
     (case parseAuthChannelMessage value now of
        None \<Rightarrow> st
      | Some (SessionRequest tab _) \<Rightarrow> if tab = as_tab st then st else answer_request now tab st
      | Some (SessionSnapshot s) \<Rightarrow>
          if sn_source_tab s = as_tab st then st
          else if sn_target_tab s \<noteq> None \<and> sn_target_tab s \<noteq> Some (as_tab st) then st
          else snd (applyPeerSnapshot now s (resolvePeerWaiters (Some s) (st\<lparr>as_latest_peer := Some s\<rparr>)))
      | Some (SessionCleared tab issuedAt reason) \<Rightarrow>
          if tab = as_tab st then st
          else if as_last_event st \<le> issuedAt then clearSessionInternal reason False issuedAt st
          else st)"

definition startup :: "int \<Rightarrow> nat \<Rightarrow> auth_state \<Rightarrow> auth_state" where
  "startup now waiter st =
     (case recent_marker now (st\<lparr>as_mounted := True\<rparr>) of
        (Some logoutAt, st1) \<Rightarrow> clearSessionInternal ''logout'' False logoutAt st1
      | (None, st1) \<Rightarrow> snd (requestPeerSnapshot now waiter st1))"

definition startup_peer :: "int \<Rightarrow> auth_snapshot option \<Rightarrow> auth_state \<Rightarrow> auth_state" where
  "startup_peer now peer st =
     (if \<not> as_mounted st then st else
      (case peer of
         None \<Rightarrow> snd (refreshSession now st)
       | Some s \<Rightarrow>
           (let r = applyPeerSnapshot now s st in if fst r then snd r else snd (refreshSession now (snd r)))))"

definition unmount :: "auth_state \<Rightarrow> auth_state" where
  "unmount st =
     abortAuthorizedRequests (clearRetryTimer (resolvePeerWaiters None (st\<lparr>as_mounted := False, as_channel := False\<rparr>)))"

definition retry_timer_fires :: "int \<Rightarrow> auth_state \<Rightarrow> auth_state" where
  "retry_timer_fires now st = snd (refreshSession now (st\<lparr>as_retry_timer := None\<rparr>))"

definition refreshWhenVisible :: "int \<Rightarrow> bool \<Rightarrow> auth_state \<Rightarrow> auth_state" where
  "refreshWhenVisible now visible st =
     (if \<not> visible \<or> as_intent st then st
      else (case auth_of (as_session st) of
              Some a \<Rightarrow> if au_access_expires a - now \<le> MIN_ACCESS_VALIDITY_MS then snd (refreshSession now st) else st
            | None \<Rightarrow> st))"

text \<open>The delay of the timer the effect on the rendered session sets; when it fires it refreshes.\<close>

definition session_timer :: "int \<Rightarrow> auth_state \<Rightarrow> int option" where
  "session_timer now st = map_option (\<lambda>a. refreshDelayMs (au_access_expires a) now) (auth_of (as_shown st))"

section \<open>Runs\<close>

datatype auth_event =
    EvStartup nat | EvStartupPeer "auth_snapshot option" | EvUnmount
  | EvMessage json | EvPeerTimeout nat
  | EvRefresh | EvRefreshCommit browser_token int | EvRefreshSettled "exn + refresh_outcome"
  | EvRetryTimer | EvVisible bool | EvAccessToken int | EvPeerRequest nat
  | EvLoginBegin | EvLoginDone browser_token string
  | EvLogout | EvLogoutDone | EvLogoutFailed exn | EvCancelLogout | EvClearSession string
  | EvRequestStart nat | EvRequestEnd nat
  | EvOtherTab stored

fun auth_step :: "int \<Rightarrow> auth_event \<Rightarrow> auth_state \<Rightarrow> auth_state" where
  "auth_step now (EvStartup waiter) st = startup now waiter st"
| "auth_step now (EvStartupPeer peer) st = startup_peer now peer st"
| "auth_step now EvUnmount st = unmount st"
| "auth_step now (EvMessage value) st = on_message now value st"
| "auth_step now (EvPeerTimeout waiter) st = peer_timeout waiter st"
| "auth_step now EvRefresh st = snd (refreshSession now st)"
| "auth_step now (EvRefreshCommit response issuedAt) st = commitApiRefresh now response issuedAt st"
| "auth_step now (EvRefreshSettled outcome) st = snd (refresh_settled now outcome st)"
| "auth_step now EvRetryTimer st = retry_timer_fires now st"
| "auth_step now (EvVisible visible) st = refreshWhenVisible now visible st"
| "auth_step now (EvAccessToken validity) st = snd (getAccessToken now validity st)"
| "auth_step now (EvPeerRequest waiter) st = snd (requestPeerSnapshot now waiter st)"
| "auth_step now EvLoginBegin st = login_begin st"
| "auth_step now (EvLoginDone response name) st = login_done now response name st"
| "auth_step now EvLogout st = logout now st"
| "auth_step now EvLogoutDone st = logout_done now st"
| "auth_step now (EvLogoutFailed error) st = logout_failed now error st"
| "auth_step now EvCancelLogout st = cancelLogout now st"
| "auth_step now (EvClearSession reason) st = clearSession now reason st"
| "auth_step now (EvRequestStart request) st = st\<lparr>as_requests := as_requests st @ [request]\<rparr>"
| "auth_step now (EvRequestEnd request) st = st\<lparr>as_requests := filter (\<lambda>r. r \<noteq> request) (as_requests st)\<rparr>"
| "auth_step now (EvOtherTab cell) st = st\<lparr>as_marker := cell\<rparr>"

text \<open>What the answers in an event are: tokens that passed \<open>parseBrowserTokenResponse\<close>, snapshots that passed
  \<open>parseAuthChannelMessage\<close>, the two reasons of \<open>SessionInvalidationReason\<close>.\<close>

fun event_ok :: "auth_event \<Rightarrow> bool" where
  "event_ok (EvStartupPeer (Some s)) = wf_snapshot s"
| "event_ok (EvRefreshCommit response _) = wf_token response"
| "event_ok (EvRefreshSettled (Inr (PeerOutcome s))) = wf_snapshot s"
| "event_ok (EvRefreshSettled (Inr (ApiOutcome response _))) = wf_token response"
| "event_ok (EvLoginDone response _) = wf_token response"
| "event_ok (EvClearSession reason) = (reason \<in> {''expired'', ''revoked''})"
| "event_ok _ = True"

definition auth_start :: "string \<Rightarrow> string \<Rightarrow> bool \<Rightarrow> bool \<Rightarrow> stored \<Rightarrow> int \<Rightarrow> auth_state" where
  "auth_start tab nonce storage channel cell now =
     \<lparr> as_tab = tab, as_storage = storage, as_nonce = nonce, as_marker = cell, as_mounted = False,
       as_channel = channel, as_session = Restoring now, as_shown = Restoring now, as_token = None,
       as_latest_peer = None, as_last_event = 0, as_refreshing = None, as_logging_out = False, as_intent = False,
       as_fallback = None, as_requests = [], as_aborted = [], as_waiters = [], as_resolved = [],
       as_retry_timer = None, as_retry_attempt = 0, as_not_before = 0, as_posted = [], as_cache_clears = 0 \<rparr>"

inductive auth_reachable :: "auth_state \<Rightarrow> bool" where
  start: "auth_reachable (auth_start tab nonce storage channel cell now)"
| step: "auth_reachable st \<Longrightarrow> event_ok ev \<Longrightarrow> auth_reachable (auth_step now ev st)"


section \<open>Requests with a token\<close>

definition noAccessTokenError :: "string \<Rightarrow> api_error" where
  "noAccessTokenError path =
     \<lparr> err_message = (uk ''Sesi$ ne vdalos@ pidtverdyty.''), err_kind = Unauthorized, err_status = Some 401,
       err_method = ''GET'', err_url = path, err_retry_after = None, err_request_id = None, err_details = JNull \<rparr>"

definition logoutCancelledRequestError :: "string \<Rightarrow> string \<Rightarrow> api_error" where
  "logoutCancelledRequestError path method =
     \<lparr> err_message = (uk ''Zapyt skasovano pid ^as zaverwenn@ sesi~.''), err_kind = Aborted, err_status = None,
       err_method = method, err_url = path, err_retry_after = None, err_request_id = None,
       err_details = JObj [(''reason'', JStr ''logout'')] \<rparr>"

text \<open>The answers \<open>authorizedApiRequest\<close> gets, in the order in which it asks: the two flags are whether its
  controller was aborted and whether a logout was requested at that moment.\<close>

record request_answers =
  ra_logout0 :: bool
  ra_token :: "string option"
  ra_flags1 :: "bool \<times> bool"
  ra_first :: "exn + json"
  ra_flags2 :: "bool \<times> bool"
  ra_refreshed :: bool
  ra_replacement :: "string option"
  ra_logout3 :: bool
  ra_second :: "exn + json"

definition is_unauthorized :: "exn \<Rightarrow> bool" where
  "is_unauthorized e = (case e of ApiExn err \<Rightarrow> err_kind err = Unauthorized | JsExn _ \<Rightarrow> False)"

definition no_token :: "string option \<Rightarrow> bool" where
  "no_token t = (t = None \<or> t = Some [])"

text \<open>The options the two calls are made with, and what the promise settles to.\<close>

definition authorizedApiRequest ::
  "request_options \<Rightarrow> bool option \<Rightarrow> request_answers \<Rightarrow> request_options list \<times> (exn + json)" where
  "authorizedApiRequest options retryOnUnauthorized ra =
     (let method = request_method options; path = ro_path options;
          cancelled = ApiExn (logoutCancelledRequestError path method) in
      if ra_logout0 ra then ([], Inl cancelled)
      else if fst (ra_flags1 ra) \<or> snd (ra_flags1 ra) then ([], Inl cancelled)
      else if no_token (ra_token ra) then ([], Inl (ApiExn (noAccessTokenError path)))
      else (let first = options\<lparr>ro_access_token := ra_token ra\<rparr> in
        case ra_first ra of
          Inr v \<Rightarrow> ([first], Inr v)
        | Inl error \<Rightarrow>
            (let mayRetry = (case retryOnUnauthorized of Some b \<Rightarrow> b | None \<Rightarrow> method = ''GET'') in
             if \<not> mayRetry \<or> \<not> is_unauthorized error \<or> fst (ra_flags2 ra) \<or> snd (ra_flags2 ra)
             then ([first], Inl error)
             else if \<not> ra_refreshed ra \<or> no_token (ra_replacement ra) \<or> ra_logout3 ra then ([first], Inl error)
             else ([first, options\<lparr>ro_access_token := ra_replacement ra\<rparr>], ra_second ra))))"

section \<open>What each callback changes\<close>

text \<open>The part of the state that says who is signed in. Most callbacks do not touch it.\<close>

definition core :: "auth_state \<Rightarrow> session \<times> string option \<times> (authenticated \<times> string) option \<times> bool \<times> int \<times> auth_snapshot option" where
  "core st = (as_session st, as_token st, as_fallback st, as_intent st, as_last_event st, as_latest_peer st)"

lemma recent_marker_form: "\<exists>m c. recent_marker now st = (m, st\<lparr>as_marker := c\<rparr>)"
  unfolding recent_marker_def Let_def by blast

lemma email_or_current_marker [simp]:
  "email_or_current e (st\<lparr>as_marker := c\<rparr>) = email_or_current e st"
  "email_or_current e (st\<lparr>as_marker := c, as_intent := i, as_fallback := f\<rparr>) = email_or_current e st"
  by (simp_all add: email_or_current_def split: option.split)

lemma recent_marker_core: "recent_marker now st = (m, st1) \<Longrightarrow> core st1 = core st"
  using recent_marker_form [of now st] by (auto simp: core_def)

lemma postMessage_core [simp]: "core (postMessage m st) = core st"
  by (simp add: postMessage_def core_def)

lemma resolvePeerWaiters_core [simp]: "core (resolvePeerWaiters s st) = core st"
  by (simp add: resolvePeerWaiters_def core_def)

lemma peer_timeout_core [simp]: "core (peer_timeout w st) = core st"
  by (simp add: peer_timeout_def core_def)

lemma publishSnapshot_core [simp]: "core (publishSnapshot now a st) = core st"
  by (auto simp: publishSnapshot_def recent_marker_core split: option.split prod.split)

lemma answer_request_core [simp]: "core (answer_request now tab st) = core st"
  by (auto simp: answer_request_def recent_marker_core split: option.split prod.split)

lemma requestPeerSnapshot_core [simp]: "core (snd (requestPeerSnapshot now w st)) = core st"
proof -
  obtain m c where r: "recent_marker now st = (m, st\<lparr>as_marker := c\<rparr>)" using recent_marker_form by blast
  show ?thesis by (cases m) (simp_all add: requestPeerSnapshot_def r core_def postMessage_def)
qed

lemma refreshSession_core [simp]: "core (snd (refreshSession now st)) = core st"
proof -
  obtain m c where r: "recent_marker now st = (m, st\<lparr>as_marker := c\<rparr>)" using recent_marker_form by blast
  show ?thesis by (cases m) (simp_all add: refreshSession_def r core_def Let_def)
qed

lemma getAccessToken_core [simp]: "core (snd (getAccessToken now v st)) = core st"
  by (auto simp: getAccessToken_def Let_def split: option.split)

lemma refreshWhenVisible_core [simp]: "core (refreshWhenVisible now v st) = core st"
  by (auto simp: refreshWhenVisible_def split: option.split)

lemma retry_timer_core [simp]: "core (retry_timer_fires now st) = core st"
  by (simp add: retry_timer_fires_def) (simp add: core_def)

lemma unmount_core [simp]: "core (unmount st) = core st"
  by (simp add: unmount_def abortAuthorizedRequests_def clearRetryTimer_def resolvePeerWaiters_def core_def)

lemma adopt_core: "core (adopt next token issuedAt st)
    = (Authenticated next, Some token, as_fallback st, as_intent st, issuedAt, as_latest_peer st)"
  by (simp add: adopt_def commitSession_def clearRetryTimer_def core_def)

lemma clearSessionInternal_core:
  "core (clearSessionInternal reason broadcast issuedAt st)
     = (if issuedAt < as_last_event st then core st else (Anonymous reason, None, None, False, issuedAt, None))"
  by (simp add: clearSessionInternal_def Let_def commitSession_def clearRetryTimer_def resolvePeerWaiters_def
      abortAuthorizedRequests_def postMessage_def core_def)

text \<open>A peer's snapshot, and a token response, are refused without effect, or adopted.\<close>

lemma applyPeerSnapshot_cases:
  obtains (refused) "fst (applyPeerSnapshot now s st) = False" "core (snd (applyPeerSnapshot now s st)) = core st"
  | (adopted) nxt where "fst (applyPeerSnapshot now s st) = True"
      "core (snd (applyPeerSnapshot now s st))
        = (Authenticated nxt, Some (sn_access_token s), as_fallback st, as_intent st, sn_issued_at s, Some s)"
      "\<not> as_intent st" "\<not> is_leaving (as_session st)" "as_last_event st \<le> sn_issued_at s"
      "isSnapshotUsable s now MIN_PEER_TOKEN_VALIDITY_MS" "fst (recent_marker now st) = None"
      "au_access_expires nxt = sn_access_expires_at s"
proof -
  obtain m c where r: "recent_marker now st = (m, st\<lparr>as_marker := c\<rparr>)" using recent_marker_form by blast
  let ?refused = "as_intent st \<or> m \<noteq> None \<or> is_leaving (as_session st)
      \<or> \<not> isSnapshotUsable s now MIN_PEER_TOKEN_VALIDITY_MS \<or> sn_issued_at s < as_last_event st"
  show thesis
  proof (cases ?refused)
    case True
    then show thesis by (intro refused) (cases m; auto simp: applyPeerSnapshot_def r core_def)+
  next
    case False
    then show thesis
      by (intro adopted [of "peer_session s (email_or_current (sn_email s) st)"])
        (simp_all add: applyPeerSnapshot_def r adopt_core not_less peer_session_def)
  qed
qed

lemma applyTokenResponse_cases:
  obtains (refused) "fst (applyTokenResponse now t e src i b f st) = False" "\<not> f"
      "core (snd (applyTokenResponse now t e src i b f st)) = core st"
  | (adopted) nxt where "fst (applyTokenResponse now t e src i b f st) = True"
      "core (snd (applyTokenResponse now t e src i b f st))
        = (Authenticated nxt, Some (bt_access_token t), if f then None else as_fallback st,
           if f then False else as_intent st, i, as_latest_peer st)"
      "\<not> f \<Longrightarrow> \<not> as_intent st \<and> \<not> is_leaving (as_session st) \<and> as_last_event st \<le> i
         \<and> fst (recent_marker now st) = None"
      "au_access_expires nxt = now + bt_expires_in t * 1000"
proof -
  obtain m c where r: "recent_marker now st = (m, st\<lparr>as_marker := c\<rparr>)" using recent_marker_form by blast
  let ?refused = "\<not> f \<and> (as_intent st \<or> m \<noteq> None \<or> is_leaving (as_session st) \<or> i < as_last_event st)"
  show thesis
  proof (cases ?refused)
    case True
    then show thesis by (intro refused) (cases m; auto simp: applyTokenResponse_def Let_def r core_def)+
  next
    case False
    then show thesis
      by (intro adopted [of "response_session now t (email_or_current e st) src"])
        (auto simp: applyTokenResponse_def Let_def r adopt_core not_less response_session_def)
  qed
qed

lemma scheduleRetry_core:
  "\<exists>s. core (scheduleRetry now e st)
      = (s, as_token st, as_fallback st, as_intent st, as_last_event st, as_latest_peer st)
    \<and> (s = as_session st \<or> (\<exists>m a. s = Unavailable m a)
       \<or> (\<exists>a b. as_session st = Authenticated a \<and> s = Authenticated b \<and> au_access_expires b = au_access_expires a))"
proof (cases "as_session st")
  case (Authenticated a)
  then show ?thesis
    by (simp add: scheduleRetry_def Let_def clearRetryTimer_def commitSession_def core_def)
qed (auto simp: scheduleRetry_def Let_def clearRetryTimer_def commitSession_def core_def)


section \<open>The invariant\<close>

fun core_inv :: "session \<times> string option \<times> (authenticated \<times> string) option \<times> bool \<times> int \<times> auth_snapshot option \<Rightarrow> bool" where
  "core_inv (s, token, fallback, intent, last_event, peer) \<longleftrightarrow>
     (auth_of s \<noteq> None \<longrightarrow> token \<noteq> None) \<and> token \<noteq> Some []
     \<and> ((\<exists>r. s = Anonymous r) \<longrightarrow> token = None \<and> fallback = None)
     \<and> (\<forall>a t. fallback = Some (a, t) \<longrightarrow> t \<noteq> [])
     \<and> (intent \<longrightarrow> (\<exists>n e. s = LoggingOut n e))
     \<and> (\<forall>p. peer = Some p \<longrightarrow> sn_access_token p \<noteq> [])"

definition session_inv :: "auth_state \<Rightarrow> bool" where
  "session_inv st = core_inv (core st)"

lemma wf_snapshot_token: "wf_snapshot s \<Longrightarrow> sn_access_token s \<noteq> []"
  by (simp add: wf_snapshot_def clean_def)

lemma session_inv_core: "session_inv st \<Longrightarrow> core st' = core st \<Longrightarrow> session_inv st'"
  by (simp add: session_inv_def)

lemma session_inv_peer:
  assumes "session_inv st" "sn_access_token s \<noteq> []"
  shows "session_inv (snd (applyPeerSnapshot now s st))"
  by (cases rule: applyPeerSnapshot_cases [of now s st])
    (use assms in \<open>auto simp: session_inv_def core_def [of st]\<close>)

lemma session_inv_token:
  assumes "session_inv st" "wf_token t"
  shows "session_inv (snd (applyTokenResponse now t e src i b f st))"
  by (cases rule: applyTokenResponse_cases [of now t e src i b f st])
    (use assms token_nonempty [OF assms(2)] in \<open>auto simp: session_inv_def core_def [of st]\<close>)

lemma session_inv_clear:
  assumes "session_inv st"
  shows "session_inv (clearSessionInternal r b i st)"
  using assms by (auto simp: session_inv_def clearSessionInternal_core)

lemma session_inv_retry:
  assumes "session_inv st"
  shows "session_inv (scheduleRetry now e st)"
proof (cases "as_intent st")
  case True
  with assms show ?thesis by (simp add: scheduleRetry_def)
next
  case False
  then show ?thesis
    using assms scheduleRetry_core [of now e st] by (auto simp: session_inv_def core_def [of st])
qed

lemma session_inv_refresh_failed:
  assumes "session_inv st"
  shows "session_inv (snd (refresh_failed now baseline e st))"
proof (cases "isNewUsablePeerSnapshot now (as_latest_peer st) baseline")
  case True
  then obtain p where p: "as_latest_peer st = Some p" by (auto simp: isNewUsablePeerSnapshot_def split: option.splits)
  with assms have "sn_access_token p \<noteq> []" by (simp add: session_inv_def core_def)
  with assms p True session_inv_peer show ?thesis by (simp add: refresh_failed_def)
next
  case False
  with assms show ?thesis
    by (auto simp: refresh_failed_def session_inv_clear session_inv_retry split: exn.split)
qed

lemma core_refreshing [simp]: "core (st\<lparr>as_refreshing := r\<rparr>) = core st"
  by (simp add: core_def)

lemma core_marker [simp]: "core (st\<lparr>as_marker := r\<rparr>) = core st"
  by (simp add: core_def)

lemma core_mounted [simp]: "core (st\<lparr>as_mounted := r\<rparr>) = core st"
  by (simp add: core_def)

lemma core_requests [simp]: "core (st\<lparr>as_requests := r\<rparr>) = core st"
  by (simp add: core_def)

lemma core_logging_out [simp]: "core (st\<lparr>as_logging_out := r\<rparr>) = core st"
  by (simp add: core_def)

lemma session_inv_latest:
  "session_inv st \<Longrightarrow> sn_access_token s \<noteq> [] \<Longrightarrow> session_inv (resolvePeerWaiters w (st\<lparr>as_latest_peer := Some s\<rparr>))"
  by (simp add: session_inv_def) (simp add: core_def)

lemma session_inv_message:
  assumes "session_inv st"
  shows "session_inv (on_message now v st)"
proof (cases "parseAuthChannelMessage v now")
  case None
  with assms show ?thesis by (simp add: on_message_def)
next
  case (Some m)
  then have w: "wf_message m" using parseAuthChannelMessage_wf by blast
  show ?thesis
  proof (cases m)
    case (SessionRequest tab issued)
    with assms Some session_inv_core [OF assms answer_request_core] show ?thesis by (simp add: on_message_def)
  next
    case (SessionSnapshot s)
    with w have t: "sn_access_token s \<noteq> []" by (simp add: wf_snapshot_token)
    from session_inv_peer [OF session_inv_latest [OF assms t] t] show ?thesis
      using assms Some SessionSnapshot by (simp add: on_message_def)
  next
    case (SessionCleared tab issued reason)
    with assms Some show ?thesis by (simp add: on_message_def session_inv_clear)
  qed
qed

lemma session_inv_startup: "session_inv st \<Longrightarrow> session_inv (startup now w st)"
proof -
  assume i: "session_inv st"
  obtain m c where r: "recent_marker now (st\<lparr>as_mounted := True\<rparr>) = (m, st\<lparr>as_mounted := True, as_marker := c\<rparr>)"
    using recent_marker_form [of now "st\<lparr>as_mounted := True\<rparr>"] by auto
  have "session_inv (st\<lparr>as_mounted := True, as_marker := c\<rparr>)" using i by (simp add: session_inv_def core_def)
  then show ?thesis
    by (cases m) (simp_all add: startup_def r session_inv_clear session_inv_core [OF _ requestPeerSnapshot_core])
qed

lemma session_inv_startup_peer:
  assumes "session_inv st" "\<And>s. p = Some s \<Longrightarrow> wf_snapshot s"
  shows "session_inv (startup_peer now p st)"
proof (cases p)
  case None
  with assms show ?thesis by (simp add: startup_peer_def session_inv_core [OF _ refreshSession_core])
next
  case (Some s)
  then have "session_inv (snd (applyPeerSnapshot now s st))"
    using assms by (intro session_inv_peer) (simp_all add: wf_snapshot_token)
  with assms(1) Some show ?thesis by (simp add: startup_peer_def Let_def session_inv_core [OF _ refreshSession_core])
qed

lemma session_inv_logout: "session_inv st \<Longrightarrow> session_inv (logout now st)"
  by (auto simp: logout_def Let_def session_inv_def core_def commitSession_def resolvePeerWaiters_def
      abortAuthorizedRequests_def clearRetryTimer_def split: option.splits)

lemma session_inv_logout_failed: "session_inv st \<Longrightarrow> session_inv (logout_failed now e st)"
  by (auto simp: logout_failed_def session_inv_def core_def commitSession_def)

lemma session_inv_cancelLogout: "session_inv st \<Longrightarrow> session_inv (cancelLogout now st)"
proof (cases "as_session st")
  case (LogoutFailed m r e)
  assume i: "session_inv st"
  let ?st1 = "st\<lparr>as_intent := False\<rparr>"
  have "core (snd (refreshSession now (commitSession (Restoring now) (?st1\<lparr>as_fallback := None\<rparr>))))
      = (Restoring now, as_token st, None, False, as_last_event st, as_latest_peer st)"
    by (simp add: commitSession_def) (simp add: core_def)
  with i have restore: "session_inv (snd (refreshSession now (commitSession (Restoring now) (?st1\<lparr>as_fallback := None\<rparr>))))"
    by (simp add: session_inv_def core_def [of st])
  have "session_inv (commitSession (Authenticated a) (?st1\<lparr>as_token := Some t, as_fallback := None\<rparr>))"
    if "as_fallback st = Some (b, t)" for a b t
    using i that by (simp add: session_inv_def core_def commitSession_def)
  with restore LogoutFailed show ?thesis
    by (auto simp: cancelLogout_def Let_def split: option.split)
qed (simp_all add: cancelLogout_def)

lemma session_inv_settled:
  assumes "session_inv st" "event_ok (EvRefreshSettled o')"
  shows "session_inv (snd (refresh_settled now o' st))"
proof (cases o')
  case (Inl e)
  with assms(1) show ?thesis
    by (simp add: refresh_settled_def Let_def session_inv_core [OF session_inv_refresh_failed core_refreshing])
next
  case (Inr r)
  then show ?thesis
    using assms by (cases r) (simp_all add: refresh_settled_def Let_def session_inv_core [OF session_inv_peer core_refreshing]
        session_inv_core [OF session_inv_token core_refreshing] wf_snapshot_token)
qed

lemma session_inv_step:
  assumes "session_inv st" "event_ok ev"
  shows "session_inv (auth_step now ev st)"
proof (cases ev)
  case (EvStartupPeer p)
  with assms show ?thesis by (cases p) (auto intro: session_inv_startup_peer)
next
  case EvLoginBegin
  with assms show ?thesis by (simp add: login_begin_def session_inv_def core_def)
next
  case EvLogoutDone
  with session_inv_clear [OF assms(1)] show ?thesis by (simp add: logout_done_def session_inv_def)
qed (use assms in \<open>simp_all add: session_inv_startup session_inv_message session_inv_token session_inv_clear
    session_inv_logout session_inv_logout_failed session_inv_cancelLogout session_inv_settled
    commitApiRefresh_def login_done_def clearSession_def session_inv_core [OF assms(1)]\<close>)

lemma auth_reachable_inv: "auth_reachable st \<Longrightarrow> session_inv st"
  by (induction rule: auth_reachable.induct)
    (simp_all add: session_inv_step, simp add: session_inv_def core_def auth_start_def)


section \<open>Time never runs back, and a logout is not undone\<close>

text \<open>How the session may change in the background: not at all for who is signed in and with which token, up to
  the display state of the refresh.\<close>

definition same_sign_in :: "auth_state \<Rightarrow> auth_state \<Rightarrow> bool" where
  "same_sign_in st st' \<longleftrightarrow>
     (\<forall>a. as_session st' = Authenticated a \<longrightarrow>
        (\<exists>b. as_session st = Authenticated b \<and> as_token st' = as_token st \<and> au_access_expires a = au_access_expires b))"

definition barred :: "int \<Rightarrow> auth_state \<Rightarrow> bool" where
  "barred now st \<longleftrightarrow> as_intent st \<or> is_leaving (as_session st) \<or> fst (recent_marker now st) \<noteq> None"

lemma same_sign_in_core: "core st' = core st \<Longrightarrow> same_sign_in st st'"
  by (simp add: same_sign_in_def core_def)

lemma core_fields: "core st = (s, t, f, i, l, p) \<longleftrightarrow> as_session st = s \<and> as_token st = t \<and> as_fallback st = f
    \<and> as_intent st = i \<and> as_last_event st = l \<and> as_latest_peer st = p"
  by (auto simp: core_def)

lemma same_sign_in_not_auth: "auth_of (as_session st') = None \<Longrightarrow> same_sign_in st st'"
  by (cases "as_session st'") (auto simp: same_sign_in_def)

lemma same_sign_in_peer: "barred now st \<Longrightarrow> same_sign_in st (snd (applyPeerSnapshot now s st))"
  by (cases rule: applyPeerSnapshot_cases [of now s st]) (auto simp: barred_def intro: same_sign_in_core)

lemma same_sign_in_token: "barred now st \<Longrightarrow> same_sign_in st (snd (applyTokenResponse now t e src i b False st))"
  by (cases rule: applyTokenResponse_cases [of now t e src i b False st]) (auto simp: barred_def intro: same_sign_in_core)

lemma same_sign_in_clear: "same_sign_in st (clearSessionInternal r b i st)"
proof (cases "i < as_last_event st")
  case True
  then show ?thesis by (intro same_sign_in_core) (simp add: clearSessionInternal_core)
next
  case False
  then have "as_session (clearSessionInternal r b i st) = Anonymous r"
    using clearSessionInternal_core [of r b i st] by (simp add: core_def)
  then show ?thesis by (intro same_sign_in_not_auth) simp
qed

lemma same_sign_in_retry: "same_sign_in st (scheduleRetry now e st)"
  using scheduleRetry_core [of now e st] by (auto simp: same_sign_in_def core_fields)

lemma same_sign_in_refresh_failed: "barred now st \<Longrightarrow> same_sign_in st (snd (refresh_failed now baseline e st))"
  by (auto simp: refresh_failed_def same_sign_in_peer same_sign_in_clear same_sign_in_retry same_sign_in_core
      split: exn.split)

lemma same_sign_in_later: "same_sign_in st st1 \<Longrightarrow> core st2 = core st1 \<Longrightarrow> same_sign_in st st2"
  by (simp add: same_sign_in_def core_def)

lemma barred_peer_update [simp]:
  "barred now (resolvePeerWaiters w (st\<lparr>as_latest_peer := p\<rparr>)) = barred now st"
  by (simp add: barred_def recent_marker_def resolvePeerWaiters_def Let_def)

lemma same_sign_in_message: "barred now st \<Longrightarrow> same_sign_in st (on_message now v st)"
proof (cases "parseAuthChannelMessage v now")
  case (Some m)
  assume b: "barred now st"
  have "same_sign_in st (snd (applyPeerSnapshot now s (resolvePeerWaiters w (st\<lparr>as_latest_peer := p\<rparr>))))" for s w p
  proof -
    let ?u = "resolvePeerWaiters w (st\<lparr>as_latest_peer := p\<rparr>)"
    have "same_sign_in ?u (snd (applyPeerSnapshot now s ?u))" by (rule same_sign_in_peer) (simp add: b)
    moreover have "as_session ?u = as_session st" "as_token ?u = as_token st" by (simp_all add: resolvePeerWaiters_def)
    ultimately show ?thesis by (simp only: same_sign_in_def)
  qed
  then show ?thesis
    using Some by (cases m) (simp_all add: on_message_def same_sign_in_core same_sign_in_clear)
qed (simp add: on_message_def same_sign_in_core)

lemma same_sign_in_startup: "same_sign_in st (startup now w st)"
proof -
  obtain m c where r: "recent_marker now (st\<lparr>as_mounted := True\<rparr>) = (m, st\<lparr>as_mounted := True, as_marker := c\<rparr>)"
    using recent_marker_form [of now "st\<lparr>as_mounted := True\<rparr>"] by auto
  have c: "core (st\<lparr>as_mounted := True, as_marker := c\<rparr>) = core st" by (simp add: core_def)
  show ?thesis
  proof (cases m)
    case None
    with c show ?thesis by (intro same_sign_in_core) (simp add: startup_def r)
  next
    case (Some t)
    with same_sign_in_clear [of "st\<lparr>as_mounted := True, as_marker := c\<rparr>" "''logout''" False t] show ?thesis
      by (simp add: startup_def r same_sign_in_def)
  qed
qed

lemma same_sign_in_logout: "same_sign_in st (logout now st)"
proof (cases "as_logging_out st")
  case True
  then show ?thesis by (simp add: logout_def same_sign_in_core)
next
  case False
  then show ?thesis
    by (intro same_sign_in_not_auth) (simp add: logout_def Let_def commitSession_def)
qed

lemma same_sign_in_step:
  assumes b: "barred now st" and ev: "\<forall>t n. ev \<noteq> EvLoginDone t n" "ev \<noteq> EvCancelLogout"
  shows "same_sign_in st (auth_step now ev st)"
proof (cases ev)
  case (EvStartupPeer p)
  show ?thesis
  proof (cases p)
    case None
    with EvStartupPeer show ?thesis by (auto simp: startup_peer_def intro!: same_sign_in_core)
  next
    case (Some s)
    have "same_sign_in st (snd (refreshSession now (snd (applyPeerSnapshot now s st))))"
      by (rule same_sign_in_later [OF same_sign_in_peer [OF b]]) simp
    with EvStartupPeer Some same_sign_in_peer [OF b, of s] show ?thesis
      by (simp add: startup_peer_def Let_def same_sign_in_core)
  qed
next
  case (EvRefreshSettled o')
  have "same_sign_in st (snd (case o' of
                 Inr (PeerOutcome snapshot) \<Rightarrow> applyPeerSnapshot now snapshot st
               | Inr (ApiOutcome response issuedAt) \<Rightarrow>
                   applyTokenResponse now response (current_email st) ''refresh'' issuedAt False False st
               | Inl error \<Rightarrow>
                   refresh_failed now (case as_refreshing st of Some b \<Rightarrow> b | None \<Rightarrow> 0) error st))"
    using b by (auto simp: same_sign_in_peer same_sign_in_token same_sign_in_refresh_failed
        split: sum.split refresh_outcome.split)
  with EvRefreshSettled show ?thesis
    by (auto simp: refresh_settled_def Let_def intro: same_sign_in_later)
next
  case EvLogoutDone
  then show ?thesis using same_sign_in_later [OF same_sign_in_clear core_logging_out] by (simp add: logout_done_def)
next
  case (EvLogoutFailed e)
  then show ?thesis
    by (auto simp: logout_failed_def commitSession_def same_sign_in_def)
next
  case EvLoginBegin
  then show ?thesis by (simp add: login_begin_def same_sign_in_def)
qed (use assms in \<open>simp_all add: same_sign_in_startup same_sign_in_core same_sign_in_message same_sign_in_clear
    same_sign_in_token same_sign_in_logout commitApiRefresh_def clearSession_def\<close>)

lemma last_event_clear: "as_last_event st \<le> as_last_event (clearSessionInternal r b i st)"
  using clearSessionInternal_core [of r b i st] by (auto simp: core_def split: if_splits)

lemma last_event_peer: "as_last_event st \<le> as_last_event (snd (applyPeerSnapshot now s st))"
  by (cases rule: applyPeerSnapshot_cases [of now s st]) (auto simp: core_def)

lemma last_event_token: "as_last_event st \<le> as_last_event (snd (applyTokenResponse now t e src i b False st))"
  by (cases rule: applyTokenResponse_cases [of now t e src i b False st]) (auto simp: core_def)

lemma last_event_core: "core st' = core st \<Longrightarrow> as_last_event st' = as_last_event st"
  by (simp add: core_def)

lemma last_event_retry: "as_last_event (scheduleRetry now e st) = as_last_event st"
  using scheduleRetry_core [of now e st] by (auto simp: core_fields)

lemma last_event_refresh_failed: "as_last_event st \<le> as_last_event (snd (refresh_failed now baseline e st))"
  by (auto simp: refresh_failed_def last_event_peer last_event_clear last_event_retry split: exn.split)

lemma last_event_message: "as_last_event st \<le> as_last_event (on_message now v st)"
proof (cases "parseAuthChannelMessage v now")
  case (Some m)
  have "as_last_event st \<le> as_last_event (snd (applyPeerSnapshot now s (resolvePeerWaiters w (st\<lparr>as_latest_peer := p\<rparr>))))" for s w p
  proof -
    let ?u = "resolvePeerWaiters w (st\<lparr>as_latest_peer := p\<rparr>)"
    have "as_last_event ?u = as_last_event st" by (simp add: resolvePeerWaiters_def)
    with last_event_peer [of ?u now s] show ?thesis by linarith
  qed
  then show ?thesis
    using Some by (cases m) (simp_all add: on_message_def last_event_clear last_event_core [OF answer_request_core])
qed (simp add: on_message_def)

lemma stale_message:
  assumes "parseAuthChannelMessage v now = Some m" "message_issued_at m < as_last_event st"
  shows "as_session (on_message now v st) = as_session st \<and> as_token (on_message now v st) = as_token st
    \<and> as_last_event (on_message now v st) = as_last_event st"
proof (cases m)
  case (SessionRequest tab issued)
  have "core (on_message now v st) = core st" using assms SessionRequest by (simp add: on_message_def)
  then show ?thesis by (simp add: core_def)
next
  case (SessionSnapshot s)
  let ?st = "resolvePeerWaiters (Some s) (st\<lparr>as_latest_peer := Some s\<rparr>)"
  have l: "as_last_event ?st = as_last_event st" "as_session ?st = as_session st" "as_token ?st = as_token st"
    by (simp_all add: resolvePeerWaiters_def)
  have "sn_issued_at s < as_last_event ?st" using assms(2) SessionSnapshot l(1) by simp
  then have "core (snd (applyPeerSnapshot now s ?st)) = core ?st"
    by (cases rule: applyPeerSnapshot_cases [of now s ?st]) simp_all
  then have "as_session (snd (applyPeerSnapshot now s ?st)) = as_session st
    \<and> as_token (snd (applyPeerSnapshot now s ?st)) = as_token st
    \<and> as_last_event (snd (applyPeerSnapshot now s ?st)) = as_last_event st"
    unfolding core_def l by blast
  with assms SessionSnapshot show ?thesis by (simp add: on_message_def)
next
  case (SessionCleared tab issued reason)
  with assms show ?thesis by (simp add: on_message_def)
qed


lemma last_event_startup: "as_last_event st \<le> as_last_event (startup now w st)"
proof -
  obtain m c where r: "recent_marker now (st\<lparr>as_mounted := True\<rparr>) = (m, st\<lparr>as_mounted := True, as_marker := c\<rparr>)"
    using recent_marker_form [of now "st\<lparr>as_mounted := True\<rparr>"] by auto
  let ?u = "st\<lparr>as_mounted := True, as_marker := c\<rparr>"
  have u: "as_last_event ?u = as_last_event st" by simp
  show ?thesis
  proof (cases m)
    case None
    have "as_last_event (snd (requestPeerSnapshot now w ?u)) = as_last_event ?u"
      by (rule last_event_core) simp
    with None show ?thesis by (simp add: startup_def r)
  next
    case (Some t)
    with last_event_clear [of ?u "''logout''" False t] show ?thesis by (simp add: startup_def r)
  qed
qed

lemma last_event_settled: "as_last_event st \<le> as_last_event (snd (refresh_settled now o' st))"
proof -
  have "as_last_event st \<le> as_last_event (snd (case o' of
                 Inr (PeerOutcome snapshot) \<Rightarrow> applyPeerSnapshot now snapshot st
               | Inr (ApiOutcome response issuedAt) \<Rightarrow>
                   applyTokenResponse now response (current_email st) ''refresh'' issuedAt False False st
               | Inl error \<Rightarrow>
                   refresh_failed now (case as_refreshing st of Some b \<Rightarrow> b | None \<Rightarrow> 0) error st))"
    by (auto simp: last_event_peer last_event_token last_event_refresh_failed split: sum.split refresh_outcome.split)
  then show ?thesis by (simp add: refresh_settled_def Let_def)
qed

lemmas last_event_same = last_event_core [OF refreshSession_core] last_event_core [OF requestPeerSnapshot_core]
  last_event_core [OF getAccessToken_core] last_event_core [OF refreshWhenVisible_core]
  last_event_core [OF retry_timer_core] last_event_core [OF unmount_core] last_event_core [OF peer_timeout_core]

lemma last_event_startup_peer: "as_last_event st \<le> as_last_event (startup_peer now p st)"
proof (cases p)
  case (Some s)
  then show ?thesis using last_event_peer [of st now s]
    by (simp add: startup_peer_def Let_def last_event_same)
qed (simp add: startup_peer_def last_event_same)

lemma last_event_cancel: "as_last_event st \<le> as_last_event (cancelLogout now st)"
proof -
  have "as_last_event (snd (refreshSession now (commitSession (Restoring now)
      (st\<lparr>as_intent := False, as_fallback := None\<rparr>)))) = as_last_event st"
    by (simp add: last_event_same commitSession_def)
  then show ?thesis
    by (auto simp: cancelLogout_def Let_def commitSession_def split: session.split option.split)
qed

lemma last_event_step:
  assumes "\<forall>t n. ev \<noteq> EvLoginDone t n"
  shows "as_last_event st \<le> as_last_event (auth_step now ev st)"
  using assms
  by (cases ev) (simp_all add: last_event_startup last_event_startup_peer last_event_same last_event_message
      commitApiRefresh_def last_event_token last_event_settled login_begin_def logout_def Let_def commitSession_def
      resolvePeerWaiters_def abortAuthorizedRequests_def clearRetryTimer_def logout_done_def last_event_clear
      logout_failed_def last_event_cancel clearSession_def)

section \<open>Logout\<close>

lemma logout_done_effect:
  assumes "as_last_event st \<le> now" "as_channel st"
  shows "core (logout_done now st) = (Anonymous ''logout'', None, None, False, now, None)
    \<and> as_requests (logout_done now st) = [] \<and> as_waiters (logout_done now st) = []
    \<and> set (as_requests st) \<subseteq> set (as_aborted (logout_done now st))
    \<and> as_cache_clears (logout_done now st) = Suc (as_cache_clears st)
    \<and> as_marker (logout_done now st) = recordLogoutMarker (as_storage st) (as_nonce st) now (as_marker st)
    \<and> as_posted (logout_done now st) = as_posted st @ [SessionCleared (as_tab st) now ''logout'']"
  using assms by (simp add: logout_done_def clearSessionInternal_def Let_def commitSession_def clearRetryTimer_def
      resolvePeerWaiters_def abortAuthorizedRequests_def postMessage_def core_def)

lemma on_cleared:
  assumes "clean 128 tab" "safe_int issued" "reason \<in> set cleared_reasons" "issued \<le> now + MAX_FUTURE_CLOCK_SKEW_MS"
    and "tab \<noteq> as_tab st" "as_last_event st \<le> issued"
  shows "core (on_message now (encode_message (SessionCleared tab issued reason)) st)
      = (Anonymous reason, None, None, False, issued, None)"
proof -
  have "parseAuthChannelMessage (encode_message (SessionCleared tab issued reason)) now = Some (SessionCleared tab issued reason)"
    by (rule parse_encode_message) (use assms in simp_all)
  with assms show ?thesis by (simp add: on_message_def clearSessionInternal_core)
qed

text \<open>
  A tab adopts a snapshot issued up to a minute ahead of its clock, and its last event is then in the future. A
  logout that the server confirms before the clock has caught up is dropped: the session stays in
  \<open>LoggingOut\<close> with its token, no marker is recorded, nothing is posted and no cache is cleared, while the
  promise of \<open>logout\<close> resolves to true.
\<close>

lemma logout_lost_when_clock_behind:
  assumes "fst (applyPeerSnapshot now s st)" and "later < sn_issued_at s" and "\<not> as_logging_out st"
  defines "st1 \<equiv> logout now (snd (applyPeerSnapshot now s st))"
  shows "is_leaving (as_session (logout_done later st1)) \<and> as_token (logout_done later st1) = Some (sn_access_token s)
    \<and> as_posted (logout_done later st1) = as_posted st1 \<and> as_marker (logout_done later st1) = as_marker st1"
proof -
  let ?u = "snd (applyPeerSnapshot now s st)"
  have u: "as_last_event ?u = sn_issued_at s" "as_token ?u = Some (sn_access_token s)"
    using assms(1) by (cases rule: applyPeerSnapshot_cases [of now s st]; simp add: core_fields)+
  obtain m c where r: "recent_marker now st = (m, st\<lparr>as_marker := c\<rparr>)" using recent_marker_form by blast
  have nl: "\<not> as_logging_out ?u"
    using assms(1,3) by (cases m) (auto simp: applyPeerSnapshot_def r adopt_def commitSession_def clearRetryTimer_def)
  have "as_last_event st1 = sn_issued_at s" "as_token st1 = Some (sn_access_token s)" "is_leaving (as_session st1)"
    unfolding st1_def using u nl
    by (simp_all add: logout_def Let_def commitSession_def resolvePeerWaiters_def abortAuthorizedRequests_def
        clearRetryTimer_def is_leaving_def)
  with assms(2) show ?thesis by (simp add: logout_done_def clearSessionInternal_def)
qed

section \<open>The refresh\<close>

lemma coordinated_refresh_peer:
  assumes "coordinatedBrowserRefresh baseline (t1, c) (t2, r) (t3, a) = (outcome, called)"
  shows "(called \<longleftrightarrow> \<not> isNewUsablePeerSnapshot t1 c baseline \<and> \<not> isNewUsablePeerSnapshot t2 r baseline)
    \<and> (\<forall>s. outcome = Inr (PeerOutcome s) \<longrightarrow> baseline < sn_issued_at s)
    \<and> (\<forall>t i. outcome = Inr (ApiOutcome t i) \<longrightarrow> called \<and> a = Inr t \<and> i = t3)"
  using assms by (auto simp: coordinatedBrowserRefresh_def ok_iff isNewUsablePeerSnapshot_def split: if_splits option.splits)

section \<open>Properties\<close>

text \<open>C1: In every run of a tab the session, the token and the logout intent agree: a signed-in tab has a
  non-empty token, an anonymous tab has neither a token nor a way back, and a logout that was asked for shows
  as such.\<close>

theorem session_consistent:
  assumes "auth_reachable st"
  shows "core_inv (core st)"
  using auth_reachable_inv [OF assms] by (simp add: session_inv_def)

definition sample_token :: browser_token where
  "sample_token = \<lparr> bt_access_token = replicate 20 (CHR ''t''), bt_expires_in = 900, bt_session_expires_in = 86400,
     bt_onboarding_path = None \<rparr>"

definition sample_start :: auth_state where
  "sample_start = auth_start ''a'' ''n'' True True NoText 1000"

definition sample_signed_in :: auth_state where
  "sample_signed_in = auth_step 1000 (EvLoginDone sample_token ''me'') sample_start"

lemma sample_token_wf: "wf_token sample_token"
  by (simp add: wf_token_def sample_token_def js_length_def code_unit_width_def sum_list_replicate)

lemma sample_signed_in_reachable: "auth_reachable sample_signed_in"
  unfolding sample_signed_in_def sample_start_def
  by (rule auth_reachable.step [OF auth_reachable.start]) (simp add: sample_token_wf)

lemma sample_signed_in_core:
  "\<exists>a. core sample_signed_in = (Authenticated a, Some (bt_access_token sample_token), None, False, 1000, None)"
proof -
  have "\<exists>a. core (snd (applyTokenResponse 1000 sample_token (Some (normalizeEmail ''me'')) ''login'' 1000 True True sample_start))
      = (Authenticated a, Some (bt_access_token sample_token), None, False, 1000, as_latest_peer sample_start)"
    by (cases rule: applyTokenResponse_cases [of 1000 sample_token "Some (normalizeEmail ''me'')" "''login''" 1000 True True sample_start])
      auto
  then show ?thesis by (simp add: sample_signed_in_def login_done_def sample_start_def auth_start_def)
qed

lemma session_consistent_witness: "as_token sample_signed_in \<noteq> None \<and> core_inv (core sample_signed_in)"
  using session_consistent [OF sample_signed_in_reachable] sample_signed_in_core by (auto simp: core_fields)


definition sample_other_logout :: stored where
  "sample_other_logout = encode_marker \<lparr> lm_issued_at = 900, lm_expires_at = 300900, lm_nonce = sample_nonce (CHR ''1'') \<rparr>"


text \<open>Events are taken in their order: except for a new login the time of the last event never decreases,
  and a message issued before the last event changes neither the session nor the token.\<close>

theorem stale_events_ignored:
  assumes "\<forall>t n. ev \<noteq> EvLoginDone t n"
  shows "as_last_event st \<le> as_last_event (auth_step now ev st)
    \<and> (\<forall>v m. ev = EvMessage v \<and> parseAuthChannelMessage v now = Some m \<and> message_issued_at m < as_last_event st \<longrightarrow>
         as_session (auth_step now ev st) = as_session st \<and> as_token (auth_step now ev st) = as_token st)"
  using last_event_step [OF assms] stale_message by auto

lemma stale_events_ignored_witness:
  "as_session (on_message 2000 (encode_message (SessionCleared (sample_nonce (CHR ''b'')) 900 ''logout'')) sample_signed_in)
     = as_session sample_signed_in"
proof -
  let ?m = "SessionCleared (sample_nonce (CHR ''b'')) 900 ''logout''"
  have "parseAuthChannelMessage (encode_message ?m) 2000 = Some ?m"
    by (rule parse_encode_message)
      (simp_all add: sample_clean safe_int_def max_safe_def cleared_reasons_def MAX_FUTURE_CLOCK_SKEW_MS_def)
  moreover have "as_last_event sample_signed_in = 1000" using sample_signed_in_core by (auto simp: core_fields)
  ultimately show ?thesis
    using stale_events_ignored [of "EvMessage (encode_message ?m)" sample_signed_in 2000] by simp
qed

text \<open>C37: A logout confirmed by the server signs out every tab: when no event is dated later, the tab forgets
  its token, its fallback and its peers, aborts its requests, clears the caches, records the marker and posts
  one message; and a tab that receives this message, within a minute of clock difference, is anonymous too.\<close>

theorem logout_reaches_other_tabs:
  assumes "as_last_event st \<le> now" and "as_channel st" and "clean 128 (as_tab st)" and "safe_int now"
    and "as_tab other \<noteq> as_tab st" and "as_last_event other \<le> now" and "now \<le> now' + MAX_FUTURE_CLOCK_SKEW_MS"
  shows "core (logout_done now st) = (Anonymous ''logout'', None, None, False, now, None)
    \<and> as_requests (logout_done now st) = [] \<and> set (as_requests st) \<subseteq> set (as_aborted (logout_done now st))
    \<and> as_cache_clears (logout_done now st) = Suc (as_cache_clears st)
    \<and> as_marker (logout_done now st) = recordLogoutMarker (as_storage st) (as_nonce st) now (as_marker st)
    \<and> (\<exists>m. as_posted (logout_done now st) = as_posted st @ [m]
          \<and> core (on_message now' (encode_message m) other) = (Anonymous ''logout'', None, None, False, now, None))"
proof -
  have "core (on_message now' (encode_message (SessionCleared (as_tab st) now ''logout'')) other)
      = (Anonymous ''logout'', None, None, False, now, None)"
    by (rule on_cleared) (use assms in \<open>auto simp: cleared_reasons_def\<close>)
  with logout_done_effect [OF assms(1,2)] show ?thesis by blast
qed

lemma logout_reaches_other_tabs_witness:
  "as_session (logout_done 5000 (sample_start\<lparr>as_tab := sample_nonce (CHR ''a'')\<rparr>)) = Anonymous ''logout''"
  using logout_reaches_other_tabs [of "sample_start\<lparr>as_tab := sample_nonce (CHR ''a'')\<rparr>" 5000 sample_start 5000]
    sample_clean [of "CHR ''a''"]
  by (simp add: sample_start_def auth_start_def sample_nonce_def safe_int_def max_safe_def MAX_FUTURE_CLOCK_SKEW_MS_def core_fields)

text \<open>C38: A request with a token is sent at most twice, always with a non-empty token, and never when a logout
  was requested before; the second time only for a method that may be repeated, after the first was answered
  with 401 and the session was refreshed.\<close>

theorem authorized_request_safe:
  assumes "authorizedApiRequest options retry ra = (sent, r)"
  shows "length sent \<le> 2 \<and> (\<forall>o' \<in> set sent. \<exists>t. ro_access_token o' = Some t \<and> t \<noteq> [])
    \<and> (sent \<noteq> [] \<longrightarrow> \<not> ra_logout0 ra \<and> ra_flags1 ra = (False, False))
    \<and> (length sent = 2 \<longrightarrow> (retry = Some True \<or> retry = None \<and> request_method options = ''GET'')
         \<and> (\<exists>e. ra_first ra = Inl (ApiExn e) \<and> err_kind e = Unauthorized) \<and> ra_flags2 ra = (False, False)
         \<and> ra_refreshed ra \<and> \<not> ra_logout3 ra)
    \<and> (sent = [] \<longrightarrow> (\<exists>e. r = Inl e))"
proof (cases "ra_logout0 ra \<or> fst (ra_flags1 ra) \<or> snd (ra_flags1 ra) \<or> no_token (ra_token ra)")
  case True
  with assms show ?thesis by (auto simp: authorizedApiRequest_def Let_def split: if_splits)
next
  case False
  then have f: "\<not> ra_logout0 ra" "ra_flags1 ra = (False, False)" "\<not> no_token (ra_token ra)"
    by (auto simp: prod_eq_iff)
  then obtain t where t: "ra_token ra = Some t" "t \<noteq> []" by (auto simp: no_token_def)
  show ?thesis
  proof (cases "ra_first ra")
    case (Inr v)
    with assms f t show ?thesis by (auto simp: authorizedApiRequest_def Let_def)
  next
    case (Inl e)
    with assms f t show ?thesis
      by (cases "ra_flags2 ra"; cases e)
        (auto simp: authorizedApiRequest_def Let_def is_unauthorized_def no_token_def split: if_splits option.splits)
  qed
qed

lemma authorized_request_safe_witness:
  "\<exists>r sent. authorizedApiRequest (auth_options ''/x'' JUndef) (Some True)
     \<lparr> ra_logout0 = False, ra_token = Some ''t'', ra_flags1 = (False, False),
       ra_first = Inl (ApiExn (noAccessTokenError ''/x'')), ra_flags2 = (False, False), ra_refreshed = True,
       ra_replacement = Some ''u'', ra_logout3 = False, ra_second = Inr JNull \<rparr> = (sent, r) \<and> length sent = 2"
proof -
  let ?ra = "\<lparr> ra_logout0 = False, ra_token = Some ''t'', ra_flags1 = (False, False),
       ra_first = Inl (ApiExn (noAccessTokenError ''/x'')), ra_flags2 = (False, False), ra_refreshed = True,
       ra_replacement = Some ''u'', ra_logout3 = False, ra_second = Inr JNull \<rparr>"
  obtain sent r where e: "authorizedApiRequest (auth_options ''/x'' JUndef) (Some True) ?ra = (sent, r)"
    by (cases "authorizedApiRequest (auth_options ''/x'' JUndef) (Some True) ?ra")
  then have "length sent = 2"
    by (auto simp: authorizedApiRequest_def Let_def no_token_def is_unauthorized_def noAccessTokenError_def)
  with e authorized_request_safe [OF e] show ?thesis by blast
qed

end
