(* ===== verification/AccessContext.thy ===== *)
theory AccessContext
  imports InventoryContext AuthSession
begin

text \<open>
  \<open>features/access-context.tsx\<close>: which organization, site and device the current page is about, and what the
  user may do there.

  \<open>access_state\<close> holds the refs and the state of \<open>AccessContextProvider\<close>. Each change of the route or of the
  session starts a run (\<open>effect_start\<close>) that ends the run before it; the run goes on when the answer about the
  profile arrives (\<open>profile_arrived\<close>) and ends when those about the context have (\<open>context_arrived\<close>). The
  answers are a function \<open>get\<close> from the path and the page asked for. The microtask that publishes the first
  snapshot of a run is taken with the effect itself: nothing can run between them but the next effect, which
  publishes again. \<open>ax_cleared\<close> and \<open>ax_session_cleared\<close> record the cache clears and the calls of
  \<open>clearSession\<close>.
\<close>

datatype denied_reason = EmptyDirectory | Denied

record ready_access =
  rd_profile :: current_user
  rd_scope :: session_scope
  rd_organization :: organization
  rd_site :: "site option"
  rd_device :: "device option"
  rd_access :: organization_access

datatype access_snapshot =
    AccessIdle
  | AccessResolving
  | AccessDirectory current_user session_scope
  | AccessReady ready_access
  | AccessNone "current_user option" string denied_reason
  | AccessUnavailable string

datatype access_exn = NoAccess string denied_reason | Thrown exn

type_synonym answers = "string \<Rightarrow> (int \<times> int) option \<Rightarrow> exn + json"

text \<open>A request and its validator.\<close>

definition ask :: "answers \<Rightarrow> string \<Rightarrow> (int \<times> int) option \<Rightarrow> (json \<Rightarrow> 'a result) \<Rightarrow> access_exn + 'a" where
  "ask get path page parse =
     (case get path page of
        Inl e \<Rightarrow> Inl (Thrown e)
      | Inr raw \<Rightarrow> (case parse raw of Inl e \<Rightarrow> Inl (Thrown (ApiExn e)) | Inr x \<Rightarrow> Inr x))"

definition require :: "unit result \<Rightarrow> access_exn + unit" where
  "require r = (case r of Inl e \<Rightarrow> Inl (Thrown (ApiExn e)) | Inr u \<Rightarrow> Inr u)"

definition truthy_id :: "string option \<Rightarrow> bool" where
  "truthy_id x = (x \<noteq> None \<and> x \<noteq> Some [])"

section \<open>The context of a route\<close>

definition member_of :: "current_user \<Rightarrow> string \<Rightarrow> bool" where
  "member_of profile oid = list_ex (\<lambda>m. mem_organization_id m = oid) (user_memberships profile)"

definition resolve_device ::
  "answers \<Rightarrow> inventory_target \<Rightarrow> access_exn + (device option \<times> site option \<times> string option)" where
  "resolve_device get target =
     (case nt_device target of
        None \<Rightarrow> Inr (None, None, nt_organization target)
      | Some d \<Rightarrow>
          if d = [] then Inr (None, None, nt_organization target) else
          bindE (ask get (''/api/v1/devices/'' @ d) None (\<lambda>v. parseDevice v None (Some d))) (\<lambda>dev.
          bindE (ask get (''/api/v1/sites/'' @ dev_site_id dev) None (\<lambda>v. parseSite v None (Some (dev_site_id dev)))) (\<lambda>site.
          Inr (Some dev, Some site, Some (site_organization_id site)))))"

definition resolve_organization ::
  "answers \<Rightarrow> current_user \<Rightarrow> string option \<Rightarrow> access_exn + organization" where
  "resolve_organization get profile oid =
     (if truthy_id oid then
        bindE (ask get (''/api/v1/organizations/'' @ the oid) None (\<lambda>v. parseOrganization v ''/api/v1/organizations'')) (\<lambda>org.
        seqE (require (matchingId (org_id org) (the oid) ''/api/v1/organizations'')) (Inr org))
      else
        bindE (ask get ''/api/v1/organizations'' (Some (100, 0)) parseOrganizationListResponse) (\<lambda>orgs.
        (case List.find (\<lambda>o'. org_is_active o'
                \<and> (user_platform_role profile = ''superadmin'' \<or> member_of profile (org_id o'))) orgs of
           None \<Rightarrow> Inl (NoAccess ((uk ''Dl@ c=oho korystuva^a nema# aktyvno~ dostupno~ orhanizaci~ na po^atkovij storinci. Perevirte kataloh orhanizacij.''))
                        (if orgs = [] then EmptyDirectory else Denied))
         | Some org \<Rightarrow> Inr org)))"

definition siteDirectory :: "string \<Rightarrow> bool" where
  "siteDirectory pathname = (pathname = ''/devices'' \<or> pathname = ''/alarms'')"

definition wanted_site :: "string \<Rightarrow> inventory_target \<Rightarrow> saved_context option \<Rightarrow> string option" where
  "wanted_site pathname target saved =
     (case nt_site target of
        Some s \<Rightarrow> Some s
      | None \<Rightarrow>
          if \<not> truthy_id (nt_organization target) \<and> \<not> truthy_id (nt_device target) \<and> siteDirectory pathname
          then (case saved of None \<Rightarrow> None | Some v \<Rightarrow> sv_site v) else None)"

definition sites_page_path :: "string \<Rightarrow> string" where
  "sites_page_path oid = ''/api/v1/organizations/'' @ oid @ ''/sites''"

definition resolve_site ::
  "answers \<Rightarrow> string \<Rightarrow> inventory_target \<Rightarrow> saved_context option \<Rightarrow> string \<Rightarrow> organization_access \<Rightarrow> site option
     \<Rightarrow> access_exn + site option" where
  "resolve_site get pathname target saved oid access activeSite =
     bindE (let siteId = wanted_site pathname target saved in
            if truthy_id siteId
            then bindE (ask get (''/api/v1/sites/'' @ the siteId) None (\<lambda>v. parseSite v (Some oid) siteId)) (\<lambda>s. Inr (Some s))
            else Inr activeSite) (\<lambda>site1.
     bindE (if site1 = None \<and> siteDirectory pathname \<and> ''site.read'' \<in> set (acc_permissions access)
            then bindE (ask get (sites_page_path oid) (Some (1, 0))
                   (parsePage (\<lambda>v. parseSite v (Some oid) None) site_id 1)) (\<lambda>sites.
                 Inr (case sites of [] \<Rightarrow> None | s # rest \<Rightarrow> Some s))
            else Inr site1) (\<lambda>site2.
     seqE (case site2 of None \<Rightarrow> Inr ()
           | Some s \<Rightarrow> require (matchingId (site_organization_id s) oid ''/api/v1/sites'')) (
     Inr site2)))"

text \<open>The part after the device is known.\<close>

definition resolve_from ::
  "answers \<Rightarrow> string \<Rightarrow> inventory_target \<Rightarrow> saved_context option \<Rightarrow> current_user \<Rightarrow> session_scope
     \<Rightarrow> device option \<Rightarrow> site option \<Rightarrow> string option \<Rightarrow> access_exn + ready_access" where
  "resolve_from get pathname target saved profile scope dev site0 oid0 =
     bindE (resolve_organization get profile
              (case oid0 of Some x \<Rightarrow> Some x | None \<Rightarrow> map_option sv_organization saved)) (\<lambda>org.
     seqE (if \<not> org_is_active org
           then Inl (NoAccess ((uk ''Orhanizaci@ neaktyvna. Oberit= inwu orhanizaci$.'')) Denied) else Inr ()) (
     bindE (ask get (''/api/v1/organizations/'' @ org_id org @ ''/access'') None
              (\<lambda>v. parseOrganizationAccessResponse v (org_id org))) (\<lambda>access.
     bindE (resolve_site get pathname target saved (org_id org) access site0) (\<lambda>site.
     Inr \<lparr> rd_profile = profile, rd_scope = scope, rd_organization = org, rd_site = site, rd_device = dev,
           rd_access = access \<rparr>))))"

definition resolve_context ::
  "answers \<Rightarrow> string \<Rightarrow> inventory_target \<Rightarrow> saved_context option \<Rightarrow> current_user \<Rightarrow> session_scope
     \<Rightarrow> access_exn + ready_access" where
  "resolve_context get pathname target saved profile scope =
     bindE (resolve_device get target) (\<lambda>(dev, site0, oid0).
       resolve_from get pathname target saved profile scope dev site0 oid0)"

section \<open>The provider\<close>

record access_run =
  rn_id :: nat
  rn_path :: string
  rn_context :: "(current_user \<times> session_scope \<times> saved_context option) option"

record access_state =
  ax_run :: nat
  ax_live :: bool
  ax_path :: string
  ax_resolved :: "string \<times> access_snapshot"
  ax_scope :: "session_scope option"
  ax_runs :: "access_run list"
  ax_storage :: session_storage
  ax_cleared :: "session_scope option list"
  ax_session_cleared :: "string list"

definition access_start :: "session_storage \<Rightarrow> access_state" where
  "access_start storage = \<lparr> ax_run = 0, ax_live = False, ax_path = [], ax_resolved = ([], AccessIdle), ax_scope = None,
     ax_runs = [], ax_storage = storage, ax_cleared = [], ax_session_cleared = [] \<rparr>"

definition public_paths :: "string list" where
  "public_paths = [''/login'', ''/register'', ''/invite'', ''/'']"

definition is_authenticated :: "session \<Rightarrow> bool" where
  "is_authenticated s = (case s of Authenticated _ \<Rightarrow> True | _ \<Rightarrow> False)"

definition is_anonymous :: "session \<Rightarrow> bool" where
  "is_anonymous s = (case s of Anonymous _ \<Rightarrow> True | _ \<Rightarrow> False)"

text \<open>The effect, after the cleanup of the one before it.\<close>

definition effect_start :: "string \<Rightarrow> session \<Rightarrow> access_state \<Rightarrow> access_state" where
  "effect_start pathname session st =
     (let run = Suc (ax_run st);
          st1 = st\<lparr>ax_run := run, ax_live := True, ax_path := pathname, ax_scope := None,
                   ax_cleared := ax_cleared st @ [ax_scope st]\<rparr> in
      if \<not> is_authenticated session \<or> pathname \<in> set public_paths
      then (st1\<lparr>ax_resolved := (pathname, AccessIdle)\<rparr>)
             \<lparr>ax_storage := (if is_anonymous session then forgetContext None (ax_storage st) else ax_storage st)\<rparr>
      else st1\<lparr>ax_resolved := (pathname, AccessResolving),
               ax_runs := ax_runs st @ [\<lparr> rn_id = run, rn_path = pathname, rn_context = None \<rparr>]\<rparr>)"

definition run_current :: "access_run \<Rightarrow> access_state \<Rightarrow> bool" where
  "run_current r st = (rn_id r = ax_run st \<and> ax_live st)"

definition end_run :: "access_run \<Rightarrow> access_state \<Rightarrow> access_state" where
  "end_run r st = st\<lparr>ax_runs := filter (\<lambda>x. rn_id x \<noteq> rn_id r) (ax_runs st)\<rparr>"

definition access_publish :: "access_run \<Rightarrow> access_snapshot \<Rightarrow> access_state \<Rightarrow> access_state" where
  "access_publish r snapshot st = (if run_current r st then st\<lparr>ax_resolved := (rn_path r, snapshot)\<rparr> else st)"

definition thrown_kind :: "access_exn \<Rightarrow> api_error_kind option" where
  "thrown_kind e = (case e of Thrown (ApiExn err) \<Rightarrow> Some (err_kind err) | _ \<Rightarrow> None)"

definition thrown_message :: "access_exn \<Rightarrow> string" where
  "thrown_message e = (case e of Thrown x \<Rightarrow> apiErrorDisplayMessage x | NoAccess m _ \<Rightarrow> apiErrorDisplayMessage (JsExn m))"

text \<open>The \<open>catch\<close> block. The phase is \<open>profile\<close> while \<open>scope\<close> is undefined.\<close>

definition run_failed ::
  "access_run \<Rightarrow> current_user option \<Rightarrow> session_scope option \<Rightarrow> access_exn \<Rightarrow> access_state \<Rightarrow> access_state" where
  "run_failed r profile scope e st =
     end_run r
       (if \<not> run_current r st \<or> thrown_kind e = Some Aborted then st
        else if scope = None \<and> thrown_kind e \<in> {Some Unauthorized, Some Forbidden}
        then st\<lparr>ax_session_cleared := ax_session_cleared st @
               [if thrown_kind e = Some Forbidden then ''revoked'' else ''expired'']\<rparr>
        else (case e of
            NoAccess m reason \<Rightarrow>
              access_publish r (AccessNone profile m reason)
                (st\<lparr>ax_storage := (if scope = None then ax_storage st else forgetContext scope (ax_storage st))\<rparr>)
          | Thrown _ \<Rightarrow>
              if scope \<noteq> None \<and> thrown_kind e \<in> {Some Forbidden, Some NotFound}
              then access_publish r (AccessNone profile
                  ((uk ''Orhanizaci@ abo obladnann@ bil=we nedostupni. Oberit= inwu orhanizaci$ abo zvernit=s@ do ~~ administratora.''))
                  Denied)
                (st\<lparr>ax_storage := forgetContext scope (ax_storage st)\<rparr>)
              else access_publish r (AccessUnavailable (thrown_message e)) st))"

definition find_run :: "nat \<Rightarrow> access_state \<Rightarrow> access_run option" where
  "find_run i st = List.find (\<lambda>r. rn_id r = i) (ax_runs st)"

definition set_context :: "nat \<Rightarrow> current_user \<times> session_scope \<times> saved_context option \<Rightarrow> access_run \<Rightarrow> access_run" where
  "set_context i c r = (if rn_id r = i then r\<lparr>rn_context := Some c\<rparr> else r)"

text \<open>The answer of \<open>/api/v1/auth/me\<close>.\<close>

definition profile_arrived :: "nat \<Rightarrow> answers \<Rightarrow> access_state \<Rightarrow> access_state" where
  "profile_arrived i get st =
     (case find_run i st of
        None \<Rightarrow> st
      | Some r \<Rightarrow>
          if rn_context r \<noteq> None then st
          else (case ask get ''/api/v1/auth/me'' None parseCurrentUserResponse of
              Inl e \<Rightarrow> run_failed r None None e st
            | Inr profile \<Rightarrow>
                if \<not> run_current r st then end_run r st
                else if \<not> user_is_active profile
                then end_run r (st\<lparr>ax_session_cleared := ax_session_cleared st @ [''revoked'']\<rparr>)
                else (let scope = \<lparr> sc_user = user_id profile, sc_session = user_auth_session_id profile \<rparr>;
                          st1 = st\<lparr>ax_scope := Some scope\<rparr>; target = inventoryTarget (rn_path r) in
                  if nt_invalid target
                  then run_failed r (Some profile) (Some scope)
                         (NoAccess ((uk ''Nekorektne posylann@ na orhanizaci$, ob|#kt abo prystrij.'')) Denied) st1
                  else if nt_directory target then end_run r (access_publish r (AccessDirectory profile scope) st1)
                  else st1\<lparr>ax_runs := map (set_context i (profile, scope, readSavedContext scope (ax_storage st)))
                         (ax_runs st)\<rparr>)))"

definition context_arrived :: "nat \<Rightarrow> answers \<Rightarrow> access_state \<Rightarrow> access_state" where
  "context_arrived i get st =
     (case find_run i st of
        None \<Rightarrow> st
      | Some r \<Rightarrow>
          (case rn_context r of
             None \<Rightarrow> st
           | Some (profile, scope, saved) \<Rightarrow>
               (let target = inventoryTarget (rn_path r) in
                case resolve_context get (rn_path r) target saved profile scope of
                  Inl e \<Rightarrow> run_failed r (Some profile) (Some scope) e st
                | Inr ready \<Rightarrow>
                    if \<not> run_current r st then end_run r st
                    else end_run r (access_publish r (AccessReady ready)
                      (if truthy_id (nt_organization target) \<or> truthy_id (nt_device target)
                       then st\<lparr>ax_storage := saveContext scope
                              \<lparr> sv_organization = org_id (rd_organization ready),
                                sv_site = map_option site_id (rd_site ready) \<rparr> (ax_storage st)\<rparr>
                       else st)))))"

text \<open>Unmounting runs the cleanup of the last effect.\<close>

definition access_unmount :: "access_state \<Rightarrow> access_state" where
  "access_unmount st = st\<lparr>ax_live := False\<rparr>"

text \<open>What the page sees: never the snapshot of another route.\<close>

definition shown_access :: "string \<Rightarrow> access_state \<Rightarrow> access_snapshot" where
  "shown_access pathname st = (if fst (ax_resolved st) = pathname then snd (ax_resolved st) else AccessResolving)"

definition hasPermission :: "string \<Rightarrow> access_state \<Rightarrow> string \<Rightarrow> bool" where
  "hasPermission pathname st permission =
     (case shown_access pathname st of AccessReady r \<Rightarrow> permission \<in> set (acc_permissions (rd_access r)) | _ \<Rightarrow> False)"

inductive access_reachable :: "access_state \<Rightarrow> bool" where
  on_start: "access_reachable (access_start storage)"
| on_route: "access_reachable st \<Longrightarrow> access_reachable (effect_start pathname session st)"
| on_profile: "access_reachable st \<Longrightarrow> access_reachable (profile_arrived i get st)"
| on_context: "access_reachable st \<Longrightarrow> access_reachable (context_arrived i get st)"
| on_unmount: "access_reachable st \<Longrightarrow> access_reachable (access_unmount st)"

section \<open>What a resolved context says\<close>

definition ready_ok :: "string \<Rightarrow> ready_access \<Rightarrow> bool" where
  "ready_ok pathname r \<longleftrightarrow>
     (let target = inventoryTarget pathname; org = rd_organization r in
      \<not> nt_invalid target \<and> \<not> nt_directory target
      \<and> org_is_active org \<and> wf_access (org_id org) (rd_access r)
      \<and> (\<forall>s. rd_site r = Some s \<longrightarrow> site_organization_id s = org_id org \<and> is_uuid (site_id s))
      \<and> (\<forall>d. rd_device r = Some d \<longrightarrow> (\<exists>s. rd_site r = Some s \<and> dev_site_id d = site_id s))
      \<and> (\<forall>x. nt_organization target = Some x \<longrightarrow> org_id org = x)
      \<and> (\<forall>x. nt_site target = Some x \<longrightarrow> (\<exists>s. rd_site r = Some s \<and> site_id s = x))
      \<and> (\<forall>x. nt_device target = Some x \<longrightarrow> (\<exists>d. rd_device r = Some d \<and> dev_id d = x)))"

lemma ask_ok: "ask get path page parse = Inr x \<longleftrightarrow> (\<exists>raw. get path page = Inr raw \<and> parse raw = Inr x)"
  by (simp add: ask_def split: sum.split)

lemma require_ok: "require r = Inr u \<longleftrightarrow> r = Inr u"
  by (simp add: require_def split: sum.split)

lemma resolve_device_ok:
  assumes "resolve_device get target = Inr (dev, site, oid)"
  shows "(dev = None \<and> site = None \<and> oid = nt_organization target \<and> \<not> truthy_id (nt_device target))
    \<or> (\<exists>d s x. dev = Some d \<and> site = Some s \<and> oid = Some (site_organization_id s) \<and> dev_site_id d = site_id s
         \<and> nt_device target = Some x \<and> dev_id d = x \<and> site_in None s)"
proof (cases "truthy_id (nt_device target)")
  case True
  then obtain x where x: "nt_device target = Some x" "x \<noteq> []" by (auto simp: truthy_id_def)
  with assms obtain d s v w where p: "parseDevice v None (Some x) = Inr d" "parseSite w None (Some (dev_site_id d)) = Inr s"
    "dev = Some d" "site = Some s" "oid = Some (site_organization_id s)"
    by (auto simp: resolve_device_def bindE_ok ask_ok)
  from parseDevice_in [OF p(1)] x have d: "dev_id d = x" "device_in None d" by auto
  then have "dev_site_id d \<noteq> []" by (auto simp: device_in_def dest: is_uuid_ne)
  with parseSite_in [OF p(2)] have "site_id s = dev_site_id d" "site_in None s" by auto
  with p d x show ?thesis by auto
next
  case False
  with assms show ?thesis by (auto simp: resolve_device_def truthy_id_def split: option.splits if_splits)
qed

lemma resolve_organization_ok:
  "resolve_organization get profile oid = Inr org \<Longrightarrow> truthy_id oid \<Longrightarrow> oid = Some (org_id org)"
  by (auto simp: resolve_organization_def bindE_ok seqE_ok ask_ok require_ok matchingId_ok truthy_id_def)

lemma resolve_site_ok:
  assumes "resolve_site get pathname target saved oid access activeSite = Inr site" and "oid \<noteq> []"
  shows "(\<forall>s. site = Some s \<longrightarrow> site_organization_id s = oid \<and> (site = activeSite \<or> is_uuid (site_id s)))
    \<and> (truthy_id (wanted_site pathname target saved) \<longrightarrow> map_option site_id site = wanted_site pathname target saved)
    \<and> (\<not> truthy_id (wanted_site pathname target saved) \<and> activeSite \<noteq> None \<longrightarrow> site = activeSite)"
proof -
  let ?w = "wanted_site pathname target saved"
  obtain site1 where s1: "(if truthy_id ?w
            then bindE (ask get (''/api/v1/sites/'' @ the ?w) None (\<lambda>v. parseSite v (Some oid) ?w)) (\<lambda>s. Inr (Some s))
            else Inr activeSite) = Inr site1"
    and rest: "bindE (if site1 = None \<and> siteDirectory pathname \<and> ''site.read'' \<in> set (acc_permissions access)
            then bindE (ask get (sites_page_path oid) (Some (1, 0))
                   (parsePage (\<lambda>v. parseSite v (Some oid) None) site_id 1)) (\<lambda>sites.
                 Inr (case sites of [] \<Rightarrow> None | s # rest \<Rightarrow> Some s))
            else Inr site1) (\<lambda>site2.
     seqE (case site2 of None \<Rightarrow> Inr ()
           | Some s \<Rightarrow> require (matchingId (site_organization_id s) oid ''/api/v1/sites'')) (
     Inr site2)) = Inr site"
    using assms(1) by (auto simp: resolve_site_def Let_def bindE_ok)
  have site1: "(truthy_id ?w \<longrightarrow> (\<exists>s. site1 = Some s \<and> ?w = Some (site_id s) \<and> is_uuid (site_id s)))
      \<and> (\<not> truthy_id ?w \<longrightarrow> site1 = activeSite)"
  proof (cases "truthy_id ?w")
    case True
    with s1 obtain v s where "parseSite v (Some oid) ?w = Inr s" "site1 = Some s" by (auto simp: bindE_ok ask_ok)
    with parseSite_in [OF this(1)] True show ?thesis by (auto simp: truthy_id_def site_in_def)
  next
    case False
    with s1 show ?thesis by simp
  qed
  have site2: "site = site1 \<or> site1 = None \<and> (\<forall>s. site = Some s \<longrightarrow> is_uuid (site_id s))"
    "\<forall>s. site = Some s \<longrightarrow> site_organization_id s = oid"
  proof -
    show "\<forall>s. site = Some s \<longrightarrow> site_organization_id s = oid"
      using rest by (auto simp: bindE_ok seqE_ok require_ok matchingId_ok split: option.splits)
    show "site = site1 \<or> site1 = None \<and> (\<forall>s. site = Some s \<longrightarrow> is_uuid (site_id s))"
    proof (cases "site1 = None \<and> siteDirectory pathname \<and> ''site.read'' \<in> set (acc_permissions access)")
      case True
      with rest obtain sites v where sites: "parsePage (\<lambda>v. parseSite v (Some oid) None) site_id 1 v = Inr sites"
        "site = (case sites of [] \<Rightarrow> None | s # rest \<Rightarrow> Some s)"
        by (auto simp: bindE_ok seqE_ok ask_ok)
      have "is_uuid (site_id s)" if "s \<in> set sites" for s
        using site_page.page_sound [OF sites(1)] that by (auto simp: site_in_def)
      with sites(2) True show ?thesis by (cases sites) auto
    next
      case False
      with rest show ?thesis by (auto simp: bindE_ok seqE_ok)
    qed
  qed
  from site1 site2 show ?thesis by auto
qed

lemma resolve_context_ok:
  assumes "resolve_context get pathname target saved profile scope = Inr r"
    and "target = inventoryTarget pathname" "\<not> nt_invalid target" "\<not> nt_directory target"
    and "\<forall>v. saved = Some v \<longrightarrow> is_uuid (sv_organization v)"
  shows "ready_ok pathname r \<and> rd_profile r = profile \<and> rd_scope r = scope"
proof -
  obtain dev site0 oid0 where d: "resolve_device get target = Inr (dev, site0, oid0)"
    and r1: "resolve_from get pathname target saved profile scope dev site0 oid0 = Inr r"
    using assms(1) by (auto simp: resolve_context_def bindE_ok)
  from r1 obtain org access site v where org: "resolve_organization get profile
        (case oid0 of Some x \<Rightarrow> Some x | None \<Rightarrow> map_option sv_organization saved) = Inr org"
    and act: "org_is_active org" and acc: "parseOrganizationAccessResponse v (org_id org) = Inr access"
    and site: "resolve_site get pathname target saved (org_id org) access site0 = Inr site"
    and r: "r = \<lparr> rd_profile = profile, rd_scope = scope, rd_organization = org, rd_site = site, rd_device = dev,
           rd_access = access \<rparr>"
    unfolding resolve_from_def bindE_ok seqE_ok ask_ok by (elim exE conjE) (auto split: if_splits)
  from parse_access_wf [OF acc] have wf: "wf_access (org_id org) access" and ne: "org_id org \<noteq> []"
    by (auto simp: wf_access_def dest: is_uuid_ne)
  note site' = resolve_site_ok [OF site ne]
  have t: "target_ok target" using assms(2) by (simp add: inventoryTarget_ok)
  show ?thesis
  proof (cases "nt_device target")
    case (Some x)
    with t have x: "is_uuid x" "nt_organization target = None" "nt_site target = None"
      by (auto simp: target_ok_def uuid_or_none_def)
    then have "truthy_id (nt_device target)" using Some is_uuid_ne by (auto simp: truthy_id_def)
    with resolve_device_ok [OF d] Some obtain dv s where ds: "dev = Some dv" "site0 = Some s"
      "dev_site_id dv = site_id s" "dev_id dv = x" "site_in None s" by auto
    have "\<not> truthy_id (wanted_site pathname target saved)"
      using x Some is_uuid_ne by (auto simp: wanted_site_def truthy_id_def)
    with site' ds have "site = Some s" by auto
    with site' ds x Some wf act r assms(2-4) show ?thesis
      by (auto simp: ready_ok_def Let_def site_in_def)
  next
    case None
    then have n: "dev = None" "site0 = None" "oid0 = nt_organization target"
      using resolve_device_ok [OF d] by (auto simp: truthy_id_def)
    have o': "nt_organization target = Some y \<Longrightarrow> org_id org = y" for y
      using resolve_organization_ok [OF org] n t is_uuid_ne by (auto simp: truthy_id_def target_ok_def uuid_or_none_def)
    have s': "nt_site target = Some y \<Longrightarrow> \<exists>s. site = Some s \<and> site_id s = y" for y
      using site' t is_uuid_ne by (auto simp: wanted_site_def truthy_id_def target_ok_def uuid_or_none_def)
    from n o' s' site' None wf act r assms(2-4) show ?thesis
      by (auto simp: ready_ok_def Let_def)
  qed
qed

section \<open>The invariant of the provider\<close>

definition profile_scope :: "current_user \<Rightarrow> session_scope" where
  "profile_scope profile = \<lparr> sc_user = user_id profile, sc_session = user_auth_session_id profile \<rparr>"

text \<open>A published identity is the one of the latest run and its route, and belongs to an active user.\<close>

fun published_ok :: "string \<Rightarrow> session_scope option \<Rightarrow> string \<Rightarrow> access_snapshot \<Rightarrow> bool" where
  "published_ok path scope p (AccessReady r) \<longleftrightarrow>
     p = path \<and> scope = Some (rd_scope r) \<and> rd_scope r = profile_scope (rd_profile r)
     \<and> user_is_active (rd_profile r) \<and> ready_ok p r"
| "published_ok path scope p (AccessDirectory profile sc) \<longleftrightarrow>
     p = path \<and> scope = Some sc \<and> sc = profile_scope profile \<and> user_is_active profile \<and> nt_directory (inventoryTarget p)"
| "published_ok path scope p _ \<longleftrightarrow> True"

definition run_ok :: "string \<Rightarrow> session_scope option \<Rightarrow> nat \<Rightarrow> access_run \<Rightarrow> bool" where
  "run_ok path scope run r \<longleftrightarrow>
     rn_id r \<le> run \<and> (rn_id r = run \<longrightarrow> rn_path r = path)
     \<and> (case rn_context r of None \<Rightarrow> True
        | Some (profile, sc, saved) \<Rightarrow>
            (rn_id r = run \<longrightarrow> scope = Some sc) \<and> sc = profile_scope profile \<and> user_is_active profile
            \<and> (\<forall>v. saved = Some v \<longrightarrow> is_uuid (sv_organization v))
            \<and> \<not> nt_invalid (inventoryTarget (rn_path r)) \<and> \<not> nt_directory (inventoryTarget (rn_path r)))"

definition access_inv :: "access_state \<Rightarrow> bool" where
  "access_inv st \<longleftrightarrow>
     published_ok (ax_path st) (ax_scope st) (fst (ax_resolved st)) (snd (ax_resolved st))
     \<and> distinct (map rn_id (ax_runs st))
     \<and> (\<forall>r \<in> set (ax_runs st). run_ok (ax_path st) (ax_scope st) (ax_run st) r
          \<and> (rn_id r = ax_run st \<longrightarrow> snd (ax_resolved st) = AccessResolving))"

lemma access_inv_end: "access_inv st \<Longrightarrow> access_inv (end_run r st)"
  by (auto simp: access_inv_def end_run_def distinct_map_filter)

lemma access_inv_publish:
  "access_inv st \<Longrightarrow> (run_current r st \<Longrightarrow> published_ok (ax_path st) (ax_scope st) (rn_path r) snapshot) \<Longrightarrow>
   access_inv (end_run r (access_publish r snapshot st))"
  by (auto simp: access_publish_def access_inv_def end_run_def run_current_def distinct_map_filter)

lemma access_inv_quiet [simp]:
  "access_inv (st\<lparr>ax_storage := s\<rparr>) = access_inv st" "access_inv (st\<lparr>ax_session_cleared := c\<rparr>) = access_inv st"
  "access_inv (st\<lparr>ax_live := b\<rparr>) = access_inv st"
  by (simp_all add: access_inv_def)

lemma access_inv_failed: "access_inv st \<Longrightarrow> access_inv (run_failed r profile scope e st)"
  unfolding run_failed_def
  by (auto simp: access_inv_end intro!: access_inv_publish split: access_exn.split)

lemma set_context_simps [simp]:
  "rn_id (set_context i c r) = rn_id r" "rn_path (set_context i c r) = rn_path r" "rn_id \<circ> set_context i c = rn_id"
  by (auto simp: set_context_def fun_eq_iff)

lemma find_runD: "find_run i st = Some r \<Longrightarrow> r \<in> set (ax_runs st) \<and> rn_id r = i"
  by (auto simp: find_run_def find_Some_iff)

lemma run_unique: "access_inv st \<Longrightarrow> r \<in> set (ax_runs st) \<Longrightarrow> q \<in> set (ax_runs st) \<Longrightarrow> rn_id q = rn_id r \<Longrightarrow> q = r"
  by (auto simp: access_inv_def distinct_map inj_on_def)

lemma run_ok_older: "run_ok path scope run r \<Longrightarrow> run_ok path' scope' (Suc run) r"
  by (auto simp: run_ok_def split: option.splits)

lemma access_inv_effect: "access_inv st \<Longrightarrow> access_inv (effect_start pathname session st)"
proof -
  assume a: "access_inv st"
  then have r: "run_ok p s (Suc (ax_run st)) r \<and> rn_id r \<noteq> Suc (ax_run st)" if "r \<in> set (ax_runs st)" for r p s
    using that run_ok_older by (auto simp: access_inv_def run_ok_def split: option.splits)
  have "run_ok pathname s (Suc (ax_run st)) \<lparr> rn_id = Suc (ax_run st), rn_path = pathname, rn_context = None \<rparr>" for s
    by (simp add: run_ok_def)
  moreover have "distinct (map rn_id (ax_runs st) @ [Suc (ax_run st)])"
    using a r by (force simp: access_inv_def)
  ultimately show ?thesis using a r by (simp add: effect_start_def Let_def access_inv_def)
qed

lemma access_inv_scope:
  assumes "access_inv st" "run_current r st" "r \<in> set (ax_runs st)" "rn_context r = None"
  shows "access_inv (st\<lparr>ax_scope := Some sc\<rparr>)"
proof -
  have res: "snd (ax_resolved st) = AccessResolving"
    using assms by (auto simp: access_inv_def run_current_def)
  moreover have "run_ok (ax_path st) (Some sc) (ax_run st) q" if "q \<in> set (ax_runs st)" for q
  proof (cases "rn_id q = ax_run st")
    case True
    with assms(2) that run_unique [OF assms(1,3)] have "q = r" by (simp add: run_current_def)
    with assms(1,3,4) show ?thesis by (auto simp: access_inv_def run_ok_def)
  next
    case False
    with assms(1) that show ?thesis by (auto simp: access_inv_def run_ok_def split: option.splits)
  qed
  ultimately show ?thesis using assms(1) by (simp add: access_inv_def)
qed

lemma access_inv_profile:
  assumes "access_inv st"
  shows "access_inv (profile_arrived i get st)"
proof (cases "find_run i st")
  case None
  with assms show ?thesis by (simp add: profile_arrived_def)
next
  case (Some r)
  note r = find_runD [OF Some]
  show ?thesis
  proof (cases "rn_context r = None \<and> run_current r st
      \<and> (\<exists>profile. ask get ''/api/v1/auth/me'' None parseCurrentUserResponse = Inr profile \<and> user_is_active profile)")
    case False
    with Some assms show ?thesis
      by (auto simp: profile_arrived_def access_inv_failed access_inv_end split: sum.split)
  next
    case True
    then obtain profile where p: "rn_context r = None" "run_current r st"
      "ask get ''/api/v1/auth/me'' None parseCurrentUserResponse = Inr profile" "user_is_active profile" by blast
    let ?scope = "\<lparr> sc_user = user_id profile, sc_session = user_auth_session_id profile \<rparr>"
    let ?st = "st\<lparr>ax_scope := Some ?scope\<rparr>" let ?target = "inventoryTarget (rn_path r)"
    have st: "access_inv ?st" using access_inv_scope assms p(1,2) r by blast
    have path: "rn_path r = ax_path st" using assms r p(2) by (auto simp: access_inv_def run_ok_def run_current_def)
    consider "nt_invalid ?target" | "\<not> nt_invalid ?target" "nt_directory ?target"
      | "\<not> nt_invalid ?target" "\<not> nt_directory ?target" by blast
    then show ?thesis
    proof cases
      case 1
      with Some p show ?thesis
        by (simp add: profile_arrived_def Let_def access_inv_failed [OF st])
    next
      case 2
      have "access_inv (end_run r (access_publish r (AccessDirectory profile ?scope) ?st))"
        using st 2 p(4) path by (intro access_inv_publish) (simp_all add: profile_scope_def)
      with Some p 2 show ?thesis by (simp add: profile_arrived_def Let_def)
    next
      case 3
      let ?saved = "readSavedContext ?scope (ax_storage st)"
      let ?f = "set_context i (profile, ?scope, ?saved)"
      have ok: "run_ok (ax_path st) (Some ?scope) (ax_run st) (?f q)" if "q \<in> set (ax_runs st)" for q
      proof (cases "rn_id q = i")
        case True
        with r run_unique [OF assms, of r q] that have "q = r" by simp
        with st r 3 p(4) path readSavedContext_uuid [of ?scope "ax_storage st"] show ?thesis
          by (auto simp: access_inv_def run_ok_def profile_scope_def set_context_def)
      next
        case False
        with st that show ?thesis by (auto simp: access_inv_def set_context_def)
      qed
      have "access_inv (?st\<lparr>ax_runs := map ?f (ax_runs st)\<rparr>)"
        using st ok unfolding access_inv_def by auto
      with Some p 3 show ?thesis by (simp add: profile_arrived_def Let_def)
    qed
  qed
qed

lemma access_inv_context:
  assumes "access_inv st"
  shows "access_inv (context_arrived i get st)"
proof (cases "find_run i st")
  case None
  with assms show ?thesis by (simp add: context_arrived_def)
next
  case (Some r)
  note r = find_runD [OF Some]
  show ?thesis
  proof (cases "rn_context r")
    case None
    with Some assms show ?thesis by (simp add: context_arrived_def)
  next
    case c: (Some x)
    obtain profile scope saved where x: "x = (profile, scope, saved)" by (cases x)
    let ?target = "inventoryTarget (rn_path r)"
    have ok: "scope = profile_scope profile" "user_is_active profile" "\<forall>v. saved = Some v \<longrightarrow> is_uuid (sv_organization v)"
      "\<not> nt_invalid ?target" "\<not> nt_directory ?target"
      "rn_id r = ax_run st \<longrightarrow> ax_scope st = Some scope \<and> rn_path r = ax_path st"
      using assms r c x by (auto simp: access_inv_def run_ok_def)
    show ?thesis
    proof (cases "resolve_context get (rn_path r) ?target saved profile scope")
      case (Inl e)
      with Some c x assms show ?thesis by (simp add: context_arrived_def Let_def access_inv_failed)
    next
      case (Inr ready)
      note res = resolve_context_ok [OF Inr refl ok(4,5,3)]
      have "access_inv (end_run r (access_publish r (AccessReady ready) (st\<lparr>ax_storage := s\<rparr>)))" for s
        using res ok assms by (intro access_inv_publish) (auto simp: run_current_def)
      moreover have "access_inv (end_run r (access_publish r (AccessReady ready) st))"
        using res ok assms by (intro access_inv_publish) (auto simp: run_current_def)
      ultimately show ?thesis
        using Some c x Inr assms by (auto simp: context_arrived_def Let_def access_inv_end)
    qed
  qed
qed

lemma access_reachable_inv: "access_reachable st \<Longrightarrow> access_inv st"
proof (induction rule: access_reachable.induct)
  case (on_start storage)
  show ?case by (simp add: access_inv_def access_start_def)
qed (simp_all add: access_inv_effect access_inv_profile access_inv_context access_unmount_def)

section \<open>Properties\<close>

definition sample_get :: answers where
  "sample_get path page =
     (if path = ''/api/v1/auth/me'' then Inr (JObj [(''memberships'', JArr [JObj [(''organization_id'', JStr (sample_id (CHR ''3''))),
         (''role'', JStr ''operator'')]]), (''is_active'', JBool True), (''id'', JStr (sample_id (CHR ''6''))), (''email'', JStr ''e''),
         (''display_name'', JStr ''n''), (''platform_role'', JStr ''user''), (''auth_session_id'', JStr (sample_id (CHR ''7''))),
         (''auth_session_expires_at'', sample_date)])
      else if path = ''/api/v1/organizations'' then Inr (JArr [JObj [(''is_active'', JBool True), (''id'', JStr (sample_id (CHR ''3''))),
         (''name'', JStr ''n''), (''slug'', JStr ''s''), (''created_at'', sample_date), (''updated_at'', sample_date)]])
      else Inr (sample_access []))"

definition sample_auth :: session where
  "sample_auth = Authenticated \<lparr> au_email = None, au_access_expires = 0, au_session_expires = 0, au_source = ''login'',
     au_refresh_state = ''idle'', au_refresh_message = None \<rparr>"

definition sample_access_state :: access_state where
  "sample_access_state = context_arrived 1 sample_get (profile_arrived 1 sample_get
     (effect_start ''/devices'' sample_auth (access_start None)))"

lemma sample_access_reachable: "access_reachable sample_access_state"
  unfolding sample_access_state_def by (intro access_reachable.intros)

lemma sample_access_ready: "case shown_access ''/devices'' sample_access_state of AccessReady r \<Rightarrow> True | _ \<Rightarrow> False"
  by code_simp

text \<open>C7: The access a page works with is its own: in every run of the provider, whatever the order in which
  routes change and answers arrive, a ready access shown on a route belongs to an active user and to the session
  scope of the latest run, its organization is active and the permissions are of that organization, its site is of
  that organization and its device of that site, and they are the ones the route names.\<close>

theorem access_is_of_the_page:
  assumes "access_reachable st" and "shown_access pathname st = AccessReady r"
  shows "ready_ok pathname r \<and> user_is_active (rd_profile r) \<and> ax_path st = pathname
    \<and> ax_scope st = Some (rd_scope r) \<and> rd_scope r = profile_scope (rd_profile r)
    \<and> (\<forall>p. hasPermission pathname st p \<longleftrightarrow> p \<in> set (acc_permissions (rd_access r)))"
proof -
  from assms(2) have "fst (ax_resolved st) = pathname" "snd (ax_resolved st) = AccessReady r"
    by (auto simp: shown_access_def split: if_splits)
  with access_reachable_inv [OF assms(1)] assms(2) show ?thesis
    by (auto simp: access_inv_def hasPermission_def)
qed

lemma access_is_of_the_page_witness:
  "\<exists>r. shown_access ''/devices'' sample_access_state = AccessReady r \<and> ready_ok ''/devices'' r"
proof -
  obtain r where r: "shown_access ''/devices'' sample_access_state = AccessReady r"
    using sample_access_ready by (cases "shown_access ''/devices'' sample_access_state") auto
  with access_is_of_the_page [OF sample_access_reachable r] show ?thesis by blast
qed

text \<open>A run that was superseded or unmounted has no effect: whatever its answers, it publishes nothing, ends no
  session, and changes neither the scope of the page nor what the session stored.\<close>

theorem superseded_run_ignored:
  assumes "find_run i st = Some r" and "\<not> run_current r st"
  shows "ax_resolved (profile_arrived i get st) = ax_resolved st \<and> ax_scope (profile_arrived i get st) = ax_scope st
    \<and> ax_session_cleared (profile_arrived i get st) = ax_session_cleared st
    \<and> ax_storage (profile_arrived i get st) = ax_storage st
    \<and> ax_resolved (context_arrived i get st) = ax_resolved st \<and> ax_scope (context_arrived i get st) = ax_scope st
    \<and> ax_session_cleared (context_arrived i get st) = ax_session_cleared st
    \<and> ax_storage (context_arrived i get st) = ax_storage st"
  using assms
  by (auto simp: profile_arrived_def context_arrived_def run_failed_def end_run_def Let_def
      split: sum.split option.split)

lemma superseded_run_ignored_witness:
  "ax_resolved (profile_arrived 1 sample_get (effect_start ''/alarms'' sample_auth
      (effect_start ''/devices'' sample_auth (access_start None)))) = (''/alarms'', AccessResolving)"
proof -
  let ?st = "effect_start ''/alarms'' sample_auth (effect_start ''/devices'' sample_auth (access_start None))"
  let ?r = "\<lparr> rn_id = 1, rn_path = ''/devices'', rn_context = None \<rparr>"
  have "find_run 1 ?st = Some ?r" "\<not> run_current ?r ?st" "ax_resolved ?st = (''/alarms'', AccessResolving)"
    by (simp_all add: find_run_def run_current_def effect_start_def Let_def access_start_def is_authenticated_def
        sample_auth_def public_paths_def)
  with superseded_run_ignored [of 1 ?st ?r sample_get] show ?thesis by simp
qed

end
