(* ===== verification/WorkspaceGuard.thy ===== *)
theory WorkspaceGuard
  imports AccessContext
begin

text \<open>
  \<open>features/workspace-guard.tsx\<close> and \<open>proxy.ts\<close>: the two gates in front of a page.

  \<open>WorkspaceGuard\<close> decides what is rendered from the session and the access: the page (\<open>Children\<close>), nothing, or
  a \<open>gate\<close>, the props and the actions of \<open>AccessGate\<close>. Its effect sends an anonymous visitor to the login
  (\<open>guard_redirect\<close>). The proxy answers a request before any page is rendered: it hides the pages of other
  portals and sets the security headers.
\<close>

section \<open>Permissions of routes\<close>

text \<open>\<open>/^\/organizations\/[^/]+\/notifications(?:\/|$)/u\<close>\<close>

fun notifications_route :: "string list \<Rightarrow> bool" where
  "notifications_route (a # b # x # c # rest) = (a = [] \<and> b = ''organizations'' \<and> x \<noteq> [] \<and> c = ''notifications'')"
| "notifications_route _ = False"

definition requiredPermission :: "string \<Rightarrow> string" where
  "requiredPermission pathname =
     (if pathname = ''/notifications'' \<or> notifications_route (split_on (CHR ''/'') pathname) then ''notification.read''
      else if pathname = ''/alarms'' \<or> starts_with ''/alarms/'' pathname then ''alarm.read''
      else if pathname = ''/ui-kit'' \<or> starts_with ''/ui-kit/'' pathname then ''capability.read''
      else if pathname = ''/devices'' \<or> starts_with ''/devices/'' pathname then ''device.read''
      else if starts_with ''/organizations/'' pathname \<and> ends_with ''/devices'' pathname then ''device.read''
      else if starts_with ''/organizations/'' pathname then ''site.read''
      else ''organization.read'')"

definition firstAllowedRoute :: "string list \<Rightarrow> string option" where
  "firstAllowedRoute permissions =
     (if ''device.read'' \<in> set permissions then Some ''/devices''
      else if ''alarm.read'' \<in> set permissions then Some ''/alarms''
      else if ''notification.read'' \<in> set permissions then Some ''/notifications''
      else None)"

section \<open>What is rendered\<close>

datatype tone = InfoTone | WarningTone | DangerTone

datatype gate_action =
    RetryLogout int | CancelLogout | RetryRefresh int | RetryAccess | LogoutAction
  | GateLink string

record gate =
  gt_title :: string
  gt_description :: string
  gt_tone :: tone
  gt_busy :: bool
  gt_actions :: "gate_action list"

datatype guard_view = Children | Nothing | Gate gate

definition access_gate :: "string \<Rightarrow> string \<Rightarrow> tone \<Rightarrow> bool \<Rightarrow> gate_action list \<Rightarrow> guard_view" where
  "access_gate title description tn busy actions =
     Gate \<lparr> gt_title = title, gt_description = description, gt_tone = tn, gt_busy = busy, gt_actions = actions \<rparr>"

definition gate_seconds :: "int option \<Rightarrow> int \<Rightarrow> int" where
  "gate_seconds retryAt now = (case retryAt of None \<Rightarrow> 0 | Some t \<Rightarrow> max 0 \<lceil>rat_of_int (t - now) / 1000\<rceil>)"

definition logout_failure_gate :: "string \<Rightarrow> int option \<Rightarrow> int \<Rightarrow> guard_view" where
  "logout_failure_gate message retryAt now =
     access_gate ((uk ''Ne vdalos@ zaverwyty sesi$''))
       (message @ ((uk '' Vyxid qe ne zaverweno. Povtorit= sprobu, koly vidnovyt=s@ z|#dnann@.'')))
       WarningTone False [RetryLogout (gate_seconds retryAt now), CancelLogout]"

definition session_recovery_gate :: "string \<Rightarrow> int option \<Rightarrow> int \<Rightarrow> guard_view" where
  "session_recovery_gate message retryAt now =
     access_gate ((uk ''Ne vdalos@ pereviryty sesi$''))
       (message @ ((uk '' Vidnovit= z|#dnann@ ta povtorit= perevirku, qob prodov*yty robotu.'')))
       WarningTone False [RetryRefresh (gate_seconds retryAt now)]"

text \<open>The quotation marks of the text, in UTF-8.\<close>

definition guillemets :: "string \<Rightarrow> string" where
  "guillemets s = [CHR 0xC2, CHR 0xAB] @ s @ [CHR 0xC2, CHR 0xBB]"

text \<open>The branches on the access, once the session is authenticated.\<close>

definition guard_access :: "string \<Rightarrow> access_snapshot \<Rightarrow> guard_view" where
  "guard_access pathname snapshot =
     (case snapshot of
        AccessIdle \<Rightarrow> access_gate ((uk ''Perevir@#mo profil= i prava''))
          ((uk ''Zavanta*u#mo vawi orhanizaci~ ta dostupne obladnann@.'')) InfoTone True []
      | AccessResolving \<Rightarrow> access_gate ((uk ''Perevir@#mo profil= i prava''))
          ((uk ''Zavanta*u#mo vawi orhanizaci~ ta dostupne obladnann@.'')) InfoTone True []
      | AccessUnavailable message \<Rightarrow> access_gate ((uk ''Ne vdalos@ pereviryty prava''))
          (message @ ((uk '' Povtorit= perevirku abo oberit= inwu orhanizaci$.''))) WarningTone False
          [GateLink ''/account/security'', RetryAccess, GateLink ''/organizations'', LogoutAction]
      | AccessNone profile message reason \<Rightarrow>
          access_gate
            (if reason = EmptyDirectory then (uk ''Dodajte svij perwyj kontroler'') else (uk ''Nema# dostupno~ orhanizaci~''))
            (if reason = EmptyDirectory
             then (uk ''Dodajte kontroler iz komplektu. U majstri aktyvaci~ vy stvoryte ob|#kt i vyberete ^astotnyj peretvor$va^.'')
             else message)
            (if reason = EmptyDirectory then InfoTone else WarningTone) False
            [GateLink ''/connect'', RetryAccess, GateLink ''/organizations'', LogoutAction]
      | AccessDirectory profile scope \<Rightarrow> if pathname = ''/organizations'' then Children else Nothing
      | AccessReady r \<Rightarrow>
          (let permissions = acc_permissions (rd_access r) in
           if requiredPermission pathname \<in> set permissions then Children
           else access_gate ((uk ''Nedostatn=o prav''))
             (((uk ''Vawa rol= '')) @ guillemets (organizationRoleLabel (acc_organization_role (rd_access r))
                 (user_platform_role (rd_profile r)))
               @ ((uk '' ne dozvol@# vidkryty cej rozdil v orhanizaci~ '')) @ guillemets (org_name (rd_organization r))
               @ ((uk ''. Zvernit=s@ do administratora orhanizaci~.'')))
             DangerTone False
             (GateLink ''/organizations'' #
              (case firstAllowedRoute permissions of None \<Rightarrow> [] | Some route \<Rightarrow> [GateLink route]))))"

definition WorkspaceGuard :: "int \<Rightarrow> string \<Rightarrow> session \<Rightarrow> access_snapshot \<Rightarrow> guard_view" where
  "WorkspaceGuard now pathname session snapshot =
     (case session of
        LoggingOut _ _ \<Rightarrow> access_gate ((uk ''Zaverwu#mo sesi$''))
          ((uk ''Zaverwu#mo vyxid z oblikovoho zapysu. Za^ekajte kil=ka sekund.'')) InfoTone True []
      | LogoutFailed message retryAt _ \<Rightarrow> logout_failure_gate message retryAt now
      | Restoring _ \<Rightarrow> access_gate ((uk ''Perevir@#mo sesi$'')) ((uk ''Perevir@#mo vaw vxid, qob vidkryty kabinet.'')) InfoTone True []
      | Unavailable message retryAt \<Rightarrow> session_recovery_gate message retryAt now
      | Anonymous _ \<Rightarrow> access_gate ((uk ''Potriben vxid'')) ((uk ''Perexodymo do zaxyqeno~ formy vxodu&'')) InfoTone True []
      | Authenticated _ \<Rightarrow> guard_access pathname snapshot)"

section \<open>The redirect\<close>

definition login_url :: "string \<Rightarrow> string" where
  "login_url pathname = ''/login?returnTo='' @ encode_component (if pathname = [] then ''/devices'' else pathname)"

text \<open>The effect on \<open>redirectTargetRef\<close>, and the route the router is sent to, if any.\<close>

definition guard_redirect :: "string \<Rightarrow> session \<Rightarrow> string option \<Rightarrow> string option \<times> string option" where
  "guard_redirect pathname session target =
     (case session of
        Anonymous reason \<Rightarrow>
          (let wanted = (if reason = ''logout'' then ''/login?loggedOut=1'' else login_url pathname) in
           if target = Some wanted then (target, None) else (Some wanted, Some wanted))
      | _ \<Rightarrow> (None, None))"

section \<open>The proxy\<close>

record proxy_request =
  pr_path :: string
  pr_origin :: string
  pr_headers :: "(string \<times> string) list"

record proxy_env =
  pe_development :: bool
  pe_portal :: "string option"
  pe_preview :: "string option"
  pe_api_base :: string

record proxy_response =
  ps_not_found :: bool
  ps_request_headers :: "(string \<times> string) list"
  ps_headers :: "(string \<times> string) list"

text \<open>\<open>origin.replace(/^http/u, "ws")\<close>\<close>

definition ws_origin :: "string \<Rightarrow> string" where
  "ws_origin origin = (if starts_with ''http'' origin then ''ws'' @ drop 4 origin else origin)"

text \<open>The single quotes of the policy.\<close>

definition csp_quote :: "string \<Rightarrow> string" where
  "csp_quote s = [CHR 0x27] @ s @ [CHR 0x27]"

definition proxy_policy :: "proxy_env \<Rightarrow> proxy_request \<Rightarrow> string \<Rightarrow> string" where
  "proxy_policy env request nonce =
     js_join ''; ''
       [''default-src '' @ csp_quote ''self'',
        ''script-src '' @ csp_quote ''self'' @ '' '' @ csp_quote (''nonce-'' @ nonce) @ '' '' @ csp_quote ''strict-dynamic''
          @ (if pe_development env then '' '' @ csp_quote ''unsafe-eval'' else []),
        ''script-src-attr '' @ csp_quote ''none'',
        ''style-src '' @ csp_quote ''self'' @ '' '' @ csp_quote ''unsafe-inline'',
        ''connect-src '' @ csp_quote ''self'' @ '' '' @ pe_api_base env
          @ (if pe_development env then '' '' @ ws_origin (pr_origin request) else []),
        ''img-src '' @ csp_quote ''self'' @ '' data: blob:'',
        ''font-src '' @ csp_quote ''self'',
        ''object-src '' @ csp_quote ''none'',
        ''base-uri '' @ csp_quote ''none'',
        ''form-action '' @ csp_quote ''self'',
        ''frame-src '' @ csp_quote ''none'',
        ''frame-ancestors '' @ csp_quote ''none'']"

definition under_path :: "string \<Rightarrow> string \<Rightarrow> bool" where
  "under_path p path = (path = p \<or> starts_with (p @ ''/'') path)"

text \<open>\<open>/^\/(register|connect)(?:\/|$)/u\<close>\<close>

definition proxy_hidden :: "string \<Rightarrow> string \<Rightarrow> bool" where
  "proxy_hidden portal path =
     ((portal \<noteq> ''staff'' \<and> under_path ''/operations'' path)
      \<or> (portal = ''customer'' \<and> under_path ''/factory'' path)
      \<or> (portal = ''staff'' \<and> (under_path ''/register'' path \<or> under_path ''/connect'' path)))"

definition set_header :: "string \<Rightarrow> string \<Rightarrow> (string \<times> string) list \<Rightarrow> (string \<times> string) list" where
  "set_header name v headers = filter (\<lambda>h. js_lower (fst h) \<noteq> js_lower name) headers @ [(name, v)]"

definition proxy :: "proxy_env \<Rightarrow> proxy_request \<Rightarrow> string \<Rightarrow> proxy_response" where
  "proxy env request nonce =
     (let policy = proxy_policy env request nonce;
          portal = (case pe_portal env of None \<Rightarrow> ''demo'' | Some p \<Rightarrow> p);
          path = pr_path request in
      \<lparr> ps_not_found = (proxy_hidden portal path
          \<or> (under_path ''/ui-kit'' path \<and> pe_preview env \<noteq> Some ''1'')),
        ps_request_headers = set_header ''Content-Security-Policy'' policy (pr_headers request),
        ps_headers =
          [(''Content-Security-Policy'', policy),
           (''Cache-Control'', ''private, no-store, max-age=0''),
           (''X-Content-Type-Options'', ''nosniff''),
           (''X-Frame-Options'', ''DENY''),
           (''Referrer-Policy'', ''strict-origin-when-cross-origin''),
           (''Permissions-Policy'', ''camera=(), microphone=(), geolocation=()'')] \<rparr>)"

section \<open>Routes and targets\<close>

fun join_on :: "char \<Rightarrow> string list \<Rightarrow> string" where
  "join_on d [] = []"
| "join_on d [p] = p"
| "join_on d (p # q # ps) = p @ [d] @ join_on d (q # ps)"

lemma split_on_ne: "split_on d s \<noteq> []"
  by (cases s) (auto split: list.splits)

lemma join_split: "join_on d (split_on d s) = s"
proof (induction s)
  case (Cons c cs)
  then show ?case
    using split_on_ne [of d cs] by (cases "split_on d cs"; cases "tl (split_on d cs)") auto
qed simp

lemma device_route:
  assumes "device_path (split_on (CHR ''/'') pathname) = Some x"
  shows "starts_with ''/devices/'' pathname"
proof -
  from assms have "split_on (CHR ''/'') pathname = [[], ''devices'', x]"
    by (cases "split_on (CHR ''/'') pathname" rule: device_path.cases) (auto split: if_splits)
  with join_split [of "CHR ''/''" pathname] show ?thesis by (auto simp: starts_with_iff)
qed

lemma alarm_route:
  assumes "alarm_path_of (split_on (CHR ''/'') pathname) = Some x"
  shows "starts_with ''/alarms/'' pathname"
proof -
  from assms obtain y ys where "split_on (CHR ''/'') pathname = [] # ''alarms'' # y # ys"
    by (cases "split_on (CHR ''/'') pathname" rule: alarm_path_of.cases) (auto split: if_splits)
  with join_split [of "CHR ''/''" pathname] show ?thesis by (cases ys) (auto simp: starts_with_iff)
qed

lemma notifications_start:
  assumes "notifications_route (split_on (CHR ''/'') pathname)"
  shows "starts_with ''/organizations/'' pathname"
proof -
  from assms obtain x c r where "split_on (CHR ''/'') pathname = [] # ''organizations'' # x # c # r"
    by (cases "split_on (CHR ''/'') pathname" rule: notifications_route.cases) auto
  with join_split [of "CHR ''/''" pathname] show ?thesis by (cases r) (auto simp: starts_with_iff)
qed

lemma starts_with_conflict:
  "starts_with p s \<Longrightarrow> starts_with q s \<Longrightarrow> length p \<le> length q \<Longrightarrow> take (length p) q = p"
  by (auto simp: starts_with_def) (metis min.absorb2 min.commute take_take)

lemma device_permission:
  assumes "nt_device (inventoryTarget pathname) = Some d"
  shows "requiredPermission pathname \<in> {''device.read'', ''alarm.read''}"
proof -
  let ?parts = "split_on (CHR ''/'') pathname"
  from assms have "device_path ?parts \<noteq> None \<or> alarm_path_of ?parts \<noteq> None"
    by (auto simp: inventoryTarget_def Let_def no_target_def invalid_target_def split: option.splits if_splits prod.splits)
  then consider "starts_with ''/devices/'' pathname" | "starts_with ''/alarms/'' pathname"
    using device_route alarm_route by blast
  then show ?thesis
  proof cases
    case 1
    from notifications_start [of pathname] 1 starts_with_conflict [of "''/devices/''" pathname "''/organizations/''"]
    have "\<not> notifications_route ?parts" by auto
    moreover have "pathname \<noteq> ''/notifications''" "pathname \<noteq> ''/alarms''" "pathname \<noteq> ''/ui-kit''"
      "\<not> starts_with ''/alarms/'' pathname" "\<not> starts_with ''/ui-kit/'' pathname"
      using 1 starts_with_conflict [of "''/alarms/''" pathname "''/devices/''"]
        starts_with_conflict [of "''/ui-kit/''" pathname "''/devices/''"]
      by (auto simp: starts_with_def)
    ultimately show ?thesis using 1 by (simp add: requiredPermission_def)
  next
    case 2
    from notifications_start [of pathname] 2 starts_with_conflict [of "''/alarms/''" pathname "''/organizations/''"]
    have "\<not> notifications_route ?parts" by auto
    moreover have "pathname \<noteq> ''/notifications''" using 2 by (auto simp: starts_with_def)
    ultimately show ?thesis using 2 by (simp add: requiredPermission_def)
  qed
qed

lemma guard_children:
  "WorkspaceGuard now pathname session snapshot = Children \<longleftrightarrow>
     (\<exists>a. session = Authenticated a)
     \<and> ((\<exists>r. snapshot = AccessReady r \<and> requiredPermission pathname \<in> set (acc_permissions (rd_access r)))
        \<or> (\<exists>profile scope. snapshot = AccessDirectory profile scope \<and> pathname = ''/organizations''))"
  by (auto simp: WorkspaceGuard_def guard_access_def access_gate_def logout_failure_gate_def session_recovery_gate_def Let_def
      split: session.splits access_snapshot.splits if_splits)

section \<open>Properties\<close>

text \<open>C8: No page opens without its permission: whatever the runs of the session and of the access provider, the
  guard renders the page only when the session is authenticated and either it is the directory of organizations or
  the access is ready, belongs to the route and its organization and contains the permission the route requires;
  a route about a device requires the permission to read devices or alarms.\<close>

theorem page_needs_permission:
  assumes "auth_reachable au" and "access_reachable ax"
    and "WorkspaceGuard now pathname (as_session au) (shown_access pathname ax) = Children"
  shows "as_token au \<noteq> None
    \<and> ((\<exists>r. shown_access pathname ax = AccessReady r \<and> requiredPermission pathname \<in> set (acc_permissions (rd_access r))
          \<and> ready_ok pathname r \<and> ax_scope ax = Some (rd_scope r)
          \<and> (nt_device (inventoryTarget pathname) \<noteq> None \<longrightarrow>
               requiredPermission pathname \<in> {''device.read'', ''alarm.read''}))
       \<or> (\<exists>profile scope. shown_access pathname ax = AccessDirectory profile scope \<and> user_is_active profile
          \<and> pathname = ''/organizations''))"
proof -
  from assms(3) obtain a where a: "as_session au = Authenticated a"
    and v: "(\<exists>r. shown_access pathname ax = AccessReady r \<and> requiredPermission pathname \<in> set (acc_permissions (rd_access r)))
      \<or> (\<exists>profile scope. shown_access pathname ax = AccessDirectory profile scope \<and> pathname = ''/organizations'')"
    by (auto simp: guard_children)
  have t: "as_token au \<noteq> None"
    using auth_reachable_inv [OF assms(1)] a by (auto simp: session_inv_def core_def)
  have p: "published_ok (ax_path ax) (ax_scope ax) (fst (ax_resolved ax)) (snd (ax_resolved ax))"
    using access_reachable_inv [OF assms(2)] by (simp add: access_inv_def)
  from v show ?thesis
  proof (elim disjE exE conjE)
    fix r
    assume r: "shown_access pathname ax = AccessReady r" "requiredPermission pathname \<in> set (acc_permissions (rd_access r))"
    then have "fst (ax_resolved ax) = pathname" "snd (ax_resolved ax) = AccessReady r"
      by (auto simp: shown_access_def split: if_splits)
    with p r t device_permission [of pathname] show ?thesis by auto
  next
    fix profile scope
    assume r: "shown_access pathname ax = AccessDirectory profile scope" "pathname = ''/organizations''"
    then have "snd (ax_resolved ax) = AccessDirectory profile scope"
      by (auto simp: shown_access_def split: if_splits)
    with p r t show ?thesis by auto
  qed
qed

lemma page_needs_permission_witness:
  "as_token sample_signed_in \<noteq> None \<and> requiredPermission ''/devices'' = ''device.read''"
proof -
  obtain a where a: "as_session sample_signed_in = Authenticated a"
    using sample_signed_in_core by (auto simp: core_def)
  have "case shown_access ''/devices'' sample_access_state of
      AccessReady r \<Rightarrow> ''device.read'' \<in> set (acc_permissions (rd_access r)) | _ \<Rightarrow> False"
    by code_simp
  then obtain r where r: "shown_access ''/devices'' sample_access_state = AccessReady r"
      "''device.read'' \<in> set (acc_permissions (rd_access r))"
    by (cases "shown_access ''/devices'' sample_access_state") auto
  have q: "requiredPermission ''/devices'' = ''device.read''" by code_simp
  with a r have "WorkspaceGuard 0 ''/devices'' (as_session sample_signed_in) (shown_access ''/devices'' sample_access_state) = Children"
    by (simp add: guard_children)
  from page_needs_permission [OF sample_signed_in_reachable sample_access_reachable this] q show ?thesis by simp
qed

end
