(* ===== verification/Alarms.thy ===== *)
theory Alarms
  imports Equipment Programs
begin

text \<open>
  \<open>lib/api/alarms.ts\<close> and \<open>lib/api/notifications.ts\<close>: alarms, the history of an alarm, the receipt
  of an acknowledgement, and the notifications of an organization.

  Rows are the validated payloads. \<open>wf_alarm\<close>, \<open>wf_transition\<close> and \<open>wf_notification\<close> are what one
  row guarantees; the pages interpret \<open>page_item\<close>.
\<close>

section \<open>Alarms\<close>

definition alarm_path :: string where
  "alarm_path = ''/api/v1/alarms''"

definition alarmSeverityLabels :: "(string \<times> string) list" where
  "alarmSeverityLabels = [(''warning'', uk ''Popered*enn@''), (''critical'', uk ''Kryty^na'')]"

definition alarmStateLabels :: "(string \<times> string) list" where
  "alarmStateLabels = [(''active'', uk ''Aktyvna''), (''resolved'', uk ''Usunena'')]"

definition transitionLabels :: "(string \<times> string) list" where
  "transitionLabels =
     [(''raised'', uk ''Vynykla''), (''repeated'', uk ''Povtorenn@''), (''acknowledged'', uk ''Pidtverd*ena operatorom''),
      (''resolved'', uk ''Usunena''), (''reopened'', uk ''Vidkryta povtorno''),
      (''severity_changed'', uk ''Zmineno va*lyvist='')]"

definition nullable :: "json \<Rightarrow> string \<Rightarrow> (json \<Rightarrow> string \<Rightarrow> string \<Rightarrow> string result) \<Rightarrow> string option result" where
  "nullable record key read =
     (if fld record key = JNull then Inr None
      else bindE (read record key alarm_path) (\<lambda>s. Inr (Some s)))"

definition nullableText :: "json \<Rightarrow> string \<Rightarrow> unit result" where
  "nullableText record key =
     reject (fld record key \<noteq> JNull \<and> \<not> is_string (fld record key)) alarm_path key"

definition is_severity :: "json \<Rightarrow> bool" where
  "is_severity v = (v = JStr ''warning'' \<or> v = JStr ''critical'')"

definition is_alarm_state :: "json \<Rightarrow> bool" where
  "is_alarm_state v = (v = JStr ''active'' \<or> v = JStr ''resolved'')"

definition parseAlarm :: "json \<Rightarrow> string \<Rightarrow> string option \<Rightarrow> json result" where
  "parseAlarm raw deviceId alarmId =
     (let g = fld raw in
     seqE (reject (\<not> isRecord raw) alarm_path ''DeviceAlarmRead'') (
     bindE (requiredUuid raw ''id'' alarm_path) (\<lambda>id.
     seqE (matchingIdOpt id alarmId alarm_path) (
     bindE (requiredUuid raw ''device_id'' alarm_path) (\<lambda>did.
     seqE (matchingId did deviceId alarm_path) (
     seqE (forE (\<lambda>key. requiredString raw key alarm_path) [''alarm_key'', ''alarm_type'', ''title'']) (
     seqE (reject (\<not> is_alarm_state (g ''state'')) alarm_path ''state'') (
     seqE (reject (\<not> is_severity (g ''severity'')) alarm_path ''severity'') (
     seqE (forE (\<lambda>key. requiredDateTime raw key alarm_path)
             [''first_raised_at'', ''last_raised_at'', ''created_at'', ''updated_at'']) (
     bindE (nullable raw ''resolved_at'' requiredDateTime) (\<lambda>resolved.
     bindE (nullable raw ''acknowledged_at'' requiredDateTime) (\<lambda>acknowledged.
     bindE (nullable raw ''acknowledged_by_user_id'' requiredUuid) (\<lambda>actor.
     seqE (ignoreE (nullable raw ''last_event_id'' requiredUuid)) (
     seqE (forE (nullableText raw) [''description'', ''acknowledged_by_email'', ''acknowledged_by_display_name'']) (
     seqE (reject ((g ''state'' = JStr ''resolved'') \<noteq> (resolved \<noteq> None)) alarm_path ''resolved state/time'') (
     seqE (reject (acknowledged = None \<and> (actor \<noteq> None \<or> g ''acknowledged_by_email'' \<noteq> JNull
             \<or> g ''acknowledged_by_display_name'' \<noteq> JNull)) alarm_path ''acknowledgement snapshot'') (
     seqE (reject (\<not> is_safe_integer (g ''occurrence_count'') \<or> int_of (g ''occurrence_count'') < 1
             \<or> \<not> isRecord (g ''context'')) alarm_path ''count/context'') (
     Inr raw))))))))))))))))))"

definition row_id :: "json \<Rightarrow> string" where
  "row_id r = str_of (fld r ''id'')"

text \<open>The filters; the empty text filters nothing.\<close>

record alarm_filters =
  flt_state :: string
  flt_severity :: string
  flt_type :: string

definition filtered_out :: "alarm_filters \<Rightarrow> json \<Rightarrow> bool" where
  "filtered_out filters row =
     ((flt_state filters \<noteq> [] \<and> fld row ''state'' \<noteq> JStr (flt_state filters))
      \<or> (flt_severity filters \<noteq> [] \<and> fld row ''severity'' \<noteq> JStr (flt_severity filters))
      \<or> (flt_type filters \<noteq> [] \<and> fld row ''alarm_type'' \<noteq> JStr (flt_type filters)))"

definition parseAlarmPage :: "json \<Rightarrow> string \<Rightarrow> alarm_filters \<Rightarrow> json list result" where
  "parseAlarmPage raw deviceId filters =
     bindE (parsePage (\<lambda>item. parseAlarm item deviceId None) row_id (PAGE_SIZE + 1) raw) (\<lambda>rows.
     seqE (forE (\<lambda>row. reject (filtered_out filters row) alarm_path ''matching filters'') rows) (
     Inr rows))"

definition parseTransition :: "string \<Rightarrow> string \<Rightarrow> json \<Rightarrow> json result" where
  "parseTransition alarmId organizationId item =
     seqE (reject (\<not> isRecord item) alarm_path ''AlarmTransitionRead'') (
     seqE (ignoreE (requiredUuid item ''id'' alarm_path)) (
     bindE (requiredUuid item ''alarm_id'' alarm_path) (\<lambda>aid.
     seqE (matchingId aid alarmId alarm_path) (
     seqE (reject (\<not> is_string (fld item ''transition_type'')
             \<or> \<not> has_label transitionLabels (str_of (fld item ''transition_type''))) alarm_path ''transition_type'') (
     seqE (forE (\<lambda>key. reject (fld item key \<noteq> JNull \<and> \<not> is_alarm_state (fld item key)) alarm_path key)
             [''from_state'', ''to_state'']) (
     seqE (ignoreE (requiredDateTime item ''occurred_at'' alarm_path)) (
     seqE (forE (\<lambda>key. nullable item key requiredUuid) [''event_id'', ''actor_user_id'', ''actor_auth_session_id'']) (
     bindE (nullable item ''actor_organization_id'' requiredUuid) (\<lambda>organization.
     seqE (case organization of None \<Rightarrow> Inr () | Some oid \<Rightarrow> matchingId oid organizationId alarm_path) (
     seqE (forE (nullableText item) [''actor_organization_role'', ''actor_email'', ''actor_display_name'', ''reason'']) (
     seqE (reject (\<not> isRecord (fld item ''data'')) alarm_path ''transition data'') (
     Inr item))))))))))))"

definition parseTransitions :: "json \<Rightarrow> string \<Rightarrow> string \<Rightarrow> json list result" where
  "parseTransitions raw alarmId organizationId =
     parsePage (parseTransition alarmId organizationId) row_id (PAGE_SIZE + 1) raw"

definition parseAcknowledgement :: "json \<Rightarrow> string \<Rightarrow> string \<Rightarrow> json result" where
  "parseAcknowledgement raw deviceId alarmId =
     bindE (parseAlarm raw deviceId (Some alarmId)) (\<lambda>alarm.
     seqE (reject (\<not> truthy (fld alarm ''acknowledged_at'')) alarm_path ''acknowledged receipt'') (
     Inr alarm))"

section \<open>Notifications\<close>

definition notification_path :: string where
  "notification_path = ''/api/v1/notifications''"

definition notificationKindLabels :: "(string \<times> string) list" where
  "notificationKindLabels =
     [(''raised'', uk ''Vynykla avari@''), (''severity_changed'', uk ''Zmineno va*lyvist=''),
      (''resolved'', uk ''Pry^ynu usuneno'')]"

definition parseNotification :: "json \<Rightarrow> string \<Rightarrow> string option \<Rightarrow> json result" where
  "parseNotification raw organizationId expectedId =
     (let p = notification_path; g = fld raw in
     seqE (reject (\<not> isRecord raw) p ''AlarmNotificationRead'') (
     bindE (requiredUuid raw ''id'' p) (\<lambda>actualId.
     seqE (matchingIdOpt actualId expectedId p) (
     bindE (requiredUuid raw ''organization_id'' p) (\<lambda>oid.
     seqE (matchingId oid organizationId p) (
     seqE (forE (\<lambda>key. requiredUuid raw key p) [''device_id'', ''alarm_id'', ''transition_id'']) (
     seqE (ignoreE (requiredString raw ''title'' p)) (
     seqE (reject (g ''description'' \<noteq> JNull \<and> \<not> is_string (g ''description'')) p ''description'') (
     seqE (reject (\<not> is_string (g ''kind'') \<or> \<not> has_label notificationKindLabels (str_of (g ''kind''))) p ''kind'') (
     seqE (reject (\<not> is_severity (g ''severity'')) p ''severity'') (
     seqE (forE (\<lambda>key. requiredDateTime raw key p) [''occurred_at'', ''created_at'']) (
     seqE (whenE (g ''read_at'' \<noteq> JNull) (requiredDateTime raw ''read_at'' p)) (
     Inr raw)))))))))))))"

definition parseNotificationPage :: "json \<Rightarrow> string \<Rightarrow> bool \<Rightarrow> json list result" where
  "parseNotificationPage raw organizationId unreadOnly =
     bindE (parsePage (\<lambda>item. parseNotification item organizationId None) row_id (PAGE_SIZE + 1) raw) (\<lambda>rows.
     seqE (reject (unreadOnly \<and> list_ex (\<lambda>row. fld row ''read_at'' \<noteq> JNull) rows) notification_path
             ''unread filter'') (
     Inr rows))"

definition parseUnreadCount :: "json \<Rightarrow> int result" where
  "parseUnreadCount raw =
     (let n = fld raw ''unread_count'' in
      if \<not> isRecord raw \<or> \<not> is_safe_integer n \<or> int_of n < 0
      then invalidResponse notification_path ''unread_count'' else Inr (int_of n))"

definition parseReadReceipt :: "json \<Rightarrow> string \<Rightarrow> string result" where
  "parseReadReceipt raw expectedId =
     seqE (reject (\<not> isRecord raw) notification_path ''NotificationReadReceipt'') (
     bindE (requiredUuid raw ''notification_id'' notification_path) (\<lambda>nid.
     seqE (matchingId nid expectedId notification_path) (
     requiredDateTime raw ''read_at'' notification_path)))"

section \<open>What rows guarantee\<close>

definition wf_alarm :: "string \<Rightarrow> json \<Rightarrow> bool" where
  "wf_alarm deviceId a \<longleftrightarrow>
     isRecord a \<and> (\<exists>i. fld a ''id'' = JStr i \<and> is_uuid i) \<and> fld a ''device_id'' = JStr deviceId
     \<and> is_alarm_state (fld a ''state'') \<and> is_severity (fld a ''severity'')
     \<and> (fld a ''state'' = JStr ''resolved'' \<longleftrightarrow> fld a ''resolved_at'' \<noteq> JNull)
     \<and> (fld a ''acknowledged_at'' = JNull \<longrightarrow>
          fld a ''acknowledged_by_user_id'' = JNull \<and> fld a ''acknowledged_by_email'' = JNull
          \<and> fld a ''acknowledged_by_display_name'' = JNull)
     \<and> 1 \<le> int_of (fld a ''occurrence_count'')"

lemma nullable_ok:
  "nullable r k read = Inr x \<longleftrightarrow>
     (fld r k = JNull \<and> x = None) \<or> (fld r k \<noteq> JNull \<and> (\<exists>s. read r k alarm_path = Inr s \<and> x = Some s))"
  by (auto simp: nullable_def ok_iff)

lemma nullable_None: "nullable r k read = Inr x \<Longrightarrow> x = None \<longleftrightarrow> fld r k = JNull"
  by (auto simp: nullable_ok)

lemma parseAlarm_wf:
  assumes "parseAlarm raw did aid = Inr a"
  shows "a = raw \<and> wf_alarm did a \<and> (\<forall>i. aid = Some i \<and> i \<noteq> [] \<longrightarrow> fld a ''id'' = JStr i)"
  using assms
  unfolding parseAlarm_def Let_def bindE_ok seqE_ok reject_ok ignoreE_ok matchingId_ok matchingIdOpt_ok
    requiredUuid_ok sum.inject
  apply (elim exE conjE)
  subgoal premises p for id did' resolved acknowledged actor
    using p(1-7,9,10) nullable_None [OF p(12)] nullable_None [OF p(13)] nullable_None [OF p(14)] p(17-19)
    unfolding wf_alarm_def p(20) [symmetric]
    by (auto split: option.splits)
  done

definition wf_transition :: "string \<Rightarrow> string \<Rightarrow> json \<Rightarrow> bool" where
  "wf_transition alarmId organizationId t \<longleftrightarrow>
     isRecord t \<and> (\<exists>i. fld t ''id'' = JStr i \<and> is_uuid i) \<and> fld t ''alarm_id'' = JStr alarmId
     \<and> (fld t ''actor_organization_id'' = JNull \<or> fld t ''actor_organization_id'' = JStr organizationId)"

lemma parseTransition_wf:
  assumes "parseTransition aid oid t = Inr r"
  shows "r = t \<and> wf_transition aid oid r"
  using assms
  unfolding parseTransition_def bindE_ok seqE_ok reject_ok ignoreE_ok matchingId_ok requiredUuid_ok sum.inject
  apply (elim exE conjE)
  subgoal premises p for i a organization
    using p(1-6,11,12) unfolding wf_transition_def p(15) [symmetric]
    by (cases organization) (auto simp: nullable_ok requiredUuid_ok matchingId_ok)
  done

definition wf_notification :: "string \<Rightarrow> json \<Rightarrow> bool" where
  "wf_notification organizationId n \<longleftrightarrow>
     isRecord n \<and> (\<exists>i. fld n ''id'' = JStr i \<and> is_uuid i) \<and> fld n ''organization_id'' = JStr organizationId
     \<and> is_severity (fld n ''severity'')
     \<and> (fld n ''read_at'' = JNull \<or> (\<exists>d. fld n ''read_at'' = JStr d \<and> date_parse d \<noteq> None))"

lemma parseNotification_wf:
  assumes "parseNotification raw oid e = Inr n"
  shows "n = raw \<and> wf_notification oid n \<and> (\<forall>i. e = Some i \<and> i \<noteq> [] \<longrightarrow> fld n ''id'' = JStr i)"
  using assms
  unfolding parseNotification_def Let_def bindE_ok seqE_ok reject_ok ignoreE_ok whenE_ok matchingId_ok
    matchingIdOpt_ok requiredUuid_ok requiredDateTime_ok sum.inject
  apply (elim exE conjE)
  subgoal premises p for i o'
    using p(1-7,12,14,15) unfolding wf_notification_def p(15) [symmetric]
    by (auto split: option.splits)
  done

interpretation alarm_page: page_item "\<lambda>v. parseAlarm v did None" row_id "wf_alarm did"
  by unfold_locales (use parseAlarm_wf in blast)

interpretation transition_page: page_item "parseTransition aid oid" row_id "wf_transition aid oid"
  by unfold_locales (use parseTransition_wf in blast)

interpretation notification_page: page_item "\<lambda>v. parseNotification v oid None" row_id "wf_notification oid"
  by unfold_locales (use parseNotification_wf in blast)

lemma parseAlarmPage_sound:
  assumes "parseAlarmPage raw did filters = Inr rows"
  shows "(\<forall>r \<in> set rows. wf_alarm did r \<and> \<not> filtered_out filters r)
    \<and> distinct (map row_id rows) \<and> length rows \<le> 21"
proof -
  from assms have p: "parsePage (\<lambda>item. parseAlarm item did None) row_id (PAGE_SIZE + 1) raw = Inr rows"
    and f: "\<forall>r \<in> set rows. \<not> filtered_out filters r"
    unfolding parseAlarmPage_def bindE_ok seqE_ok forE_ok reject_ok by auto
  from alarm_page.page_sound [OF p] f show ?thesis by (simp add: PAGE_SIZE_def)
qed

lemma parseTransitions_sound:
  assumes "parseTransitions raw aid oid = Inr rows"
  shows "(\<forall>r \<in> set rows. wf_transition aid oid r) \<and> distinct (map row_id rows) \<and> length rows \<le> 21"
  using transition_page.page_sound [OF assms [unfolded parseTransitions_def]] by (simp add: PAGE_SIZE_def)

lemma parseNotificationPage_sound:
  assumes "parseNotificationPage raw oid unreadOnly = Inr rows"
  shows "(\<forall>r \<in> set rows. wf_notification oid r \<and> (unreadOnly \<longrightarrow> fld r ''read_at'' = JNull))
    \<and> distinct (map row_id rows) \<and> length rows \<le> 21"
proof -
  from assms have p: "parsePage (\<lambda>item. parseNotification item oid None) row_id (PAGE_SIZE + 1) raw = Inr rows"
    and f: "\<not> (unreadOnly \<and> list_ex (\<lambda>row. fld row ''read_at'' \<noteq> JNull) rows)"
    unfolding parseNotificationPage_def bindE_ok seqE_ok reject_ok by auto
  from notification_page.page_sound [OF p] f show ?thesis by (auto simp: PAGE_SIZE_def list_ex_iff)
qed

lemma parseAcknowledgement_sound:
  assumes "parseAcknowledgement raw did aid = Inr a"
  shows "wf_alarm did a \<and> fld a ''acknowledged_at'' \<noteq> JNull \<and> (aid \<noteq> [] \<longrightarrow> fld a ''id'' = JStr aid)"
proof -
  from assms have p: "parseAlarm raw did (Some aid) = Inr a" and t: "truthy (fld a ''acknowledged_at'')"
    unfolding parseAcknowledgement_def bindE_ok seqE_ok reject_ok by auto
  from t have "fld a ''acknowledged_at'' \<noteq> JNull" by auto
  with parseAlarm_wf [OF p] show ?thesis by blast
qed

text \<open>A page of alarms that is shown holds only well-formed alarms of the device that match every
  filter that was set, no alarm twice, and at most the page and one look-ahead row.\<close>

theorem alarm_page_matches:
  assumes "parseAlarmPage raw did filters = Inr rows"
  shows "(\<forall>r \<in> set rows. wf_alarm did r \<and> \<not> filtered_out filters r)
    \<and> distinct (map row_id rows) \<and> length rows \<le> 21"
  using assms by (rule parseAlarmPage_sound)

definition sample_alarm :: "string \<Rightarrow> json" where
  "sample_alarm severity = (let u = JStr (replicate 8 (CHR ''1'') @ ''-0000-4000-8000-000000000000'');
     d = JStr ''2026-07-01T10:00:00Z'' in JObj
     [(''id'', u), (''device_id'', u), (''alarm_key'', JStr ''k''), (''alarm_type'', JStr ''dry_run''),
      (''title'', JStr ''T''), (''state'', JStr ''active''), (''severity'', JStr severity),
      (''first_raised_at'', d), (''last_raised_at'', d), (''created_at'', d), (''updated_at'', d),
      (''resolved_at'', JNull), (''acknowledged_at'', JNull), (''acknowledged_by_user_id'', JNull),
      (''last_event_id'', JNull), (''description'', JNull), (''acknowledged_by_email'', JNull),
      (''acknowledged_by_display_name'', JNull), (''occurrence_count'', JNum (Fin 2)), (''context'', JObj [])])"

lemma alarm_page_matches_witness:
  "\<exists>rows. parseAlarmPage (JArr [sample_alarm ''critical'']) (replicate 8 (CHR ''1'') @ ''-0000-4000-8000-000000000000'')
       \<lparr> flt_state = [], flt_severity = ''critical'', flt_type = [] \<rparr> = Inr rows
     \<and> distinct (map row_id rows)"
proof -
  have "holds (\<lambda>_. True) (parseAlarmPage (JArr [sample_alarm ''critical''])
      (replicate 8 (CHR ''1'') @ ''-0000-4000-8000-000000000000'')
      \<lparr> flt_state = [], flt_severity = ''critical'', flt_type = [] \<rparr>)"
    by code_simp
  then show ?thesis using alarm_page_matches unfolding holds_iff by blast
qed

end
