(* ===== verification/Acknowledgement.thy ===== *)
theory Acknowledgement
  imports Alarms
begin

text \<open>
  \<open>features/use-alarm-acknowledgement.ts\<close> and \<open>features/use-notification-read.ts\<close>: a button that asks the
  server to change one record, and what the page may conclude from the answer.

  Both hooks are the same machine on a different record: \<open>guarded\<close> is its state, \<open>guarded_confirm\<close> the
  click, \<open>guarded_settled\<close> the answer. \<open>alarmConfirm\<close>, \<open>alarmSettled\<close>, \<open>markRead\<close> and \<open>readSettled\<close> are the two
  instances. \<open>gd_read\<close> counts the successful readings of the record (the property \<open>read\<close> of the hook),
  \<open>gd_sent\<close> the requests sent, each with the reading it was based on, \<open>gd_refreshes\<close> the refreshes asked for.
\<close>

section \<open>The machine\<close>

datatype outcome_kind = Confirmed | Uncertain | Conflicting | DeniedOutcome

record guarded_outcome =
  go_kind :: outcome_kind
  go_message :: string
  go_error :: "exn option"
  go_checked_read :: nat
  go_retry_at :: int

record guarded =
  gd_pending :: "nat option"
  gd_aborted :: "nat list"
  gd_fresh :: nat
  gd_mounted :: bool
  gd_busy :: bool
  gd_outcome :: "guarded_outcome option"
  gd_now :: int
  gd_calls :: "(nat \<times> nat) list"
  gd_sent :: "nat list"
  gd_refreshes :: nat

definition guarded_start :: guarded where
  "guarded_start = \<lparr> gd_pending = None, gd_aborted = [], gd_fresh = 0, gd_mounted = True, gd_busy = False,
     gd_outcome = None, gd_now = 0, gd_calls = [], gd_sent = [], gd_refreshes = 0 \<rparr>"

text \<open>The page goes offline or into the background, or is left.\<close>

definition guarded_abort :: "guarded \<Rightarrow> guarded" where
  "guarded_abort st = (case gd_pending st of None \<Rightarrow> st | Some i \<Rightarrow> st\<lparr>gd_aborted := i # gd_aborted st\<rparr>)"

definition guarded_browser :: "bool \<Rightarrow> guarded \<Rightarrow> guarded" where
  "guarded_browser available st = (if available then st else guarded_abort st)"

definition guarded_unmount :: "guarded \<Rightarrow> guarded" where
  "guarded_unmount st = guarded_abort (st\<lparr>gd_mounted := False\<rparr>)"

text \<open>The interval that runs while a retry has to wait.\<close>

definition guarded_tick :: "int \<Rightarrow> guarded \<Rightarrow> guarded" where
  "guarded_tick time st = (if gd_outcome st \<noteq> None \<and> go_retry_at (the (gd_outcome st)) \<noteq> 0 then st\<lparr>gd_now := time\<rparr> else st)"

definition guarded_waiting :: "guarded \<Rightarrow> bool" where
  "guarded_waiting v = (case gd_outcome v of None \<Rightarrow> False | Some out \<Rightarrow> gd_now v < go_retry_at out)"

definition guarded_denied :: "guarded \<Rightarrow> bool" where
  "guarded_denied v = (case gd_outcome v of None \<Rightarrow> False | Some out \<Rightarrow> go_kind out = DeniedOutcome)"

text \<open>The click, on the rendering \<open>v\<close> that offered it; the record has been read \<open>read\<close> times.\<close>

definition guarded_confirm :: "bool \<Rightarrow> bool \<Rightarrow> nat \<Rightarrow> guarded \<Rightarrow> guarded" where
  "guarded_confirm can available read st =
     (if \<not> can \<or> gd_pending st \<noteq> None \<or> \<not> available then st
      else st\<lparr>gd_pending := Some (gd_fresh st), gd_fresh := Suc (gd_fresh st), gd_busy := True, gd_outcome := None,
              gd_calls := gd_calls st @ [(gd_fresh st, read)], gd_sent := gd_sent st @ [read]\<rparr>)"

definition guarded_finally :: "nat \<Rightarrow> guarded \<Rightarrow> guarded" where
  "guarded_finally i st =
     st\<lparr>gd_calls := filter (\<lambda>c. fst c \<noteq> i) (gd_calls st),
        gd_pending := (if gd_pending st = Some i then None else gd_pending st),
        gd_busy := (if gd_mounted st then False else gd_busy st)\<rparr>"

definition msg_aborted :: string where
  "msg_aborted = ''signal is aborted without reason''"

text \<open>The answer: the request, its validator, \<open>throwIfAborted\<close>, the new outcome, \<open>finally\<close>.
  \<open>outcome_of\<close> is the outcome of the \<open>catch\<close> block, with whether it asks for a refresh.\<close>

definition guarded_settled ::
  "(exn + json \<Rightarrow> exn + unit) \<Rightarrow> string \<Rightarrow> (exn \<Rightarrow> nat \<Rightarrow> guarded_outcome \<times> bool) \<Rightarrow> nat \<Rightarrow> exn + json \<Rightarrow> guarded \<Rightarrow> guarded" where
  "guarded_settled check message outcome_of i answer st =
     (case map_of (gd_calls st) i of
        None \<Rightarrow> st
      | Some read \<Rightarrow>
          guarded_finally i
            (if \<not> gd_mounted st then st
             else (case bindE (check answer)
                      (\<lambda>_. if i \<in> set (gd_aborted st) then Inl (JsExn msg_aborted) else Inr ()) of
                 Inr _ \<Rightarrow> st\<lparr>gd_outcome := Some \<lparr> go_kind = Confirmed, go_message = message, go_error = None,
                            go_checked_read = read, go_retry_at = 0 \<rparr>, gd_refreshes := Suc (gd_refreshes st)\<rparr>
               | Inl e \<Rightarrow>
                   st\<lparr>gd_outcome := Some (fst (outcome_of e read)),
                      gd_refreshes := (if snd (outcome_of e read) then Suc (gd_refreshes st) else gd_refreshes st)\<rparr>)))"

definition guarded_retry_at :: "int \<Rightarrow> exn \<Rightarrow> int" where
  "guarded_retry_at now e =
     (case e of JsExn _ \<Rightarrow> 0
      | ApiExn err \<Rightarrow>
          if err_kind err = RateLimited
          then now + (case err_retry_after err of None \<Rightarrow> 30 | Some s \<Rightarrow> s) * 1000 else 0)"

definition error_in :: "api_error_kind list \<Rightarrow> exn \<Rightarrow> bool" where
  "error_in kinds e = (case e of JsExn _ \<Rightarrow> False | ApiExn err \<Rightarrow> err_kind err \<in> set kinds)"

definition checked :: "(json \<Rightarrow> 'a result) \<Rightarrow> exn + json \<Rightarrow> exn + unit" where
  "checked parse answer =
     bindE answer (\<lambda>raw. case parse raw of Inl e \<Rightarrow> Inl (ApiExn e) | Inr _ \<Rightarrow> Inr ())"

section \<open>Acknowledging an alarm\<close>

definition alarm_needsCheck :: "nat \<Rightarrow> guarded \<Rightarrow> bool" where
  "alarm_needsCheck read v =
     (case gd_outcome v of None \<Rightarrow> False | Some out \<Rightarrow> go_kind out \<noteq> Confirmed \<and> read \<le> go_checked_read out)"

text \<open>\<open>canConfirm\<close>; \<open>alarm\<close> is the alarm shown, if any.\<close>

definition canConfirm :: "string list \<Rightarrow> bool \<Rightarrow> json option \<Rightarrow> nat \<Rightarrow> guarded \<Rightarrow> bool" where
  "canConfirm permissions active alarm read v =
     (''alarm.acknowledge'' \<in> set permissions \<and> active \<and> \<not> gd_busy v \<and> \<not> alarm_needsCheck read v
      \<and> \<not> guarded_waiting v \<and> \<not> guarded_denied v
      \<and> (case alarm of None \<Rightarrow> False
         | Some a \<Rightarrow> fld a ''state'' = JStr ''active'' \<and> \<not> truthy (fld a ''acknowledged_at'')))"

definition alarmConfirm ::
  "string list \<Rightarrow> bool \<Rightarrow> json option \<Rightarrow> guarded \<Rightarrow> bool \<Rightarrow> nat \<Rightarrow> guarded \<Rightarrow> guarded" where
  "alarmConfirm permissions active alarm v available read st =
     guarded_confirm (canConfirm permissions active alarm read v) available read st"

definition alarm_outcome :: "int \<Rightarrow> exn \<Rightarrow> nat \<Rightarrow> guarded_outcome \<times> bool" where
  "alarm_outcome now e read =
     (let denied = error_in [Unauthorized, Forbidden, NotFound] e; conflict = error_in [Conflict] e in
      (\<lparr> go_kind = (if denied then DeniedOutcome else if conflict then Conflicting else Uncertain),
         go_message =
           (if denied then apiErrorDisplayMessage e
            else if conflict then (uk ''Stan incydentu zminyvs@ do pidtverd*enn@. Pere^ytu#mo joho.'')
            else ((uk ''Rezul=tat pidtverd*enn@ nevidomyj. Perevirte stan pered povtorno$ sprobo$. '')) @ apiErrorDisplayMessage e),
         go_error = Some e, go_checked_read = read, go_retry_at = guarded_retry_at now e \<rparr>, conflict))"

definition alarmSettled :: "int \<Rightarrow> string \<Rightarrow> string \<Rightarrow> nat \<Rightarrow> exn + json \<Rightarrow> guarded \<Rightarrow> guarded" where
  "alarmSettled now deviceId alarmId =
     guarded_settled (checked (\<lambda>raw. parseAcknowledgement raw deviceId alarmId))
       ((uk ''Otrymann@ avari~ pidtverd*eno. Onovl$#mo ~~ stan.'')) (alarm_outcome now)"

section \<open>Marking a notification as read\<close>

definition read_needsCheck :: "nat \<Rightarrow> guarded \<Rightarrow> bool" where
  "read_needsCheck read v = (case gd_outcome v of None \<Rightarrow> False | Some out \<Rightarrow> read \<le> go_checked_read out)"

definition canRead :: "json option \<Rightarrow> bool \<Rightarrow> nat \<Rightarrow> guarded \<Rightarrow> bool" where
  "canRead item active read v =
     ((case item of None \<Rightarrow> False | Some n \<Rightarrow> \<not> truthy (fld n ''read_at'')) \<and> active \<and> \<not> gd_busy v
      \<and> \<not> read_needsCheck read v \<and> \<not> guarded_waiting v \<and> \<not> guarded_denied v)"

definition markRead :: "json option \<Rightarrow> bool \<Rightarrow> guarded \<Rightarrow> bool \<Rightarrow> nat \<Rightarrow> guarded \<Rightarrow> guarded" where
  "markRead item active v available read st = guarded_confirm (canRead item active read v) available read st"

definition read_outcome :: "int \<Rightarrow> exn \<Rightarrow> nat \<Rightarrow> guarded_outcome \<times> bool" where
  "read_outcome now e read =
     (let denied = error_in [Unauthorized, Forbidden, NotFound] e in
      (\<lparr> go_kind = (if denied then DeniedOutcome else Uncertain),
         go_message =
           (if denied then apiErrorDisplayMessage e
            else ((uk ''Rezul=tat pro^ytann@ nevidomyj. Spo^atku perevirte povidomlenn@. '')) @ apiErrorDisplayMessage e),
         go_error = Some e, go_checked_read = read, go_retry_at = guarded_retry_at now e \<rparr>, False))"

definition readSettled :: "int \<Rightarrow> string \<Rightarrow> nat \<Rightarrow> exn + json \<Rightarrow> guarded \<Rightarrow> guarded" where
  "readSettled now itemId =
     guarded_settled (checked (\<lambda>raw. parseReadReceipt raw itemId))
       ((uk ''Pro^ytann@ zbere*eno. Pere^ytu#mo povidomlenn@.'')) (read_outcome now)"

section \<open>Runs\<close>

datatype guarded_event =
    GClick "string list" bool "json option" bool nat
  | GAnswer int nat "exn + json"
  | GBrowser bool | GTick int | GUnmount

fun guarded_step ::
  "(string list \<Rightarrow> bool \<Rightarrow> json option \<Rightarrow> nat \<Rightarrow> guarded \<Rightarrow> bool) \<Rightarrow> (int \<Rightarrow> nat \<Rightarrow> exn + json \<Rightarrow> guarded \<Rightarrow> guarded)
     \<Rightarrow> guarded_event \<Rightarrow> guarded \<Rightarrow> guarded" where
  "guarded_step can settle (GClick permissions active item available read) st =
     guarded_confirm (can permissions active item read st) available read st"
| "guarded_step can settle (GAnswer now i answer) st = settle now i answer st"
| "guarded_step can settle (GBrowser available) st = guarded_browser available st"
| "guarded_step can settle (GTick time) st = guarded_tick time st"
| "guarded_step can settle GUnmount st = guarded_unmount st"

definition guarded_run ::
  "(string list \<Rightarrow> bool \<Rightarrow> json option \<Rightarrow> nat \<Rightarrow> guarded \<Rightarrow> bool) \<Rightarrow> (int \<Rightarrow> nat \<Rightarrow> exn + json \<Rightarrow> guarded \<Rightarrow> guarded)
     \<Rightarrow> guarded_event list \<Rightarrow> guarded" where
  "guarded_run can settle evs = foldl (\<lambda>st ev. guarded_step can settle ev st) guarded_start evs"

section \<open>What the button promises\<close>

text \<open>The abstract button: it asks once at a time; after an answer that settles nothing it asks again only on
  the ground of a newer reading of the record; after a refusal it asks no more.\<close>

datatype button = Ready | Asking nat | Settled nat | Unsettled nat | Refused | Gone

inductive button_step :: "button \<Rightarrow> button \<Rightarrow> bool" where
  stay: "button_step b b"
| first_ask: "button_step Ready (Asking r)"
| ask_again: "button_step (Settled r) (Asking r')"
| ask_informed: "r < r' \<Longrightarrow> button_step (Unsettled r) (Asking r')"
| settle: "button_step (Asking r) (Settled r)"
| unsettle: "button_step (Asking r) (Unsettled r)"
| refuse: "button_step (Asking r) Refused"
| leave: "button_step b Gone"

inductive_simps button_step_simps: "button_step a b"
inductive_cases refusedE: "button_step Refused b"
inductive_cases unsettledE: "button_step (Unsettled r) b"
inductive_cases askingE: "button_step (Asking r) b"

definition button_of :: "guarded \<Rightarrow> button" where
  "button_of st =
     (if \<not> gd_mounted st then Gone
      else (case gd_pending st of
              Some i \<Rightarrow> Asking (case map_of (gd_calls st) i of Some r \<Rightarrow> r | None \<Rightarrow> 0)
            | None \<Rightarrow>
                (case gd_outcome st of
                   None \<Rightarrow> Ready
                 | Some out \<Rightarrow>
                     (case go_kind out of
                        Confirmed \<Rightarrow> Settled (go_checked_read out)
                      | DeniedOutcome \<Rightarrow> Refused
                      | _ \<Rightarrow> Unsettled (go_checked_read out)))))"

definition guarded_inv :: "guarded \<Rightarrow> bool" where
  "guarded_inv st \<longleftrightarrow>
     (gd_pending st = None \<longrightarrow> gd_calls st = [])
     \<and> (\<forall>i. gd_pending st = Some i \<longrightarrow> i < gd_fresh st \<and> (\<exists>r. gd_calls st = [(i, r)]))
     \<and> (gd_mounted st \<longrightarrow> (gd_busy st \<longleftrightarrow> gd_pending st \<noteq> None))"

lemma guarded_abort_simps [simp]:
  "gd_pending (guarded_abort st) = gd_pending st" "gd_calls (guarded_abort st) = gd_calls st"
  "gd_fresh (guarded_abort st) = gd_fresh st" "gd_mounted (guarded_abort st) = gd_mounted st"
  "gd_busy (guarded_abort st) = gd_busy st" "gd_outcome (guarded_abort st) = gd_outcome st"
  "gd_sent (guarded_abort st) = gd_sent st"
  by (simp_all add: guarded_abort_def split: option.split)

lemma guarded_inv_start: "guarded_inv guarded_start"
  by (simp add: guarded_inv_def guarded_start_def)

lemma guarded_inv_confirm: "guarded_inv st \<Longrightarrow> guarded_inv (guarded_confirm can available read st)"
  by (auto simp: guarded_confirm_def guarded_inv_def)

lemma guarded_call: "guarded_inv st \<Longrightarrow> map_of (gd_calls st) i = Some r \<Longrightarrow> gd_pending st = Some i \<and> gd_calls st = [(i, r)]"
  by (cases "gd_pending st") (auto simp: guarded_inv_def split: if_splits)

text \<open>The interface between a button and its hook: what may be clicked, and what an error leaves behind.\<close>

locale guarded_button =
  fixes can :: "string list \<Rightarrow> bool \<Rightarrow> json option \<Rightarrow> nat \<Rightarrow> guarded \<Rightarrow> bool"
    and check :: "exn + json \<Rightarrow> exn + unit" and message :: string
    and outcome :: "int \<Rightarrow> exn \<Rightarrow> nat \<Rightarrow> guarded_outcome \<times> bool"
  assumes can_allowed: "can permissions active item read v \<Longrightarrow> \<not> guarded_denied v"
    and can_informed: "can permissions active item read v \<Longrightarrow> gd_outcome v = Some out \<Longrightarrow> go_kind out \<noteq> Confirmed \<Longrightarrow>
      go_checked_read out < read"
    and error_unconfirmed: "go_kind (fst (outcome now e read)) \<noteq> Confirmed"
    and error_read: "go_checked_read (fst (outcome now e read)) = read"
begin

lemma settle_cases:
  assumes "guarded_inv st" and "st' = guarded_settled check message (outcome now) i answer st"
  shows "st' = st
    \<or> (\<exists>r. gd_pending st = Some i \<and> gd_calls st = [(i, r)] \<and> gd_calls st' = [] \<and> gd_pending st' = None
         \<and> gd_mounted st' = gd_mounted st \<and> gd_fresh st' = gd_fresh st \<and> gd_busy st' = (\<not> gd_mounted st \<and> gd_busy st)
         \<and> (gd_mounted st \<longrightarrow> (\<exists>out. gd_outcome st' = Some out \<and> go_checked_read out = r
              \<and> (go_kind out = Confirmed \<longleftrightarrow> isOk (check answer) \<and> i \<notin> set (gd_aborted st)))))"
proof (cases "map_of (gd_calls st) i")
  case None
  with assms show ?thesis by (simp add: guarded_settled_def)
next
  case (Some r)
  note c = guarded_call [OF assms(1) Some]
  show ?thesis
  proof (cases "gd_mounted st")
    case False
    with Some c assms(2) show ?thesis by (simp add: guarded_settled_def guarded_finally_def)
  next
    case True
    show ?thesis
    proof (cases "bindE (check answer) (\<lambda>_. if i \<in> set (gd_aborted st) then Inl (JsExn msg_aborted) else Inr ())")
      case (Inr u)
      then have "isOk (check answer) \<and> i \<notin> set (gd_aborted st)"
        by (auto simp: bindE_def isOk_def split: sum.splits if_splits)
      with Some c True Inr assms(2) show ?thesis by (simp add: guarded_settled_def guarded_finally_def)
    next
      case (Inl e)
      then have "\<not> (isOk (check answer) \<and> i \<notin> set (gd_aborted st))"
        by (auto simp: bindE_def isOk_def split: sum.splits if_splits)
      with Some c True Inl assms(2) error_unconfirmed [of now e r] error_read [of now e r] show ?thesis
        by (auto simp: guarded_settled_def guarded_finally_def)
    qed
  qed
qed

lemma guarded_inv_settle: "guarded_inv st \<Longrightarrow> guarded_inv (guarded_settled check message (outcome now) i answer st)"
  using settle_cases [OF _ refl, of st now i answer] by (auto simp: guarded_inv_def)

lemma guarded_inv_step: "guarded_inv st \<Longrightarrow> guarded_inv (guarded_step can (\<lambda>now. guarded_settled check message (outcome now)) ev st)"
proof (cases ev)
  case (GTick t)
  moreover assume "guarded_inv st"
  ultimately show ?thesis by (simp add: guarded_tick_def guarded_inv_def)
next
  case (GBrowser b)
  moreover assume "guarded_inv st"
  ultimately show ?thesis by (simp add: guarded_browser_def guarded_inv_def)
next
  case GUnmount
  moreover assume "guarded_inv st"
  ultimately show ?thesis by (simp add: guarded_unmount_def guarded_inv_def)
qed (simp_all add: guarded_inv_confirm guarded_inv_settle)

lemma guarded_inv_run: "guarded_inv (guarded_run can (\<lambda>now. guarded_settled check message (outcome now)) evs)"
  by (induction evs rule: rev_induct) (simp_all add: guarded_run_def guarded_inv_start guarded_inv_step)

lemma settle_refines:
  assumes "guarded_inv st"
  shows "button_step (button_of st) (button_of (guarded_settled check message (outcome now) i answer st))"
proof -
  obtain st' where st': "st' = guarded_settled check message (outcome now) i answer st" by simp
  have "button_step (button_of st) (button_of st')"
  proof (cases "st' = st \<or> \<not> gd_mounted st")
    case True
    with settle_cases [OF assms st'] show ?thesis by (auto simp: button_of_def button_step.stay)
  next
    case False
    with settle_cases [OF assms st'] obtain r out where r: "gd_pending st = Some i" "gd_calls st = [(i, r)]"
      "gd_pending st' = None" "gd_mounted st'" "gd_outcome st' = Some out" "go_checked_read out = r" by auto
    with False show ?thesis
      by (cases "go_kind out") (simp_all add: button_of_def button_step.intros)
  qed
  with st' show ?thesis by simp
qed

lemma click_refines:
  assumes "guarded_inv st"
  shows "button_step (button_of st) (button_of (guarded_confirm (can permissions active item read st) available read st))"
proof (cases "can permissions active item read st \<and> gd_pending st = None \<and> available \<and> gd_mounted st")
  case False
  then show ?thesis by (auto simp: guarded_confirm_def button_of_def button_step.stay)
next
  case True
  have c: "gd_calls st = []" using assms True by (auto simp: guarded_inv_def)
  show ?thesis
  proof (cases "gd_outcome st")
    case None
    with True c show ?thesis by (simp add: guarded_confirm_def button_of_def button_step.first_ask)
  next
    case (Some out)
    with can_allowed [of permissions active item read st] True have k: "go_kind out \<noteq> DeniedOutcome"
      by (simp add: guarded_denied_def)
    from can_informed [of permissions active item read st out] True Some
    have "go_kind out \<noteq> Confirmed \<Longrightarrow> go_checked_read out < read" by simp
    with True c Some k show ?thesis
      by (cases "go_kind out") (simp_all add: guarded_confirm_def button_of_def button_step.intros)
  qed
qed

lemma step_refines: "guarded_inv st \<Longrightarrow> button_step (button_of st) (button_of (guarded_step can (\<lambda>now. guarded_settled check message (outcome now)) ev st))"
proof (cases ev)
  case (GTick t)
  have "button_of (guarded_tick t st) = button_of st" by (simp add: guarded_tick_def button_of_def split: option.split)
  with GTick show ?thesis by (simp add: button_step.stay)
next
  case (GBrowser b)
  have "button_of (guarded_browser b st) = button_of st"
    by (simp add: guarded_browser_def guarded_abort_def button_of_def split: option.split)
  with GBrowser show ?thesis by (simp add: button_step.stay)
next
  case GUnmount
  then show ?thesis by (simp add: guarded_unmount_def button_of_def button_step.leave)
qed (simp_all add: click_refines settle_refines)

lemma run_refines:
  "button_of guarded_start = Ready
   \<and> button_step (button_of (guarded_run can (\<lambda>now. guarded_settled check message (outcome now)) evs)) (button_of (guarded_run can (\<lambda>now. guarded_settled check message (outcome now)) (evs @ [ev])))
   \<and> length (gd_calls (guarded_run can (\<lambda>now. guarded_settled check message (outcome now)) evs)) \<le> 1"
proof -
  have "length (gd_calls (guarded_run can (\<lambda>now. guarded_settled check message (outcome now)) evs)) \<le> 1"
    using guarded_inv_run [of evs] unfolding guarded_inv_def
    by (cases "gd_pending (guarded_run can (\<lambda>now. guarded_settled check message (outcome now)) evs)") auto
  moreover have "button_of guarded_start = Ready" by (simp add: button_of_def guarded_start_def)
  moreover have "guarded_run can (\<lambda>now. guarded_settled check message (outcome now)) (evs @ [ev]) = guarded_step can (\<lambda>now. guarded_settled check message (outcome now)) ev (guarded_run can (\<lambda>now. guarded_settled check message (outcome now)) evs)"
    by (simp add: guarded_run_def)
  ultimately show ?thesis using step_refines [OF guarded_inv_run] by simp
qed

end

definition read_can :: "string list \<Rightarrow> bool \<Rightarrow> json option \<Rightarrow> nat \<Rightarrow> guarded \<Rightarrow> bool" where
  "read_can permissions active item read v = canRead item active read v"

interpretation alarm_button: guarded_button canConfirm "checked (\<lambda>raw. parseAcknowledgement raw deviceId alarmId)"
  "((uk ''Otrymann@ avari~ pidtverd*eno. Onovl$#mo ~~ stan.''))" alarm_outcome
  for deviceId alarmId :: string
  by unfold_locales
    (auto simp: canConfirm_def alarm_needsCheck_def alarm_outcome_def Let_def split: option.splits)

interpretation read_button: guarded_button read_can "checked (\<lambda>raw. parseReadReceipt raw itemId)"
  "((uk ''Pro^ytann@ zbere*eno. Pere^ytu#mo povidomlenn@.''))" read_outcome
  for itemId :: string
  by unfold_locales
    (auto simp: read_can_def canRead_def read_needsCheck_def read_outcome_def Let_def split: option.splits)

section \<open>Properties\<close>

text \<open>C30: Both buttons that change a record implement the same contract, the abstract button: every
  step of a run is a step of it, starting from the ready button. So there is one request at a time, an answer
  either settles it, leaves it unsettled or refuses it, after an unsettled answer the next request rests on a
  newer reading of the record, and after a refusal there is none.\<close>

theorem buttons_refine:
  "button_of guarded_start = Ready
   \<and> button_step (button_of (guarded_run canConfirm (\<lambda>now. alarmSettled now deviceId alarmId) evs))
       (button_of (guarded_run canConfirm (\<lambda>now. alarmSettled now deviceId alarmId) (evs @ [ev])))
   \<and> length (gd_calls (guarded_run canConfirm (\<lambda>now. alarmSettled now deviceId alarmId) evs)) \<le> 1
   \<and> button_step (button_of (guarded_run read_can (\<lambda>now. readSettled now itemId) evs))
       (button_of (guarded_run read_can (\<lambda>now. readSettled now itemId) (evs @ [ev])))
   \<and> length (gd_calls (guarded_run read_can (\<lambda>now. readSettled now itemId) evs)) \<le> 1"
  using alarm_button.run_refines [of deviceId alarmId evs ev] read_button.run_refines [of itemId evs ev]
  by (simp add: alarmSettled_def readSettled_def)

end
