(* ===== verification/PanelQuery.thy ===== *)
theory PanelQuery
  imports QueryCache
begin

text \<open>
  \<open>features/use-panel-query.ts\<close> and \<open>features/refresh-actions.tsx\<close>: a query of a page section that polls within
  the budget of \<open>QueryCache\<close>, and the button that refreshes all sections of a page.

  The query library decides when a fetch starts (\<open>panel_poll\<close>, which it does only while \<open>enabled\<close> holds and no
  fetch is under way) and when the query function runs (\<open>panel_run\<close>, later, when the browser is online). A fetch
  that is cancelled leaves its request open: its answer still arrives (\<open>panel_settled\<close>). \<open>pq_history\<close> is not in
  the code: it lists, latest first, what happened, so that the properties can speak about it.
\<close>

section \<open>The panel query\<close>

datatype panel_entry = Clicked | Sent rat bool | Refused | Failed rat exn rat | Succeeded

record 'd panel =
  pq_prop_enabled :: bool
  pq_section :: bool
  pq_active :: bool
  pq_manual :: bool
  pq_pending :: bool
  pq_current :: "nat option"
  pq_open :: "nat list"
  pq_next :: nat
  pq_data :: "'d option"
  pq_budget :: polling_budget
  pq_history :: "panel_entry list"

definition panel_start :: "bool \<Rightarrow> bool \<Rightarrow> 'd panel" where
  "panel_start enabled sectionActive =
     \<lparr> pq_prop_enabled = enabled, pq_section = sectionActive, pq_active = False, pq_manual = False, pq_pending = False,
       pq_current = None, pq_open = [], pq_next = 0, pq_data = None, pq_budget = polling_start, pq_history = [] \<rparr>"

definition panel_enabled :: "'d panel \<Rightarrow> bool" where
  "panel_enabled st = (pq_prop_enabled st \<and> pq_section st)"

text \<open>The render with new props and the effect on the visibility of the page and the network.\<close>

definition panel_rendered :: "bool \<Rightarrow> bool \<Rightarrow> 'd panel \<Rightarrow> 'd panel" where
  "panel_rendered enabled sectionActive st = st\<lparr>pq_prop_enabled := enabled, pq_section := sectionActive\<rparr>"

definition panel_update :: "bool \<Rightarrow> bool \<Rightarrow> 'd panel \<Rightarrow> 'd panel" where
  "panel_update hidden onLine st =
     (let available = pq_section st \<and> \<not> hidden \<and> onLine; st' = st\<lparr>pq_active := available\<rparr> in
      if \<not> available then st'\<lparr>pq_pending := False, pq_current := None\<rparr> else st')"

definition fetching :: "'d panel \<Rightarrow> bool" where
  "fetching st = (pq_pending st \<or> pq_current st \<noteq> None)"

text \<open>The \<open>enabled\<close> and \<open>refetchInterval\<close> of the query, for an interval in milliseconds.\<close>

definition query_enabled :: "nat \<Rightarrow> ('d \<Rightarrow> bool) \<Rightarrow> 'd panel \<Rightarrow> bool" where
  "query_enabled intervalMs pollWhile st =
     (panel_enabled st \<and> pq_active st
      \<and> (case pq_data st of None \<Rightarrow> True | Some d \<Rightarrow> 0 < intervalMs \<and> pollWhile d))"

definition refetch_interval :: "nat \<Rightarrow> ('d \<Rightarrow> bool) \<Rightarrow> rat \<Rightarrow> 'd panel \<Rightarrow> rat option" where
  "refetch_interval intervalMs pollWhile now st =
     (if panel_enabled st \<and> pq_active st \<and> (case pq_data st of None \<Rightarrow> True | Some d \<Rightarrow> pollWhile d)
      then polling_interval (of_nat intervalMs) now (pq_budget st) else None)"

definition panel_poll :: "nat \<Rightarrow> ('d \<Rightarrow> bool) \<Rightarrow> 'd panel \<Rightarrow> 'd panel" where
  "panel_poll intervalMs pollWhile st =
     (if query_enabled intervalMs pollWhile st \<and> \<not> fetching st then st\<lparr>pq_pending := True\<rparr> else st)"

definition panel_refresh :: "rat \<Rightarrow> 'd panel \<Rightarrow> 'd panel" where
  "panel_refresh now st =
     (if \<not> panel_enabled st \<or> \<not> pq_active st \<or> fetching st \<or> polling_blocked True now (pq_budget st) then st
      else st\<lparr>pq_manual := True, pq_pending := True, pq_history := Clicked # pq_history st\<rparr>)"

definition base_interval :: "nat \<Rightarrow> rat" where
  "base_interval intervalMs = (if intervalMs = 0 then 30000 else of_nat intervalMs)"

text \<open>The query function up to its request.\<close>

definition panel_run :: "nat \<Rightarrow> rat \<Rightarrow> 'd panel \<Rightarrow> 'd panel" where
  "panel_run intervalMs now st =
     (if \<not> pq_pending st then st else
      (let explicit = pq_manual st; b = pq_budget st; st' = st\<lparr>pq_manual := False, pq_pending := False\<rparr> in
       if pb_error b \<noteq> None
         \<and> (polling_blocked explicit now b \<or> (\<not> explicit \<and> polling_interval (base_interval intervalMs) now b = None))
       then st'\<lparr>pq_history := Refused # pq_history st\<rparr>
       else st'\<lparr>pq_current := Some (pq_next st), pq_open := pq_next st # pq_open st, pq_next := Suc (pq_next st),
              pq_history := Sent now explicit # pq_history st\<rparr>))"

text \<open>What follows its request: an answer counts even when the fetch was cancelled, an error only when it was not.\<close>

definition panel_settled :: "nat \<Rightarrow> rat \<Rightarrow> rat \<Rightarrow> nat \<Rightarrow> exn + 'd \<Rightarrow> 'd panel \<Rightarrow> 'd panel" where
  "panel_settled intervalMs now jitter k outcome st =
     (if k \<notin> set (pq_open st) then st else
      (let current = (pq_current st = Some k); st' = st\<lparr>pq_open := remove1 k (pq_open st)\<rparr> in
       case outcome of
         Inr d \<Rightarrow> st'\<lparr>pq_budget := polling_success (pq_budget st), pq_history := Succeeded # pq_history st,
             pq_data := (if current then Some d else pq_data st), pq_current := (if current then None else pq_current st)\<rparr>
       | Inl e \<Rightarrow>
           if current
           then st'\<lparr>pq_budget := polling_failure e (base_interval intervalMs) now jitter (pq_budget st),
               pq_history := Failed now e (base_interval intervalMs) # pq_history st, pq_current := None\<rparr>
           else st'))"

inductive panel_reachable :: "'d panel \<Rightarrow> bool" where
  panel_started: "panel_reachable (panel_start enabled sectionActive)"
| panel_renders: "panel_reachable st \<Longrightarrow> panel_reachable (panel_rendered enabled sectionActive st)"
| panel_updates: "panel_reachable st \<Longrightarrow> panel_reachable (panel_update hidden onLine st)"
| panel_polls: "panel_reachable st \<Longrightarrow> panel_reachable (panel_poll i pollWhile st)"
| panel_refreshes: "panel_reachable st \<Longrightarrow> panel_reachable (panel_refresh now st)"
| panel_runs: "panel_reachable st \<Longrightarrow> panel_reachable (panel_run i now st)"
| panel_settles: "panel_reachable st \<Longrightarrow> panel_reachable (panel_settled i now jitter k outcome st)"

section \<open>The page's refresh actions\<close>

text \<open>The map of registered actions in the order of insertion. An action is an object: its token is its identity.
  The flags \<open>active\<close> and \<open>available\<close> are those of the latest render of its section.\<close>

record refresh_action =
  ra_token :: nat
  ra_disabled :: bool
  ra_error :: bool

type_synonym refresh_map = "(string \<times> refresh_action) list"

definition action_put :: "string \<Rightarrow> refresh_action \<Rightarrow> refresh_map \<Rightarrow> refresh_map" where
  "action_put key action previous =
     (if map_of previous key = None then previous @ [(key, action)]
      else map (\<lambda>(k, a). if k = key then (k, action) else (k, a)) previous)"

definition action_drop :: "string \<Rightarrow> refresh_action \<Rightarrow> refresh_map \<Rightarrow> refresh_map" where
  "action_drop key action previous =
     (case map_of previous key of
        None \<Rightarrow> previous
      | Some a \<Rightarrow> if ra_token a \<noteq> ra_token action then previous else filter (\<lambda>(k, _). k \<noteq> key) previous)"

record section_flags =
  sf_disabled :: bool
  sf_active :: bool
  sf_available :: bool

definition action_refresh :: "(string \<Rightarrow> section_flags) \<Rightarrow> string \<Rightarrow> string list" where
  "action_refresh latest key =
     (let current = latest key in if sf_active current \<and> sf_available current \<and> \<not> sf_disabled current then [key] else [])"

definition button_disabled :: "refresh_map \<Rightarrow> bool" where
  "button_disabled actions = (actions = [] \<or> (\<exists>a \<in> set actions. ra_disabled (snd a)))"

text \<open>The sections whose \<open>onRefresh\<close> a click calls.\<close>

definition button_click :: "(string \<Rightarrow> section_flags) \<Rightarrow> refresh_map \<Rightarrow> string list" where
  "button_click latest actions =
     (if \<exists>a \<in> set actions. ra_disabled (snd a) then [] else concat (map (\<lambda>a. action_refresh latest (fst a)) actions))"

definition settings_error :: "bool \<Rightarrow> refresh_map \<Rightarrow> bool" where
  "settings_error error actions = (error \<or> (\<exists>a \<in> set actions. ra_error (snd a)))"

section \<open>The history and the budget\<close>

fun last_failure :: "panel_entry list \<Rightarrow> (rat \<times> exn \<times> rat) option" where
  "last_failure [] = None"
| "last_failure (Failed t e base # h) = Some (t, e, base)"
| "last_failure (Succeeded # h) = None"
| "last_failure (_ # h) = last_failure h"

fun streak :: "panel_entry list \<Rightarrow> nat" where
  "streak [] = 0"
| "streak (Failed t e base # h) = Suc (streak h)"
| "streak (Succeeded # h) = 0"
| "streak (_ # h) = streak h"

fun clicked :: "panel_entry list \<Rightarrow> bool" where
  "clicked [] = False"
| "clicked (Clicked # h) = True"
| "clicked (Sent now m # h) = False"
| "clicked (Refused # h) = False"
| "clicked (_ # h) = clicked h"

fun retry_delay :: "exn \<Rightarrow> int option" where
  "retry_delay (ApiExn e) = err_retry_after e"
| "retry_delay (JsExn _) = None"

fun transient :: "exn \<Rightarrow> bool" where
  "transient (ApiExn e) = (err_kind e \<in> set transient_kinds)"
| "transient (JsExn _) = False"

text \<open>When a request may follow a history.\<close>

definition may_send :: "rat \<Rightarrow> bool \<Rightarrow> panel_entry list \<Rightarrow> bool" where
  "may_send now manual h \<longleftrightarrow>
     (\<forall>t e base. last_failure h = Some (t, e, base) \<longrightarrow>
        (\<forall>s. retry_delay e = Some s \<longrightarrow> t + of_int s * 1000 \<le> now)
        \<and> (\<not> manual \<longrightarrow> transient e \<and> t + min 300000 (base * 2 ^ min (streak h - 1) 5) \<le> now))
     \<and> (manual \<longrightarrow> clicked h)"

fun paced :: "panel_entry list \<Rightarrow> bool" where
  "paced [] = True"
| "paced (Sent now manual # h) = (may_send now manual h \<and> paced h)"
| "paced (_ # h) = paced h"

definition budget_of :: "polling_budget \<Rightarrow> panel_entry list \<Rightarrow> bool" where
  "budget_of b h \<longleftrightarrow>
     pb_failures b = streak h
     \<and> (case last_failure h of
          None \<Rightarrow> pb_error b = None
        | Some (t, e, base) \<Rightarrow> pb_error b = Some e
            \<and> (\<forall>s. retry_delay e = Some s \<longrightarrow> t + of_int s * 1000 = pb_retry_after_at b)
            \<and> t + min 300000 (base * 2 ^ min (streak h - 1) 5) \<le> pb_next_attempt_at b
            \<and> pb_retry_after_at b \<le> pb_next_attempt_at b)"

definition panel_inv :: "'d panel \<Rightarrow> bool" where
  "panel_inv st \<longleftrightarrow>
     paced (pq_history st) \<and> budget_of (pq_budget st) (pq_history st) \<and> (pq_manual st \<longrightarrow> clicked (pq_history st))
     \<and> (\<not> pq_active st \<longrightarrow> \<not> fetching st) \<and> (pq_pending st \<longrightarrow> pq_current st = None)
     \<and> (\<forall>k. pq_current st = Some k \<longrightarrow> k \<in> set (pq_open st)) \<and> (\<forall>k \<in> set (pq_open st). k < pq_next st)
     \<and> distinct (pq_open st)"

lemma budget_of_simps [simp]:
  "budget_of b (Clicked # h) = budget_of b h" "budget_of b (Sent now m # h) = budget_of b h"
  "budget_of b (Refused # h) = budget_of b h" "budget_of (polling_success b) (Succeeded # h)"
  "budget_of polling_start []"
  by (simp_all add: budget_of_def polling_success_def polling_start_def split: option.splits)

lemma base_pos: "0 < base_interval i"
  by (simp add: base_interval_def)

lemma failure_budget:
  assumes "budget_of b h"
  shows "budget_of (polling_failure e (base_interval i) now jitter b) (Failed now e (base_interval i) # h)"
proof -
  define w where "w = min 300000 (base_interval i * 2 ^ min (pb_failures b) 5)"
  have "0 \<le> w" using base_pos [of i] by (simp add: w_def)
  moreover have "1 \<le> 1 + max 0 (min 1 jitter) * (1 / 10 :: rat)" by simp
  ultimately have "w \<le> w * (1 + max 0 (min 1 jitter) * (1 / 10))" by (simp add: mult_le_cancel_left1)
  moreover have "pb_failures b = streak h" using assms by (simp add: budget_of_def)
  ultimately show ?thesis
    by (cases e) (auto simp: budget_of_def polling_failure_def Let_def w_def le_max_iff_disj split: option.splits)
qed

lemma run_may_send:
  assumes "budget_of b h" "manual \<longrightarrow> clicked h"
    and "\<not> (pb_error b \<noteq> None \<and> (polling_blocked manual now b \<or> (\<not> manual \<and> polling_interval (base_interval i) now b = None)))"
  shows "may_send now manual h"
proof (cases "last_failure h")
  case None
  with assms(2) show ?thesis by (simp add: may_send_def)
next
  case (Some f)
  obtain t e base where f: "f = (t, e, base)" by (cases f)
  with assms(1) Some have b: "pb_error b = Some e" "pb_retry_after_at b \<le> pb_next_attempt_at b"
    "t + min 300000 (base * 2 ^ min (streak h - 1) 5) \<le> pb_next_attempt_at b"
    "\<And>s. retry_delay e = Some s \<Longrightarrow> t + of_int s * 1000 = pb_retry_after_at b"
    by (auto simp: budget_of_def)
  with assms(3) have n: "\<not> polling_blocked manual now b"
    "\<not> manual \<Longrightarrow> polling_interval (base_interval i) now b \<noteq> None" by auto
  have "pb_retry_after_at b \<le> now" using n(1) b(2) by (auto simp: polling_blocked_def split: if_splits)
  moreover have "transient e \<and> t + min 300000 (base * 2 ^ min (streak h - 1) 5) \<le> now" if "\<not> manual"
    using n(1) n(2) [OF that] that b(1,3) by (cases e) (auto simp: polling_blocked_def polling_interval_def split: if_splits)
  ultimately show ?thesis using assms(2) Some f b(4) by (auto simp: may_send_def)
qed

lemma panel_inv_holds: "panel_reachable st \<Longrightarrow> panel_inv st"
proof (induction rule: panel_reachable.induct)
  case (panel_started enabled sectionActive)
  then show ?case by (simp add: panel_inv_def panel_start_def fetching_def)
next
  case (panel_renders st enabled sectionActive)
  then show ?case by (simp add: panel_inv_def panel_rendered_def fetching_def)
next
  case (panel_updates st hidden onLine)
  then show ?case by (auto simp: panel_inv_def panel_update_def Let_def fetching_def)
next
  case (panel_polls st i pollWhile)
  then show ?case by (auto simp: panel_inv_def panel_poll_def query_enabled_def fetching_def)
next
  case (panel_refreshes st now)
  then show ?case by (auto simp: panel_inv_def panel_refresh_def fetching_def)
next
  case (panel_runs st i now)
  show ?case
  proof (cases "pq_pending st")
    case True
    with panel_runs run_may_send [of "pq_budget st" "pq_history st" "pq_manual st" now i] show ?thesis
      by (auto simp: panel_inv_def panel_run_def Let_def fetching_def)
  qed (use panel_runs in \<open>simp add: panel_run_def\<close>)
next
  case (panel_settles st i now jitter k outcome)
  show ?case
  proof (cases outcome)
    case (Inl e)
    with panel_settles failure_budget [of "pq_budget st" "pq_history st" e i now jitter] show ?thesis
      by (auto simp: panel_inv_def panel_settled_def Let_def fetching_def)
  next
    case (Inr d)
    with panel_settles show ?thesis
      by (auto simp: panel_inv_def panel_settled_def Let_def fetching_def)
  qed
qed

section \<open>Properties\<close>

text \<open>C32: Polling obeys the budget: in every run of a panel, whatever the clock, the visibility, the network, the
  order of answers and the interval chosen, every request is sent no earlier than the \<open>Retry-After\<close> of the latest
  failure, an automatic one only after a transient failure and its backoff (doubling with each failure in a row up to
  five times, at most five minutes), and one that is not automatic answers a click not yet served; while the panel
  is not shown nothing is fetched; and a click on an idle panel is never lost, even after polling has stopped.\<close>

theorem panel_paced:
  assumes "panel_reachable st"
  shows "paced (pq_history st) \<and> (\<not> pq_active st \<longrightarrow> \<not> fetching st)
    \<and> (panel_enabled st \<and> pq_active st \<and> \<not> fetching st \<and> \<not> polling_blocked True now (pq_budget st) \<longrightarrow>
        pq_history (panel_run i now (panel_refresh now st)) = Sent now True # Clicked # pq_history st)"
  using panel_inv_holds [OF assms]
  by (auto simp: panel_inv_def panel_run_def panel_refresh_def Let_def)

lemma panel_paced_witness:
  "paced [Sent 0 False]"
proof -
  let ?st = "panel_run 5000 0 (panel_poll 5000 (\<lambda>_. True) (panel_update False True (panel_start True True))) :: unit panel"
  have "panel_reachable ?st" by (intro panel_reachable.intros)
  then have "paced (pq_history ?st)" using panel_paced by blast
  moreover have "pq_history ?st = [Sent 0 False]"
    by (simp add: panel_run_def panel_poll_def panel_update_def panel_start_def query_enabled_def panel_enabled_def
        fetching_def Let_def polling_start_def)
  ultimately show ?thesis by simp
qed

text \<open>Only sections that are shown and not disabled are refreshed, all of them when no action is disabled; and
  the removal of a registration that has been replaced leaves the new one in place.\<close>

lemma button_refreshes:
  "key \<in> set (button_click latest actions) \<longleftrightarrow>
     (\<forall>a \<in> set actions. \<not> ra_disabled (snd a)) \<and> key \<in> fst ` set actions
     \<and> sf_active (latest key) \<and> sf_available (latest key) \<and> \<not> sf_disabled (latest key)"
  by (force simp: button_click_def action_refresh_def Let_def)

lemma action_replaced:
  assumes "ra_token a \<noteq> ra_token b"
  shows "map_of (action_drop key a (action_put key b m)) key = Some b"
proof -
  have "map_of (map (\<lambda>(k, x). if k = key then (k, b) else (k, x)) m) key = Some b" if "map_of m key \<noteq> None"
    using that by (induction m) (auto split: if_splits)
  then have "map_of (action_put key b m) key = Some b" by (auto simp: action_put_def map_add_def)
  with assms show ?thesis by (simp add: action_drop_def)
qed

end
