(* ===== verification/AccountAction.thy ===== *)
theory AccountAction
  imports ApiErrors
begin

text \<open>
  \<open>features/use-account-action.ts\<close>: the serialized action behind every form that writes for an account or a
  controller. One action runs at a time, a second call returns at once, the message of a failure stays until the next
  action, and nothing is retried.

  A form with a confirmation box sits on top of it. Their common contract is the locale \<open>confirmed_form\<close>, an
  extension of \<open>request_log\<close>: an edit
  takes the tick away, and a request is sent only while the box is ticked. Inside it, every request of a run is shown
  to have been confirmed (\<open>confirmed_before\<close>): the box was ticked by the user, and from that moment until the request
  the form showed the same operation, the same reviewed target and the same fields.
\<close>

section \<open>One action at a time\<close>

record account_action =
  aa_pending :: bool
  aa_busy :: bool
  aa_error :: string

definition no_action :: account_action where
  "no_action = \<lparr> aa_pending = False, aa_busy = False, aa_error = [] \<rparr>"

text \<open>\<open>run\<close> up to the call of the action; \<open>None\<close> when it returns at once.\<close>

definition run_action :: "account_action \<Rightarrow> account_action option" where
  "run_action a = (if aa_pending a then None else Some \<lparr> aa_pending = True, aa_busy = True, aa_error = [] \<rparr>)"

text \<open>\<open>run\<close> after the action: its error, or the call of \<open>onSuccess\<close> that the form makes.\<close>

definition run_settled :: "exn + 'a \<Rightarrow> account_action \<Rightarrow> account_action" where
  "run_settled outcome a =
     a\<lparr>aa_pending := False, aa_busy := False,
       aa_error := (case outcome of Inl e \<Rightarrow> apiErrorDisplayMessage e | Inr _ \<Rightarrow> aa_error a)\<rparr>"

definition action_fail :: "string \<Rightarrow> account_action \<Rightarrow> account_action" where
  "action_fail message a = a\<lparr>aa_error := message\<rparr>"

lemma run_action_simps [simp]:
  "aa_pending a \<Longrightarrow> run_action a = None"
  "\<not> aa_pending a \<Longrightarrow> run_action a = Some \<lparr> aa_pending = True, aa_busy = True, aa_error = [] \<rparr>"
  by (simp_all add: run_action_def)

lemma action_simps [simp]:
  "aa_pending (run_settled o' a) = False" "aa_busy (run_settled o' a) = False"
  "aa_pending (action_fail m a) = aa_pending a" "aa_busy (action_fail m a) = aa_busy a"
  "aa_pending no_action = False" "aa_busy no_action = False"
  by (simp_all add: run_settled_def action_fail_def no_action_def)

section \<open>Runs\<close>

text \<open>\<open>along ok step st es\<close>: every event of the run of \<open>es\<close> from \<open>st\<close> is allowed by \<open>ok\<close> in the state it happens in.\<close>

fun along :: "('st \<Rightarrow> 'e \<Rightarrow> bool) \<Rightarrow> ('st \<Rightarrow> 'e \<Rightarrow> 'st) \<Rightarrow> 'st \<Rightarrow> 'e list \<Rightarrow> bool" where
  "along ok step st [] = True"
| "along ok step st (e # es) = (ok st e \<and> along ok step (step st e) es)"

lemma along_append: "along ok step st (xs @ ys) \<longleftrightarrow> along ok step st xs \<and> along ok step (foldl step st xs) ys"
  by (induction xs arbitrary: st) auto

lemma along_True [simp]: "along (\<lambda>_ _. True) step st es"
  by (induction es arbitrary: st) auto

lemma along_snoc: "along ok step st (es @ [e]) \<longleftrightarrow> along ok step st es \<and> ok (foldl step st es) e"
  by (simp add: along_append)

lemma run_invariant:
  assumes "holds_in st" and "\<And>st e. holds_in st \<Longrightarrow> ok st e \<Longrightarrow> holds_in (step st e)" and "along ok step st es"
  shows "holds_in (foldl step st es)"
  using assms by (induction es arbitrary: st) auto

lemma run_invariant_all:
  assumes "holds_in st" and "\<And>st e. holds_in st \<Longrightarrow> holds_in (step st e)"
  shows "holds_in (foldl step st es)"
  by (rule run_invariant [where ok = "\<lambda>_ _. True"]) (use assms in auto)

section \<open>Confirmed forms\<close>

text \<open>
  \<open>confirmed_before step content ticks request st es r\<close>: in the run of \<open>es\<close> from \<open>st\<close> the request \<open>r\<close> was made by an
  event \<open>e\<close> after an event \<open>t\<close> that ticks the box, and the form showed the same from before \<open>t\<close> until \<open>e\<close>.
\<close>

definition confirmed_before ::
  "('st \<Rightarrow> 'e \<Rightarrow> 'st) \<Rightarrow> ('st \<Rightarrow> 'c) \<Rightarrow> ('e \<Rightarrow> bool) \<Rightarrow> ('e \<Rightarrow> 'st \<Rightarrow> 'r option) \<Rightarrow> 'st \<Rightarrow> 'e list \<Rightarrow> 'r \<Rightarrow> bool" where
  "confirmed_before step content ticks request st es r \<longleftrightarrow>
     (\<exists>xs t ys e zs. es = xs @ t # ys @ e # zs \<and> ticks t
        \<and> request e (foldl step st (xs @ t # ys)) = Some r
        \<and> (\<forall>k \<le> length ys. content (foldl step st (xs @ t # take k ys)) = content (foldl step st xs)))"

text \<open>What a component keeps of its requests: an event makes at most one, and nothing else changes the list.\<close>

locale request_log =
  fixes step :: "'st \<Rightarrow> 'e \<Rightarrow> 'st"
    and request :: "'e \<Rightarrow> 'st \<Rightarrow> 'r option"
    and sent :: "'st \<Rightarrow> 'r list"
  assumes sent_step: "sent (step st e) = (case request e st of None \<Rightarrow> sent st | Some r \<Rightarrow> r # sent st)"
begin

lemma sent_requested:
  assumes "r \<in> set (sent (foldl step st es))" and "r \<notin> set (sent st)"
  shows "\<exists>xs e zs. es = xs @ e # zs \<and> request e (foldl step st xs) = Some r"
  using assms
proof (induction es rule: rev_induct)
  case (snoc e es)
  show ?case
  proof (cases "r \<in> set (sent (foldl step st es))")
    case True
    with snoc obtain xs e' zs where "es = xs @ e' # zs" "request e' (foldl step st xs) = Some r" by auto
    then show ?thesis by (intro exI [of _ xs] exI [of _ e'] exI [of _ "zs @ [e]"]) simp
  next
    case False
    with snoc.prems sent_step [of "foldl step st es" e] have "request e (foldl step st es) = Some r"
      by (auto split: option.splits)
    then show ?thesis by (intro exI [of _ es] exI [of _ e] exI [of _ "[]"]) simp
  qed
qed simp

end

locale confirmed_form = request_log step request sent
  for step :: "'st \<Rightarrow> 'e \<Rightarrow> 'st" and request :: "'e \<Rightarrow> 'st \<Rightarrow> 'r option" and sent :: "'st \<Rightarrow> 'r list" +
  fixes armed :: "'st \<Rightarrow> bool"
    and content :: "'st \<Rightarrow> 'c"
    and ticks :: "'e \<Rightarrow> bool"
  assumes armed_by: "armed (step st e) \<Longrightarrow> (ticks e \<or> armed st) \<and> content (step st e) = content st"
    and request_armed: "request e st = Some r \<Longrightarrow> armed st"
begin

lemma armed_since:
  assumes "armed (foldl step st es)" and "\<not> armed st"
  shows "\<exists>xs t ys. es = xs @ t # ys \<and> ticks t
    \<and> (\<forall>k \<le> length ys. content (foldl step st (xs @ t # take k ys)) = content (foldl step st xs))"
  using assms
proof (induction es rule: rev_induct)
  case (snoc e es)
  from snoc.prems armed_by [of "foldl step st es" e]
  have now: "ticks e \<or> armed (foldl step st es)"
    and same: "content (step (foldl step st es) e) = content (foldl step st es)" by auto
  show ?case
  proof (cases "armed (foldl step st es)")
    case True
    with snoc obtain xs t ys where es: "es = xs @ t # ys" "ticks t"
      and eq: "\<forall>k \<le> length ys. content (foldl step st (xs @ t # take k ys)) = content (foldl step st xs)" by auto
    have "content (foldl step st (xs @ t # take k (ys @ [e]))) = content (foldl step st xs)"
      if "k \<le> length (ys @ [e])" for k
    proof (cases "k \<le> length ys")
      case False
      with that have "take k (ys @ [e]) = ys @ [e]" by simp
      with same es(1) eq [rule_format, of "length ys"] show ?thesis by simp
    qed (use eq in simp)
    with es show ?thesis by (metis append_Cons append_assoc)
  next
    case False
    with now same show ?thesis by (intro exI [of _ es] exI [of _ e] exI [of _ "[]"]) simp
  qed
qed simp

lemma sent_confirmed:
  assumes "r \<in> set (sent (foldl step st es))" and "r \<notin> set (sent st)" and "\<not> armed st"
  shows "confirmed_before step content ticks request st es r"
proof -
  from sent_requested [OF assms(1,2)] obtain us e zs
    where us: "es = us @ e # zs" "request e (foldl step st us) = Some r" by blast
  from armed_since [OF request_armed [OF us(2)] assms(3)] obtain xs t ys
    where "us = xs @ t # ys" "ticks t"
      "\<forall>k \<le> length ys. content (foldl step st (xs @ t # take k ys)) = content (foldl step st xs)" by blast
  with us have "es = xs @ t # ys @ e # zs \<and> ticks t \<and> request e (foldl step st (xs @ t # ys)) = Some r
    \<and> (\<forall>k \<le> length ys. content (foldl step st (xs @ t # take k ys)) = content (foldl step st xs))" by simp
  then show ?thesis unfolding confirmed_before_def by blast
qed

end

end
