(* ===== verification/FactoryEquipment.thy ===== *)
theory FactoryEquipment
  imports Programs Numerals
begin

text \<open>
  \<open>features/factory-equipment-model.ts\<close>: the form in which the factory describes the converter of a cabinet and its
  motor, and the validation that turns it into the equipment sent to the server.

  The draft holds texts; \<open>factoryEquipmentDraft\<close> writes an equipment into one and \<open>validateFactoryEquipment\<close> reads it
  back. The round trip needs that \<open>Number\<close> reads what \<open>String\<close> printed (\<open>number_of_text\<close>).
\<close>

section \<open>The code\<close>

record factory_motor =
  mo_frequency :: rat
  mo_current :: "rat option"
  mo_voltage :: "rat option"
  mo_power :: "rat option"

record factory_equipment =
  fe_profile_id :: string
  fe_profile_version :: int
  fe_model :: string
  fe_serial :: "string option"
  fe_hardware :: "string option"
  fe_software :: "string option"
  fe_motor :: "factory_motor option"
  fe_min_hz :: rat
  fe_max_hz :: rat

record factory_profile =
  pf_id :: string
  pf_version :: int
  pf_manufacturer :: string
  pf_series :: string
  pf_driver_id :: "string option"
  pf_tested_model :: "string option"

datatype supply_kind = ControllerOnly | CabinetSupply

record equipment_draft =
  dr_supply :: supply_kind
  dr_series :: string
  dr_model :: string
  dr_serial :: string
  dr_hardware :: string
  dr_software :: string
  dr_motor_attached :: bool
  dr_rated_frequency :: string
  dr_rated_current :: string
  dr_rated_voltage :: string
  dr_rated_power :: string
  dr_min_hz :: string
  dr_max_hz :: string
  dr_reviewed :: bool

record preparation =
  pp_equipment :: "factory_equipment option"
  pp_valid :: bool
  pp_error :: "string option"

definition text_of :: "rat \<Rightarrow> string" where
  "text_of n = show_num (Fin n)"

definition optional_text :: "string option \<Rightarrow> string" where
  "optional_text v = (case v of None \<Rightarrow> [] | Some s \<Rightarrow> s)"

definition motor_text :: "(factory_motor \<Rightarrow> rat option) \<Rightarrow> factory_equipment option \<Rightarrow> string" where
  "motor_text f equipment =
     (case Option.bind (Option.bind equipment fe_motor) f of None \<Rightarrow> [] | Some n \<Rightarrow> text_of n)"

definition factoryEquipmentDraft :: "factory_equipment option \<Rightarrow> equipment_draft" where
  "factoryEquipmentDraft equipment =
     \<lparr> dr_supply = (if equipment \<noteq> None then CabinetSupply else ControllerOnly), dr_series = [],
       dr_model = (case equipment of None \<Rightarrow> [] | Some e \<Rightarrow> fe_model e),
       dr_serial = optional_text (Option.bind equipment fe_serial),
       dr_hardware = optional_text (Option.bind equipment fe_hardware),
       dr_software = optional_text (Option.bind equipment fe_software),
       dr_motor_attached = (Option.bind equipment fe_motor \<noteq> None),
       dr_rated_frequency = motor_text (\<lambda>m. Some (mo_frequency m)) equipment,
       dr_rated_current = motor_text mo_current equipment,
       dr_rated_voltage = motor_text mo_voltage equipment,
       dr_rated_power = motor_text mo_power equipment,
       dr_min_hz = (case equipment of None \<Rightarrow> [] | Some e \<Rightarrow> text_of (fe_min_hz e)),
       dr_max_hz = (case equipment of None \<Rightarrow> [] | Some e \<Rightarrow> text_of (fe_max_hz e)),
       dr_reviewed = False \<rparr>"

definition numeric :: "string \<Rightarrow> rat \<Rightarrow> rat \<Rightarrow> bool \<Rightarrow> rat option" where
  "numeric v minimum maximum inclusive =
     (if js_blank v then None
      else (case js_number v of
              Fin q \<Rightarrow> if (if inclusive then minimum \<le> q else minimum < q) \<and> q \<le> maximum then Some q else None
            | _ \<Rightarrow> None))"

definition rejected :: "string \<Rightarrow> preparation" where
  "rejected message = \<lparr> pp_equipment = None, pp_valid = False, pp_error = Some message \<rparr>"

text \<open>\<open>Math.abs(value * 100 - Math.round(value * 100)) > 1e-8\<close>\<close>

definition more_decimals :: "rat \<Rightarrow> bool" where
  "more_decimals v = (1 / 100000000 < \<bar>v * 100 - of_int (math_round (v * 100))\<bar>)"

definition chosen_profile :: "equipment_draft \<Rightarrow> factory_profile list \<Rightarrow> factory_equipment option \<Rightarrow> factory_profile option" where
  "chosen_profile draft profiles initial =
     List.find (\<lambda>item. js_upper (pf_manufacturer item) = ''SUSWE''
        \<and> (if dr_series draft \<noteq> [] then pf_series item = dr_series draft
           else Some (pf_id item) = map_option fe_profile_id initial)) profiles"

definition nameplate :: "string \<Rightarrow> rat option" where
  "nameplate text = (if js_blank text then None else numeric text 0 10000 False)"

text \<open>The motor of the draft, or the message of its rejection.\<close>

definition draft_motor :: "equipment_draft \<Rightarrow> rat \<Rightarrow> string + factory_motor option" where
  "draft_motor draft most =
     (if \<not> dr_motor_attached draft then Inr None
      else (case numeric (dr_rated_frequency draft) 0 400 False of
              None \<Rightarrow> Inl ((uk ''Vka*it= nominal=nu ^astotu zi wyl=dyka dvyhuna.''))
            | Some frequency \<Rightarrow>
                if frequency < most
                then Inl ((uk ''Maksymal=na robo^a ^astota ne mo*e perevyquvaty nominal=nu ^astotu dvyhuna.''))
                else (let current = nameplate (dr_rated_current draft); voltage = nameplate (dr_rated_voltage draft);
                          power = nameplate (dr_rated_power draft) in
                  if (\<not> js_blank (dr_rated_current draft) \<and> current = None)
                    \<or> (\<not> js_blank (dr_rated_voltage draft) \<and> voltage = None)
                    \<or> (\<not> js_blank (dr_rated_power draft) \<and> power = None)
                  then Inl ((uk ''Dani dvyhuna ma$t= buty dodatnymy ^yslamy zi wyl=dyka.''))
                  else Inr (Some \<lparr> mo_frequency = frequency, mo_current = current, mo_voltage = voltage, mo_power = power \<rparr>))))"

definition trimmed :: "string \<Rightarrow> string option" where
  "trimmed s = (if js_trim s = [] then None else Some (js_trim s))"

definition validateFactoryEquipment ::
  "equipment_draft \<Rightarrow> factory_profile list option \<Rightarrow> factory_equipment option \<Rightarrow> preparation" where
  "validateFactoryEquipment draft profiles initial =
     (if dr_supply draft = ControllerOnly then \<lparr> pp_equipment = None, pp_valid = True, pp_error = None \<rparr>
      else (case profiles of
        None \<Rightarrow> rejected ((uk ''Zavanta*u#mo kataloh obladnann@&''))
      | Some items \<Rightarrow>
          (case chosen_profile draft items initial of
             None \<Rightarrow> rejected ((uk ''Oberit= seri$ ta vvedit= povnu model= zi wyl=dyka.''))
           | Some profile \<Rightarrow>
               if js_blank (dr_model draft) then rejected ((uk ''Oberit= seri$ ta vvedit= povnu model= zi wyl=dyka.''))
               else if pf_driver_id profile \<in> {None, Some []}
                 \<or> map_option js_lower (pf_tested_model profile) \<noteq> Some (js_lower (js_trim (dr_model draft)))
               then rejected ((uk ''Dl@ ci#~ povno~ modeli qe nema# perevirenoho drajvera. Pidhotovka keruvann@ nedostupna.''))
               else (case (numeric (dr_min_hz draft) 0 50 True, numeric (dr_max_hz draft) 0 50 False) of
                 (Some mn, Some mx) \<Rightarrow>
                   if mx \<le> mn
                   then rejected ((uk ''Vka*it= robo^i me*i: minimum vid 0 Hc, maksymum do 50 Hc i bil=wyj za minimum.''))
                   else if more_decimals mn \<or> more_decimals mx
                   then rejected ((uk ''Robo^i me*i ^astoty mo*ut= maty do dvox znakiv pisl@ komy.''))
                   else (case draft_motor draft mx of
                     Inl message \<Rightarrow> rejected message
                   | Inr motor \<Rightarrow>
                       if \<not> dr_reviewed draft then rejected ((uk ''Zvirte pasport i robo^i me*i pered zbere*enn@m.''))
                       else \<lparr> pp_equipment = Some \<lparr> fe_profile_id = pf_id profile, fe_profile_version = pf_version profile,
                                fe_model = js_trim (dr_model draft), fe_serial = trimmed (dr_serial draft),
                                fe_hardware = trimmed (dr_hardware draft), fe_software = trimmed (dr_software draft),
                                fe_motor = motor, fe_min_hz = mn, fe_max_hz = mx \<rparr>,
                              pp_valid = True, pp_error = None \<rparr>)
               | _ \<Rightarrow> rejected ((uk ''Vka*it= robo^i me*i: minimum vid 0 Hc, maksymum do 50 Hc i bil=wyj za minimum.''))))))"

section \<open>Printing and reading numbers\<close>

lemma digits_val_app: "digits_val (xs @ ys) = digits_val xs * 10 ^ length ys + digits_val ys"
proof (induction ys rule: rev_induct)
  case Nil
  then show ?case by (simp add: digits_val_def)
next
  case (snoc y ys)
  then show ?case
    unfolding append_assoc [symmetric] digits_val_append by (simp add: algebra_simps)
qed

lemma digits_val_zeros: "digits_val (replicate m (CHR ''0'')) = 0"
  by (induction m) (simp_all add: digits_val_def digit_val_def)

lemma digits_length: "n < 10 ^ k \<Longrightarrow> 0 < k \<Longrightarrow> length (show_nat n) \<le> k"
proof (induction k arbitrary: n)
  case (Suc k)
  show ?case
  proof (cases "n < 10")
    case True
    then show ?thesis by (simp add: show_nat.simps [of n])
  next
    case False
    then have "0 < k" using Suc.prems by (cases k) auto
    moreover have "n div 10 < 10 ^ k" using Suc.prems(1) by (simp add: less_mult_imp_div_less mult.commute)
    ultimately have "length (show_nat (n div 10)) \<le> k" by (rule Suc.IH [rotated])
    with False show ?thesis by (simp add: show_nat.simps [of n])
  qed
qed simp

lemma pad_start_digits:
  assumes "n < 10 ^ k" "0 < k"
  shows "length (pad_start k (CHR ''0'') (show_nat n)) = k" "digits_val (pad_start k (CHR ''0'') (show_nat n)) = int n"
    "list_all is_digit (pad_start k (CHR ''0'') (show_nat n))"
  using digits_length [OF assms] show_nat_digits [of n]
  by (simp_all add: pad_start_def digits_val_app digits_val_zeros digits_val_show_nat)
    (auto simp: list_all_iff is_digit_def)

text \<open>A decimal with at most \<open>d\<close> places.\<close>

definition places :: "nat \<Rightarrow> rat \<Rightarrow> bool" where
  "places d q \<longleftrightarrow> (\<exists>i. q * 10 ^ d = of_int i)"

lemma decimal_places_enough: "places d q \<Longrightarrow> d \<le> m \<Longrightarrow> of_int \<lfloor>q * 10 ^ decimal_places m q\<rfloor> = q * 10 ^ decimal_places m q"
proof (induction m arbitrary: q d)
  case 0
  then show ?case by (auto simp: places_def)
next
  case (Suc m)
  show ?case
  proof (cases "of_int \<lfloor>q\<rfloor> = q")
    case False
    with Suc.prems obtain e where e: "d = Suc e" by (cases d) (auto simp: places_def)
    have "places e (10 * q)" using Suc.prems(1) by (simp add: places_def e mult.assoc mult.commute [of 10] mult.left_commute)
    from Suc.IH [OF this] Suc.prems(2) e False show ?thesis by (simp add: mult.assoc mult.left_commute)
  qed (use Suc in simp)
qed

lemma number_of_text:
  assumes "places 17 q" "0 \<le> q"
  shows "js_number (text_of q) = Fin q" "\<not> js_blank (text_of q)"
proof -
  define k where "k = decimal_places 17 q"
  define n where "n = nat \<lfloor>q * 10 ^ k\<rfloor>"
  have w: "of_int \<lfloor>q * 10 ^ k\<rfloor> = q * 10 ^ k" using decimal_places_enough [OF assms(1)] by (simp add: k_def)
  have "0 \<le> \<lfloor>q * 10 ^ k\<rfloor>" using assms(2) by simp
  then have n: "rat_of_nat n = q * 10 ^ k" using w by (simp add: n_def)
  define ip fp where "ip = show_nat (n div 10 ^ k)" and
    "fp = (if k = 0 then [] else pad_start k (CHR ''0'') (show_nat (n mod 10 ^ k)))"
  have m: "n mod 10 ^ k < 10 ^ k" by simp
  have t: "text_of q = ip @ (if fp = [] then [] else CHR ''.'' # fp)"
    using assms(2) pad_start_digits(1) [OF m] by (auto simp: text_of_def show_decimal_def Let_def ip_def fp_def k_def [symmetric] n_def)
  have d: "list_all is_digit ip" "list_all is_digit fp" "ip \<noteq> []" "length fp = k"
    using pad_start_digits [OF m] show_nat_digits show_nat_ne by (auto simp: ip_def fp_def)
  have "digits_val fp = int (n mod 10 ^ k)" using pad_start_digits(2) [OF m] by (auto simp: fp_def digits_val_def)
  then have "digits_val (ip @ fp) = int n"
    using div_mult_mod_eq [of n "10 ^ k"] by (simp add: digits_val_app digits_val_show_nat ip_def d(4) flip: of_nat_add of_nat_mult)
      (metis of_nat_add of_nat_mult of_nat_numeral of_nat_power)
  then show "js_number (text_of q) = Fin q"
    using js_number_decimal [OF d(1-3)] n d(4) by (simp add: t)
  have "list_all graphic ip" "list_all graphic fp" using d digit_graphic by (auto simp: list_all_iff)
  then have "js_trim (text_of q) = text_of q"
    unfolding t by (intro js_trim_id) (use d in \<open>auto simp: last_append list_all_iff\<close>)
  then show "\<not> js_blank (text_of q)" using d(3) by (simp add: js_blank_def t)
qed

section \<open>Properties\<close>

definition plate_ok :: "rat option \<Rightarrow> bool" where
  "plate_ok v \<longleftrightarrow> (\<forall>q. v = Some q \<longrightarrow> 0 < q \<and> q \<le> 10000)"

definition motor_fits :: "rat \<Rightarrow> factory_motor \<Rightarrow> bool" where
  "motor_fits most m \<longleftrightarrow> 0 < mo_frequency m \<and> mo_frequency m \<le> 400 \<and> most \<le> mo_frequency m
     \<and> plate_ok (mo_current m) \<and> plate_ok (mo_voltage m) \<and> plate_ok (mo_power m)"

definition profile_fits :: "factory_profile \<Rightarrow> factory_equipment \<Rightarrow> bool" where
  "profile_fits p e \<longleftrightarrow>
     js_upper (pf_manufacturer p) = ''SUSWE'' \<and> pf_driver_id p \<notin> {None, Some []}
     \<and> map_option js_lower (pf_tested_model p) = Some (js_lower (fe_model e))
     \<and> pf_id p = fe_profile_id e \<and> pf_version p = fe_profile_version e"

definition limits_fit :: "factory_equipment \<Rightarrow> bool" where
  "limits_fit e \<longleftrightarrow> 0 \<le> fe_min_hz e \<and> fe_min_hz e < fe_max_hz e \<and> fe_max_hz e \<le> 50
     \<and> \<not> more_decimals (fe_min_hz e) \<and> \<not> more_decimals (fe_max_hz e)
     \<and> (\<forall>m. fe_motor e = Some m \<longrightarrow> motor_fits (fe_max_hz e) m)"

lemma numeric_some: "numeric v a b i = Some q \<longleftrightarrow>
    \<not> js_blank v \<and> js_number v = Fin q \<and> (if i then a \<le> q else a < q) \<and> q \<le> b"
  by (cases "js_number v") (auto simp: numeric_def)

lemma nameplate_ok: "plate_ok (nameplate t)"
  by (auto simp: plate_ok_def nameplate_def numeric_some)

lemma nameplate_some: "nameplate t = Some y \<Longrightarrow> plate_ok (Some y)"
  by (metis nameplate_ok)

lemma draft_motor_fits: "draft_motor draft most = Inr (Some m) \<Longrightarrow> motor_fits most m"
  by (auto simp: draft_motor_def Let_def motor_fits_def numeric_some not_less nameplate_ok
      dest: nameplate_some split: option.splits if_splits)

text \<open>The factory prepares only equipment the client can vouch for: whatever is typed, validation returns an
  equipment only for a reviewed cabinet draft; its profile is in the catalogue, of the manufacturer SUSWE, with a
  driver and tested for exactly the model given (up to case); its limits satisfy 0 <= min < max <= 50 with two
  decimals; its motor, if any, has a rated frequency up to 400 Hz that the maximum does not exceed, and positive
  plate values; and the result is valid exactly when it carries no message.\<close>

lemma factory_equipment_checked:
  assumes "r = validateFactoryEquipment draft profiles initial"
  shows "(pp_valid r \<longleftrightarrow> pp_error r = None)
    \<and> (pp_valid r \<and> pp_equipment r = None \<longleftrightarrow> dr_supply draft = ControllerOnly)
    \<and> (\<forall>e. pp_equipment r = Some e \<longrightarrow>
         pp_valid r \<and> dr_reviewed draft \<and> limits_fit e \<and> fe_model e = js_trim (dr_model draft) \<and> fe_model e \<noteq> []
         \<and> (\<exists>items p. profiles = Some items \<and> p \<in> set items \<and> profile_fits p e))"
proof (cases "\<exists>e. pp_equipment r = Some e")
  case False
  with assms show ?thesis
    by (auto simp: validateFactoryEquipment_def rejected_def split: option.splits sum.splits if_splits)
next
  case True
  then obtain e where e: "pp_equipment r = Some e" by blast
  from e assms obtain items profile mn mx motor where
    c: "dr_supply draft \<noteq> ControllerOnly" "profiles = Some items" "chosen_profile draft items initial = Some profile"
      "\<not> js_blank (dr_model draft)" "pf_driver_id profile \<notin> {None, Some []}"
      "map_option js_lower (pf_tested_model profile) = Some (js_lower (js_trim (dr_model draft)))"
      "numeric (dr_min_hz draft) 0 50 True = Some mn" "numeric (dr_max_hz draft) 0 50 False = Some mx" "\<not> mx \<le> mn"
      "\<not> more_decimals mn" "\<not> more_decimals mx" "draft_motor draft mx = Inr motor" "dr_reviewed draft"
    and r: "e = \<lparr> fe_profile_id = pf_id profile, fe_profile_version = pf_version profile,
        fe_model = js_trim (dr_model draft), fe_serial = trimmed (dr_serial draft),
        fe_hardware = trimmed (dr_hardware draft), fe_software = trimmed (dr_software draft),
        fe_motor = motor, fe_min_hz = mn, fe_max_hz = mx \<rparr>" "pp_valid r" "pp_error r = None"
    by (auto simp: validateFactoryEquipment_def rejected_def split: option.splits sum.splits if_splits)
  have "profile \<in> set items" "js_upper (pf_manufacturer profile) = ''SUSWE''"
    using c(3) by (auto simp: chosen_profile_def find_Some_iff)
  with c r e draft_motor_fits [of draft mx] show ?thesis
    by (auto simp: limits_fit_def profile_fits_def numeric_some js_blank_def)
qed

definition texts_clean :: "factory_equipment \<Rightarrow> bool" where
  "texts_clean e \<longleftrightarrow> (\<forall>s \<in> {Some (fe_model e), fe_serial e, fe_hardware e, fe_software e}.
     \<forall>t. s = Some t \<longrightarrow> t \<noteq> [] \<and> js_trim t = t)"

definition numbers_plain :: "factory_equipment \<Rightarrow> bool" where
  "numbers_plain e \<longleftrightarrow> places 17 (fe_min_hz e) \<and> places 17 (fe_max_hz e)
     \<and> (\<forall>m. fe_motor e = Some m \<longrightarrow> places 17 (mo_frequency m)
          \<and> (\<forall>q. Some q \<in> {mo_current m, mo_voltage m, mo_power m} \<longrightarrow> places 17 q))"

lemma plate_back:
  assumes "plate_ok v" "\<And>q. v = Some q \<Longrightarrow> places 17 q"
  shows "nameplate (case v of None \<Rightarrow> [] | Some n \<Rightarrow> text_of n) = v"
    "js_blank (case v of None \<Rightarrow> [] | Some n \<Rightarrow> text_of n) \<longleftrightarrow> v = None"
  using assms number_of_text by (auto simp: nameplate_def numeric_some js_blank_def js_trim_id plate_ok_def split: option.splits)

lemma motor_back:
  assumes "fe_motor e = Some m" "motor_fits most m" "numbers_plain e"
  shows "draft_motor ((factoryEquipmentDraft (Some e))\<lparr>dr_reviewed := b\<rparr>) most = Inr (Some m)"
proof -
  have p: "places 17 (mo_frequency m)" "\<And>q. mo_current m = Some q \<Longrightarrow> places 17 q"
    "\<And>q. mo_voltage m = Some q \<Longrightarrow> places 17 q" "\<And>q. mo_power m = Some q \<Longrightarrow> places 17 q"
    using assms(1,3) by (auto simp: numbers_plain_def)
  have f: "numeric (text_of (mo_frequency m)) 0 400 False = Some (mo_frequency m)"
    using number_of_text [OF p(1)] assms(2) by (simp add: numeric_some motor_fits_def)
  have "plate_ok (mo_current m)" "plate_ok (mo_voltage m)" "plate_ok (mo_power m)" "\<not> mo_frequency m < most"
    using assms(2) by (auto simp: motor_fits_def)
  then show ?thesis
    using f plate_back [of "mo_current m"] plate_back [of "mo_voltage m"] plate_back [of "mo_power m"] p(2-4) assms(1)
    by (auto simp: draft_motor_def factoryEquipmentDraft_def motor_text_def Let_def)
qed

lemma trimmed_back: "(\<forall>t. v = Some t \<longrightarrow> t \<noteq> [] \<and> js_trim t = t) \<Longrightarrow> trimmed (optional_text v) = v"
  by (auto simp: trimmed_def optional_text_def js_trim_id split: option.splits)

text \<open>Opening the form on an equipment that was saved and confirming it without a change saves the same
  equipment: its draft validates to it, with every number, text and absent value preserved, as long as its profile
  is still in the catalogue.\<close>

lemma factory_equipment_roundtrip:
  assumes "limits_fit e" and "texts_clean e" and "numbers_plain e"
    and "List.find (\<lambda>item. js_upper (pf_manufacturer item) = ''SUSWE'' \<and> pf_id item = fe_profile_id e) items = Some p"
    and "profile_fits p e"
  shows "validateFactoryEquipment ((factoryEquipmentDraft (Some e))\<lparr>dr_reviewed := True\<rparr>) (Some items) (Some e)
    = \<lparr> pp_equipment = Some e, pp_valid = True, pp_error = None \<rparr>"
proof -
  let ?d = "(factoryEquipmentDraft (Some e))\<lparr>dr_reviewed := True\<rparr>"
  have c: "chosen_profile ?d items (Some e) = Some p"
    using assms(4) by (simp add: chosen_profile_def factoryEquipmentDraft_def)
  have n: "numeric (text_of (fe_min_hz e)) 0 50 True = Some (fe_min_hz e)"
    "numeric (text_of (fe_max_hz e)) 0 50 False = Some (fe_max_hz e)"
    using assms(1,3) number_of_text [of "fe_min_hz e"] number_of_text [of "fe_max_hz e"]
    by (auto simp: numeric_some limits_fit_def numbers_plain_def)
  have t: "js_trim (fe_model e) = fe_model e" "fe_model e \<noteq> []" "trimmed (optional_text (fe_serial e)) = fe_serial e"
    "trimmed (optional_text (fe_hardware e)) = fe_hardware e" "trimmed (optional_text (fe_software e)) = fe_software e"
    using assms(2) by (auto simp: texts_clean_def intro!: trimmed_back)
  have m: "draft_motor ?d (fe_max_hz e) = Inr (fe_motor e)"
  proof (cases "fe_motor e")
    case None
    then show ?thesis by (simp add: draft_motor_def factoryEquipmentDraft_def)
  next
    case (Some m)
    with assms(1) motor_back [OF Some _ assms(3)] show ?thesis by (simp add: limits_fit_def)
  qed
  from assms(5) obtain driver model where p: "pf_driver_id p = Some driver" "driver \<noteq> []"
    "pf_tested_model p = Some model" "js_lower model = js_lower (fe_model e)"
    by (auto simp: profile_fits_def)
  have d: "dr_supply ?d = CabinetSupply" "dr_model ?d = fe_model e" "dr_min_hz ?d = text_of (fe_min_hz e)"
    "dr_max_hz ?d = text_of (fe_max_hz e)" "dr_serial ?d = optional_text (fe_serial e)"
    "dr_hardware ?d = optional_text (fe_hardware e)" "dr_software ?d = optional_text (fe_software e)" "dr_reviewed ?d"
    by (simp_all add: factoryEquipmentDraft_def)
  show ?thesis
    unfolding validateFactoryEquipment_def d
    using assms(1,5) c n t m p by (simp add: d profile_fits_def limits_fit_def js_blank_def)
qed

definition sample_equipment :: factory_equipment where
  "sample_equipment = \<lparr> fe_profile_id = ''p'', fe_profile_version = 1, fe_model = ''SU600-D2'', fe_serial = Some ''1'',
     fe_hardware = None, fe_software = None,
     fe_motor = Some \<lparr> mo_frequency = 50, mo_current = Some (5 / 2), mo_voltage = None, mo_power = None \<rparr>,
     fe_min_hz = 0, fe_max_hz = 101 / 2 - 1 / 2 \<rparr>"

definition sample_profile :: factory_profile where
  "sample_profile = \<lparr> pf_id = ''p'', pf_version = 1, pf_manufacturer = ''Suswe'', pf_series = ''SU600'',
     pf_driver_id = Some ''su600'', pf_tested_model = Some ''su600-d2'' \<rparr>"

lemma sample_equipment_ok:
  "limits_fit sample_equipment" "texts_clean sample_equipment" "numbers_plain sample_equipment"
  "profile_fits sample_profile sample_equipment"
  "List.find (\<lambda>item. js_upper (pf_manufacturer item) = ''SUSWE'' \<and> pf_id item = fe_profile_id sample_equipment)
      [sample_profile] = Some sample_profile"
proof -
  have m: "\<not> more_decimals 0" "\<not> more_decimals (101 / 2 - 1 / 2)" by code_simp+
  then show "limits_fit sample_equipment"
    by (simp add: limits_fit_def sample_equipment_def motor_fits_def plate_ok_def)
  have "js_trim ''SU600-D2'' = ''SU600-D2''" "js_trim ''1'' = ''1''" by code_simp+
  then show "texts_clean sample_equipment" by (simp add: texts_clean_def sample_equipment_def)
  have "places 17 0" "places 17 50"
    by (auto simp: places_def intro: exI [of _ 0] exI [of _ "50 * 10 ^ 17"])
  moreover have "places 17 q" if "q * 2 = 5" for q
    unfolding places_def by (rule exI [of _ "25 * 10 ^ 16"]) (use that in simp)
  ultimately show "numbers_plain sample_equipment" by (simp add: numbers_plain_def sample_equipment_def)
  show p: "profile_fits sample_profile sample_equipment" by code_simp
  then show "List.find (\<lambda>item. js_upper (pf_manufacturer item) = ''SUSWE'' \<and> pf_id item = fe_profile_id sample_equipment)
      [sample_profile] = Some sample_profile"
    by (simp add: profile_fits_def)
qed

end
