(* ===== verification/EquipmentActions.thy ===== *)
theory EquipmentActions
  imports AccountAction Equipment FactoryEquipment
begin

text \<open>
  \<open>features/equipment-actions.tsx\<close>: the three writes of an installer to the equipment of a controller: the replacement
  of its converter, the configuration of its working limits, and the permission to use it.

  A value of \<open>equipment_form\<close> is the state of \<open>EquipmentInstallationActions\<close>; \<open>ef_sent\<close> lists the requests made so far
  (path and body), newest first, and \<open>ef_saved\<close> counts the calls of \<open>onSaved\<close>. The passport, the catalogue of profiles
  and the rest of what a rendering reads are an \<open>eq_view\<close>, and every event carries the view of the rendering it
  happens in, so the passport may change between any two events. An event whose control is not rendered or is disabled
  changes nothing.
\<close>

section \<open>What a rendering shows\<close>

record eq_view =
  ev_passport :: equipment_passport
  ev_profiles :: "factory_profile list option"
  ev_active :: bool
  ev_staff :: bool
  ev_role :: string
  ev_retired :: bool

definition can_install :: "eq_view \<Rightarrow> bool" where
  "can_install v = (ev_staff v \<and> ev_role v \<in> set [''superadmin'', ''service_admin'']
     \<and> eq_can_install (ev_passport v) \<and> \<not> ev_retired v)"

definition installed_module :: "eq_view \<Rightarrow> json option" where
  "installed_module v =
     List.find (\<lambda>item. fld item ''kind'' = JStr ''vfd'' \<and> \<not> truthy (fld item ''retired_at''))
       (elems (fld (eq_data (ev_passport v)) ''modules''))"

text \<open>The module the form is about; the component renders nothing without one.\<close>

definition shown_module :: "eq_view \<Rightarrow> json option" where
  "shown_module v = (if can_install v then installed_module v else None)"

definition selectable_profiles :: "eq_view \<Rightarrow> factory_profile list" where
  "selectable_profiles v =
     (case ev_profiles v of None \<Rightarrow> [] | Some items \<Rightarrow> filter (\<lambda>item. js_upper (pf_manufacturer item) = ''SUSWE'') items)"

definition has_driver :: "factory_profile \<Rightarrow> bool" where
  "has_driver item = (pf_driver_id item \<noteq> None \<and> pf_driver_id item \<noteq> Some [])"

definition tested_for :: "json \<Rightarrow> factory_profile \<Rightarrow> bool" where
  "tested_for drive item = (map_option js_lower (pf_tested_model item) = Some (js_lower (str_of (fld drive ''model''))))"

definition matching_profile :: "eq_view \<Rightarrow> json \<Rightarrow> factory_profile option" where
  "matching_profile v drive =
     List.find (\<lambda>item. has_driver item \<and> JStr (pf_manufacturer item) = fld drive ''manufacturer''
        \<and> JStr (pf_series item) = fld drive ''series'' \<and> tested_for drive item) (selectable_profiles v)"

definition full_available :: "eq_view \<Rightarrow> json \<Rightarrow> bool" where
  "full_available v drive = (eq_capability (ev_passport v) = JStr ''full'' \<and> truthy (fld drive ''motor''))"

definition bench_available :: "eq_view \<Rightarrow> bool" where
  "bench_available v = (eq_capability (ev_passport v) \<in> set [JStr ''bench'', JStr ''full''])"

definition has_desired :: "eq_view \<Rightarrow> bool" where
  "has_desired v = truthy (desired_of (ev_passport v))"

text \<open>\<open>passport.desired?.manifest.revision ?? 0\<close>\<close>

definition desired_revision :: "eq_view \<Rightarrow> int" where
  "desired_revision v =
     (if has_desired v \<and> \<not> is_nullish (fld (manifest_of (ev_passport v)) ''revision'')
      then int_of (fld (manifest_of (ev_passport v)) ''revision'') else 0)"

definition limit_text :: "eq_view \<Rightarrow> string \<Rightarrow> rat \<Rightarrow> string" where
  "limit_text v key absent =
     (let limit = fld (fld (manifest_of (ev_passport v)) ''frequency_limits'') key
      in show_num (Fin (if has_desired v \<and> \<not> is_nullish limit then rat_of limit else absent)))"

definition desired_profile :: "eq_view \<Rightarrow> string option" where
  "desired_profile v =
     (let pid = fld (manifest_of (ev_passport v)) ''profile_id''
      in if has_desired v \<and> \<not> is_nullish pid then Some (str_of pid) else None)"

definition awaiting_confirmation :: "eq_view \<Rightarrow> bool" where
  "awaiting_confirmation v = (has_desired v \<and> eq_state (ev_passport v) \<noteq> JStr ''verified'')"

section \<open>The form\<close>

datatype action_mode = Configure | Replace | Commission

record form_fields =
  ff_profile :: "string option"
  ff_model :: string
  ff_serial :: string
  ff_hardware :: string
  ff_software :: string
  ff_rated :: string
  ff_min :: string
  ff_max :: string
  ff_reason :: string
  ff_control :: string

record equipment_form =
  ef_mode :: "action_mode option"
  ef_fields :: form_fields
  ef_confirmed :: bool
  ef_notice :: string
  ef_review :: "(string \<times> int) option"
  ef_action :: account_action
  ef_running :: "action_mode option"
  ef_sent :: "(string \<times> json) list"
  ef_saved :: nat

text \<open>The initial state, from the view of the first rendering.\<close>

definition form_start :: "eq_view \<Rightarrow> equipment_form" where
  "form_start v =
     \<lparr> ef_mode = None,
       ef_fields = \<lparr> ff_profile = desired_profile v, ff_model = [], ff_serial = [], ff_hardware = [], ff_software = [],
         ff_rated = [], ff_min = limit_text v ''min_hz'' 0, ff_max = limit_text v ''max_hz'' 50, ff_reason = [],
         ff_control = ''read_only'' \<rparr>,
       ef_confirmed = False, ef_notice = [], ef_review = None, ef_action = no_action, ef_running = None,
       ef_sent = [], ef_saved = 0 \<rparr>"

definition review_changed :: "eq_view \<Rightarrow> json \<Rightarrow> equipment_form \<Rightarrow> bool" where
  "review_changed v drive st =
     (case ef_review st of
        None \<Rightarrow> False
      | Some (module_id, revision) \<Rightarrow> JStr module_id \<noteq> fld drive ''id'' \<or> revision \<noteq> desired_revision v)"

definition selected_profile :: "eq_view \<Rightarrow> json \<Rightarrow> equipment_form \<Rightarrow> factory_profile option" where
  "selected_profile v drive st =
     (let wanted = (if ef_mode st = Some Configure
                    then (case matching_profile v drive of None \<Rightarrow> [] | Some item \<Rightarrow> pf_id item)
                    else (case ff_profile (ef_fields st) of None \<Rightarrow> [] | Some i \<Rightarrow> i))
      in List.find (\<lambda>item. pf_id item = wanted) (selectable_profiles v))"

definition supported :: "eq_view \<Rightarrow> json \<Rightarrow> equipment_form \<Rightarrow> bool" where
  "supported v drive st =
     (case selected_profile v drive st of None \<Rightarrow> False | Some item \<Rightarrow> has_driver item \<and> tested_for drive item)"

definition initial_control :: "eq_view \<Rightarrow> json \<Rightarrow> string" where
  "initial_control v drive =
     (let previous = eq_mode (ev_passport v) in
      if previous = JStr ''read_only'' \<or> (previous = JStr ''extended_test'' \<and> full_available v drive)
        \<or> (previous = JStr ''bench_without_motor'' \<and> bench_available v)
      then str_of previous
      else if full_available v drive then ''extended_test''
      else if bench_available v then ''bench_without_motor''
      else ''read_only'')"

definition select_mode :: "eq_view \<Rightarrow> json \<Rightarrow> action_mode \<Rightarrow> equipment_form \<Rightarrow> equipment_form" where
  "select_mode v drive m st =
     st\<lparr>ef_mode := Some m, ef_confirmed := False, ef_notice := [],
        ef_fields := (ef_fields st)
          \<lparr>ff_control := (if m = Commission then initial_control v drive else ff_control (ef_fields st)),
           ff_profile := (if m = Configure then desired_profile v else None),
           ff_min := limit_text v ''min_hz'' 0, ff_max := limit_text v ''max_hz'' 50, ff_rated := []\<rparr>,
        ef_review := Some (str_of (fld drive ''id''), desired_revision v),
        ef_action := action_fail [] (ef_action st)\<rparr>"

definition submit_enabled :: "eq_view \<Rightarrow> json \<Rightarrow> equipment_form \<Rightarrow> bool" where
  "submit_enabled v drive st =
     (\<not> (aa_busy (ef_action st) \<or> \<not> ev_active v \<or> review_changed v drive st \<or> \<not> ef_confirmed st
         \<or> (ef_mode st = Some Configure \<and> \<not> supported v drive st)
         \<or> (ef_mode st = Some Replace \<and> selected_profile v drive st = None)
         \<or> (ef_mode st = Some Commission
            \<and> ((ff_control (ef_fields st) = ''extended_test'' \<and> \<not> full_available v drive)
               \<or> (ff_control (ef_fields st) = ''bench_without_motor'' \<and> \<not> bench_available v)))))"

section \<open>The requests\<close>

definition or_null :: "string \<Rightarrow> json" where
  "or_null s = (if s = [] then JNull else JStr s)"

definition json_int :: "int \<Rightarrow> json" where
  "json_int i = JNum (Fin (of_int i))"

definition motor_body :: "string \<Rightarrow> json" where
  "motor_body rated = JObj [(''rated_frequency_hz'', JNum (js_number rated))]"

definition equipment_base :: "eq_view \<Rightarrow> string" where
  "equipment_base v = ''/api/v1/devices/'' @ js_string (fld (eq_data (ev_passport v)) ''device_id'') @ ''/equipment''"

definition replacement_body :: "json \<Rightarrow> factory_profile \<Rightarrow> string \<Rightarrow> int \<Rightarrow> form_fields \<Rightarrow> json" where
  "replacement_body drive profile module_id revision f =
     JObj [(''expected_module_id'', JStr module_id), (''expected_revision'', json_int revision),
           (''stopped_and_isolated'', JBool True), (''reason'', JStr (ff_reason f)),
           (''replacement'', JObj
             [(''installation_id'', fld drive ''installation_id''), (''slot'', fld drive ''slot''),
              (''kind'', JStr ''vfd''), (''name'', fld drive ''name''),
              (''manufacturer'', JStr (pf_manufacturer profile)), (''series'', JStr (pf_series profile)),
              (''model'', JStr (ff_model f)), (''serial_number'', or_null (ff_serial f)),
              (''hardware_revision'', or_null (ff_hardware f)), (''software_revision'', or_null (ff_software f)),
              (''motor'', motor_body (ff_rated f))])]"

definition configuration_body :: "json \<Rightarrow> factory_profile \<Rightarrow> string \<Rightarrow> int \<Rightarrow> form_fields \<Rightarrow> json" where
  "configuration_body drive profile module_id revision f =
     JObj ([(''expected_revision'', json_int revision), (''module_id'', JStr module_id),
            (''profile_id'', JStr (pf_id profile)), (''profile_version'', json_int (pf_version profile)),
            (''bus'', JObj [(''transport'', JStr ''modbus_rtu''), (''address'', json_int 1), (''baud'', json_int 9600),
               (''parity'', JStr ''none''), (''stop_bits'', json_int 1)]),
            (''frequency_limits'', JObj [(''min_hz'', JNum (js_number (ff_min f))), (''max_hz'', JNum (js_number (ff_max f)))])]
           @ (if \<not> truthy (fld drive ''motor'') \<and> ff_rated f \<noteq> [] then [(''motor'', motor_body (ff_rated f))] else []))"

definition commission_body :: "int \<Rightarrow> form_fields \<Rightarrow> json" where
  "commission_body revision f =
     JObj [(''expected_revision'', json_int revision), (''installation_checked'', JBool True),
           (''control_mode'', JStr (ff_control f))]"

text \<open>The request of \<open>submit\<close>, by its three branches; \<open>None\<close> in the last \<open>else return\<close>.\<close>

definition form_request :: "eq_view \<Rightarrow> json \<Rightarrow> string \<Rightarrow> int \<Rightarrow> equipment_form \<Rightarrow> (string \<times> json) option" where
  "form_request v drive module_id revision st =
     (case (ef_mode st, selected_profile v drive st) of
        (Some Replace, Some profile) \<Rightarrow>
          Some (equipment_base v @ ''/replacement'', replacement_body drive profile module_id revision (ef_fields st))
      | (Some Configure, Some profile) \<Rightarrow>
          if supported v drive st
          then Some (equipment_base v @ ''/configurations'', configuration_body drive profile module_id revision (ef_fields st))
          else None
      | (Some Commission, _) \<Rightarrow>
          if has_desired v then Some (equipment_base v @ ''/commission'', commission_body revision (ef_fields st)) else None
      | _ \<Rightarrow> None)"

definition form_notice :: "action_mode \<Rightarrow> string" where
  "form_notice m =
     (case m of
        Replace \<Rightarrow> (uk ''Novyj ^astotnyk zbere*eno. Staryj pasport zalywyvs@ v istori~. Nalawtujte j pidtverd=te nove obladnann@.'')
      | Configure \<Rightarrow> (uk ''Me*i zbere*eno. Do^ekajtes@ dostavky do kontrolera, pidtverd=te obladnann@ bil@ ustanovky ta onovit= pasport.'')
      | Commission \<Rightarrow> ((uk ''Dozvil zbere*eno. Kontroler otryma# joho avtomaty^no. '' @ [CHR 0xD0, CHR 0xAF] @ uk ''kqo pusk bulo zablokovano miscevo, vidnovit= dozvil bil@ ustanovky. Dvyhun zapustyt=s@ lywe pisl@ okremo~ komandy korystuva^a.'')))"

section \<open>Events\<close>

datatype field_edit =
    EditProfile string | EditModel string | EditSerial string | EditHardware string | EditSoftware string
  | EditRated string | EditReason string | EditMin string | EditMax string | EditControl string

text \<open>Which inputs a mode renders, and what each writes.\<close>

fun editable :: "json \<Rightarrow> action_mode \<Rightarrow> field_edit \<Rightarrow> bool" where
  "editable drive m (EditMin _) = (m = Configure)"
| "editable drive m (EditMax _) = (m = Configure)"
| "editable drive m (EditControl _) = (m = Commission)"
| "editable drive m (EditRated _) = (m = Replace \<or> (m = Configure \<and> \<not> truthy (fld drive ''motor'')))"
| "editable drive m _ = (m = Replace)"

fun edit_field :: "field_edit \<Rightarrow> form_fields \<Rightarrow> form_fields" where
  "edit_field (EditProfile s) f = f\<lparr>ff_profile := Some s\<rparr>"
| "edit_field (EditModel s) f = f\<lparr>ff_model := s\<rparr>"
| "edit_field (EditSerial s) f = f\<lparr>ff_serial := s\<rparr>"
| "edit_field (EditHardware s) f = f\<lparr>ff_hardware := s\<rparr>"
| "edit_field (EditSoftware s) f = f\<lparr>ff_software := s\<rparr>"
| "edit_field (EditRated s) f = f\<lparr>ff_rated := s\<rparr>"
| "edit_field (EditReason s) f = f\<lparr>ff_reason := s\<rparr>"
| "edit_field (EditMin s) f = f\<lparr>ff_min := s\<rparr>"
| "edit_field (EditMax s) f = f\<lparr>ff_max := s\<rparr>"
| "edit_field (EditControl s) f = f\<lparr>ff_control := s\<rparr>"

datatype eq_event =
    MainButton
  | Select action_mode
  | Edit field_edit
  | Tick bool
  | SubmitForm
  | CancelForm
  | Settled "exn + unit"

text \<open>\<open>run\<close> with the action of \<open>submit\<close>: an action without a request ends at once, as a success.\<close>

definition submit_form :: "eq_view \<Rightarrow> json \<Rightarrow> equipment_form \<Rightarrow> equipment_form" where
  "submit_form v drive st =
     (case (ef_review st, run_action (ef_action st)) of
        (Some (module_id, revision), Some a) \<Rightarrow>
          (case form_request v drive module_id revision st of
             None \<Rightarrow> st\<lparr>ef_action := run_settled (Inr ()) a, ef_saved := Suc (ef_saved st)\<rparr>
           | Some r \<Rightarrow> st\<lparr>ef_action := a, ef_running := ef_mode st, ef_sent := r # ef_sent st\<rparr>)
      | _ \<Rightarrow> st)"

definition form_settled :: "exn + unit \<Rightarrow> equipment_form \<Rightarrow> equipment_form" where
  "form_settled outcome st =
     (case ef_running st of
        None \<Rightarrow> st
      | Some m \<Rightarrow>
          (case outcome of
             Inl e \<Rightarrow> st\<lparr>ef_action := run_settled outcome (ef_action st), ef_running := None\<rparr>
           | Inr _ \<Rightarrow> st\<lparr>ef_action := run_settled outcome (ef_action st), ef_running := None, ef_notice := form_notice m,
                         ef_mode := None, ef_confirmed := False, ef_saved := Suc (ef_saved st)\<rparr>))"

definition form_ready :: "eq_view \<Rightarrow> json \<Rightarrow> equipment_form \<Rightarrow> bool" where
  "form_ready v drive st =
     (ef_mode st \<noteq> None \<and> submit_enabled v drive st
      \<and> \<not> (\<not> ef_confirmed st \<or> ef_review st = None \<or> review_changed v drive st \<or> \<not> ev_active v))"

definition form_step :: "equipment_form \<Rightarrow> eq_view \<times> eq_event \<Rightarrow> equipment_form" where
  "form_step st ve =
     (let v = fst ve in
      case (snd ve, shown_module v) of
        (Settled outcome, _) \<Rightarrow> form_settled outcome st
      | (_, None) \<Rightarrow> st
      | (MainButton, Some drive) \<Rightarrow>
          if aa_busy (ef_action st) then st
          else if awaiting_confirmation v then st\<lparr>ef_saved := Suc (ef_saved st)\<rparr>
          else select_mode v drive (if eq_state (ev_passport v) = JStr ''verified'' then Commission else Configure) st
      | (Select m, Some drive) \<Rightarrow>
          if aa_busy (ef_action st) \<or> m = Commission then st else select_mode v drive m st
      | (Edit d, Some drive) \<Rightarrow>
          (case ef_mode st of
             None \<Rightarrow> st
           | Some m \<Rightarrow> if editable drive m d
                       then st\<lparr>ef_fields := edit_field d (ef_fields st), ef_confirmed := False\<rparr> else st)
      | (Tick b, Some drive) \<Rightarrow> if ef_mode st = None then st else st\<lparr>ef_confirmed := b\<rparr>
      | (SubmitForm, Some drive) \<Rightarrow> if form_ready v drive st then submit_form v drive st else st
      | (CancelForm, Some drive) \<Rightarrow> if aa_busy (ef_action st) then st else st\<lparr>ef_mode := None\<rparr>)"

definition form_run :: "eq_view \<Rightarrow> (eq_view \<times> eq_event) list \<Rightarrow> equipment_form" where
  "form_run v es = foldl form_step (form_start v) es"

section \<open>Every write was confirmed\<close>

text \<open>What the form shows besides its box; the box counts while a mode is open.\<close>

definition form_content :: "equipment_form \<Rightarrow> action_mode option \<times> form_fields \<times> (string \<times> int) option" where
  "form_content st = (ef_mode st, ef_fields st, ef_review st)"

definition form_armed :: "equipment_form \<Rightarrow> bool" where
  "form_armed st = (ef_confirmed st \<and> ef_mode st \<noteq> None)"

definition form_ticks :: "eq_view \<times> eq_event \<Rightarrow> bool" where
  "form_ticks ve = (snd ve = Tick True)"

text \<open>The request an event makes.\<close>

definition step_request :: "eq_view \<times> eq_event \<Rightarrow> equipment_form \<Rightarrow> (string \<times> json) option" where
  "step_request ve st =
     (case (snd ve, shown_module (fst ve), ef_review st) of
        (SubmitForm, Some drive, Some (module_id, revision)) \<Rightarrow>
          if form_ready (fst ve) drive st \<and> \<not> aa_pending (ef_action st)
          then form_request (fst ve) drive module_id revision st else None
      | _ \<Rightarrow> None)"

lemma submit_form_fields:
  "form_content (submit_form v drive st) = form_content st" "ef_confirmed (submit_form v drive st) = ef_confirmed st"
  by (simp_all add: submit_form_def form_content_def split: option.split prod.split)

lemma form_settled_armed:
  "form_armed (form_settled outcome st) \<Longrightarrow> form_armed st \<and> form_content (form_settled outcome st) = form_content st"
  by (auto simp: form_settled_def form_armed_def form_content_def split: option.splits sum.splits)

lemma form_settled_sent: "ef_sent (form_settled outcome st) = ef_sent st"
  by (simp add: form_settled_def split: option.split sum.split)

lemma form_step_armed:
  assumes "form_armed (form_step st (v, e))"
  shows "(form_ticks (v, e) \<or> form_armed st) \<and> form_content (form_step st (v, e)) = form_content st"
proof (cases "shown_module v")
  case None
  with assms form_settled_armed show ?thesis by (cases e) (auto simp: form_step_def)
next
  case (Some drive)
  show ?thesis
  proof (cases e)
    case SubmitForm
    with assms Some show ?thesis
      using submit_form_fields [of v drive st] by (auto simp: form_step_def form_armed_def form_content_def split: if_splits)
  next
    case (Settled outcome)
    with assms form_settled_armed show ?thesis by (auto simp: form_step_def)
  qed (use assms Some in \<open>auto simp: form_step_def form_armed_def form_content_def form_ticks_def select_mode_def
      split: if_splits option.splits\<close>)
qed

lemma step_request_ready:
  assumes "step_request (v, e) st = Some r"
  obtains drive module_id revision where "e = SubmitForm" and "shown_module v = Some drive"
    and "ef_review st = Some (module_id, revision)" and "form_ready v drive st"
    and "form_request v drive module_id revision st = Some r"
  using assms by (auto simp: step_request_def split: eq_event.splits option.splits if_splits prod.splits)

lemma form_step_sent:
  "ef_sent (form_step st (v, e)) = (case step_request (v, e) st of None \<Rightarrow> ef_sent st | Some r \<Rightarrow> r # ef_sent st)"
proof (cases "shown_module v")
  case None
  with form_settled_sent show ?thesis by (cases e) (auto simp: form_step_def step_request_def)
next
  case (Some drive)
  show ?thesis
  proof (cases "e = SubmitForm")
    case True
    with Some show ?thesis
      by (cases "aa_pending (ef_action st)")
        (auto simp: form_step_def step_request_def submit_form_def form_ready_def split: option.split prod.split)
  next
    case False
    with Some form_settled_sent show ?thesis
      by (cases e) (auto simp: form_step_def step_request_def select_mode_def split: option.split)
  qed
qed

interpretation equipment: confirmed_form form_step step_request ef_sent form_armed form_content form_ticks
proof unfold_locales
  fix st :: equipment_form and ve :: "eq_view \<times> eq_event" and r :: "string \<times> json"
  obtain v e where ve: "ve = (v, e)" by (cases ve)
  show "(form_ticks ve \<or> form_armed st) \<and> form_content (form_step st ve) = form_content st"
    if "form_armed (form_step st ve)" using form_step_armed that unfolding ve by blast
  show "form_armed st" if "step_request ve st = Some r"
    using that unfolding ve by (elim step_request_ready) (auto simp: form_ready_def form_armed_def)
  show "ef_sent (form_step st ve) = (case step_request ve st of None \<Rightarrow> ef_sent st | Some r \<Rightarrow> r # ef_sent st)"
    using form_step_sent unfolding ve .
qed

lemma form_start_idle: "ef_sent (form_start v) = []" "\<not> form_armed (form_start v)"
  by (simp_all add: form_start_def form_armed_def)

text \<open>C19: No write to the equipment without a confirmation of exactly what is written. In every run of the form, whatever
  passports and profiles arrive in between, each request was made by a submission that follows a tick of the
  confirmation box, and from before that tick until the submission the form showed the same operation, the same fields
  and the same reviewed module and revision.\<close>

theorem equipment_writes_confirmed:
  assumes "r \<in> set (ef_sent (form_run v0 es))"
  shows "confirmed_before form_step form_content form_ticks step_request (form_start v0) es r"
  using assms unfolding form_run_def
  by (intro equipment.sent_confirmed) (simp_all add: form_start_idle)

section \<open>What is written\<close>

definition write_ok :: "eq_view \<Rightarrow> json \<Rightarrow> action_mode \<Rightarrow> json \<Rightarrow> bool" where
  "write_ok v drive m body \<longleftrightarrow>
     (case m of
        Replace \<Rightarrow> fld body ''expected_module_id'' = fld drive ''id''
      | Configure \<Rightarrow> fld body ''module_id'' = fld drive ''id''
          \<and> (\<exists>p \<in> set (selectable_profiles v). has_driver p \<and> tested_for drive p
               \<and> fld body ''profile_id'' = JStr (pf_id p) \<and> fld body ''profile_version'' = json_int (pf_version p))
      | Commission \<Rightarrow> has_desired v
          \<and> (fld body ''control_mode'' = JStr ''extended_test'' \<longrightarrow> full_available v drive)
          \<and> (fld body ''control_mode'' = JStr ''bench_without_motor'' \<longrightarrow> bench_available v))"

lemma find_SomeD: "List.find P xs = Some x \<Longrightarrow> P x \<and> x \<in> set xs"
  by (auto simp: find_Some_iff)

lemma selected_profile_listed: "selected_profile v drive st = Some p \<Longrightarrow> p \<in> set (selectable_profiles v)"
  by (auto simp: selected_profile_def Let_def dest: find_SomeD)

lemma step_request_write:
  assumes "step_request (v, e) st = Some (path, body)"
  shows "\<exists>drive m. shown_module v = Some drive \<and> ef_mode st = Some m \<and> ev_active v
    \<and> fld body ''expected_revision'' = json_int (desired_revision v) \<and> write_ok v drive m body"
proof -
  from assms obtain drive module_id revision where d: "shown_module v = Some drive"
    and rv: "ef_review st = Some (module_id, revision)" and ready: "form_ready v drive st"
    and rq: "form_request v drive module_id revision st = Some (path, body)" by (elim step_request_ready)
  from ready obtain m where m: "ef_mode st = Some m" by (auto simp: form_ready_def)
  from ready rv have same: "fld drive ''id'' = JStr module_id" "revision = desired_revision v" "ev_active v"
    by (auto simp: form_ready_def review_changed_def)
  have enabled: "submit_enabled v drive st" using ready by (simp add: form_ready_def)
  have "fld body ''expected_revision'' = json_int revision \<and> write_ok v drive m body"
  proof (cases m)
    case Configure
    with rq m obtain p where p: "selected_profile v drive st = Some p" "supported v drive st"
      and b: "body = configuration_body drive p module_id revision (ef_fields st)"
      by (auto simp: form_request_def split: option.splits if_splits)
    then have "has_driver p \<and> tested_for drive p" by (simp add: supported_def)
    with p selected_profile_listed [OF p(1)] Configure same show ?thesis
      by (auto simp: b configuration_body_def write_ok_def)
  next
    case Replace
    with rq m same show ?thesis
      by (auto simp: form_request_def replacement_body_def write_ok_def split: option.splits)
  next
    case Commission
    with rq m enabled show ?thesis
      by (auto simp: form_request_def commission_body_def write_ok_def submit_enabled_def split: option.splits if_splits)
  qed
  with d m same show ?thesis by blast
qed

lemma find_module: "shown_module v = Some drive \<Longrightarrow>
  can_install v \<and> fld drive ''kind'' = JStr ''vfd'' \<and> \<not> truthy (fld drive ''retired_at'')
    \<and> drive \<in> set (elems (fld (eq_data (ev_passport v)) ''modules''))"
  by (auto simp: shown_module_def installed_module_def split: if_splits dest: find_SomeD)


section \<open>Examples\<close>

definition sample_passport :: equipment_passport where
  "sample_passport =
     \<lparr> eq_data = JObj [(''device_id'', JStr ''d1''), (''configuration_state'', JStr ''verified''),
         (''modules'', JArr [JObj [(''id'', JStr ''m1''), (''kind'', JStr ''vfd''), (''retired_at'', JNull),
            (''motor'', JNull), (''model'', JStr ''SU600'')]]),
         (''desired'', JObj [(''manifest'', JObj [(''revision'', JNum (Fin 3))])])],
       eq_can_install = True, eq_readiness = unknown_readiness, eq_capability = JStr ''bench'', eq_mode = JNull \<rparr>"

definition sample_view :: eq_view where
  "sample_view = \<lparr> ev_passport = sample_passport, ev_profiles = Some [], ev_active = True, ev_staff = True,
     ev_role = ''superadmin'', ev_retired = False \<rparr>"

definition sample_events :: "(eq_view \<times> eq_event) list" where
  "sample_events = map (\<lambda>e. (sample_view, e)) [MainButton, Tick True, SubmitForm]"

lemma sample_form_sent: "ef_sent (form_run sample_view sample_events) \<noteq> []"
proof -
  have shown: "shown_module sample_view = Some (JObj [(''id'', JStr ''m1''), (''kind'', JStr ''vfd''), (''retired_at'', JNull),
      (''motor'', JNull), (''model'', JStr ''SU600'')])"
    by (simp add: shown_module_def can_install_def installed_module_def sample_view_def sample_passport_def)
  have view: "has_desired sample_view" "desired_revision sample_view = 3" "\<not> awaiting_confirmation sample_view"
    "eq_state (ev_passport sample_view) = JStr ''verified''" "bench_available sample_view" "ev_active sample_view"
    by (simp_all add: has_desired_def desired_revision_def awaiting_confirmation_def eq_state_def bench_available_def
        sample_view_def sample_passport_def desired_of_def manifest_of_def is_nullish_def int_of_def)
  have control: "initial_control sample_view d = ''bench_without_motor''" for d
    using view by (simp add: initial_control_def full_available_def sample_view_def sample_passport_def)
  show ?thesis
    unfolding form_run_def sample_events_def
    by (simp add: form_step_def shown view control form_start_def select_mode_def form_ready_def submit_enabled_def
        review_changed_def submit_form_def form_request_def split: option.split)
qed

lemma equipment_writes_confirmed_witness:
  "\<exists>r. confirmed_before form_step form_content form_ticks step_request (form_start sample_view) sample_events r"
proof -
  obtain r where "r \<in> set (ef_sent (form_run sample_view sample_events))"
    using sample_form_sent by (metis list.set_intros(1) neq_Nil_conv)
  from equipment_writes_confirmed [OF this] show ?thesis by blast
qed


end
