(* ===== verification/ControllerLifecycle.thy ===== *)
theory ControllerLifecycle
  imports AccountAction Access
begin

text \<open>
  \<open>features/controller-lifecycle.tsx\<close>: renewing and revoking the access of a controller, and handing it over to
  another owner. The user reviews the access status, enters a password and confirms; the request carries the identity,
  the generation and the credential revision that were reviewed.

  A value of \<open>lifecycle\<close> is the state of the component. As in the other forms, an event carries the view of the
  rendering it happens in, \<open>lc_sent\<close> lists the requests made and an event whose control is missing or disabled changes
  nothing. The form is an instance of \<open>confirmed_form\<close>.
\<close>

section \<open>The access status\<close>

record access_status =
  as_controller :: string
  as_generation :: int
  as_credential :: int

text \<open>
  The check of the query function. Reading a property of \<open>null\<close> throws a \<open>TypeError\<close>; of another value that is not
  an object it yields \<open>undefined\<close>, which the check rejects.
\<close>

definition parse_access_status :: "json \<Rightarrow> string \<Rightarrow> exn + access_status" where
  "parse_access_status status controller_id =
     (if is_nullish status then Inl (JsExn ''TypeError'')
      else if fld status ''controller_id'' \<noteq> JStr controller_id
        \<or> \<not> is_safe_integer (fld status ''generation'') \<or> int_of (fld status ''generation'') < 1
        \<or> \<not> is_safe_integer (fld status ''credential_revision'') \<or> int_of (fld status ''credential_revision'') < 0
      then Inl (ApiExn (invalid_error (''/api/v1/connect/'' @ controller_id @ ''/status'')
             (JObj [(''expected'', JStr ''matching controller access status'')])))
      else Inr \<lparr> as_controller = controller_id, as_generation = int_of (fld status ''generation''),
                 as_credential = int_of (fld status ''credential_revision'') \<rparr>)"

lemma parse_access_status_ok:
  "parse_access_status v cid = Inr s \<Longrightarrow> as_controller s = cid \<and> 1 \<le> as_generation s \<and> 0 \<le> as_credential s
     \<and> fld v ''controller_id'' = JStr cid"
  by (auto simp: parse_access_status_def not_less split: if_splits)

section \<open>The component\<close>

datatype lifecycle_operation = Rotate | Revoke | Release

definition operation_path :: "lifecycle_operation \<Rightarrow> string" where
  "operation_path p = (case p of Rotate \<Rightarrow> ''rotate'' | Revoke \<Rightarrow> ''revoke'' | Release \<Rightarrow> ''release'')"

text \<open>What a rendering reads: the controller, the query, the permissions, the address of the customer portal.\<close>

record lifecycle_view =
  lw_controller :: string
  lw_status :: "access_status option"
  lw_active :: bool
  lw_error :: bool
  lw_fetching :: bool
  lw_permissions :: "string list"
  lw_organization_role :: "string option"
  lw_platform_role :: string
  lw_origin :: string

record lifecycle_fields =
  lf_password :: string
  lf_otp :: string
  lf_reason :: string

record lifecycle =
  lc_open :: bool
  lc_operation :: "lifecycle_operation option"
  lc_review :: "access_status option"
  lc_fields :: lifecycle_fields
  lc_confirmed :: bool
  lc_notice :: string
  lc_transfer :: "json option"
  lc_url :: string
  lc_action :: account_action
  lc_sent :: "(string \<times> json) list"
  lc_refreshes :: nat
  lc_saved :: nat

definition lifecycle_start :: lifecycle where
  "lifecycle_start =
     \<lparr> lc_open = False, lc_operation = None, lc_review = None, lc_fields = \<lparr> lf_password = [], lf_otp = [], lf_reason = [] \<rparr>,
       lc_confirmed = False, lc_notice = [], lc_transfer = None, lc_url = [], lc_action = no_action, lc_sent = [],
       lc_refreshes = 0, lc_saved = 0 \<rparr>"

definition lifecycle_allowed :: "lifecycle_view \<Rightarrow> bool" where
  "lifecycle_allowed v = (''capability.manage'' \<in> set (lw_permissions v))"

definition lifecycle_owner :: "lifecycle_view \<Rightarrow> bool" where
  "lifecycle_owner v = (lw_organization_role v = Some ''owner'' \<or> lw_platform_role v = ''superadmin'')"

definition status_changed :: "lifecycle_view \<Rightarrow> lifecycle \<Rightarrow> bool" where
  "status_changed v st =
     (case lc_review st of
        None \<Rightarrow> False
      | Some review \<Rightarrow> as_controller review \<noteq> lw_controller v
          \<or> (case lw_status v of
               None \<Rightarrow> True
             | Some s \<Rightarrow> as_generation review \<noteq> as_generation s \<or> as_credential review \<noteq> as_credential s))"

definition can_review :: "lifecycle_view \<Rightarrow> bool" where
  "can_review v = (lw_status v \<noteq> None \<and> lw_active v \<and> \<not> lw_error v \<and> \<not> lw_fetching v)"

definition choose_operation :: "lifecycle_view \<Rightarrow> lifecycle_operation \<Rightarrow> lifecycle \<Rightarrow> lifecycle" where
  "choose_operation v p st =
     (case lw_status v of
        None \<Rightarrow> st
      | Some s \<Rightarrow>
          if \<not> can_review v \<or> aa_busy (lc_action st) then st
          else st\<lparr>lc_operation := Some p, lc_review := Some (s\<lparr>as_controller := lw_controller v\<rparr>), lc_confirmed := False,
                  lc_fields := \<lparr> lf_password = [], lf_otp = [], lf_reason = [] \<rparr>, lc_notice := [],
                  lc_action := action_fail [] (lc_action st)\<rparr>)"

definition lifecycle_body :: "access_status \<Rightarrow> lifecycle_fields \<Rightarrow> json" where
  "lifecycle_body review f =
     JObj [(''password'', JStr (lf_password f)), (''otp'', if lf_otp f = [] then JNull else JStr (lf_otp f)),
           (''reason'', JStr (lf_reason f)), (''expected_generation'', JNum (Fin (of_int (as_generation review)))),
           (''expected_credential_revision'', JNum (Fin (of_int (as_credential review)))),
           (''stopped_and_isolated'', JBool True)]"

definition lifecycle_path :: "access_status \<Rightarrow> lifecycle_operation \<Rightarrow> string" where
  "lifecycle_path review p = ''/api/v1/connect/'' @ as_controller review @ ''/access/'' @ operation_path p"

text \<open>The guards of \<open>submit\<close> and of its button, the latter also deciding about a submission by the keyboard.\<close>

definition lifecycle_ready :: "lifecycle_view \<Rightarrow> lifecycle \<Rightarrow> bool" where
  "lifecycle_ready v st =
     (\<not> (aa_busy (lc_action st) \<or> status_changed v st \<or> \<not> lc_confirmed st \<or> \<not> can_review v)
      \<and> \<not> (lc_operation st = None \<or> lw_status v = None \<or> lc_review st = None))"

definition msg_revoked :: string where
  "msg_revoked = (uk ''Dostup vidklykano. Keruvann@ vymkneno.'')"

definition msg_rotated :: string where
  "msg_rotated = (uk ''Novyj kl$^ pidtverd*eno wl$zom. Kontroler zavanta*yt= joho avtomaty^no. Monta*nyk ma# pereviryty pidkl$^enn@ j vidnovyty dozvil keruvann@.'')"

text \<open>The rest of the action, after the answer. \<open>in\<close> throws for a value that is not an object.\<close>

definition lifecycle_answered :: "lifecycle_view \<Rightarrow> json \<Rightarrow> lifecycle \<Rightarrow> lifecycle" where
  "lifecycle_answered v result st =
     (let cleared = st\<lparr>lc_fields := (lc_fields st)\<lparr>lf_password := [], lf_otp := []\<rparr>, lc_operation := None,
                       lc_confirmed := False\<rparr> in
      if \<not> isRecord result \<and> \<not> is_array result
      then cleared\<lparr>lc_action := run_settled (Inl (JsExn ''TypeError'') :: exn + unit) (lc_action st)\<rparr>
      else (let done = cleared\<lparr>lc_action := run_settled (Inr () :: exn + unit) (lc_action st), lc_saved := Suc (lc_saved st)\<rparr> in
        if ''activation_code'' \<in> set (obj_keys result)
        then done\<lparr>lc_transfer := Some result, lc_url := lw_origin v @ js_string (fld result ''qr_path'')\<rparr>
        else done\<lparr>lc_notice := (if truthy (fld result ''access_revoked'') then msg_revoked else msg_rotated),
                  lc_refreshes := Suc (lc_refreshes st)\<rparr>))"

definition lifecycle_settled :: "lifecycle_view \<Rightarrow> exn + json \<Rightarrow> lifecycle \<Rightarrow> lifecycle" where
  "lifecycle_settled v outcome st =
     (if \<not> aa_pending (lc_action st) then st
      else (case outcome of
              Inl e \<Rightarrow> st\<lparr>lc_action := run_settled outcome (lc_action st)\<rparr>
            | Inr result \<Rightarrow> lifecycle_answered v result st))"

definition toggle_open :: "lifecycle \<Rightarrow> lifecycle" where
  "toggle_open st =
     (if aa_busy (lc_action st) then st
      else if lc_open st
      then st\<lparr>lc_open := False, lc_operation := None, lc_review := None, lc_confirmed := False,
              lc_fields := \<lparr> lf_password = [], lf_otp = [], lf_reason = [] \<rparr>, lc_action := action_fail [] (lc_action st)\<rparr>
      else st\<lparr>lc_open := True\<rparr>)"

datatype lifecycle_event =
    ToggleOpen
  | Choose lifecycle_operation
  | EditReason string
  | EditPassword string
  | EditOtp string
  | Tick bool
  | Submit
  | Cancel
  | Settled "exn + json"

definition edited :: "(lifecycle_fields \<Rightarrow> lifecycle_fields) \<Rightarrow> lifecycle \<Rightarrow> lifecycle" where
  "edited f st = st\<lparr>lc_fields := f (lc_fields st), lc_confirmed := False\<rparr>"

definition submit_lifecycle :: "lifecycle_view \<Rightarrow> lifecycle \<Rightarrow> lifecycle" where
  "submit_lifecycle v st =
     (case (lc_operation st, lc_review st, run_action (lc_action st)) of
        (Some p, Some review, Some a) \<Rightarrow>
          st\<lparr>lc_action := a, lc_sent := (lifecycle_path review p, lifecycle_body review (lc_fields st)) # lc_sent st\<rparr>
      | _ \<Rightarrow> st)"

text \<open>The buttons of the operations are rendered with the status, until a handover; the one for a handover for owners.\<close>

definition operation_shown :: "lifecycle_view \<Rightarrow> lifecycle_operation \<Rightarrow> lifecycle \<Rightarrow> bool" where
  "operation_shown v p st = (lc_open st \<and> lw_status v \<noteq> None \<and> lc_transfer st = None \<and> (p = Release \<longrightarrow> lifecycle_owner v))"

definition form_shown :: "lifecycle \<Rightarrow> bool" where
  "form_shown st = (lc_open st \<and> lc_operation st \<noteq> None)"

definition lifecycle_step :: "lifecycle \<Rightarrow> lifecycle_view \<times> lifecycle_event \<Rightarrow> lifecycle" where
  "lifecycle_step st ve =
     (let v = fst ve in
      case snd ve of
        Settled outcome \<Rightarrow> lifecycle_settled v outcome st
      | ToggleOpen \<Rightarrow> if lifecycle_allowed v then toggle_open st else st
      | Choose p \<Rightarrow> if lifecycle_allowed v \<and> operation_shown v p st then choose_operation v p st else st
      | EditReason s \<Rightarrow> if lifecycle_allowed v \<and> form_shown st then edited (lf_reason_update (\<lambda>_. s)) st else st
      | EditPassword s \<Rightarrow> if lifecycle_allowed v \<and> form_shown st then edited (lf_password_update (\<lambda>_. s)) st else st
      | EditOtp s \<Rightarrow> if lifecycle_allowed v \<and> form_shown st then edited (lf_otp_update (\<lambda>_. s)) st else st
      | Tick b \<Rightarrow> if lifecycle_allowed v \<and> form_shown st then st\<lparr>lc_confirmed := b\<rparr> else st
      | Submit \<Rightarrow> if lifecycle_allowed v \<and> form_shown st \<and> lifecycle_ready v st then submit_lifecycle v st else st
      | Cancel \<Rightarrow> if lifecycle_allowed v \<and> form_shown st \<and> \<not> aa_busy (lc_action st)
          then st\<lparr>lc_operation := None, lc_fields := (lc_fields st)\<lparr>lf_password := [], lf_otp := []\<rparr>\<rparr> else st)"

definition lifecycle_run :: "(lifecycle_view \<times> lifecycle_event) list \<Rightarrow> lifecycle" where
  "lifecycle_run es = foldl lifecycle_step lifecycle_start es"

section \<open>Every operation was confirmed\<close>

definition lifecycle_content ::
  "lifecycle \<Rightarrow> lifecycle_operation option \<times> access_status option \<times> lifecycle_fields" where
  "lifecycle_content st = (lc_operation st, lc_review st, lc_fields st)"

definition lifecycle_armed :: "lifecycle \<Rightarrow> bool" where
  "lifecycle_armed st = (lc_confirmed st \<and> lc_operation st \<noteq> None)"

definition lifecycle_ticks :: "lifecycle_view \<times> lifecycle_event \<Rightarrow> bool" where
  "lifecycle_ticks ve = (snd ve = Tick True)"

definition lifecycle_request :: "lifecycle_view \<times> lifecycle_event \<Rightarrow> lifecycle \<Rightarrow> (string \<times> json) option" where
  "lifecycle_request ve st =
     (case (snd ve, lc_operation st, lc_review st) of
        (Submit, Some p, Some review) \<Rightarrow>
          if lifecycle_allowed (fst ve) \<and> form_shown st \<and> lifecycle_ready (fst ve) st \<and> \<not> aa_pending (lc_action st)
          then Some (lifecycle_path review p, lifecycle_body review (lc_fields st)) else None
      | _ \<Rightarrow> None)"

lemmas lifecycle_defs = lifecycle_step_def choose_operation_def edited_def lifecycle_settled_def lifecycle_answered_def
  toggle_open_def submit_lifecycle_def Let_def

lemma lifecycle_step_armed:
  assumes "lifecycle_armed (lifecycle_step st (v, e))"
  shows "(lifecycle_ticks (v, e) \<or> lifecycle_armed st) \<and> lifecycle_content (lifecycle_step st (v, e)) = lifecycle_content st"
proof (cases e)
  case (Settled outcome)
  with assms show ?thesis
    by (auto simp: lifecycle_defs lifecycle_armed_def lifecycle_content_def split: if_splits sum.splits)
qed (use assms in \<open>auto simp: lifecycle_defs lifecycle_armed_def lifecycle_content_def lifecycle_ticks_def run_action_def
    split: if_splits option.splits\<close>)

lemma lifecycle_request_ready:
  assumes "lifecycle_request (v, e) st = Some r"
  obtains p review where "e = Submit" and "lc_operation st = Some p" and "lc_review st = Some review"
    and "lifecycle_allowed v" and "lifecycle_ready v st"
    and "r = (lifecycle_path review p, lifecycle_body review (lc_fields st))"
  using assms by (auto simp: lifecycle_request_def split: lifecycle_event.splits option.splits if_splits)

lemma lifecycle_step_sent:
  "lc_sent (lifecycle_step st (v, e))
     = (case lifecycle_request (v, e) st of None \<Rightarrow> lc_sent st | Some r \<Rightarrow> r # lc_sent st)"
proof (cases e)
  case Submit
  then show ?thesis
    by (cases "aa_pending (lc_action st)")
      (auto simp: lifecycle_defs lifecycle_request_def lifecycle_ready_def split: option.split)
qed (auto simp: lifecycle_defs lifecycle_request_def split: option.split sum.split)

interpretation lifecycle: confirmed_form lifecycle_step lifecycle_request lc_sent lifecycle_armed lifecycle_content
  lifecycle_ticks
proof unfold_locales
  fix st :: lifecycle and ve :: "lifecycle_view \<times> lifecycle_event" and r :: "string \<times> json"
  obtain v e where ve: "ve = (v, e)" by (cases ve)
  show "(lifecycle_ticks ve \<or> lifecycle_armed st) \<and> lifecycle_content (lifecycle_step st ve) = lifecycle_content st"
    if "lifecycle_armed (lifecycle_step st ve)" using lifecycle_step_armed that unfolding ve by blast
  show "lifecycle_armed st" if "lifecycle_request ve st = Some r"
    using that unfolding ve by (elim lifecycle_request_ready) (auto simp: lifecycle_ready_def lifecycle_armed_def)
  show "lc_sent (lifecycle_step st ve) = (case lifecycle_request ve st of None \<Rightarrow> lc_sent st | Some r \<Rightarrow> r # lc_sent st)"
    using lifecycle_step_sent unfolding ve .
qed

lemma lifecycle_start_idle: "lc_sent lifecycle_start = []" "\<not> lifecycle_armed lifecycle_start"
  by (simp_all add: lifecycle_start_def lifecycle_armed_def)

text \<open>A request is about the controller of the page, in the state of access shown when it was made.\<close>

lemma lifecycle_request_current:
  assumes "lifecycle_request (v, e) st = Some (path, body)"
  shows "\<exists>p s. lw_status v = Some s \<and> can_review v \<and> lifecycle_allowed v
    \<and> path = ''/api/v1/connect/'' @ lw_controller v @ ''/access/'' @ operation_path p
    \<and> fld body ''expected_generation'' = JNum (Fin (of_int (as_generation s)))
    \<and> fld body ''expected_credential_revision'' = JNum (Fin (of_int (as_credential s)))"
proof -
  from assms obtain p review where q: "lc_review st = Some review" "lifecycle_allowed v" "lifecycle_ready v st"
    and r: "path = lifecycle_path review p" "body = lifecycle_body review (lc_fields st)"
    by (elim lifecycle_request_ready) auto
  from q obtain s where s: "lw_status v = Some s" by (auto simp: lifecycle_ready_def)
  with q have "as_controller review = lw_controller v \<and> as_generation review = as_generation s
    \<and> as_credential review = as_credential s" by (auto simp: lifecycle_ready_def status_changed_def)
  with q s r show ?thesis
    by (auto simp: lifecycle_ready_def lifecycle_path_def lifecycle_body_def)
qed


section \<open>Secrets\<close>

text \<open>The password does not outlive the operation it was typed for: in every state the component can reach, when no
  operation is open (it succeeded, was cancelled, or the section was closed) the password and the one-time code are empty
  and the box is not counted as ticked.\<close>

theorem lifecycle_forgets_secrets:
  "lc_operation (lifecycle_run es) = None \<longrightarrow>
     lf_password (lc_fields (lifecycle_run es)) = [] \<and> lf_otp (lc_fields (lifecycle_run es)) = []
     \<and> \<not> lifecycle_armed (lifecycle_run es)"
proof (induction es rule: rev_induct)
  case Nil
  then show ?case by (simp add: lifecycle_run_def lifecycle_start_def lifecycle_armed_def)
next
  case (snoc ve es)
  obtain v e where ve: "ve = (v, e)" by (cases ve)
  have run: "lifecycle_run (es @ [ve]) = lifecycle_step (lifecycle_run es) (v, e)" by (simp add: lifecycle_run_def ve)
  show ?case unfolding run using snoc.IH
    by (cases e) (auto simp: lifecycle_defs lifecycle_armed_def form_shown_def run_action_def
      split: if_splits option.splits sum.splits)
qed

section \<open>Examples\<close>

definition sample_view :: lifecycle_view where
  "sample_view = \<lparr> lw_controller = ''c1'', lw_status = Some \<lparr> as_controller = ''c1'', as_generation = 1, as_credential = 4 \<rparr>,
     lw_active = True, lw_error = False, lw_fetching = False, lw_permissions = [''capability.manage''],
     lw_organization_role = None, lw_platform_role = ''user'', lw_origin = [] \<rparr>"

definition sample_events :: "(lifecycle_view \<times> lifecycle_event) list" where
  "sample_events = map (\<lambda>e. (sample_view, e))
     [ToggleOpen, Choose Rotate, EditReason ''planned'', EditPassword ''secret'', Tick True, Submit]"

lemmas sample_lifecycle = lifecycle_run_def sample_events_def sample_view_def lifecycle_start_def lifecycle_defs
  lifecycle_allowed_def operation_shown_def can_review_def form_shown_def lifecycle_ready_def status_changed_def
  lifecycle_path_def lifecycle_body_def operation_path_def


lemma lifecycle_forgets_secrets_witness:
  "lf_password (lc_fields (lifecycle_run sample_events)) = ''secret''
     \<and> lf_password (lc_fields (lifecycle_run (sample_events @ [(sample_view, Settled (Inr (JObj [])))]))) = []"
proof
  show "lf_password (lc_fields (lifecycle_run sample_events)) = ''secret''" by (simp add: sample_lifecycle)
  have "lc_operation (lifecycle_run (sample_events @ [(sample_view, Settled (Inr (JObj [])))])) = None"
    by (simp add: sample_lifecycle isRecord_def)
  with lifecycle_forgets_secrets [of "sample_events @ [(sample_view, Settled (Inr (JObj [])))]"]
  show "lf_password (lc_fields (lifecycle_run (sample_events @ [(sample_view, Settled (Inr (JObj [])))]))) = []" by blast
qed

end
