(* ===== verification/FactoryActions.thy ===== *)
theory FactoryActions
  imports AccountAction FactoryEquipment
begin

text \<open>
  \<open>features/factory-controller-actions.tsx\<close>: what the factory does to a controller in stock (quarantine, return,
  change of its network, preparation of its equipment), with the form of the equipment inside it
  (\<open>features/factory-equipment-preparation.tsx\<close>).

  A value of \<open>factory_actions\<close> is the state of both components: \<open>fc_child\<close> is the draft of the mounted equipment form
  and \<open>fc_seen\<close> the dependencies its effect ran with last. The effect reports the validated draft to the parent when one
  of them changed (\<open>after_render\<close>), before the next event. Equal dependencies are taken for the same, as the query
  library keeps the references of equal data. Events carry the view of their rendering, as in the other forms.
\<close>

section \<open>The view and the state\<close>

record factory_view =
  fv_id :: string
  fv_generation :: int
  fv_preparation_revision :: "int option"
  fv_editable :: bool
  fv_transport_editable :: bool
  fv_transport :: "string option"
  fv_last_transport :: "string option"
  fv_status :: string
  fv_prepared :: "factory_equipment option"
  fv_profiles :: "factory_profile list option"

datatype factory_action = Quarantine | Reset | Transport | Equipment

text \<open>The requests: the controller and the body's values.\<close>

datatype factory_request =
    EquipmentPatch string int int "factory_equipment option"
  | TransportPatch string string int
  | ResetPost string string int string
  | QuarantinePost string string

type_synonym child_deps = "equipment_draft \<times> factory_profile list option \<times> factory_equipment option"

record factory_actions =
  fc_action :: "factory_action option"
  fc_preparation :: preparation
  fc_review :: "(int \<times> int) option"
  fc_child :: "equipment_draft option"
  fc_seen :: "child_deps option"
  fc_transport :: string
  fc_reason :: string
  fc_reference :: string
  fc_confirmed :: bool
  fc_run :: account_action
  fc_running :: "factory_action option"
  fc_sent :: "factory_request list"
  fc_changed :: nat
  fc_kits :: "json list"

definition or_string :: "string option \<Rightarrow> string \<Rightarrow> string" where
  "or_string v d = (case v of None \<Rightarrow> d | Some s \<Rightarrow> s)"

definition factory_start :: "factory_view \<Rightarrow> factory_actions" where
  "factory_start v =
     \<lparr> fc_action = None, fc_preparation = \<lparr> pp_equipment = None, pp_valid = True, pp_error = None \<rparr>, fc_review = None,
       fc_child = None, fc_seen = None, fc_transport = or_string (fv_transport v) ''wifi'', fc_reason = [], fc_reference = [],
       fc_confirmed = False, fc_run = no_action, fc_running = None, fc_sent = [], fc_changed = 0, fc_kits = [] \<rparr>"

text \<open>\<open>controller.preparation_revision ?? 0\<close>\<close>

definition preparation_revision :: "factory_view \<Rightarrow> int" where
  "preparation_revision v = (case fv_preparation_revision v of None \<Rightarrow> 0 | Some r \<Rightarrow> r)"

definition preparation_changed :: "factory_view \<Rightarrow> factory_actions \<Rightarrow> bool" where
  "preparation_changed v st =
     (case fc_review st of
        None \<Rightarrow> False
      | Some (generation, revision) \<Rightarrow>
          generation \<noteq> fv_generation v \<or> revision \<noteq> preparation_revision v \<or> \<not> fv_editable v)"

section \<open>The equipment form\<close>

text \<open>Mounting, unmounting and the effect of the equipment form.\<close>

definition after_render :: "factory_view \<Rightarrow> factory_actions \<Rightarrow> factory_actions" where
  "after_render v st =
     (if fc_action st = Some Equipment
      then (let draft = (case fc_child st of None \<Rightarrow> factoryEquipmentDraft (fv_prepared v) | Some d \<Rightarrow> d);
                deps = (draft, fv_profiles v, fv_prepared v) in
            if fc_child st \<noteq> None \<and> fc_seen st = Some deps then st
            else st\<lparr>fc_child := Some draft, fc_seen := Some deps,
                    fc_preparation := validateFactoryEquipment draft (fv_profiles v) (fv_prepared v)\<rparr>)
      else st\<lparr>fc_child := None, fc_seen := None\<rparr>)"

datatype draft_edit =
    DraftSupply supply_kind
  | DraftSeries string | DraftModel string | DraftSerial string | DraftHardware string | DraftSoftware string
  | DraftMotor bool
  | DraftFrequency string | DraftCurrent string | DraftVoltage string | DraftPower string
  | DraftMin string | DraftMax string
  | DraftReviewed bool

fun draft_edited :: "factory_equipment option \<Rightarrow> draft_edit \<Rightarrow> equipment_draft \<Rightarrow> equipment_draft" where
  "draft_edited initial (DraftSupply s) d =
     d\<lparr>dr_supply := s, dr_motor_attached := (Option.bind initial fe_motor \<noteq> None \<or> s = CabinetSupply), dr_reviewed := False\<rparr>"
| "draft_edited initial (DraftSeries s) d = d\<lparr>dr_series := s, dr_reviewed := False\<rparr>"
| "draft_edited initial (DraftModel s) d = d\<lparr>dr_model := s, dr_reviewed := False\<rparr>"
| "draft_edited initial (DraftSerial s) d = d\<lparr>dr_serial := s, dr_reviewed := False\<rparr>"
| "draft_edited initial (DraftHardware s) d = d\<lparr>dr_hardware := s, dr_reviewed := False\<rparr>"
| "draft_edited initial (DraftSoftware s) d = d\<lparr>dr_software := s, dr_reviewed := False\<rparr>"
| "draft_edited initial (DraftMotor b) d = d\<lparr>dr_motor_attached := b, dr_reviewed := False\<rparr>"
| "draft_edited initial (DraftFrequency s) d = d\<lparr>dr_rated_frequency := s, dr_reviewed := False\<rparr>"
| "draft_edited initial (DraftCurrent s) d = d\<lparr>dr_rated_current := s, dr_reviewed := False\<rparr>"
| "draft_edited initial (DraftVoltage s) d = d\<lparr>dr_rated_voltage := s, dr_reviewed := False\<rparr>"
| "draft_edited initial (DraftPower s) d = d\<lparr>dr_rated_power := s, dr_reviewed := False\<rparr>"
| "draft_edited initial (DraftMin s) d = d\<lparr>dr_min_hz := s, dr_reviewed := False\<rparr>"
| "draft_edited initial (DraftMax s) d = d\<lparr>dr_max_hz := s, dr_reviewed := False\<rparr>"
| "draft_edited initial (DraftReviewed b) d = d\<lparr>dr_reviewed := b\<rparr>"

text \<open>Which inputs a draft shows.\<close>

fun draft_input_shown :: "equipment_draft \<Rightarrow> draft_edit \<Rightarrow> bool" where
  "draft_input_shown d (DraftSupply _) = True"
| "draft_input_shown d (DraftFrequency _) = (dr_supply d = CabinetSupply \<and> dr_motor_attached d)"
| "draft_input_shown d (DraftCurrent _) = (dr_supply d = CabinetSupply \<and> dr_motor_attached d)"
| "draft_input_shown d (DraftVoltage _) = (dr_supply d = CabinetSupply \<and> dr_motor_attached d)"
| "draft_input_shown d (DraftPower _) = (dr_supply d = CabinetSupply \<and> dr_motor_attached d)"
| "draft_input_shown d _ = (dr_supply d = CabinetSupply)"

section \<open>The handlers\<close>

datatype factory_event =
    OpenEquipment | OpenTransport | OpenQuarantine | OpenReset | Close
  | EditDraft draft_edit
  | ChooseTransport string
  | EditReason string
  | EditReference string
  | Tick bool
  | Submit
  | Settled "exn + json"

definition open_equipment :: "factory_view \<Rightarrow> factory_actions \<Rightarrow> factory_actions" where
  "open_equipment v st =
     st\<lparr>fc_preparation := \<lparr> pp_equipment = fv_prepared v, pp_valid = (fv_prepared v = None), pp_error = None \<rparr>,
        fc_review := Some (fv_generation v, preparation_revision v), fc_action := Some Equipment\<rparr>"

definition open_transport :: "factory_view \<Rightarrow> factory_actions \<Rightarrow> factory_actions" where
  "open_transport v st =
     st\<lparr>fc_action := Some Transport, fc_transport := or_string (fv_last_transport v) (or_string (fv_transport v) ''wifi''),
        fc_confirmed := False\<rparr>"

text \<open>The request of \<open>submit\<close>, after its guards and those of its button.\<close>

definition factory_request_of :: "factory_view \<Rightarrow> factory_actions \<Rightarrow> factory_request option" where
  "factory_request_of v st =
     (case fc_action st of
        None \<Rightarrow> None
      | Some Equipment \<Rightarrow>
          (case fc_review st of
             None \<Rightarrow> None
           | Some (generation, revision) \<Rightarrow>
               if \<not> pp_valid (fc_preparation st) \<or> preparation_changed v st then None
               else Some (EquipmentPatch (fv_id v) generation revision (pp_equipment (fc_preparation st))))
      | Some a \<Rightarrow>
          if \<not> fc_confirmed st then None
          else (case a of
                  Transport \<Rightarrow> Some (TransportPatch (fv_id v) (fc_transport st) (fv_generation v))
                | Reset \<Rightarrow> Some (ResetPost (fv_id v) (fc_reason st) (fv_generation v) (fc_reference st))
                | _ \<Rightarrow> Some (QuarantinePost (fv_id v) (fc_reason st))))"

definition submit_factory :: "factory_view \<Rightarrow> factory_actions \<Rightarrow> factory_actions" where
  "submit_factory v st =
     (if aa_busy (fc_run st) then st
      else (case (factory_request_of v st, run_action (fc_run st)) of
        (Some r, Some a) \<Rightarrow> st\<lparr>fc_run := a, fc_running := fc_action st, fc_sent := r # fc_sent st\<rparr>
      | _ \<Rightarrow> st))"

definition factory_settled :: "exn + json \<Rightarrow> factory_actions \<Rightarrow> factory_actions" where
  "factory_settled outcome st =
     (case fc_running st of
        None \<Rightarrow> st
      | Some a \<Rightarrow>
          (case outcome of
             Inl e \<Rightarrow> st\<lparr>fc_run := run_settled outcome (fc_run st), fc_running := None\<rparr>
           | Inr answer \<Rightarrow>
               st\<lparr>fc_run := run_settled outcome (fc_run st), fc_running := None, fc_action := None,
                  fc_confirmed := (if a = Equipment then fc_confirmed st else False),
                  fc_kits := (if a = Reset then answer # fc_kits st else fc_kits st), fc_changed := Suc (fc_changed st)\<rparr>))"

definition handle :: "factory_view \<Rightarrow> factory_event \<Rightarrow> factory_actions \<Rightarrow> factory_actions" where
  "handle v e st =
     (case e of
        Settled outcome \<Rightarrow> factory_settled outcome st
      | Submit \<Rightarrow> submit_factory v st
      | OpenEquipment \<Rightarrow> if fv_editable v \<and> \<not> aa_busy (fc_run st) then open_equipment v st else st
      | OpenTransport \<Rightarrow> if fv_transport_editable v \<and> \<not> aa_busy (fc_run st) then open_transport v st else st
      | OpenQuarantine \<Rightarrow> if aa_busy (fc_run st) \<or> fv_status v = ''quarantined'' then st
          else st\<lparr>fc_action := Some Quarantine, fc_confirmed := False\<rparr>
      | OpenReset \<Rightarrow> if fv_status v \<in> set [''ready'', ''quarantined''] \<and> \<not> aa_busy (fc_run st)
          then st\<lparr>fc_action := Some Reset, fc_confirmed := False\<rparr> else st
      | Close \<Rightarrow> if aa_busy (fc_run st) then st else st\<lparr>fc_action := None\<rparr>
      | EditDraft d \<Rightarrow>
          (case fc_child st of
             None \<Rightarrow> st
           | Some draft \<Rightarrow> if aa_busy (fc_run st) \<or> \<not> draft_input_shown draft d then st
                            else st\<lparr>fc_child := Some (draft_edited (fv_prepared v) d draft)\<rparr>)
      | ChooseTransport s \<Rightarrow> if fc_action st = Some Transport then st\<lparr>fc_transport := s, fc_confirmed := False\<rparr> else st
      | EditReason s \<Rightarrow> if fc_action st \<in> set [Some Quarantine, Some Reset] then st\<lparr>fc_reason := s\<rparr> else st
      | EditReference s \<Rightarrow> if fc_action st = Some Reset then st\<lparr>fc_reference := s\<rparr> else st
      | Tick b \<Rightarrow> if fc_action st \<in> set [Some Quarantine, Some Reset, Some Transport] then st\<lparr>fc_confirmed := b\<rparr> else st)"

definition factory_step :: "factory_actions \<Rightarrow> factory_view \<times> factory_event \<Rightarrow> factory_actions" where
  "factory_step st ve = after_render (fst ve) (handle (fst ve) (snd ve) (after_render (fst ve) st))"

definition factory_run :: "factory_view \<Rightarrow> (factory_view \<times> factory_event) list \<Rightarrow> factory_actions" where
  "factory_run v es = foldl factory_step (factory_start v) es"

section \<open>Confirmed operations\<close>

text \<open>The operations with a confirmation box, and what it confirms: the operation, and the network that is chosen.\<close>

definition factory_content :: "factory_actions \<Rightarrow> factory_action option \<times> string" where
  "factory_content st = (fc_action st, if fc_action st = Some Transport then fc_transport st else [])"

definition factory_armed :: "factory_actions \<Rightarrow> bool" where
  "factory_armed st = (fc_confirmed st \<and> fc_action st \<in> {Some Quarantine, Some Reset, Some Transport})"

definition factory_ticks :: "factory_view \<times> factory_event \<Rightarrow> bool" where
  "factory_ticks ve = (snd ve = Tick True)"

fun is_operation :: "factory_request \<Rightarrow> bool" where
  "is_operation (EquipmentPatch _ _ _ _) = False"
| "is_operation _ = True"

definition event_request :: "factory_view \<times> factory_event \<Rightarrow> factory_actions \<Rightarrow> factory_request option" where
  "event_request ve st =
     (if snd ve = Submit \<and> \<not> aa_busy (fc_run st) \<and> \<not> aa_pending (fc_run st)
      then factory_request_of (fst ve) (after_render (fst ve) st) else None)"

definition operation_request :: "factory_view \<times> factory_event \<Rightarrow> factory_actions \<Rightarrow> factory_request option" where
  "operation_request ve st =
     (case event_request ve st of None \<Rightarrow> None | Some r \<Rightarrow> if is_operation r then Some r else None)"

definition operations_sent :: "factory_actions \<Rightarrow> factory_request list" where
  "operations_sent st = filter is_operation (fc_sent st)"

lemma after_render_fields [simp]:
  "fc_action (after_render v st) = fc_action st" "fc_confirmed (after_render v st) = fc_confirmed st"
  "fc_transport (after_render v st) = fc_transport st" "fc_run (after_render v st) = fc_run st"
  "fc_sent (after_render v st) = fc_sent st" "fc_review (after_render v st) = fc_review st"
  "fc_running (after_render v st) = fc_running st"
  by (simp_all add: after_render_def Let_def)

lemma content_render [simp]: "factory_content (after_render v st) = factory_content st"
  "factory_armed (after_render v st) = factory_armed st"
  by (simp_all add: factory_content_def factory_armed_def)

lemmas handle_defs = handle_def factory_settled_def submit_factory_def open_equipment_def open_transport_def

lemma handle_armed:
  assumes "factory_armed (handle v e st)"
  shows "(factory_ticks (v, e) \<or> factory_armed st) \<and> factory_content (handle v e st) = factory_content st"
  using assms
  by (cases e) (auto simp: handle_defs factory_armed_def factory_content_def factory_ticks_def run_action_def
      split: if_splits option.splits sum.splits)

lemma handle_sent:
  "fc_sent (handle v e st) =
     (if e = Submit \<and> \<not> aa_busy (fc_run st) \<and> \<not> aa_pending (fc_run st)
      then (case factory_request_of v st of None \<Rightarrow> fc_sent st | Some r \<Rightarrow> r # fc_sent st) else fc_sent st)"
  by (cases e) (auto simp: handle_defs run_action_def split: option.split sum.split)

lemma factory_step_sent:
  "fc_sent (factory_step st ve) = (case event_request ve st of None \<Rightarrow> fc_sent st | Some r \<Rightarrow> r # fc_sent st)"
  by (simp add: factory_step_def handle_sent event_request_def split: option.split)

lemma operation_needs_tick: "factory_request_of v st = Some r \<Longrightarrow> is_operation r \<Longrightarrow> factory_armed st"
  by (auto simp: factory_request_of_def factory_armed_def split: option.splits factory_action.splits if_splits)

interpretation factory: confirmed_form factory_step operation_request operations_sent factory_armed factory_content
  factory_ticks
proof unfold_locales
  fix st :: factory_actions and ve :: "factory_view \<times> factory_event" and r :: factory_request
  obtain v e where ve: "ve = (v, e)" by (cases ve)
  show "(factory_ticks ve \<or> factory_armed st) \<and> factory_content (factory_step st ve) = factory_content st"
    if "factory_armed (factory_step st ve)"
    using handle_armed [of v e "after_render v st"] that unfolding ve by (simp add: factory_step_def)
  show "factory_armed st" if "operation_request ve st = Some r"
    using that operation_needs_tick [of "fst ve" "after_render (fst ve) st" r]
    by (simp add: operation_request_def event_request_def split: option.splits if_splits)
  show "operations_sent (factory_step st ve)
      = (case operation_request ve st of None \<Rightarrow> operations_sent st | Some r \<Rightarrow> r # operations_sent st)"
    by (simp add: operations_sent_def operation_request_def factory_step_sent split: option.split)
qed

text \<open>The factory never quarantines, resets or changes the network of a controller without a confirmation: in every
  run each such request follows a tick of the confirmation box, and from before that tick until the request the form
  showed the same operation (and the same network, when that is what changes).\<close>

theorem factory_operations_confirmed:
  assumes "r \<in> set (fc_sent (factory_run v0 es))" and "is_operation r"
  shows "confirmed_before factory_step factory_content factory_ticks operation_request (factory_start v0) es r"
proof -
  have "r \<in> set (operations_sent (foldl factory_step (factory_start v0) es))"
    using assms by (simp add: operations_sent_def factory_run_def)
  then show ?thesis
    by (rule factory.sent_confirmed) (simp_all add: operations_sent_def factory_start_def factory_armed_def)
qed

section \<open>Prepared equipment\<close>

text \<open>The report of the equipment form is the validation of what its effect has seen.\<close>

definition reported :: "factory_actions \<Rightarrow> bool" where
  "reported st \<longleftrightarrow> (fc_child st = None \<longleftrightarrow> fc_seen st = None)
     \<and> (fc_seen st \<noteq> None \<longrightarrow> fc_action st = Some Equipment)
     \<and> (\<forall>d ps prepared. fc_seen st = Some (d, ps, prepared) \<longrightarrow>
          fc_preparation st = validateFactoryEquipment d ps prepared)"

text \<open>The button that opens the equipment form, pressed while the form is open.\<close>

definition reopened :: "factory_actions \<Rightarrow> factory_view \<times> factory_event \<Rightarrow> bool" where
  "reopened st ve = (snd ve = OpenEquipment \<and> fc_action st = Some Equipment)"

definition never_reopened :: "factory_view \<Rightarrow> (factory_view \<times> factory_event) list \<Rightarrow> bool" where
  "never_reopened v0 es = along (\<lambda>st ve. \<not> reopened st ve) factory_step (factory_start v0) es"

lemma after_render_seen:
  assumes "fc_action st = Some Equipment" and "reported st"
  obtains d where "fc_child (after_render v st) = Some d"
    and "fc_preparation (after_render v st) = validateFactoryEquipment d (fv_profiles v) (fv_prepared v)"
proof (cases "fc_child st")
  case None
  with assms(1) show ?thesis by (intro that) (simp_all add: after_render_def Let_def)
next
  case (Some d)
  with assms show ?thesis
    by (cases "fc_seen st = Some (d, fv_profiles v, fv_prepared v)"; intro that [of d])
      (auto simp: after_render_def Let_def reported_def)
qed

text \<open>Between two events the effect may be due, so only the seen draft is known to be reported.\<close>

lemma render_reported:
  assumes "\<And>d ps prepared. fc_action st = Some Equipment \<Longrightarrow> fc_seen st = Some (d, ps, prepared) \<Longrightarrow>
      fc_preparation st = validateFactoryEquipment d ps prepared"
  shows "reported (after_render v st)"
  using assms by (auto simp: after_render_def Let_def reported_def split: option.split)

lemma handle_kept:
  assumes "reported st" and "\<not> reopened st (v, e)" and "fc_action (handle v e st) = Some Equipment"
    and "fc_seen (handle v e st) = Some (d, ps, prepared)"
  shows "fc_preparation (handle v e st) = validateFactoryEquipment d ps prepared"
  using assms
  by (cases e) (auto simp: handle_defs reported_def reopened_def run_action_def split: if_splits option.splits sum.splits)

lemma reported_action: "reported st \<Longrightarrow> fc_action (after_render v st) = fc_action st" by simp

lemma factory_step_reported:
  assumes "reported st" and "\<not> reopened st (v, e)"
  shows "reported (factory_step st (v, e))"
proof -
  have "reported (after_render v st)"
    by (rule render_reported) (use assms(1) in \<open>simp add: reported_def\<close>)
  moreover have "\<not> reopened (after_render v st) (v, e)" using assms(2) by (simp add: reopened_def)
  ultimately show ?thesis using handle_kept unfolding factory_step_def fst_conv snd_conv
    by (intro render_reported) blast
qed

lemma factory_run_reported:
  assumes "never_reopened v0 es"
  shows "reported (factory_run v0 es)"
  unfolding factory_run_def
proof (rule run_invariant [OF _ _ assms [unfolded never_reopened_def]])
  show "reported (factory_start v0)" by (simp add: factory_start_def reported_def)
  show "reported (factory_step st ve)" if "reported st" "\<not> reopened st ve" for st ve
    using factory_step_reported that by (cases ve) auto
qed

lemma never_reopened_take: "never_reopened v0 (xs @ ys) \<Longrightarrow> never_reopened v0 xs"
  by (simp add: never_reopened_def along_append)

lemma sent_by_submit:
  assumes "r \<in> set (fc_sent (factory_run v0 es))"
  shows "\<exists>xs v zs. es = xs @ (v, Submit) # zs
    \<and> factory_request_of v (after_render v (factory_run v0 xs)) = Some r"
  using assms
proof (induction es rule: rev_induct)
  case Nil
  then show ?case by (simp add: factory_run_def factory_start_def)
next
  case (snoc ve es)
  have step: "factory_run v0 (es @ [ve]) = factory_step (factory_run v0 es) ve" by (simp add: factory_run_def)
  show ?case
  proof (cases "r \<in> set (fc_sent (factory_run v0 es))")
    case True
    with snoc.IH show ?thesis by (metis append_Cons append_assoc)
  next
    case False
    with snoc.prems step have "event_request ve (factory_run v0 es) = Some r"
      by (auto simp: factory_step_sent split: option.splits)
    then have "snd ve = Submit" "factory_request_of (fst ve) (after_render (fst ve) (factory_run v0 es)) = Some r"
      by (auto simp: event_request_def split: if_splits)
    then show ?thesis by (metis prod.collapse append_Nil2)
  qed
qed

text \<open>Unless its button is pressed while the form is open, the factory saves the equipment that its form shows: each
  request to store it was submitted while the form showed a draft that is valid for the catalogue and the stored
  equipment of that view, carries exactly the validated equipment of this draft (none for a controller without a
  cabinet), and names the controller, its generation and the revision of its preparation in that view, which may be
  edited.\<close>

lemma prepared_equipment_as_shown:
  assumes "EquipmentPatch cid generation revision equipment \<in> set (fc_sent (factory_run v0 es))"
    and "never_reopened v0 es"
  shows "\<exists>xs v zs draft. es = xs @ (v, Submit) # zs \<and> fc_child (after_render v (factory_run v0 xs)) = Some draft
    \<and> pp_valid (validateFactoryEquipment draft (fv_profiles v) (fv_prepared v))
    \<and> equipment = pp_equipment (validateFactoryEquipment draft (fv_profiles v) (fv_prepared v))
    \<and> cid = fv_id v \<and> generation = fv_generation v \<and> revision = preparation_revision v \<and> fv_editable v"
proof -
  from sent_by_submit [OF assms(1)] obtain xs v zs where es: "es = xs @ (v, Submit) # zs"
    and rq: "factory_request_of v (after_render v (factory_run v0 xs)) = Some (EquipmentPatch cid generation revision equipment)"
    by blast
  from es assms(2) never_reopened_take have rp: "reported (factory_run v0 xs)" by (blast intro: factory_run_reported)
  from rq have eq: "fc_action (factory_run v0 xs) = Some Equipment"
    by (auto simp: factory_request_of_def split: option.splits factory_action.splits if_splits)
  obtain d where d: "fc_child (after_render v (factory_run v0 xs)) = Some d"
    "fc_preparation (after_render v (factory_run v0 xs)) = validateFactoryEquipment d (fv_profiles v) (fv_prepared v)"
    by (rule after_render_seen [OF eq rp])
  have "pp_valid (validateFactoryEquipment d (fv_profiles v) (fv_prepared v))
      \<and> equipment = pp_equipment (validateFactoryEquipment d (fv_profiles v) (fv_prepared v))
      \<and> cid = fv_id v \<and> generation = fv_generation v \<and> revision = preparation_revision v \<and> fv_editable v"
    using rq eq d by (auto simp: factory_request_of_def preparation_changed_def split: option.splits if_splits)
  with es d show ?thesis by blast
qed

text \<open>
  Pressing the button of the equipment form again resets the report but not the draft, and the effect does not run
  again. For a controller without stored equipment the report is then valid and empty, so the next submission stores no
  equipment, whatever reviewed draft the form shows.
\<close>

lemma reopened_form_saves_nothing:
  assumes "fc_action st = Some Equipment" and "fc_child st = Some d"
    and "fc_seen st = Some (d, fv_profiles v, fv_prepared v)"
    and "fv_editable v" and "fv_prepared v = None" and "\<not> aa_busy (fc_run st)" and "\<not> aa_pending (fc_run st)"
  defines "st1 \<equiv> factory_step (factory_step st (v, OpenEquipment)) (v, Submit)"
  shows "fc_sent st1 = EquipmentPatch (fv_id v) (fv_generation v) (preparation_revision v) None # fc_sent st
    \<and> fc_child st1 = Some d"
proof -
  have same: "after_render v st = st" using assms(1-3) by (simp add: after_render_def)
  let ?o = "open_equipment v st"
  have o: "factory_step st (v, OpenEquipment) = ?o" "after_render v ?o = ?o"
    using assms(1-6) by (simp_all add: factory_step_def same handle_def after_render_def open_equipment_def)
  have "factory_request_of v ?o = Some (EquipmentPatch (fv_id v) (fv_generation v) (preparation_revision v) None)"
    using assms(4,5) by (simp add: factory_request_of_def open_equipment_def preparation_changed_def)
  then have "handle v Submit ?o = ?o\<lparr>fc_run := \<lparr> aa_pending = True, aa_busy = True, aa_error = [] \<rparr>,
      fc_running := Some Equipment,
      fc_sent := EquipmentPatch (fv_id v) (fv_generation v) (preparation_revision v) None # fc_sent st\<rparr>"
    using assms(6,7) by (simp add: handle_def submit_factory_def run_action_def) (simp add: open_equipment_def)
  then show ?thesis unfolding st1_def o(1)
    using assms(1-3) by (simp add: factory_step_def o(2) after_render_def open_equipment_def)
qed

section \<open>Examples\<close>

definition sample_view :: factory_view where
  "sample_view = \<lparr> fv_id = ''c1'', fv_generation = 2, fv_preparation_revision = None, fv_editable = True,
     fv_transport_editable = True, fv_transport = None, fv_last_transport = None, fv_status = ''ready'', fv_prepared = None,
     fv_profiles = None \<rparr>"

definition sample_events :: "factory_event list \<Rightarrow> (factory_view \<times> factory_event) list" where
  "sample_events = map (\<lambda>e. (sample_view, e))"

lemmas sample_factory = factory_run_def sample_events_def factory_start_def factory_step_def after_render_def
  handle_defs factory_request_of_def or_string_def preparation_changed_def preparation_revision_def

lemma factory_operations_confirmed_witness:
  "confirmed_before factory_step factory_content factory_ticks operation_request (factory_start sample_view)
     (sample_events [OpenReset, EditReason ''returned'', EditReference ''R-7'', Tick True, Submit])
     (ResetPost ''c1'' ''returned'' 2 ''R-7'')"
proof -
  have "ResetPost ''c1'' ''returned'' 2 ''R-7'' \<in> set (fc_sent (factory_run sample_view
      (sample_events [OpenReset, EditReason ''returned'', EditReference ''R-7'', Tick True, Submit])))"
    by (simp add: sample_factory sample_view_def)
  from factory_operations_confirmed [OF this] show ?thesis by simp
qed

end
