(* ===== verification/Onboarding.thy ===== *)
theory Onboarding
  imports AccountAction Equipment Numerals
begin

text \<open>
  How a buyer connects a controller: \<open>lib/api/onboarding.ts\<close>, the validators of a connection, of the equipment behind
  it and of a recovery key, and \<open>features/connect.tsx\<close>, the field for the code of the controller, the claim and the
  checklist that follows the controller until it is ready.

  \<open>connection\<close> is the validated value. Its transport and connection state keep the payload's value, which the code
  tests through \<open>String\<close> and does not convert.
\<close>

section \<open>The connection\<close>

definition connect_path :: string where
  "connect_path = ''/api/v1/connect''"

record connection =
  cn_readiness :: readiness
  cn_can_install :: bool
  cn_organization :: "string option"
  cn_can_invite :: bool
  cn_controller :: string
  cn_serial :: string
  cn_hardware :: string
  cn_claimed :: bool
  cn_device :: "string option"
  cn_site :: "string option"
  cn_last_contact :: "string option"
  cn_firmware :: "string option"
  cn_activation_required :: bool
  cn_permanent_login :: "string option"
  cn_transport :: json
  cn_contact_transport :: json
  cn_telemetry_at :: "string option"
  cn_state :: json
  cn_initial_editable :: bool

text \<open>\<open>missing ? null : read()\<close>\<close>

definition unlessE :: "bool \<Rightarrow> 'a result \<Rightarrow> 'a option result" where
  "unlessE absent m = (if absent then Inr None else bindE m (\<lambda>x. Inr (Some x)))"

lemma unlessE_ok [ok_iff]: "unlessE b m = Inr y \<longleftrightarrow> (if b then y = None else (\<exists>x. m = Inr x \<and> y = Some x))"
  by (auto simp: unlessE_def ok_iff)

definition optional_bool :: "json \<Rightarrow> bool" where
  "optional_bool v = (v = JUndef \<or> is_bool v)"

definition transports :: "string list" where
  "transports = [''wifi'', ''lte'']"

definition connection_states :: "string list" where
  "connection_states = [''not_connected'', ''transport_mismatch'', ''bootstrap_connected'', ''online'', ''offline'']"

definition connection_transport :: "json \<Rightarrow> json" where
  "connection_transport v = nullish_or (fld v ''network_transport'') (JStr ''wifi'')"

definition contact_transport :: "json \<Rightarrow> json" where
  "contact_transport v = nullish_or (fld v ''last_contact_transport'') JNull"

definition connection_state :: "json \<Rightarrow> json" where
  "connection_state v = nullish_or (fld v ''connection_state'')
     (JStr (if truthy (fld v ''last_contact_at'') then ''bootstrap_connected'' else ''not_connected''))"

definition claimed :: "json \<Rightarrow> bool" where
  "claimed v = (fld v ''state'' = JStr ''claimed'')"

text \<open>The checks before the result is built; they yield the organization and the readiness.\<close>

definition connection_checks :: "json \<Rightarrow> string \<Rightarrow> (string option \<times> readiness) result" where
  "connection_checks v cid =
     seqE (reject (\<not> isRecord v \<or> fld v ''controller_id'' \<noteq> JStr cid
             \<or> js_string (fld v ''state'') \<notin> set [''ready'', ''claimed'']) connect_path ''controller identity and state'') (
     seqE (reject (\<not> claimed v \<and> (fld v ''device_id'' \<noteq> JNull \<or> fld v ''site_id'' \<noteq> JNull)) connect_path
             ''unclaimed controller'') (
     seqE (reject (js_string (connection_transport v) \<notin> set transports
             \<or> (contact_transport v \<noteq> JNull \<and> js_string (contact_transport v) \<notin> set transports)) connect_path
             ''controller transport'') (
     seqE (reject (js_string (connection_state v) \<notin> set connection_states) connect_path ''controller connection state'') (
     seqE (reject (connection_state v = JStr ''online'' \<and> is_nullish (fld v ''telemetry_received_at'')) connect_path
             ''live controller telemetry'') (
     seqE (reject (\<not> optional_bool (fld v ''initial_equipment_editable'')) connect_path ''initial equipment editing'') (
     seqE (reject (\<not> optional_bool (fld v ''can_install'')) connect_path ''installation permission'') (
     seqE (reject (\<not> optional_bool (fld v ''can_invite_installer'')) connect_path ''installer invitation permission'') (
     bindE (unlessE (is_nullish (fld v ''organization_id'')) (requiredUuid v ''organization_id'' connect_path)) (\<lambda>organization.
     seqE (reject (fld v ''can_invite_installer'' = JBool True \<and> (\<not> claimed v \<or> organization = None)) connect_path
             ''installer invitation scope'') (
     bindE (parseReadiness (fld v ''readiness'') connect_path) (\<lambda>readiness.
     seqE (reject (rd_state readiness = JStr ''ready'' \<and> (\<not> claimed v \<or> connection_state v \<noteq> JStr ''online''
             \<or> rd_blockers readiness \<noteq> [])) connect_path ''confirmed installation readiness'') (
     Inr (organization, readiness)))))))))))))"

definition parseConnection :: "json \<Rightarrow> string \<Rightarrow> connection result" where
  "parseConnection v cid =
     bindE (connection_checks v cid) (\<lambda>(organization, readiness).
     bindE (requiredUuid v ''controller_id'' connect_path) (\<lambda>controller.
     bindE (requiredString v ''serial_number'' connect_path) (\<lambda>serial.
     bindE (requiredString v ''hardware_model'' connect_path) (\<lambda>hardware.
     bindE (unlessE (\<not> claimed v) (requiredUuid v ''device_id'' connect_path)) (\<lambda>dev.
     bindE (unlessE (\<not> claimed v) (requiredUuid v ''site_id'' connect_path)) (\<lambda>site.
     bindE (unlessE (fld v ''last_contact_at'' = JNull) (requiredDateTime v ''last_contact_at'' connect_path)) (\<lambda>contact.
     bindE (unlessE (fld v ''firmware_version'' = JNull) (requiredString v ''firmware_version'' connect_path)) (\<lambda>firmware.
     bindE (unlessE (is_nullish (fld v ''permanent_login'')) (requiredString v ''permanent_login'' connect_path)) (\<lambda>login.
     bindE (unlessE (is_nullish (fld v ''telemetry_received_at'')) (requiredDateTime v ''telemetry_received_at'' connect_path)) (\<lambda>telemetry.
     Inr \<lparr> cn_readiness = readiness, cn_can_install = bool_of (fld v ''can_install''), cn_organization = organization,
           cn_can_invite = bool_of (fld v ''can_invite_installer''), cn_controller = controller, cn_serial = serial,
           cn_hardware = hardware, cn_claimed = claimed v, cn_device = dev, cn_site = site, cn_last_contact = contact,
           cn_firmware = firmware, cn_activation_required = (fld v ''activation_required'' \<noteq> JBool False),
           cn_permanent_login = login, cn_transport = connection_transport v, cn_contact_transport = contact_transport v,
           cn_telemetry_at = telemetry, cn_state = connection_state v,
           cn_initial_editable = bool_of (fld v ''initial_equipment_editable'') \<rparr>))))))))))"

section \<open>The equipment and the recovery key\<close>

record installed_drive =
  id_id :: string
  id_manufacturer :: string
  id_series :: string
  id_model :: string
  id_hardware :: "string option"

record connection_equipment =
  ce_module :: "installed_drive option"
  ce_state :: string
  ce_configured :: bool

definition installed_drives :: "json \<Rightarrow> json list" where
  "installed_drives v =
     filter (\<lambda>item. isRecord item \<and> fld item ''kind'' = JStr ''vfd'' \<and> fld item ''retired_at'' = JNull) (elems (fld v ''modules''))"

definition parse_drive :: "json \<Rightarrow> string \<Rightarrow> installed_drive result" where
  "parse_drive item device_id =
     seqE (reject (\<not> isRecord item \<or> fld item ''device_id'' \<noteq> JStr device_id) connect_path ''drive identity'') (
     bindE (requiredUuid item ''id'' connect_path) (\<lambda>did.
     bindE (requiredString item ''manufacturer'' connect_path) (\<lambda>manufacturer.
     bindE (requiredString item ''series'' connect_path) (\<lambda>series.
     bindE (requiredString item ''model'' connect_path) (\<lambda>model.
     bindE (unlessE (is_nullish (fld item ''hardware_revision'')) (requiredString item ''hardware_revision'' connect_path)) (\<lambda>hardware.
     Inr \<lparr> id_id = did, id_manufacturer = manufacturer, id_series = series, id_model = model, id_hardware = hardware \<rparr>))))))"

definition parseConnectionEquipment :: "json \<Rightarrow> string \<Rightarrow> string \<Rightarrow> connection_equipment result" where
  "parseConnectionEquipment v device_id controller_id =
     (let modules = fld v ''modules'' in
     seqE (reject (\<not> isRecord v \<or> fld v ''device_id'' \<noteq> JStr device_id \<or> fld v ''controller_id'' \<noteq> JStr controller_id
             \<or> \<not> is_array modules \<or> 32 < length (elems modules)) connect_path ''controller equipment identity'') (
     seqE (reject (list_ex (\<lambda>item. \<not> isRecord item) (elems modules)) connect_path ''equipment module'') (
     seqE (reject (1 < length (installed_drives v)) connect_path ''active controller drive'') (
     bindE (case installed_drives v of [] \<Rightarrow> Inr None
            | item # _ \<Rightarrow> bindE (parse_drive item device_id) (\<lambda>d. Inr (Some d))) (\<lambda>drive.
     seqE (reject (fld v ''desired'' \<noteq> JNull \<and> \<not> isRecord (fld v ''desired'')) connect_path ''saved equipment configuration'') (
     bindE (equipmentState (fld v ''configuration_state'')) (\<lambda>state.
     seqE (reject (state = ''verified'' \<and> fld v ''desired'' = JNull) connect_path ''verified equipment configuration'') (
     Inr \<lparr> ce_module = drive, ce_state = state, ce_configured = (fld v ''desired'' \<noteq> JNull) \<rparr>))))))))"

definition is_base64url :: "char \<Rightarrow> bool" where
  "is_base64url c =
     (let n = of_char c :: nat in (48 \<le> n \<and> n \<le> 57) \<or> (65 \<le> n \<and> n \<le> 90) \<or> (97 \<le> n \<and> n \<le> 122) \<or> n = 95 \<or> n = 45)"

definition parseRecovery :: "json \<Rightarrow> string result" where
  "parseRecovery v =
     (if \<not> isRecord v \<or> \<not> is_string (fld v ''recovery_key'')
        \<or> \<not> match_classes (replicate 43 is_base64url) (str_of (fld v ''recovery_key''))
      then invalidResponse ''/api/v1/auth/recovery'' ''recovery key'' else Inr (str_of (fld v ''recovery_key'')))"

section \<open>The field for the code\<close>

definition hex_or_dash :: "char \<Rightarrow> bool" where
  "hex_or_dash c = (is_hex c \<or> c = CHR ''-'')"

text \<open>\<open>/\/connect\/([0-9a-f-]{36})\/?$/i\<close>: the part of fixed length at the end, before an optional slash.\<close>

definition connect_match :: "string \<Rightarrow> string option" where
  "connect_match s =
     (let body = (if s \<noteq> [] \<and> last s = CHR ''/'' then butlast s else s); n = length body - 45 in
      if 45 \<le> length body \<and> js_lower (take 9 (drop n body)) = ''/connect/'' \<and> list_all hex_or_dash (drop (n + 9) body)
      then Some (drop (n + 9) body) else None)"

definition entered_id :: "string \<Rightarrow> string" where
  "entered_id text = (let s = js_trim text in case connect_match s of None \<Rightarrow> s | Some i \<Rightarrow> i)"

definition entry_shape :: "(char \<Rightarrow> bool) list" where
  "entry_shape =
     (let dash = (\<lambda>c. c = CHR ''-'')
      in replicate 8 is_hex @ [dash] @ replicate 4 is_hex @ [dash] @ replicate 4 is_hex @ [dash] @ replicate 4 is_hex
         @ [dash] @ replicate 12 is_hex)"

definition entry_valid :: "string \<Rightarrow> bool" where
  "entry_valid i = match_classes entry_shape i"

text \<open>The link that is shown, if any.\<close>

definition entry_link :: "string \<Rightarrow> string option" where
  "entry_link text = (if entry_valid (entered_id text) then Some (''/connect/'' @ entered_id text) else None)"

section \<open>The claim\<close>

record claim_fields =
  cf_activation :: string
  cf_device :: string
  cf_site_name :: string
  cf_timezone :: string
  cf_site :: string
  cf_organization :: string
  cf_organization_name :: string

text \<open>\<open>a || b || c\<close> on texts.\<close>

fun first_text :: "string list \<Rightarrow> string" where
  "first_text [] = []"
| "first_text (s # ss) = (if s \<noteq> [] then s else first_text ss)"

definition claim_body :: "connection \<Rightarrow> claim_fields \<Rightarrow> json" where
  "claim_body c f =
     JObj ((if \<not> cn_activation_required c then [] else [(''activation_code'', JStr (cf_activation f))])
       @ [(''device_name'', JStr (first_text [js_trim (cf_device f), cn_hardware c, (uk ''Kontroler'')]))]
       @ (if cf_site f \<noteq> [] then [(''site_id'', JStr (cf_site f))]
          else [(''new_site'', JObj ([(''name'', JStr (js_trim (cf_site_name f))), (''timezone'', JStr (cf_timezone f))]
            @ (if cf_organization f = ''new'' then [(''organization_name'', JStr (js_trim (cf_organization_name f)))]
               else if cf_organization f \<noteq> [] then [(''organization_id'', JStr (cf_organization f))] else [])))]))"

record connect_wizard =
  cw_data :: "connection option"
  cw_fields :: claim_fields
  cw_action :: account_action
  cw_sent :: "(string \<times> json) list"
  cw_access_retries :: nat

definition wizard_start :: connect_wizard where
  "wizard_start =
     \<lparr> cw_data = None, cw_fields = \<lparr> cf_activation = [], cf_device = [], cf_site_name = [], cf_timezone = ''Europe/Kyiv'',
         cf_site = [], cf_organization = [], cf_organization_name = [] \<rparr>,
       cw_action = no_action, cw_sent = [], cw_access_retries = 0 \<rparr>"

text \<open>The form is shown for a controller that is not claimed and has no permanent login.\<close>

definition claim_shown :: "connect_wizard \<Rightarrow> bool" where
  "claim_shown w =
     (case cw_data w of None \<Rightarrow> False | Some c \<Rightarrow> (cn_permanent_login c = None \<or> cn_permanent_login c = Some []) \<and> \<not> cn_claimed c)"

definition submit_claim :: "string \<Rightarrow> connect_wizard \<Rightarrow> connect_wizard" where
  "submit_claim cid w =
     (case (cw_data w, run_action (cw_action w)) of
        (Some c, Some a) \<Rightarrow>
          w\<lparr>cw_action := a, cw_sent := (connect_path @ ''/'' @ cid @ ''/claim'', claim_body c (cw_fields w)) # cw_sent w\<rparr>
      | _ \<Rightarrow> w)"

definition claim_settled :: "string \<Rightarrow> exn + json \<Rightarrow> connect_wizard \<Rightarrow> connect_wizard" where
  "claim_settled cid outcome w =
     (case outcome of
        Inl e \<Rightarrow> w\<lparr>cw_action := run_settled outcome (cw_action w)\<rparr>
      | Inr answer \<Rightarrow>
          (case parseConnection answer cid of
             Inl e \<Rightarrow> w\<lparr>cw_action := run_settled (Inl (ApiExn e) :: exn + unit) (cw_action w)\<rparr>
           | Inr c \<Rightarrow> w\<lparr>cw_data := Some c, cw_fields := (cw_fields w)\<lparr>cf_activation := []\<rparr>,
                         cw_access_retries := Suc (cw_access_retries w),
                         cw_action := run_settled (Inr () :: exn + unit) (cw_action w)\<rparr>))"

datatype wizard_event =
    Polled json
  | EditActivation string
  | EditClaim claim_fields
  | SubmitClaim
  | ClaimSettled "exn + json"

text \<open>
  \<open>Polled\<close> is an answer of the query; one that does not validate leaves the data. The activation code is trimmed as it
  is typed, the other fields are taken as they are, so an edit of them is given by its result.
\<close>

definition wizard_step :: "string \<Rightarrow> connect_wizard \<Rightarrow> wizard_event \<Rightarrow> connect_wizard" where
  "wizard_step cid w e =
     (case e of
        Polled answer \<Rightarrow> (case parseConnection answer cid of Inl _ \<Rightarrow> w | Inr c \<Rightarrow> w\<lparr>cw_data := Some c\<rparr>)
      | EditActivation s \<Rightarrow> if claim_shown w then w\<lparr>cw_fields := (cw_fields w)\<lparr>cf_activation := js_trim s\<rparr>\<rparr> else w
      | EditClaim f \<Rightarrow> if claim_shown w then w\<lparr>cw_fields := f\<lparr>cf_activation := cf_activation (cw_fields w)\<rparr>\<rparr> else w
      | SubmitClaim \<Rightarrow> if claim_shown w \<and> \<not> aa_busy (cw_action w) then submit_claim cid w else w
      | ClaimSettled outcome \<Rightarrow> if aa_pending (cw_action w) then claim_settled cid outcome w else w)"

section \<open>The checklist\<close>

definition progress_live :: "connection \<Rightarrow> bool \<Rightarrow> bool" where
  "progress_live c available = (available \<and> cn_state c = JStr ''online'')"

definition progress_checked :: "connection \<Rightarrow> bool" where
  "progress_checked c = (rd_state (cn_readiness c) \<in> set [JStr ''ready'', JStr ''needs_commissioning''])"

definition progress_ready :: "connection \<Rightarrow> bool \<Rightarrow> bool" where
  "progress_ready c available = (available \<and> rd_state (cn_readiness c) = JStr ''ready'')"

definition progress_steps :: "connection \<Rightarrow> bool \<Rightarrow> bool list" where
  "progress_steps c available = [True, progress_live c available, progress_checked c, progress_ready c available]"

definition progress_message :: "connection \<Rightarrow> bool \<Rightarrow> string" where
  "progress_message c available =
     (if \<not> available then (uk ''Ne mo*emo pereviryty zv|@zok'')
      else if progress_live c available then (uk ''Otrymu#mo svi*i pokazann@'')
      else if cn_state c = JStr ''bootstrap_connected'' then (uk ''Plata pidkl$^ylas@. O^iku#mo pokazann@'')
      else (uk ''O^iku#mo pidkl$^enn@''))"

section \<open>What is accepted\<close>

text \<open>A valid connection: about the controller asked for, placed exactly when it is claimed, and ready only when it is
  claimed, online with known telemetry and free of blockers.\<close>

definition wf_connection :: "string \<Rightarrow> connection \<Rightarrow> bool" where
  "wf_connection cid c \<longleftrightarrow>
     cn_controller c = cid \<and> is_uuid cid \<and> cn_serial c \<noteq> [] \<and> cn_hardware c \<noteq> []
     \<and> (cn_claimed c \<longleftrightarrow> cn_device c \<noteq> None) \<and> (cn_claimed c \<longleftrightarrow> cn_site c \<noteq> None)
     \<and> (cn_can_invite c \<longrightarrow> cn_claimed c \<and> cn_organization c \<noteq> None)
     \<and> (cn_state c = JStr ''online'' \<longrightarrow> cn_telemetry_at c \<noteq> None)
     \<and> wf_readiness (cn_readiness c)
     \<and> (rd_state (cn_readiness c) = JStr ''ready'' \<longrightarrow>
          cn_claimed c \<and> cn_state c = JStr ''online'' \<and> rd_blockers (cn_readiness c) = [])"

lemma connection_checks_ok:
  assumes "connection_checks v cid = Inr (organization, readiness)"
  shows "fld v ''controller_id'' = JStr cid \<and> parseReadiness (fld v ''readiness'') connect_path = Inr readiness
    \<and> (connection_state v = JStr ''online'' \<longrightarrow> \<not> is_nullish (fld v ''telemetry_received_at''))
    \<and> (fld v ''can_invite_installer'' = JBool True \<longrightarrow> claimed v \<and> organization \<noteq> None)
    \<and> (rd_state readiness = JStr ''ready'' \<longrightarrow> claimed v \<and> connection_state v = JStr ''online'' \<and> rd_blockers readiness = [])"
  using assms unfolding connection_checks_def by (simp add: ok_iff del: unlessE_ok)

lemma parseConnection_wf:
  assumes "parseConnection v cid = Inr c"
  shows "wf_connection cid c"
proof -
  from assms obtain organization readiness where ch: "connection_checks v cid = Inr (organization, readiness)"
    by (auto simp: parseConnection_def bindE_ok)
  note k = connection_checks_ok [OF ch]
  have r: "wf_readiness readiness" using k parseReadiness_wf by blast
  from assms obtain dev site telemetry where
    f: "is_uuid (cn_controller c)" "fld v ''controller_id'' = JStr (cn_controller c)" "cn_serial c \<noteq> []" "cn_hardware c \<noteq> []"
      "unlessE (\<not> claimed v) (requiredUuid v ''device_id'' connect_path) = Inr dev"
      "unlessE (\<not> claimed v) (requiredUuid v ''site_id'' connect_path) = Inr site"
      "unlessE (is_nullish (fld v ''telemetry_received_at'')) (requiredDateTime v ''telemetry_received_at'' connect_path) = Inr telemetry"
      "cn_claimed c = claimed v" "cn_device c = dev" "cn_site c = site" "cn_telemetry_at c = telemetry" "cn_state c = connection_state v"
      "cn_readiness c = readiness" "cn_organization c = organization" "cn_can_invite c = bool_of (fld v ''can_invite_installer'')"
    unfolding parseConnection_def ch bindE_simps prod.case
    by (auto simp: bindE_ok requiredUuid_ok requiredString_ok)
  have "dev = None \<longleftrightarrow> \<not> claimed v" "site = None \<longleftrightarrow> \<not> claimed v"
    "telemetry = None \<longleftrightarrow> is_nullish (fld v ''telemetry_received_at'')"
    using f(5-7) by (auto simp: unlessE_ok split: if_splits)
  with f k r show ?thesis unfolding wf_connection_def by (auto simp: bool_of_def)
qed


text \<open>The checklist never runs ahead of the controller: from every connection the client accepts, the last step is
  ticked only together with all earlier ones, and then the server is reachable, the controller is the one asked for, it
  belongs to a site, it is online with telemetry, the report of its installation is well-formed and has no blockers;
  and while the server is not reachable neither the connection nor the readiness is ticked.\<close>

theorem connection_ready_complete:
  assumes "parseConnection v cid = Inr c"
  shows "wf_connection cid c
    \<and> (if progress_ready c available
       then available \<and> list_all id (progress_steps c available) \<and> cn_controller c = cid \<and> cn_claimed c
         \<and> cn_device c \<noteq> None \<and> cn_site c \<noteq> None \<and> cn_telemetry_at c \<noteq> None \<and> rd_blockers (cn_readiness c) = []
       else \<not> available \<or> rd_state (cn_readiness c) \<noteq> JStr ''ready'')
    \<and> progress_steps c False = [True, False, progress_checked c, False]"
  using parseConnection_wf [OF assms]
  by (auto simp: wf_connection_def progress_ready_def progress_steps_def progress_live_def progress_checked_def)

section \<open>The claim's contract\<close>

definition claim_ok :: "string \<Rightarrow> string \<times> json \<Rightarrow> bool" where
  "claim_ok cid r \<longleftrightarrow> fst r = connect_path @ ''/'' @ cid @ ''/claim''
     \<and> (\<exists>c f. wf_connection cid c \<and> \<not> cn_claimed c \<and> snd r = claim_body c f
          \<and> (fld (snd r) ''activation_code'' = (if cn_activation_required c then JStr (cf_activation f) else JUndef))
          \<and> (fld (snd r) ''site_id'' = JUndef \<longleftrightarrow> fld (snd r) ''new_site'' \<noteq> JUndef)
          \<and> (\<exists>name. fld (snd r) ''device_name'' = JStr name \<and> name \<noteq> []))"

lemma first_text_ne: "s \<in> set xs \<Longrightarrow> s \<noteq> [] \<Longrightarrow> first_text xs \<noteq> []"
  by (induction xs) auto

lemma claim_body_fields:
  "fld (claim_body c f) ''activation_code'' = (if cn_activation_required c then JStr (cf_activation f) else JUndef)"
  "fld (claim_body c f) ''device_name'' = JStr (first_text [js_trim (cf_device f), cn_hardware c, (uk ''Kontroler'')])"
  "fld (claim_body c f) ''site_id'' = JUndef \<longleftrightarrow> fld (claim_body c f) ''new_site'' \<noteq> JUndef"
  by (simp_all add: claim_body_def)

lemma claim_body_ok:
  assumes "wf_connection cid c" and "\<not> cn_claimed c"
  shows "claim_ok cid (connect_path @ ''/'' @ cid @ ''/claim'', claim_body c f)"
proof -
  have n: "first_text [js_trim (cf_device f), cn_hardware c, x] \<noteq> []" for x
    using assms(1) by (intro first_text_ne [of "cn_hardware c"]) (auto simp: wf_connection_def)
  from assms n claim_body_fields [of c f] show ?thesis unfolding claim_ok_def fst_conv snd_conv by blast
qed

definition wizard_inv :: "string \<Rightarrow> connect_wizard \<Rightarrow> bool" where
  "wizard_inv cid w \<longleftrightarrow> (\<forall>c. cw_data w = Some c \<longrightarrow> wf_connection cid c) \<and> (\<forall>r \<in> set (cw_sent w). claim_ok cid r)"

lemma wizard_step_inv:
  assumes "wizard_inv cid w"
  shows "wizard_inv cid (wizard_step cid w e)"
proof (cases e)
  case SubmitClaim
  with assms show ?thesis
    using claim_body_ok
    by (auto simp: wizard_inv_def wizard_step_def submit_claim_def claim_shown_def run_action_def split: option.splits)
next
  case (ClaimSettled outcome)
  with assms show ?thesis
    using parseConnection_wf by (auto simp: wizard_inv_def wizard_step_def claim_settled_def split: sum.splits)
qed (use assms parseConnection_wf in \<open>auto simp: wizard_inv_def wizard_step_def split: sum.splits\<close>)

lemma wizard_run_inv: "wizard_inv cid (foldl (wizard_step cid) wizard_start es)"
  by (rule run_invariant_all) (simp_all add: wizard_step_inv, simp add: wizard_inv_def wizard_start_def)


text \<open>An answer to a claim that is not a valid connection leaves the data and the code, and shows an error.\<close>

lemma claim_outcome:
  assumes "claim_settled cid outcome w = w'"
  shows "\<not> aa_busy (cw_action w')
    \<and> (case outcome of
         Inl e \<Rightarrow> cw_data w' = cw_data w \<and> cw_fields w' = cw_fields w \<and> aa_error (cw_action w') = apiErrorDisplayMessage e
       | Inr answer \<Rightarrow>
           (case parseConnection answer cid of
              Inl e \<Rightarrow> cw_data w' = cw_data w \<and> cw_fields w' = cw_fields w
                \<and> aa_error (cw_action w') = apiErrorDisplayMessage (ApiExn e)
            | Inr c \<Rightarrow> cw_data w' = Some c \<and> wf_connection cid c \<and> cf_activation (cw_fields w') = []))"
  using assms parseConnection_wf by (auto simp: claim_settled_def run_settled_def split: sum.split)

section \<open>The link of the code\<close>

lemma match_classes_length: "match_classes ps s \<Longrightarrow> length s = length ps"
  by (auto simp: match_classes_def dest: list_all2_lengthD)

lemma entry_valid_chars:
  assumes "entry_valid i"
  shows "length i = 36" "list_all hex_or_dash i"
proof -
  show l: "length i = 36" using match_classes_length [OF assms [unfolded entry_valid_def]] by (simp add: entry_shape_def Let_def)
  have "\<forall>p \<in> set entry_shape. \<forall>c. p c \<longrightarrow> hex_or_dash c" by (auto simp: entry_shape_def Let_def hex_or_dash_def)
  with assms show "list_all hex_or_dash i"
    unfolding entry_valid_def match_classes_def list_all_iff
    by (metis in_set_conv_nth list_all2_conv_all_nth)
qed

lemma hex_or_dash_graphic: "hex_or_dash c \<Longrightarrow> graphic c \<and> c \<noteq> CHR ''/''"
proof -
  have "char_lower c = c \<or> (65 \<le> (of_char c :: nat) \<and> (of_char c :: nat) \<le> 90)"
    by (auto simp: char_lower_def Let_def)
  moreover assume "hex_or_dash c"
  ultimately show ?thesis
    by (auto simp: hex_or_dash_def is_hex_def is_hex_lower_def graphic_def Let_def)
qed

text \<open>The address in the code of a controller leads to it: whatever stands before \<open>/connect/\<close>, with or without a
  slash at the end, the field offers the page of the identifier in the address.\<close>

theorem entry_reads_link:
  assumes "entry_valid i" and "tail \<in> {[], ''/''}" and "prefix = [] \<or> graphic (hd prefix)"
  shows "entry_link (prefix @ ''/connect/'' @ i @ tail) = Some (''/connect/'' @ i)"
proof -
  let ?s = "prefix @ ''/connect/'' @ i @ tail"
  note i = entry_valid_chars [OF assms(1)]
  have ne: "i \<noteq> []" using i(1) by auto
  then have li: "hex_or_dash (last i)" using i(2) by (simp add: list_all_iff)
  have "graphic (hd ?s)" using assms(3) by (cases prefix) (auto simp: graphic_def Let_def)
  moreover have "graphic (last ?s)" using assms(2) ne hex_or_dash_graphic [OF li] by (auto simp: graphic_def Let_def)
  ultimately have trim: "js_trim ?s = ?s" by (intro js_trim_id) simp
  have body: "(if ?s \<noteq> [] \<and> last ?s = CHR ''/'' then butlast ?s else ?s) = prefix @ ''/connect/'' @ i"
    using assms(2) ne hex_or_dash_graphic [OF li] by (auto simp: butlast_append)
  have "connect_match ?s = Some i"
    unfolding connect_match_def body Let_def using i by (simp add: js_lower_def char_lower_def Let_def)
  with trim assms(1) show ?thesis by (simp add: entry_link_def entered_id_def)
qed

section \<open>Examples\<close>

definition sample_connection :: json where
  "sample_connection = JObj
     [(''controller_id'', JStr ''123e4567-e89b-12d3-a456-426614174000''), (''state'', JStr ''claimed''),
      (''device_id'', JStr ''123e4567-e89b-12d3-a456-426614174001''), (''site_id'', JStr ''123e4567-e89b-12d3-a456-426614174002''),
      (''serial_number'', JStr ''S1''), (''hardware_model'', JStr ''K3''), (''last_contact_at'', JNull),
      (''firmware_version'', JNull), (''connection_state'', JStr ''online''),
      (''telemetry_received_at'', JStr ''2026-10-07T10:00:00Z''),
      (''readiness'', JObj [(''state'', JStr ''ready''), (''title'', JStr ''Ready''), (''blockers'', JArr [])])]"

lemma sample_connection_ready:
  "holds (\<lambda>c. progress_ready c True) (parseConnection sample_connection ''123e4567-e89b-12d3-a456-426614174000'')"
  by code_simp

lemma connection_ready_complete_witness:
  "\<exists>c. parseConnection sample_connection ''123e4567-e89b-12d3-a456-426614174000'' = Inr c
     \<and> progress_steps c True = [True, True, True, True]"
proof -
  from sample_connection_ready obtain c
    where c: "parseConnection sample_connection ''123e4567-e89b-12d3-a456-426614174000'' = Inr c" "progress_ready c True"
    unfolding holds_iff by blast
  from connection_ready_complete [OF c(1), of True] c(2) have "list_all id (progress_steps c True)" by simp
  with c show ?thesis by (auto simp: progress_steps_def)
qed


lemma entry_reads_link_witness:
  "entry_link ''https://iot.example/connect/123e4567-e89b-12d3-a456-426614174000/''
     = Some ''/connect/123e4567-e89b-12d3-a456-426614174000''"
proof -
  have "entry_valid ''123e4567-e89b-12d3-a456-426614174000''" by code_simp
  from entry_reads_link [OF this, of "''/''" "''https://iot.example''"] show ?thesis by (simp add: graphic_def)
qed

end
