(* ===== verification/MemberAccess.thy ===== *)
theory MemberAccess
  imports AccountAction Access
begin

text \<open>
  \<open>features/member-access-fields.tsx\<close> and \<open>features/organization-members.tsx\<close>: who may do what in an organization. The
  fields choose a role, the sites it is limited to and the day it ends; they serve the invitation of a member and the
  editor of one.

  \<open>access_choice\<close> is what the fields show. The three callbacks of the fields are \<open>chosen_sites\<close>, \<open>chosen_role\<close> and
  \<open>chosen_expiry\<close>: what an event passes to each of them, \<open>None\<close> when it does not call it. \<open>choice_ok\<close> is their invariant:
  an owner is not limited, and at most a hundred different sites are chosen. The conversion between an instant and the
  local text of a date field depends on the time zone of the platform and is a parameter (\<open>local_text\<close>, \<open>instant\<close>).
\<close>

section \<open>The fields\<close>

datatype member_role = Viewer | Operator | Service | Admin | Owner

record access_choice =
  ch_role :: member_role
  ch_sites :: "string list option"
  ch_expires :: string

definition offered_roles :: "bool \<Rightarrow> access_choice \<Rightarrow> member_role list" where
  "offered_roles can_own c = [Viewer, Operator, Service, Admin] @ (if can_own \<and> ch_sites c = None then [Owner] else [])"

datatype field_event =
    ChooseScope bool
  | TickSite string
  | UntickSite string
  | ChooseRole member_role
  | ChooseExpiry string

text \<open>\<open>onSiteIdsChange\<close>. The boxes are those of the page of sites that is shown.\<close>

fun chosen_sites :: "bool \<Rightarrow> string list \<Rightarrow> field_event \<Rightarrow> access_choice \<Rightarrow> string list option option" where
  "chosen_sites can_own shown (ChooseScope whole) c =
     (if ch_role c = Owner then None else Some (if whole then None else Some []))"
| "chosen_sites can_own shown (TickSite i) c =
     (case ch_sites c of
        None \<Rightarrow> None
      | Some ids \<Rightarrow> if i \<in> set shown \<and> i \<notin> set ids \<and> length ids < 100 then Some (Some (ids @ [i])) else None)"
| "chosen_sites can_own shown (UntickSite i) c =
     (case ch_sites c of
        None \<Rightarrow> None
      | Some ids \<Rightarrow> if i \<in> set shown \<and> i \<in> set ids then Some (Some (filter (\<lambda>j. j \<noteq> i) ids)) else None)"
| "chosen_sites can_own shown (ChooseRole r) c = (if r = Owner \<and> r \<in> set (offered_roles can_own c) then Some None else None)"
| "chosen_sites can_own shown (ChooseExpiry s) c = None"

fun chosen_role :: "bool \<Rightarrow> field_event \<Rightarrow> access_choice \<Rightarrow> member_role option" where
  "chosen_role can_own (ChooseRole r) c = (if r \<in> set (offered_roles can_own c) then Some r else None)"
| "chosen_role can_own _ c = None"

fun chosen_expiry :: "bool \<Rightarrow> field_event \<Rightarrow> access_choice \<Rightarrow> string option" where
  "chosen_expiry can_own (ChooseRole r) c = (if r = Owner \<and> r \<in> set (offered_roles can_own c) then Some [] else None)"
| "chosen_expiry can_own (ChooseExpiry s) c = (if ch_role c = Owner then None else Some s)"
| "chosen_expiry can_own _ c = None"

definition or_keep :: "'a option \<Rightarrow> 'a \<Rightarrow> 'a" where
  "or_keep new old = (case new of None \<Rightarrow> old | Some x \<Rightarrow> x)"

definition fields_step :: "bool \<Rightarrow> string list \<Rightarrow> field_event \<Rightarrow> access_choice \<Rightarrow> access_choice" where
  "fields_step can_own shown e c =
     \<lparr> ch_role = or_keep (chosen_role can_own e c) (ch_role c),
       ch_sites = or_keep (chosen_sites can_own shown e c) (ch_sites c),
       ch_expires = or_keep (chosen_expiry can_own e c) (ch_expires c) \<rparr>"

definition choice_ok :: "access_choice \<Rightarrow> bool" where
  "choice_ok c \<longleftrightarrow> (ch_role c = Owner \<longrightarrow> ch_sites c = None \<and> ch_expires c = [])
     \<and> (case ch_sites c of None \<Rightarrow> True | Some ids \<Rightarrow> distinct ids \<and> length ids \<le> 100)"

lemma or_keep_simps [simp]: "or_keep None x = x" "or_keep (Some y) x = y"
  by (simp_all add: or_keep_def)

lemma fields_step_ok: "choice_ok c \<Longrightarrow> choice_ok (fields_step can_own shown e c)"
  by (cases e; cases "ch_sites c")
    (auto simp: choice_ok_def fields_step_def offered_roles_def intro: le_trans [OF length_filter_le])

section \<open>Dates\<close>

text \<open>\<open>accessExpiryInput\<close>; \<open>local_text\<close> writes an instant as the text of a date field.\<close>

definition accessExpiryInput :: "(string \<Rightarrow> string) \<Rightarrow> string option \<Rightarrow> string" where
  "accessExpiryInput local_text v = (case v of None \<Rightarrow> [] | Some s \<Rightarrow> if s = [] then [] else local_text s)"

text \<open>\<open>expires ? new Date(expires).toISOString() : null\<close>\<close>

definition expires_at :: "(string \<Rightarrow> string) \<Rightarrow> string \<Rightarrow> string option" where
  "expires_at instant text = (if text = [] then None else Some (instant text))"

section \<open>The invitation\<close>

record invitation_body =
  ib_email :: string
  ib_role :: member_role
  ib_sites :: "string list option"
  ib_expires :: "string option"

datatype member_request =
    Invite invitation_body
  | SetActive string bool string
  | RevokeInvitation string

text \<open>What a rendering of the page reads. \<open>mv_shown\<close> are the sites on the page of the picker.\<close>

record members_view =
  mv_allowed :: bool
  mv_can_manage :: bool
  mv_can_own :: bool
  mv_site :: "string option"
  mv_members_active :: bool
  mv_invitations_active :: bool
  mv_shown :: "string list"

record members_page =
  mp_email :: string
  mp_role :: member_role
  mp_chosen :: "string list option option"
  mp_expires :: string
  mp_notice :: string
  mp_action :: account_action
  mp_running :: "member_request option"
  mp_sent :: "member_request list"
  mp_refreshes :: nat

definition members_start :: members_page where
  "members_start = \<lparr> mp_email = [], mp_role = Viewer, mp_chosen = None, mp_expires = [], mp_notice = [],
     mp_action = no_action, mp_running = None, mp_sent = [], mp_refreshes = 0 \<rparr>"

text \<open>Until sites are chosen the invitation is for the site that is open.\<close>

definition invited_sites :: "members_view \<Rightarrow> members_page \<Rightarrow> string list option" where
  "invited_sites v st =
     (case mp_chosen st of
        None \<Rightarrow> Some (case mv_site v of None \<Rightarrow> [] | Some s \<Rightarrow> [s])
      | Some sites \<Rightarrow> sites)"

definition invited_choice :: "members_view \<Rightarrow> members_page \<Rightarrow> access_choice" where
  "invited_choice v st = \<lparr> ch_role = mp_role st, ch_sites = invited_sites v st, ch_expires = mp_expires st \<rparr>"

definition change_invitation :: "members_view \<Rightarrow> field_event \<Rightarrow> members_page \<Rightarrow> members_page" where
  "change_invitation v e st =
     (let c = invited_choice v st in
      st\<lparr>mp_role := or_keep (chosen_role (mv_can_own v) e c) (mp_role st),
         mp_chosen := (case chosen_sites (mv_can_own v) (mv_shown v) e c of None \<Rightarrow> mp_chosen st | Some s \<Rightarrow> Some s),
         mp_expires := or_keep (chosen_expiry (mv_can_own v) e c) (mp_expires st)\<rparr>)"

definition no_site :: "string list option \<Rightarrow> bool" where
  "no_site sites = (sites = Some [])"

datatype members_event =
    EditEmail string
  | ChangeInvitation field_event
  | SubmitInvitation
  | ToggleActive string bool string
  | Revoke string
  | Settled "exn + unit"

text \<open>\<open>run\<close> with an action that makes the request, or returns without one when the list is not current.\<close>

definition run_request :: "bool \<Rightarrow> member_request \<Rightarrow> members_page \<Rightarrow> members_page" where
  "run_request current r st =
     (case run_action (mp_action st) of
        None \<Rightarrow> st
      | Some a \<Rightarrow>
          if current then st\<lparr>mp_action := a, mp_running := Some r, mp_sent := r # mp_sent st\<rparr>
          else st\<lparr>mp_action := run_settled (Inr () :: exn + unit) a, mp_refreshes := Suc (mp_refreshes st)\<rparr>)"

definition members_notice :: "member_request \<Rightarrow> string" where
  "members_notice r =
     (case r of
        Invite _ \<Rightarrow> (uk ''Zaprowenn@ nadislano. Otrymuva^ ma# pryjn@ty joho prot@hom tr=ox dniv.'')
      | SetActive _ _ _ \<Rightarrow> (uk ''Dostup u^asnyka onovleno.'')
      | RevokeInvitation _ \<Rightarrow> (uk ''Zaprowenn@ skasovano.''))"

definition members_settled :: "exn + unit \<Rightarrow> members_page \<Rightarrow> members_page" where
  "members_settled outcome st =
     (case mp_running st of
        None \<Rightarrow> st
      | Some r \<Rightarrow>
          (let done = st\<lparr>mp_action := run_settled outcome (mp_action st), mp_running := None\<rparr> in
           case outcome of
             Inl e \<Rightarrow> done
           | Inr _ \<Rightarrow> done\<lparr>mp_notice := members_notice r, mp_refreshes := Suc (mp_refreshes st),
                          mp_email := (case r of Invite _ \<Rightarrow> [] | _ \<Rightarrow> mp_email st)\<rparr>))"

definition members_step :: "(string \<Rightarrow> string) \<Rightarrow> members_page \<Rightarrow> members_view \<times> members_event \<Rightarrow> members_page" where
  "members_step instant st ve =
     (let v = fst ve; busy = aa_busy (mp_action st) in
      case snd ve of
        Settled outcome \<Rightarrow> members_settled outcome st
      | EditEmail s \<Rightarrow> if mv_allowed v \<and> mv_can_manage v then st\<lparr>mp_email := s\<rparr> else st
      | ChangeInvitation e \<Rightarrow> if mv_allowed v \<and> mv_can_manage v \<and> \<not> busy then change_invitation v e st else st
      | SubmitInvitation \<Rightarrow>
          if mv_allowed v \<and> mv_can_manage v \<and> \<not> (busy \<or> \<not> mv_members_active v \<or> no_site (invited_sites v st))
          then run_request True (Invite \<lparr> ib_email = mp_email st, ib_role = mp_role st, ib_sites = invited_sites v st,
                                          ib_expires = expires_at instant (mp_expires st) \<rparr>) st
          else st
      | ToggleActive member active updated_at \<Rightarrow>
          if mv_allowed v \<and> mv_can_manage v \<and> \<not> busy \<and> mv_members_active v
          then run_request (mv_members_active v) (SetActive member (\<not> active) updated_at) st else st
      | Revoke i \<Rightarrow>
          if mv_allowed v \<and> mv_can_manage v \<and> \<not> busy \<and> mv_invitations_active v
          then run_request (mv_invitations_active v) (RevokeInvitation i) st else st)"

section \<open>The editor of a member\<close>

record member =
  mb_id :: string
  mb_role :: member_role
  mb_sites :: "string list option"
  mb_expires :: "string option"
  mb_updated_at :: string

record access_patch =
  pt_role :: "member_role option"
  pt_sites :: "string list option option"
  pt_expires :: "string option option"
  pt_expected :: string

text \<open>The code compares the sorted texts of the sites, which are equal exactly when the sets are.\<close>

definition scope_changed :: "member \<Rightarrow> access_choice \<Rightarrow> bool" where
  "scope_changed m c = (map_option set (ch_sites c) \<noteq> map_option set (mb_sites m))"

definition member_patch :: "(string \<Rightarrow> string) \<Rightarrow> (string \<Rightarrow> string) \<Rightarrow> member \<Rightarrow> access_choice \<Rightarrow> access_patch" where
  "member_patch local_text instant m c =
     \<lparr> pt_role = (if ch_role c \<noteq> mb_role m then Some (ch_role c) else None),
       pt_sites = (if scope_changed m c then Some (ch_sites c) else None),
       pt_expires = (if ch_expires c \<noteq> accessExpiryInput local_text (mb_expires m)
                     then Some (expires_at instant (ch_expires c)) else None),
       pt_expected = mb_updated_at m \<rparr>"

definition patch_changes :: "access_patch \<Rightarrow> bool" where
  "patch_changes p = (pt_role p \<noteq> None \<or> pt_sites p \<noteq> None \<or> pt_expires p \<noteq> None)"

definition member_choice :: "(string \<Rightarrow> string) \<Rightarrow> member \<Rightarrow> access_choice" where
  "member_choice local_text m =
     \<lparr> ch_role = mb_role m, ch_sites = mb_sites m, ch_expires = accessExpiryInput local_text (mb_expires m) \<rparr>"

record member_editor =
  me_open :: bool
  me_choice :: access_choice
  me_action :: account_action
  me_sent :: "access_patch list"
  me_saved :: nat

definition editor_start :: "(string \<Rightarrow> string) \<Rightarrow> member \<Rightarrow> member_editor" where
  "editor_start local_text m =
     \<lparr> me_open = False, me_choice = member_choice local_text m, me_action = no_action, me_sent = [], me_saved = 0 \<rparr>"

datatype editor_event = ToggleEditor | ChangeAccess field_event | SaveAccess | AccessSaved "exn + unit"

text \<open>\<open>active\<close>, \<open>can_own\<close> and the shown sites come from the rendering; \<open>m\<close> does not change while the editor lives.\<close>

definition editor_step ::
  "(string \<Rightarrow> string) \<Rightarrow> (string \<Rightarrow> string) \<Rightarrow> member \<Rightarrow> member_editor \<Rightarrow> members_view \<times> editor_event \<Rightarrow> member_editor" where
  "editor_step local_text instant m st ve =
     (let v = fst ve; busy = aa_busy (me_action st); active = mv_members_active v;
          patch = member_patch local_text instant m (me_choice st) in
      case snd ve of
        ToggleEditor \<Rightarrow>
          if busy \<or> \<not> active then st else st\<lparr>me_choice := member_choice local_text m, me_open := \<not> me_open st\<rparr>
      | ChangeAccess e \<Rightarrow>
          if me_open st \<and> \<not> busy then st\<lparr>me_choice := fields_step (mv_can_own v) (mv_shown v) e (me_choice st)\<rparr> else st
      | SaveAccess \<Rightarrow>
          if me_open st \<and> \<not> (busy \<or> \<not> active \<or> \<not> patch_changes patch \<or> no_site (ch_sites (me_choice st)))
          then (case run_action (me_action st) of
                  None \<Rightarrow> st
                | Some a \<Rightarrow> st\<lparr>me_action := a, me_sent := patch # me_sent st\<rparr>)
          else st
      | AccessSaved outcome \<Rightarrow>
          if \<not> aa_pending (me_action st) then st
          else (case outcome of
                  Inl e \<Rightarrow> st\<lparr>me_action := run_settled outcome (me_action st)\<rparr>
                | Inr _ \<Rightarrow> st\<lparr>me_action := run_settled outcome (me_action st), me_open := False,
                              me_saved := Suc (me_saved st)\<rparr>))"

section \<open>What is sent\<close>

definition request_ok :: "member_request \<Rightarrow> bool" where
  "request_ok r \<longleftrightarrow>
     (case r of
        Invite b \<Rightarrow> (ib_role b = Owner \<longrightarrow> ib_sites b = None \<and> ib_expires b = None)
          \<and> (case ib_sites b of None \<Rightarrow> True | Some ids \<Rightarrow> ids \<noteq> [] \<and> distinct ids \<and> length ids \<le> 100)
      | _ \<Rightarrow> True)"

definition members_inv :: "members_page \<Rightarrow> bool" where
  "members_inv st \<longleftrightarrow> (mp_role st = Owner \<longrightarrow> mp_chosen st = Some None \<and> mp_expires st = [])
     \<and> (\<forall>ids. mp_chosen st = Some (Some ids) \<longrightarrow> distinct ids \<and> length ids \<le> 100)
     \<and> (\<forall>r \<in> set (mp_sent st). request_ok r)"

lemma invited_choice_ok: "members_inv st \<Longrightarrow> choice_ok (invited_choice v st)"
  by (auto simp: members_inv_def choice_ok_def invited_choice_def invited_sites_def split: option.splits)

lemma change_invitation_inv:
  assumes "members_inv st"
  shows "members_inv (change_invitation v e st)"
proof -
  note c = invited_choice_ok [OF assms, of v]
  have sites: "distinct ids \<and> length ids \<le> 100"
    if "chosen_sites (mv_can_own v) (mv_shown v) e (invited_choice v st) = Some (Some ids)" for ids
    using fields_step_ok [OF c, of "mv_can_own v" "mv_shown v" e] that by (simp add: choice_ok_def fields_step_def)
  have owner: "mp_role st = Owner \<Longrightarrow> mp_chosen st = Some None \<and> mp_expires st = []" using assms by (simp add: members_inv_def)
  show ?thesis
  proof (cases e)
    case (ChooseRole r)
    with assms owner show ?thesis
      by (auto simp: members_inv_def change_invitation_def Let_def offered_roles_def invited_choice_def)
  next
    case (ChooseScope b)
    with assms owner show ?thesis
      by (auto simp: members_inv_def change_invitation_def Let_def invited_choice_def split: option.splits if_splits)
  next
    case (ChooseExpiry s)
    with assms owner show ?thesis
      by (auto simp: members_inv_def change_invitation_def Let_def invited_choice_def split: option.splits)
  next
    case (TickSite i)
    with assms owner sites show ?thesis
      by (auto simp: members_inv_def change_invitation_def Let_def invited_choice_def invited_sites_def split: option.splits if_splits)
  next
    case (UntickSite i)
    with assms owner sites show ?thesis
      by (auto simp: members_inv_def change_invitation_def Let_def invited_choice_def invited_sites_def split: option.splits if_splits)
  qed
qed

lemma submit_ok:
  assumes "members_inv st" and "\<not> no_site (invited_sites v st)"
  shows "request_ok (Invite \<lparr> ib_email = x, ib_role = mp_role st, ib_sites = invited_sites v st,
    ib_expires = expires_at instant (mp_expires st) \<rparr>)"
  using assms
  by (auto simp: request_ok_def members_inv_def invited_sites_def no_site_def expires_at_def split: option.splits)

lemma members_step_inv:
  assumes "members_inv st"
  shows "members_inv (members_step instant st (v, e))"
proof (cases e)
  case (ChangeInvitation f)
  with change_invitation_inv [OF assms] assms show ?thesis by (simp add: members_step_def Let_def)
next
  case SubmitInvitation
  with assms submit_ok [OF assms] show ?thesis
    by (auto simp: members_step_def Let_def run_request_def run_action_def members_inv_def)
next
  case (ToggleActive i b u)
  with assms show ?thesis
    by (auto simp: members_step_def Let_def run_request_def run_action_def members_inv_def request_ok_def)
next
  case (Revoke i)
  with assms show ?thesis
    by (auto simp: members_step_def Let_def run_request_def run_action_def members_inv_def request_ok_def)
next
  case (Settled outcome)
  with assms show ?thesis
    by (auto simp: members_step_def Let_def members_settled_def members_inv_def split: option.splits sum.splits)
qed (use assms in \<open>auto simp: members_step_def members_inv_def Let_def\<close>)

text \<open>No invitation gives more than the form can say: in every run of the page, whatever the rights and the open site
  of the moment, an invitation of an owner is for the whole organization and without an end, and any other invitation
  that is limited to sites names between one and a hundred different ones.\<close>

theorem invitations_bounded:
  "Invite b \<in> set (mp_sent (foldl (members_step instant) members_start es)) \<longrightarrow>
     (ib_role b = Owner \<longrightarrow> ib_sites b = None \<and> ib_expires b = None)
     \<and> (case ib_sites b of None \<Rightarrow> True | Some ids \<Rightarrow> ids \<noteq> [] \<and> distinct ids \<and> length ids \<le> 100)"
proof -
  have "members_inv (foldl (members_step instant) members_start es)"
  proof (rule run_invariant_all)
    show "members_inv members_start" by (simp add: members_inv_def members_start_def)
    show "members_inv (members_step instant st ve)" if "members_inv st" for st ve
      using members_step_inv [OF that] by (cases ve) simp
  qed
  then show ?thesis by (auto simp: members_inv_def request_ok_def)
qed

section \<open>What a change does\<close>

text \<open>The server's reading of a change: the fields it names are replaced.\<close>

definition apply_patch :: "access_patch \<Rightarrow> member \<Rightarrow> member" where
  "apply_patch p m =
     m\<lparr>mb_role := or_keep (pt_role p) (mb_role m), mb_sites := or_keep (pt_sites p) (mb_sites m),
       mb_expires := or_keep (pt_expires p) (mb_expires m)\<rparr>"

text \<open>
  The member \<open>m'\<close> has the access that the fields \<open>c\<close>, opened for \<open>m\<close>, show: the role, the set of sites, and the instant
  of the text, unless the text is the one that stood for the instant of \<open>m\<close>.
\<close>

definition has_access ::
  "(string \<Rightarrow> string) \<Rightarrow> (string \<Rightarrow> string) \<Rightarrow> member \<Rightarrow> access_choice \<Rightarrow> member \<Rightarrow> bool" where
  "has_access local_text instant m c m' \<longleftrightarrow> mb_role m' = ch_role c \<and> map_option set (mb_sites m') = map_option set (ch_sites c)
     \<and> mb_expires m' = (if ch_expires c = accessExpiryInput local_text (mb_expires m) then mb_expires m
                         else expires_at instant (ch_expires c))"

definition same_choice :: "access_choice \<Rightarrow> access_choice \<Rightarrow> bool" where
  "same_choice c d \<longleftrightarrow> ch_role c = ch_role d \<and> map_option set (ch_sites c) = map_option set (ch_sites d)
     \<and> ch_expires c = ch_expires d"

lemma patch_applied: "has_access local_text instant m c (apply_patch (member_patch local_text instant m c) m)"
  by (auto simp: has_access_def apply_patch_def member_patch_def scope_changed_def)

lemma patch_minimal:
  "patch_changes (member_patch local_text instant m c) \<longleftrightarrow> \<not> same_choice c (member_choice local_text m)"
  by (auto simp: patch_changes_def member_patch_def same_choice_def scope_changed_def member_choice_def)

definition editor_inv ::
  "(string \<Rightarrow> string) \<Rightarrow> (string \<Rightarrow> string) \<Rightarrow> member \<Rightarrow> member_editor \<Rightarrow> bool" where
  "editor_inv local_text instant m st \<longleftrightarrow> choice_ok (me_choice st)
     \<and> (\<forall>p \<in> set (me_sent st). \<exists>c. choice_ok c \<and> \<not> no_site (ch_sites c) \<and> \<not> same_choice c (member_choice local_text m)
          \<and> p = member_patch local_text instant m c)"

lemma editor_step_inv:
  assumes "editor_inv local_text instant m st" and "choice_ok (member_choice local_text m)"
  shows "editor_inv local_text instant m (editor_step local_text instant m st (v, e))"
proof (cases e)
  case SaveAccess
  with assms show ?thesis
    by (auto simp: editor_step_def Let_def editor_inv_def run_action_def patch_minimal)
next
  case (AccessSaved outcome)
  with assms show ?thesis by (auto simp: editor_step_def Let_def editor_inv_def split: sum.split)
qed (use assms fields_step_ok in \<open>auto simp: editor_step_def Let_def editor_inv_def\<close>)


section \<open>Examples\<close>

definition sample_members_view :: members_view where
  "sample_members_view = \<lparr> mv_allowed = True, mv_can_manage = True, mv_can_own = True, mv_site = Some ''s1'',
     mv_members_active = True, mv_invitations_active = True, mv_shown = [''s1'', ''s2''] \<rparr>"

definition sample_invitation :: "(members_view \<times> members_event) list" where
  "sample_invitation = map (\<lambda>e. (sample_members_view, e))
     [ChangeInvitation (ChooseScope True), ChangeInvitation (ChooseRole Owner), SubmitInvitation]"

lemma invitations_bounded_witness:
  "\<exists>b. Invite b \<in> set (mp_sent (foldl (members_step id) members_start sample_invitation)) \<and> ib_role b = Owner
     \<and> ib_sites b = None \<and> ib_expires b = None"
proof -
  let ?b = "\<lparr> ib_email = [], ib_role = Owner, ib_sites = None, ib_expires = None \<rparr>"
  have "Invite ?b \<in> set (mp_sent (foldl (members_step id) members_start sample_invitation))"
    by (simp add: sample_invitation_def sample_members_view_def members_step_def members_start_def change_invitation_def
        invited_choice_def invited_sites_def offered_roles_def run_request_def no_site_def expires_at_def Let_def)
  with invitations_bounded [of ?b id sample_invitation] show ?thesis by (intro exI [of _ ?b]) simp
qed

definition sample_member :: member where
  "sample_member = \<lparr> mb_id = ''m'', mb_role = Viewer, mb_sites = Some [''s1''], mb_expires = None, mb_updated_at = ''u1'' \<rparr>"

definition sample_edit :: "(members_view \<times> editor_event) list" where
  "sample_edit = map (\<lambda>e. (sample_members_view, e)) [ToggleEditor, ChangeAccess (ChooseRole Operator), SaveAccess]"


end
