(* ===== verification/AccountForms.thy ===== *)
theory AccountForms
  imports Onboarding
begin

text \<open>
  The forms of a personal account: \<open>features/create-personal-account.tsx\<close> (a new account from an invitation or from a
  letter), \<open>features/recover.tsx\<close> (a new password with the recovery key) and \<open>features/invitation.tsx\<close> (the page of an
  invitation in the customers' portal). All of them run their requests through \<open>useAccountAction\<close>.

  Each form is its state and its step; the requests are a datatype with the values they carry, newest first in the
  \<open>sent\<close> field. A submission carries the values of the rendering it happens in.
\<close>

section \<open>A new account\<close>

datatype account_request =
    CreateAccount bool string string string
  | EnterAccount string string

datatype account_running = Creating | Entering

record create_account =
  ca_name :: string
  ca_password :: string
  ca_confirmation :: string
  ca_created :: "json option"
  ca_saved :: bool
  ca_action :: account_action
  ca_running :: "account_running option"
  ca_sent :: "account_request list"
  ca_route :: "string option"

definition create_start :: create_account where
  "create_start = \<lparr> ca_name = [], ca_password = [], ca_confirmation = [], ca_created = None, ca_saved = False,
     ca_action = no_action, ca_running = None, ca_sent = [], ca_route = None \<rparr>"

datatype create_event =
    EditName string
  | EditPassword string
  | EditConfirmation string
  | SubmitAccount
  | TickSaved bool
  | Enter
  | Settled "exn + json"

text \<open>\<open>run\<close> with an action that throws before its request.\<close>

definition refused :: "exn \<Rightarrow> account_action \<Rightarrow> account_action" where
  "refused e a = (case run_action a of None \<Rightarrow> a | Some b \<Rightarrow> run_settled (Inl e :: exn + unit) b)"

text \<open>\<open>submit\<close> up to its request. \<open>invitation\<close>, \<open>token\<close> and \<open>email\<close> are the properties of the component.\<close>

definition submit_account :: "bool \<Rightarrow> string \<Rightarrow> create_account \<Rightarrow> create_account" where
  "submit_account invitation token st =
     (if ca_password st \<noteq> ca_confirmation st
      then st\<lparr>ca_action := refused (JsExn (uk ''Paroli ma$t= zbihatys@.'')) (ca_action st)\<rparr>
      else (case run_action (ca_action st) of
              None \<Rightarrow> st
            | Some a \<Rightarrow> st\<lparr>ca_action := a, ca_running := Some Creating,
                           ca_sent := CreateAccount invitation token (ca_name st) (ca_password st) # ca_sent st\<rparr>))"

text \<open>The answer to the request: the recovery key is checked, then the address.\<close>

definition account_created :: "string \<Rightarrow> json \<Rightarrow> create_account \<Rightarrow> create_account" where
  "account_created email result st =
     (let fails = (\<lambda>e. st\<lparr>ca_action := run_settled (Inl e :: exn + unit) (ca_action st), ca_running := None\<rparr>) in
      case parseRecovery result of
        Inl e \<Rightarrow> fails (ApiExn e)
      | Inr _ \<Rightarrow>
          if fld result ''email'' \<noteq> JStr email
          then fails (JsExn (uk ''Ne vdalos@ pidtverdyty dani oblikovoho zapysu. Povtorit= vxid.''))
          else st\<lparr>ca_action := run_settled (Inr () :: exn + unit) (ca_action st), ca_running := None,
                  ca_created := Some result, ca_confirmation := []\<rparr>)"

text \<open>\<open>enter\<close>; without an account or a tick its action returns at once.\<close>

definition enter_account :: "create_account \<Rightarrow> create_account" where
  "enter_account st =
     (case (run_action (ca_action st), ca_created st) of
        (Some a, Some created) \<Rightarrow>
          if \<not> ca_saved st then st\<lparr>ca_action := run_settled (Inr () :: exn + unit) a\<rparr>
          else st\<lparr>ca_action := a, ca_running := Some Entering,
                  ca_sent := EnterAccount (js_string (fld created ''email'')) (ca_password st) # ca_sent st\<rparr>
      | (Some a, None) \<Rightarrow> st\<lparr>ca_action := run_settled (Inr () :: exn + unit) a\<rparr>
      | (None, _) \<Rightarrow> st)"

definition account_route :: "json \<Rightarrow> string" where
  "account_route created =
     (if truthy (fld created ''controller_id'') then ''/connect/'' @ js_string (fld created ''controller_id'') else ''/devices'')"

definition account_entered :: "create_account \<Rightarrow> create_account" where
  "account_entered st =
     st\<lparr>ca_action := run_settled (Inr () :: exn + unit) (ca_action st), ca_running := None, ca_password := [],
        ca_route := map_option account_route (ca_created st), ca_created := None\<rparr>"

definition create_step :: "bool \<Rightarrow> string \<Rightarrow> string \<Rightarrow> create_account \<Rightarrow> create_event \<Rightarrow> create_account" where
  "create_step invitation token email st e =
     (let form = (ca_created st = None); busy = aa_busy (ca_action st) in
      case e of
        EditName s \<Rightarrow> if form then st\<lparr>ca_name := s\<rparr> else st
      | EditPassword s \<Rightarrow> if form then st\<lparr>ca_password := s\<rparr> else st
      | EditConfirmation s \<Rightarrow> if form then st\<lparr>ca_confirmation := s\<rparr> else st
      | SubmitAccount \<Rightarrow> if form \<and> \<not> busy then submit_account invitation token st else st
      | TickSaved b \<Rightarrow> if form then st else st\<lparr>ca_saved := b\<rparr>
      | Enter \<Rightarrow> if form \<or> busy \<or> \<not> ca_saved st then st else enter_account st
      | Settled outcome \<Rightarrow>
          (case ca_running st of
             None \<Rightarrow> st
           | Some r \<Rightarrow>
               (case outcome of
                  Inl e \<Rightarrow> st\<lparr>ca_action := run_settled outcome (ca_action st), ca_running := None\<rparr>
                | Inr result \<Rightarrow> if r = Creating then account_created email result st else account_entered st)))"

text \<open>The password is edited while the account is being created; the field is not disabled meanwhile.\<close>

definition edits_in_flight :: "create_account \<Rightarrow> create_event \<Rightarrow> bool" where
  "edits_in_flight st e = (ca_running st = Some Creating \<and> (\<exists>s. e = EditPassword s))"

text \<open>An account with this password was asked for.\<close>

definition asked :: "bool \<Rightarrow> string \<Rightarrow> string \<Rightarrow> account_request list \<Rightarrow> bool" where
  "asked invitation token p rs = (\<exists>name. CreateAccount invitation token name p \<in> set rs)"

lemma asked_Cons [simp]:
  "asked i t p (CreateAccount i' t' n q # rs) \<longleftrightarrow> (i' = i \<and> t' = t \<and> q = p) \<or> asked i t p rs"
  "asked i t p (EnterAccount x q # rs) = asked i t p rs"
  by (auto simp: asked_def)

definition account_inv :: "bool \<Rightarrow> string \<Rightarrow> string \<Rightarrow> create_account \<Rightarrow> bool" where
  "account_inv invitation token email st \<longleftrightarrow>
     (case ca_created st of
        None \<Rightarrow> ca_running st \<noteq> Some Entering
      | Some r \<Rightarrow> fld r ''email'' = JStr email \<and> isOk (parseRecovery r) \<and> ca_running st \<noteq> Some Creating
          \<and> asked invitation token (ca_password st) (ca_sent st))
     \<and> (ca_running st = Some Creating \<longrightarrow> asked invitation token (ca_password st) (ca_sent st))
     \<and> (aa_pending (ca_action st) \<longrightarrow> ca_running st \<noteq> None) \<and> (ca_running st \<noteq> None \<longrightarrow> aa_busy (ca_action st))
     \<and> (\<forall>x p. EnterAccount x p \<in> set (ca_sent st) \<longrightarrow>
          x = email \<and> asked invitation token p (ca_sent st))"

lemma create_step_inv:
  assumes "account_inv invitation token email st" and "\<not> edits_in_flight st e"
  shows "account_inv invitation token email (create_step invitation token email st e)"
proof (cases e)
  case SubmitAccount
  with assms show ?thesis
    by (auto simp: create_step_def Let_def submit_account_def refused_def run_action_def account_inv_def run_settled_def
        split: option.splits)
next
  case Enter
  with assms show ?thesis
    by (auto simp: create_step_def Let_def enter_account_def run_action_def account_inv_def split: option.splits)
next
  case (Settled outcome)
  with assms show ?thesis
    by (auto simp: create_step_def Let_def account_inv_def account_created_def account_entered_def run_settled_def
        split: option.splits sum.splits account_running.splits)
qed (use assms in \<open>auto simp: create_step_def Let_def account_inv_def edits_in_flight_def split: option.splits\<close>)

text \<open>The first login is that of the new account: unless the password is edited while the account is being created, in
  every run of the form a login carries the address the form was opened for and a password with which this very form
  asked for an account under the token of the letter.\<close>

theorem first_login_is_of_account:
  assumes "along (\<lambda>st e. \<not> edits_in_flight st e) (create_step invitation token email) create_start es"
    and "EnterAccount login password \<in> set (ca_sent (foldl (create_step invitation token email) create_start es))"
  shows "login = email
    \<and> (\<exists>name. CreateAccount invitation token name password
          \<in> set (ca_sent (foldl (create_step invitation token email) create_start es)))"
proof -
  have "account_inv invitation token email (foldl (create_step invitation token email) create_start es)"
    by (rule run_invariant [OF _ _ assms(1)])
      (simp_all add: create_step_inv, simp add: account_inv_def create_start_def)
  with assms(2) have "login = email
    \<and> asked invitation token password (ca_sent (foldl (create_step invitation token email) create_start es))"
    unfolding account_inv_def by blast
  then show ?thesis by (simp add: asked_def)
qed

text \<open>Without the condition the login carries what was typed meanwhile, with which no account was created.\<close>

lemma edited_password_is_lost:
  assumes "parseRecovery r = Inr k" and "fld r ''email'' = JStr email"
  shows "ca_sent (foldl (create_step invitation token email) create_start
      [EditPassword p, EditConfirmation p, SubmitAccount, EditPassword q, Settled (Inr r), TickSaved True, Enter])
    = [EnterAccount email q, CreateAccount invitation token [] p]"
  using assms
  by (simp add: create_step_def create_start_def submit_account_def account_created_def enter_account_def run_settled_def
      no_action_def)

text \<open>Passwords that differ are never sent, but the message about them is not shown: the code throws an \<open>Error\<close>, and
  the display replaces the message of every error that is not of the API.\<close>

lemma password_mismatch_message:
  assumes "ca_password st \<noteq> ca_confirmation st" and "ca_created st = None" and "\<not> aa_busy (ca_action st)"
    and "\<not> aa_pending (ca_action st)"
  shows "aa_error (ca_action (create_step invitation token email st SubmitAccount))
      = (uk ''Ne vdalos@ vykonaty di$. Sprobujte qe raz.'')
    \<and> ca_sent (create_step invitation token email st SubmitAccount) = ca_sent st"
  using assms by (simp add: create_step_def submit_account_def refused_def run_settled_def apiErrorDisplayMessage_def)

section \<open>Recovery\<close>

record recovery_form =
  rf_email :: string
  rf_key :: string
  rf_password :: string
  rf_confirmation :: string
  rf_issued :: string
  rf_saved :: bool
  rf_action :: account_action
  rf_sent :: "(string \<times> string \<times> string) list"

definition recovery_start :: recovery_form where
  "recovery_start = \<lparr> rf_email = [], rf_key = [], rf_password = [], rf_confirmation = [], rf_issued = [], rf_saved = False,
     rf_action = no_action, rf_sent = [] \<rparr>"

datatype recovery_event =
    RecoverEmail string | RecoverKey string | RecoverPassword string | RecoverConfirmation string
  | SubmitRecovery
  | TickKept bool
  | Recovered "exn + json"

definition recovery_answered :: "json \<Rightarrow> recovery_form \<Rightarrow> recovery_form" where
  "recovery_answered result st =
     (case parseRecovery result of
        Inl e \<Rightarrow> st\<lparr>rf_action := run_settled (Inl (ApiExn e) :: exn + unit) (rf_action st)\<rparr>
      | Inr k \<Rightarrow> st\<lparr>rf_action := run_settled (Inr () :: exn + unit) (rf_action st), rf_issued := k, rf_password := [],
                    rf_confirmation := [], rf_key := []\<rparr>)"

definition recovery_step :: "recovery_form \<Rightarrow> recovery_event \<Rightarrow> recovery_form" where
  "recovery_step st e =
     (let form = (rf_issued st = []) in
      case e of
        RecoverEmail s \<Rightarrow> if form then st\<lparr>rf_email := s\<rparr> else st
      | RecoverKey s \<Rightarrow> if form then st\<lparr>rf_key := js_trim s\<rparr> else st
      | RecoverPassword s \<Rightarrow> if form then st\<lparr>rf_password := s\<rparr> else st
      | RecoverConfirmation s \<Rightarrow> if form then st\<lparr>rf_confirmation := s\<rparr> else st
      | TickKept b \<Rightarrow> if form then st else st\<lparr>rf_saved := b\<rparr>
      | SubmitRecovery \<Rightarrow>
          if \<not> form \<or> aa_busy (rf_action st) then st
          else if rf_password st \<noteq> rf_confirmation st
          then st\<lparr>rf_action := refused (JsExn (uk ''Paroli ne zbiha$t=s@'')) (rf_action st)\<rparr>
          else (case run_action (rf_action st) of
                  None \<Rightarrow> st
                | Some a \<Rightarrow> st\<lparr>rf_action := a, rf_sent := (rf_email st, rf_key st, rf_password st) # rf_sent st\<rparr>)
      | Recovered outcome \<Rightarrow>
          if \<not> aa_pending (rf_action st) then st
          else (case outcome of
                  Inl x \<Rightarrow> st\<lparr>rf_action := run_settled outcome (rf_action st)\<rparr>
                | Inr result \<Rightarrow> recovery_answered result st))"

text \<open>The link to the login appears once the key is kept.\<close>

definition next_shown :: "recovery_form \<Rightarrow> bool" where
  "next_shown st = (rf_issued st \<noteq> [] \<and> rf_saved st)"

definition recovery_inv :: "recovery_form \<Rightarrow> bool" where
  "recovery_inv st \<longleftrightarrow> (rf_issued st \<noteq> [] \<longrightarrow> match_classes (replicate 43 is_base64url) (rf_issued st)
       \<and> rf_password st = [] \<and> rf_confirmation st = [] \<and> rf_key st = [] \<and> \<not> aa_pending (rf_action st) \<and> rf_sent st \<noteq> [])
     \<and> (aa_pending (rf_action st) \<longrightarrow> rf_sent st \<noteq> []) \<and> (rf_issued st = [] \<longrightarrow> \<not> rf_saved st)"

lemma parseRecovery_ok: "parseRecovery v = Inr k \<Longrightarrow> match_classes (replicate 43 is_base64url) k \<and> k \<noteq> []"
  by (auto simp: parseRecovery_def match_classes_def split: if_splits)

lemma recovery_step_inv:
  assumes "recovery_inv st"
  shows "recovery_inv (recovery_step st e)"
proof (cases e)
  case SubmitRecovery
  with assms show ?thesis
    by (auto simp: recovery_step_def Let_def recovery_inv_def run_action_def refused_def)
next
  case (Recovered outcome)
  with assms show ?thesis
    by (auto simp: recovery_step_def Let_def recovery_inv_def recovery_answered_def dest: parseRecovery_ok split: sum.splits)
qed (use assms in \<open>auto simp: recovery_step_def Let_def recovery_inv_def\<close>)

text \<open>A recovery ends with a new key and without the old secrets: in every run of the page, once a key is shown it is a
  well-formed recovery key, a request was made, none is under way, and the old key and both copies of the password are
  gone; and the way on appears only after the new key is marked as kept.\<close>

theorem recovery_issues_key:
  "let st = foldl recovery_step recovery_start es in
   (if rf_issued st = [] then \<not> next_shown st
    else match_classes (replicate 43 is_base64url) (rf_issued st) \<and> rf_sent st \<noteq> [] \<and> \<not> aa_pending (rf_action st)
      \<and> rf_password st = [] \<and> rf_confirmation st = [] \<and> rf_key st = [] \<and> (next_shown st \<longleftrightarrow> rf_saved st))"
proof -
  have "recovery_inv (foldl recovery_step recovery_start es)"
    by (rule run_invariant_all) (simp_all add: recovery_step_inv, simp add: recovery_inv_def recovery_start_def)
  then show ?thesis by (auto simp: Let_def recovery_inv_def next_shown_def)
qed

section \<open>Registration\<close>

text \<open>
  The request of \<open>features/registration.tsx\<close>: a user in a temporary account of a controller registers through that
  controller, with its session; \<open>None\<close> for an anonymous session. \<open>id_of_controller\<close> reads the parameter of the address.
\<close>

definition id_of_controller :: "string option \<Rightarrow> string option" where
  "id_of_controller parameter =
     (case parameter of
        None \<Rightarrow> None
      | Some c \<Rightarrow> if length c = 36 \<and> list_all hex_or_dash c then Some c else None)"

record registration_request =
  rr_path :: string
  rr_authorized :: bool
  rr_email :: string
  rr_controller :: "string option"

definition registration_request_of :: "string option \<Rightarrow> string option \<Rightarrow> string \<Rightarrow> registration_request" where
  "registration_request_of session_email parameter email =
     (let controller = id_of_controller parameter in
      case (session_email, controller) of
        (Some account, Some c) \<Rightarrow>
          if starts_with ''kr-'' account
          then \<lparr> rr_path = ''/api/v1/connect/'' @ c @ ''/account-registration'', rr_authorized = True, rr_email = email,
                 rr_controller = controller \<rparr>
          else \<lparr> rr_path = ''/api/v1/auth/registration/start'', rr_authorized = False, rr_email = email, rr_controller = controller \<rparr>
      | _ \<Rightarrow> \<lparr> rr_path = ''/api/v1/auth/registration/start'', rr_authorized = False, rr_email = email, rr_controller = controller \<rparr>)"

lemma registration_path_local:
  "rr_controller (registration_request_of s p e) = Some c \<Longrightarrow> length c = 36 \<and> list_all hex_or_dash c"
  by (auto simp: registration_request_of_def Let_def id_of_controller_def split: option.splits if_splits)

section \<open>The page of an invitation\<close>

datatype invitation_request =
    AcceptInvitation string
  | SignIn string string "string option"

record invitation_page =
  ip_preview :: "string option"
  ip_link_error :: string
  ip_new :: bool
  ip_password :: string
  ip_otp :: string
  ip_accepted :: bool
  ip_action :: account_action
  ip_running :: "invitation_request option"
  ip_sent :: "invitation_request list"
  ip_access_retries :: nat

definition invitation_start :: invitation_page where
  "invitation_start = \<lparr> ip_preview = None, ip_link_error = [], ip_new = False, ip_password = [], ip_otp = [],
     ip_accepted = False, ip_action = no_action, ip_running = None, ip_sent = [], ip_access_retries = 0 \<rparr>"

text \<open>\<open>Inspected\<close> is the answer about the link, with the address of the invitation; \<open>True\<close> is an authenticated session.\<close>

datatype invitation_event =
    Inspected "exn + string"
  | InvitedPassword string
  | InvitedOtp string
  | SignInSubmit
  | NewAccount
  | Accept
  | Done "exn + unit"

text \<open>Which branch of the page is rendered.\<close>

definition signing_in :: "bool \<Rightarrow> invitation_page \<Rightarrow> bool" where
  "signing_in authenticated st =
     (ip_link_error st = [] \<and> ip_preview st \<noteq> None \<and> \<not> ip_accepted st \<and> \<not> ip_new st \<and> \<not> authenticated)"

definition accepting :: "bool \<Rightarrow> invitation_page \<Rightarrow> bool" where
  "accepting authenticated st =
     (ip_link_error st = [] \<and> ip_preview st \<noteq> None \<and> \<not> ip_accepted st \<and> \<not> ip_new st \<and> authenticated)"

definition start_request :: "invitation_request \<Rightarrow> invitation_page \<Rightarrow> invitation_page" where
  "start_request r st =
     (case run_action (ip_action st) of
        None \<Rightarrow> st
      | Some a \<Rightarrow> st\<lparr>ip_action := a, ip_running := Some r, ip_sent := r # ip_sent st\<rparr>)"

definition invitation_done :: "exn + unit \<Rightarrow> invitation_page \<Rightarrow> invitation_page" where
  "invitation_done outcome st =
     (case ip_running st of
        None \<Rightarrow> st
      | Some r \<Rightarrow>
          (let done = st\<lparr>ip_action := run_settled outcome (ip_action st), ip_running := None\<rparr> in
           case outcome of
             Inl x \<Rightarrow> done
           | Inr _ \<Rightarrow>
               (case r of
                  AcceptInvitation _ \<Rightarrow> done\<lparr>ip_accepted := True, ip_access_retries := Suc (ip_access_retries st)\<rparr>
                | SignIn _ _ _ \<Rightarrow> done\<lparr>ip_password := [], ip_otp := []\<rparr>)))"

definition invitation_step :: "string \<Rightarrow> invitation_page \<Rightarrow> bool \<times> invitation_event \<Rightarrow> invitation_page" where
  "invitation_step token st ae =
     (let authenticated = fst ae; busy = aa_busy (ip_action st) in
      case snd ae of
        Inspected (Inl e) \<Rightarrow> if token = [] then st else st\<lparr>ip_link_error := apiErrorDisplayMessage e\<rparr>
      | Inspected (Inr email) \<Rightarrow> if token = [] then st else st\<lparr>ip_preview := Some email\<rparr>
      | InvitedPassword s \<Rightarrow> if signing_in authenticated st then st\<lparr>ip_password := s\<rparr> else st
      | InvitedOtp s \<Rightarrow> if signing_in authenticated st then st\<lparr>ip_otp := s\<rparr> else st
      | SignInSubmit \<Rightarrow>
          if signing_in authenticated st \<and> \<not> busy
          then (case ip_preview st of
                  None \<Rightarrow> st
                | Some email \<Rightarrow> start_request (SignIn email (ip_password st) (if ip_otp st = [] then None else Some (ip_otp st))) st)
          else st
      | NewAccount \<Rightarrow> if signing_in authenticated st \<and> \<not> busy then st\<lparr>ip_new := True\<rparr> else st
      | Accept \<Rightarrow> if accepting authenticated st \<and> \<not> busy then start_request (AcceptInvitation token) st else st
      | Done outcome \<Rightarrow> invitation_done outcome st)"

fun invitation_request_ok :: "string \<Rightarrow> (bool \<times> invitation_event) set \<Rightarrow> invitation_request \<Rightarrow> bool" where
  "invitation_request_ok token es (AcceptInvitation t) =
     (t = token \<and> (True, Accept) \<in> es \<and> (\<exists>a email. (a, Inspected (Inr email)) \<in> es))"
| "invitation_request_ok token es (SignIn email p q) = (\<exists>a. (a, Inspected (Inr email)) \<in> es)"

definition invitation_inv :: "string \<Rightarrow> (bool \<times> invitation_event) set \<Rightarrow> invitation_page \<Rightarrow> bool" where
  "invitation_inv token es st \<longleftrightarrow>
     (\<forall>r \<in> set (ip_sent st). invitation_request_ok token es r)
     \<and> (\<forall>email. ip_preview st = Some email \<longrightarrow> (\<exists>a. (a, Inspected (Inr email)) \<in> es))
     \<and> (\<forall>r. ip_running st = Some r \<longrightarrow> r \<in> set (ip_sent st))
     \<and> (ip_accepted st \<longrightarrow> AcceptInvitation token \<in> set (ip_sent st))"

lemma invitation_request_mono: "invitation_request_ok token es r \<Longrightarrow> invitation_request_ok token (insert e es) r"
  by (cases r) auto

lemma invitation_inv_mono: "invitation_inv token es st \<Longrightarrow> invitation_inv token (insert e es) st"
  using invitation_request_mono unfolding invitation_inv_def by blast

lemma start_request_inv:
  "invitation_inv token es st \<Longrightarrow> invitation_request_ok token es r \<Longrightarrow> invitation_inv token es (start_request r st)"
  by (auto simp: invitation_inv_def start_request_def split: option.split)

lemma invitation_done_inv:
  assumes "invitation_inv token es st"
  shows "invitation_inv token es (invitation_done outcome st)"
proof (cases "ip_running st")
  case None
  with assms show ?thesis by (simp add: invitation_done_def)
next
  case (Some r)
  with assms have "r \<in> set (ip_sent st)" "invitation_request_ok token es r" by (auto simp: invitation_inv_def)
  with assms Some show ?thesis
    by (cases r; cases outcome) (auto simp: invitation_done_def Let_def invitation_inv_def)
qed

lemma invitation_step_inv:
  assumes "invitation_inv token es st"
  shows "invitation_inv token (insert (a, e) es) (invitation_step token st (a, e))"
proof -
  note keep = invitation_inv_mono [OF assms, of "(a, e)"]
  show ?thesis
  proof (cases e)
    case (Inspected answer)
    with keep show ?thesis
      by (cases answer) (auto simp: invitation_step_def Let_def invitation_inv_def)
  next
    case SignInSubmit
    with keep start_request_inv [OF keep] show ?thesis
      by (auto simp: invitation_step_def Let_def invitation_inv_def [of _ _ st] split: option.split)
  next
    case Accept
    with assms have "accepting a st \<Longrightarrow> invitation_request_ok token (insert (a, e) es) (AcceptInvitation token)"
      by (auto simp: accepting_def invitation_inv_def) blast
    with keep start_request_inv [OF keep] Accept show ?thesis by (auto simp: invitation_step_def Let_def)
  next
    case (Done outcome)
    with invitation_done_inv [OF keep] show ?thesis by (simp add: invitation_step_def Let_def)
  qed (use keep in \<open>auto simp: invitation_step_def Let_def invitation_inv_def\<close>)
qed

text \<open>An invitation is accepted knowingly: in every run of the page, it is shown as accepted only after a request to
  accept exactly the token of the link, and each such request was made by the button in an authenticated session after
  the server described the invitation; every sign-in carries the address the invitation is for.\<close>

theorem invitation_accepted_knowingly:
  "(if ip_accepted (foldl (invitation_step token) invitation_start es)
    then AcceptInvitation token \<in> set (ip_sent (foldl (invitation_step token) invitation_start es)) else True)
    \<and> list_all (invitation_request_ok token (set es)) (ip_sent (foldl (invitation_step token) invitation_start es))"
proof -
  have "invitation_inv token (set es) (foldl (invitation_step token) invitation_start es)"
  proof (induction es rule: rev_induct)
    case Nil
    show ?case by (simp add: invitation_inv_def invitation_start_def)
  next
    case (snoc e es)
    then show ?case by (cases e) (simp add: invitation_step_inv)
  qed
  then show ?thesis by (simp add: invitation_inv_def list_all_iff)
qed

section \<open>Examples\<close>

definition sample_key :: json where
  "sample_key = JObj [(''email'', JStr ''a@b''), (''recovery_key'', JStr (replicate 43 (CHR ''k'')))]"

lemma sample_key_ok: "parseRecovery sample_key = Inr (replicate 43 (CHR ''k''))"
  by (simp add: parseRecovery_def sample_key_def isRecord_def match_classes_def is_base64url_def list_all2_conv_all_nth)

lemma first_login_is_of_account_witness:
  "\<exists>name. CreateAccount False ''t'' name ''p'' \<in> set (ca_sent (foldl (create_step False ''t'' ''a@b'') create_start
     [EditPassword ''p'', EditConfirmation ''p'', SubmitAccount, Settled (Inr sample_key), TickSaved True, Enter]))"
proof -
  let ?es = "[EditPassword ''p'', EditConfirmation ''p'', SubmitAccount, Settled (Inr sample_key), TickSaved True, Enter]"
  note e = create_step_def create_start_def submit_account_def account_created_def enter_account_def run_settled_def
    no_action_def sample_key_ok edits_in_flight_def
  have a: "along (\<lambda>st e. \<not> edits_in_flight st e) (create_step False ''t'' ''a@b'') create_start ?es"
    by (simp add: e)
  have "EnterAccount ''a@b'' ''p'' \<in> set (ca_sent (foldl (create_step False ''t'' ''a@b'') create_start ?es))"
    by (simp add: e) (simp add: sample_key_def)
  from first_login_is_of_account [OF a this] show ?thesis by blast
qed

lemma recovery_issues_key_witness:
  "rf_password (foldl recovery_step recovery_start
     [RecoverPassword ''p'', RecoverConfirmation ''p'', SubmitRecovery, Recovered (Inr sample_key)]) = []"
proof -
  let ?st = "foldl recovery_step recovery_start
     [RecoverPassword ''p'', RecoverConfirmation ''p'', SubmitRecovery, Recovered (Inr sample_key)]"
  have "rf_issued ?st \<noteq> []"
    by (simp add: recovery_step_def recovery_start_def recovery_answered_def sample_key_ok run_settled_def no_action_def)
  with recovery_issues_key [of "[RecoverPassword ''p'', RecoverConfirmation ''p'', SubmitRecovery, Recovered (Inr sample_key)]"]
  show ?thesis unfolding Let_def by presburger
qed

end
