(* ===== verification/AccountSecurity.thy ===== *)
theory AccountSecurity
  imports Onboarding
begin

text \<open>
  \<open>features/account-security.tsx\<close>: the security settings of an account (the second factor, the password, the recovery
  key and the open sessions). Six actions share one serialized \<open>useAccountAction\<close>; each carries a fresh proof, the
  password and, with a second factor, a code.

  \<open>security\<close> is the state of \<open>SecuritySettings\<close>. A rendering reads the state of the account (\<open>sv_data\<close>) and the error
  of its query; whether the second factor counts as enabled is the last change made here, else what the server says.
\<close>

section \<open>The state\<close>

record account_state =
  ad_mfa :: bool
  ad_privileged :: bool

record security_view =
  sv_data :: "account_state option"
  sv_error :: bool

record action_proof =
  pr_password :: string
  pr_otp :: string

definition EMPTY_PROOF :: action_proof where
  "EMPTY_PROOF = \<lparr> pr_password = [], pr_otp = [] \<rparr>"

datatype security_request =
    SetupTotp string
  | ConfirmTotp string
  | DisableTotp string string
  | RotateRecovery string "string option"
  | RevokeSession string
  | LogOut
  | ChangePassword string "string option" string

record security =
  se_password :: string
  se_otp :: string
  se_password_proof :: action_proof
  se_recovery_proof :: action_proof
  se_disable_proof :: action_proof
  se_disabling :: bool
  se_setup :: "json option"
  se_recovery :: string
  se_new_password :: string
  se_confirmation :: string
  se_notice :: string
  se_active :: "security_request option"
  se_mfa_changed :: "bool option"
  se_action :: account_action
  se_running :: "security_request option"
  se_sent :: "security_request list"
  se_refreshes :: nat

definition security_start :: security where
  "security_start =
     \<lparr> se_password = [], se_otp = [], se_password_proof = EMPTY_PROOF, se_recovery_proof = EMPTY_PROOF,
       se_disable_proof = EMPTY_PROOF, se_disabling = False, se_setup = None, se_recovery = [], se_new_password = [],
       se_confirmation = [], se_notice = [], se_active = None, se_mfa_changed = None, se_action = no_action,
       se_running = None, se_sent = [], se_refreshes = 0 \<rparr>"

definition mfa_enabled :: "security_view \<Rightarrow> security \<Rightarrow> bool" where
  "mfa_enabled v st =
     (case se_mfa_changed st of
        Some b \<Rightarrow> b
      | None \<Rightarrow> (case sv_data v of None \<Rightarrow> False | Some d \<Rightarrow> ad_mfa d))"

definition security_ready :: "security_view \<Rightarrow> bool" where
  "security_ready v = (sv_data v \<noteq> None \<and> \<not> sv_error v)"

text \<open>\<open>/^\d{6}$/\<close>\<close>

definition six_digits :: "string \<Rightarrow> bool" where
  "six_digits s = match_classes (replicate 6 is_digit) s"

definition or_none :: "string \<Rightarrow> string option" where
  "or_none s = (if s = [] then None else Some s)"

section \<open>The buttons\<close>

datatype security_event =
    EditPassword string
  | EditOtp string
  | EditPasswordProof action_proof
  | EditRecoveryProof action_proof
  | EditDisableProof action_proof
  | EditNewPassword string
  | EditConfirmation string
  | StartDisabling
  | CancelDisabling
  | KeepRecovery
  | ClickSetup
  | ClickConfirm
  | ClickDisable
  | ClickRotate
  | ClickPassword
  | ClickSession string bool
  | Answered "exn + json"

text \<open>What the card of the second factor shows: the form for the first step, the one for the code, the one to disable.\<close>

definition setup_shown :: "security_view \<Rightarrow> security \<Rightarrow> bool" where
  "setup_shown v st = (security_ready v \<and> \<not> mfa_enabled v st \<and> se_setup st = None)"

definition confirm_shown :: "security_view \<Rightarrow> security \<Rightarrow> bool" where
  "confirm_shown v st = (security_ready v \<and> \<not> mfa_enabled v st \<and> se_setup st \<noteq> None)"

definition disable_shown :: "security_view \<Rightarrow> security \<Rightarrow> bool" where
  "disable_shown v st =
     (security_ready v \<and> mfa_enabled v st \<and> (case sv_data v of None \<Rightarrow> False | Some d \<Rightarrow> \<not> ad_privileged d))"

definition proof_given :: "security_view \<Rightarrow> security \<Rightarrow> action_proof \<Rightarrow> bool" where
  "proof_given v st p = (pr_password p \<noteq> [] \<and> (mfa_enabled v st \<longrightarrow> six_digits (pr_otp p)))"

text \<open>The request of a click, by the conditions of its button.\<close>

definition security_request_of :: "security_view \<times> security_event \<Rightarrow> security \<Rightarrow> security_request option" where
  "security_request_of ve st =
     (let v = fst ve in
      if aa_busy (se_action st) \<or> aa_pending (se_action st) then None
      else (case snd ve of
        ClickSetup \<Rightarrow> if setup_shown v st \<and> se_password st \<noteq> [] then Some (SetupTotp (se_password st)) else None
      | ClickConfirm \<Rightarrow> if confirm_shown v st \<and> six_digits (se_otp st) then Some (ConfirmTotp (se_otp st)) else None
      | ClickDisable \<Rightarrow>
          if disable_shown v st \<and> se_disabling st \<and> pr_password (se_disable_proof st) \<noteq> [] \<and> six_digits (pr_otp (se_disable_proof st))
          then Some (DisableTotp (pr_password (se_disable_proof st)) (pr_otp (se_disable_proof st))) else None
      | ClickRotate \<Rightarrow>
          if security_ready v \<and> proof_given v st (se_recovery_proof st)
          then Some (RotateRecovery (pr_password (se_recovery_proof st)) (or_none (pr_otp (se_recovery_proof st)))) else None
      | ClickPassword \<Rightarrow>
          if security_ready v \<and> proof_given v st (se_password_proof st) \<and> \<not> js_length (se_new_password st) < 12
            \<and> se_new_password st = se_confirmation st
          then Some (ChangePassword (pr_password (se_password_proof st)) (or_none (pr_otp (se_password_proof st)))
                       (se_new_password st)) else None
      | ClickSession i current \<Rightarrow> Some (if current then LogOut else RevokeSession i)
      | _ \<Rightarrow> None))"

definition start_security :: "security_request \<Rightarrow> security \<Rightarrow> security" where
  "start_security r st =
     (case run_action (se_action st) of
        None \<Rightarrow> st
      | Some a \<Rightarrow> st\<lparr>se_action := a, se_active := Some r, se_running := Some r, se_sent := r # se_sent st\<rparr>)"

definition msg_password_changed :: string where
  "msg_password_changed = (uk ''Parol= zmineno. Inwi sesi~ zaverweno; dvoetapnyj zaxyst zbere*eno.'')"

text \<open>The rest of each action, after a successful answer.\<close>

definition security_done :: "security_request \<Rightarrow> json \<Rightarrow> security \<Rightarrow> security" where
  "security_done r answer st =
     (case r of
        SetupTotp _ \<Rightarrow> st\<lparr>se_setup := Some answer, se_password := [], se_otp := []\<rparr>
      | ConfirmTotp _ \<Rightarrow> st\<lparr>se_setup := None, se_otp := [], se_mfa_changed := Some True\<rparr>
      | DisableTotp _ _ \<Rightarrow>
          st\<lparr>se_disable_proof := EMPTY_PROOF, se_password_proof := EMPTY_PROOF, se_recovery_proof := EMPTY_PROOF,
             se_disabling := False, se_mfa_changed := Some False\<rparr>
      | RotateRecovery _ _ \<Rightarrow>
          (case parseRecovery answer of
             Inl _ \<Rightarrow> st
           | Inr k \<Rightarrow> st\<lparr>se_recovery := k, se_recovery_proof := EMPTY_PROOF\<rparr>)
      | RevokeSession _ \<Rightarrow> st
      | LogOut \<Rightarrow> st
      | ChangePassword _ _ _ \<Rightarrow>
          st\<lparr>se_password_proof := EMPTY_PROOF, se_recovery_proof := EMPTY_PROOF, se_new_password := [],
             se_confirmation := [], se_notice := msg_password_changed\<rparr>)"

text \<open>How the action ends: a key that does not validate is thrown inside it.\<close>

definition security_outcome :: "security_request \<Rightarrow> exn + json \<Rightarrow> exn + unit" where
  "security_outcome r outcome =
     (case outcome of
        Inl e \<Rightarrow> Inl e
      | Inr answer \<Rightarrow>
          (case r of
             RotateRecovery _ _ \<Rightarrow> (case parseRecovery answer of Inl e \<Rightarrow> Inl (ApiExn e) | Inr _ \<Rightarrow> Inr ())
           | _ \<Rightarrow> Inr ()))"

definition security_answered :: "exn + json \<Rightarrow> security \<Rightarrow> security" where
  "security_answered outcome st =
     (case se_running st of
        None \<Rightarrow> st
      | Some r \<Rightarrow>
          (let ended = st\<lparr>se_action := run_settled (security_outcome r outcome) (se_action st), se_running := None,
                         se_refreshes := (if isOk (security_outcome r outcome) then Suc (se_refreshes st) else se_refreshes st)\<rparr>
           in case outcome of Inl _ \<Rightarrow> ended | Inr answer \<Rightarrow> security_done r answer ended))"

definition security_edit :: "security_view \<Rightarrow> security_event \<Rightarrow> security \<Rightarrow> security" where
  "security_edit v e st =
     (let busy = aa_busy (se_action st) in
      case e of
        EditPassword s \<Rightarrow> if setup_shown v st \<and> \<not> busy then st\<lparr>se_password := s\<rparr> else st
      | EditOtp s \<Rightarrow> if confirm_shown v st \<and> \<not> busy then st\<lparr>se_otp := s\<rparr> else st
      | EditPasswordProof p \<Rightarrow> if busy \<or> \<not> security_ready v then st else st\<lparr>se_password_proof := p\<rparr>
      | EditRecoveryProof p \<Rightarrow> if busy \<or> \<not> security_ready v then st else st\<lparr>se_recovery_proof := p\<rparr>
      | EditDisableProof p \<Rightarrow> if disable_shown v st \<and> se_disabling st \<and> \<not> busy then st\<lparr>se_disable_proof := p\<rparr> else st
      | EditNewPassword s \<Rightarrow> st\<lparr>se_new_password := s\<rparr>
      | EditConfirmation s \<Rightarrow> st\<lparr>se_confirmation := s\<rparr>
      | StartDisabling \<Rightarrow> if disable_shown v st \<and> \<not> busy then st\<lparr>se_disabling := True\<rparr> else st
      | CancelDisabling \<Rightarrow>
          if disable_shown v st \<and> se_disabling st \<and> \<not> busy then st\<lparr>se_disable_proof := EMPTY_PROOF, se_disabling := False\<rparr> else st
      | KeepRecovery \<Rightarrow> st\<lparr>se_recovery := []\<rparr>
      | _ \<Rightarrow> st)"

definition security_step :: "security \<Rightarrow> security_view \<times> security_event \<Rightarrow> security" where
  "security_step st ve =
     (case snd ve of
        Answered outcome \<Rightarrow> security_answered outcome st
      | _ \<Rightarrow> (case security_request_of ve st of
                Some r \<Rightarrow> start_security r st
              | None \<Rightarrow> security_edit (fst ve) (snd ve) st))"

section \<open>What is sent\<close>

lemma security_edit_sent [simp]: "se_sent (security_edit v e st) = se_sent st"
  by (cases e) (simp_all add: security_edit_def Let_def)

lemma security_answered_sent [simp]: "se_sent (security_answered outcome st) = se_sent st"
  by (auto simp: security_answered_def security_done_def Let_def split: option.split sum.split security_request.split)

lemma security_request_idle:
  "security_request_of ve st = Some r \<Longrightarrow> \<not> aa_pending (se_action st) \<and> (\<forall>x. snd ve \<noteq> Answered x)"
  by (auto simp: security_request_of_def Let_def split: if_splits)

lemma security_step_request:
  assumes "security_request_of ve st = Some r"
  shows "security_step st ve = start_security r st"
  by (cases "snd ve") (use assms security_request_idle [OF assms] in \<open>simp_all add: security_step_def\<close>)

lemma security_step_other:
  assumes "security_request_of ve st = None" and "\<forall>x. snd ve \<noteq> Answered x"
  shows "security_step st ve = security_edit (fst ve) (snd ve) st"
  by (cases "snd ve") (use assms in \<open>simp_all add: security_step_def\<close>)

lemma security_step_sent:
  "se_sent (security_step st ve) = (case security_request_of ve st of None \<Rightarrow> se_sent st | Some r \<Rightarrow> r # se_sent st)"
proof (cases "security_request_of ve st")
  case None
  then show ?thesis
    by (cases "\<exists>x. snd ve = Answered x") (auto simp: security_step_other, simp add: security_step_def)
next
  case (Some r)
  with security_request_idle [OF Some] show ?thesis by (simp add: security_step_request start_security_def)
qed

interpretation security: request_log security_step security_request_of se_sent
  by unfold_locales (rule security_step_sent)

text \<open>What a request may be, when the second factor counts as enabled or not.\<close>

fun request_checked :: "bool \<Rightarrow> security_request \<Rightarrow> bool" where
  "request_checked mfa (SetupTotp p) = (p \<noteq> [] \<and> \<not> mfa)"
| "request_checked mfa (ConfirmTotp c) = (six_digits c \<and> \<not> mfa)"
| "request_checked mfa (DisableTotp p c) = (p \<noteq> [] \<and> six_digits c \<and> mfa)"
| "request_checked mfa (RotateRecovery p c) = (p \<noteq> [] \<and> (mfa \<longrightarrow> (\<exists>d. c = Some d \<and> six_digits d)))"
| "request_checked mfa (ChangePassword p c n) =
     (p \<noteq> [] \<and> (mfa \<longrightarrow> (\<exists>d. c = Some d \<and> six_digits d)) \<and> 12 \<le> js_length n)"
| "request_checked mfa _ = True"

lemma six_digits_given: "six_digits s \<Longrightarrow> or_none s = Some s"
  by (auto simp: six_digits_def or_none_def match_classes_def)

lemma security_request_checked:
  assumes "security_request_of (v, e) st = Some r"
  shows "request_checked (mfa_enabled v st) r
    \<and> (\<forall>p c n. r = ChangePassword p c n \<longrightarrow> n = se_new_password st \<and> n = se_confirmation st)"
  using assms six_digits_given
  by (cases e) (auto simp: security_request_of_def Let_def proof_given_def setup_shown_def confirm_shown_def disable_shown_def
      split: if_splits)


section \<open>What is kept\<close>

text \<open>A recovery key on the page is well-formed; and the password of the first step is not kept beyond it.\<close>

definition security_inv :: "security \<Rightarrow> bool" where
  "security_inv st \<longleftrightarrow> (se_recovery st \<noteq> [] \<longrightarrow> match_classes (replicate 43 is_base64url) (se_recovery st))
     \<and> (se_setup st \<noteq> None \<longrightarrow> se_password st = [])
     \<and> (se_running st \<noteq> None \<longrightarrow> aa_busy (se_action st))"

lemma security_step_inv:
  assumes "security_inv st"
  shows "security_inv (security_step st (v, e))"
proof (cases "security_request_of (v, e) st")
  case (Some r)
  with assms security_request_idle [OF Some] show ?thesis
    by (simp add: security_step_request start_security_def security_inv_def)
next
  case None
  show ?thesis
  proof (cases "\<exists>x. e = Answered x")
    case False
    with None have "security_step st (v, e) = security_edit v e st" by (simp add: security_step_other)
    with assms show ?thesis
      by (cases e) (auto simp: security_edit_def Let_def security_inv_def setup_shown_def)
  next
    case True
    then obtain x where x: "e = Answered x" by blast
    show ?thesis
    proof (cases "se_running st")
      case None
      with assms x show ?thesis by (simp add: security_step_def security_answered_def)
    next
      case (Some r)
      have k: "match_classes (replicate 43 is_base64url) k" if "parseRecovery a = Inr k" for a k
        using that by (auto simp: parseRecovery_def split: if_splits)
      from assms x Some k show ?thesis
        by (cases r) (auto simp: security_step_def security_answered_def security_done_def Let_def security_inv_def
            split: sum.splits)
    qed
  qed
qed

lemma security_run_inv: "security_inv (foldl security_step security_start es)"
proof (rule run_invariant_all)
  show "security_inv security_start" by (simp add: security_inv_def security_start_def)
  show "security_inv (security_step st ve)" if "security_inv st" for st ve
    using security_step_inv [OF that] by (cases ve) simp
qed

text \<open>A change of the password leaves nothing of it: when the change under way is answered with success, the new
  password, its repetition and every proof of that change are cleared and the form is free again; when it fails, they are
  kept for another try, and its error is shown.\<close>

theorem password_change_settles:
  assumes "se_running st = Some (ChangePassword p c n)"
    and "st' = security_step st (v, Answered outcome)"
  shows "se_running st' = None \<and> \<not> aa_busy (se_action st') \<and> se_sent st' = se_sent st
    \<and> (case outcome of
         Inr _ \<Rightarrow> se_new_password st' = [] \<and> se_confirmation st' = [] \<and> se_password_proof st' = EMPTY_PROOF
           \<and> se_notice st' = msg_password_changed \<and> se_refreshes st' = Suc (se_refreshes st)
       | Inl e \<Rightarrow> se_new_password st' = se_new_password st \<and> se_password_proof st' = se_password_proof st
           \<and> aa_error (se_action st') = apiErrorDisplayMessage e \<and> se_refreshes st' = se_refreshes st)"
  using assms
  by (auto simp: security_step_def security_answered_def security_done_def security_outcome_def Let_def run_settled_def
      split: sum.split)

section \<open>Examples\<close>

definition sample_security_view :: security_view where
  "sample_security_view = \<lparr> sv_data = Some \<lparr> ad_mfa = False, ad_privileged = False \<rparr>, sv_error = False \<rparr>"

definition sample_change :: "(security_view \<times> security_event) list" where
  "sample_change = map (\<lambda>e. (sample_security_view, e))
     [EditNewPassword ''twelve-chars'', EditConfirmation ''twelve-chars'',
      EditPasswordProof \<lparr> pr_password = ''old'', pr_otp = [] \<rparr>, ClickPassword]"

lemma sample_change_run:
  "se_running (foldl security_step security_start sample_change) = Some (ChangePassword ''old'' None ''twelve-chars'')"
  "ChangePassword ''old'' None ''twelve-chars'' \<in> set (se_sent (foldl security_step security_start sample_change))"
proof -
  have len: "js_length ''twelve-chars'' = 12" by code_simp
  note e = sample_change_def sample_security_view_def security_step_def security_request_of_def security_edit_def
    security_start_def security_ready_def proof_given_def mfa_enabled_def start_security_def or_none_def no_action_def len
  show "se_running (foldl security_step security_start sample_change) = Some (ChangePassword ''old'' None ''twelve-chars'')"
    by (simp add: e)
  show "ChangePassword ''old'' None ''twelve-chars'' \<in> set (se_sent (foldl security_step security_start sample_change))"
    by (simp add: e)
qed


lemma password_change_settles_witness:
  "se_new_password (security_step (foldl security_step security_start sample_change)
     (sample_security_view, Answered (Inr JNull))) = []"
  using password_change_settles [OF sample_change_run(1) refl, of sample_security_view "Inr JNull"] by simp

end
