(* ===== verification/InstallerForm.thy ===== *)
theory InstallerForm
  imports EquipmentActions
begin

text \<open>
  \<open>features/installer-workspace.tsx\<close>: the steps by which an installer prepares an installation, and the form of the
  initial passport of the converter and its motor, which is written while nothing is configured yet.

  The steps are read off the passport. The form is one more \<open>confirmed_form\<close>: its box is about the name plates, and every
  edit, the switch of the motor included, takes the tick away.
\<close>

section \<open>The steps\<close>

definition workspace_drive :: "eq_view \<Rightarrow> json option" where
  "workspace_drive v = installed_module v"

definition is_verified :: "eq_view \<Rightarrow> bool" where
  "is_verified v = (eq_state (ev_passport v) = JStr ''verified'')"

definition is_commissioned :: "eq_view \<Rightarrow> bool" where
  "is_commissioned v = (\<not> is_nullish (eq_mode (ev_passport v)))"

definition permission_accepted :: "eq_view \<Rightarrow> bool" where
  "permission_accepted v = (is_commissioned v \<and> rd_state (eq_readiness (ev_passport v)) = JStr ''ready'')"

definition workspace_steps :: "eq_view \<Rightarrow> bool list" where
  "workspace_steps v = [workspace_drive v \<noteq> None, has_desired v, is_verified v, permission_accepted v]"

definition controller_id_of :: "eq_view \<Rightarrow> json" where
  "controller_id_of v = fld (eq_data (ev_passport v)) ''controller_id''"

text \<open>The button that opens the form of the passport.\<close>

definition passport_editable :: "eq_view \<Rightarrow> bool" where
  "passport_editable v = (\<not> has_desired v \<and> truthy (controller_id_of v))"

section \<open>The form\<close>

record plate_fields =
  pl_selected :: string
  pl_model :: string
  pl_serial :: string
  pl_hardware :: string
  pl_software :: string
  pl_rated :: string
  pl_current :: string
  pl_voltage :: string
  pl_power :: string
  pl_without_motor :: bool

record plate_form =
  pf_fields :: plate_fields
  pf_confirmed :: bool
  pf_action :: account_action
  pf_sent :: "(string \<times> json) list"
  pf_saved :: nat

definition plate_text :: "json option \<Rightarrow> string \<Rightarrow> string" where
  "plate_text drive key =
     (case drive of None \<Rightarrow> [] | Some d \<Rightarrow> if is_nullish (fld d key) then [] else js_string (fld d key))"

definition plate_number :: "json option \<Rightarrow> string \<Rightarrow> string" where
  "plate_number drive key =
     (case drive of
        None \<Rightarrow> []
      | Some d \<Rightarrow> if is_nullish (fld d ''motor'') \<or> is_nullish (fld (fld d ''motor'') key) then []
                  else show_num (Fin (rat_of (fld (fld d ''motor'') key))))"

definition plate_start :: "eq_view \<Rightarrow> plate_form" where
  "plate_start v =
     (let d = workspace_drive v in
      \<lparr> pf_fields = \<lparr> pl_selected = [], pl_model = plate_text d ''model'', pl_serial = plate_text d ''serial_number'',
          pl_hardware = plate_text d ''hardware_revision'', pl_software = plate_text d ''software_revision'',
          pl_rated = plate_number d ''rated_frequency_hz'', pl_current = plate_number d ''rated_current_a'',
          pl_voltage = plate_number d ''rated_voltage_v'', pl_power = plate_number d ''rated_power_kw'',
          pl_without_motor = False \<rparr>,
        pf_confirmed = False, pf_action = no_action, pf_sent = [], pf_saved = 0 \<rparr>)"

text \<open>\<open>`${item.id}:${item.version}`\<close>\<close>

definition profile_key :: "factory_profile \<Rightarrow> string" where
  "profile_key item = pf_id item @ '':'' @ show_num (Fin (of_int (pf_version item)))"

definition selectable_plates :: "eq_view \<Rightarrow> factory_profile list" where
  "selectable_plates v =
     (case ev_profiles v of
        None \<Rightarrow> []
      | Some items \<Rightarrow> filter (\<lambda>item. js_upper (js_trim (pf_manufacturer item)) = ''SUSWE'') items)"

definition previous_profile :: "eq_view \<Rightarrow> factory_profile option" where
  "previous_profile v =
     (case workspace_drive v of
        None \<Rightarrow> None
      | Some d \<Rightarrow> List.find (\<lambda>item. JStr (pf_series item) = fld d ''series'' \<and> JStr (pf_manufacturer item) = fld d ''manufacturer'')
          (selectable_plates v))"

definition chosen_key :: "eq_view \<Rightarrow> plate_fields \<Rightarrow> string" where
  "chosen_key v f =
     (if pl_selected f \<noteq> [] then pl_selected f
      else (case previous_profile v of None \<Rightarrow> [] | Some item \<Rightarrow> profile_key item))"

definition plate_profile :: "eq_view \<Rightarrow> plate_fields \<Rightarrow> factory_profile option" where
  "plate_profile v f = List.find (\<lambda>item. profile_key item = chosen_key v f) (selectable_plates v)"

definition or_null_number :: "string \<Rightarrow> json" where
  "or_null_number s = (if s = [] then JNull else JNum (js_number s))"

definition plate_body :: "factory_profile \<Rightarrow> plate_fields \<Rightarrow> json" where
  "plate_body profile f =
     JObj [(''profile_id'', JStr (pf_id profile)), (''profile_version'', json_int (pf_version profile)),
           (''model'', JStr (js_trim (pl_model f))), (''serial_number'', or_null (js_trim (pl_serial f))),
           (''hardware_revision'', or_null (js_trim (pl_hardware f))),
           (''software_revision'', or_null (js_trim (pl_software f))),
           (''motor'', if pl_without_motor f then JNull
             else JObj [(''rated_frequency_hz'', JNum (js_number (pl_rated f))),
                        (''rated_current_a'', or_null_number (pl_current f)),
                        (''rated_voltage_v'', or_null_number (pl_voltage f)),
                        (''rated_power_kw'', or_null_number (pl_power f))]),
           (''nameplate_confirmed'', JBool True)]"

datatype plate_edit =
    PlateProfile string | PlateModel string | PlateSerial string | PlateHardware string | PlateSoftware string
  | PlateRated string | PlateCurrent string | PlateVoltage string | PlatePower string
  | PlateWithoutMotor bool

fun plate_edited :: "plate_edit \<Rightarrow> plate_fields \<Rightarrow> plate_fields" where
  "plate_edited (PlateProfile s) f = f\<lparr>pl_selected := s\<rparr>"
| "plate_edited (PlateModel s) f = f\<lparr>pl_model := s\<rparr>"
| "plate_edited (PlateSerial s) f = f\<lparr>pl_serial := s\<rparr>"
| "plate_edited (PlateHardware s) f = f\<lparr>pl_hardware := s\<rparr>"
| "plate_edited (PlateSoftware s) f = f\<lparr>pl_software := s\<rparr>"
| "plate_edited (PlateRated s) f = f\<lparr>pl_rated := s\<rparr>"
| "plate_edited (PlateCurrent s) f = f\<lparr>pl_current := s\<rparr>"
| "plate_edited (PlateVoltage s) f = f\<lparr>pl_voltage := s\<rparr>"
| "plate_edited (PlatePower s) f = f\<lparr>pl_power := s\<rparr>"
| "plate_edited (PlateWithoutMotor b) f = f\<lparr>pl_without_motor := b\<rparr>"

text \<open>The motor's inputs are shown with a motor.\<close>

fun plate_input_shown :: "plate_fields \<Rightarrow> plate_edit \<Rightarrow> bool" where
  "plate_input_shown f (PlateRated _) = (\<not> pl_without_motor f)"
| "plate_input_shown f (PlateCurrent _) = (\<not> pl_without_motor f)"
| "plate_input_shown f (PlateVoltage _) = (\<not> pl_without_motor f)"
| "plate_input_shown f (PlatePower _) = (\<not> pl_without_motor f)"
| "plate_input_shown f _ = True"

datatype plate_event = EditPlate plate_edit | TickPlate bool | SubmitPlate | PlateSaved "exn + unit"

definition plate_request :: "eq_view \<times> plate_event \<Rightarrow> plate_form \<Rightarrow> (string \<times> json) option" where
  "plate_request ve st =
     (let v = fst ve in
      case (snd ve, plate_profile v (pf_fields st)) of
        (SubmitPlate, Some profile) \<Rightarrow>
          if passport_editable v \<and> \<not> aa_busy (pf_action st) \<and> \<not> aa_pending (pf_action st) \<and> pf_confirmed st \<and> ev_active v
          then Some (''/api/v1/connect/'' @ js_string (controller_id_of v) @ ''/equipment'', plate_body profile (pf_fields st))
          else None
      | _ \<Rightarrow> None)"

definition plate_step :: "plate_form \<Rightarrow> eq_view \<times> plate_event \<Rightarrow> plate_form" where
  "plate_step st ve =
     (let v = fst ve in
      case snd ve of
        EditPlate d \<Rightarrow>
          if passport_editable v \<and> plate_input_shown (pf_fields st) d
          then st\<lparr>pf_fields := plate_edited d (pf_fields st), pf_confirmed := False\<rparr> else st
      | TickPlate b \<Rightarrow> if passport_editable v then st\<lparr>pf_confirmed := b\<rparr> else st
      | SubmitPlate \<Rightarrow>
          (case (plate_request ve st, run_action (pf_action st)) of
             (Some r, Some a) \<Rightarrow> st\<lparr>pf_action := a, pf_sent := r # pf_sent st\<rparr>
           | _ \<Rightarrow> st)
      | PlateSaved outcome \<Rightarrow>
          if \<not> aa_pending (pf_action st) then st
          else (case outcome of
                  Inl e \<Rightarrow> st\<lparr>pf_action := run_settled outcome (pf_action st)\<rparr>
                | Inr _ \<Rightarrow> st\<lparr>pf_action := run_settled outcome (pf_action st), pf_saved := Suc (pf_saved st)\<rparr>))"

section \<open>Every passport was confirmed\<close>

definition plate_ticks :: "eq_view \<times> plate_event \<Rightarrow> bool" where
  "plate_ticks ve = (snd ve = TickPlate True)"

lemma plate_request_cases:
  assumes "plate_request (v, e) st = Some r"
  obtains profile where "e = SubmitPlate" and "plate_profile v (pf_fields st) = Some profile" and "passport_editable v"
    and "ev_active v" and "pf_confirmed st" and "\<not> aa_pending (pf_action st)"
    and "r = (''/api/v1/connect/'' @ js_string (controller_id_of v) @ ''/equipment'', plate_body profile (pf_fields st))"
  using assms by (auto simp: plate_request_def Let_def split: plate_event.splits option.splits if_splits)

lemma plate_step_armed:
  assumes "pf_confirmed (plate_step st (v, e))"
  shows "(plate_ticks (v, e) \<or> pf_confirmed st) \<and> pf_fields (plate_step st (v, e)) = pf_fields st"
  using assms
  by (cases e) (auto simp: plate_step_def plate_ticks_def Let_def split: if_splits option.splits sum.splits)

lemma plate_step_sent:
  "pf_sent (plate_step st (v, e)) = (case plate_request (v, e) st of None \<Rightarrow> pf_sent st | Some r \<Rightarrow> r # pf_sent st)"
proof (cases "plate_request (v, e) st")
  case None
  then show ?thesis by (cases e) (auto simp: plate_step_def Let_def split: sum.split)
next
  case (Some r)
  then show ?thesis by (elim plate_request_cases) (use Some in \<open>simp add: plate_step_def Let_def\<close>)
qed

interpretation plate: confirmed_form plate_step plate_request pf_sent pf_confirmed pf_fields plate_ticks
proof unfold_locales
  fix st :: plate_form and ve :: "eq_view \<times> plate_event" and r :: "string \<times> json"
  obtain v e where ve: "ve = (v, e)" by (cases ve)
  show "(plate_ticks ve \<or> pf_confirmed st) \<and> pf_fields (plate_step st ve) = pf_fields st"
    if "pf_confirmed (plate_step st ve)" using plate_step_armed that unfolding ve by blast
  show "pf_confirmed st" if "plate_request ve st = Some r"
    using that unfolding ve by (elim plate_request_cases)
  show "pf_sent (plate_step st ve) = (case plate_request ve st of None \<Rightarrow> pf_sent st | Some r \<Rightarrow> r # pf_sent st)"
    using plate_step_sent unfolding ve .
qed

text \<open>The passport of a converter is written only as confirmed and only while nothing is configured: in every run of
  the form each request follows a tick of the box, with the same fields from before the tick until the request; in the
  view of the request the controller had no stored configuration and was addressed by its own identity, and the profile
  named was one of the catalogue's, of the manufacturer SUSWE.\<close>

theorem passport_written_as_confirmed:
  assumes "(path, body) \<in> set (pf_sent (foldl plate_step (plate_start v0) es))"
  shows "confirmed_before plate_step pf_fields plate_ticks plate_request (plate_start v0) es (path, body)
    \<and> (\<exists>v \<in> fst ` set es. \<not> has_desired v \<and> truthy (controller_id_of v)
         \<and> path = ''/api/v1/connect/'' @ js_string (controller_id_of v) @ ''/equipment''
         \<and> (\<exists>p \<in> set (selectable_plates v). fld body ''profile_id'' = JStr (pf_id p)
              \<and> fld body ''profile_version'' = json_int (pf_version p)))"
proof
  show "confirmed_before plate_step pf_fields plate_ticks plate_request (plate_start v0) es (path, body)"
    using assms by (rule plate.sent_confirmed) (simp_all add: plate_start_def Let_def)
  from assms obtain xs ve zs where es: "es = xs @ ve # zs"
    and rq: "plate_request ve (foldl plate_step (plate_start v0) xs) = Some (path, body)"
    using plate.sent_requested [of "(path, body)" "plate_start v0" es] by (auto simp: plate_start_def Let_def)
  obtain v e where ve: "ve = (v, e)" by (cases ve)
  have v: "v \<in> fst ` set es" using es ve by force
  from rq [unfolded ve] show "\<exists>v \<in> fst ` set es. \<not> has_desired v \<and> truthy (controller_id_of v)
       \<and> path = ''/api/v1/connect/'' @ js_string (controller_id_of v) @ ''/equipment''
       \<and> (\<exists>p \<in> set (selectable_plates v). fld body ''profile_id'' = JStr (pf_id p)
            \<and> fld body ''profile_version'' = json_int (pf_version p))"
  proof (elim plate_request_cases)
    fix profile
    assume p: "plate_profile v (pf_fields (foldl plate_step (plate_start v0) xs)) = Some profile" "passport_editable v"
      and r: "(path, body) = (''/api/v1/connect/'' @ js_string (controller_id_of v) @ ''/equipment'',
        plate_body profile (pf_fields (foldl plate_step (plate_start v0) xs)))"
    from p(1) have "profile \<in> set (selectable_plates v)" by (auto simp: plate_profile_def dest: find_SomeD)
    with p(2) r v show ?thesis by (auto simp: passport_editable_def plate_body_def)
  qed
qed

section \<open>The steps are in order\<close>

text \<open>A permission shown as accepted means a verified configuration, which means a stored one.\<close>

lemma steps_of_passport:
  assumes "passport_ok dev (ev_passport v)" and "permission_accepted v"
  shows "is_verified v"
  using assms by (simp add: passport_ok_def permission_accepted_def is_verified_def)

section \<open>Examples\<close>

definition sample_plate_view :: eq_view where
  "sample_plate_view =
     \<lparr> ev_passport = \<lparr> eq_data = JObj [(''controller_id'', JStr ''c1''), (''desired'', JNull), (''modules'', JArr [])],
         eq_can_install = True, eq_readiness = unknown_readiness, eq_capability = JStr ''bench'', eq_mode = JNull \<rparr>,
       ev_profiles = Some [\<lparr> pf_id = ''p'', pf_version = 1, pf_manufacturer = ''SUSWE'', pf_series = ''SU600'',
         pf_driver_id = None, pf_tested_model = None \<rparr>],
       ev_active = True, ev_staff = True, ev_role = ''superadmin'', ev_retired = False \<rparr>"

lemma passport_written_as_confirmed_witness:
  "\<exists>r. confirmed_before plate_step pf_fields plate_ticks plate_request (plate_start sample_plate_view)
     (map (\<lambda>e. (sample_plate_view, e)) [EditPlate (PlateProfile ''p:1''), TickPlate True, SubmitPlate]) r"
proof -
  let ?es = "map (\<lambda>e. (sample_plate_view, e)) [EditPlate (PlateProfile ''p:1''), TickPlate True, SubmitPlate]"
  have p: "selectable_plates sample_plate_view = [\<lparr> pf_id = ''p'', pf_version = 1, pf_manufacturer = ''SUSWE'',
      pf_series = ''SU600'', pf_driver_id = None, pf_tested_model = None \<rparr>]" by code_simp
  have k: "profile_key \<lparr> pf_id = ''p'', pf_version = 1, pf_manufacturer = ''SUSWE'',
      pf_series = ''SU600'', pf_driver_id = None, pf_tested_model = None \<rparr> = ''p:1''" by code_simp
  have e: "passport_editable sample_plate_view" "ev_active sample_plate_view"
    by (simp_all add: passport_editable_def has_desired_def desired_of_def controller_id_of_def sample_plate_view_def)
  have "pf_sent (foldl plate_step (plate_start sample_plate_view) ?es) \<noteq> []"
    by (simp add: plate_step_def plate_request_def plate_profile_def p k e chosen_key_def plate_start_def Let_def)
  then obtain path body where "(path, body) \<in> set (pf_sent (foldl plate_step (plate_start sample_plate_view) ?es))"
    by (metis list.set_intros(1) neq_Nil_conv surj_pair)
  from passport_written_as_confirmed [OF this] show ?thesis by blast
qed

end
