(* ===== verification/StaffConsole.thy ===== *)
theory StaffConsole
  imports AccountSecurity
begin

text \<open>
  \<open>features/operations/shared.tsx\<close>, \<open>console.tsx\<close> and \<open>people.tsx\<close>: the console of the staff. Every change of it goes
  through \<open>ActionDialog\<close>, which asks for a reason, the password and a fresh code, and calls the \<open>onSubmit\<close> of its panel.

  \<open>dialogs\<close> is the state that a panel's dialog has in the tree of components. React creates it when the dialog
  appears, or appears with another key, and drops it when it does not appear any more: \<open>dialog_sync\<close>, with the key
  that the rendering gives. A submission goes on when its dialog is gone, so submissions are kept with the number of
  the dialog they were made in (\<open>dg_running\<close>).
\<close>

section \<open>The dialog of an action\<close>

record staff_dialog =
  sd_password :: string
  sd_otp :: string
  sd_reason :: string
  sd_busy :: bool
  sd_error :: string

definition staff_dialog_start :: staff_dialog where
  "staff_dialog_start = \<lparr> sd_password = [], sd_otp = [], sd_reason = [], sd_busy = False, sd_error = [] \<rparr>"

datatype dialog_edit = TypeReason string | TypePassword string | TypeOtp string

definition dialog_edited :: "dialog_edit \<Rightarrow> staff_dialog \<Rightarrow> staff_dialog" where
  "dialog_edited e d =
     (if sd_busy d then d
      else (case e of TypeReason s \<Rightarrow> d\<lparr>sd_reason := s\<rparr> | TypePassword s \<Rightarrow> d\<lparr>sd_password := s\<rparr> | TypeOtp s \<Rightarrow> d\<lparr>sd_otp := s\<rparr>))"

definition dialog_ready :: "bool \<Rightarrow> staff_dialog \<Rightarrow> bool" where
  "dialog_ready valid d =
     (\<not> sd_busy d \<and> valid \<and> sd_password d \<noteq> [] \<and> six_digits (sd_otp d) \<and> \<not> js_length (js_trim (sd_reason d)) < 5)"

definition dialog_failed :: "exn \<Rightarrow> staff_dialog \<Rightarrow> staff_dialog" where
  "dialog_failed e d = d\<lparr>sd_error := apiErrorDisplayMessage e, sd_otp := [], sd_busy := False\<rparr>"

text \<open>What \<open>onSubmit\<close> is called with: the proof and the reason.\<close>

record authority =
  au_password :: string
  au_otp :: string
  au_reason :: string

definition dialog_authority :: "staff_dialog \<Rightarrow> authority" where
  "dialog_authority d = \<lparr> au_password = sd_password d, au_otp = sd_otp d, au_reason = js_trim (sd_reason d) \<rparr>"

definition wf_authority :: "authority \<Rightarrow> bool" where
  "wf_authority a \<longleftrightarrow> au_password a \<noteq> [] \<and> six_digits (au_otp a) \<and> 5 \<le> js_length (au_reason a)"

lemma dialog_ready_authority: "dialog_ready valid d \<Longrightarrow> wf_authority (dialog_authority d) \<and> valid \<and> \<not> sd_busy d"
  by (simp add: dialog_ready_def wf_authority_def dialog_authority_def)

record ('k, 'c) dialogs =
  dg_shown :: "('k \<times> nat \<times> staff_dialog) option"
  dg_next :: nat
  dg_running :: "(nat \<times> 'c) list"

definition dialogs_start :: "('k, 'c) dialogs" where
  "dialogs_start = \<lparr> dg_shown = None, dg_next = 0, dg_running = [] \<rparr>"

text \<open>The rendering with or without a dialog.\<close>

definition dialog_sync :: "'k option \<Rightarrow> ('k, 'c) dialogs \<Rightarrow> ('k, 'c) dialogs" where
  "dialog_sync key g =
     (case key of
        None \<Rightarrow> g\<lparr>dg_shown := None\<rparr>
      | Some k \<Rightarrow>
          (case dg_shown g of
             Some (k', n, d) \<Rightarrow>
               if k' = k then g else g\<lparr>dg_shown := Some (k, dg_next g, staff_dialog_start), dg_next := Suc (dg_next g)\<rparr>
           | None \<Rightarrow> g\<lparr>dg_shown := Some (k, dg_next g, staff_dialog_start), dg_next := Suc (dg_next g)\<rparr>))"

definition dialog_update :: "(staff_dialog \<Rightarrow> staff_dialog) \<Rightarrow> ('k, 'c) dialogs \<Rightarrow> ('k, 'c) dialogs" where
  "dialog_update f g = g\<lparr>dg_shown := map_option (\<lambda>(k, n, d). (k, n, f d)) (dg_shown g)\<rparr>"

definition dialog_state :: "('k, 'c) dialogs \<Rightarrow> staff_dialog option" where
  "dialog_state g = map_option (\<lambda>(k, n, d). d) (dg_shown g)"

text \<open>The authority of a click on the button, when it is enabled; and the dialog after the click.\<close>

definition dialog_click :: "bool \<Rightarrow> ('k, 'c) dialogs \<Rightarrow> authority option" where
  "dialog_click valid g =
     (case dialog_state g of
        None \<Rightarrow> None
      | Some d \<Rightarrow> if dialog_ready valid d then Some (dialog_authority d) else None)"

definition dialog_submitted :: "'c \<Rightarrow> ('k, 'c) dialogs \<Rightarrow> ('k, 'c) dialogs" where
  "dialog_submitted c g =
     (case dg_shown g of
        None \<Rightarrow> g
      | Some (k, n, d) \<Rightarrow> g\<lparr>dg_shown := Some (k, n, d\<lparr>sd_busy := True, sd_error := []\<rparr>), dg_running := (n, c) # dg_running g\<rparr>)"

definition dialog_open :: "('k, 'c) dialogs \<Rightarrow> bool" where
  "dialog_open g = (case dialog_state g of None \<Rightarrow> False | Some d \<Rightarrow> \<not> sd_busy d)"

text \<open>The submission of dialog \<open>n\<close> ends; a failure is shown in this dialog only.\<close>

definition dialog_settled :: "nat \<Rightarrow> exn + 'a \<Rightarrow> ('k, 'c) dialogs \<Rightarrow> ('k, 'c) dialogs" where
  "dialog_settled n outcome g =
     (let g' = g\<lparr>dg_running := filter (\<lambda>r. fst r \<noteq> n) (dg_running g)\<rparr> in
      case dg_shown g of
        Some (k, m, d) \<Rightarrow>
          if m \<noteq> n then g'
          else g'\<lparr>dg_shown := Some (k, m, (case outcome of Inl e \<Rightarrow> dialog_failed e d | Inr _ \<Rightarrow> d\<lparr>sd_busy := False\<rparr>))\<rparr>
      | None \<Rightarrow> g')"

definition dialog_running :: "nat \<Rightarrow> ('k, 'c) dialogs \<Rightarrow> 'c option" where
  "dialog_running n g = map_of (dg_running g) n"

lemma dialog_clickD:
  "dialog_click valid g = Some a \<Longrightarrow> wf_authority a \<and> valid
     \<and> (\<exists>d. dialog_state g = Some d \<and> dialog_ready valid d \<and> a = dialog_authority d)"
  by (auto simp: dialog_click_def dest: dialog_ready_authority split: option.splits if_splits)

section \<open>Pages\<close>

definition pager_previous :: "nat \<Rightarrow> nat \<Rightarrow> nat" where
  "pager_previous sz offset = (if offset = 0 then offset else offset - sz)"

definition pager_next :: "nat \<Rightarrow> nat \<Rightarrow> nat \<Rightarrow> nat" where
  "pager_next sz len offset = (if len < sz then offset else offset + sz)"

definition pager_page :: "nat \<Rightarrow> nat \<Rightarrow> nat" where
  "pager_page sz offset = offset div sz + 1"

definition QUERY_SIZE :: nat where
  "QUERY_SIZE = 25"

section \<open>Sections of the console\<close>

datatype console_section = OverviewS | PeopleS | OrganizationsS | DevicesS | FactoryS | AuditS | MonitoringS | SecurityS

definition console_sections :: "(string \<times> console_section \<times> bool) list" where
  "console_sections =
     [(''overview'', OverviewS, False), (''people'', PeopleS, True), (''organizations'', OrganizationsS, False),
      (''devices'', DevicesS, False), (''factory'', FactoryS, True), (''audit'', AuditS, True),
      (''monitoring'', MonitoringS, True), (''security'', SecurityS, False)]"

record console_view =
  co_authenticated :: bool
  co_role :: "string option"
  co_security :: "(bool \<times> bool) option"
  co_requested :: "string option"

definition console_admin :: "console_view \<Rightarrow> bool" where
  "console_admin v = (co_role v = Some ''superadmin'')"

definition console_chosen :: "console_view \<Rightarrow> console_section" where
  "console_chosen v =
     (let requested = (case co_requested v of None \<Rightarrow> ''overview'' | Some s \<Rightarrow> s) in
      case List.find (\<lambda>(key, _, restricted). key = requested \<and> (\<not> restricted \<or> console_admin v)) console_sections of
        None \<Rightarrow> OverviewS
      | Some (_, s, _) \<Rightarrow> s)"

definition console_ready :: "console_view \<Rightarrow> bool" where
  "console_ready v = (case co_security v of None \<Rightarrow> False | Some (enabled, verified) \<Rightarrow> enabled \<and> verified)"

definition console_menu :: "console_view \<Rightarrow> string list" where
  "console_menu v = map fst (filter (\<lambda>(_, _, restricted). \<not> restricted \<or> console_admin v) console_sections)"

text \<open>The panel that the console shows, \<open>None\<close> for the texts shown instead: the wait for the session and the profile
  and the invitation to enable the second factor.\<close>

definition console_panel :: "console_view \<Rightarrow> console_section option" where
  "console_panel v =
     (if \<not> co_authenticated v \<or> co_role v = None then None
      else if \<not> console_ready v \<and> console_chosen v \<noteq> SecurityS then None
      else (case console_chosen v of
              PeopleS \<Rightarrow> if console_admin v then Some PeopleS else None
            | FactoryS \<Rightarrow> if console_admin v then Some FactoryS else None
            | AuditS \<Rightarrow> if console_admin v then Some AuditS else None
            | MonitoringS \<Rightarrow> if console_admin v then Some MonitoringS else None
            | s \<Rightarrow> Some s))"

lemma console_panel_protected:
  assumes "console_panel v = Some s" and "s \<noteq> SecurityS"
  shows "co_authenticated v \<and> console_ready v \<and> (s \<in> {PeopleS, FactoryS, AuditS, MonitoringS} \<longrightarrow> console_admin v)"
  using assms by (cases "console_chosen v") (auto simp: console_panel_def split: if_splits)

section \<open>People\<close>

record staff_user =
  su_id :: string
  su_email :: string
  su_display_name :: string
  su_role :: string
  su_active :: bool
  su_updated_at :: string

datatype user_kind = EditUser | ResetUser | RevokeUser

datatype user_change =
    PatchUser string string string string bool
  | ResetSecurity string bool
  | RevokeSessions string

record people =
  pe_search :: string
  pe_query :: string
  pe_offset :: nat
  pe_action :: "(user_kind \<times> staff_user) option"
  pe_sessions :: "staff_user option"
  pe_role :: string
  pe_name :: string
  pe_active :: bool
  pe_recovery :: bool
  pe_notice :: string
  pe_refreshes :: nat
  pe_dialogs :: "(user_kind \<times> string, user_change) dialogs"
  pe_sent :: "(authority \<times> user_change) list"

definition people_start :: people where
  "people_start =
     \<lparr> pe_search = [], pe_query = [], pe_offset = 0, pe_action = None, pe_sessions = None, pe_role = ''user'', pe_name = [],
       pe_active = True, pe_recovery = False, pe_notice = [], pe_refreshes = 0, pe_dialogs = dialogs_start, pe_sent = [] \<rparr>"

text \<open>A rendering has the rows of the query and whether the sessions shown are not empty.\<close>

record people_view =
  pv_users :: "staff_user list option"
  pv_has_sessions :: bool

datatype people_event =
    TypeSearch string
  | SubmitSearch
  | RefreshUsers
  | ChooseUser user_kind staff_user
  | ShowSessions staff_user
  | CloseSessions
  | RevokeShown
  | TypeName string
  | PickRole string
  | SetActive bool
  | SetRecovery bool
  | EditDialog dialog_edit
  | CancelDialog
  | SubmitDialog
  | PreviousUsers
  | NextUsers
  | UserSettled nat "exn + unit"

definition choose_user :: "user_kind \<Rightarrow> staff_user \<Rightarrow> people \<Rightarrow> people" where
  "choose_user k u st =
     st\<lparr>pe_role := su_role u, pe_name := su_display_name u, pe_active := su_active u, pe_recovery := False,
        pe_action := Some (k, u)\<rparr>"

definition user_change_of :: "people \<Rightarrow> user_change option" where
  "user_change_of st =
     (case pe_action st of
        None \<Rightarrow> None
      | Some (EditUser, u) \<Rightarrow> Some (PatchUser (su_id u) (su_updated_at u) (pe_name st) (pe_role st) (pe_active st))
      | Some (ResetUser, u) \<Rightarrow> Some (ResetSecurity (su_id u) (pe_recovery st))
      | Some (RevokeUser, u) \<Rightarrow> Some (RevokeSessions (su_id u)))"

definition people_render :: "people \<Rightarrow> people" where
  "people_render st = st\<lparr>pe_dialogs := dialog_sync (map_option (\<lambda>(k, u). (k, su_id u)) (pe_action st)) (pe_dialogs st)\<rparr>"

definition people_request :: "people_view \<times> people_event \<Rightarrow> people \<Rightarrow> (authority \<times> user_change) option" where
  "people_request ve st =
     (case snd ve of
        SubmitDialog \<Rightarrow>
          (case (dialog_click True (pe_dialogs (people_render st)), user_change_of st) of
             (Some a, Some c) \<Rightarrow> Some (a, c)
           | _ \<Rightarrow> None)
      | _ \<Rightarrow> None)"

definition msg_user_changed :: string where
  "msg_user_changed = (uk ''Zminy zbere*eno ta dodano do *urnalu.'')"

definition user_settled :: "nat \<Rightarrow> exn + unit \<Rightarrow> people \<Rightarrow> people" where
  "user_settled n outcome st =
     (if dialog_running n (pe_dialogs st) = None then st
      else (let st' = st\<lparr>pe_dialogs := dialog_settled n outcome (pe_dialogs st)\<rparr> in
            case outcome of
              Inl _ \<Rightarrow> st'
            | Inr _ \<Rightarrow> st'\<lparr>pe_refreshes := Suc (pe_refreshes st), pe_notice := msg_user_changed, pe_action := None\<rparr>))"

definition people_handle :: "people_view \<Rightarrow> people_event \<Rightarrow> people \<Rightarrow> people" where
  "people_handle v e st =
     (let listed = (case pv_users v of None \<Rightarrow> [] | Some us \<Rightarrow> us) in
      case e of
        TypeSearch s \<Rightarrow> st\<lparr>pe_search := s\<rparr>
      | SubmitSearch \<Rightarrow> st\<lparr>pe_query := js_trim (pe_search st), pe_offset := 0\<rparr>
      | RefreshUsers \<Rightarrow> st\<lparr>pe_refreshes := Suc (pe_refreshes st)\<rparr>
      | ChooseUser k u \<Rightarrow> if u \<in> set listed \<and> k \<noteq> RevokeUser then choose_user k u st else st
      | ShowSessions u \<Rightarrow> if u \<in> set listed then st\<lparr>pe_sessions := Some u\<rparr> else st
      | CloseSessions \<Rightarrow> st\<lparr>pe_sessions := None\<rparr>
      | RevokeShown \<Rightarrow>
          (case pe_sessions st of
             Some u \<Rightarrow> if pv_has_sessions v then (choose_user RevokeUser u st)\<lparr>pe_sessions := None\<rparr> else st
           | None \<Rightarrow> st)
      | TypeName s \<Rightarrow> (case pe_action st of Some (EditUser, _) \<Rightarrow> st\<lparr>pe_name := s\<rparr> | _ \<Rightarrow> st)
      | PickRole r \<Rightarrow>
          (case pe_action st of
             Some (EditUser, _) \<Rightarrow> if r \<in> {''user'', ''service_admin'', ''superadmin''} then st\<lparr>pe_role := r\<rparr> else st
           | _ \<Rightarrow> st)
      | SetActive b \<Rightarrow> (case pe_action st of Some (EditUser, _) \<Rightarrow> st\<lparr>pe_active := b\<rparr> | _ \<Rightarrow> st)
      | SetRecovery b \<Rightarrow> (case pe_action st of Some (ResetUser, _) \<Rightarrow> st\<lparr>pe_recovery := b\<rparr> | _ \<Rightarrow> st)
      | EditDialog x \<Rightarrow> st\<lparr>pe_dialogs := dialog_update (dialog_edited x) (pe_dialogs st)\<rparr>
      | CancelDialog \<Rightarrow> if dialog_open (pe_dialogs st) then st\<lparr>pe_action := None\<rparr> else st
      | SubmitDialog \<Rightarrow>
          (case people_request (v, e) st of
             None \<Rightarrow> st
           | Some r \<Rightarrow> st\<lparr>pe_dialogs := dialog_submitted (snd r) (pe_dialogs st), pe_sent := r # pe_sent st\<rparr>)
      | PreviousUsers \<Rightarrow> if pv_users v = None then st else st\<lparr>pe_offset := pager_previous QUERY_SIZE (pe_offset st)\<rparr>
      | NextUsers \<Rightarrow> if pv_users v = None then st else st\<lparr>pe_offset := pager_next QUERY_SIZE (length listed) (pe_offset st)\<rparr>
      | UserSettled n outcome \<Rightarrow> user_settled n outcome st)"

definition people_step :: "people \<Rightarrow> people_view \<times> people_event \<Rightarrow> people" where
  "people_step st ve = people_handle (fst ve) (snd ve) (people_render st)"

abbreviation people_run :: "(people_view \<times> people_event) list \<Rightarrow> people" where
  "people_run es \<equiv> foldl people_step people_start es"

section \<open>Changes of people are confirmed\<close>

lemma dialog_sync_idem [simp]: "dialog_sync key (dialog_sync key g) = dialog_sync key g"
  by (auto simp: dialog_sync_def split: option.splits)

lemma people_render_simps [simp]:
  "pe_action (people_render st) = pe_action st" "pe_sent (people_render st) = pe_sent st"
  "pe_sessions (people_render st) = pe_sessions st" "people_render (people_render st) = people_render st"
  by (simp_all add: people_render_def)

lemma user_change_render [simp]: "user_change_of (people_render st) = user_change_of st"
  by (auto simp: user_change_of_def people_render_def split: option.split prod.split user_kind.split)

lemma people_request_render [simp]: "people_request ve (people_render st) = people_request ve st"
  by (cases "snd ve") (simp_all add: people_request_def)

lemma people_requestD:
  assumes "people_request ve st = Some (a, c)"
  shows "snd ve = SubmitDialog \<and> wf_authority a \<and> user_change_of st = Some c
    \<and> (\<exists>d. dialog_state (pe_dialogs (people_render st)) = Some d \<and> dialog_ready True d \<and> a = dialog_authority d)"
  using assms by (cases "snd ve") (auto simp: people_request_def dest: dialog_clickD split: option.splits)

lemma people_handle_sent:
  "pe_sent (people_handle v e st) = (case people_request (v, e) st of None \<Rightarrow> pe_sent st | Some r \<Rightarrow> r # pe_sent st)"
  by (cases e) (auto simp: people_handle_def people_request_def choose_user_def user_settled_def Let_def
      split: option.splits sum.splits user_kind.splits)

lemma people_step_sent:
  "pe_sent (people_step st ve) = (case people_request ve st of None \<Rightarrow> pe_sent st | Some r \<Rightarrow> r # pe_sent st)"
  by (cases ve; cases "people_request ve st") (simp_all add: people_step_def people_handle_sent)

text \<open>The target of the dialog, and that a password stands in the dialog for this target.\<close>

definition people_target :: "people \<Rightarrow> (user_kind \<times> string) option" where
  "people_target st = map_option (\<lambda>(k, u). (k, su_id u)) (pe_action st)"

definition password_for :: "'k option \<Rightarrow> ('k, 'c) dialogs \<Rightarrow> bool" where
  "password_for key g \<longleftrightarrow> (\<exists>k n d. dg_shown g = Some (k, n, d) \<and> key = Some k \<and> sd_password d \<noteq> [])"

fun types_password :: "people_view \<times> people_event \<Rightarrow> bool" where
  "types_password (_, EditDialog (TypePassword s)) = (s \<noteq> [])"
| "types_password _ = False"

lemma password_for_sync: "password_for key (dialog_sync key' g) \<Longrightarrow> password_for key g"
  by (auto simp: password_for_def dialog_sync_def staff_dialog_start_def split: option.splits if_splits)

lemma password_for_update:
  "password_for key (dialog_update (dialog_edited x) g) \<Longrightarrow> password_for key g \<or> (\<exists>s. x = TypePassword s \<and> s \<noteq> [])"
  by (cases x) (auto simp: password_for_def dialog_update_def dialog_edited_def split: if_splits)

lemma password_for_submitted: "password_for key (dialog_submitted c g) \<longleftrightarrow> password_for key g"
  by (auto simp: password_for_def dialog_submitted_def split: option.split)

lemma password_for_settled: "password_for key (dialog_settled n outcome g) \<Longrightarrow> password_for key g"
  by (auto simp: password_for_def dialog_settled_def dialog_failed_def Let_def split: option.splits if_splits sum.splits)

lemma password_for_ready: "dialog_state g = Some d \<Longrightarrow> dialog_ready valid d \<Longrightarrow> key = map_option fst (dg_shown g) \<Longrightarrow> password_for key g"
  by (auto simp: password_for_def dialog_state_def dialog_ready_def)

lemma shown_after_sync: "map_option fst (dg_shown (dialog_sync key g)) = key"
  by (auto simp: dialog_sync_def split: option.split)

lemma people_handle_target:
  assumes "password_for (people_target (people_handle v e st)) (pe_dialogs (people_handle v e st))"
    and "map_option fst (dg_shown (pe_dialogs st)) = people_target st"
  shows "(types_password (v, e) \<or> password_for (people_target st) (pe_dialogs st))
    \<and> people_target (people_handle v e st) = people_target st"
proof -
  have shown: "people_target st = Some k" if "dg_shown (pe_dialogs st) = Some (k, n, d)" for k n d using assms(2) that by simp
  show ?thesis
  proof (cases e)
    case (UserSettled n outcome)
    then show ?thesis
      using assms(1) shown by (auto simp: people_handle_def user_settled_def people_target_def password_for_def Let_def
          dialog_settled_def dialog_failed_def split: if_splits sum.splits option.splits)
  qed (use assms(1) shown in \<open>auto simp: people_handle_def people_target_def password_for_def Let_def choose_user_def dialog_update_def
    dialog_submitted_def dialog_edited_def split: if_splits option.splits user_kind.splits dialog_edit.splits\<close>)
qed

lemma people_rendered: "map_option fst (dg_shown (pe_dialogs (people_render st))) = people_target (people_render st)"
  by (simp add: people_render_def people_target_def shown_after_sync)

interpretation people_form: confirmed_form people_step people_request pe_sent
  "\<lambda>st. password_for (people_target st) (pe_dialogs st)" people_target types_password
proof unfold_locales
  fix st :: people and ve :: "people_view \<times> people_event" and r
  obtain v e where ve: "ve = (v, e)" by (cases ve)
  have target: "people_target (people_render st) = people_target st" by (simp add: people_target_def)
  have sync: "password_for (people_target st) (pe_dialogs (people_render st)) \<Longrightarrow> password_for (people_target st) (pe_dialogs st)"
    using password_for_sync by (auto simp: people_render_def people_target_def)
  show "pe_sent (people_step st ve) = (case people_request ve st of None \<Rightarrow> pe_sent st | Some r \<Rightarrow> r # pe_sent st)"
    by (rule people_step_sent)
  show "(types_password ve \<or> password_for (people_target st) (pe_dialogs st)) \<and> people_target (people_step st ve) = people_target st"
    if "password_for (people_target (people_step st ve)) (pe_dialogs (people_step st ve))"
    using people_handle_target [of v e "people_render st"] that people_rendered [of st] sync
    by (simp add: ve people_step_def target) blast
  show "password_for (people_target st) (pe_dialogs st)" if "people_request ve st = Some r"
  proof -
    obtain a c where "r = (a, c)" by (cases r)
    with that people_requestD [of ve st a c] obtain d where
      "dialog_state (pe_dialogs (people_render st)) = Some d" "dialog_ready True d" by blast
    from password_for_ready [OF this, of "people_target st"] people_rendered [of st] sync target show ?thesis by simp
  qed
qed

text \<open>Whom an action is about has been listed.\<close>

definition user_picked :: "staff_user \<Rightarrow> people \<Rightarrow> bool" where
  "user_picked u st \<longleftrightarrow> (\<exists>k. pe_action st = Some (k, u)) \<or> pe_sessions st = Some u"

definition listed_in :: "staff_user \<Rightarrow> people_view \<Rightarrow> bool" where
  "listed_in u v \<longleftrightarrow> (\<exists>us. pv_users v = Some us \<and> u \<in> set us)"

lemma people_handle_picked: "user_picked u (people_handle v e st) \<Longrightarrow> user_picked u st \<or> listed_in u v"
  by (cases e) (auto simp: people_handle_def user_picked_def listed_in_def choose_user_def user_settled_def Let_def
      split: if_splits option.splits sum.splits user_kind.splits)

lemma people_picked: "user_picked u (people_run es) \<Longrightarrow> \<exists>v \<in> fst ` set es. listed_in u v"
proof (induction es rule: rev_induct)
  case Nil
  then show ?case by (simp add: user_picked_def people_start_def)
next
  case (snoc ve es)
  obtain v e where ve: "ve = (v, e)" by (cases ve)
  have "people_run (es @ [ve]) = people_handle v e (people_render (people_run es))" by (simp add: ve people_step_def)
  with snoc.prems people_handle_picked [of u v e "people_render (people_run es)"]
  have "user_picked u (people_run es) \<or> listed_in u v" by (simp add: user_picked_def)
  with snoc.IH ve show ?case by auto
qed


section \<open>Example\<close>

definition sample_user :: staff_user where
  "sample_user = \<lparr> su_id = ''u1'', su_email = ''a@b.c'', su_display_name = ''Anna'', su_role = ''user'', su_active = True,
     su_updated_at = ''t0'' \<rparr>"

definition sample_people :: "(people_view \<times> people_event) list" where
  "sample_people = map (\<lambda>e. (\<lparr> pv_users = Some [sample_user], pv_has_sessions = False \<rparr>, e))
     [ChooseUser EditUser sample_user, SetActive False, EditDialog (TypeReason ''left us''), EditDialog (TypePassword ''secret''),
      EditDialog (TypeOtp ''123456''), SubmitDialog]"

lemma sample_people_sent:
  "pe_sent (people_run sample_people)
     = [(\<lparr> au_password = ''secret'', au_otp = ''123456'', au_reason = ''left us'' \<rparr>, PatchUser ''u1'' ''t0'' ''Anna'' ''user'' False)]"
proof -
  have code: "js_trim ''left us'' = ''left us''" "js_length ''left us'' = 7" "six_digits ''123456''" by code_simp+
  show ?thesis
    by (simp add: sample_people_def sample_user_def people_step_def people_render_def people_handle_def people_start_def
        choose_user_def dialogs_start_def dialog_sync_def staff_dialog_start_def dialog_update_def dialog_edited_def
        people_request_def dialog_click_def dialog_state_def dialog_ready_def dialog_authority_def dialog_submitted_def
        user_change_of_def code)
qed


end
