(* ===== verification/StaffOrganizations.thy ===== *)
theory StaffOrganizations
  imports StaffConsole MemberAccess Calendar
begin

text \<open>
  \<open>features/operations/organizations.tsx\<close>: the organizations that the staff manages. \<open>orgs\<close> is the list with the form for a
  new organization (\<open>OrganizationsPanel\<close>); \<open>org_page\<close> one organization and its sites with their dialogs
  (\<open>OrganizationDetail\<close>); \<open>staff_members\<close> its members and invitations (\<open>MembersPanel\<close> with \<open>SiteScopePicker\<close>).

  A dialog is modal (\<open>showModal\<close>): while it is shown, the rest of the page is inert, so the buttons outside it do
  nothing (\<open>outside\<close>). The components have no validator of their own: rows come from the query as they are.
\<close>

section \<open>The list of organizations\<close>

record new_organization =
  no_name :: string
  no_slug :: string

record orgs =
  os_offset :: nat
  os_selected :: "string option"
  os_creating :: bool
  os_name :: string
  os_slug :: string
  os_action :: account_action
  os_running :: bool
  os_sent :: "new_organization list"
  os_refreshes :: nat

datatype orgs_event =
    ToggleCreate
  | RefreshOrgs
  | TypeOrgName string
  | TypeSlug string
  | SubmitOrg
  | OrgCreated "exn + unit"
  | OpenOrg string
  | LeaveOrg
  | PreviousOrgs
  | NextOrgs

definition orgs_start :: orgs where
  "orgs_start = \<lparr> os_offset = 0, os_selected = None, os_creating = False, os_name = [], os_slug = [], os_action = no_action,
     os_running = False, os_sent = [], os_refreshes = 0 \<rparr>"

definition orgs_created :: "exn + unit \<Rightarrow> orgs \<Rightarrow> orgs" where
  "orgs_created outcome st =
     (if \<not> os_running st then st
      else (let st' = st\<lparr>os_running := False, os_action := run_settled outcome (os_action st)\<rparr> in
            case outcome of
              Inl _ \<Rightarrow> st'
            | Inr _ \<Rightarrow> st'\<lparr>os_creating := False, os_name := [], os_slug := [], os_refreshes := Suc (os_refreshes st)\<rparr>))"

text \<open>A rendering has the identifiers of the rows. While an organization is open only its page is shown.\<close>

definition orgs_step :: "bool \<Rightarrow> orgs \<Rightarrow> string list option \<times> orgs_event \<Rightarrow> orgs" where
  "orgs_step admin st ve =
     (let rows = (case fst ve of None \<Rightarrow> [] | Some r \<Rightarrow> r); list = (os_selected st = None) in
      case snd ve of
        ToggleCreate \<Rightarrow> if list \<and> admin then st\<lparr>os_creating := \<not> os_creating st\<rparr> else st
      | RefreshOrgs \<Rightarrow> if list then st\<lparr>os_refreshes := Suc (os_refreshes st)\<rparr> else st
      | TypeOrgName s \<Rightarrow> if list \<and> os_creating st then st\<lparr>os_name := s\<rparr> else st
      | TypeSlug s \<Rightarrow> if list \<and> os_creating st then st\<lparr>os_slug := s\<rparr> else st
      | SubmitOrg \<Rightarrow>
          (case run_action (os_action st) of
             Some a \<Rightarrow>
               if list \<and> os_creating st
               then st\<lparr>os_action := a, os_running := True,
                       os_sent := \<lparr> no_name = os_name st, no_slug = os_slug st \<rparr> # os_sent st\<rparr>
               else st
           | None \<Rightarrow> st)
      | OrgCreated outcome \<Rightarrow> orgs_created outcome st
      | OpenOrg i \<Rightarrow> if list \<and> i \<in> set rows then st\<lparr>os_selected := Some i\<rparr> else st
      | LeaveOrg \<Rightarrow> if list then st else st\<lparr>os_selected := None, os_refreshes := Suc (os_refreshes st)\<rparr>
      | PreviousOrgs \<Rightarrow> if list \<and> fst ve \<noteq> None then st\<lparr>os_offset := pager_previous QUERY_SIZE (os_offset st)\<rparr> else st
      | NextOrgs \<Rightarrow> if list \<and> fst ve \<noteq> None then st\<lparr>os_offset := pager_next QUERY_SIZE (length rows) (os_offset st)\<rparr> else st)"

section \<open>An organization and its sites\<close>

record staff_org =
  so_name :: string
  so_active :: bool
  so_updated_at :: string

record staff_site =
  ss_id :: string
  ss_name :: string
  ss_timezone :: string
  ss_updated_at :: string

datatype edit_kind = Edit | Delete

datatype org_change = PatchOrganization string bool string | DeleteOrganization
datatype site_change = PatchSite string string string string | DeleteSite string

record new_site =
  ns_name :: string
  ns_code :: string
  ns_timezone :: string

record org_page =
  op_offset :: nat
  op_operation :: "edit_kind option"
  op_site :: "(edit_kind \<times> staff_site) option"
  op_site_name :: string
  op_timezone :: string
  op_name :: string
  op_active :: bool
  op_creating :: bool
  op_new_name :: string
  op_code :: string
  op_create :: account_action
  op_create_running :: bool
  op_left :: bool
  op_org_refreshes :: nat
  op_site_refreshes :: nat
  op_org_dialog :: "(unit, org_change) dialogs"
  op_site_dialog :: "(unit, site_change) dialogs"
  op_org_sent :: "(authority \<times> org_change) list"
  op_site_sent :: "(authority \<times> site_change) list"
  op_create_sent :: "new_site list"

definition org_page_start :: org_page where
  "org_page_start =
     \<lparr> op_offset = 0, op_operation = None, op_site = None, op_site_name = [], op_timezone = ''Europe/Kyiv'', op_name = [],
       op_active = True, op_creating = False, op_new_name = [], op_code = [], op_create = no_action,
       op_create_running = False, op_left = False, op_org_refreshes = 0, op_site_refreshes = 0,
       op_org_dialog = dialogs_start, op_site_dialog = dialogs_start, op_org_sent = [], op_site_sent = [],
       op_create_sent = [] \<rparr>"

record org_view =
  gv_admin :: bool
  gv_org :: "staff_org option"
  gv_sites :: "staff_site list option"

datatype org_event =
    GoBack
  | RefreshPage
  | EditOrganization
  | RemoveOrganization
  | ToggleNewSite
  | TypeNewName string
  | TypeCode string
  | SubmitSite
  | SiteCreated "exn + unit"
  | EditSite staff_site
  | RemoveSite staff_site
  | PreviousSites
  | NextSites
  | TypeName string
  | SetOrgActive bool
  | TypeSiteName string
  | TypeTimezone string
  | EditOrgDialog dialog_edit
  | CancelOrgDialog
  | SubmitOrgDialog
  | OrgSettled nat "exn + unit"
  | EditSiteDialog dialog_edit
  | CancelSiteDialog
  | SubmitSiteDialog
  | SiteSettled nat "exn + unit"

definition op_render :: "org_view \<Rightarrow> org_page \<Rightarrow> org_page" where
  "op_render v st =
     st\<lparr>op_org_dialog := dialog_sync (if op_operation st \<noteq> None \<and> gv_org v \<noteq> None then Some () else None) (op_org_dialog st),
        op_site_dialog := dialog_sync (map_option (\<lambda>_. ()) (op_site st)) (op_site_dialog st)\<rparr>"

text \<open>No modal dialog is shown. After \<open>onBack\<close> the page is gone (\<open>op_left\<close>).\<close>

definition outside :: "org_page \<Rightarrow> bool" where
  "outside st = (dg_shown (op_org_dialog st) = None \<and> dg_shown (op_site_dialog st) = None)"

definition org_change_of :: "org_view \<Rightarrow> org_page \<Rightarrow> org_change option" where
  "org_change_of v st =
     (case (op_operation st, gv_org v) of
        (Some Edit, Some o') \<Rightarrow> Some (PatchOrganization (op_name st) (op_active st) (so_updated_at o'))
      | (Some Delete, Some o') \<Rightarrow> Some DeleteOrganization
      | _ \<Rightarrow> None)"

definition site_change_of :: "org_page \<Rightarrow> site_change option" where
  "site_change_of st =
     (case op_site st of
        None \<Rightarrow> None
      | Some (Edit, s) \<Rightarrow> Some (PatchSite (ss_id s) (op_site_name st) (op_timezone st) (ss_updated_at s))
      | Some (Delete, s) \<Rightarrow> Some (DeleteSite (ss_id s)))"

definition org_request :: "org_view \<times> org_event \<Rightarrow> org_page \<Rightarrow> (authority \<times> org_change) option" where
  "org_request ve st =
     (if snd ve \<noteq> SubmitOrgDialog \<or> op_left st then None
      else (case (dialog_click True (op_org_dialog (op_render (fst ve) st)), org_change_of (fst ve) st) of
              (Some a, Some c) \<Rightarrow> Some (a, c)
            | _ \<Rightarrow> None))"

definition site_request :: "org_view \<times> org_event \<Rightarrow> org_page \<Rightarrow> (authority \<times> site_change) option" where
  "site_request ve st =
     (if snd ve \<noteq> SubmitSiteDialog \<or> op_left st then None
      else (case (dialog_click True (op_site_dialog (op_render (fst ve) st)), site_change_of st) of
              (Some a, Some c) \<Rightarrow> Some (a, c)
            | _ \<Rightarrow> None))"

definition org_settled :: "nat \<Rightarrow> exn + unit \<Rightarrow> org_page \<Rightarrow> org_page" where
  "org_settled n outcome st =
     (case dialog_running n (op_org_dialog st) of
        None \<Rightarrow> st
      | Some c \<Rightarrow>
          (let st' = st\<lparr>op_org_dialog := dialog_settled n outcome (op_org_dialog st)\<rparr> in
           case outcome of
             Inl _ \<Rightarrow> st'
           | Inr _ \<Rightarrow>
               if c = DeleteOrganization then st'\<lparr>op_left := True, op_operation := None\<rparr>
               else st'\<lparr>op_org_refreshes := Suc (op_org_refreshes st), op_operation := None\<rparr>))"

definition site_settled :: "nat \<Rightarrow> exn + unit \<Rightarrow> org_page \<Rightarrow> org_page" where
  "site_settled n outcome st =
     (if dialog_running n (op_site_dialog st) = None then st
      else (let st' = st\<lparr>op_site_dialog := dialog_settled n outcome (op_site_dialog st)\<rparr> in
            case outcome of
              Inl _ \<Rightarrow> st'
            | Inr _ \<Rightarrow> st'\<lparr>op_site_refreshes := Suc (op_site_refreshes st), op_site := None\<rparr>))"

definition site_created :: "exn + unit \<Rightarrow> org_page \<Rightarrow> org_page" where
  "site_created outcome st =
     (if \<not> op_create_running st then st
      else (let st' = st\<lparr>op_create_running := False, op_create := run_settled outcome (op_create st)\<rparr> in
            case outcome of
              Inl _ \<Rightarrow> st'
            | Inr _ \<Rightarrow> st'\<lparr>op_creating := False, op_new_name := [], op_code := [],
                            op_site_refreshes := Suc (op_site_refreshes st)\<rparr>))"

definition site_submitted :: "org_page \<Rightarrow> org_page" where
  "site_submitted st =
     (case run_action (op_create st) of
        None \<Rightarrow> st
      | Some a \<Rightarrow> st\<lparr>op_create := a, op_create_running := True,
                      op_create_sent := \<lparr> ns_name = op_new_name st, ns_code = op_code st, ns_timezone = ''Europe/Kyiv'' \<rparr>
                        # op_create_sent st\<rparr>)"

text \<open>The buttons and fields of the page, outside the dialogs.\<close>

definition org_outside :: "org_view \<Rightarrow> org_event \<Rightarrow> org_page \<Rightarrow> org_page" where
  "org_outside v e st =
     (let sites = (case gv_sites v of None \<Rightarrow> [] | Some r \<Rightarrow> r) in
      case e of
        GoBack \<Rightarrow> st\<lparr>op_left := True\<rparr>
      | RefreshPage \<Rightarrow> st\<lparr>op_org_refreshes := Suc (op_org_refreshes st), op_site_refreshes := Suc (op_site_refreshes st)\<rparr>
      | EditOrganization \<Rightarrow>
          (case gv_org v of
             Some o' \<Rightarrow>
               if gv_admin v then st\<lparr>op_name := so_name o', op_active := so_active o', op_operation := Some Edit\<rparr> else st
           | None \<Rightarrow> st)
      | RemoveOrganization \<Rightarrow>
          (case gv_org v of
             Some o' \<Rightarrow> if gv_admin v \<and> \<not> so_active o' then st\<lparr>op_operation := Some Delete\<rparr> else st
           | None \<Rightarrow> st)
      | ToggleNewSite \<Rightarrow> if gv_admin v then st\<lparr>op_creating := \<not> op_creating st\<rparr> else st
      | TypeNewName s \<Rightarrow> if op_creating st then st\<lparr>op_new_name := s\<rparr> else st
      | TypeCode s \<Rightarrow> if op_creating st then st\<lparr>op_code := s\<rparr> else st
      | SubmitSite \<Rightarrow> if op_creating st then site_submitted st else st
      | EditSite s \<Rightarrow>
          if gv_admin v \<and> s \<in> set sites
          then st\<lparr>op_site_name := ss_name s, op_timezone := ss_timezone s, op_site := Some (Edit, s)\<rparr> else st
      | RemoveSite s \<Rightarrow> if gv_admin v \<and> s \<in> set sites then st\<lparr>op_site := Some (Delete, s)\<rparr> else st
      | PreviousSites \<Rightarrow> if gv_sites v = None then st else st\<lparr>op_offset := pager_previous QUERY_SIZE (op_offset st)\<rparr>
      | NextSites \<Rightarrow> if gv_sites v = None then st else st\<lparr>op_offset := pager_next QUERY_SIZE (length sites) (op_offset st)\<rparr>
      | _ \<Rightarrow> st)"

text \<open>The two dialogs, and the answers to requests.\<close>

definition org_inside :: "org_view \<Rightarrow> org_event \<Rightarrow> org_page \<Rightarrow> org_page" where
  "org_inside v e st =
     (case e of
        SiteCreated outcome \<Rightarrow> site_created outcome st
      | TypeName s \<Rightarrow> if op_operation st = Some Edit \<and> dg_shown (op_org_dialog st) \<noteq> None then st\<lparr>op_name := s\<rparr> else st
      | SetOrgActive b \<Rightarrow>
          if op_operation st = Some Edit \<and> dg_shown (op_org_dialog st) \<noteq> None then st\<lparr>op_active := b\<rparr> else st
      | TypeSiteName s \<Rightarrow> (case op_site st of Some (Edit, _) \<Rightarrow> st\<lparr>op_site_name := s\<rparr> | _ \<Rightarrow> st)
      | TypeTimezone s \<Rightarrow> (case op_site st of Some (Edit, _) \<Rightarrow> st\<lparr>op_timezone := s\<rparr> | _ \<Rightarrow> st)
      | EditOrgDialog x \<Rightarrow> st\<lparr>op_org_dialog := dialog_update (dialog_edited x) (op_org_dialog st)\<rparr>
      | CancelOrgDialog \<Rightarrow> if dialog_open (op_org_dialog st) then st\<lparr>op_operation := None\<rparr> else st
      | SubmitOrgDialog \<Rightarrow>
          (case org_request (v, e) st of
             None \<Rightarrow> st
           | Some r \<Rightarrow> st\<lparr>op_org_dialog := dialog_submitted (snd r) (op_org_dialog st), op_org_sent := r # op_org_sent st\<rparr>)
      | OrgSettled n outcome \<Rightarrow> org_settled n outcome st
      | EditSiteDialog x \<Rightarrow> st\<lparr>op_site_dialog := dialog_update (dialog_edited x) (op_site_dialog st)\<rparr>
      | CancelSiteDialog \<Rightarrow> if dialog_open (op_site_dialog st) then st\<lparr>op_site := None\<rparr> else st
      | SubmitSiteDialog \<Rightarrow>
          (case site_request (v, e) st of
             None \<Rightarrow> st
           | Some r \<Rightarrow> st\<lparr>op_site_dialog := dialog_submitted (snd r) (op_site_dialog st), op_site_sent := r # op_site_sent st\<rparr>)
      | SiteSettled n outcome \<Rightarrow> site_settled n outcome st
      | _ \<Rightarrow> st)"

definition org_step :: "org_page \<Rightarrow> org_view \<times> org_event \<Rightarrow> org_page" where
  "org_step st ve =
     (let st' = op_render (fst ve) st in
      if op_left st then st
      else if outside st' then org_inside (fst ve) (snd ve) (org_outside (fst ve) (snd ve) st')
      else org_inside (fst ve) (snd ve) st')"

abbreviation org_run :: "(org_view \<times> org_event) list \<Rightarrow> org_page" where
  "org_run es \<equiv> foldl org_step org_page_start es"

section \<open>Changes of organizations and sites are confirmed\<close>

lemma op_render_simps [simp]:
  "op_operation (op_render v st) = op_operation st" "op_site (op_render v st) = op_site st"
  "op_name (op_render v st) = op_name st" "op_active (op_render v st) = op_active st"
  "op_site_name (op_render v st) = op_site_name st" "op_timezone (op_render v st) = op_timezone st"
  "op_org_sent (op_render v st) = op_org_sent st" "op_site_sent (op_render v st) = op_site_sent st"
  "op_left (op_render v st) = op_left st" "op_render v (op_render v st) = op_render v st"
  by (simp_all add: op_render_def)

lemma change_of_render [simp]:
  "org_change_of v (op_render v st) = org_change_of v st" "site_change_of (op_render v st) = site_change_of st"
  by (auto simp: org_change_of_def site_change_of_def split: option.split edit_kind.split)

lemma request_render [simp]:
  "org_request (v, e) (op_render v st) = org_request (v, e) st" "site_request (v, e) (op_render v st) = site_request (v, e) st"
  by (simp_all add: org_request_def site_request_def)

lemma org_outside_sent [simp]:
  "op_org_sent (org_outside v e st) = op_org_sent st" "op_site_sent (org_outside v e st) = op_site_sent st"
  "op_org_dialog (org_outside v e st) = op_org_dialog st" "op_site_dialog (org_outside v e st) = op_site_dialog st"
  by (cases e; simp add: org_outside_def site_submitted_def Let_def split: option.split)+

lemma org_outside_other:
  "e = SubmitOrgDialog \<or> e = SubmitSiteDialog \<Longrightarrow> org_outside v e st = st"
  by (auto simp: org_outside_def)

lemma org_inside_sent:
  "op_org_sent (org_inside v e st) = (case org_request (v, e) st of None \<Rightarrow> op_org_sent st | Some r \<Rightarrow> r # op_org_sent st)"
  "op_site_sent (org_inside v e st) = (case site_request (v, e) st of None \<Rightarrow> op_site_sent st | Some r \<Rightarrow> r # op_site_sent st)"
  by (cases e; force simp: org_inside_def org_request_def site_request_def org_settled_def site_settled_def site_created_def
      Let_def split: option.split sum.split edit_kind.split prod.split)+

lemma org_requestD:
  assumes "org_request (v, e) st = Some (a, c)"
  shows "e = SubmitOrgDialog \<and> wf_authority a \<and> org_change_of v st = Some c
    \<and> (\<exists>d. dialog_state (op_org_dialog (op_render v st)) = Some d \<and> dialog_ready True d)"
  using assms by (auto simp: org_request_def dest: dialog_clickD split: if_splits option.splits)

lemma site_requestD:
  assumes "site_request (v, e) st = Some (a, c)"
  shows "e = SubmitSiteDialog \<and> wf_authority a \<and> site_change_of st = Some c
    \<and> (\<exists>d. dialog_state (op_site_dialog (op_render v st)) = Some d \<and> dialog_ready True d)"
  using assms by (auto simp: site_request_def dest: dialog_clickD split: if_splits option.splits)

lemma org_step_unfold:
  "\<not> op_left st \<Longrightarrow> org_step st (v, e)
     = org_inside v e (if outside (op_render v st) then org_outside v e (op_render v st) else op_render v st)"
  by (simp add: org_step_def Let_def)

lemma org_step_sent:
  "op_org_sent (org_step st ve) = (case org_request ve st of None \<Rightarrow> op_org_sent st | Some r \<Rightarrow> r # op_org_sent st)"
  "op_site_sent (org_step st ve) = (case site_request ve st of None \<Rightarrow> op_site_sent st | Some r \<Rightarrow> r # op_site_sent st)"
proof -
  obtain v e where ve: "ve = (v, e)" by (cases ve)
  let ?o = "if outside (op_render v st) then org_outside v e (op_render v st) else op_render v st"
  have o': "?o = op_render v st" if "e = SubmitOrgDialog \<or> e = SubmitSiteDialog"
    using that by (simp add: org_outside_other)
  have none: "org_request (v, e) x = None" if "e \<noteq> SubmitOrgDialog" for x using that by (simp add: org_request_def)
  have none': "site_request (v, e) x = None" if "e \<noteq> SubmitSiteDialog" for x using that by (simp add: site_request_def)
  have same: "org_request (v, e) ?o = org_request (v, e) st" "site_request (v, e) ?o = site_request (v, e) st"
    using o' none none' request_render by metis+
  show "op_org_sent (org_step st ve) = (case org_request ve st of None \<Rightarrow> op_org_sent st | Some r \<Rightarrow> r # op_org_sent st)"
    by (cases "op_left st")
      (simp add: ve org_step_def org_request_def, simp add: ve org_step_unfold org_inside_sent same cong: option.case_cong)
  show "op_site_sent (org_step st ve) = (case site_request ve st of None \<Rightarrow> op_site_sent st | Some r \<Rightarrow> r # op_site_sent st)"
    by (cases "op_left st")
      (simp add: ve org_step_def site_request_def, simp add: ve org_step_unfold org_inside_sent same cong: option.case_cong)
qed

text \<open>A password stands in the dialog.\<close>

definition org_armed :: "org_page \<Rightarrow> bool" where
  "org_armed st \<longleftrightarrow> op_operation st \<noteq> None \<and> password_for (Some ()) (op_org_dialog st)"

definition site_armed :: "org_page \<Rightarrow> bool" where
  "site_armed st \<longleftrightarrow> op_site st \<noteq> None \<and> password_for (Some ()) (op_site_dialog st)"

fun types_org_password :: "org_view \<times> org_event \<Rightarrow> bool" where
  "types_org_password (_, EditOrgDialog (TypePassword s)) = (s \<noteq> [])"
| "types_org_password _ = False"

fun types_site_password :: "org_view \<times> org_event \<Rightarrow> bool" where
  "types_site_password (_, EditSiteDialog (TypePassword s)) = (s \<noteq> [])"
| "types_site_password _ = False"

lemma org_outside_dialogs:
  assumes "outside st"
  shows "\<not> password_for key (op_org_dialog (org_outside v e st))" "\<not> password_for key (op_site_dialog (org_outside v e st))"
  using assms by (simp_all add: outside_def password_for_def)

lemma org_inside_armed:
  "org_armed (org_inside v e st) \<Longrightarrow> (types_org_password (v, e) \<or> org_armed st) \<and> op_operation (org_inside v e st) = op_operation st"
  by (cases e) (auto simp: org_inside_def org_armed_def org_settled_def site_settled_def site_created_def Let_def
      password_for_submitted dest: password_for_update password_for_settled split: if_splits option.splits sum.splits edit_kind.splits)

lemma site_inside_armed:
  "site_armed (org_inside v e st) \<Longrightarrow> (types_site_password (v, e) \<or> site_armed st) \<and> op_site (org_inside v e st) = op_site st"
  by (cases e) (auto simp: org_inside_def site_armed_def org_settled_def site_settled_def site_created_def Let_def
      password_for_submitted dest: password_for_update password_for_settled split: if_splits option.splits sum.splits edit_kind.splits)

lemma org_outside_typing:
  "types_org_password (v, e) \<Longrightarrow> org_outside v e st = st" "types_site_password (v, e) \<Longrightarrow> org_outside v e st = st"
  by (cases e; simp add: org_outside_def)+

lemma org_render_armed: "org_armed (op_render v st) \<Longrightarrow> org_armed st" "site_armed (op_render v st) \<Longrightarrow> site_armed st"
  by (auto simp: org_armed_def site_armed_def op_render_def dest: password_for_sync)

lemma org_step_armed:
  assumes "org_armed (org_step st (v, e))" and "\<not> op_left st"
  shows "(types_org_password (v, e) \<or> org_armed st) \<and> op_operation (org_step st (v, e)) = op_operation st"
proof (cases "outside (op_render v st)")
  case True
  then have step: "org_step st (v, e) = org_inside v e (org_outside v e (op_render v st))"
    and idle: "\<not> org_armed (org_outside v e (op_render v st))"
    using assms(2) org_outside_dialogs [OF True] by (simp_all add: org_step_unfold org_armed_def)
  from org_inside_armed [OF assms(1) [unfolded step]] idle have "types_org_password (v, e)" by blast
  with org_inside_armed [OF assms(1) [unfolded step]] step show ?thesis by (simp add: org_outside_typing)
next
  case False
  then have step: "org_step st (v, e) = org_inside v e (op_render v st)" using assms(2) by (simp add: org_step_unfold)
  from org_inside_armed [OF assms(1) [unfolded step]] step org_render_armed show ?thesis by auto
qed

lemma site_step_armed:
  assumes "site_armed (org_step st (v, e))" and "\<not> op_left st"
  shows "(types_site_password (v, e) \<or> site_armed st) \<and> op_site (org_step st (v, e)) = op_site st"
proof (cases "outside (op_render v st)")
  case True
  then have step: "org_step st (v, e) = org_inside v e (org_outside v e (op_render v st))"
    and idle: "\<not> site_armed (org_outside v e (op_render v st))"
    using assms(2) org_outside_dialogs [OF True] by (simp_all add: org_step_unfold site_armed_def)
  from site_inside_armed [OF assms(1) [unfolded step]] idle have "types_site_password (v, e)" by blast
  with site_inside_armed [OF assms(1) [unfolded step]] step show ?thesis by (simp add: org_outside_typing)
next
  case False
  then have step: "org_step st (v, e) = org_inside v e (op_render v st)" using assms(2) by (simp add: org_step_unfold)
  from site_inside_armed [OF assms(1) [unfolded step]] step org_render_armed show ?thesis by auto
qed

lemma ready_armed:
  "dialog_state (dialog_sync key g) = Some d \<Longrightarrow> dialog_ready valid d \<Longrightarrow> key \<noteq> None \<and> password_for key g"
  by (rule conjI, force simp: dialog_state_def dialog_sync_def split: option.splits)
    (rule password_for_sync, rule password_for_ready, assumption+, simp add: shown_after_sync)

interpretation org_form: confirmed_form org_step org_request op_org_sent org_armed op_operation types_org_password
proof unfold_locales
  fix st :: org_page and ve :: "org_view \<times> org_event" and r
  obtain v e where ve: "ve = (v, e)" by (cases ve)
  show "op_org_sent (org_step st ve) = (case org_request ve st of None \<Rightarrow> op_org_sent st | Some r \<Rightarrow> r # op_org_sent st)"
    by (rule org_step_sent)
  show "(types_org_password ve \<or> org_armed st) \<and> op_operation (org_step st ve) = op_operation st" if "org_armed (org_step st ve)"
    using that org_step_armed [of st v e] by (cases "op_left st") (simp_all add: ve org_step_def)
  show "org_armed st" if "org_request ve st = Some r"
  proof -
    obtain a c where "r = (a, c)" by (cases r)
    with that org_requestD [of v e st a c] ve obtain d where
      "dialog_state (op_org_dialog (op_render v st)) = Some d" "dialog_ready True d" "org_change_of v st = Some c" by blast
    then show ?thesis
      using ready_armed by (fastforce simp: op_render_def org_armed_def org_change_of_def split: if_splits option.splits)
  qed
qed

interpretation site_form: confirmed_form org_step site_request op_site_sent site_armed op_site types_site_password
proof unfold_locales
  fix st :: org_page and ve :: "org_view \<times> org_event" and r
  obtain v e where ve: "ve = (v, e)" by (cases ve)
  show "op_site_sent (org_step st ve) = (case site_request ve st of None \<Rightarrow> op_site_sent st | Some r \<Rightarrow> r # op_site_sent st)"
    by (rule org_step_sent)
  show "(types_site_password ve \<or> site_armed st) \<and> op_site (org_step st ve) = op_site st" if "site_armed (org_step st ve)"
    using that site_step_armed [of st v e] by (cases "op_left st") (simp_all add: ve org_step_def)
  show "site_armed st" if "site_request ve st = Some r"
  proof -
    obtain a c where "r = (a, c)" by (cases r)
    with that site_requestD [of v e st a c] ve obtain d where
      "dialog_state (op_site_dialog (op_render v st)) = Some d" "dialog_ready True d" "site_change_of st = Some c" by blast
    then show ?thesis
      using ready_armed by (fastforce simp: op_render_def site_armed_def site_change_of_def split: option.splits)
  qed
qed

definition site_listed :: "staff_site \<Rightarrow> org_view \<Rightarrow> bool" where
  "site_listed s v \<longleftrightarrow> gv_admin v \<and> (\<exists>rows. gv_sites v = Some rows \<and> s \<in> set rows)"

lemma org_outside_picked: "op_site (org_outside v e st) = Some (k, s) \<Longrightarrow> op_site st = Some (k, s) \<or> site_listed s v"
  by (cases e) (auto simp: org_outside_def site_listed_def site_submitted_def Let_def split: if_splits option.splits)

lemma org_inside_picked: "op_site (org_inside v e st) = Some x \<Longrightarrow> op_site st = Some x"
  by (cases e) (auto simp: org_inside_def org_settled_def site_settled_def site_created_def Let_def
      split: if_splits option.splits sum.splits edit_kind.splits)

lemma org_step_picked:
  assumes "op_site (org_step st (v, e)) = Some (k, s)"
  shows "op_site st = Some (k, s) \<or> site_listed s v"
proof (cases "op_left st")
  case False
  from org_inside_picked [OF assms [unfolded org_step_unfold [OF False]]] show ?thesis
    using org_outside_picked [of v e "op_render v st" k s] by (cases "outside (op_render v st)") simp_all
qed (use assms in \<open>simp add: org_step_def\<close>)

lemma site_picked: "op_site (org_run es) = Some (k, s) \<Longrightarrow> \<exists>v \<in> fst ` set es. site_listed s v"
proof (induction es rule: rev_induct)
  case Nil
  then show ?case by (simp add: org_page_start_def)
next
  case (snoc ve es)
  obtain v e where ve: "ve = (v, e)" by (cases ve)
  from snoc.prems have "op_site (org_step (org_run es) (v, e)) = Some (k, s)" by (simp add: ve)
  from org_step_picked [OF this] snoc.IH ve show ?case by auto
qed


section \<open>Examples\<close>

definition sample_staff_site :: staff_site where
  "sample_staff_site = \<lparr> ss_id = ''s1'', ss_name = ''North'', ss_timezone = ''Europe/Kyiv'', ss_updated_at = ''t0'' \<rparr>"

definition admin_view :: "staff_org \<Rightarrow> org_view" where
  "admin_view o' = \<lparr> gv_admin = True, gv_org = Some o', gv_sites = Some [sample_staff_site] \<rparr>"

definition org_at :: "string \<Rightarrow> string \<Rightarrow> staff_org" where
  "org_at name updated = \<lparr> so_name = name, so_active = True, so_updated_at = updated \<rparr>"

definition proof_edits :: "dialog_edit list" where
  "proof_edits = [TypeReason ''new name'', TypePassword ''secret'', TypeOtp ''123456'']"

definition sample_authority :: authority where
  "sample_authority = \<lparr> au_password = ''secret'', au_otp = ''123456'', au_reason = ''new name'' \<rparr>"

definition sample_site_run :: "(org_view \<times> org_event) list" where
  "sample_site_run = map (\<lambda>e. (admin_view (org_at ''Farm'' ''o0''), e))
     ([EditSite sample_staff_site, TypeSiteName ''South''] @ map EditSiteDialog proof_edits @ [SubmitSiteDialog])"

lemma proof_code: "js_trim ''new name'' = ''new name''" "js_length ''new name'' = 8" "six_digits ''123456''"
  by code_simp+

lemmas org_eval = org_step_def op_render_def outside_def org_outside_def org_inside_def org_page_start_def dialogs_start_def
  dialog_sync_def staff_dialog_start_def dialog_update_def dialog_edited_def dialog_click_def dialog_state_def
  dialog_ready_def dialog_authority_def dialog_submitted_def org_request_def site_request_def org_change_of_def
  site_change_of_def admin_view_def org_at_def proof_edits_def sample_authority_def proof_code Let_def

lemma sample_site_sent:
  "op_site_sent (org_run sample_site_run) = [(sample_authority, PatchSite ''s1'' ''South'' ''Europe/Kyiv'' ''t0'')]"
  by (simp add: sample_site_run_def sample_staff_site_def org_eval)


text \<open>An organization is sent with the revision of the data that the page has at the click, not of the data that filled
  the fields: when the data are loaded again in between, here with a name and a revision that somebody else wrote,
  the fields with the old name are sent under the new revision, which the server accepts.\<close>

definition sample_overwrite :: "(org_view \<times> org_event) list" where
  "sample_overwrite =
     (admin_view (org_at ''Farm'' ''o0''), EditOrganization)
       # map (\<lambda>e. (admin_view (org_at ''Renamed'' ''o1''), e)) (map EditOrgDialog proof_edits @ [SubmitOrgDialog])"

lemma organization_revision_not_of_fields:
  "op_org_sent (org_run sample_overwrite) = [(sample_authority, PatchOrganization ''Farm'' True ''o1'')]"
  by (simp add: sample_overwrite_def org_eval)

end
