(* ===== verification/StaffMembers.thy ===== *)
theory StaffMembers
  imports StaffOrganizations
begin

text \<open>
  \<open>MembersPanel\<close> and \<open>SiteScopePicker\<close> of \<open>features/operations/organizations.tsx\<close>: the staff gives and takes access to an
  organization. A member that is listed is changed in one request; somebody who has an account is first looked up by the
  address and then added, in two. The sites of a limited access are kept as one text with commas (\<open>sm_scope\<close>), which the
  picker reads and writes. \<open>sm_clicks\<close> is not in the code: it lists the submissions with what the fields showed.

  \<open>local_text\<close> and \<open>instant\<close> convert between an instant and the text of a date field; \<open>instant\<close> is \<open>None\<close> when
  \<open>toISOString\<close> throws.
\<close>

section \<open>The state\<close>

record staff_member =
  mm_id :: string
  mm_email :: string
  mm_role :: member_role
  mm_active :: bool
  mm_sites :: "string list option"
  mm_expires :: "string option"
  mm_updated_at :: string

datatype member_target = ListedMember string string | AccountOf string

record member_change =
  mc_target :: member_target
  mc_role :: member_role
  mc_active :: bool
  mc_sites :: "string list option"
  mc_expires :: "string option"

datatype staff_request =
    PatchMember authority string string member_role bool "string list option" "string option"
  | FindUsers string
  | AddMember authority string member_role "string list option" "string option"
  | InviteMember string member_role
  | CancelInvitation string

datatype stage = Finding | Writing

record staff_members =
  sm_member :: "staff_member option"
  sm_adding :: bool
  sm_role :: member_role
  sm_active :: bool
  sm_scope :: string
  sm_limited :: bool
  sm_expiry :: string
  sm_email :: string
  sm_invite_role :: member_role
  sm_notice :: string
  sm_action :: account_action
  sm_running :: "staff_request option"
  sm_dialog :: "(unit, stage \<times> authority \<times> member_change) dialogs"
  sm_clicks :: "(authority \<times> member_change) list"
  sm_sent :: "staff_request list"
  sm_refreshes :: nat

definition staff_members_start :: staff_members where
  "staff_members_start =
     \<lparr> sm_member = None, sm_adding = False, sm_role = Viewer, sm_active = True, sm_scope = [], sm_limited = False,
       sm_expiry = [], sm_email = [], sm_invite_role = Viewer, sm_notice = [], sm_action = no_action, sm_running = None,
       sm_dialog = dialogs_start, sm_clicks = [], sm_sent = [], sm_refreshes = 0 \<rparr>"

text \<open>A rendering has the rows, the invitations and the sites on the page of the picker.\<close>

record staff_members_view =
  gm_members :: "staff_member list option"
  gm_invitations :: "string list"
  gm_sites :: "string list"

datatype staff_member_event =
    TypeInviteEmail string
  | PickInviteRole member_role
  | SubmitInvite
  | AddExisting
  | ChangeAccess staff_member
  | CancelInvite string
  | OutsideSettled "exn + unit"
  | TypeAccount string
  | PickMemberRole member_role
  | SetMemberActive bool
  | SetLimited bool
  | ToggleSite string
  | TypeExpiry string
  | EditMemberDialog dialog_edit
  | CancelMember
  | SubmitMember
  | UsersFound nat "exn + (string \<times> string) list"
  | MemberSettled nat "exn + unit"

section \<open>The sites of a limited access\<close>

definition split_ids :: "string \<Rightarrow> string list" where
  "split_ids s = filter (\<lambda>i. i \<noteq> []) (map js_trim (Calendar.split_on (CHR '','') s))"

definition toggle_site :: "string \<Rightarrow> string \<Rightarrow> string" where
  "toggle_site i s =
     (let selected = split_ids s in
      js_join '','' (if i \<in> set selected then filter (\<lambda>j. j \<noteq> i) selected else selected @ [i]))"

definition limit_ticked :: "staff_members \<Rightarrow> bool" where
  "limit_ticked st = (sm_limited st \<and> sm_role st \<noteq> Owner)"

definition sm_valid :: "staff_members \<Rightarrow> bool" where
  "sm_valid st = (\<not> sm_limited st \<or> js_trim (sm_scope st) \<noteq> [])"

section \<open>The operations\<close>

definition sm_render :: "staff_members \<Rightarrow> staff_members" where
  "sm_render st = st\<lparr>sm_dialog := dialog_sync (if sm_member st \<noteq> None \<or> sm_adding st then Some () else None) (sm_dialog st)\<rparr>"

text \<open>What \<open>submitMember\<close> reads before its first request.\<close>

definition member_change_of :: "(string \<Rightarrow> string option) \<Rightarrow> staff_members \<Rightarrow> member_change option" where
  "member_change_of instant st =
     (let change = (\<lambda>expires. \<lparr> mc_target = (case sm_member st of Some m \<Rightarrow> ListedMember (mm_id m) (mm_updated_at m)
                                                          | None \<Rightarrow> AccountOf (sm_email st)),
                       mc_role = sm_role st, mc_active = sm_active st,
                       mc_sites = (if sm_limited st then Some (split_ids (sm_scope st)) else None), mc_expires = expires \<rparr>) in
      if sm_expiry st = [] then Some (change None)
      else (case instant (sm_expiry st) of None \<Rightarrow> None | Some t \<Rightarrow> Some (change (Some t))))"

definition member_click ::
  "(string \<Rightarrow> string option) \<Rightarrow> staff_members_view \<times> staff_member_event \<Rightarrow> staff_members \<Rightarrow> (authority \<times> member_change) option" where
  "member_click instant ve st =
     (if snd ve \<noteq> SubmitMember then None
      else (case (dialog_click (sm_valid st) (sm_dialog (sm_render st)), member_change_of instant st) of
              (Some a, Some c) \<Rightarrow> Some (a, c)
            | _ \<Rightarrow> None))"

definition first_request :: "authority \<Rightarrow> member_change \<Rightarrow> stage \<times> staff_request" where
  "first_request a c =
     (case mc_target c of
        ListedMember i updated \<Rightarrow> (Writing, PatchMember a i updated (mc_role c) (mc_active c) (mc_sites c) (mc_expires c))
      | AccountOf email \<Rightarrow> (Finding, FindUsers (js_trim email)))"

definition msg_invalid_time :: string where
  "msg_invalid_time = ''Invalid time value''"

definition msg_no_account :: string where
  "msg_no_account = (uk ''Korystuva^ ma# spo^atku stvoryty osobystyj oblikovyj zapys. Nadiwlit= zaprowenn@.'')"

definition msg_access_changed :: string where
  "msg_access_changed = (uk ''Dostup onovleno. Zminy zapysano do *urnalu.'')"

definition msg_invited :: string where
  "msg_invited = (uk ''Zaprowenn@ nadislano. Otrymuva^ ma# pidtverdyty powtu.'')"

definition submit_member :: "(string \<Rightarrow> string option) \<Rightarrow> staff_members_view \<Rightarrow> staff_members \<Rightarrow> staff_members" where
  "submit_member instant v st =
     (case member_click instant (v, SubmitMember) st of
        Some (a, c) \<Rightarrow>
          st\<lparr>sm_clicks := (a, c) # sm_clicks st, sm_sent := snd (first_request a c) # sm_sent st,
             sm_dialog := dialog_submitted (fst (first_request a c), a, c) (sm_dialog st)\<rparr>
      | None \<Rightarrow>
          if dialog_click (sm_valid st) (sm_dialog st) = None then st
          else st\<lparr>sm_dialog := dialog_update (dialog_failed (JsExn msg_invalid_time)) (sm_dialog st)\<rparr>)"

definition find_account :: "string \<Rightarrow> (string \<times> string) list \<Rightarrow> string option" where
  "find_account email users =
     map_option fst (List.find (\<lambda>(i, address). js_lower address = js_lower (js_trim email)) users)"

definition users_found :: "nat \<Rightarrow> exn + (string \<times> string) list \<Rightarrow> staff_members \<Rightarrow> staff_members" where
  "users_found n outcome st =
     (case dialog_running n (sm_dialog st) of
        Some (Finding, a, c) \<Rightarrow>
          (case mc_target c of
             ListedMember _ _ \<Rightarrow> st
           | AccountOf email \<Rightarrow>
               (case outcome of
                  Inl e \<Rightarrow> st\<lparr>sm_dialog := dialog_settled n (Inl e :: exn + unit) (sm_dialog st)\<rparr>
                | Inr users \<Rightarrow>
                    (case find_account email users of
                       None \<Rightarrow> st\<lparr>sm_dialog := dialog_settled n (Inl (JsExn msg_no_account) :: exn + unit) (sm_dialog st)\<rparr>
                     | Some i \<Rightarrow>
                         st\<lparr>sm_sent := AddMember a i (mc_role c) (mc_sites c) (mc_expires c) # sm_sent st,
                            sm_dialog := (sm_dialog st)\<lparr>dg_running :=
                              map (\<lambda>(m, x). if m = n then (m, Writing, a, c) else (m, x)) (dg_running (sm_dialog st))\<rparr>\<rparr>)))
      | _ \<Rightarrow> st)"

definition member_settled :: "nat \<Rightarrow> exn + unit \<Rightarrow> staff_members \<Rightarrow> staff_members" where
  "member_settled n outcome st =
     (case dialog_running n (sm_dialog st) of
        Some (Writing, a, c) \<Rightarrow>
          (let st' = st\<lparr>sm_dialog := dialog_settled n outcome (sm_dialog st)\<rparr> in
           case outcome of
             Inl _ \<Rightarrow> st'
           | Inr _ \<Rightarrow> st'\<lparr>sm_refreshes := Suc (sm_refreshes st), sm_notice := msg_access_changed, sm_member := None,
                           sm_adding := False\<rparr>)
      | _ \<Rightarrow> st)"

definition outside_run :: "staff_request \<Rightarrow> staff_members \<Rightarrow> staff_members" where
  "outside_run r st =
     (case run_action (sm_action st) of
        None \<Rightarrow> st
      | Some a \<Rightarrow> st\<lparr>sm_action := a, sm_running := Some r, sm_sent := r # sm_sent st\<rparr>)"

definition outside_settled :: "exn + unit \<Rightarrow> staff_members \<Rightarrow> staff_members" where
  "outside_settled outcome st =
     (case sm_running st of
        None \<Rightarrow> st
      | Some r \<Rightarrow>
          (let st' = st\<lparr>sm_running := None, sm_action := run_settled outcome (sm_action st)\<rparr> in
           case outcome of
             Inl _ \<Rightarrow> st'
           | Inr _ \<Rightarrow>
               (let st'' = st'\<lparr>sm_refreshes := Suc (sm_refreshes st)\<rparr> in
                case r of InviteMember _ _ \<Rightarrow> st''\<lparr>sm_email := [], sm_notice := msg_invited\<rparr> | _ \<Rightarrow> st'')))"

text \<open>The form and the rows, while no dialog is shown.\<close>

definition members_outside :: "(string \<Rightarrow> string) \<Rightarrow> staff_members_view \<Rightarrow> staff_member_event \<Rightarrow> staff_members \<Rightarrow> staff_members" where
  "members_outside local_text v e st =
     (case e of
        TypeInviteEmail s \<Rightarrow> st\<lparr>sm_email := s\<rparr>
      | PickInviteRole r \<Rightarrow> st\<lparr>sm_invite_role := r\<rparr>
      | SubmitInvite \<Rightarrow> outside_run (InviteMember (sm_email st) (sm_invite_role st)) st
      | AddExisting \<Rightarrow>
          st\<lparr>sm_member := None, sm_role := sm_invite_role st, sm_scope := [], sm_limited := False, sm_expiry := [],
             sm_adding := True\<rparr>
      | ChangeAccess m \<Rightarrow>
          if (case gm_members v of None \<Rightarrow> True | Some rows \<Rightarrow> m \<notin> set rows) then st
          else st\<lparr>sm_member := Some m, sm_role := mm_role m, sm_active := mm_active m,
                  sm_scope := (case mm_sites m of None \<Rightarrow> [] | Some ids \<Rightarrow> js_join '', '' ids),
                  sm_limited := mm_sites m \<noteq> None, sm_expiry := accessExpiryInput local_text (mm_expires m)\<rparr>
      | CancelInvite i \<Rightarrow> if i \<in> set (gm_invitations v) then outside_run (CancelInvitation i) st else st
      | _ \<Rightarrow> st)"

text \<open>The fields of the dialog.\<close>

definition members_fields :: "staff_members_view \<Rightarrow> staff_member_event \<Rightarrow> staff_members \<Rightarrow> staff_members" where
  "members_fields v e st =
     (case e of
        TypeAccount s \<Rightarrow> if sm_member st = None then st\<lparr>sm_email := s\<rparr> else st
      | PickMemberRole r \<Rightarrow>
          if r = Owner then st\<lparr>sm_role := r, sm_scope := [], sm_limited := False, sm_expiry := []\<rparr> else st\<lparr>sm_role := r\<rparr>
      | SetMemberActive b \<Rightarrow> if sm_member st = None then st else st\<lparr>sm_active := b\<rparr>
      | SetLimited b \<Rightarrow>
          if sm_role st = Owner then st
          else if b then st\<lparr>sm_limited := True\<rparr> else st\<lparr>sm_limited := False, sm_scope := []\<rparr>
      | ToggleSite i \<Rightarrow> if limit_ticked st \<and> i \<in> set (gm_sites v) then st\<lparr>sm_scope := toggle_site i (sm_scope st)\<rparr> else st
      | TypeExpiry s \<Rightarrow> st\<lparr>sm_expiry := s\<rparr>
      | _ \<Rightarrow> st)"

definition members_handle ::
  "(string \<Rightarrow> string) \<Rightarrow> (string \<Rightarrow> string option) \<Rightarrow> staff_members_view \<Rightarrow> staff_member_event \<Rightarrow> staff_members \<Rightarrow> staff_members" where
  "members_handle local_text instant v e st =
     (case e of
        OutsideSettled outcome \<Rightarrow> outside_settled outcome st
      | UsersFound n outcome \<Rightarrow> users_found n outcome st
      | MemberSettled n outcome \<Rightarrow> member_settled n outcome st
      | SubmitMember \<Rightarrow> submit_member instant v st
      | EditMemberDialog x \<Rightarrow> st\<lparr>sm_dialog := dialog_update (dialog_edited x) (sm_dialog st)\<rparr>
      | CancelMember \<Rightarrow> if dialog_open (sm_dialog st) then st\<lparr>sm_member := None, sm_adding := False\<rparr> else st
      | _ \<Rightarrow> if dg_shown (sm_dialog st) = None then members_outside local_text v e st else members_fields v e st)"

definition staff_members_step ::
  "(string \<Rightarrow> string) \<Rightarrow> (string \<Rightarrow> string option) \<Rightarrow> staff_members \<Rightarrow> staff_members_view \<times> staff_member_event \<Rightarrow> staff_members" where
  "staff_members_step local_text instant st ve = members_handle local_text instant (fst ve) (snd ve) (sm_render st)"

section \<open>The text of the sites\<close>

definition plain_id :: "string \<Rightarrow> bool" where
  "plain_id i \<longleftrightarrow> i \<noteq> [] \<and> list_all graphic i \<and> CHR '','' \<notin> set i"

lemma js_trim_Nil: "js_trim [] = []"
  by (rule js_trim_id) simp

lemma js_trim_plain: "plain_id i \<Longrightarrow> js_trim i = i"
  by (rule js_trim_id) (auto simp: plain_id_def list_all_iff)

lemma js_trim_space: "js_trim (CHR '' '' # s) = js_trim s"
proof -
  have "List.find (\<lambda>w. w \<noteq> [] \<and> starts_with w (CHR '' '' # s)) white_space = Some [CHR 0x20]"
    by (simp add: white_space_def starts_with_def)
  then have "strip white_space (CHR '' '' # s) = strip white_space s" by (subst strip.simps) simp
  then show ?thesis by (simp add: js_trim_def js_trim_start_def)
qed

lemma split_ids_Nil [simp]: "split_ids [] = []"
  by (simp add: split_ids_def js_trim_Nil)

lemma split_ids_word: "plain_id i \<Longrightarrow> split_ids i = [i]"
  by (simp add: split_ids_def split_on_word plain_id_def js_trim_plain [unfolded plain_id_def])

lemma split_ids_append: "plain_id i \<Longrightarrow> split_ids (i @ CHR '','' # s) = i # split_ids s"
  by (simp add: split_ids_def split_on_append plain_id_def js_trim_plain [unfolded plain_id_def])

lemma split_ids_space: "split_ids (CHR '' '' # s) = split_ids s"
  by (cases "Calendar.split_on (CHR '','') s") (simp_all add: split_ids_def js_trim_space js_trim_Nil)

lemma split_ids_join:
  assumes "list_all plain_id ids"
  shows "split_ids (js_join '','' ids) = ids" and "split_ids (js_join '', '' ids) = ids"
  using assms
  by (induction ids rule: induct_list012) (simp_all add: split_ids_word split_ids_append split_ids_space)

definition scope_ok :: "string \<Rightarrow> bool" where
  "scope_ok s \<longleftrightarrow> list_all plain_id (split_ids s) \<and> (s = js_join '','' (split_ids s) \<or> s = js_join '', '' (split_ids s))"

lemma scope_ok_join: "list_all plain_id ids \<Longrightarrow> scope_ok (js_join '','' ids) \<and> scope_ok (js_join '', '' ids)"
  by (simp add: scope_ok_def split_ids_join)

lemma scope_ok_Nil [simp]: "scope_ok []"
  by (simp add: scope_ok_def)

lemma scope_ok_toggle: "scope_ok s \<Longrightarrow> plain_id i \<Longrightarrow> scope_ok (toggle_site i s)"
  unfolding toggle_site_def Let_def by (intro conjunct1 [OF scope_ok_join]) (auto simp: scope_ok_def list_all_iff)

lemma scope_chosen: "scope_ok s \<Longrightarrow> js_trim s \<noteq> [] \<Longrightarrow> split_ids s \<noteq> []"
  by (auto simp: scope_ok_def js_trim_Nil)

lemma toggle_site_set:
  "scope_ok s \<Longrightarrow> plain_id i \<Longrightarrow>
   set (split_ids (toggle_site i s)) = (if i \<in> set (split_ids s) then set (split_ids s) - {i} else insert i (set (split_ids s)))"
  by (auto simp: toggle_site_def Let_def scope_ok_def list_all_iff split_ids_join)

section \<open>What the members' access becomes\<close>

text \<open>Documented facts of the rows: identifiers are plain words, and an owner is not limited.\<close>

definition rows_ok :: "staff_members_view \<Rightarrow> bool" where
  "rows_ok v \<longleftrightarrow> list_all plain_id (gm_sites v)
     \<and> (\<forall>rows m. gm_members v = Some rows \<longrightarrow> m \<in> set rows \<longrightarrow>
          (mm_role m = Owner \<longrightarrow> mm_sites m = None) \<and> (\<forall>ids. mm_sites m = Some ids \<longrightarrow> list_all plain_id ids))"

definition change_ok :: "authority \<times> member_change \<Rightarrow> bool" where
  "change_ok r \<longleftrightarrow> wf_authority (fst r) \<and> (mc_role (snd r) = Owner \<longrightarrow> mc_sites (snd r) = None)
     \<and> (\<forall>ids. mc_sites (snd r) = Some ids \<longrightarrow> ids \<noteq> [])"

text \<open>The access that a request gives.\<close>

fun granted :: "staff_request \<Rightarrow> (authority \<times> member_role \<times> string list option \<times> string option) option" where
  "granted (PatchMember a i updated role active sites expires) = Some (a, role, sites, expires)"
| "granted (AddMember a i role sites expires) = Some (a, role, sites, expires)"
| "granted _ = None"

definition clicked_access :: "staff_members \<Rightarrow> (authority \<times> member_role \<times> string list option \<times> string option) set" where
  "clicked_access st = (\<lambda>(a, c). (a, mc_role c, mc_sites c, mc_expires c)) ` set (sm_clicks st)"

definition staff_inv :: "staff_members \<Rightarrow> bool" where
  "staff_inv st \<longleftrightarrow> (sm_role st = Owner \<longrightarrow> \<not> sm_limited st) \<and> scope_ok (sm_scope st)"

definition sent_inv :: "staff_members \<Rightarrow> bool" where
  "sent_inv st \<longleftrightarrow> (\<forall>n s a c. (n, s, a, c) \<in> set (dg_running (sm_dialog st)) \<longrightarrow> (a, c) \<in> set (sm_clicks st))
     \<and> (\<forall>r \<in> set (sm_sent st). \<forall>x. granted r = Some x \<longrightarrow> x \<in> clicked_access st)"

lemma running_unchanged [simp]:
  "dg_running (dialog_sync key g) = dg_running g" "dg_running (dialog_update f g) = dg_running g"
  by (auto simp: dialog_sync_def dialog_update_def split: option.split)

lemma running_settled: "x \<in> set (dg_running (dialog_settled n outcome g)) \<Longrightarrow> x \<in> set (dg_running g)"
  by (auto simp: dialog_settled_def Let_def split: option.splits if_splits)

lemma running_submitted: "x \<in> set (dg_running (dialog_submitted c g)) \<Longrightarrow> x \<in> set (dg_running g) \<or> snd x = c"
  by (auto simp: dialog_submitted_def split: option.splits)

lemma staff_outside_inv: "staff_inv st \<Longrightarrow> rows_ok v \<Longrightarrow> staff_inv (members_outside local_text v e st)"
  using scope_ok_join
  by (cases e) (auto simp: staff_inv_def members_outside_def rows_ok_def outside_run_def split: option.splits)

lemma staff_fields_inv: "staff_inv st \<Longrightarrow> rows_ok v \<Longrightarrow> staff_inv (members_fields v e st)"
  by (cases e) (auto simp: staff_inv_def members_fields_def rows_ok_def limit_ticked_def list_all_iff intro: scope_ok_toggle)

lemma submit_fields [simp]:
  "sm_role (submit_member instant v st) = sm_role st" "sm_limited (submit_member instant v st) = sm_limited st"
  "sm_scope (submit_member instant v st) = sm_scope st"
  by (auto simp: submit_member_def split: option.split)

lemma users_found_fields [simp]:
  "sm_role (users_found n x st) = sm_role st" "sm_limited (users_found n x st) = sm_limited st"
  "sm_scope (users_found n x st) = sm_scope st" "sm_clicks (users_found n x st) = sm_clicks st"
  by (auto simp: users_found_def split: option.split stage.split member_target.split sum.split)

lemma settled_fields [simp]:
  "sm_role (member_settled n y st) = sm_role st" "sm_limited (member_settled n y st) = sm_limited st"
  "sm_scope (member_settled n y st) = sm_scope st" "sm_clicks (member_settled n y st) = sm_clicks st"
  "sm_role (outside_settled y st) = sm_role st" "sm_limited (outside_settled y st) = sm_limited st"
  "sm_scope (outside_settled y st) = sm_scope st" "sm_clicks (outside_settled y st) = sm_clicks st"
  by (auto simp: member_settled_def outside_settled_def Let_def split: option.split stage.split staff_request.split sum.split)

lemma staff_step_inv:
  assumes "staff_inv st" and "rows_ok (fst ve)"
  shows "staff_inv (staff_members_step local_text instant st ve)"
proof -
  obtain v e where ve: "ve = (v, e)" by (cases ve)
  have "staff_inv (sm_render st)" using assms(1) by (simp add: staff_inv_def sm_render_def)
  with staff_outside_inv [of "sm_render st" v] staff_fields_inv [of "sm_render st" v] assms(2) show ?thesis
    by (cases e) (simp_all add: ve staff_members_step_def members_handle_def, simp_all add: staff_inv_def)
qed

lemma sm_render_simps [simp]:
  "sm_member (sm_render st) = sm_member st" "sm_role (sm_render st) = sm_role st" "sm_active (sm_render st) = sm_active st"
  "sm_scope (sm_render st) = sm_scope st" "sm_limited (sm_render st) = sm_limited st" "sm_expiry (sm_render st) = sm_expiry st"
  "sm_email (sm_render st) = sm_email st" "sm_clicks (sm_render st) = sm_clicks st" "sm_sent (sm_render st) = sm_sent st"
  "sm_render (sm_render st) = sm_render st"
  by (simp_all add: sm_render_def)

lemma member_click_render [simp]: "member_click instant ve (sm_render st) = member_click instant ve st"
proof -
  have "member_change_of instant (sm_render st) = member_change_of instant st" "sm_valid (sm_render st) = sm_valid st"
    by (simp_all add: member_change_of_def sm_valid_def cong: option.case_cong)
  then show ?thesis by (simp add: member_click_def)
qed

lemma member_change_fields:
  "member_change_of instant st = Some c \<Longrightarrow>
     mc_role c = sm_role st \<and> mc_sites c = (if sm_limited st then Some (split_ids (sm_scope st)) else None)"
  by (auto simp: member_change_of_def Let_def split: if_splits option.splits)

lemma member_clickD:
  assumes "member_click instant (v, e) st = Some (a, c)"
  shows "e = SubmitMember \<and> wf_authority a \<and> sm_valid st \<and> member_change_of instant st = Some c"
  using assms by (auto simp: member_click_def dest: dialog_clickD split: if_splits option.splits)

lemma members_handle_clicks:
  "sm_clicks (members_handle local_text instant v e st)
     = (case member_click instant (v, e) st of None \<Rightarrow> sm_clicks st | Some r \<Rightarrow> r # sm_clicks st)"
proof (cases "e = SubmitMember")
  case True
  then show ?thesis by (cases "member_click instant (v, e) st") (auto simp: members_handle_def submit_member_def)
next
  case False
  then have "member_click instant (v, e) st = None" by (simp add: member_click_def)
  with False show ?thesis
    by (cases e) (auto simp: members_handle_def members_outside_def members_fields_def outside_run_def split: option.split)
qed

lemma members_step_clicks:
  "sm_clicks (staff_members_step local_text instant st ve)
     = (case member_click instant ve st of None \<Rightarrow> sm_clicks st | Some r \<Rightarrow> r # sm_clicks st)"
  by (cases ve) (simp add: staff_members_step_def members_handle_clicks cong: option.case_cong)

interpretation member_clicks: request_log "staff_members_step local_text instant" "member_click instant" sm_clicks
  for local_text instant
  by unfold_locales (rule members_step_clicks)

lemma sent_inv_mono:
  assumes "sent_inv st" and "set (sm_clicks st) \<subseteq> set (sm_clicks st')"
    and "\<And>n s a c. (n, s, a, c) \<in> set (dg_running (sm_dialog st')) \<Longrightarrow>
      (\<exists>s. (n, s, a, c) \<in> set (dg_running (sm_dialog st))) \<or> (a, c) \<in> set (sm_clicks st')"
    and "\<And>r x. r \<in> set (sm_sent st') \<Longrightarrow> granted r = Some x \<Longrightarrow> r \<in> set (sm_sent st) \<or> x \<in> clicked_access st'"
  shows "sent_inv st'"
proof -
  have "clicked_access st \<subseteq> clicked_access st'" using assms(2) by (auto simp: clicked_access_def)
  with assms show ?thesis unfolding sent_inv_def by (meson subsetD)
qed

lemma outside_run_sent:
  "granted r = None \<Longrightarrow> sent_inv st \<Longrightarrow> sent_inv (outside_run r st)"
  by (rule sent_inv_mono) (auto simp: outside_run_def split: option.splits)

lemma members_outside_sent: "sent_inv st \<Longrightarrow> sent_inv (members_outside local_text v e st)"
  by (cases e) (auto simp: members_outside_def outside_run_sent, auto simp: sent_inv_def clicked_access_def)

lemma members_fields_sent: "sent_inv st \<Longrightarrow> sent_inv (members_fields v e st)"
  by (cases e) (auto simp: members_fields_def sent_inv_def clicked_access_def)

lemma clicked_here: "(a, c) \<in> set (sm_clicks st) \<Longrightarrow> (a, mc_role c, mc_sites c, mc_expires c) \<in> clicked_access st"
  by (force simp: clicked_access_def)

lemma submit_member_sent: "sent_inv st \<Longrightarrow> sent_inv (submit_member instant v st)"
  by (rule sent_inv_mono) (auto simp: submit_member_def first_request_def clicked_access_def dest!: running_submitted
      split: option.splits if_splits member_target.splits)

lemma running_in: "dialog_running n g = Some x \<Longrightarrow> (n, x) \<in> set (dg_running g)"
  by (simp add: dialog_running_def map_of_SomeD)

lemma users_found_sent:
  assumes "sent_inv st"
  shows "sent_inv (users_found n outcome st)"
proof (cases "\<exists>a c. dialog_running n (sm_dialog st) = Some (Finding, a, c)")
  case True
  then obtain a c where r: "dialog_running n (sm_dialog st) = Some (Finding, a, c)" by blast
  have clicked: "(a, c) \<in> set (sm_clicks st)" using assms running_in [OF r] by (auto simp: sent_inv_def)
  show ?thesis
    by (rule sent_inv_mono [OF assms])
      (auto simp: r users_found_def clicked dest: running_settled
        split: member_target.splits sum.splits option.splits if_splits intro!: clicked_here)
next
  case False
  then have "users_found n outcome st = st" by (auto simp: users_found_def split: option.split stage.split)
  with assms show ?thesis by simp
qed

lemma settled_sent: "sent_inv st \<Longrightarrow> sent_inv (member_settled n outcome st) \<and> sent_inv (outside_settled outcome st)"
  by (intro conjI; rule sent_inv_mono) (auto simp: member_settled_def outside_settled_def Let_def dest!: running_settled
      split: option.splits stage.splits sum.splits staff_request.splits)

lemma sent_inv_other:
  "sent_inv st \<Longrightarrow> sent_inv (st\<lparr>sm_dialog := dialog_update f (sm_dialog st)\<rparr>)"
  "sent_inv st \<Longrightarrow> sent_inv (st\<lparr>sm_member := m, sm_adding := b\<rparr>)"
  by (simp_all add: sent_inv_def clicked_access_def)

lemma members_handle_sent: "sent_inv st \<Longrightarrow> sent_inv (members_handle local_text instant v e st)"
  by (cases e) (simp_all add: members_handle_def members_outside_sent members_fields_sent submit_member_sent users_found_sent
      settled_sent sent_inv_other)

lemma members_step_sent:
  assumes "sent_inv st"
  shows "sent_inv (staff_members_step local_text instant st ve)"
proof -
  have "sent_inv (sm_render st)" using assms by (simp add: sent_inv_def sm_render_def clicked_access_def)
  then show ?thesis by (simp add: staff_members_step_def members_handle_sent)
qed

abbreviation staff_members_run where
  "staff_members_run local_text instant es \<equiv> foldl (staff_members_step local_text instant) staff_members_start es"

lemma staff_inv_run:
  assumes "list_all (\<lambda>ve. rows_ok (fst ve)) es"
  shows "staff_inv (staff_members_run local_text instant es)"
proof (rule run_invariant [where ok = "\<lambda>_ ve. rows_ok (fst ve)"])
  show "staff_inv staff_members_start" by (simp add: staff_inv_def staff_members_start_def)
  have "along (\<lambda>_ ve. rows_ok (fst ve)) (staff_members_step local_text instant) st es" for st
    using assms by (induction es arbitrary: st) auto
  then show "along (\<lambda>_ ve. rows_ok (fst ve)) (staff_members_step local_text instant) staff_members_start es" .
qed (rule staff_step_inv)


section \<open>Example\<close>

definition sample_members_view :: staff_members_view where
  "sample_members_view =
     \<lparr> gm_members = Some [\<lparr> mm_id = ''m1'', mm_email = ''a@b.c'', mm_role = Viewer, mm_active = True, mm_sites = None,
         mm_expires = None, mm_updated_at = ''t0'' \<rparr>], gm_invitations = [], gm_sites = [''s1'', ''s2''] \<rparr>"

definition sample_grant :: "(staff_members_view \<times> staff_member_event) list" where
  "sample_grant = map (\<lambda>e. (sample_members_view, e))
     ([AddExisting, TypeAccount ''a@b.c'', PickMemberRole Service, SetLimited True, ToggleSite ''s2'']
       @ map EditMemberDialog proof_edits @ [SubmitMember, UsersFound 0 (Inr [(''u7'', ''A@b.c'')])])"

lemma sample_grant_sent:
  "sm_sent (staff_members_run (\<lambda>s. s) Some sample_grant)
     = [AddMember sample_authority ''u7'' Service (Some [''s2'']) None, FindUsers ''a@b.c'']"
  by code_simp

lemma sample_grant_rows: "list_all (\<lambda>ve. rows_ok (fst ve)) sample_grant"
proof -
  have "rows_ok sample_members_view"
    by (simp add: rows_ok_def sample_members_view_def plain_id_def graphic_def)
  then show ?thesis by (simp add: sample_grant_def proof_edits_def)
qed


end
