(* ===== verification/StaffObservability.thy ===== *)
theory StaffObservability
  imports StaffConsole
begin

text \<open>
  The panels of the staff console that only watch (\<open>operations/observability.tsx\<close>): the devices with their search, the audit
  journal with its filters and export, and the words for the state of the services. The rows come from the query of the
  rendering; \<open>au_exported\<close> (the pages written to a file) is not in the code.
\<close>

section \<open>Devices\<close>

record devices_panel =
  dv_search :: string
  dv_query :: string
  dv_offset :: nat
  dv_offline :: bool

definition devices_start :: devices_panel where
  "devices_start = \<lparr> dv_search = [], dv_query = [], dv_offset = 0, dv_offline = False \<rparr>"

record staff_query =
  sq_path :: string
  sq_words :: "(string \<times> string) list"
  sq_flags :: "(string \<times> bool) list"
  sq_limit :: nat
  sq_offset :: nat

definition devices_query :: "devices_panel \<Rightarrow> staff_query" where
  "devices_query st =
     \<lparr> sq_path = ''/api/v1/staff/devices'', sq_words = [(''q'', dv_query st)], sq_flags = [(''offline_only'', dv_offline st)],
       sq_limit = 25, sq_offset = dv_offset st \<rparr>"

datatype devices_event = TypeSearch string | SubmitSearch | TickOffline bool | PreviousDevices | NextDevices

text \<open>The view is the rows of the current query, when they are there.\<close>

definition devices_step :: "devices_panel \<Rightarrow> json list option \<times> devices_event \<Rightarrow> devices_panel" where
  "devices_step st ve =
     (case snd ve of
        TypeSearch s \<Rightarrow> st\<lparr>dv_search := s\<rparr>
      | SubmitSearch \<Rightarrow> st\<lparr>dv_query := js_trim (dv_search st), dv_offset := 0\<rparr>
      | TickOffline b \<Rightarrow> st\<lparr>dv_offline := b, dv_offset := 0\<rparr>
      | PreviousDevices \<Rightarrow>
          (case fst ve of None \<Rightarrow> st | Some rows \<Rightarrow> st\<lparr>dv_offset := pager_previous 25 (dv_offset st)\<rparr>)
      | NextDevices \<Rightarrow>
          (case fst ve of None \<Rightarrow> st | Some rows \<Rightarrow> st\<lparr>dv_offset := pager_next 25 (length rows) (dv_offset st)\<rparr>))"

section \<open>The audit journal\<close>

definition audit_actions :: "(string \<times> string) list" where
  "audit_actions =
     [(''user.updated'', (uk ''Zmineno oblikovyj zapys'')),
      (''user.security_reset'', (uk ''Skynuto zaxyst'')),
      (''user.sessions_revoked'', (uk ''Zaverweno sesi~'')),
      (''organization.updated'', (uk ''Zmineno orhanizaci$'')),
      (''organization.deleted'', (uk ''Vydaleno orhanizaci$'')),
      (''site.updated'', (uk ''Zmineno ob|#kt'')),
      (''site.deleted'', (uk ''Vydaleno ob|#kt'')),
      (''membership.created'', (uk ''Nadano dostup do orhanizaci~'')),
      (''membership.updated'', (uk ''Zmineno dostup u^asnyka'')),
      (''demo.accounts_reset'', (uk ''O^yqeno pryklady ta zaxyst''))]"

text \<open>The lookup \<open>actions[row.action]\<close> also finds what every object inherits, which is not a text: \<open>None\<close>.\<close>

definition inherited_names :: "string list" where
  "inherited_names =
     [''constructor'', ''__defineGetter__'', ''__defineSetter__'', ''hasOwnProperty'', ''__lookupGetter__'',
      ''__lookupSetter__'', ''isPrototypeOf'', ''propertyIsEnumerable'', ''toString'', ''valueOf'', ''__proto__'',
      ''toLocaleString'']"

record audit_row =
  ar_action :: string
  ar_status :: int
  ar_details :: json

definition actionLabel :: "audit_row \<Rightarrow> string option" where
  "actionLabel row =
     (case map_of audit_actions (ar_action row) of
        Some t \<Rightarrow> Some t
      | None \<Rightarrow>
          if ar_action row \<in> set inherited_names then None
          else (let r = fld (ar_details row) ''route''; route = (if is_string r then str_of r else []) in
            Some (
              if ends_with ''/login'' route then (if 400 \<le> ar_status row then (uk ''Nevdalyj vxid'') else (uk ''Vxid do kabinetu''))
              else if ends_with ''/logout'' route then (uk ''Vyxid iz kabinetu'')
              else if ends_with ''/recover'' route then (uk ''Vidnovlenn@ dostupu'')
              else if js_includes route ''factory'' then (uk ''Operaci@ zavods=koho re#stru'')
              else if js_includes route ''commands'' then (uk ''Komanda obladnann$'')
              else if js_includes route ''schedules'' then (uk ''Zmina rozkladu'')
              else (uk ''Zapyt do platformy''))))"

definition audit_outcome :: "audit_row \<Rightarrow> string \<times> string" where
  "audit_outcome row = (if 400 \<le> ar_status row then (''warning'', (uk ''Ne vykonano'')) else (''success'', (uk ''Vykonano'')))"

record audit_panel =
  au_action :: string
  au_failed :: bool
  au_offset :: nat
  au_exported :: "audit_row list list"

definition audit_start :: audit_panel where
  "audit_start = \<lparr> au_action = [], au_failed = False, au_offset = 0, au_exported = [] \<rparr>"

definition audit_query :: "audit_panel \<Rightarrow> staff_query" where
  "audit_query st =
     \<lparr> sq_path = ''/api/v1/staff/audit'', sq_words = [(''action'', au_action st)], sq_flags = [(''failed_only'', au_failed st)],
       sq_limit = 50, sq_offset = au_offset st \<rparr>"

datatype audit_event = ChooseAction string | TickFailed bool | ExportRows | PreviousRows | NextRows

definition audit_step :: "audit_panel \<Rightarrow> audit_row list option \<times> audit_event \<Rightarrow> audit_panel" where
  "audit_step st ve =
     (case snd ve of
        ChooseAction s \<Rightarrow> st\<lparr>au_action := s, au_offset := 0\<rparr>
      | TickFailed b \<Rightarrow> st\<lparr>au_failed := b, au_offset := 0\<rparr>
      | ExportRows \<Rightarrow>
          (case fst ve of None \<Rightarrow> st | Some rows \<Rightarrow> if rows = [] then st else st\<lparr>au_exported := rows # au_exported st\<rparr>)
      | PreviousRows \<Rightarrow>
          (case fst ve of None \<Rightarrow> st | Some rows \<Rightarrow> st\<lparr>au_offset := pager_previous 50 (au_offset st)\<rparr>)
      | NextRows \<Rightarrow>
          (case fst ve of None \<Rightarrow> st | Some rows \<Rightarrow> st\<lparr>au_offset := pager_next 50 (length rows) (au_offset st)\<rparr>))"

section \<open>The services\<close>

text \<open>The connection to the broker: confirmed only by an answering worker that says so. \<open>available\<close> and \<open>mqtt\<close> are fields
  of \<open>worker\<close>.\<close>

definition broker_connected :: "json \<Rightarrow> bool" where
  "broker_connected worker =
     (truthy (fld worker ''available'') \<and> is_js_object (fld worker ''mqtt'') \<and> truthy (fld (fld worker ''mqtt'') ''connected''))"

section \<open>Facts\<close>

text \<open>The panels read whole pages: the offset is a multiple of the page, and every change of what is looked for starts at
  the first page.\<close>

lemma pager_dvd: "sz dvd offset \<Longrightarrow> sz dvd pager_previous sz offset" "sz dvd offset \<Longrightarrow> sz dvd pager_next sz len offset"
  by (auto simp: pager_previous_def pager_next_def dvd_diff_nat)

lemma devices_pages:
  "25 dvd dv_offset (foldl devices_step devices_start es)"
  "sq_words (devices_query (devices_step st ve)) \<noteq> sq_words (devices_query st)
     \<or> sq_flags (devices_query (devices_step st ve)) \<noteq> sq_flags (devices_query st)
   \<Longrightarrow> sq_offset (devices_query (devices_step st ve)) = 0"
proof -
  show "25 dvd dv_offset (foldl devices_step devices_start es)"
    by (rule run_invariant_all)
      (auto simp: devices_start_def devices_step_def pager_dvd split: devices_event.split option.split)
qed (auto simp: devices_query_def devices_step_def split: devices_event.splits option.splits)

lemma audit_pages:
  "50 dvd au_offset (foldl audit_step audit_start es)"
  "sq_words (audit_query (audit_step st ve)) \<noteq> sq_words (audit_query st)
     \<or> sq_flags (audit_query (audit_step st ve)) \<noteq> sq_flags (audit_query st)
   \<Longrightarrow> sq_offset (audit_query (audit_step st ve)) = 0"
proof -
  show "50 dvd au_offset (foldl audit_step audit_start es)"
    by (rule run_invariant_all)
      (auto simp: audit_start_def audit_step_def pager_dvd split: audit_event.split option.split)
qed (auto simp: audit_query_def audit_step_def split: audit_event.splits option.splits)

text \<open>What is exported is a page that was shown, and not an empty one.\<close>

lemma exported_shown:
  assumes "rows \<in> set (au_exported (foldl audit_step audit_start es))"
  shows "(Some rows, ExportRows) \<in> set es \<and> rows \<noteq> []"
  using assms
  by (induction es rule: rev_induct)
    (auto simp: audit_start_def audit_step_def split: audit_event.splits option.splits if_splits)

text \<open>A login that failed is called so.\<close>

lemma failed_login_named:
  assumes "ar_action row \<notin> fst ` set audit_actions" "ar_action row \<notin> set inherited_names"
    and "fld (ar_details row) ''route'' = JStr r" "ends_with ''/login'' r"
  shows "actionLabel row = Some (if 400 \<le> ar_status row then (uk ''Nevdalyj vxid'') else (uk ''Vxid do kabinetu''))"
proof -
  have "map_of audit_actions (ar_action row) = None" using assms(1) by (simp add: map_of_eq_None_iff)
  then show ?thesis using assms(2-4) by (simp add: actionLabel_def Let_def)
qed

end
