(* ===== verification/StaffInvitation.thy ===== *)
theory StaffInvitation
  imports AccountAction AuthSession
begin

text \<open>
  The page of an invitation in the staff portal (\<open>StaffInvitationWithToken\<close> in \<open>features/invitation.tsx\<close>): a technician signs
  in, sees what the invitation gives, and accepts it. \<open>StatusSeen\<close> is the effect that runs when the session's status
  changes: it aborts the inspection under way and starts one of its own; an answer to an aborted one is dropped. The
  events carry the session of the rendering. \<open>si_sent\<close> is not in the code.
\<close>

section \<open>The page\<close>

definition token_char :: "char \<Rightarrow> bool" where
  "token_char c = (c \<in> set ''ABCDEFGHIJKLMNOPQRSTUVWXYZabcdefghijklmnopqrstuvwxyz0123456789_-'')"

text \<open>\<open>/^[0-9a-f]{32}\.[A-Za-z0-9_-]{43}$/u\<close>\<close>

definition valid_token :: "string \<Rightarrow> bool" where
  "valid_token s = match_classes (replicate 32 is_hex_lower @ [\<lambda>c. c = CHR ''.''] @ replicate 43 token_char) s"

datatype staff_invitation_request =
    StaffSignIn string string string
  | StaffAccept string
  | InspectInvitation nat string

record staff_invitation =
  si_preview :: "json option"
  si_link_error :: string
  si_email :: string
  si_password :: string
  si_otp :: string
  si_accepted :: bool
  si_action :: account_action
  si_running :: "staff_invitation_request option"
  si_inspection :: "nat option"
  si_inspections :: nat
  si_retries :: nat
  si_sent :: "staff_invitation_request list"

definition staff_invitation_start :: staff_invitation where
  "staff_invitation_start =
     \<lparr> si_preview = None, si_link_error = [], si_email = [], si_password = [], si_otp = [], si_accepted = False,
       si_action = no_action, si_running = None, si_inspection = None, si_inspections = 0, si_retries = 0, si_sent = [] \<rparr>"

fun is_authenticated :: "session \<Rightarrow> bool" where
  "is_authenticated (Authenticated _) = True"
| "is_authenticated _ = False"

fun is_waiting :: "session \<Rightarrow> bool" where
  "is_waiting (Restoring _) = True"
| "is_waiting (LoggingOut _ _) = True"
| "is_waiting _ = False"

datatype invitation_panel = OpenFullLink | InvalidLink | CheckingSession | SignInForm | AcceptedNote | LinkFailed | CheckingLink | OfferPanel

text \<open>Which branch of the page is rendered.\<close>

definition invitation_panel_of :: "string \<Rightarrow> session \<Rightarrow> staff_invitation \<Rightarrow> invitation_panel" where
  "invitation_panel_of token s st =
     (if token = [] then OpenFullLink
      else if \<not> valid_token token then InvalidLink
      else if is_waiting s then CheckingSession
      else if \<not> is_authenticated s then SignInForm
      else if si_accepted st then AcceptedNote
      else if si_link_error st \<noteq> [] then LinkFailed
      else if si_preview st = None then CheckingLink
      else OfferPanel)"

definition status_seen :: "string \<Rightarrow> session \<Rightarrow> staff_invitation \<Rightarrow> staff_invitation" where
  "status_seen token s st =
     (if \<not> valid_token token \<or> \<not> is_authenticated s then st\<lparr>si_inspection := None\<rparr>
      else (let n = si_inspections st in
            st\<lparr>si_inspection := Some n, si_inspections := Suc n, si_preview := None, si_link_error := [],
               si_sent := InspectInvitation n token # si_sent st\<rparr>))"

definition inspected :: "nat \<Rightarrow> exn + json \<Rightarrow> staff_invitation \<Rightarrow> staff_invitation" where
  "inspected n outcome st =
     (if si_inspection st \<noteq> Some n then st
      else (case outcome of
              Inl e \<Rightarrow> st\<lparr>si_link_error := apiErrorDisplayMessage e\<rparr>
            | Inr p \<Rightarrow> st\<lparr>si_preview := Some p\<rparr>))"

definition run_staff :: "staff_invitation_request \<Rightarrow> staff_invitation \<Rightarrow> staff_invitation" where
  "run_staff r st =
     (case run_action (si_action st) of
        None \<Rightarrow> st
      | Some a \<Rightarrow> st\<lparr>si_action := a, si_running := Some r, si_sent := r # si_sent st\<rparr>)"

definition staff_settled :: "exn + unit \<Rightarrow> staff_invitation \<Rightarrow> staff_invitation" where
  "staff_settled outcome st =
     (case si_running st of
        None \<Rightarrow> st
      | Some r \<Rightarrow>
          (let st1 = st\<lparr>si_action := run_settled outcome (si_action st), si_running := None\<rparr> in
           case (outcome, r) of
             (Inr _, StaffSignIn _ _ _) \<Rightarrow> st1\<lparr>si_password := [], si_otp := []\<rparr>
           | (Inr _, StaffAccept _) \<Rightarrow> st1\<lparr>si_accepted := True, si_retries := Suc (si_retries st)\<rparr>
           | _ \<Rightarrow> st1))"

datatype staff_invitation_event =
    StatusSeen
  | StaffInspected nat "exn + json"
  | StaffEmail string
  | StaffPassword string
  | StaffOtp string
  | StaffSubmit
  | AcceptOffer
  | StaffSettled "exn + unit"

definition staff_invitation_step :: "string \<Rightarrow> staff_invitation \<Rightarrow> session \<times> staff_invitation_event \<Rightarrow> staff_invitation" where
  "staff_invitation_step token st se =
     (let panel = invitation_panel_of token (fst se) st; form = (panel = SignInForm); busy = aa_busy (si_action st) in
      case snd se of
        StatusSeen \<Rightarrow> status_seen token (fst se) st
      | StaffInspected n outcome \<Rightarrow> inspected n outcome st
      | StaffEmail s \<Rightarrow> if form then st\<lparr>si_email := s\<rparr> else st
      | StaffPassword s \<Rightarrow> if form then st\<lparr>si_password := s\<rparr> else st
      | StaffOtp s \<Rightarrow> if form then st\<lparr>si_otp := s\<rparr> else st
      | StaffSubmit \<Rightarrow>
          if form \<and> \<not> busy then run_staff (StaffSignIn (js_lower (js_trim (si_email st))) (si_password st) (si_otp st)) st else st
      | AcceptOffer \<Rightarrow> if panel = OfferPanel \<and> \<not> busy then run_staff (StaffAccept token) st else st
      | StaffSettled outcome \<Rightarrow> staff_settled outcome st)"

section \<open>What is accepted\<close>

lemmas invitation_defs = staff_invitation_step_def status_seen_def inspected_def run_staff_def staff_settled_def

text \<open>An offer that is shown was the answer of the server after the last change of the session's status.\<close>

definition offered_since :: "(session \<times> staff_invitation_event) list \<Rightarrow> json \<Rightarrow> bool" where
  "offered_since es p \<longleftrightarrow> (\<exists>ys s n zs. es = ys @ (s, StaffInspected n (Inr p)) # zs \<and> (\<forall>z \<in> set zs. \<not> (snd z = StatusSeen \<and> is_authenticated (fst z))))"

lemma offered_since_snoc:
  "offered_since es p \<Longrightarrow> \<not> (snd e = StatusSeen \<and> is_authenticated (fst e)) \<Longrightarrow> offered_since (es @ [e]) p"
  unfolding offered_since_def by fastforce

lemma offered_since_now: "offered_since (es @ [(s, StaffInspected n (Inr p))]) p"
  unfolding offered_since_def by (intro exI [of _ es] exI [of _ s] exI [of _ n] exI [of _ "[]"]) simp

lemma step_preview:
  assumes "si_preview (staff_invitation_step token st e) = Some p"
  shows "(si_preview st = Some p \<and> \<not> (snd e = StatusSeen \<and> is_authenticated (fst e) \<and> valid_token token))
    \<or> (\<exists>n. snd e = StaffInspected n (Inr p))"
  using assms
  by (cases "snd e") (auto simp: invitation_defs Let_def run_action_def split: if_splits option.splits sum.splits
      prod.splits staff_invitation_request.splits)

lemma preview_offered:
  assumes "valid_token token" "si_preview (foldl (staff_invitation_step token) staff_invitation_start es) = Some p"
  shows "offered_since es p"
  using assms(2)
proof (induction es rule: rev_induct)
  case Nil
  then show ?case by (simp add: staff_invitation_start_def)
next
  case (snoc e es)
  let ?st = "foldl (staff_invitation_step token) staff_invitation_start es"
  from snoc.prems have "si_preview (staff_invitation_step token ?st e) = Some p" by simp
  from step_preview [OF this] show ?case
  proof
    assume "si_preview ?st = Some p \<and> \<not> (snd e = StatusSeen \<and> is_authenticated (fst e) \<and> valid_token token)"
    with snoc.IH assms(1) show ?thesis by (intro offered_since_snoc) auto
  next
    assume "\<exists>n. snd e = StaffInspected n (Inr p)"
    then show ?thesis using offered_since_now by (cases e) auto
  qed
qed

definition invitation_request_of :: "string \<Rightarrow> session \<times> staff_invitation_event \<Rightarrow> staff_invitation \<Rightarrow> staff_invitation_request option" where
  "invitation_request_of token se st =
     (let free = (\<not> aa_busy (si_action st) \<and> \<not> aa_pending (si_action st)); panel = invitation_panel_of token (fst se) st in
      case snd se of
        StatusSeen \<Rightarrow> if valid_token token \<and> is_authenticated (fst se) then Some (InspectInvitation (si_inspections st) token) else None
      | StaffSubmit \<Rightarrow>
          if panel = SignInForm \<and> free then Some (StaffSignIn (js_lower (js_trim (si_email st))) (si_password st) (si_otp st)) else None
      | AcceptOffer \<Rightarrow> if panel = OfferPanel \<and> free then Some (StaffAccept token) else None
      | _ \<Rightarrow> None)"

interpretation staff_invitation_log: request_log "staff_invitation_step token" "invitation_request_of token" si_sent
proof unfold_locales
  fix st :: staff_invitation and e :: "session \<times> staff_invitation_event"
  show "si_sent (staff_invitation_step token st e)
      = (case invitation_request_of token e st of None \<Rightarrow> si_sent st | Some r \<Rightarrow> r # si_sent st)"
    by (cases "snd e") (auto simp: invitation_defs invitation_request_of_def Let_def run_action_def
        split: option.split sum.split prod.split staff_invitation_request.split)
qed

text \<open>A technician accepts only an offer that was seen: in every run of the page, each acceptance sent carries the token
  of the link, which has the form of a token, and was made by the button in an authenticated session while the page
  showed what the server had answered about this link, and that answer came after the last time the session became
  authenticated, so it is not what another account was shown.\<close>

theorem staff_offer_accepted_as_seen:
  assumes "StaffAccept t \<in> set (si_sent (foldl (staff_invitation_step token) staff_invitation_start es))"
  shows "t = token \<and> valid_token token \<and> (\<exists>xs s zs p. es = xs @ (s, AcceptOffer) # zs \<and> is_authenticated s
    \<and> si_preview (foldl (staff_invitation_step token) staff_invitation_start xs) = Some p \<and> offered_since xs p)"
proof -
  have "StaffAccept t \<notin> set (si_sent staff_invitation_start)" by (simp add: staff_invitation_start_def)
  from staff_invitation_log.sent_requested [OF assms this] obtain xs s e zs where es: "es = xs @ (s, e) # zs"
    and req: "invitation_request_of token (s, e) (foldl (staff_invitation_step token) staff_invitation_start xs) = Some (StaffAccept t)"
    by (metis surj_pair)
  let ?st = "foldl (staff_invitation_step token) staff_invitation_start xs"
  from req have "e = AcceptOffer" "t = token" "invitation_panel_of token s ?st = OfferPanel"
    by (cases e; auto simp: invitation_request_of_def Let_def split: if_splits)+
  moreover from this(3) have "valid_token token" "is_authenticated s" "si_preview ?st \<noteq> None"
    by (auto simp: invitation_panel_of_def split: if_splits)
  ultimately show ?thesis using es preview_offered [of token xs] by blast
qed

section \<open>Examples\<close>

definition sample_token :: string where
  "sample_token = replicate 32 (CHR ''a'') @ ''.'' @ replicate 43 (CHR ''B'')"

definition accept_run :: "(session \<times> staff_invitation_event) list" where
  "accept_run = map (Pair (Authenticated \<lparr> au_email = None, au_access_expires = 0, au_session_expires = 0, au_source = [],
      au_refresh_state = [], au_refresh_message = None \<rparr>))
     [StatusSeen, StaffInspected 0 (Inr JNull), AcceptOffer]"

lemma staff_offer_accepted_as_seen_witness:
  "valid_token sample_token \<and> (\<exists>xs s zs. accept_run = xs @ (s, AcceptOffer) # zs \<and> offered_since xs JNull)"
proof -
  have "si_sent (foldl (staff_invitation_step sample_token) staff_invitation_start accept_run)
      = [StaffAccept sample_token, InspectInvitation 0 sample_token]" by code_simp
  then have "StaffAccept sample_token \<in> set (si_sent (foldl (staff_invitation_step sample_token) staff_invitation_start accept_run))"
    by simp
  from staff_offer_accepted_as_seen [OF this] obtain xs s zs p where o: "valid_token sample_token"
    "accept_run = xs @ (s, AcceptOffer) # zs" "offered_since xs p" by blast
  from o(3) obtain ys s' n zs' where xs: "xs = ys @ (s', StaffInspected n (Inr p)) # zs'" by (auto simp: offered_since_def)
  have "(s', StaffInspected n (Inr p)) \<in> set accept_run" unfolding o(2) xs by simp
  then have "p = JNull" by (auto simp: accept_run_def)
  with o show ?thesis by blast
qed

end
