(* ===== verification/DeviceView.thy ===== *)
theory DeviceView
  imports MapBounded Acknowledgement Overview Numerals "HOL-Library.Multiset"
begin

text \<open>
  \<open>features/inventory.tsx\<close> and the views of \<open>features/device-overview.tsx\<close>: what the owner is told of the equipment.

  The lists of organizations, sites and devices ask for one row more than they show, and know by it whether there is a
  next page (\<open>paging\<close>). The list of devices asks each one's availability through the bounded scheduler of \<open>MapBounded\<close>
  and files the answers by position (\<open>presence_of\<close>). The panel of a device says that its pump runs, or stands, only on
  a reading that is still fresh (\<open>device_title\<close>), and orders the readings by a fixed rank (\<open>readings\<close>).
\<close>

section \<open>Pages of rows\<close>

text \<open>The request of a page, and what the page shows of the rows that came.\<close>

definition page_query :: "nat \<Rightarrow> nat \<times> nat" where
  "page_query page = (PAGE_SIZE + 1, page * PAGE_SIZE)"

definition page_rows :: "'a list option \<Rightarrow> 'a list" where
  "page_rows data = (case data of None \<Rightarrow> [] | Some rows \<Rightarrow> take PAGE_SIZE rows)"

definition page_has_next :: "bool \<Rightarrow> 'a list option \<Rightarrow> bool" where
  "page_has_next isError data = (\<not> isError \<and> PAGE_SIZE < (case data of None \<Rightarrow> 0 | Some rows \<Rightarrow> length rows))"

datatype paging = PreviousPage | NextPage

definition paging_shown :: "bool \<Rightarrow> nat \<Rightarrow> bool \<Rightarrow> bool" where
  "paging_shown customer page hasNext = (\<not> (customer \<and> page = 0 \<and> \<not> hasNext))"

definition paging_step :: "bool \<Rightarrow> bool \<Rightarrow> bool \<Rightarrow> nat \<Rightarrow> paging \<Rightarrow> nat" where
  "paging_step customer hasNext busy page e =
     (if \<not> paging_shown customer page hasNext then page
      else (case e of
              PreviousPage \<Rightarrow> if page = 0 \<or> busy then page else page - 1
            | NextPage \<Rightarrow> if \<not> hasNext \<or> busy then page else page + 1))"

section \<open>The directory\<close>

definition sitesHref :: "string \<Rightarrow> string" where
  "sitesHref organizationId = ''/organizations/'' @ organizationId @ ''/sites''"

definition devicesHref :: "string \<Rightarrow> string \<Rightarrow> string" where
  "devicesHref organizationId siteId = ''/organizations/'' @ organizationId @ ''/sites/'' @ siteId @ ''/devices''"

record directory_row =
  dr_id :: string
  dr_name :: string
  dr_description :: string
  dr_href :: "string option"

definition site_row :: "bool \<Rightarrow> string \<Rightarrow> site \<Rightarrow> directory_row" where
  "site_row customer organizationId s =
     \<lparr> dr_id = site_id s, dr_name = site_name s,
       dr_description = (if customer then (uk ''>as ob|#kta: '') @ site_timezone s
                         else site_code s @ (uk '' % '') @ site_timezone s),
       dr_href = Some (devicesHref organizationId (site_id s)) \<rparr>"

definition organization_row :: "organization \<Rightarrow> directory_row" where
  "organization_row o' =
     \<lparr> dr_id = org_id o', dr_name = org_name o',
       dr_description = (if org_is_active o' then (uk ''Aktyvna'') else (uk ''Neaktyvna'')),
       dr_href = (if org_is_active o' then Some (sitesHref (org_id o')) else None) \<rparr>"

definition directory_request :: "string option \<Rightarrow> nat \<Rightarrow> string \<times> nat \<times> nat" where
  "directory_request organization page =
     ((case organization of Some i \<Rightarrow> ''/api/v1/organizations/'' @ i @ ''/sites'' | None \<Rightarrow> ''/api/v1/organizations''),
      page_query page)"

definition directory_rows :: "bool \<Rightarrow> string option \<Rightarrow> json \<Rightarrow> directory_row list result" where
  "directory_rows customer organization payload =
     (case organization of
        Some i \<Rightarrow>
          bindE (parsePage (\<lambda>v. parseSite v (Some i) None) site_id (PAGE_SIZE + 1) payload)
            (\<lambda>rows. Inr (map (site_row customer i) rows))
      | None \<Rightarrow>
          bindE (parsePage (\<lambda>v. parseOrganization v ''/api/v1/organizations'') org_id (PAGE_SIZE + 1) payload)
            (\<lambda>rows. Inr (map organization_row rows)))"

section \<open>The presence of devices\<close>

record presence =
  pn_availability :: "availability option"
  pn_error :: "string option"
  pn_checked_at :: string

text \<open>The task of a device: \<open>Inl\<close> ends the whole list.\<close>

definition presence_task ::
  "bool \<Rightarrow> (device \<Rightarrow> string) \<Rightarrow> (device \<Rightarrow> exn + json) \<Rightarrow> device \<Rightarrow> exn + presence" where
  "presence_task aborted checkedAt fetch d =
     (let failed = (\<lambda>e. if aborted \<or> error_in [Unauthorized, Forbidden, NotFound, Aborted] e then Inl e
            else Inr \<lparr> pn_availability = None, pn_error = Some (apiErrorDisplayMessage e), pn_checked_at = checkedAt d \<rparr>) in
      case fetch d of
        Inl e \<Rightarrow> failed e
      | Inr payload \<Rightarrow>
          (case parseAvailability payload (dev_id d) (dev_uid d) of
             Inl e \<Rightarrow> failed (ApiExn e)
           | Inr a \<Rightarrow> Inr \<lparr> pn_availability = Some a, pn_error = None, pn_checked_at = checkedAt d \<rparr>))"

text \<open>\<open>byId\<close>: the answers by position.\<close>

definition presence_of :: "device list \<Rightarrow> 'r list option \<Rightarrow> string \<Rightarrow> 'r option" where
  "presence_of devices data i =
     (case map_of (rev (zip (map dev_id devices) [0..<length devices])) i of
        None \<Rightarrow> None
      | Some k \<Rightarrow> (case data of None \<Rightarrow> None | Some rs \<Rightarrow> if k < length rs then Some (rs ! k) else None))"

datatype presence_status = Checking | Unknown | NeverSeen | Online | Offline

definition presence_status_of :: "bool \<Rightarrow> presence option \<Rightarrow> presence_status" where
  "presence_status_of isFetching p =
     (case p of
        None \<Rightarrow> Checking
      | Some x \<Rightarrow>
          if isFetching then Checking
          else (case pn_availability x of
                  None \<Rightarrow> Unknown
                | Some a \<Rightarrow> if av_last_seen_at a = None then NeverSeen else if av_online a then Online else Offline))"

definition presence_label :: "presence_status \<Rightarrow> string" where
  "presence_label s =
     (case s of
        Checking \<Rightarrow> (uk ''Perevir@#mo zv|@zok&'')
      | Unknown \<Rightarrow> (uk ''Stan nevidomyj'')
      | NeverSeen \<Rightarrow> (uk ''Qe ne bulo zv|@zku'')
      | Online \<Rightarrow> (uk ''Na zv|@zku'')
      | Offline \<Rightarrow> (uk ''Nema# zv|@zku''))"

section \<open>The state of a device\<close>

text \<open>\<open>useElapsedSeconds\<close>: the age of the snapshot, by the clock of the browser in milliseconds.\<close>

definition elapsed_seconds :: "rat \<Rightarrow> rat \<Rightarrow> rat" where
  "elapsed_seconds now receivedAt = max 0 ((now - receivedAt) / 1000)"

definition all_channels :: "overview \<Rightarrow> channel list" where
  "all_channels ov = concat (map md_channels (ov_modules ov))"

definition state_channel :: "overview \<Rightarrow> string \<Rightarrow> channel option" where
  "state_channel ov key = List.find (\<lambda>c. ch_source c = ''state'' \<and> ch_key c = key) (all_channels ov)"

definition device_online :: "overview \<Rightarrow> rat \<Rightarrow> bool" where
  "device_online ov elapsed =
     (let p = ov_availability ov in
      av_online p
      \<and> (case av_seconds_since_seen p of None \<Rightarrow> False | Some s \<Rightarrow> s + elapsed \<le> of_int (av_timeout_seconds p)))"

definition fresh_channel :: "overview \<Rightarrow> rat \<Rightarrow> channel \<Rightarrow> bool" where
  "fresh_channel ov elapsed c = (effectiveQuality (ch_status c) (ov_freshness ov) elapsed = Fresh)"

definition confirmed_running :: "overview \<Rightarrow> rat \<Rightarrow> bool option" where
  "confirmed_running ov elapsed =
     (case state_channel ov ''pump_running'' of
        None \<Rightarrow> None
      | Some c \<Rightarrow>
          if device_online ov elapsed \<and> fresh_channel ov elapsed c
          then (case ch_value c of JBool b \<Rightarrow> Some b | _ \<Rightarrow> None) else None)"

definition current_fault :: "overview \<Rightarrow> rat \<Rightarrow> jsnum option" where
  "current_fault ov elapsed =
     (case state_channel ov ''vfd_fault_code'' of
        None \<Rightarrow> None
      | Some c \<Rightarrow>
          if device_online ov elapsed \<and> fresh_channel ov elapsed c
          then (case ch_value c of JNum n \<Rightarrow> if n = Fin 0 then None else Some n | _ \<Rightarrow> None) else None)"

datatype device_title = FaultReported | Running | Stopped | Unconfirmed

definition device_title_of :: "overview \<Rightarrow> rat \<Rightarrow> device_title" where
  "device_title_of ov elapsed =
     (if current_fault ov elapsed \<noteq> None then FaultReported
      else (case confirmed_running ov elapsed of
              None \<Rightarrow> Unconfirmed
            | Some b \<Rightarrow> if b then Running else Stopped))"

definition title_text :: "device_title \<Rightarrow> string" where
  "title_text t =
     (case t of
        FaultReported \<Rightarrow> (uk ''Pomylka obladnann@'')
      | Running \<Rightarrow> (uk ''Obladnann@ prac$#'')
      | Stopped \<Rightarrow> (uk ''Obladnann@ zupyneno'')
      | Unconfirmed \<Rightarrow> (uk ''Stan obladnann@ ne pidtverd*eno''))"

definition connection_badge :: "overview \<Rightarrow> rat \<Rightarrow> string" where
  "connection_badge ov elapsed =
     (if av_last_seen_at (ov_availability ov) = None then (uk ''Qe ne bulo zv|@zku'')
      else if device_online ov elapsed then (uk ''Na zv|@zku'')
      else if av_online (ov_availability ov) then (uk ''Potribno onovyty zv|@zok'')
      else (uk ''Nema# zv|@zku''))"

definition quality_warning :: "overview \<Rightarrow> rat \<Rightarrow> string option" where
  "quality_warning ov elapsed =
     (let f = ov_freshness ov; q = effectiveQuality (fr_status f) f elapsed in
      if q = Fresh then None
      else map_of reasonLabels (if q = Stale \<and> fr_reason f = ''recent'' then ''timeout'' else fr_reason f))"

section \<open>The readings\<close>

definition detail_keys :: "string list" where
  "detail_keys = [''control_armed'', ''vfd_configuration_valid'', ''vfd_link'']"

definition reading_order :: "string list" where
  "reading_order = [''vfd.set_frequency_hz'', ''vfd.frequency_hz'', ''vfd.current_a'', ''vfd.voltage_v'', ''vfd_fault_code'', ''pump_running'']"

fun index_in :: "'a \<Rightarrow> 'a list \<Rightarrow> nat" where
  "index_in x [] = 0"
| "index_in x (y # ys) = (if x = y then 0 else Suc (index_in x ys))"

definition reading_rank :: "string \<Rightarrow> nat" where
  "reading_rank key = index_in key reading_order"

definition readings :: "overview \<Rightarrow> channel list" where
  "readings ov = sort_key (\<lambda>c. reading_rank (ch_key c)) (filter (\<lambda>c. ch_key c \<notin> set detail_keys) (all_channels ov))"

definition extra_readings :: "overview \<Rightarrow> channel list" where
  "extra_readings ov = filter (\<lambda>c. ch_key c \<in> set detail_keys) (all_channels ov)"

definition reading_label :: "channel \<Rightarrow> string" where
  "reading_label c = (if channelLabel (ch_key c) = ch_key c then (uk ''Dodatkovyj pokaznyk'') else channelLabel (ch_key c))"

definition reading_value :: "(jsnum \<Rightarrow> string) \<Rightarrow> channel \<Rightarrow> string" where
  "reading_value fmt c =
     (case ch_value c of
        JBool b \<Rightarrow> if ch_key c = ''pump_running'' then (if b then (uk ''Prac$#'') else (uk ''Zupyneno'')) else readingText fmt c
      | _ \<Rightarrow> readingText fmt c)"

definition reading_unit :: "channel \<Rightarrow> json" where
  "reading_unit c = (if ch_unit c = JStr ''Hz'' then JStr ((uk ''Hc'')) else if is_nullish (ch_unit c) then JStr [] else ch_unit c)"

definition reading_meta :: "overview \<Rightarrow> rat \<Rightarrow> channel \<Rightarrow> string" where
  "reading_meta ov elapsed c =
     (case effectiveQuality (ch_status c) (ov_freshness ov) elapsed of
        Stale \<Rightarrow> (uk ''Ostann# zna^enn@. Poto^nyj stan nevidomyj.'')
      | Missing \<Rightarrow> (uk ''Pokazann@ qe ne otrymano'')
      | Invalid \<Rightarrow> (uk ''Pokazann@ ne projwlo perevirku'')
      | Fresh \<Rightarrow> if ch_key c = ''vfd_fault_code'' \<and> ch_value c = JNum (Fin 0) then (uk ''Pomylok nema#'') else [])"

definition program_fresh :: "overview \<Rightarrow> rat \<Rightarrow> bool" where
  "program_fresh ov elapsed =
     (let p = ov_availability ov;
          expired = (case av_seconds_since_seen p of None \<Rightarrow> True | Some s \<Rightarrow> of_int (av_timeout_seconds p) < s + elapsed) in
      effectiveQuality (fr_status (ov_freshness ov)) (ov_freshness ov) elapsed = Fresh \<and> av_online p \<and> \<not> expired)"

section \<open>Pages cover the list\<close>

text \<open>A server that answers a page with its window of a list that does not change; and what a reader sees who presses
  the button for the next page \<open>n\<close> times.\<close>

definition page_answer :: "json list \<Rightarrow> nat \<Rightarrow> json" where
  "page_answer items page = JArr (take (fst (page_query page)) (drop (snd (page_query page)) items))"

definition page_data :: "(json \<Rightarrow> 'a result) \<Rightarrow> ('a \<Rightarrow> string) \<Rightarrow> json list \<Rightarrow> nat \<Rightarrow> 'a list option" where
  "page_data parse ident items page =
     (case parsePage parse ident (PAGE_SIZE + 1) (page_answer items page) of Inl _ \<Rightarrow> None | Inr rows \<Rightarrow> Some rows)"

definition page_after :: "bool \<Rightarrow> (nat \<Rightarrow> 'a list option) \<Rightarrow> nat \<Rightarrow> nat" where
  "page_after customer data n = ((\<lambda>p. paging_step customer (page_has_next False (data p)) False p NextPage) ^^ n) 0"

lemma mapE_window: "mapE f xs = Inr ys \<Longrightarrow> mapE f (take n (drop m xs)) = Inr (take n (drop m ys))"
  by (simp add: list_all2_takeI list_all2_dropI ok_iff)

lemma page_data_window:
  assumes "mapE parse items = Inr rows" and "distinct (map ident rows)"
  shows "page_data parse ident items p = Some (take (PAGE_SIZE + 1) (drop (p * PAGE_SIZE) rows))"
proof -
  let ?w = "take (PAGE_SIZE + 1) (drop (p * PAGE_SIZE) rows)"
  have "mapE parse (take (PAGE_SIZE + 1) (drop (p * PAGE_SIZE) items)) = Inr ?w" by (rule mapE_window [OF assms(1)])
  moreover have "distinct (map ident ?w)" using assms(2) by (simp add: distinct_take distinct_drop take_map [symmetric] drop_map [symmetric])
  ultimately have "parsePage parse ident (PAGE_SIZE + 1) (page_answer items p) = Inr ?w"
    by (simp add: parsePage_ok page_answer_def page_query_def del: mapE_ok)
  then show ?thesis by (simp add: page_data_def)
qed

lemma windows_cover: "concat (map (\<lambda>p. take k (drop (p * k) xs)) [0..<n]) = take (n * k) xs"
proof (induction n)
  case (Suc n)
  have "take (n * k + k) xs = take (n * k) xs @ take k (drop (n * k) xs)" by (simp add: take_add)
  with Suc show ?case by (simp add: add.commute)
qed simp

lemma page_next_window:
  "page_has_next False (Some (take (PAGE_SIZE + 1) (drop (p * PAGE_SIZE) rows))) \<longleftrightarrow> (p + 1) * PAGE_SIZE < length rows"
  by (auto simp: page_has_next_def PAGE_SIZE_def)

lemma paging_next: "paging_step customer hasNext False p NextPage = (if hasNext then p + 1 else p)"
  by (simp add: paging_step_def paging_shown_def)

lemma page_after_window:
  assumes "\<And>p. data p = Some (take (PAGE_SIZE + 1) (drop (p * PAGE_SIZE) rows))"
  shows "page_after customer data n = min n ((length rows - 1) div PAGE_SIZE)"
proof (induction n)
  case (Suc n)
  let ?last = "(length rows - 1) div PAGE_SIZE"
  have step: "page_after customer data (Suc n) = (if (page_after customer data n + 1) * PAGE_SIZE < length rows
      then page_after customer data n + 1 else page_after customer data n)"
    unfolding page_next_window [symmetric] assms [symmetric] by (simp add: page_after_def paging_next)
  have more: "(p + 1) * PAGE_SIZE < length rows \<longleftrightarrow> p < ?last" for p
  proof -
    have "p < (m - 1) div 20 \<longleftrightarrow> (p + 1) * 20 < m" for m :: nat
    proof -
      have "Suc p \<le> (m - 1) div 20 \<longleftrightarrow> Suc p * 20 \<le> m - 1" by (rule less_eq_div_iff_mult_less_eq) simp
      moreover have "Suc p * 20 \<le> m - 1 \<longleftrightarrow> (p + 1) * 20 < m" by arith
      ultimately show ?thesis by (simp only: Suc_le_eq)
    qed
    then show ?thesis by (simp add: PAGE_SIZE_def)
  qed
  show ?case unfolding step more Suc by (auto simp: min_def)
qed (simp add: page_after_def)

text \<open>Paging loses and repeats nothing: when the rows of the server all validate and differ, and the list does not
  change meanwhile, every page is accepted; pressing the button for the next page leads through all pages and stops at
  the last; and the rows shown on them, one after the other, are exactly the rows of the server in their order.\<close>

theorem pages_cover_the_list:
  assumes "mapE parse items = Inr rows" and "distinct (map ident rows)"
  shows "let data = page_data parse ident items; last = (length rows - 1) div PAGE_SIZE in
    (\<forall>p. data p \<noteq> None) \<and> (\<forall>n. page_after customer data n = min n last)
    \<and> concat (map (\<lambda>p. page_rows (data p)) [0..<Suc last]) = rows"
proof -
  let ?data = "page_data parse ident items" and ?last = "(length rows - 1) div PAGE_SIZE"
  have data: "?data p = Some (take (PAGE_SIZE + 1) (drop (p * PAGE_SIZE) rows))" for p
    by (rule page_data_window [OF assms])
  have "page_rows (?data p) = take PAGE_SIZE (drop (p * PAGE_SIZE) rows)" for p
    by (simp add: data page_rows_def min_def)
  then have "concat (map (\<lambda>p. page_rows (?data p)) [0..<Suc ?last]) = take (Suc ?last * PAGE_SIZE) rows"
    using windows_cover [of PAGE_SIZE rows "Suc ?last"] by (simp del: upt_Suc)
  moreover have "length rows \<le> Suc ?last * PAGE_SIZE"
  proof -
    have "m \<le> Suc ((m - 1) div 20) * 20" for m :: nat by presburger
    then show ?thesis by (simp add: PAGE_SIZE_def)
  qed
  ultimately show ?thesis unfolding Let_def using page_after_window [of ?data rows customer] data by simp
qed

section \<open>Each row has its own presence\<close>

text \<open>What the query of the list resolves to: nothing when a task threw.\<close>

definition presence_data :: "(exn + presence) option list \<Rightarrow> presence list option" where
  "presence_data rs = those (map (\<lambda>r. case r of Some (Inr p) \<Rightarrow> Some p | _ \<Rightarrow> None) rs)"

lemma those_map_Some_nth: "those (map f xs) = Some ys \<Longrightarrow> length ys = length xs \<and> (\<forall>k < length xs. f (xs ! k) = Some (ys ! k))"
proof (induction xs arbitrary: ys)
  case (Cons x xs)
  then show ?case by (auto split: option.splits simp: nth_Cons split: nat.splits)
qed simp

lemma position_of:
  assumes "distinct (map f xs)" and "k < length xs"
  shows "map_of (rev (zip (map f xs) [0..<length xs])) (f (xs ! k)) = Some k"
proof -
  have "distinct (map fst (rev (zip (map f xs) [0..<length xs])))" using assms(1) by (simp add: rev_map [symmetric])
  moreover have "(f (xs ! k), k) \<in> set (rev (zip (map f xs) [0..<length xs]))"
    using assms(2) by (auto simp: set_zip intro!: exI [of _ k])
  ultimately show ?thesis by (rule map_of_is_SomeI)
qed

lemma presence_task_online:
  assumes "presence_task aborted checkedAt fetch d = Inr p"
  shows "case pn_availability p of
      Some a \<Rightarrow> \<exists>payload. fetch d = Inr payload \<and> parseAvailability payload (dev_id d) (dev_uid d) = Inr a
    | None \<Rightarrow> \<exists>e. pn_error p = Some (apiErrorDisplayMessage e) \<and> \<not> error_in [Unauthorized, Forbidden, NotFound, Aborted] e"
  using assms by (auto simp: presence_task_def Let_def split: sum.splits if_splits)

lemma presence_task_answered:
  "fetch d = Inr payload \<Longrightarrow> parseAvailability payload (dev_id d) (dev_uid d) = Inr a \<Longrightarrow>
   presence_task aborted checkedAt fetch d = Inr p \<Longrightarrow> pn_availability p = Some a"
  by (auto simp: presence_task_def Let_def)

text \<open>A device is called online only on its own word: whatever the order in which the answers of the list came, when
  the list resolved, the row of a device has the answer to the request for this device; it says that the device is on line
  exactly when the server's availability for this identifier and number validates and says so, and that its state is not
  known when this request failed otherwise than by a refusal of access.\<close>

theorem presence_is_of_the_row:
  assumes "mb_reachable (presence_task aborted checkedAt fetch) devices concurrency s" and "mb_outcome s = Some (Inr rs)"
    and "presence_data rs = Some data" and "distinct (map dev_id devices)" and "d \<in> set devices"
  shows "\<exists>p. presence_of devices (Some data) (dev_id d) = Some p
    \<and> (presence_status_of False (Some p) = Online \<longleftrightarrow>
        (\<exists>payload a. fetch d = Inr payload \<and> parseAvailability payload (dev_id d) (dev_uid d) = Inr a
          \<and> av_device_id a = dev_id d \<and> av_uid a = dev_uid d \<and> av_online a))
    \<and> (presence_status_of False (Some p) = Unknown \<longleftrightarrow> pn_availability p = None)"
proof -
  from assms(5) obtain k where k: "k < length devices" "devices ! k = d" by (auto simp: in_set_conv_nth)
  have rs: "rs = map (\<lambda>x. Some (presence_task aborted checkedAt fetch x)) devices"
    by (rule mb_outcome_results [OF assms(1,2)])
  with assms(3) those_map_Some_nth [of "\<lambda>r. case r of Some (Inr p) \<Rightarrow> Some p | _ \<Rightarrow> None" rs data]
  have len: "length data = length devices"
    and at: "presence_task aborted checkedAt fetch d = Inr (data ! k)"
    using k by (cases "presence_task aborted checkedAt fetch d"; auto simp: presence_data_def split: sum.splits)+
  have own: "presence_of devices (Some data) (dev_id d) = Some (data ! k)"
    using position_of [OF assms(4) k(1)] k len by (simp add: presence_of_def)
  have "presence_status_of False (Some (data ! k)) = Online \<longleftrightarrow>
      (\<exists>payload a. fetch d = Inr payload \<and> parseAvailability payload (dev_id d) (dev_uid d) = Inr a
        \<and> av_device_id a = dev_id d \<and> av_uid a = dev_uid d \<and> av_online a)"
  proof (cases "pn_availability (data ! k)")
    case None
    with presence_task_answered [OF _ _ at] show ?thesis by (force simp: presence_status_of_def)
  next
    case (Some a)
    with presence_task_online [OF at] obtain payload
      where a: "fetch d = Inr payload" "parseAvailability payload (dev_id d) (dev_uid d) = Inr a" by auto
    with parseAvailability_sound [OF a(2)] Some show ?thesis by (auto simp: presence_status_of_def)
  qed
  with own show ?thesis by (auto simp: presence_status_of_def split: option.splits if_splits)
qed

section \<open>What the panel says of the equipment\<close>

lemma state_channelD:
  "state_channel ov key = Some c \<Longrightarrow> c \<in> set (all_channels ov) \<and> ch_source c = ''state'' \<and> ch_key c = key"
  by (auto simp: state_channel_def find_Some_iff)

lemma confirmed_runningD:
  assumes "confirmed_running ov e = Some b"
  shows "\<exists>c. c \<in> set (all_channels ov) \<and> ch_source c = ''state'' \<and> ch_key c = ''pump_running'' \<and> ch_value c = JBool b
    \<and> fresh_channel ov e c \<and> device_online ov e"
  using assms by (auto simp: confirmed_running_def dest: state_channelD split: option.splits if_splits json.splits)

lemma device_title_offline: "\<not> device_online ov e \<Longrightarrow> device_title_of ov e = Unconfirmed"
  by (auto simp: device_title_of_def current_fault_def confirmed_running_def split: option.split)

lemma device_online_since: "device_online ov e \<Longrightarrow> \<exists>s. av_seconds_since_seen (ov_availability ov) = Some s
    \<and> s + e \<le> of_int (av_timeout_seconds (ov_availability ov)) \<and> av_online (ov_availability ov)"
  by (auto simp: device_online_def Let_def split: option.splits)

text \<open>C12: The panel says that the equipment runs or stands only while this is known: when it does, the snapshot is of
  the device that was asked for, the device is on line and its last sign of life is within its timeout, counted on the
  browser's clock; the state channel of the pump carries exactly this value, was fresh when the server sent it and has not
  expired since, and no fault is reported; and once the timeout has passed without a new snapshot the panel says nothing.\<close>

theorem running_is_confirmed:
  assumes "parseOverview v expected org = Inr ov" and "device_title_of ov e = (if b then Running else Stopped)"
  shows "av_device_id (ov_availability ov) = dev_id (ov_device ov) \<and> dev_uid (ov_device ov) = dev_uid expected
    \<and> (\<exists>c. c \<in> set (all_channels ov) \<and> ch_source c = ''state'' \<and> ch_key c = ''pump_running'' \<and> ch_value c = JBool b
        \<and> ch_status c = Fresh \<and> fr_status (ov_freshness ov) = Fresh \<and> \<not> data_expired (ov_freshness ov) e)
    \<and> current_fault ov e = None
    \<and> (\<exists>s. av_seconds_since_seen (ov_availability ov) = Some s \<and> av_online (ov_availability ov)
        \<and> s + e \<le> of_int (av_timeout_seconds (ov_availability ov))
        \<and> (\<forall>e' > of_int (av_timeout_seconds (ov_availability ov)) - s. device_title_of ov e' = Unconfirmed))"
proof -
  from assms(2) have run: "confirmed_running ov e = Some b" and fault: "current_fault ov e = None"
    by (auto simp: device_title_of_def split: if_splits option.splits)
  from confirmed_runningD [OF run] obtain c where c: "c \<in> set (all_channels ov)" "ch_source c = ''state''"
    "ch_key c = ''pump_running''" "ch_value c = JBool b" "fresh_channel ov e c" "device_online ov e" by blast
  from device_online_since [OF c(6)] obtain s where s: "av_seconds_since_seen (ov_availability ov) = Some s"
    "s + e \<le> of_int (av_timeout_seconds (ov_availability ov))" "av_online (ov_availability ov)" by blast
  have late: "device_title_of ov e' = Unconfirmed" if "of_int (av_timeout_seconds (ov_availability ov)) - s < e'" for e'
    using that s(1) by (intro device_title_offline) (simp add: device_online_def Let_def)
  have "ch_status c = Fresh \<and> fr_status (ov_freshness ov) = Fresh \<and> \<not> data_expired (ov_freshness ov) e"
    using c(5) by (simp add: fresh_channel_def effectiveQuality_fresh)
  with c(1-4) have "\<exists>c. c \<in> set (all_channels ov) \<and> ch_source c = ''state'' \<and> ch_key c = ''pump_running'' \<and> ch_value c = JBool b
        \<and> ch_status c = Fresh \<and> fr_status (ov_freshness ov) = Fresh \<and> \<not> data_expired (ov_freshness ov) e" by blast
  with parseOverview_wf [OF assms(1)] fault s late show ?thesis by (auto simp: wf_overview_def)
qed

text \<open>Every channel of an accepted snapshot is shown exactly once, the readings in the order of their rank and those of
  equal rank in the order of the modules.\<close>

lemma channel_keys_of: "ov_channel_keys (ov_modules ov) = map channel_key (all_channels ov)"
  by (simp add: ov_channel_keys_def all_channels_def map_concat comp_def)

theorem readings_complete:
  assumes "parseOverview v expected org = Inr ov"
  shows "set (readings ov @ extra_readings ov) = set (all_channels ov)
    \<and> distinct (map channel_key (readings ov @ extra_readings ov))
    \<and> sorted (map (\<lambda>c. reading_rank (ch_key c)) (readings ov))
    \<and> (\<forall>k. filter (\<lambda>c. reading_rank (ch_key c) = k) (readings ov)
          = filter (\<lambda>c. reading_rank (ch_key c) = k \<and> ch_key c \<notin> set detail_keys) (all_channels ov))"
proof -
  let ?in = "\<lambda>c. ch_key c \<in> set detail_keys"
  have perm: "mset (readings ov @ extra_readings ov) = mset (all_channels ov)"
    using multiset_partition [of "mset (all_channels ov)" ?in] by (simp add: readings_def extra_readings_def ac_simps)
  have keys: "distinct (map channel_key (all_channels ov))"
    using parseOverview_wf [OF assms] by (simp add: wf_overview_def channel_keys_of)
  have same: "filter (\<lambda>c. reading_rank (ch_key c) = k) (readings ov)
      = filter (\<lambda>c. reading_rank (ch_key c) = k \<and> ch_key c \<notin> set detail_keys) (all_channels ov)" for k
    using sort_key_stable [of "\<lambda>c. reading_rank (ch_key c)" k "filter (\<lambda>c. \<not> ?in c) (all_channels ov)"]
    by (simp add: readings_def conj_commute)
  have "mset (map channel_key (readings ov @ extra_readings ov)) = mset (map channel_key (all_channels ov))"
    using perm by (metis mset_map)
  with keys have "distinct (map channel_key (readings ov @ extra_readings ov))" by (metis mset_eq_imp_distinct_iff)
  moreover from perm have "set (readings ov @ extra_readings ov) = set (all_channels ov)" by (metis set_mset_mset)
  ultimately show ?thesis using same by (simp add: readings_def sorted_sort_key)
qed

section \<open>Examples\<close>

definition sample_running :: json where
  "sample_running =
     with_field (with_field (with_field (sample_overview True [''command.execute''])
       ''state_readings'' (JArr (map sample_reading [''vfd_link'', ''pump_running''])))
       ''modules'' (JArr [JObj [(''capability_id'', JStr (sample_id (CHR ''4''))),
          (''code'', JStr ''vfd.diagnostics.read''), (''supported'', JBool True),
          (''channels'', JArr (map sample_channel [''vfd_link'', ''pump_running''])), (''command_types'', JArr [JStr ''START'']),
          (''allowed_commands'', JArr [JStr ''START'']), (''assignment_id'', JStr (sample_id (CHR ''5'')))]]))
       ''availability'' (JObj [(''online'', JBool True), (''device_id'', JStr (dev_id sample_device)),
          (''uid'', JStr ''u1''), (''timeout_seconds'', JNum (Fin 60)), (''seconds_since_seen'', JNum (Fin 1)),
          (''last_seen_at'', sample_date)])"

lemma sample_running_shown:
  "holds (\<lambda>ov. device_title_of ov 10 = Running) (parseOverview sample_running sample_device (sample_id (CHR ''3'')))"
  by code_simp

lemma running_is_confirmed_witness:
  "\<exists>ov. parseOverview sample_running sample_device (sample_id (CHR ''3'')) = Inr ov \<and> current_fault ov 10 = None
    \<and> (\<exists>c \<in> set (all_channels ov). ch_value c = JBool True)"
proof -
  from sample_running_shown obtain ov where ov: "parseOverview sample_running sample_device (sample_id (CHR ''3'')) = Inr ov"
    "device_title_of ov 10 = (if True then Running else Stopped)" unfolding holds_iff by auto
  from running_is_confirmed [OF ov] ov(1) show ?thesis by blast
qed

lemma readings_complete_witness:
  "\<exists>ov. parseOverview sample_running sample_device (sample_id (CHR ''3'')) = Inr ov
    \<and> set (readings ov @ extra_readings ov) = set (all_channels ov)"
proof -
  from sample_running_shown obtain ov where "parseOverview sample_running sample_device (sample_id (CHR ''3'')) = Inr ov"
    unfolding holds_iff by auto
  with readings_complete [OF this] show ?thesis by blast
qed

text \<open>Forty-five rows make three pages.\<close>

lemma pages_cover_the_list_witness:
  "let rows = map (\<lambda>n. replicate n (CHR ''x'')) [0..<45]; data = page_data (\<lambda>v. Inr (str_of v)) id (map JStr rows) in
    page_after True data 7 = 2 \<and> concat (map (\<lambda>p. page_rows (data p)) [0..<3]) = rows"
proof -
  let ?rows = "map (\<lambda>n. replicate n (CHR ''x'')) [0..<45]"
  have all: "mapE (\<lambda>v. Inr (str_of v)) (map JStr xs) = Inr xs" for xs by (induction xs) simp_all
  have differ: "distinct (map id ?rows)" by (simp add: distinct_map inj_on_def replicate_eq_replicate del: upt_rec_numeral upt_Suc)
  define rows where "rows = ?rows"
  have last: "(length rows - 1) div PAGE_SIZE = 2" by (simp add: rows_def PAGE_SIZE_def)
  from pages_cover_the_list [OF all differ, of True, folded rows_def]
  have "page_after True (page_data (\<lambda>v. Inr (str_of v)) id (map JStr rows)) 7 = min 7 2"
    "concat (map (\<lambda>p. page_rows (page_data (\<lambda>v. Inr (str_of v)) id (map JStr rows) p)) [0..<Suc 2]) = rows"
    unfolding Let_def last by blast+
  then show ?thesis unfolding Let_def rows_def [symmetric] by (simp add: numeral_eq_Suc)
qed

definition sample_availability :: json where
  "sample_availability = JObj [(''online'', JBool True), (''device_id'', JStr (dev_id sample_device)), (''uid'', JStr ''u1''),
     (''timeout_seconds'', JNum (Fin 60)), (''seconds_since_seen'', JNum (Fin 1)), (''last_seen_at'', sample_date)]"

lemma sample_availability_online:
  "holds (\<lambda>a. av_online a \<and> av_last_seen_at a \<noteq> None) (parseAvailability sample_availability (dev_id sample_device) (dev_uid sample_device))"
  by code_simp

lemma presence_is_of_the_row_witness:
  "\<exists>data p. presence_of [sample_device] (Some data) (dev_id sample_device) = Some p
    \<and> presence_status_of False (Some p) = Online"
proof -
  let ?task = "presence_task False (\<lambda>_. ''now'') (\<lambda>_. Inr sample_availability)"
  let ?R = "mb_reachable ?task [sample_device] (Fin 4)"
  let ?s = "\<lambda>n w r. \<lparr> mb_next = n, mb_workers = [w], mb_results = [r], mb_aborted = False \<rparr>"
  from sample_availability_online obtain a
    where a: "parseAvailability sample_availability (dev_id sample_device) (dev_uid sample_device) = Inr a" "av_online a"
    unfolding holds_iff by auto
  then have task: "?task sample_device = Inr \<lparr> pn_availability = Some a, pn_error = None, pn_checked_at = ''now'' \<rparr>"
    by (simp add: presence_task_def)
  have "mb_start [sample_device] (Fin 4) False = Some (?s 0 Idle None :: (exn + presence) mb_state)"
    by (simp add: mb_start_def max_safe_def)
  then have "?R (?s 0 Idle None)" by (rule mb_reachable.start)
  from mb_reachable.step [OF this mb_step.take_index [of 0]] have "?R (?s 1 (Busy 0) None)" by simp
  from mb_reachable.step [OF this mb_step.task_resolves [of 0 _ 0]] have "?R (?s 1 Idle (Some (?task sample_device)))" by simp
  from mb_reachable.step [OF this mb_step.no_index_left [of 0]] have run: "?R (?s 1 Done (Some (?task sample_device)))" by simp
  have finished: "mb_outcome (?s 1 Done (Some (?task sample_device))) = Some (Inr [Some (?task sample_device)])"
    by (simp add: mb_outcome_def)
  have "presence_data [Some (?task sample_device)] = Some [\<lparr> pn_availability = Some a, pn_error = None, pn_checked_at = ''now'' \<rparr>]"
    by (simp add: presence_data_def task)
  from presence_is_of_the_row [OF run finished this, of sample_device] a parseAvailability_sound [OF a(1)] show ?thesis by auto
qed

end
