(* ===== verification/Feeds.thy ===== *)
theory Feeds
  imports Alarms Commands Equipment
begin

text \<open>
  The lists of incidents (\<open>features/alarms.tsx\<close>, \<open>alarm-shared.tsx\<close>) and of notifications (\<open>features/notifications.tsx\<close>),
  the events of a device (\<open>features/device-events.tsx\<close>), and what the journal says of a command
  (\<open>features/command-journal.tsx\<close>).

  The key of the query holds the selection, so an answer is parsed with the selection that it was asked with; the view of
  an event carries this answer (\<open>None\<close> while there is none) and whether the buttons are off.
\<close>

section \<open>Incidents\<close>

record alarm_feed =
  af_filters :: alarm_filters
  af_page :: nat
  af_type :: string

record feed_view =
  fd_busy :: bool
  fd_answer :: "json option"

definition alarm_feed_start :: alarm_feed where
  "alarm_feed_start =
     \<lparr> af_filters = \<lparr> flt_state = ''active'', flt_severity = [], flt_type = [] \<rparr>, af_page = 0, af_type = [] \<rparr>"

datatype feed_query = FeedQuery nat nat "(string \<times> string) list"

definition alarm_request :: "alarm_feed \<Rightarrow> feed_query" where
  "alarm_request st =
     (let f = af_filters st; set_one = (\<lambda>k v. if v = [] then [] else [(k, v)]) in
      FeedQuery 21 (af_page st * 20)
        (set_one ''state'' (flt_state f) @ set_one ''severity'' (flt_severity f) @ set_one ''alarm_type'' (flt_type f)))"

definition alarm_data :: "string \<Rightarrow> feed_view \<Rightarrow> alarm_feed \<Rightarrow> json list option" where
  "alarm_data device v st =
     (case fd_answer v of
        None \<Rightarrow> None
      | Some answer \<Rightarrow> (case parseAlarmPage answer device (af_filters st) of Inl _ \<Rightarrow> None | Inr rows \<Rightarrow> Some rows))"

definition shown_rows :: "json list option \<Rightarrow> json list" where
  "shown_rows data = (case data of None \<Rightarrow> [] | Some rows \<Rightarrow> take 20 rows)"

definition more_rows :: "json list option \<Rightarrow> bool" where
  "more_rows data = (case data of None \<Rightarrow> False | Some rows \<Rightarrow> 20 < length rows)"

text \<open>\<open>AlarmPagination\<close>\<close>

datatype page_event = PreviousPage | NextPage

definition alarm_pagination :: "bool \<Rightarrow> bool \<Rightarrow> page_event \<Rightarrow> nat \<Rightarrow> nat" where
  "alarm_pagination further busy e page =
     (case e of
        PreviousPage \<Rightarrow> if page = 0 \<or> busy then page else page - 1
      | NextPage \<Rightarrow> if \<not> further \<or> busy then page else page + 1)"

datatype alarm_feed_event =
    ChooseState string
  | ChooseSeverity string
  | TypeAlarm string
  | ApplyType
  | ResetType
  | RefreshAlarms
  | AlarmPage page_event

definition change_filters :: "(alarm_filters \<Rightarrow> alarm_filters) \<Rightarrow> alarm_feed \<Rightarrow> alarm_feed" where
  "change_filters change st = st\<lparr>af_filters := change (af_filters st), af_page := 0\<rparr>"

definition alarm_feed_step :: "string \<Rightarrow> alarm_feed \<Rightarrow> feed_view \<times> alarm_feed_event \<Rightarrow> alarm_feed" where
  "alarm_feed_step device st ve =
     (let v = fst ve in
      case snd ve of
        ChooseState s \<Rightarrow> change_filters (\<lambda>f. f\<lparr>flt_state := s\<rparr>) st
      | ChooseSeverity s \<Rightarrow> change_filters (\<lambda>f. f\<lparr>flt_severity := s\<rparr>) st
      | TypeAlarm s \<Rightarrow> st\<lparr>af_type := s\<rparr>
      | ApplyType \<Rightarrow> change_filters (\<lambda>f. f\<lparr>flt_type := js_trim (af_type st)\<rparr>) st
      | ResetType \<Rightarrow>
          if flt_type (af_filters st) = [] then st else change_filters (\<lambda>f. f\<lparr>flt_type := []\<rparr>) (st\<lparr>af_type := []\<rparr>)
      | RefreshAlarms \<Rightarrow> if fd_busy v then st else st\<lparr>af_page := 0\<rparr>
      | AlarmPage e \<Rightarrow> st\<lparr>af_page := alarm_pagination (more_rows (alarm_data device v st)) (fd_busy v) e (af_page st)\<rparr>)"

text \<open>The badges of an incident: severity, state, acknowledgement.\<close>

definition alarm_badges :: "json \<Rightarrow> (string \<times> string) list" where
  "alarm_badges alarm =
     (let label = (\<lambda>labels k. case map_of labels (str_of (fld alarm k)) of None \<Rightarrow> ''undefined'' | Some t \<Rightarrow> t) in
      [(if fld alarm ''severity'' = JStr ''critical'' then ''danger'' else ''warning'', label alarmSeverityLabels ''severity''),
       (if fld alarm ''state'' = JStr ''resolved'' then ''success'' else ''warning'', label alarmStateLabels ''state''),
       (''neutral'', if truthy (fld alarm ''acknowledged_at'') then (uk ''Pidtverd*ena operatorom'') else (uk ''Bez pidtverd*enn@''))])"

section \<open>Notifications\<close>

record notification_feed =
  nf_page :: nat
  nf_unread :: bool

definition notification_request :: "notification_feed \<Rightarrow> feed_query" where
  "notification_request st =
     FeedQuery 21 (nf_page st * 20) [(''unread_only'', if nf_unread st then ''true'' else ''false'')]"

text \<open>Both answers or none.\<close>

definition notification_data :: "string \<Rightarrow> (json \<times> json) option \<Rightarrow> notification_feed \<Rightarrow> (json list \<times> int) option" where
  "notification_data organization answers st =
     (case answers of
        None \<Rightarrow> None
      | Some (rows, count) \<Rightarrow>
          (case (parseNotificationPage rows organization (nf_unread st), parseUnreadCount count) of
             (Inr rs, Inr n) \<Rightarrow> Some (rs, n)
           | _ \<Rightarrow> None))"

datatype notification_event = ChooseUnread bool | RefreshNotifications | NotificationPage page_event

definition notification_step ::
  "string \<Rightarrow> notification_feed \<Rightarrow> (bool \<times> (json \<times> json) option) \<times> notification_event \<Rightarrow> notification_feed" where
  "notification_step organization st ve =
     (let (busy, answers) = fst ve in
      case snd ve of
        ChooseUnread b \<Rightarrow> \<lparr> nf_page = 0, nf_unread = b \<rparr>
      | RefreshNotifications \<Rightarrow> if busy then st else st\<lparr>nf_page := 0\<rparr>
      | NotificationPage e \<Rightarrow>
          st\<lparr>nf_page := alarm_pagination (more_rows (map_option fst (notification_data organization answers st))) busy e (nf_page st)\<rparr>)"

section \<open>What the journal says\<close>

definition status_tone :: "json \<Rightarrow> string" where
  "status_tone command =
     (if fld command ''status'' = JStr ''succeeded'' then ''success''
      else if fld command ''status'' = JStr ''failed'' then ''danger''
      else if commandPending command then ''info'' else ''warning'')"

definition status_text :: "json \<Rightarrow> string" where
  "status_text command =
     (if fld command ''error_code'' = JStr ''program_cancelled'' then (uk ''Prohramu skasovano operatorom'')
      else if fld command ''command_type'' = JStr ''vfd.program.start'' \<and> fld command ''status'' = JStr ''succeeded''
      then (uk ''Prohramu zaverweno, {STOP }pidtverd*eno'')
      else (case map_of statusLabels (str_of (fld command ''status'')) of None \<Rightarrow> ''undefined'' | Some t \<Rightarrow> t))"

definition error_text :: "json \<Rightarrow> string option" where
  "error_text command =
     (let code = fld command ''error_code'' in
      if \<not> truthy (fld command ''error_message'') then None
      else Some (
        if code = JStr ''program_cancelled'' then (uk ''Prohramu perervano zapytom operatora; nastupni etapy skasovano.'')
        else if code = JStr ''program_transition_timeout''
        then (uk ''>astotnyk ne dos@h zadano~ ^astoty za 60 s. Perevirte nalawtuvann@ rozhonu ta rezul=tat zupynky.'')
        else if code = JStr ''program_invalid'' then (uk ''Prohrama ne vidpovida# mo*lyvost@m abo lokal=nomu re*ymu kontrolera.'')
        else if code = JStr ''not_armed''
        then (uk ''Lokal=nyj dozvil keruvann@ vymkneno. Perevirte pry^ynu zupynky ta vidnovit= dozvil na kontroleri.'')
        else if code = JStr ''setting_changed''
        then (uk ''Poto^ne zna^enn@ zminylos@. Pere^ytajte nalawtuvann@ pered novo$ di#$.'')
        else if code = JStr ''physical_result_unconfirmed''
          \<and> fld command ''command_type'' \<in> set [JStr ''vfd.source.set'', JStr ''vfd.parameter.set'']
        then (uk ''Zapys ne pidtverd*eno povnist$. >astyna nalawtuvan= mohla zminytys@; pere^ytajte ~x pered novo$ di#$.'')
        else str_of (fld command ''error_message'')))"

text \<open>One record is polled while it is pending, for ten minutes.\<close>

definition poll_detail :: "int \<Rightarrow> int \<Rightarrow> json \<Rightarrow> bool" where
  "poll_detail opened now command = (commandPending command \<and> now - opened < 600000)"

section \<open>Events of a device\<close>

text \<open>\<open>features/device-events.tsx\<close>: the rows of a page of events.\<close>

record device_event =
  de_id :: string
  de_title :: string
  de_occurred :: string
  de_message :: "string option"

definition events_path :: "string \<Rightarrow> string" where
  "events_path device = ''/api/v1/devices/'' @ device @ ''/events''"

definition parse_event :: "string \<Rightarrow> json \<Rightarrow> device_event result" where
  "parse_event device item =
     (let path = events_path device in
      if \<not> isRecord item \<or> fld item ''device_id'' \<noteq> JStr device then invalidResponse path ''device event''
      else bindE (requiredUuid item ''id'' path) (\<lambda>i.
           bindE (requiredString item ''title'' path) (\<lambda>title.
           bindE (requiredDateTime item ''occurred_at'' path) (\<lambda>occurred.
           Inr \<lparr> de_id = i, de_title = title, de_occurred = occurred,
                 de_message = (if is_string (fld item ''message'') then Some (str_of (fld item ''message'')) else None) \<rparr>))))"

definition parse_events :: "string \<Rightarrow> json \<Rightarrow> device_event list result" where
  "parse_events device raw =
     (if \<not> is_array raw then invalidResponse (events_path device) ''events'' else mapE (parse_event device) (elems raw))"

record event_feed =
  ef_severity :: string
  ef_offset :: nat

datatype event_feed_event = ChooseEventSeverity string | PreviousEvents | NextEvents

text \<open>The view: whether the query is fetching, and its rows.\<close>

definition event_feed_step ::
  "event_feed \<Rightarrow> (bool \<times> device_event list option) \<times> event_feed_event \<Rightarrow> event_feed" where
  "event_feed_step st ve =
     (let (fetching, data) = fst ve in
      case snd ve of
        ChooseEventSeverity s \<Rightarrow> \<lparr> ef_severity = s, ef_offset = 0 \<rparr>
      | PreviousEvents \<Rightarrow> if ef_offset st = 0 \<or> fetching then st else st\<lparr>ef_offset := ef_offset st - 25\<rparr>
      | NextEvents \<Rightarrow> if map_option length data \<noteq> Some 25 \<or> fetching then st else st\<lparr>ef_offset := ef_offset st + 25\<rparr>)"

section \<open>Facts\<close>

lemma alarm_data_ok:
  assumes "alarm_data device v st = Some rows"
  shows "(\<forall>r \<in> set rows. wf_alarm device r \<and> \<not> filtered_out (af_filters st) r)"
    "distinct (map row_id rows)" "length rows \<le> 21"
  using assms parseAlarmPage_sound [of _ device "af_filters st" rows]
  by (auto simp: alarm_data_def split: option.splits sum.splits)

text \<open>Whatever was chosen, typed and pressed, and whatever the server answers, the list of incidents shows only
  well-formed alarms of the device that match the filters that were applied, none twice and at most twenty; and the
  filters that were applied are the ones the request names.\<close>

lemma alarms_shown_match:
  "(\<forall>r \<in> set (shown_rows (alarm_data device v st)). wf_alarm device r \<and> \<not> filtered_out (af_filters st) r)
    \<and> distinct (map row_id (shown_rows (alarm_data device v st))) \<and> length (shown_rows (alarm_data device v st)) \<le> 20
    \<and> (\<exists>filters. alarm_request st = FeedQuery 21 (af_page st * 20) filters
         \<and> (\<forall>k t. (k, t) \<in> set filters \<longleftrightarrow> t \<noteq> [] \<and> (k = ''state'' \<and> t = flt_state (af_filters st)
              \<or> k = ''severity'' \<and> t = flt_severity (af_filters st) \<or> k = ''alarm_type'' \<and> t = flt_type (af_filters st))))"
proof -
  have rows: "(\<forall>r \<in> set (shown_rows (alarm_data device v st)). wf_alarm device r \<and> \<not> filtered_out (af_filters st) r)
      \<and> distinct (map row_id (shown_rows (alarm_data device v st))) \<and> length (shown_rows (alarm_data device v st)) \<le> 20"
  proof (cases "alarm_data device v st")
    case (Some rows)
    from alarm_data_ok [OF this] Some show ?thesis
      by (auto simp: shown_rows_def take_map [symmetric] dest: in_set_takeD intro: distinct_take)
  qed (simp add: shown_rows_def)
  then show ?thesis by (auto simp: alarm_request_def Let_def)
qed

text \<open>A change of the filters and the refresh lead to the first page.\<close>

lemma filters_first_page:
  "af_filters (alarm_feed_step device st ve) \<noteq> af_filters st \<Longrightarrow> af_page (alarm_feed_step device st ve) = 0"
  by (cases "snd ve") (auto simp: alarm_feed_step_def change_filters_def Let_def)

text \<open>A page beyond the first is reached only from a full page.\<close>

lemma next_page_full:
  assumes "af_page (alarm_feed_step device st (v, e)) = Suc (af_page st)"
  shows "\<exists>rows. alarm_data device v st = Some rows \<and> length rows = 21"
  using assms alarm_data_ok(3) [of device v st]
  by (cases e) (auto simp: alarm_feed_step_def change_filters_def alarm_pagination_def more_rows_def Let_def
      split: page_event.splits if_splits option.splits)

text \<open>The notifications that are shown are of the organization, and only unread ones when only they are asked for.\<close>

lemma notifications_shown_match:
  assumes "notification_data organization answers st = Some (rows, unread)"
  shows "(\<forall>r \<in> set rows. wf_notification organization r \<and> (nf_unread st \<longrightarrow> fld r ''read_at'' = JNull))
    \<and> distinct (map row_id rows) \<and> length rows \<le> 21"
  using assms parseNotificationPage_sound [of _ organization "nf_unread st" rows]
  by (auto simp: notification_data_def split: option.splits sum.splits prod.splits)

text \<open>A command is said to have succeeded only when its status says so.\<close>

lemma success_is_reported:
  "status_tone command = ''success'' \<longleftrightarrow> fld command ''status'' = JStr ''succeeded''"
  by (auto simp: status_tone_def)

lemma stop_confirmed_text:
  assumes "status_text command = (uk ''Prohramu zaverweno, {STOP }pidtverd*eno'')"
  shows "fld command ''command_type'' = JStr ''vfd.program.start'' \<and> fld command ''status'' = JStr ''succeeded''"
proof -
  have "(uk ''Prohramu zaverweno, {STOP }pidtverd*eno'') \<notin> snd ` set statusLabels"
    "(uk ''Prohramu zaverweno, {STOP }pidtverd*eno'') \<noteq> (uk ''Prohramu skasovano operatorom'')"
    "(uk ''Prohramu zaverweno, {STOP }pidtverd*eno'') \<noteq> ''undefined''" by code_simp+
  with assms show ?thesis
    by (auto simp: status_text_def split: if_splits option.splits dest!: map_of_SomeD intro: rev_image_eqI)
qed

text \<open>The events that are shown are of the device, one for each row of the answer, and every page is a whole one.\<close>

lemma events_of_device:
  assumes "parse_events device raw = Inr rows"
  shows "length rows = length (elems raw)
    \<and> (\<forall>i < length rows. fld (elems raw ! i) ''device_id'' = JStr device \<and> fld (elems raw ! i) ''id'' = JStr (de_id (rows ! i))
         \<and> is_uuid (de_id (rows ! i)) \<and> date_parse (de_occurred (rows ! i)) \<noteq> None)"
proof -
  from assms have m: "mapE (parse_event device) (elems raw) = Inr rows"
    by (auto simp: parse_events_def invalidResponse_def split: if_splits)
  have row: "fld item ''device_id'' = JStr device \<and> fld item ''id'' = JStr (de_id r) \<and> is_uuid (de_id r)
      \<and> date_parse (de_occurred r) \<noteq> None" if "parse_event device item = Inr r" for item r
    using that by (auto simp: parse_event_def Let_def ok_iff split: if_splits)
  have "list_all2 (\<lambda>item r. parse_event device item = Inr r) (elems raw) rows" using m by (simp add: mapE_ok)
  then show ?thesis using row by (auto simp: list_all2_conv_all_nth)
qed

lemma event_pages: "25 dvd ef_offset (foldl event_feed_step \<lparr> ef_severity = [], ef_offset = 0 \<rparr> es)"
proof (induction es rule: rev_induct)
  case (snoc e es)
  then show ?case by (cases "snd e") (auto simp: event_feed_step_def dvd_diff_nat split: prod.split)
qed simp

end
