(* ===== verification/DatePicker.thy ===== *)
theory DatePicker
  imports Calendar AccountAction
begin

text \<open>
  \<open>components/date-field.tsx\<close> with \<open>date-picker.tsx\<close> and \<open>use-input-validation.ts\<close>: the field for a date, which is typed or
  picked from a calendar. The picker computes on texts; \<open>civil_move\<close> is the same on civil dates, and the picker refines
  it (\<open>picker_refines\<close>): the focused day is always the text of a date between the bounds.

  \<open>today\<close> and the browser's own verdict on an input (\<open>native\<close>) come with the events. An operation on dates that
  throws is \<open>None\<close>; \<open>df_threw\<close> and \<open>df_picked\<close> (the values picked so far) are not in the code.
\<close>

section \<open>The calendar\<close>

definition text_int :: "string \<Rightarrow> int" where
  "text_int s = \<lfloor>num_rat (js_number s)\<rfloor>"

definition focused_year :: "string \<Rightarrow> int" where
  "focused_year date = text_int (take 4 date)"

definition focused_month :: "string \<Rightarrow> int" where
  "focused_month date = text_int (take 2 (drop 5 date))"

definition month_key :: "string \<Rightarrow> string" where
  "month_key date = take 7 date"

datatype picker_key = ArrowLeft | ArrowRight | ArrowUp | ArrowDown | HomeKey | EndKey | PageUp bool | PageDown bool | OtherKey

datatype picker_event = PressKey picker_key | PreviousMonth | NextMonth | PickMonth int | PickYear int

text \<open>\<open>navigate\<close>: the day a key leads to.\<close>

definition key_target :: "picker_key \<Rightarrow> string \<Rightarrow> string option" where
  "key_target key date =
     (case key of
        ArrowLeft \<Rightarrow> shiftCalendarDays date (- 1)
      | ArrowRight \<Rightarrow> shiftCalendarDays date 1
      | ArrowUp \<Rightarrow> shiftCalendarDays date (- 7)
      | ArrowDown \<Rightarrow> shiftCalendarDays date 7
      | HomeKey \<Rightarrow> Option.bind (month_offset date) (\<lambda>w. shiftCalendarDays date (- w))
      | EndKey \<Rightarrow> Option.bind (month_offset date) (\<lambda>w. shiftCalendarDays date (6 - w))
      | PageUp shift \<Rightarrow> shiftCalendarMonths date (- (if shift then 12 else 1))
      | PageDown shift \<Rightarrow> shiftCalendarMonths date (if shift then 12 else 1)
      | OtherKey \<Rightarrow> Some date)"

text \<open>The months and years that the selectors offer.\<close>

definition month_offered :: "string \<Rightarrow> string \<Rightarrow> string \<Rightarrow> int \<Rightarrow> bool" where
  "month_offered lo hi date m =
     (let key = show_int (focused_year date) @ ''-'' @ fixed_width 2 m in
      1 \<le> m \<and> m \<le> 12 \<and> \<not> str_lt key (month_key lo) \<and> \<not> str_lt (month_key hi) key)"

definition year_offered :: "string \<Rightarrow> string \<Rightarrow> int \<Rightarrow> bool" where
  "year_offered lo hi y = (focused_year lo \<le> y \<and> y \<le> focused_year hi)"

definition picker_target :: "string \<Rightarrow> string \<Rightarrow> picker_event \<Rightarrow> string \<Rightarrow> string option" where
  "picker_target lo hi e date =
     (case e of
        PressKey key \<Rightarrow> key_target key date
      | PreviousMonth \<Rightarrow> if str_lt (month_key lo) (month_key date) then shiftCalendarMonths date (- 1) else Some date
      | NextMonth \<Rightarrow> if str_lt (month_key date) (month_key hi) then shiftCalendarMonths date 1 else Some date
      | PickMonth m \<Rightarrow> if month_offered lo hi date m then shiftCalendarMonths date (m - focused_month date) else Some date
      | PickYear y \<Rightarrow> if year_offered lo hi y then shiftCalendarMonths date ((y - focused_year date) * 12) else Some date)"

text \<open>\<open>move\<close>\<close>

definition picker_move :: "string \<Rightarrow> string \<Rightarrow> picker_event \<Rightarrow> string \<Rightarrow> string option" where
  "picker_move lo hi e date = map_option (\<lambda>target. clampCalendarDate target lo hi) (picker_target lo hi e date)"

text \<open>The days that can be pressed.\<close>

definition day_enabled :: "string \<Rightarrow> string \<Rightarrow> string \<Rightarrow> string \<Rightarrow> bool" where
  "day_enabled lo hi date d =
     (case calendarMonthRows date of
        None \<Rightarrow> False
      | Some rows \<Rightarrow> d \<in> set (concat rows) \<and> \<not> str_lt d lo \<and> \<not> str_lt hi d)"

definition today_enabled :: "string \<Rightarrow> string \<Rightarrow> string \<Rightarrow> bool" where
  "today_enabled lo hi today = (\<not> str_lt today lo \<and> \<not> str_lt hi today)"

section \<open>The field\<close>

definition lower_bound :: "string \<Rightarrow> string" where
  "lower_bound lo = (if isCalendarDate lo then clampCalendarDate lo MIN_CALENDAR_DATE MAX_CALENDAR_DATE else MIN_CALENDAR_DATE)"

definition upper_bound :: "string \<Rightarrow> string \<Rightarrow> string" where
  "upper_bound lo hi =
     (if isCalendarDate hi then clampCalendarDate hi (lower_bound lo) MAX_CALENDAR_DATE else MAX_CALENDAR_DATE)"

record date_picker =
  dp_today :: string
  dp_focused :: string

record date_field =
  df_value :: string
  df_picker :: "date_picker option"
  df_touched :: bool
  df_native :: string
  df_threw :: bool
  df_picked :: "string list"

definition date_field_start :: "string \<Rightarrow> date_field" where
  "date_field_start value =
     \<lparr> df_value = value, df_picker = None, df_touched = False, df_native = [], df_threw = False, df_picked = [] \<rparr>"

definition date_error :: "string \<Rightarrow> string \<Rightarrow> bool \<Rightarrow> date_field \<Rightarrow> string" where
  "date_error lo hi required st = calendarInputError (df_value st) (lower_bound lo) (upper_bound lo hi) required"

text \<open>\<open>useInputValidation\<close>: what is shown of an error.\<close>

definition shown_error :: "string \<Rightarrow> string \<Rightarrow> bool \<Rightarrow> date_field \<Rightarrow> string" where
  "shown_error lo hi required st =
     (if \<not> df_touched st then []
      else if date_error lo hi required st \<noteq> [] then date_error lo hi required st else df_native st)"

datatype date_event =
    TypeDate string
  | LeaveField string bool
  | RefuseField string
  | OpenPicker string
  | MovePicker picker_event
  | PickDay string
  | PickToday
  | ClosePicker

definition validate_input :: "string \<Rightarrow> string \<Rightarrow> bool \<Rightarrow> string \<Rightarrow> date_field \<Rightarrow> date_field" where
  "validate_input lo hi required native st =
     st\<lparr>df_touched := True, df_native := (if date_error lo hi required st \<noteq> [] then [] else native)\<rparr>"

definition choose_date :: "string \<Rightarrow> date_field \<Rightarrow> date_field" where
  "choose_date date st =
     st\<lparr>df_value := date, df_touched := False, df_native := [], df_picker := None, df_picked := date # df_picked st\<rparr>"

definition date_step :: "string \<Rightarrow> string \<Rightarrow> bool \<Rightarrow> date_field \<Rightarrow> date_event \<Rightarrow> date_field" where
  "date_step lo hi required st e =
     (let lower = lower_bound lo; upper = upper_bound lo hi in
      case e of
        TypeDate s \<Rightarrow> st\<lparr>df_native := [], df_value := readCalendarInput s\<rparr>
      | LeaveField native to_submit \<Rightarrow> if to_submit then st else validate_input lo hi required native st
      | RefuseField native \<Rightarrow> validate_input lo hi required native st
      | OpenPicker today \<Rightarrow>
          st\<lparr>df_picker := Some \<lparr> dp_today = today,
               dp_focused = clampCalendarDate (if isCalendarDate (df_value st) then df_value st else today) lower upper \<rparr>\<rparr>
      | MovePicker x \<Rightarrow>
          (case df_picker st of
             None \<Rightarrow> st
           | Some p \<Rightarrow>
               (case picker_move lower upper x (dp_focused p) of
                  None \<Rightarrow> st\<lparr>df_threw := True\<rparr>
                | Some date \<Rightarrow> st\<lparr>df_picker := Some (p\<lparr>dp_focused := date\<rparr>)\<rparr>))
      | PickDay d \<Rightarrow>
          (case df_picker st of
             None \<Rightarrow> st
           | Some p \<Rightarrow> if day_enabled lower upper (dp_focused p) d then choose_date d st else st)
      | PickToday \<Rightarrow>
          (case df_picker st of
             None \<Rightarrow> st
           | Some p \<Rightarrow> if today_enabled lower upper (dp_today p) then choose_date (dp_today p) st else st)
      | ClosePicker \<Rightarrow> st\<lparr>df_picker := None\<rparr>)"

section \<open>The calendar on civil dates\<close>

definition civil_key :: "picker_key \<Rightarrow> civil \<Rightarrow> civil" where
  "civil_key key c =
     (let days = (\<lambda>k. civil_of (civil_day c + k)); w = (weekday_of_day (civil_day c) + 6) mod 7 in
      case key of
        ArrowLeft \<Rightarrow> days (- 1)
      | ArrowRight \<Rightarrow> days 1
      | ArrowUp \<Rightarrow> days (- 7)
      | ArrowDown \<Rightarrow> days 7
      | HomeKey \<Rightarrow> days (- w)
      | EndKey \<Rightarrow> days (6 - w)
      | PageUp shift \<Rightarrow> shift_month c (- (if shift then 12 else 1))
      | PageDown shift \<Rightarrow> shift_month c (if shift then 12 else 1)
      | OtherKey \<Rightarrow> c)"

text \<open>The month of a date, for the order of months.\<close>

definition month_number :: "civil \<Rightarrow> int" where
  "month_number c = cyear c * 12 + cmonth c"

definition civil_target :: "civil \<Rightarrow> civil \<Rightarrow> picker_event \<Rightarrow> civil \<Rightarrow> civil" where
  "civil_target lo hi e c =
     (case e of
        PressKey key \<Rightarrow> civil_key key c
      | PreviousMonth \<Rightarrow> if month_number lo < month_number c then shift_month c (- 1) else c
      | NextMonth \<Rightarrow> if month_number c < month_number hi then shift_month c 1 else c
      | PickMonth m \<Rightarrow>
          if 1 \<le> m \<and> m \<le> 12 \<and> month_number lo \<le> cyear c * 12 + m \<and> cyear c * 12 + m \<le> month_number hi
          then shift_month c (m - cmonth c) else c
      | PickYear y \<Rightarrow> if cyear lo \<le> y \<and> y \<le> cyear hi then shift_month c ((y - cyear c) * 12) else c)"

definition civil_move :: "civil \<Rightarrow> civil \<Rightarrow> picker_event \<Rightarrow> civil \<Rightarrow> civil" where
  "civil_move lo hi e c = max lo (min (civil_target lo hi e c) hi)"

text \<open>A date of the calendar's range.\<close>

definition in_range :: "civil \<Rightarrow> bool" where
  "in_range c \<longleftrightarrow> wf_civil c \<and> 2000 \<le> cyear c \<and> cyear c \<le> 2199"

section \<open>The refinement\<close>

lemma text_int_digits: "list_all is_digit s \<Longrightarrow> s \<noteq> [] \<Longrightarrow> text_int s = digits_val s"
  using js_number_decimal [of s "[]"] by (simp add: text_int_def)

lemma focused_fields:
  assumes "wf_civil c"
  shows "focused_year (civil_text c) = cyear c" "focused_month (civil_text c) = cmonth c"
    "month_key (civil_text c) = fixed_width 4 (cyear c) @ ''-'' @ fixed_width 2 (cmonth c)"
    "take 4 (civil_text c) = fixed_width 4 (cyear c)"
proof -
  note b = wf_civil_bounds [OF assms]
  have f: "civil_text c = fixed_width 4 (cyear c) @ ''-'' @ fixed_width 2 (cmonth c) @ ''-'' @ fixed_width 2 (cday c)"
    using b(1) by (intro civil_text_fixed) auto
  note y = fixed_width [of "cyear c" 4] and m = fixed_width [of "cmonth c" 2]
  have ne: "fixed_width 4 (cyear c) \<noteq> []" "fixed_width 2 (cmonth c) \<noteq> []" using y(1) m(1) b(1,2) by auto
  show "focused_year (civil_text c) = cyear c" "focused_month (civil_text c) = cmonth c"
    "month_key (civil_text c) = fixed_width 4 (cyear c) @ ''-'' @ fixed_width 2 (cmonth c)"
    "take 4 (civil_text c) = fixed_width 4 (cyear c)"
    using b(1,2) y m ne by (simp_all add: f focused_year_def focused_month_def month_key_def text_int_digits)
qed

text \<open>The order of the keys of months is the order of months.\<close>

lemma month_key_text:
  assumes "0 \<le> y" "y \<le> 9999" "1 \<le> m" "m \<le> 12"
  shows "fixed_width 4 y @ ''-'' @ fixed_width 2 m @ ''-01'' = civil_text (Civil y m 1)" and "wf_civil (Civil y m 1)"
proof -
  show "wf_civil (Civil y m 1)" using assms days_in_month_bounds [of m y] by (intro wf_month) auto
  have "fixed_width 2 1 = ''01''" by code_simp
  then show "fixed_width 4 y @ ''-'' @ fixed_width 2 m @ ''-01'' = civil_text (Civil y m 1)"
    using assms by (simp add: civil_text_fixed)
qed

lemma month_key_less:
  assumes "0 \<le> y" "y \<le> 9999" "1 \<le> m" "m \<le> 12" and "0 \<le> y'" "y' \<le> 9999" "1 \<le> m'" "m' \<le> 12"
  shows "str_lt (fixed_width 4 y @ ''-'' @ fixed_width 2 m) (fixed_width 4 y' @ ''-'' @ fixed_width 2 m')
    \<longleftrightarrow> y * 12 + m < y' * 12 + m'"
proof -
  let ?a = "fixed_width 4 y @ ''-'' @ fixed_width 2 m" and ?b = "fixed_width 4 y' @ ''-'' @ fixed_width 2 m'"
  have len: "length ?a = length ?b" using assms fixed_width(1) by simp
  have "str_lt ?a ?b \<longleftrightarrow> str_lt (?a @ ''-01'') (?b @ ''-01'')"
    by (simp only: str_lt_append [OF len] str_lt_irrefl simp_thms)
  also have "\<dots> \<longleftrightarrow> str_lt (civil_text (Civil y m 1)) (civil_text (Civil y' m' 1))"
    using month_key_text(1) [OF assms(1-4)] month_key_text(1) [OF assms(5-8)] by simp
  also have "\<dots> \<longleftrightarrow> Civil y m 1 < Civil y' m' 1"
    by (rule civil_text_less [OF month_key_text(2) [OF assms(1-4)] month_key_text(2) [OF assms(5-8)]])
  also have "\<dots> \<longleftrightarrow> y * 12 + m < y' * 12 + m'" using assms by (auto simp: less_civil_def)
  finally show ?thesis .
qed

lemma in_range_fields:
  assumes "in_range c"
  shows "wf_civil c" "0 \<le> cyear c" "cyear c \<le> 9999" "2000 \<le> cyear c" "cyear c \<le> 2199" "1 \<le> cmonth c" "cmonth c \<le> 12"
  using assms wf_civil_bounds [of c] by (auto simp: in_range_def)

lemma shown_year:
  assumes "in_range c"
  shows "show_int (cyear c) = fixed_width 4 (cyear c)"
proof -
  let ?s = "show_nat (nat (cyear c))"
  have y: "2000 \<le> cyear c" using assms by (simp add: in_range_def)
  have "cyear c < 10 ^ length ?s"
    using digits_val_bounds [OF show_nat_digits [of "nat (cyear c)"]] y by (simp add: digits_val_show_nat)
  moreover have "(10::int) ^ length ?s \<le> 10 ^ 3" if "length ?s < 4" using that by (intro power_increasing) auto
  ultimately have "4 \<le> length ?s" using y by (cases "length ?s < 4") auto
  then show ?thesis using y by (simp add: fixed_width_def pad_start_def show_int_def)
qed

lemma month_key_order:
  assumes "in_range a" "in_range b"
  shows "str_lt (month_key (civil_text a)) (month_key (civil_text b)) \<longleftrightarrow> month_number a < month_number b"
  unfolding focused_fields(3) [OF in_range_fields(1) [OF assms(1)]] focused_fields(3) [OF in_range_fields(1) [OF assms(2)]]
    month_number_def using in_range_fields [OF assms(1)] in_range_fields [OF assms(2)] by (intro month_key_less)

lemma shift_month_range:
  assumes "in_range c" "\<bar>k\<bar> \<le> 2400"
  shows "shiftCalendarMonths (civil_text c) k = Some (civil_text (shift_month c k))" "wf_civil (shift_month c k)"
proof -
  have "cyear (shift_month c k) = (cyear c * 12 + (cmonth c - 1) + k) div 12" by (simp add: shift_month_def Let_def)
  then have "100 \<le> cyear (shift_month c k)" "cyear (shift_month c k) \<le> 9999"
    using assms(2) in_range_fields [OF assms(1)] by (auto simp: abs_le_iff)
  from shift_months [OF in_range_fields(1) [OF assms(1)] this]
  show "shiftCalendarMonths (civil_text c) k = Some (civil_text (shift_month c k))" "wf_civil (shift_month c k)" by blast+
qed

lemma range_ends: "in_range c \<Longrightarrow> Civil 2000 1 1 \<le> c \<and> c \<le> Civil 2199 12 31"
  using in_range_fields [of c] wf_civil_bounds [of c] by (cases c) (auto simp: less_eq_civil_def less_civil_def)

lemma day_range:
  assumes "in_range c" "\<bar>k\<bar> \<le> 50"
  shows "calendar_day (civil_day c + k)"
proof -
  have ends: "wf_civil (Civil 2000 1 1)" "wf_civil (Civil 2199 12 31)" "civil_day (Civil 2000 1 1) = 10957"
    "civil_day (Civil 2199 12 31) = 84005" "calendar_day 10000" "calendar_day 90000" by code_simp+
  have "10957 \<le> civil_day c" "civil_day c \<le> 84005"
    using range_ends [OF assms(1)] civil_day_less_iff [OF in_range_fields(1) [OF assms(1)] ends(1)]
      civil_day_less_iff [OF ends(2) in_range_fields(1) [OF assms(1)]] ends(3,4) by (simp_all add: not_less [symmetric])
  with assms(2) show ?thesis by (intro calendar_day_between [OF ends(5,6)]) auto
qed

lemma shift_day_range:
  assumes "in_range c" "\<bar>k\<bar> \<le> 50"
  shows "shiftCalendarDays (civil_text c) k = Some (civil_text (civil_of (civil_day c + k)))" "wf_civil (civil_of (civil_day c + k))"
  using shift_days [OF in_range_fields(1) [OF assms(1)] day_range [OF assms]] wf_civil_of [OF day_range [OF assms]] by blast+

lemma month_offset_civil: "wf_civil c \<Longrightarrow> month_offset (civil_text c) = Some ((weekday_of_day (civil_day c) + 6) mod 7)"
  by (simp add: month_offset_def noon_civil day_of_noon)

lemma key_refines:
  assumes "in_range c"
  shows "key_target key (civil_text c) = Some (civil_text (civil_key key c)) \<and> wf_civil (civil_key key c)"
proof -
  let ?w = "(weekday_of_day (civil_day c) + 6) mod 7"
  have w: "\<bar>- ?w\<bar> \<le> 50" "\<bar>6 - ?w\<bar> \<le> 50" using pos_mod_bound [of 7 "weekday_of_day (civil_day c) + 6"] by (auto simp: abs_le_iff)
  note days = shift_day_range [OF assms] and months = shift_month_range [OF assms]
  show ?thesis
    using days [OF w(1)] days [OF w(2)] days(2) [of "- 1"] days(2) [of "- 7"] in_range_fields(1) [OF assms]
    by (cases key) (simp_all add: key_target_def civil_key_def Let_def days months month_offset_civil)
qed

lemma target_refines:
  assumes "in_range lo" "in_range hi" "in_range c"
  shows "picker_target (civil_text lo) (civil_text hi) e (civil_text c) = Some (civil_text (civil_target lo hi e c))
    \<and> wf_civil (civil_target lo hi e c)"
proof -
  note c = in_range_fields [OF assms(3)] and l = in_range_fields [OF assms(1)] and h = in_range_fields [OF assms(2)]
  note months = shift_month_range [OF assms(3)]
  show ?thesis
  proof (cases e)
    case (PickMonth m)
    have offered: "month_offered (civil_text lo) (civil_text hi) (civil_text c) m \<longleftrightarrow>
        1 \<le> m \<and> m \<le> 12 \<and> month_number lo \<le> cyear c * 12 + m \<and> cyear c * 12 + m \<le> month_number hi"
    proof (cases "1 \<le> m \<and> m \<le> 12")
      case True
      have "str_lt (show_int (focused_year (civil_text c)) @ ''-'' @ fixed_width 2 m) (month_key (civil_text lo)) \<longleftrightarrow> cyear c * 12 + m < month_number lo"
        unfolding focused_fields(3) [OF l(1)] focused_fields(1) [OF c(1)] shown_year [OF assms(3)] month_number_def
        using True c l by (intro month_key_less) auto
      moreover have "str_lt (month_key (civil_text hi)) (show_int (focused_year (civil_text c)) @ ''-'' @ fixed_width 2 m) \<longleftrightarrow> month_number hi < cyear c * 12 + m"
        unfolding focused_fields(3) [OF h(1)] focused_fields(1) [OF c(1)] shown_year [OF assms(3)] month_number_def
        using True c h by (intro month_key_less) auto
      ultimately show ?thesis unfolding month_offered_def Let_def by (simp only: not_less)
    qed (auto simp: month_offered_def)
    have "\<bar>m - cmonth c\<bar> \<le> 2400" if "1 \<le> m" "m \<le> 12" using that c(6,7) by auto
    with months [of "m - cmonth c"] c(1) show ?thesis
      by (auto simp: PickMonth picker_target_def civil_target_def offered focused_fields)
  next
    case (PickYear y)
    have "\<bar>(y - cyear c) * 12\<bar> \<le> 2400" if "cyear lo \<le> y" "y \<le> cyear hi" using that c l h by auto
    with months [of "(y - cyear c) * 12"] c(1) l(1) h(1) show ?thesis
      by (auto simp: PickYear picker_target_def civil_target_def year_offered_def focused_fields)
  qed (use key_refines [OF assms(3)] months c(1) month_key_order assms in
      \<open>simp_all add: picker_target_def civil_target_def\<close>)
qed

text \<open>C31: The calendar computes on texts exactly what it would compute on dates: between two bounds in the years 2000 to
  2199, every key, button and selector leads from the text of a date to the text of the date that the same operation on
  civil dates gives, months of different length and leap years included; no operation throws, and the focused day never
  leaves the bounds.\<close>

theorem picker_refines:
  assumes "in_range lo" "in_range hi" "lo \<le> hi" "in_range c"
  shows "picker_move (civil_text lo) (civil_text hi) e (civil_text c) = Some (civil_text (civil_move lo hi e c))
    \<and> in_range (civil_move lo hi e c) \<and> lo \<le> civil_move lo hi e c \<and> civil_move lo hi e c \<le> hi"
proof -
  let ?t = "civil_target lo hi e c" and ?m = "civil_move lo hi e c"
  from target_refines [OF assms(1,2,4), of e] have t: "wf_civil ?t"
    "picker_target (civil_text lo) (civil_text hi) e (civil_text c) = Some (civil_text ?t)" by blast+
  have clamp: "clampCalendarDate (civil_text ?t) (civil_text lo) (civil_text hi) = civil_text ?m"
    unfolding civil_move_def
    by (rule clamp_civil) (use t(1) in_range_fields(1) assms in auto)
  have between: "lo \<le> ?m" "?m \<le> hi" using assms(3) by (auto simp: civil_move_def)
  have "wf_civil ?m" using t(1) in_range_fields(1) assms by (auto simp: civil_move_def max_def min_def)
  moreover have "cyear lo \<le> cyear ?m" "cyear ?m \<le> cyear hi" using between by (auto simp: less_eq_civil_def less_civil_def)
  ultimately show ?thesis
    using t(2) clamp between in_range_fields [OF assms(1)] in_range_fields [OF assms(2)]
    by (simp add: picker_move_def in_range_def)
qed

lemma picker_refines_witness:
  "picker_move ''2026-01-01'' ''2027-12-31'' (PressKey (PageDown False)) ''2026-01-31'' = Some ''2026-02-28''"
proof -
  have "in_range (Civil 2026 1 1)" "in_range (Civil 2027 12 31)" "Civil 2026 1 1 \<le> Civil 2027 12 31" "in_range (Civil 2026 1 31)"
    "civil_text (Civil 2026 1 1) = ''2026-01-01''" "civil_text (Civil 2027 12 31) = ''2027-12-31''"
    "civil_text (Civil 2026 1 31) = ''2026-01-31''"
    "civil_text (civil_move (Civil 2026 1 1) (Civil 2027 12 31) (PressKey (PageDown False)) (Civil 2026 1 31)) = ''2026-02-28''"
    by code_simp+
  with picker_refines [of "Civil 2026 1 1" "Civil 2027 12 31" "Civil 2026 1 31" "PressKey (PageDown False)"] show ?thesis
    by simp
qed

section \<open>What is picked is accepted\<close>

lemma end_dates:
  "MIN_CALENDAR_DATE = civil_text (Civil 2000 1 1)" "MAX_CALENDAR_DATE = civil_text (Civil 2199 12 31)"
  "in_range (Civil 2000 1 1)" "in_range (Civil 2199 12 31)" "Civil 2000 1 1 \<le> Civil 2199 12 31"
  by (code_simp, code_simp, simp_all add: in_range_def wf_civil_def valid_civil_def days_in_month_def days_before_month_def
      less_eq_civil_def less_civil_def)

lemma in_range_between:
  assumes "in_range a" "in_range b" "wf_civil c" "a \<le> c" "c \<le> b"
  shows "in_range c"
proof -
  have "cyear a \<le> cyear c" "cyear c \<le> cyear b" using assms(4,5) by (auto simp: less_eq_civil_def less_civil_def)
  then show ?thesis using assms(3) in_range_fields [OF assms(1)] in_range_fields [OF assms(2)] by (simp add: in_range_def)
qed

text \<open>Clamping a calendar date between two dates of the range.\<close>

lemma clamp_in_range:
  assumes "isCalendarDate v" "in_range a" "in_range b" "a \<le> b"
  shows "\<exists>c. clampCalendarDate v (civil_text a) (civil_text b) = civil_text c \<and> in_range c \<and> a \<le> c \<and> c \<le> b"
proof -
  from assms(1) obtain d where d: "wf_civil d" "v = civil_text d" by (auto simp: isCalendarDate_iff)
  let ?c = "max a (min d b)"
  have "wf_civil ?c" using d(1) in_range_fields(1) assms(2,3) by (auto simp: max_def min_def)
  moreover have "a \<le> ?c" "?c \<le> b" using assms(4) by auto
  ultimately have "in_range ?c" by (intro in_range_between [OF assms(2,3)])
  with clamp_civil [OF d(1) in_range_fields(1) [OF assms(2)] in_range_fields(1) [OF assms(3)] assms(4)] d(2) assms(4)
  show ?thesis by (intro exI [of _ ?c]) simp
qed

lemma field_bounds:
  obtains L H where "in_range L" "in_range H" "L \<le> H" "lower_bound lo = civil_text L" "upper_bound lo hi = civil_text H"
proof -
  have "\<exists>L. lower_bound lo = civil_text L \<and> in_range L \<and> L \<le> Civil 2199 12 31"
    using clamp_in_range [of lo, OF _ end_dates(3-5)] end_dates by (auto simp: lower_bound_def)
  then obtain L where L: "lower_bound lo = civil_text L" "in_range L" "L \<le> Civil 2199 12 31" by blast
  have "\<exists>H. upper_bound lo hi = civil_text H \<and> in_range H \<and> L \<le> H"
    using clamp_in_range [of hi, OF _ L(2) end_dates(4) L(3)] end_dates L by (auto simp: upper_bound_def)
  with L that show ?thesis by blast
qed

lemma row_day_calendar:
  assumes "in_range c" "calendarMonthRows (civil_text c) = Some rows" "d \<in> set (concat rows)"
  shows "isCalendarDate d"
proof -
  let ?f = "Civil (cyear c) (cmonth c) 1"
  note r = in_range_fields [OF assms(1)]
  have f: "in_range ?f" using r month_key_text(2) [of "cyear c" "cmonth c"] by (simp add: in_range_def)
  have near: "calendar_day (grid_start c + k)" if "0 \<le> k" "k \<le> 41" for k
  proof -
    have "\<bar>grid_start c + k - civil_day ?f\<bar> \<le> 50" using grid_start_monday(2,3) [of c] that by (auto simp: month_first_def abs_le_iff)
    from day_range [OF f this] show ?thesis by simp
  qed
  from month_rows [OF r(1)] near [of 0] near [of 41]
  have "calendarMonthRows (civil_text c) = Some (map (\<lambda>w. map (\<lambda>d. civil_text (civil_of (grid_start c + (w * 7 + d)))) [0..6]) [0..5])"
    by simp
  with assms(2,3) obtain w k where "d = civil_text (civil_of (grid_start c + (w * 7 + k)))" "0 \<le> w" "w \<le> 5" "0 \<le> k" "k \<le> 6"
    by auto
  with near [of "w * 7 + k"] show ?thesis using wf_civil_of by (auto simp: isCalendarDate_iff)
qed

definition accepted_date :: "string \<Rightarrow> string \<Rightarrow> string \<Rightarrow> bool" where
  "accepted_date lo hi d \<longleftrightarrow> isCalendarDate d \<and> (\<forall>required. calendarInputError d (lower_bound lo) (upper_bound lo hi) required = [])"

lemma accepted_dateI:
  "isCalendarDate d \<Longrightarrow> \<not> str_lt d (lower_bound lo) \<Longrightarrow> \<not> str_lt (upper_bound lo hi) d \<Longrightarrow> accepted_date lo hi d"
  by (auto simp: accepted_date_def calendarInputError_def isCalendarDate_def match_classes_def iso_day_shape_def Let_def)

text \<open>The invariant: the focused day is the text of a date between the bounds.\<close>

definition date_inv :: "string \<Rightarrow> string \<Rightarrow> date_field \<Rightarrow> bool" where
  "date_inv lo hi st \<longleftrightarrow> \<not> df_threw st \<and> (\<forall>d \<in> set (df_picked st). accepted_date lo hi d)
     \<and> (\<forall>p. df_picker st = Some p \<longrightarrow> isCalendarDate (dp_today p)
          \<and> (\<exists>L H c. in_range L \<and> in_range H \<and> L \<le> H \<and> lower_bound lo = civil_text L \<and> upper_bound lo hi = civil_text H
               \<and> in_range c \<and> L \<le> c \<and> c \<le> H \<and> dp_focused p = civil_text c))"

lemma date_invE:
  assumes "date_inv lo hi st" "df_picker st = Some p"
  obtains L H c where "in_range L" "in_range H" "L \<le> H" "lower_bound lo = civil_text L" "upper_bound lo hi = civil_text H"
    "in_range c" "L \<le> c" "c \<le> H" "dp_focused p = civil_text c" "isCalendarDate (dp_today p)"
  using assms by (auto simp: date_inv_def)

lemma date_inv_choose: "date_inv lo hi st \<Longrightarrow> accepted_date lo hi d \<Longrightarrow> date_inv lo hi (choose_date d st)"
  by (auto simp: date_inv_def choose_date_def)

text \<open>\<open>calendarDate\<close> gives the day of the picker.\<close>

fun real_today :: "date_event \<Rightarrow> bool" where
  "real_today (OpenPicker today) = isCalendarDate today"
| "real_today _ = True"

lemma open_inv:
  assumes "date_inv lo hi st" "isCalendarDate today"
  shows "date_inv lo hi (date_step lo hi required st (OpenPicker today))"
proof -
  let ?v = "if isCalendarDate (df_value st) then df_value st else today"
  have v: "isCalendarDate ?v" using assms(2) by simp
  obtain L H where b: "in_range L" "in_range H" "L \<le> H" "lower_bound lo = civil_text L" "upper_bound lo hi = civil_text H"
    by (rule field_bounds)
  from clamp_in_range [OF v b(1-3)]
  obtain c where "clampCalendarDate ?v (lower_bound lo) (upper_bound lo hi) = civil_text c" "in_range c" "L \<le> c" "c \<le> H"
    unfolding b(4,5) by blast
  with b assms show ?thesis unfolding date_inv_def date_step_def Let_def by auto
qed

lemma move_inv:
  assumes "date_inv lo hi st"
  shows "date_inv lo hi (date_step lo hi required st (MovePicker x))"
proof (cases "df_picker st")
  case None
  then show ?thesis using assms by (simp add: date_step_def)
next
  case (Some p)
  obtain L H c where b: "in_range L" "in_range H" "L \<le> H" "lower_bound lo = civil_text L" "upper_bound lo hi = civil_text H"
    "in_range c" "L \<le> c" "c \<le> H" "dp_focused p = civil_text c" "isCalendarDate (dp_today p)"
    by (rule date_invE [OF assms Some])
  let ?m = "max L (min (civil_target L H x c) H)"
  note t = target_refines [OF b(1,2,6), of x]
  have clamp: "clampCalendarDate (civil_text (civil_target L H x c)) (civil_text L) (civil_text H) = civil_text ?m"
    by (rule clamp_civil) (use t in_range_fields(1) b in auto)
  have "wf_civil ?m" using t in_range_fields(1) b(1,2) by (auto simp: max_def min_def)
  moreover have between: "L \<le> ?m" "?m \<le> H" using b(3) by auto
  ultimately have "in_range ?m" by (intro in_range_between [OF b(1,2)])
  then have "\<exists>L H c. in_range L \<and> in_range H \<and> L \<le> H \<and> lower_bound lo = civil_text L \<and> upper_bound lo hi = civil_text H
      \<and> in_range c \<and> L \<le> c \<and> c \<le> H \<and> civil_text ?m = civil_text c"
    using between b(1-5) by (intro exI [of _ L] exI [of _ H] exI [of _ ?m] conjI refl)
  moreover have "date_step lo hi required st (MovePicker x) = st\<lparr>df_picker := Some (p\<lparr>dp_focused := civil_text ?m\<rparr>)\<rparr>"
    using t clamp by (simp only: date_step_def Let_def Some b(4,5,9) picker_move_def date_event.case option.case option.map)
  ultimately show ?thesis using assms b(10) by (simp only: date_inv_def date_field.simps date_picker.simps option.inject) simp
qed

lemma pick_inv:
  assumes "date_inv lo hi st"
  shows "date_inv lo hi (date_step lo hi required st (PickDay d))" "date_inv lo hi (date_step lo hi required st PickToday)"
proof (atomize (full), cases "df_picker st")
  case None
  then show "date_inv lo hi (date_step lo hi required st (PickDay d)) \<and> date_inv lo hi (date_step lo hi required st PickToday)"
    using assms by (simp add: date_step_def)
next
  case (Some p)
  obtain c where c: "in_range c" "dp_focused p = civil_text c" "isCalendarDate (dp_today p)"
    by (rule date_invE [OF assms Some])
  have day: "accepted_date lo hi d" if "day_enabled (lower_bound lo) (upper_bound lo hi) (dp_focused p) d"
    using that row_day_calendar [OF c(1), of _ d] unfolding c(2) day_enabled_def
    by (cases "calendarMonthRows (civil_text c)") (simp, intro accepted_dateI, simp_all)
  have today: "accepted_date lo hi (dp_today p)" if "today_enabled (lower_bound lo) (upper_bound lo hi) (dp_today p)"
    using that c(3) unfolding today_enabled_def by (intro accepted_dateI) simp_all
  have steps: "date_step lo hi required st (PickDay d)
      = (if day_enabled (lower_bound lo) (upper_bound lo hi) (dp_focused p) d then choose_date d st else st)"
    "date_step lo hi required st PickToday
      = (if today_enabled (lower_bound lo) (upper_bound lo hi) (dp_today p) then choose_date (dp_today p) st else st)"
    by (simp_all only: date_step_def Let_def Some date_event.case option.case)
  show "date_inv lo hi (date_step lo hi required st (PickDay d)) \<and> date_inv lo hi (date_step lo hi required st PickToday)"
    unfolding steps using date_inv_choose [OF assms day] date_inv_choose [OF assms today] assms by presburger
qed

lemma date_inv_cong:
  "date_inv lo hi st \<Longrightarrow> df_threw st' = df_threw st \<Longrightarrow> df_picked st' = df_picked st \<Longrightarrow> df_picker st' = df_picker st \<or> df_picker st' = None
    \<Longrightarrow> date_inv lo hi st'"
  unfolding date_inv_def by force

lemma date_inv_step:
  assumes "date_inv lo hi st" "real_today e"
  shows "date_inv lo hi (date_step lo hi required st e)"
  using assms(2) open_inv [OF assms(1)] move_inv [OF assms(1)] pick_inv [OF assms(1)] assms(1)
  by (cases e) (simp_all, (rule date_inv_cong [OF assms(1)]; simp add: date_step_def Let_def validate_input_def)+)

text \<open>C34: Whatever is typed and pressed, in every order, as long as the clock gives calendar dates: no operation of the field
  throws, and every day that was picked from the calendar is a calendar date that the field's own check accepts.\<close>

theorem picked_dates_accepted:
  assumes "\<forall>e \<in> set es. real_today e"
  shows "\<not> df_threw (foldl (date_step lo hi required) (date_field_start v) es)
    \<and> (\<forall>d \<in> set (df_picked (foldl (date_step lo hi required) (date_field_start v) es)). accepted_date lo hi d)"
proof -
  have "date_inv lo hi (date_field_start v)" by (simp add: date_inv_def date_field_start_def)
  with assms have "date_inv lo hi (foldl (date_step lo hi required) (date_field_start v) es)"
    by (induction es rule: rev_induct) (auto intro: date_inv_step)
  then show ?thesis by (simp add: date_inv_def)
qed

lemma picked_dates_accepted_witness:
  "df_picked (foldl (date_step [] ''2026-12-31'' True) (date_field_start ''31.1'') [OpenPicker ''2026-01-31'', PickToday]) = [''2026-01-31'']
   \<and> accepted_date [] ''2026-12-31'' ''2026-01-31''"
proof -
  let ?es = "[OpenPicker ''2026-01-31'', PickToday]"
  have p: "df_picked (foldl (date_step [] ''2026-12-31'' True) (date_field_start ''31.1'') ?es) = [''2026-01-31'']"
    by code_simp
  have "isCalendarDate ''2026-01-31''" by code_simp
  then have "\<forall>e \<in> set ?es. real_today e" by simp
  from picked_dates_accepted [OF this, of "[]" "''2026-12-31''" True "''31.1''", unfolded p] p show ?thesis by simp
qed

end
