(* ===== verification/FactoryRegister.thy ===== *)
theory FactoryRegister
  imports FactoryActions ApiClient
begin

text \<open>
  \<open>features/factory.tsx\<close>: the register of the factory, where a tested board becomes a controller with keys, and its
  shipments are recorded. The equipment form inside it is the one of \<open>FactoryActions\<close>, here without stored equipment;
  \<open>FactoryControllerActions\<close> below each row reports a new kit through the event \<open>KitIssued\<close>.

  \<open>url\<close> is \<open>new URL\<close>, \<open>origin\<close> the address of the customers' site. \<open>fr_files\<close> (the files downloaded), \<open>fr_printed\<close>,
  \<open>fr_received\<close> (the kits that came) and \<open>fr_sent\<close> are not in the code. The kit is typed as the schema types it.
\<close>

section \<open>The view and the state\<close>

record factory_kit =
  kt_controller :: string
  kt_serial :: string
  kt_login :: string
  kt_password :: string
  kt_activation_code :: string
  kt_bootstrap_key :: string
  kt_setup_password :: string
  kt_qr_path :: string

record register_row =
  rr_id :: string
  rr_status :: string

record register_view =
  rv_failed :: bool
  rv_rows :: "register_row list option"
  rv_fetching :: bool
  rv_profiles :: "factory_profile list option"

datatype register_request =
    RegisterPost "string \<rightharpoonup> string" string bool "factory_equipment option"
  | ShipmentPost string string string

datatype register_action = Registering | Shipping

datatype register_print = PublicQr factory_kit string | BuyerCard factory_kit

record factory_register =
  fr_values :: "string \<rightharpoonup> string"
  fr_passed :: bool
  fr_transport :: string
  fr_preparation :: preparation
  fr_child :: "equipment_draft option"
  fr_seen :: "(equipment_draft \<times> factory_profile list option) option"
  fr_downloaded :: bool
  fr_secrets :: "factory_kit option"
  fr_label :: string
  fr_ready :: "string option"
  fr_print_buyer :: bool
  fr_distributor :: string
  fr_reference :: string
  fr_offset :: int
  fr_run :: account_action
  fr_running :: "register_action option"
  fr_refreshed :: nat
  fr_sent :: "register_request list"
  fr_files :: "(string \<times> factory_kit \<times> string) list"
  fr_printed :: "register_print list"
  fr_received :: "factory_kit list"

definition no_preparation :: preparation where
  "no_preparation = \<lparr> pp_equipment = None, pp_valid = True, pp_error = None \<rparr>"

definition register_start :: factory_register where
  "register_start =
     \<lparr> fr_values = [''hardware_model'' \<mapsto> ''KERUMO V3''], fr_passed = False, fr_transport = ''wifi'',
       fr_preparation = no_preparation, fr_child = None, fr_seen = None, fr_downloaded = False, fr_secrets = None,
       fr_label = [], fr_ready = None, fr_print_buyer = False, fr_distributor = [], fr_reference = [], fr_offset = 0,
       fr_run = no_action, fr_running = None, fr_refreshed = 0, fr_sent = [], fr_files = [], fr_printed = [],
       fr_received = [] \<rparr>"

definition register_shown :: "register_view \<Rightarrow> bool" where
  "register_shown v = (\<not> rv_failed v \<and> rv_rows v \<noteq> None)"

text \<open>\<open>validLabelUrl\<close>\<close>

definition label_leads_to :: "(string \<Rightarrow> parsed_url option) \<Rightarrow> factory_kit \<Rightarrow> string \<Rightarrow> bool" where
  "label_leads_to url kit label =
     (case url label of
        None \<Rightarrow> False
      | Some u \<Rightarrow> url_protocol u \<in> set [''https:'', ''http:''] \<and> url_pathname u = kt_qr_path kit
          \<and> url_search u = [] \<and> url_hash u = [] \<and> url_username u = [] \<and> url_password u = [])"

text \<open>The equipment form is mounted while no kit is shown; its effect reports the draft.\<close>

definition register_rendered :: "register_view \<Rightarrow> factory_register \<Rightarrow> factory_register" where
  "register_rendered v st =
     (if register_shown v \<and> fr_secrets st = None
      then (let draft = (case fr_child st of None \<Rightarrow> factoryEquipmentDraft None | Some d \<Rightarrow> d);
                deps = (draft, rv_profiles v) in
            if fr_child st \<noteq> None \<and> fr_seen st = Some deps then st
            else st\<lparr>fr_child := Some draft, fr_seen := Some deps,
                    fr_preparation := validateFactoryEquipment draft (rv_profiles v) None\<rparr>)
      else st\<lparr>fr_child := None, fr_seen := None\<rparr>)"

section \<open>The handlers\<close>

datatype register_event =
    PickTransport string
  | EditValue string string
  | EditEquipment draft_edit
  | TickPassed bool
  | RegisterController
  | RegisterSettled "exn + factory_kit"
  | KitIssued factory_kit
  | EditLabel string
  | QrDrawn
  | PrintPublic
  | PrintBuyer
  | DownloadKit
  | KitSaved
  | EditDistributor string
  | EditShipment string
  | RecordShipment register_row
  | ShipmentSettled "exn + unit"
  | PreviousControllers
  | NextControllers
  | RetryRegister

definition register_fields :: "string list" where
  "register_fields = [''serial_number'', ''hardware_model'', ''hardware_revision'', ''batch'', ''test_reference'']"

definition show_kit :: "string \<Rightarrow> factory_kit \<Rightarrow> factory_register \<Rightarrow> factory_register" where
  "show_kit origin kit st =
     st\<lparr>fr_secrets := Some kit, fr_downloaded := False, fr_label := origin @ kt_qr_path kit,
        fr_received := kit # fr_received st\<rparr>"

definition register_controller :: "factory_register \<Rightarrow> factory_register" where
  "register_controller st =
     (if \<not> fr_passed st \<or> \<not> pp_valid (fr_preparation st) then st
      else (case run_action (fr_run st) of
              None \<Rightarrow> st
            | Some a \<Rightarrow> st\<lparr>fr_run := a, fr_running := Some Registering,
                fr_sent := RegisterPost (fr_values st) (fr_transport st) (fr_passed st) (pp_equipment (fr_preparation st))
                  # fr_sent st\<rparr>))"

definition record_shipment :: "register_row \<Rightarrow> factory_register \<Rightarrow> factory_register" where
  "record_shipment row st =
     (case run_action (fr_run st) of
        None \<Rightarrow> st
      | Some a \<Rightarrow> st\<lparr>fr_run := a, fr_running := Some Shipping,
          fr_sent := ShipmentPost (rr_id row) (fr_distributor st) (fr_reference st) # fr_sent st\<rparr>)"

text \<open>The end of \<open>perform\<close>: its \<open>onSuccess\<close> refreshes the list.\<close>

definition register_done :: "exn + 'a \<Rightarrow> factory_register \<Rightarrow> factory_register" where
  "register_done outcome st =
     st\<lparr>fr_run := run_settled outcome (fr_run st), fr_running := None,
        fr_refreshed := (case outcome of Inl _ \<Rightarrow> fr_refreshed st | Inr _ \<Rightarrow> Suc (fr_refreshed st))\<rparr>"

definition download_kit :: "factory_register \<Rightarrow> factory_register" where
  "download_kit st =
     (case fr_secrets st of
        None \<Rightarrow> st
      | Some kit \<Rightarrow> st\<lparr>fr_files := (''factory-'' @ kt_serial kit @ ''.json'', kit, fr_label st) # fr_files st, fr_downloaded := True\<rparr>)"

definition kit_saved :: "factory_register \<Rightarrow> factory_register" where
  "kit_saved st =
     st\<lparr>fr_secrets := None, fr_values := (fr_values st)(''serial_number'' \<mapsto> []), fr_passed := False,
        fr_preparation := no_preparation\<rparr>"

text \<open>The events of the form, of the kit that is shown, and of the list of shipments.\<close>

definition form_event :: "register_event \<Rightarrow> factory_register \<Rightarrow> factory_register" where
  "form_event e st =
     (case e of
        PickTransport s \<Rightarrow>
          st\<lparr>fr_transport := s,
             fr_values := (fr_values st)(''hardware_model'' \<mapsto> (if s = ''lte'' then ''KERUMO V4'' else ''KERUMO V3''))\<rparr>
      | EditValue k s \<Rightarrow> if k \<in> set register_fields then st\<lparr>fr_values := (fr_values st)(k \<mapsto> s)\<rparr> else st
      | EditEquipment d \<Rightarrow>
          (case fr_child st of
             None \<Rightarrow> st
           | Some draft \<Rightarrow> if aa_busy (fr_run st) \<or> \<not> draft_input_shown draft d then st
                            else st\<lparr>fr_child := Some (draft_edited None d draft)\<rparr>)
      | TickPassed b \<Rightarrow> st\<lparr>fr_passed := b\<rparr>
      | RegisterController \<Rightarrow> if aa_busy (fr_run st) then st else register_controller st
      | _ \<Rightarrow> st)"

definition kit_event :: "(string \<Rightarrow> parsed_url option) \<Rightarrow> factory_kit \<Rightarrow> register_event \<Rightarrow> factory_register \<Rightarrow> factory_register" where
  "kit_event url kit e st =
     (let leads = label_leads_to url kit (fr_label st) in
      case e of
        EditLabel s \<Rightarrow> st\<lparr>fr_label := s\<rparr>
      | QrDrawn \<Rightarrow> if leads then st\<lparr>fr_ready := Some (fr_label st)\<rparr> else st
      | PrintPublic \<Rightarrow>
          if \<not> leads \<or> fr_ready st \<noteq> Some (fr_label st) then st
          else st\<lparr>fr_print_buyer := False, fr_printed := PublicQr kit (fr_label st) # fr_printed st\<rparr>
      | PrintBuyer \<Rightarrow> st\<lparr>fr_print_buyer := True, fr_printed := BuyerCard kit # fr_printed st\<rparr>
      | DownloadKit \<Rightarrow> if leads then download_kit st else st
      | KitSaved \<Rightarrow> if fr_downloaded st then kit_saved st else st
      | _ \<Rightarrow> st)"

definition list_event :: "register_view \<Rightarrow> register_row list \<Rightarrow> register_event \<Rightarrow> factory_register \<Rightarrow> factory_register" where
  "list_event v rows e st =
     (case e of
        EditDistributor s \<Rightarrow> st\<lparr>fr_distributor := s\<rparr>
      | EditShipment s \<Rightarrow> st\<lparr>fr_reference := s\<rparr>
      | RecordShipment row \<Rightarrow>
          if row \<in> set rows \<and> rr_status row = ''ready'' \<and> \<not> (aa_busy (fr_run st) \<or> js_length (js_trim (fr_distributor st)) < 2
            \<or> js_trim (fr_reference st) = [])
          then record_shipment row st else st
      | PreviousControllers \<Rightarrow>
          if fr_offset st = 0 \<or> rv_fetching v then st else st\<lparr>fr_offset := max 0 (fr_offset st - 25)\<rparr>
      | NextControllers \<Rightarrow>
          if length rows < 25 \<or> rv_fetching v then st else st\<lparr>fr_offset := fr_offset st + 25\<rparr>
      | _ \<Rightarrow> st)"

definition register_handle ::
  "(string \<Rightarrow> parsed_url option) \<Rightarrow> string \<Rightarrow> register_view \<Rightarrow> register_event \<Rightarrow> factory_register \<Rightarrow> factory_register" where
  "register_handle url origin v e st =
     (case e of
        RegisterSettled outcome \<Rightarrow>
          if fr_running st \<noteq> Some Registering then st
          else register_done outcome (case outcome of Inl _ \<Rightarrow> st | Inr kit \<Rightarrow> show_kit origin kit st)
      | ShipmentSettled outcome \<Rightarrow> if fr_running st \<noteq> Some Shipping then st else register_done outcome st
      | KitIssued kit \<Rightarrow> show_kit origin kit st
      | RetryRegister \<Rightarrow> if rv_failed v then st\<lparr>fr_refreshed := Suc (fr_refreshed st)\<rparr> else st
      | _ \<Rightarrow>
          (case (rv_failed v, rv_rows v) of
             (False, Some rows) \<Rightarrow>
               list_event v rows e
                 (case fr_secrets st of None \<Rightarrow> form_event e st | Some kit \<Rightarrow> kit_event url kit e st)
           | _ \<Rightarrow> st))"

definition register_step ::
  "(string \<Rightarrow> parsed_url option) \<Rightarrow> string \<Rightarrow> factory_register \<Rightarrow> register_view \<times> register_event \<Rightarrow> factory_register" where
  "register_step url origin st ve =
     register_rendered (fst ve) (register_handle url origin (fst ve) (snd ve) (register_rendered (fst ve) st))"

definition register_run ::
  "(string \<Rightarrow> parsed_url option) \<Rightarrow> string \<Rightarrow> (register_view \<times> register_event) list \<Rightarrow> factory_register" where
  "register_run url origin es = foldl (register_step url origin) register_start es"

section \<open>What is registered\<close>

lemmas register_defs = register_handle_def register_done_def show_kit_def form_event_def kit_event_def list_event_def
  register_controller_def record_shipment_def download_kit_def kit_saved_def

text \<open>The report of the equipment form is the validation of what its effect has seen.\<close>

definition form_reported :: "factory_register \<Rightarrow> bool" where
  "form_reported st \<longleftrightarrow> (fr_child st = None \<longleftrightarrow> fr_seen st = None) \<and> (fr_secrets st \<noteq> None \<longrightarrow> fr_seen st = None)
     \<and> (\<forall>d ps. fr_seen st = Some (d, ps) \<longrightarrow> fr_preparation st = validateFactoryEquipment d ps None)"

lemma rendered_reported:
  assumes "fr_secrets st = None \<Longrightarrow> form_reported st"
  shows "form_reported (register_rendered v st)"
  using assms by (auto simp: register_rendered_def Let_def form_reported_def split: option.split)

lemma rendered_form:
  assumes "register_shown v" "fr_secrets st = None" "form_reported st"
  shows "\<exists>d. fr_child (register_rendered v st) = Some d
    \<and> fr_preparation (register_rendered v st) = validateFactoryEquipment d (rv_profiles v) None"
  using assms by (auto simp: register_rendered_def Let_def form_reported_def split: option.split)

lemma rendered_fields [simp]:
  "fr_values (register_rendered v st) = fr_values st" "fr_passed (register_rendered v st) = fr_passed st"
  "fr_transport (register_rendered v st) = fr_transport st" "fr_secrets (register_rendered v st) = fr_secrets st"
  "fr_sent (register_rendered v st) = fr_sent st" "fr_run (register_rendered v st) = fr_run st"
  "fr_files (register_rendered v st) = fr_files st" "fr_received (register_rendered v st) = fr_received st"
  "fr_downloaded (register_rendered v st) = fr_downloaded st" "fr_printed (register_rendered v st) = fr_printed st"
  "fr_label (register_rendered v st) = fr_label st" "fr_running (register_rendered v st) = fr_running st"
  "fr_offset (register_rendered v st) = fr_offset st"
  by (simp_all add: register_rendered_def Let_def)

lemma handle_reported:
  assumes "form_reported st" "fr_secrets (register_handle url origin v e st) = None"
  shows "form_reported (register_handle url origin v e st)"
  using assms
  by (cases e) (auto simp: register_defs form_reported_def Let_def run_action_def split: if_splits option.splits sum.splits bool.splits)

lemma register_run_reported: "form_reported (register_run url origin es)"
  unfolding register_run_def
proof (rule run_invariant_all)
  show "form_reported register_start" by (simp add: form_reported_def register_start_def)
  show "form_reported (register_step url origin st ve)" if "form_reported st" for st ve
    unfolding register_step_def using that by (intro rendered_reported handle_reported)
qed

text \<open>The request that an event makes.\<close>

definition register_request_of :: "register_view \<times> register_event \<Rightarrow> factory_register \<Rightarrow> register_request option" where
  "register_request_of ve st0 =
     (let st = register_rendered (fst ve) st0 in
      if \<not> register_shown (fst ve) \<or> aa_busy (fr_run st) \<or> aa_pending (fr_run st) then None
      else (case snd ve of
              RegisterController \<Rightarrow>
                if fr_secrets st = None \<and> fr_passed st \<and> pp_valid (fr_preparation st)
                then Some (RegisterPost (fr_values st) (fr_transport st) (fr_passed st) (pp_equipment (fr_preparation st)))
                else None
            | RecordShipment row \<Rightarrow>
                if row \<in> set (the (rv_rows (fst ve))) \<and> rr_status row = ''ready''
                  \<and> 2 \<le> js_length (js_trim (fr_distributor st)) \<and> js_trim (fr_reference st) \<noteq> []
                then Some (ShipmentPost (rr_id row) (fr_distributor st) (fr_reference st)) else None
            | _ \<Rightarrow> None))"

lemma handle_sends:
  "fr_sent (register_handle url origin v e (register_rendered v st)) =
     (case register_request_of (v, e) st of None \<Rightarrow> fr_sent st | Some r \<Rightarrow> r # fr_sent st)"
  by (cases e) (auto simp: register_defs register_request_of_def register_shown_def Let_def run_action_def
      split: option.split sum.split bool.split)

interpretation register_log: request_log "register_step url origin" register_request_of fr_sent
  by unfold_locales (simp add: register_step_def handle_sends)

lemma register_sent:
  assumes "r \<in> set (fr_sent (register_run url origin es))"
  obtains xs v e zs where "es = xs @ (v, e) # zs" "register_request_of (v, e) (register_run url origin xs) = Some r"
proof -
  have "r \<notin> set (fr_sent register_start)" by (simp add: register_start_def)
  from register_log.sent_requested [OF assms [unfolded register_run_def] this] that show ?thesis
    unfolding register_run_def by (metis surj_pair)
qed

text \<open>A shipment is recorded only for a ready controller of the list, with a receiver and a document.\<close>

lemma shipments_of_ready:
  assumes "ShipmentPost cid distributor reference \<in> set (fr_sent (register_run url origin es))"
  shows "\<exists>v row rows. (v, RecordShipment row) \<in> set es \<and> rv_rows v = Some rows \<and> row \<in> set rows \<and> rr_id row = cid
    \<and> rr_status row = ''ready'' \<and> 2 \<le> js_length (js_trim distributor) \<and> js_trim reference \<noteq> []"
proof -
  from register_sent [OF assms] obtain xs v e zs where "es = xs @ (v, e) # zs"
    "register_request_of (v, e) (register_run url origin xs) = Some (ShipmentPost cid distributor reference)" .
  then show ?thesis
    by (cases e) (auto simp: register_request_of_def Let_def register_shown_def split: if_splits)
qed

text \<open>A controller is registered exactly as it was prepared on the screen: in every run of the page, each registration
  sent was submitted while the box of the passed factory test was ticked and the equipment form was shown; it carries the
  texts and the network of the form, and the equipment of the draft that was shown: none for a controller without a
  cabinet, and otherwise a reviewed one with limits 0 <= min < max <= 50 and a profile of the catalogue that was tested
  for its model.\<close>

theorem controllers_registered_as_prepared:
  assumes "RegisterPost values transport passed equipment \<in> set (fr_sent (register_run url origin es))"
  shows "\<exists>xs v zs draft. es = xs @ (v, RegisterController) # zs
    \<and> (let st = register_rendered v (register_run url origin xs) in
       fr_child st = Some draft \<and> fr_passed st \<and> passed \<and> values = fr_values st \<and> transport = fr_transport st
       \<and> (equipment = None \<longleftrightarrow> dr_supply draft = ControllerOnly)
       \<and> (\<forall>e. equipment = Some e \<longrightarrow> dr_reviewed draft \<and> limits_fit e \<and> fe_model e = js_trim (dr_model draft)
            \<and> (\<exists>items p. rv_profiles v = Some items \<and> p \<in> set items \<and> profile_fits p e)))"
proof -
  from register_sent [OF assms] obtain xs v e zs where es: "es = xs @ (v, e) # zs"
    and req: "register_request_of (v, e) (register_run url origin xs) = Some (RegisterPost values transport passed equipment)" .
  let ?st = "register_rendered v (register_run url origin xs)"
  from req have e: "e = RegisterController" and shown: "register_shown v" "fr_secrets (register_run url origin xs) = None"
    and f: "fr_passed ?st" "passed" "values = fr_values ?st" "transport = fr_transport ?st" "pp_valid (fr_preparation ?st)"
      "equipment = pp_equipment (fr_preparation ?st)"
    by (cases e; auto simp: register_request_of_def Let_def split: if_splits)+
  from rendered_form [OF shown register_run_reported] obtain draft where d: "fr_child ?st = Some draft"
    "fr_preparation ?st = validateFactoryEquipment draft (rv_profiles v) None" by blast
  from factory_equipment_checked [OF d(2)] f(5) have
    "equipment = None \<longleftrightarrow> dr_supply draft = ControllerOnly"
    "\<forall>e. equipment = Some e \<longrightarrow> dr_reviewed draft \<and> limits_fit e \<and> fe_model e = js_trim (dr_model draft)
       \<and> (\<exists>items p. rv_profiles v = Some items \<and> p \<in> set items \<and> profile_fits p e)"
    unfolding f(6) by blast+
  with es e d f(1-4) show ?thesis unfolding Let_def by blast
qed

section \<open>Kits\<close>

text \<open>The arrival of a kit, and its file.\<close>

fun kit_arrives :: "factory_register \<Rightarrow> register_event \<Rightarrow> bool" where
  "kit_arrives st (KitIssued _) = True"
| "kit_arrives st (RegisterSettled outcome) = (fr_running st = Some Registering \<and> (\<exists>kit. outcome = Inr kit))"
| "kit_arrives st _ = False"

definition kit_on_file :: "(string \<Rightarrow> parsed_url option) \<Rightarrow> factory_kit \<Rightarrow> factory_register \<Rightarrow> bool" where
  "kit_on_file url kit st = list_ex (\<lambda>(name, k, label). k = kit \<and> label_leads_to url kit label) (fr_files st)"

definition kit_inv :: "(string \<Rightarrow> parsed_url option) \<Rightarrow> factory_register \<Rightarrow> bool" where
  "kit_inv url st \<longleftrightarrow> (\<forall>k \<in> set (fr_received st). fr_secrets st = Some k \<or> kit_on_file url k st)
     \<and> (\<forall>k. fr_secrets st = Some k \<and> fr_downloaded st \<longrightarrow> kit_on_file url k st)"

text \<open>No kit arrives while another one is shown.\<close>

definition kits_apart :: "(string \<Rightarrow> parsed_url option) \<Rightarrow> string \<Rightarrow> (register_view \<times> register_event) list \<Rightarrow> bool" where
  "kits_apart url origin es =
     along (\<lambda>st ve. kit_arrives st (snd ve) \<longrightarrow> fr_secrets st = None) (register_step url origin) register_start es"

lemma kit_inv_rendered [simp]: "kit_inv url (register_rendered v st) = kit_inv url st"
  by (simp add: kit_inv_def kit_on_file_def)

lemma kit_arrives_rendered [simp]: "kit_arrives (register_rendered v st) e = kit_arrives st e"
  by (cases e) simp_all

lemma handle_kits:
  assumes "kit_inv url st" "kit_arrives st e \<longrightarrow> fr_secrets st = None"
  shows "kit_inv url (register_handle url origin v e st)"
  using assms
  by (cases e) (auto simp: register_defs kit_inv_def kit_on_file_def Let_def run_action_def
      split: if_splits option.splits sum.splits bool.splits)

lemma kits_run: "kits_apart url origin es \<Longrightarrow> kit_inv url (register_run url origin es)"
  unfolding register_run_def
proof (rule run_invariant)
  show "kit_inv url register_start" by (simp add: kit_inv_def register_start_def)
  show "kit_inv url (register_step url origin st ve)" if "kit_inv url st" "kit_arrives st (snd ve) \<longrightarrow> fr_secrets st = None" for st ve
    using that handle_kits [of url "register_rendered (fst ve) st" "snd ve"] by (simp add: register_step_def)
qed (simp add: kits_apart_def)


text \<open>What the address of a label is.\<close>

lemma label_address:
  "label_leads_to url kit label \<longleftrightarrow> (\<exists>u. url label = Some u \<and> (url_protocol u = ''https:'' \<or> url_protocol u = ''http:'')
    \<and> url_pathname u = kt_qr_path kit \<and> url_search u = [] \<and> url_hash u = [] \<and> url_username u = [] \<and> url_password u = [])"
  by (auto simp: label_leads_to_def split: option.split)

text \<open>A label is printed only for such an address, of the kit that is shown.\<close>

lemma labels_printed:
  assumes "PublicQr kit label \<in> set (fr_printed (register_run url origin es))"
  shows "label_leads_to url kit label"
proof -
  have "\<forall>k l. PublicQr k l \<in> set (fr_printed (register_run url origin es)) \<longrightarrow> label_leads_to url k l"
    unfolding register_run_def
  proof (rule run_invariant_all)
    show "\<forall>k l. PublicQr k l \<in> set (fr_printed (register_step url origin st ve)) \<longrightarrow> label_leads_to url k l"
      if "\<forall>k l. PublicQr k l \<in> set (fr_printed st) \<longrightarrow> label_leads_to url k l" for st ve
      using that by (cases "snd ve") (auto simp: register_step_def register_defs Let_def run_action_def
        split: if_splits option.splits sum.splits bool.splits)
  qed (simp add: register_start_def)
  with assms show ?thesis by blast
qed

text \<open>The list is read in pages of 25 rows.\<close>

lemma register_offset: "0 \<le> fr_offset (register_run url origin es) \<and> 25 dvd fr_offset (register_run url origin es)"
  unfolding register_run_def
proof (rule run_invariant_all)
  show "0 \<le> fr_offset (register_step url origin st ve) \<and> 25 dvd fr_offset (register_step url origin st ve)"
    if "0 \<le> fr_offset st \<and> 25 dvd fr_offset st" for st ve
    using that by (cases "snd ve") (auto simp: register_step_def register_defs Let_def run_action_def max_def
      split: if_splits option.splits sum.splits bool.splits)
qed (simp add: register_start_def)

section \<open>Examples\<close>

definition register_page :: register_view where
  "register_page = \<lparr> rv_failed = False, rv_rows = Some [], rv_fetching = False, rv_profiles = Some [sample_profile] \<rparr>"

definition web_address :: "string \<Rightarrow> parsed_url option" where
  "web_address s = Some \<lparr> url_protocol = ''https:'', url_username = [], url_password = [], url_search = [], url_hash = [],
     url_pathname = s, url_origin = [] \<rparr>"

definition sample_kit :: "string \<Rightarrow> factory_kit" where
  "sample_kit c = \<lparr> kt_controller = c, kt_serial = c, kt_login = [], kt_password = [], kt_activation_code = [],
     kt_bootstrap_key = [], kt_setup_password = [], kt_qr_path = ''/connect/'' @ c \<rparr>"

definition prepare_and_register :: "(register_view \<times> register_event) list" where
  "prepare_and_register = map (Pair register_page)
     ([TickPassed True] @ map EditEquipment [DraftSupply CabinetSupply, DraftSeries ''SU600'', DraftModel ''SU600-D2'',
       DraftFrequency ''50'', DraftMin ''5'', DraftMax ''50'', DraftReviewed True] @ [RegisterController])"

definition posted :: "register_request \<Rightarrow> (bool \<times> string option) option" where
  "posted r = (case r of RegisterPost values transport passed equipment \<Rightarrow> Some (passed, map_option fe_model equipment) | _ \<Rightarrow> None)"

lemma prepared_posted:
  "map posted (fr_sent (register_run web_address [] prepare_and_register)) = [Some (True, Some ''SU600-D2'')]"
  by code_simp

lemma controllers_registered_as_prepared_witness:
  "\<exists>e (draft :: equipment_draft). fe_model e = ''SU600-D2'' \<and> dr_reviewed draft \<and> limits_fit e \<and> fe_model e = js_trim (dr_model draft)
    \<and> profile_fits sample_profile e"
proof -
  from prepared_posted obtain r where r: "r \<in> set (fr_sent (register_run web_address [] prepare_and_register))"
    "posted r = Some (True, Some ''SU600-D2'')" by (cases "fr_sent (register_run web_address [] prepare_and_register)") auto
  from r(2) obtain vs transport passed e where e: "r = RegisterPost vs transport passed (Some e)" and model: "fe_model e = ''SU600-D2''"
    unfolding posted_def by (auto split: register_request.splits)
  note sent = r(1) [unfolded e]
  from controllers_registered_as_prepared [OF sent] obtain xs v zs and draft :: equipment_draft where
    es: "prepare_and_register = xs @ (v, RegisterController) # zs" and "dr_reviewed draft" "limits_fit e"
    "fe_model e = js_trim (dr_model draft)" and p: "\<exists>items (p :: factory_profile). rv_profiles v = Some items \<and> p \<in> set items \<and> profile_fits p e"
    unfolding Let_def by blast
  moreover have "(v, RegisterController) \<in> set prepare_and_register" unfolding es by simp
  then have "v = register_page" by (auto simp: prepare_and_register_def)
  with p have "profile_fits sample_profile e" by (auto simp: register_page_def)
  ultimately show ?thesis using model by blast
qed

text \<open>A kit that is issued from a row, saved to a file and put away.\<close>

definition save_kit :: "(register_view \<times> register_event) list" where
  "save_kit = map (Pair register_page) [KitIssued (sample_kit ''1''), DownloadKit, KitSaved]"


text \<open>A kit that arrives while another one is shown takes its place, and the first one is lost without a file: the rows
  below can issue a kit at any time.\<close>

lemma kit_overwritten:
  "(let st = register_run url origin [(v, KitIssued k1), (v, KitIssued k2)] in
     fr_received st = [k2, k1] \<and> fr_secrets st = Some k2 \<and> fr_files st = [])"
  by (simp add: Let_def register_run_def register_step_def register_handle_def show_kit_def register_start_def)

end
