(* ===== verification/LoginPage.thy ===== *)
theory LoginPage
  imports LoginModel AuthSession AccountAction
begin

text \<open>
  \<open>features/login.tsx\<close>: the page with the login form. It sends one checked attempt at a time, waits as long as the server
  asked, and leaves for the place the person came from once the session is authenticated.

  The events carry the session of the rendering, the address's \<open>returnTo\<close> and the clock; \<open>portal\<close> is
  \<open>NEXT_PUBLIC_PORTAL_MODE\<close> and \<open>resolve\<close> the platform's \<open>new URL\<close>. \<open>SessionSeen\<close> is the effect that runs when the
  status changes, \<open>LoginSettled\<close> the rest of \<open>submitLogin\<close> when \<open>login\<close> returns. \<open>lg_sent\<close> and \<open>lg_left\<close> (the
  calls of \<open>login\<close> and of \<open>router.replace\<close>) are not in the code.
\<close>

section \<open>The state\<close>

record login_view =
  lv_session :: session
  lv_return :: "string option"
  lv_now :: int

record login_page =
  lg_email :: string
  lg_password :: string
  lg_otp :: string
  lg_errors :: login_errors
  lg_form_error :: string
  lg_focus_errors :: login_errors
  lg_tone :: string
  lg_submitting :: bool
  lg_cooldown :: cooldown
  lg_onboarding :: "string option"
  lg_redirected :: "string option"
  lg_sent :: "(string \<times> string \<times> string option) list"
  lg_left :: "string list"

definition login_start :: "cooldown \<Rightarrow> login_page" where
  "login_start c =
     \<lparr> lg_email = [], lg_password = [], lg_otp = [], lg_errors = no_errors, lg_form_error = [], lg_focus_errors = no_errors,
       lg_tone = ''danger'', lg_submitting = False, lg_cooldown = c, lg_onboarding = None, lg_redirected = None,
       lg_sent = [], lg_left = [] \<rparr>"

fun session_busy :: "session \<Rightarrow> bool" where
  "session_busy (Restoring _) = True"
| "session_busy (LoggingOut _ _) = True"
| "session_busy _ = False"

fun session_authenticated :: "session \<Rightarrow> bool" where
  "session_authenticated (Authenticated _) = True"
| "session_authenticated _ = False"

text \<open>\<open>currentLoginDestination\<close>\<close>

definition currentLoginDestination ::
  "(string \<Rightarrow> string \<Rightarrow> parsed_url option) \<Rightarrow> string option \<Rightarrow> string option \<Rightarrow> string" where
  "currentLoginDestination resolve portal target =
     (if portal = Some ''staff'' \<and> (target = None \<or> target = Some []) then ''/operations''
      else safeLoginReturnTo resolve portal target)"

text \<open>\<open>/^\/connect\/([a-f0-9-]{36})$/i\<close> and the link for a new account.\<close>

definition controller_return :: "string \<Rightarrow> string option" where
  "controller_return s =
     (if length s = 45 \<and> js_lower (take 9 s) = ''/connect/'' \<and> list_all (\<lambda>c. is_hex c \<or> c = CHR ''-'') (drop 9 s)
      then Some (drop 9 s) else None)"

definition registrationHref :: "string \<Rightarrow> string" where
  "registrationHref returnTo =
     (case controller_return returnTo of None \<Rightarrow> ''/register'' | Some i \<Rightarrow> ''/register?controller='' @ i)"

section \<open>The handlers\<close>

definition any_error :: "login_errors \<Rightarrow> bool" where
  "any_error e = (le_email e \<noteq> None \<or> le_password e \<noteq> None \<or> le_otp e \<noteq> None)"

definition entered :: "login_page \<Rightarrow> login_form" where
  "entered st = \<lparr> lf_email = lg_email st, lf_password = lg_password st, lf_otp = Some (lg_otp st) \<rparr>"

text \<open>The first guard of \<open>submitLogin\<close>.\<close>

definition login_blocked :: "login_view \<Rightarrow> login_page \<Rightarrow> bool" where
  "login_blocked v st =
     (lg_submitting st \<or> session_busy (lv_session v) \<or> session_authenticated (lv_session v) \<or> 0 < retrySeconds (lg_cooldown st))"

definition submit_login :: "login_view \<Rightarrow> login_page \<Rightarrow> login_page" where
  "submit_login v st =
     (if login_blocked v st then st
      else (let (email, errors) = validateLoginForm (entered st); st1 = st\<lparr>lg_errors := errors, lg_form_error := []\<rparr> in
            if any_error errors then st1
            else st1\<lparr>lg_submitting := True,
                   lg_sent := (email, lg_password st, if lg_otp st = [] then None else Some (lg_otp st)) # lg_sent st\<rparr>))"

definition show_failure :: "int \<Rightarrow> exn \<Rightarrow> login_page \<Rightarrow> login_page" where
  "show_failure now e st =
     (let p = loginErrorPresentation e in
      st\<lparr>lg_focus_errors := lp_errors p,
         lg_form_error := (if 0 < lp_retry_after p then [] else lp_summary p),
         lg_tone := (case lp_tone p of None \<Rightarrow> ''danger'' | Some t \<Rightarrow> t),
         lg_errors := lp_errors p,
         lg_password := (if lp_clear_password p then [] else lg_password st),
         lg_cooldown := (if 0 < lp_retry_after p then cooldown_block now (lp_retry_after p) (lg_cooldown st) else lg_cooldown st)\<rparr>)"

fun was_aborted :: "exn \<Rightarrow> bool" where
  "was_aborted (ApiExn e) = (err_kind e = Aborted)"
| "was_aborted (JsExn _) = False"

definition login_settled ::
  "(string \<Rightarrow> string \<Rightarrow> parsed_url option) \<Rightarrow> string option \<Rightarrow> int \<Rightarrow> exn + string option \<Rightarrow> login_page \<Rightarrow> login_page" where
  "login_settled resolve portal now outcome st =
     (if \<not> lg_submitting st then st
      else (let st1 = (case outcome of
                  Inr path \<Rightarrow> st\<lparr>lg_onboarding := (case path of None \<Rightarrow> None
                                  | Some p \<Rightarrow> if p = [] then None else Some (safeLoginReturnTo resolve portal (Some p))),
                                lg_password := []\<rparr>
                | Inl e \<Rightarrow> if was_aborted e then st else show_failure now e st)
            in st1\<lparr>lg_submitting := False\<rparr>))"

text \<open>The effect that leaves the page.\<close>

definition session_seen ::
  "(string \<Rightarrow> string \<Rightarrow> parsed_url option) \<Rightarrow> string option \<Rightarrow> login_view \<Rightarrow> login_page \<Rightarrow> login_page" where
  "session_seen resolve portal v st =
     (if \<not> session_authenticated (lv_session v) then st\<lparr>lg_redirected := None\<rparr>
      else (let destination = (case lg_onboarding st of Some d \<Rightarrow> d | None \<Rightarrow> currentLoginDestination resolve portal (lv_return v)) in
            if lg_redirected st = Some destination then st
            else st\<lparr>lg_redirected := Some destination, lg_left := destination # lg_left st\<rparr>))"

datatype login_event =
    TypeEmail string
  | TypePassword string
  | TypeOtp string
  | SubmitLogin
  | LoginSettled "exn + string option"
  | SessionSeen
  | CooldownTick
  | CooldownStored "string option"

definition login_step ::
  "(string \<Rightarrow> string \<Rightarrow> parsed_url option) \<Rightarrow> string option \<Rightarrow> login_page \<Rightarrow> login_view \<times> login_event \<Rightarrow> login_page" where
  "login_step resolve portal st ve =
     (let v = fst ve; off = (lg_submitting st \<or> session_busy (lv_session v)) in
      case snd ve of
        TypeEmail s \<Rightarrow> if off then st else st\<lparr>lg_email := s, lg_errors := (lg_errors st)\<lparr>le_email := None\<rparr>\<rparr>
      | TypePassword s \<Rightarrow> if off then st else st\<lparr>lg_password := s, lg_errors := (lg_errors st)\<lparr>le_password := None\<rparr>\<rparr>
      | TypeOtp s \<Rightarrow> st\<lparr>lg_otp := s, lg_errors := (lg_errors st)\<lparr>le_otp := None\<rparr>\<rparr>
      | SubmitLogin \<Rightarrow> submit_login v st
      | LoginSettled outcome \<Rightarrow> login_settled resolve portal (lv_now v) outcome st
      | SessionSeen \<Rightarrow> session_seen resolve portal v st
      | CooldownTick \<Rightarrow> st\<lparr>lg_cooldown := cooldown_tick (lv_now v) (lg_cooldown st)\<rparr>
      | CooldownStored t \<Rightarrow> st\<lparr>lg_cooldown := (lg_cooldown st)\<lparr>cd_text := t\<rparr>\<rparr>)"

definition login_run ::
  "(string \<Rightarrow> string \<Rightarrow> parsed_url option) \<Rightarrow> string option \<Rightarrow> cooldown \<Rightarrow> (login_view \<times> login_event) list \<Rightarrow> login_page" where
  "login_run resolve portal c es = foldl (login_step resolve portal) (login_start c) es"

text \<open>The text of the button.\<close>

definition login_button :: "login_view \<Rightarrow> login_page \<Rightarrow> string" where
  "login_button v st =
     (case lv_session v of
        LoggingOut _ _ \<Rightarrow> (uk ''Zaverwu#mo sesi$&'')
      | Restoring _ \<Rightarrow> (uk ''Vidnovl$#mo sesi$&'')
      | _ \<Rightarrow> if lg_submitting st then (uk ''Perevir@#mo&'')
             else if 0 < retrySeconds (lg_cooldown st)
             then (uk ''Sprobujte ^erez '') @ show_int (retrySeconds (lg_cooldown st)) @ (uk '' s'')
             else (uk ''Uvijty''))"

section \<open>Attempts\<close>

text \<open>What a checked attempt satisfies.\<close>

definition checked_attempt :: "string \<times> string \<times> string option \<Rightarrow> bool" where
  "checked_attempt a =
     (case a of (email, password, otp) \<Rightarrow>
        email \<noteq> [] \<and> js_length email \<le> 254 \<and> (if js_includes email ''@'' then email_pattern email else kit_login email)
        \<and> password \<noteq> [] \<and> js_length password \<le> 128 \<and> (\<forall>code. otp = Some code \<longrightarrow> otp_pattern code))"

lemma valid_form_checked:
  assumes "validateLoginForm (entered st) = (email, errors)" "\<not> any_error errors"
  shows "checked_attempt (email, lg_password st, if lg_otp st = [] then None else Some (lg_otp st))"
    and "email = js_lower (js_trim (lg_email st))"
  using assms
  by (auto simp: validateLoginForm_def entered_def any_error_def checked_attempt_def Let_def MAX_EMAIL_LENGTH_def
      MAX_PASSWORD_LENGTH_def split: if_splits)

definition attempt_of :: "login_view \<times> login_event \<Rightarrow> login_page \<Rightarrow> (string \<times> string \<times> string option) option" where
  "attempt_of ve st =
     (if snd ve = SubmitLogin \<and> \<not> login_blocked (fst ve) st \<and> \<not> any_error (snd (validateLoginForm (entered st)))
      then Some (fst (validateLoginForm (entered st)), lg_password st, if lg_otp st = [] then None else Some (lg_otp st)) else None)"

lemmas login_defs = login_step_def submit_login_def login_settled_def session_seen_def show_failure_def

interpretation login_log: request_log "login_step resolve portal" attempt_of lg_sent
proof unfold_locales
  fix st :: login_page and ve :: "login_view \<times> login_event"
  show "lg_sent (login_step resolve portal st ve) = (case attempt_of ve st of None \<Rightarrow> lg_sent st | Some r \<Rightarrow> r # lg_sent st)"
    by (cases "snd ve") (auto simp: login_defs attempt_of_def Let_def split: option.split sum.split prod.split)
qed

text \<open>C36: An attempt to log in is sent only when it can be one: in every run of the page, each call of the server was made by
  submitting the form while the session was neither busy nor authenticated, no other attempt was under way and no waiting
  time was left; its login is the trimmed, lower-case text of the field and has the form of a login, its password, of at
  most 128 characters, is the one in the field, and a code, if there is one, has six digits.\<close>

theorem attempts_checked:
  assumes "a \<in> set (lg_sent (login_run resolve portal c es))"
  shows "\<exists>xs v zs. es = xs @ (v, SubmitLogin) # zs
    \<and> (let st = login_run resolve portal c xs in
       \<not> lg_submitting st \<and> \<not> session_busy (lv_session v) \<and> \<not> session_authenticated (lv_session v)
       \<and> retrySeconds (lg_cooldown st) = 0 \<and> checked_attempt a
       \<and> a = (js_lower (js_trim (lg_email st)), lg_password st, if lg_otp st = [] then None else Some (lg_otp st)))"
proof -
  have "a \<notin> set (lg_sent (login_start c))" by (simp add: login_start_def)
  from login_log.sent_requested [OF assms [unfolded login_run_def] this]
  obtain xs v e zs where es: "es = xs @ (v, e) # zs"
    and req: "attempt_of (v, e) (login_run resolve portal c xs) = Some a"
    unfolding login_run_def by (metis surj_pair)
  let ?st = "login_run resolve portal c xs"
  obtain email errors where form: "validateLoginForm (entered ?st) = (email, errors)" by (cases "validateLoginForm (entered ?st)")
  from req form have e: "e = SubmitLogin" "\<not> login_blocked v ?st" "\<not> any_error errors"
    "a = (email, lg_password ?st, if lg_otp ?st = [] then None else Some (lg_otp ?st))"
    by (auto simp: attempt_of_def split: if_splits)
  have "0 \<le> retrySeconds (lg_cooldown ?st)" by (simp add: retrySeconds_def split: option.split)
  with es e valid_form_checked [OF form e(3)] show ?thesis by (auto simp: login_blocked_def Let_def)
qed

section \<open>Leaving the page\<close>

text \<open>A place below one of the pages of the application.\<close>

definition own_page :: "string \<Rightarrow> bool" where
  "own_page s \<longleftrightarrow> (\<exists>a \<in> set ALLOWED_RETURN_PATHS. starts_with a s) \<and> starts_with ''/'' s \<and> \<not> starts_with ''//'' s"

lemma destination_own: "own_page (currentLoginDestination resolve portal target)" "own_page (safeLoginReturnTo resolve portal value)"
proof -
  have "own_page ''/operations''"
    unfolding own_page_def by (auto simp: ALLOWED_RETURN_PATHS_def starts_with_def)
  moreover have safe: "own_page (safeLoginReturnTo resolve portal v)" for v
    using login_return_safe [of resolve portal v] by (auto simp: own_page_def)
  ultimately show "own_page (safeLoginReturnTo resolve portal value)" "own_page (currentLoginDestination resolve portal target)" by (simp_all add: currentLoginDestination_def)
qed

definition left_inv :: "login_page \<Rightarrow> bool" where
  "left_inv st \<longleftrightarrow> (\<forall>d \<in> set (lg_left st). own_page d) \<and> (\<forall>d. lg_onboarding st = Some d \<longrightarrow> own_page d)"

lemma left_inv_step: "left_inv st \<Longrightarrow> left_inv (login_step resolve portal st ve)"
  using destination_own
  by (cases "snd ve") (auto simp: login_defs left_inv_def Let_def split: option.splits sum.splits prod.splits if_splits)


text \<open>The page of the first steps is read when the status changes: when the session is seen before the rest of the
  submission runs, the page leaves for the address's place and the one that the server named is not used.\<close>

lemma onboarding_after_session:
  assumes "session_authenticated (lv_session v)" "lg_submitting st" "lg_onboarding st = None" "lg_redirected st = None"
  shows "lg_left (login_step resolve portal (login_step resolve portal st (v, SessionSeen)) (v, LoginSettled (Inr (Some p))))
    = currentLoginDestination resolve portal (lv_return v) # lg_left st"
  using assms by (simp add: login_defs Let_def)

text \<open>A refusal with a waiting time clears the password and blocks the form.\<close>

lemma rate_limit_blocks:
  assumes "err_kind e = RateLimited" "err_retry_after e = Some n" "1 \<le> n" "lg_submitting st" "cd_readable (lg_cooldown st)"
    and "0 < lv_now v" "lv_now v + n * 1000 \<le> max_safe"
  shows "lg_password (login_step resolve portal st (v, LoginSettled (Inl (ApiExn e)))) = []
    \<and> login_blocked v' (login_step resolve portal st (v, LoginSettled (Inl (ApiExn e))))"
proof -
  have p: "lp_retry_after (loginErrorPresentation (ApiExn e)) = n" "lp_clear_password (loginErrorPresentation (ApiExn e))"
    using assms(1-3) by (simp_all add: loginErrorPresentation_def plain_presentation_def Let_def)
  have "n \<le> retrySeconds (cooldown_block (lv_now v) n (lg_cooldown st))"
    using cooldown_holds [OF assms(5,6) _ assms(7)] assms(3) by auto
  then show ?thesis
    using assms p by (simp add: login_defs Let_def login_blocked_def)
qed

section \<open>Examples\<close>

definition first_attempt :: "(login_view \<times> login_event) list" where
  "first_attempt = map (Pair \<lparr> lv_session = Anonymous [], lv_return = None, lv_now = 1000 \<rparr>)
     [TypeEmail '' Owner@Example.com'', TypePassword ''secret'', SubmitLogin]"

lemma attempts_checked_witness:
  "checked_attempt (''owner@example.com'', ''secret'', None)"
proof -
  let ?c = "\<lparr> cd_readable = True, cd_text = None, cd_memory = None, cd_clock = 0 \<rparr>"
  have "lg_sent (login_run (\<lambda>_ _. None) None ?c first_attempt) = [(''owner@example.com'', ''secret'', None)]" by code_simp
  then have "(''owner@example.com'', ''secret'', None) \<in> set (lg_sent (login_run (\<lambda>_ _. None) None ?c first_attempt))" by simp
  from attempts_checked [OF this] show ?thesis by (auto simp: Let_def)
qed


end
