(* ===== verification/Spec2Isabelle.thy ===== *)
theory Spec2Isabelle
  imports MapBounded TelemetryChart SchedulePanel LoginModel VfdSettingsChange WorkspaceGuard Acknowledgement PanelQuery
    EquipmentActions ControllerLifecycle FactoryActions Onboarding MemberAccess AccountForms AccountSecurity InstallerForm
    StaffMembers StaffObservability StaffInvitation DeviceView Feeds DatePicker FactoryRegister LoginPage
begin

text \<open>
  The verification development of the web client of the repository, \<open>src/frontend/src\<close>: the program through which the
  owners, installers and factory of a fleet of pump controllers watch and command them. It holds no data of its own; its
  duty is to believe only what it has checked, to send only what a person confirmed while it was still true, and to keep
  sessions, tabs and organizations apart. The theories follow its parts in this sense.

  \<^bold>\<open>Foundations.\<close> \<open>Prelude\<close> has the sequencing of fallible code and list facts; \<open>JsValue\<close> the JavaScript values
  (numbers as exact rationals with \<open>NaN\<close> and infinities, texts as UTF-8 bytes, \<open>unknown\<close> payloads as \<open>json\<close>), with the
  Ukrainian literals of the code spelled in ASCII; \<open>Numerals\<close> how numbers are printed and read back; \<open>JsDate\<close> and
  \<open>Calendar\<close> dates; \<open>MapBounded\<close> the bounded scheduler (\<open>lib/api/inventory.ts\<close>) as a step relation.

  \<^bold>\<open>Validators\<close> (\<open>lib/api\<close>). \<open>ApiErrors\<close>, \<open>Access\<close>, \<open>Inventory\<close>, \<open>Overview\<close>, \<open>Diagnostics\<close>, \<open>Commands\<close>, \<open>Alarms\<close>,
  \<open>Schedules\<close>, \<open>Programs\<close>, \<open>TelemetrySeries\<close>, \<open>Readiness\<close>, \<open>Equipment\<close>, \<open>VfdSettings\<close> and the first half of \<open>Onboarding\<close>
  translate one file each. A validator is a function from \<open>json\<close> to an error or the value that the client keeps, check by
  check in the order of the code. Their lemmas state what an accepted value satisfies: well-formedness, identity with what
  was asked for, coherence between its parts, order and completeness of pages and series.

  \<^bold>\<open>Requests and session.\<close> \<open>ApiClient\<close> is \<open>lib/api/client.ts\<close> and \<open>config.ts\<close>: one request with its timeout, its
  refusals and its decoding. \<open>AuthCoordination\<close> is \<open>features/auth-coordination.ts\<close>: messages between tabs, the lease that
  lets one tab refresh the session, the marker of a logout. \<open>AuthSession\<close> is the session provider
  (\<open>features/auth-session.tsx\<close> and its runtime) as a state machine whose events are the answers, messages and timers.
  \<open>QueryCache\<close> and \<open>PanelQuery\<close> are the query keys, the caches of a session and the pace of polling.
  \<open>AccessContext\<close>, \<open>InventoryContext\<close> and \<open>WorkspaceGuard\<close> decide which organization, site and device a page is about and
  who sees it; \<open>LoginModel\<close> is the login form, its return address and its waiting time, \<open>LoginPage\<close> the page
  (\<open>features/login.tsx\<close>) that sends the attempts and leaves for that address.

  \<^bold>\<open>Control.\<close> \<open>Overview\<close> has the interlock of remote control; \<open>CommandControls\<close> the card that sends commands
  (\<open>features/command-controls.tsx\<close>); \<open>VfdSettingsChange\<close> the changes of converter settings; \<open>SchedulePanel\<close> and
  \<open>TimeInput\<close> the schedules; \<open>Acknowledgement\<close> the buttons for alarms and notifications; \<open>TelemetryChart\<close> the history chart.
  \<open>DeviceView\<close> is what the lists of \<open>features/inventory.tsx\<close> and the status panel of \<open>features/device-overview.tsx\<close> say:
  pages, presence, whether the equipment runs, which readings are shown; \<open>Feeds\<close> the lists of incidents, notifications
  and events and the words of the journal; \<open>DatePicker\<close> the date field and its calendar.

  \<^bold>\<open>Forms.\<close> \<open>AccountAction\<close> is \<open>features/use-account-action.ts\<close>, one action at a time. On it stand \<open>EquipmentActions\<close>,
  \<open>InstallerForm\<close>, \<open>ControllerLifecycle\<close>, \<open>FactoryActions\<close> with \<open>FactoryEquipment\<close> and \<open>FactoryRegister\<close> (equipment, controllers
  and their keys),
  \<open>Onboarding\<close> (claiming a controller), \<open>MemberAccess\<close> (members), \<open>AccountForms\<close>, \<open>StaffInvitation\<close> and \<open>AccountSecurity\<close> (accounts).

  \<^bold>\<open>The staff console\<close> (\<open>features/operations\<close>). \<open>StaffConsole\<close> has the dialog with the proof of the person, the pager, the
  sections and the panel of people (\<open>shared.tsx\<close>, \<open>console.tsx\<close>, \<open>people.tsx\<close>); \<open>StaffOrganizations\<close> and \<open>StaffMembers\<close> the
  organizations, their sites and their members (\<open>organizations.tsx\<close>), \<open>StaffObservability\<close> the panels that only watch. Their theorems say that a change is sent only with a
  proof typed for this change, and with the revision and the fields that were shown.

  \<^bold>\<open>How components are modelled.\<close> A React component or hook is a record of its state and references, with one function
  per handler, effect or answer; an event carries what the rendering in which it happens reads (the view), so the
  theorems hold whatever the properties, queries and permissions become in between. An asynchronous handler is split at
  its \<open>await\<close>: the part before makes the request, which is kept in a list of requests sent, and an event with the outcome
  runs the rest. A theorem about a component is about all runs: \<open>foldl\<close> of the step over a list of events, or an
  inductive set of reachable states. Loops are structural or have a measure; the scheduler is a relation whose runs are
  bounded by a measure (\<open>map_bounded_settles\<close>), so no fuel is used anywhere.

  \<^bold>\<open>Interfaces.\<close> Contracts that several components share are locales, interpreted on the models: the guarded button
  (\<open>Acknowledgement\<close>), \<open>request_log\<close> and its extension \<open>confirmed_form\<close> (\<open>AccountAction\<close>), the items and the cursors
  of pages (\<open>page_item\<close> in \<open>Inventory\<close>, \<open>cursor_order\<close> in \<open>Commands\<close>). From \<open>confirmed_form\<close> every form with a confirmation box gets the same
  theorem, \<open>confirmed_before\<close>: the box was ticked, and nothing it stood for changed until the request.

  \<^bold>\<open>What is left to the platform.\<close> The browser's URL parser, clocks, random identifiers, the storage's failures, the
  query library's decision when to fetch and the local time zone are parameters or events. Texts made by \<open>Intl\<close>, focus,
  markup and styles are not modelled, nor is the validation of inputs by the browser, which no theorem assumes.

  \<^bold>\<open>Not modelled.\<close> Views that only lay out validated data (the passport, the layout of all pages, the shell) and the
  demonstration data;
  the generated types of \<open>schema.d.ts\<close>; and the other programs of the repository: the server (\<open>backend\<close>, Python), the
  firmware (C++), the simulator, scripts and infrastructure. The server is the other side of every request: what it
  answers is an arbitrary \<open>json\<close> here.
\<close>

section \<open>The factory's form and its validation together\<close>


text \<open>Opening the form, marking the draft as reviewed and saving.\<close>

definition open_review_save :: "factory_view \<Rightarrow> (factory_view \<times> factory_event) list" where
  "open_review_save v = [(v, OpenEquipment), (v, EditDraft (DraftReviewed True)), (v, FactoryActions.Submit)]"

lemma open_review_save_sends:
  assumes "validateFactoryEquipment ((factoryEquipmentDraft (Some e))\<lparr>dr_reviewed := True\<rparr>) (fv_profiles v) (Some e)
      = \<lparr> pp_equipment = Some e, pp_valid = True, pp_error = None \<rparr>"
    and "fv_prepared v = Some e" and "fv_editable v"
  shows "fc_sent (factory_run v (open_review_save v)) = [EquipmentPatch (fv_id v) (fv_generation v) (preparation_revision v) (Some e)]"
    and "never_reopened v (open_review_save v)"
proof -
  let ?d = "factoryEquipmentDraft (Some e)" and ?deps = "\<lambda>d. (d, fv_profiles v, Some e)"
  define s1 where "s1 = factory_step (factory_start v) (v, OpenEquipment)"
  define s2 where "s2 = factory_step s1 (v, EditDraft (DraftReviewed True))"
  have shown: "dr_supply ?d = CabinetSupply" by (simp add: factoryEquipmentDraft_def)
  have s1: "fc_action s1 = Some Equipment" "fc_child s1 = Some ?d" "fc_seen s1 = Some (?deps ?d)" "fc_sent s1 = []"
    "fc_run s1 = no_action" "fc_review s1 = Some (fv_generation v, preparation_revision v)"
    using assms(2,3)
    by (simp_all add: s1_def factory_step_def handle_def after_render_def open_equipment_def factory_start_def Let_def)
  have r1: "after_render v s1 = s1" using s1 assms(2) by (simp add: after_render_def)
  have s2: "fc_action s2 = Some Equipment" "fc_child s2 = Some (?d\<lparr>dr_reviewed := True\<rparr>)"
    "fc_seen s2 = Some (?deps (?d\<lparr>dr_reviewed := True\<rparr>))" "fc_sent s2 = []" "fc_run s2 = no_action"
    "fc_review s2 = Some (fv_generation v, preparation_revision v)"
    "fc_preparation s2 = \<lparr> pp_equipment = Some e, pp_valid = True, pp_error = None \<rparr>"
    using s1 assms(1,2) shown unfolding s2_def factory_step_def fst_conv snd_conv r1
    by (simp_all add: handle_def after_render_def Let_def) (simp_all add: factoryEquipmentDraft_def)
  have r2: "after_render v s2 = s2" using s2 assms(2) by (simp add: after_render_def)
  have "factory_request_of v s2 = Some (EquipmentPatch (fv_id v) (fv_generation v) (preparation_revision v) (Some e))"
    using s2 assms(3) by (simp add: factory_request_of_def preparation_changed_def)
  then have "fc_sent (factory_step s2 (v, FactoryActions.Submit))
      = [EquipmentPatch (fv_id v) (fv_generation v) (preparation_revision v) (Some e)]"
    using s2 by (simp add: factory_step_sent event_request_def r2)
  then show "fc_sent (factory_run v (open_review_save v))
      = [EquipmentPatch (fv_id v) (fv_generation v) (preparation_revision v) (Some e)]"
    by (simp add: factory_run_def open_review_save_def s1_def s2_def)
  show "never_reopened v (open_review_save v)"
    by (simp add: never_reopened_def open_review_save_def reopened_def factory_start_def)
qed

text \<open>C33: Saving a stored passport again changes nothing: when the equipment of a controller could have been saved by this
  form and its profile is still in the catalogue, opening the form, confirming the review and submitting stores exactly
  the same equipment, every number, text and absent value preserved.\<close>

theorem stored_equipment_roundtrip:
  assumes "limits_fit e" and "texts_clean e" and "numbers_plain e"
    and "List.find (\<lambda>item. js_upper (pf_manufacturer item) = ''SUSWE'' \<and> pf_id item = fe_profile_id e) items = Some p"
    and "profile_fits p e"
    and "fv_prepared v = Some e" and "fv_profiles v = Some items" and "fv_editable v"
  shows "fc_sent (factory_run v (open_review_save v))
    = [EquipmentPatch (fv_id v) (fv_generation v) (preparation_revision v) (Some e)]"
  using factory_equipment_roundtrip [OF assms(1-5)] assms(6-8) by (intro open_review_save_sends(1)) simp_all

section \<open>Examples\<close>

definition stored_view :: factory_view where
  "stored_view = \<lparr> fv_id = ''c1'', fv_generation = 2, fv_preparation_revision = Some 5, fv_editable = True,
     fv_transport_editable = False, fv_transport = None, fv_last_transport = None, fv_status = ''ready'',
     fv_prepared = Some sample_equipment, fv_profiles = Some [sample_profile] \<rparr>"


lemma stored_equipment_roundtrip_witness:
  "fc_sent (factory_run stored_view (open_review_save stored_view)) = [EquipmentPatch ''c1'' 2 5 (Some sample_equipment)]"
proof -
  have v: "fv_prepared stored_view = Some sample_equipment" "fv_profiles stored_view = Some [sample_profile]"
    "fv_editable stored_view" by (simp_all add: stored_view_def)
  have w: "fv_id stored_view = ''c1''" "fv_generation stored_view = 2" "preparation_revision stored_view = 5"
    by (simp_all add: stored_view_def preparation_revision_def)
  from stored_equipment_roundtrip [OF sample_equipment_ok(1-3,5,4) v] show ?thesis by (simp only: w)
qed

end
